(* ===== verification/Prelude.thy ===== *)
theory Prelude
  imports Main
begin

text \<open>
  Shared vocabulary of the development. Exceptions are values of \<open>error + 'a\<close>, one constructor
  per exception class of the source with the message it is thrown with; \<open>throw_if\<close> is the
  source's \<open>if (c) throw e;\<close> and \<open>and_then\<close> sequences two computations that can throw. A SQL
  table is a list of rows in insertion order; \<open>update_rows\<close> is an \<open>UPDATE .. SET .. WHERE\<close> and
  \<open>changes\<close> the number of rows it matched.
\<close>

named_theorems result_simps \<open>elimination of the error monad\<close>
named_theorems table_simps \<open>lookup and update of SQL tables\<close>

section \<open>Exceptions as values\<close>

datatype error = Error string | RangeError string | ClaimFenceError string

type_synonym 'a result = "error + 'a"

definition throw_if :: "bool \<Rightarrow> error \<Rightarrow> 'a result \<Rightarrow> 'a result" where
  "throw_if c e k = (if c then Inl e else k)"

definition and_then :: "'a result \<Rightarrow> ('a \<Rightarrow> 'b result) \<Rightarrow> 'b result" where
  "and_then r f = (case r of Inl e \<Rightarrow> Inl e | Inr x \<Rightarrow> f x)"

definition succeeds :: "'a result \<Rightarrow> bool" where
  "succeeds r = (case r of Inl _ \<Rightarrow> False | Inr _ \<Rightarrow> True)"

lemma throw_if_Inr [result_simps]: "throw_if c e k = Inr x \<longleftrightarrow> \<not> c \<and> k = Inr x"
  by (simp add: throw_if_def)

lemma throw_if_False [simp]: "throw_if False e k = k"
  by (simp add: throw_if_def)

lemma throw_if_True [simp]: "throw_if True e k = Inl e"
  by (simp add: throw_if_def)

lemma and_then_Inr [result_simps]: "and_then r f = Inr y \<longleftrightarrow> (\<exists>x. r = Inr x \<and> f x = Inr y)"
  by (cases r) (simp_all add: and_then_def)

lemma and_then_simps [simp]:
  "and_then (Inr x) f = f x" "and_then (Inl e) f = Inl e"
  by (simp_all add: and_then_def)

lemma succeeds_simps [simp]: "succeeds (Inr x)" "\<not> succeeds (Inl e)"
  by (simp_all add: succeeds_def)

lemma succeeds_iff: "succeeds r \<longleftrightarrow> (\<exists>x. r = Inr x)"
  by (cases r) simp_all

text \<open>A \<open>for .. of\<close> loop whose body can throw: the rest of the list is skipped then.\<close>

fun run_until_throw :: "('r \<Rightarrow> 's \<Rightarrow> 's \<times> unit result) \<Rightarrow> 'r list \<Rightarrow> 's \<Rightarrow> 's \<times> unit result" where
  "run_until_throw f [] s = (s, Inr ())"
| "run_until_throw f (r # rs) s = (case f r s of (s', Inl e) \<Rightarrow> (s', Inl e)
     | (s', Inr _) \<Rightarrow> run_until_throw f rs s')"

section \<open>Numbers as text\<close>

definition digit_chars :: string where
  "digit_chars = ''0123456789''"

fun nat_str :: "nat \<Rightarrow> string" where
  "nat_str n = (if n < 10 then [digit_chars ! n] else nat_str (n div 10) @ [digit_chars ! (n mod 10)])"

declare nat_str.simps [simp del]

definition int_str :: "int \<Rightarrow> string" where
  "int_str n = (if n < 0 then ''-'' @ nat_str (nat (- n)) else nat_str (nat n))"

section \<open>SQL tables\<close>

definition update_rows :: "('r \<Rightarrow> bool) \<Rightarrow> ('r \<Rightarrow> 'r) \<Rightarrow> 'r list \<Rightarrow> 'r list" where
  "update_rows p f rows = map (\<lambda>r. if p r then f r else r) rows"

definition changes :: "('r \<Rightarrow> bool) \<Rightarrow> 'r list \<Rightarrow> nat" where
  "changes p rows = length (filter p rows)"

definition exists_row :: "('r \<Rightarrow> bool) \<Rightarrow> 'r list \<Rightarrow> bool" where
  "exists_row p rows = list_ex p rows"

lemma exists_row_iff [table_simps]: "exists_row p rows \<longleftrightarrow> (\<exists>r \<in> set rows. p r)"
  by (simp add: exists_row_def list_ex_iff)

lemma length_update_rows [simp, table_simps]: "length (update_rows p f rows) = length rows"
  by (simp add: update_rows_def)

lemma update_rows_Nil [simp]: "update_rows p f [] = []"
  by (simp add: update_rows_def)

lemma update_rows_Cons [simp]:
  "update_rows p f (r # rows) = (if p r then f r else r) # update_rows p f rows"
  by (simp add: update_rows_def)

lemma set_update_rows [table_simps]:
  "set (update_rows p f rows) = (\<lambda>r. if p r then f r else r) ` set rows"
  by (simp add: update_rows_def)

lemma map_key_update_rows:
  assumes "\<And>r. key (f r) = key r"
  shows "map key (update_rows p f rows) = map key rows"
  using assms by (simp add: update_rows_def)

text \<open>Reading a row by its key after an update that keeps the keys.\<close>

lemma find_update_rows:
  assumes "\<And>r. key (f r) = key r"
  shows "find (\<lambda>r. key r = k) (update_rows p f rows)
    = map_option (\<lambda>r. if p r then f r else r) (find (\<lambda>r. key r = k) rows)"
  using assms by (induction rows) auto

lemma find_SomeD: "find p rows = Some r \<Longrightarrow> r \<in> set rows \<and> p r"
  by (auto simp: find_Some_iff)

lemma find_key_unique:
  assumes "distinct (map key rows)" "r \<in> set rows"
  shows "find (\<lambda>x. key x = key r) rows = Some r"
  using assms by (induction rows) (auto simp: image_iff)

lemma find_append [table_simps]:
  "find p (xs @ ys) = (case find p xs of Some r \<Rightarrow> Some r | None \<Rightarrow> find p ys)"
  by (induction xs) auto

text \<open>With a unique key, an update by key and a further guard changes one row or none.\<close>

lemma changes_by_key:
  assumes "distinct (map key rows)"
  shows "changes (\<lambda>r. key r = k \<and> g r) rows
    = (case find (\<lambda>r. key r = k) rows of None \<Rightarrow> 0 | Some r \<Rightarrow> if g r then 1 else 0)"
  using assms
proof (induction rows)
  case Nil
  then show ?case by (simp add: changes_def)
next
  case (Cons a rows)
  then have IH: "changes (\<lambda>r. key r = k \<and> g r) rows
    = (case find (\<lambda>r. key r = k) rows of None \<Rightarrow> 0 | Some r \<Rightarrow> if g r then 1 else 0)"
    by simp
  show ?case
  proof (cases "key a = k")
    case True
    with Cons.prems have "\<forall>r \<in> set rows. key r \<noteq> k"
      by (metis distinct.simps(2) image_eqI list.simps(9) set_map)
    then have "find (\<lambda>r. key r = k) rows = None"
      by (simp add: find_None_iff)
    with IH True show ?thesis by (simp add: changes_def)
  next
    case False
    with IH show ?thesis by (simp add: changes_def)
  qed
qed

section \<open>A row store with compare-and-swap updates\<close>

text \<open>
  The interface every table offers its clients: a guarded update of one row by key (an
  \<open>UPDATE .. WHERE key = ? AND guard\<close> whose \<open>changes\<close> count is read) and the lookup by key. The
  clients' facts about racing writers are proved here once.
\<close>

locale row_store =
  fixes get :: "'d \<Rightarrow> 'k \<Rightarrow> 'r option"
    and cas :: "('r \<Rightarrow> bool) \<Rightarrow> ('r \<Rightarrow> 'r) \<Rightarrow> 'k \<Rightarrow> 'd \<Rightarrow> 'd \<times> bool"
    and wf :: "'d \<Rightarrow> bool"
    and ok :: "('r \<Rightarrow> 'r) \<Rightarrow> bool"
  assumes cas_wins: "\<lbrakk> wf d; ok f \<rbrakk> \<Longrightarrow> snd (cas g f k d) = (case get d k of None \<Rightarrow> False | Some r \<Rightarrow> g r)"
    and get_cas: "\<lbrakk> wf d; ok f \<rbrakk> \<Longrightarrow> get (fst (cas g f k d)) k' =
      (if k' = k then map_option (\<lambda>r. if g r then f r else r) (get d k) else get d k')"
    and wf_cas: "\<lbrakk> wf d; ok f \<rbrakk> \<Longrightarrow> wf (fst (cas g f k d))"
begin

lemma second_writer_loses:
  assumes "wf d" "ok f" "\<And>r. g r \<Longrightarrow> \<not> g (f r)" "snd (cas g f k d)"
  shows "\<not> snd (cas g f k (fst (cas g f k d)))"
  using assms cas_wins [OF wf_cas [OF assms(1,2)] assms(2)]
  by (auto simp: get_cas cas_wins split: option.splits)

lemma other_rows_untouched:
  assumes "wf d" "ok f" "k' \<noteq> k"
  shows "get (fst (cas g f k d)) k' = get d k'"
  using assms by (simp add: get_cas)

lemma losing_write_changes_nothing:
  assumes "wf d" "ok f" "\<not> snd (cas g f k d)"
  shows "get (fst (cas g f k d)) k' = get d k'"
  using assms by (auto simp: get_cas cas_wins split: option.splits)

end

section \<open>A pass over a snapshot of rows\<close>

text \<open>
  A loop that reads a list of rows once and then handles them one after the other, each step writing
  only its own row. What such a pass leaves behind is proved here once: rows outside the snapshot
  are untouched, and each row of the snapshot ends as its own step leaves it.
\<close>

locale row_pass =
  fixes get :: "'d \<Rightarrow> 'k \<Rightarrow> 'r option"
    and key :: "'r \<Rightarrow> 'k"
    and step :: "'r \<Rightarrow> 'd \<Rightarrow> 'd"
    and wf :: "'d \<Rightarrow> bool"
  assumes wf_step: "wf d \<Longrightarrow> wf (step r d)"
    and local_step: "\<lbrakk> wf d; k \<noteq> key r \<rbrakk> \<Longrightarrow> get (step r d) k = get d k"
begin

lemma wf_pass: "wf d \<Longrightarrow> wf (fold step rs d)"
  by (induction rs arbitrary: d) (simp_all add: wf_step)

lemma pass_outside: "\<lbrakk> wf d; k \<notin> key ` set rs \<rbrakk> \<Longrightarrow> get (fold step rs d) k = get d k"
  by (induction rs arbitrary: d) (simp_all add: wf_step local_step)

lemma pass_row:
  assumes "wf d" "distinct (map key rs)" "r \<in> set rs"
  obtains d1 where "wf d1" "get d1 (key r) = get d (key r)"
    "get (fold step rs d) (key r) = get (step r d1) (key r)"
  using assms
proof (induction rs arbitrary: d thesis)
  case (Cons x rs)
  show ?case
  proof (cases "r = x")
    case True
    have "get (fold step rs (step x d)) (key x) = get (step x d) (key x)"
      using Cons.prems by (intro pass_outside) (auto simp: wf_step)
    then show ?thesis using Cons.prems True by (intro Cons.prems(1) [of d]) auto
  next
    case False
    with Cons.prems have r: "r \<in> set rs" "key r \<noteq> key x" by (auto simp: image_iff)
    show ?thesis
    proof (rule Cons.IH [of "step x d"])
      fix d1 assume d1: "wf d1" "get d1 (key r) = get (step x d) (key r)"
        "get (fold step rs (step x d)) (key r) = get (step r d1) (key r)"
      then show ?thesis using Cons.prems(2) r by (intro Cons.prems(1) [of d1]) (auto simp: local_step)
    qed (use Cons.prems r in \<open>auto simp: wf_step\<close>)
  qed
qed simp

end

text \<open>
  The same for a loop that a throw cuts short, whose steps also carry counters along: a row of the
  snapshot is either not reached or as its step leaves it, and when no step can throw all are reached.
\<close>

locale throwing_pass =
  fixes get :: "'d \<Rightarrow> 'k \<Rightarrow> 'r option"
    and key :: "'r \<Rightarrow> 'k"
    and step :: "'r \<Rightarrow> 'd \<times> 'x \<Rightarrow> ('d \<times> 'x) \<times> unit result"
    and wf :: "'d \<Rightarrow> bool"
  assumes wf_step: "wf d \<Longrightarrow> wf (fst (fst (step r (d, x))))"
    and local_step: "\<lbrakk> wf d; k \<noteq> key r \<rbrakk> \<Longrightarrow> get (fst (fst (step r (d, x)))) k = get d k"
begin

lemma wf_pass: "wf d \<Longrightarrow> wf (fst (fst (run_until_throw step rs (d, x))))"
proof (induction rs arbitrary: d x)
  case (Cons r rs)
  with wf_step [OF Cons.prems, of r x] show ?case
    by (cases "step r (d, x)") (auto split: sum.split)
qed simp

lemma pass_outside:
  "\<lbrakk> wf d; k \<notin> key ` set rs \<rbrakk> \<Longrightarrow> get (fst (fst (run_until_throw step rs (d, x)))) k = get d k"
proof (induction rs arbitrary: d x)
  case (Cons r rs)
  with wf_step [OF Cons.prems(1), of r x] local_step [OF Cons.prems(1), of k r x] show ?case
    by (cases "step r (d, x)") (auto split: sum.split)
qed simp

text \<open>An invariant of the store that each step keeps while its row is current.\<close>

lemma pass_inv:
  assumes "wf d" "I d" "distinct (map key rs)" "\<And>r. r \<in> set rs \<Longrightarrow> get d (key r) = Some r"
    and "\<And>d x r. \<lbrakk> wf d; I d; r \<in> set rs; get d (key r) = Some r \<rbrakk> \<Longrightarrow> I (fst (fst (step r (d, x))))"
  shows "I (fst (fst (run_until_throw step rs (d, x))))"
  using assms
proof (induction rs arbitrary: d x)
  case (Cons r rs)
  obtain d' x' res where st: "step r (d, x) = ((d', x'), res)" by (metis prod.exhaust)
  have cur: "get d (key r) = Some r" using Cons.prems(4) [of r] by simp
  have I: "I d'" using Cons.prems(5) [OF Cons.prems(1,2) _ cur, of x] st by simp
  have wf: "wf d'" using wf_step [OF Cons.prems(1), of r x] st by simp
  have rows: "get d' (key s) = Some s" if s: "s \<in> set rs" for s
  proof -
    have "key s \<noteq> key r" using Cons.prems(3) s by (auto simp: image_iff)
    with local_step [OF Cons.prems(1), of "key s" r x] Cons.prems(4) [of s] s st show ?thesis by simp
  qed
  have "I (fst (fst (run_until_throw step rs (d', x'))))"
    by (rule Cons.IH [OF wf I _ rows]) (use Cons.prems(3,5) in auto)
  with I show ?case by (simp add: st split: sum.split)
qed simp

lemma pass_row:
  assumes "wf d" "distinct (map key rs)" "\<And>r. r \<in> set rs \<Longrightarrow> get d (key r) = Some r" "s \<in> set rs" "Q s"
    and "\<And>d x r'. \<lbrakk> wf d; get d (key s) = Some s; get (fst (fst (step s (d, x)))) (key s) = Some r' \<rbrakk> \<Longrightarrow> Q r'"
    and "get (fst (fst (run_until_throw step rs (d, x)))) (key s) = Some r'"
  shows "Q r'"
  using assms
proof (induction rs arbitrary: d x)
  case (Cons r rs)
  obtain d' x' res where st: "step r (d, x) = ((d', x'), res)" by (metis prod.exhaust)
  have wf: "wf d'" using wf_step [OF Cons.prems(1), of r x] st by simp
  show ?case
  proof (cases "s = r")
    case True
    have "key s \<notin> key ` set rs" using Cons.prems(2) True by simp
    from pass_outside [OF wf this, of x'] have "get d' (key s) = Some r'"
      using Cons.prems(7) st by (auto split: sum.splits)
    then show ?thesis using Cons.prems(6) [OF Cons.prems(1), of x] Cons.prems(3) [of r] st True by simp
  next
    case False
    with Cons.prems have s: "s \<in> set rs" "key s \<noteq> key r" by (auto simp: image_iff)
    have rows: "get d' (key t) = Some t" if t: "t \<in> set rs" for t
    proof -
      have "key t \<noteq> key r" using Cons.prems(2) t by (auto simp: image_iff)
      with local_step [OF Cons.prems(1), of "key t" r x] Cons.prems(3) [of t] t st show ?thesis by simp
    qed
    show ?thesis
    proof (cases res)
      case (Inl e)
      with Cons.prems(7) st rows [OF s(1)] Cons.prems(5) show ?thesis by simp
    next
      case (Inr u)
      with Cons.prems(7) st have "get (fst (fst (run_until_throw step rs (d', x')))) (key s) = Some r'" by simp
      from Cons.IH [OF wf _ rows s(1) Cons.prems(5,6) this] Cons.prems(2) show ?thesis by simp
    qed
  qed
qed simp

lemma pass_total:
  assumes "wf d" "distinct (map key rs)" "\<And>r. r \<in> set rs \<Longrightarrow> get d (key r) = Some r"
    and "\<And>d x r. \<lbrakk> wf d; r \<in> set rs; get d (key r) = Some r \<rbrakk> \<Longrightarrow>
      snd (step r (d, x)) = Inr () \<and> (\<exists>r'. get (fst (fst (step r (d, x)))) (key r) = Some r' \<and> Q r r')"
  shows "snd (run_until_throw step rs (d, x)) = Inr ()
    \<and> (\<forall>r \<in> set rs. \<exists>r'. get (fst (fst (run_until_throw step rs (d, x)))) (key r) = Some r' \<and> Q r r')"
  using assms
proof (induction rs arbitrary: d x)
  case (Cons r rs)
  obtain d' x' res where st: "step r (d, x) = ((d', x'), res)" by (metis prod.exhaust)
  have wf: "wf d'" using wf_step [OF Cons.prems(1), of r x] st by simp
  have one: "res = Inr ()" "\<exists>r'. get d' (key r) = Some r' \<and> Q r r'"
    using Cons.prems(4) [OF Cons.prems(1), of r x] Cons.prems(3) [of r] st by simp_all
  have rows: "get d' (key s) = Some s" if s: "s \<in> set rs" for s
  proof -
    have "key s \<noteq> key r" using Cons.prems(2) s by (auto simp: image_iff)
    with local_step [OF Cons.prems(1), of "key s" r x] Cons.prems(3) [of s] s st show ?thesis by simp
  qed
  have "key r \<notin> key ` set rs" using Cons.prems(2) by simp
  from pass_outside [OF wf this, of x'] one(2)
  have "\<exists>r'. get (fst (fst (run_until_throw step rs (d', x')))) (key r) = Some r' \<and> Q r r'" by simp
  moreover have "snd (run_until_throw step rs (d', x')) = Inr ()
    \<and> (\<forall>r \<in> set rs. \<exists>r'. get (fst (fst (run_until_throw step rs (d', x')))) (key r) = Some r' \<and> Q r r')"
    by (rule Cons.IH [OF wf _ rows]) (use Cons.prems(2,4) in auto)
  ultimately show ?case by (simp add: st one(1))
qed simp

end

end
