(* ===== verification/Evidence.thy ===== *)
theory Evidence
  imports Complex_Main "HOL-Library.Monad_Syntax" Prelude
begin

text \<open>
  Outbound failure evidence: \<^verbatim>\<open>src/core/outbound-failure-disposition.ts\<close>. A failed send is
  recorded as one bounded evidence value that says how far the provider call got, whether and by
  whom it is retried, and how many attempts it has cost. The theory holds the evidence record, its
  validator, the codec of the durable text column, the classifier of thrown errors, the constructor
  for internal failures, the quarantine dispositions with their policies, and the retry hand-over.

  Instants are the integer milliseconds of \<^verbatim>\<open>Date\<close>. An ISO string is represented by its instant:
  \<open>isIsoTimestamp\<close> says which instants print as the 24-character form the evidence accepts, and
  \<open>iso_less\<close> is the string comparison of two printed instants. A stored text is represented by its
  byte length and the value \<^verbatim>\<open>JSON.parse\<close> reads from it, if it parses.
\<close>

section \<open>JSON values and stored texts\<close>

datatype jnum = Num rat | NotFinite

datatype json = JNull | JBool bool | JNum jnum | JStr string | JIso int
  | JArr "json list" | JObj "(string \<times> json) list"

datatype stored_text = Text nat "json option"

fun text_bytes :: "stored_text \<Rightarrow> nat" where
  "text_bytes (Text n _) = n"

fun text_parse :: "stored_text \<Rightarrow> json option" where
  "text_parse (Text _ v) = v"

fun field :: "string \<Rightarrow> json \<Rightarrow> json option" where
  "field k (JObj kvs) = map_of kvs k"
| "field k _ = None"

fun decimal_digits :: "nat \<Rightarrow> nat" where
  "decimal_digits n = (if n < 10 then 1 else Suc (decimal_digits (n div 10)))"

declare decimal_digits.simps [simp del]

definition int_bytes :: "int \<Rightarrow> nat" where
  "int_bytes n = (if n < 0 then 1 else 0) + decimal_digits (nat \<bar>n\<bar>)"

definition safe_integer :: "int \<Rightarrow> bool" where
  "safe_integer n \<longleftrightarrow> \<bar>n\<bar> \<le> 9007199254740991"

definition int_of_json :: "json \<Rightarrow> int option" where
  "int_of_json v = (case v of
     JNum (Num q) \<Rightarrow> if of_int \<lfloor>q\<rfloor> = q then Some \<lfloor>q\<rfloor> else None
   | _ \<Rightarrow> None)"

definition json_of_int :: "int \<Rightarrow> json" where
  "json_of_int n = JNum (Num (of_int n))"

section \<open>The bounded vocabularies\<close>

datatype stage = St_admission | St_provider_request | St_provider_response
  | St_acknowledgement | St_runtime

datatype mutation = Mu_not_started | Mu_rejected | Mu_ambiguous | Mu_submitted

datatype retry_decision = Rd_retry_now | Rd_retry_not_before | Rd_stop

datatype retry_owner = Ro_agent_queue | Ro_chat_runtime | Ro_send_tracked
  | Ro_pending_drainer | Ro_recovery | Ro_none

datatype budget = Bd_consume | Bd_preserve | Bd_stop

datatype coverage = Cv_complete | Cv_partial

datatype disposition = Qd_delivery_ambiguous_unsafe | Qd_delivery_not_attempted
  | Qd_record_unreconstructable | Qd_stale_status_discarded | Qd_legacy_unclassified

datatype transport_code = Tc_unsupported_capability | Tc_payload_too_large
  | Tc_conversation_not_found | Tc_auth_required | Tc_rate_limited
  | Tc_transient_provider | Tc_permanent_provider | Tc_send_ambiguous

datatype phase = Ph_not_started | Ph_provider_call_started | Ph_ack_received

datatype internal_code = Ic_unknown_failure | Ic_shutdown_before_send | Ic_shutdown_deadline
  | Ic_crash_in_flight | Ic_echo_timeout | Ic_superseded | Ic_pending_replay_unreconstructable
  | Ic_status_ping_expired | Ic_unsafe_delivery_unconfirmed | Ic_governor_shed
  | Ic_identity_blocked | Ic_replay_failed | Ic_deferral_limit_exceeded
  | Ic_replay_attempt_limit_exceeded

datatype failure_code = Transport transport_code | Internal internal_code

fun transport_code_str :: "transport_code \<Rightarrow> string" where
  "transport_code_str Tc_unsupported_capability = ''transport.unsupported_capability''"
| "transport_code_str Tc_payload_too_large = ''transport.payload_too_large''"
| "transport_code_str Tc_conversation_not_found = ''transport.conversation_not_found''"
| "transport_code_str Tc_auth_required = ''transport.auth_required''"
| "transport_code_str Tc_rate_limited = ''transport.rate_limited''"
| "transport_code_str Tc_transient_provider = ''transport.transient_provider''"
| "transport_code_str Tc_permanent_provider = ''transport.permanent_provider''"
| "transport_code_str Tc_send_ambiguous = ''transport.send_ambiguous''"

fun internal_code_str :: "internal_code \<Rightarrow> string" where
  "internal_code_str Ic_unknown_failure = ''outbound.unknown_failure''"
| "internal_code_str Ic_shutdown_before_send = ''outbound.shutdown_before_send''"
| "internal_code_str Ic_shutdown_deadline = ''outbound.shutdown_deadline''"
| "internal_code_str Ic_crash_in_flight = ''outbound.crash_in_flight''"
| "internal_code_str Ic_echo_timeout = ''outbound.echo_timeout''"
| "internal_code_str Ic_superseded = ''outbound.superseded''"
| "internal_code_str Ic_pending_replay_unreconstructable =
     ''outbound.pending_replay_unreconstructable''"
| "internal_code_str Ic_status_ping_expired = ''outbound.status_ping_expired''"
| "internal_code_str Ic_unsafe_delivery_unconfirmed = ''outbound.unsafe_delivery_unconfirmed''"
| "internal_code_str Ic_governor_shed = ''outbound.governor_shed''"
| "internal_code_str Ic_identity_blocked = ''outbound.identity_blocked''"
| "internal_code_str Ic_replay_failed = ''outbound.replay_failed''"
| "internal_code_str Ic_deferral_limit_exceeded = ''outbound.deferral_limit_exceeded''"
| "internal_code_str Ic_replay_attempt_limit_exceeded =
     ''outbound.replay_attempt_limit_exceeded''"

fun failure_code_str :: "failure_code \<Rightarrow> string" where
  "failure_code_str (Transport c) = transport_code_str c"
| "failure_code_str (Internal c) = internal_code_str c"

fun stage_str :: "stage \<Rightarrow> string" where
  "stage_str St_admission = ''admission''"
| "stage_str St_provider_request = ''provider_request''"
| "stage_str St_provider_response = ''provider_response''"
| "stage_str St_acknowledgement = ''acknowledgement''"
| "stage_str St_runtime = ''runtime''"

fun mutation_str :: "mutation \<Rightarrow> string" where
  "mutation_str Mu_not_started = ''not_started''"
| "mutation_str Mu_rejected = ''rejected''"
| "mutation_str Mu_ambiguous = ''ambiguous''"
| "mutation_str Mu_submitted = ''submitted''"

fun decision_str :: "retry_decision \<Rightarrow> string" where
  "decision_str Rd_retry_now = ''retry_now''"
| "decision_str Rd_retry_not_before = ''retry_not_before''"
| "decision_str Rd_stop = ''stop''"

fun owner_str :: "retry_owner \<Rightarrow> string" where
  "owner_str Ro_agent_queue = ''agent_queue''"
| "owner_str Ro_chat_runtime = ''chat_runtime''"
| "owner_str Ro_send_tracked = ''send_tracked''"
| "owner_str Ro_pending_drainer = ''pending_drainer''"
| "owner_str Ro_recovery = ''recovery''"
| "owner_str Ro_none = ''none''"

fun budget_str :: "budget \<Rightarrow> string" where
  "budget_str Bd_consume = ''consume''"
| "budget_str Bd_preserve = ''preserve''"
| "budget_str Bd_stop = ''stop''"

fun coverage_str :: "coverage \<Rightarrow> string" where
  "coverage_str Cv_complete = ''complete''"
| "coverage_str Cv_partial = ''partial''"

fun phase_str :: "phase \<Rightarrow> string" where
  "phase_str Ph_not_started = ''not_started''"
| "phase_str Ph_provider_call_started = ''provider_call_started''"
| "phase_str Ph_ack_received = ''ack_received''"

text \<open>The sets \<^verbatim>\<open>TRANSPORT_CODES\<close>, \<^verbatim>\<open>INTERNAL_CODES\<close>, \<^verbatim>\<open>STAGES\<close>, ..: every member, in source order.\<close>

definition TRANSPORT_CODES :: "transport_code list" where
  "TRANSPORT_CODES = [Tc_unsupported_capability, Tc_payload_too_large, Tc_conversation_not_found,
     Tc_auth_required, Tc_rate_limited, Tc_transient_provider, Tc_permanent_provider,
     Tc_send_ambiguous]"

definition INTERNAL_CODES :: "internal_code list" where
  "INTERNAL_CODES = [Ic_unknown_failure, Ic_shutdown_before_send, Ic_shutdown_deadline,
     Ic_crash_in_flight, Ic_echo_timeout, Ic_superseded, Ic_pending_replay_unreconstructable,
     Ic_status_ping_expired, Ic_unsafe_delivery_unconfirmed, Ic_governor_shed,
     Ic_identity_blocked, Ic_replay_failed, Ic_deferral_limit_exceeded,
     Ic_replay_attempt_limit_exceeded]"

definition OUTBOUND_FAILURE_EVIDENCE_CODES :: "failure_code list" where
  "OUTBOUND_FAILURE_EVIDENCE_CODES = map Transport TRANSPORT_CODES @ map Internal INTERNAL_CODES"

definition STAGES :: "stage list" where
  "STAGES = [St_admission, St_provider_request, St_provider_response, St_acknowledgement,
     St_runtime]"

definition MUTATION_STATES :: "mutation list" where
  "MUTATION_STATES = [Mu_not_started, Mu_rejected, Mu_ambiguous, Mu_submitted]"

definition RETRY_DECISIONS :: "retry_decision list" where
  "RETRY_DECISIONS = [Rd_retry_now, Rd_retry_not_before, Rd_stop]"

definition RETRY_OWNERS :: "retry_owner list" where
  "RETRY_OWNERS = [Ro_agent_queue, Ro_chat_runtime, Ro_send_tracked, Ro_pending_drainer,
     Ro_recovery, Ro_none]"

definition ATTEMPT_BUDGET_DISPOSITIONS :: "budget list" where
  "ATTEMPT_BUDGET_DISPOSITIONS = [Bd_consume, Bd_preserve, Bd_stop]"

definition EVIDENCE_COVERAGE :: "coverage list" where
  "EVIDENCE_COVERAGE = [Cv_complete, Cv_partial]"

definition PHASES :: "phase list" where
  "PHASES = [Ph_not_started, Ph_provider_call_started, Ph_ack_received]"

text \<open>Membership of a JSON string in one of the sets, as the member it names.\<close>

definition lookup_word :: "('a \<Rightarrow> string) \<Rightarrow> 'a list \<Rightarrow> json option \<Rightarrow> 'a option" where
  "lookup_word str members v = (case v of
     Some (JStr s) \<Rightarrow> find (\<lambda>m. str m = s) members
   | _ \<Rightarrow> None)"

section \<open>The evidence record\<close>

record evidence =
  failure_code :: failure_code
  stage :: stage
  mutation_state :: mutation
  retryable :: bool
  retry_decision :: retry_decision
  retry_not_before :: "int option"
  retry_owner :: retry_owner
  attempt_budget_disposition :: budget
  logical_attempt_count :: int
  provider_submission_count :: int
  first_failure_at :: int
  last_failure_at :: int
  evidence_coverage :: coverage

datatype decoded_evidence = LEGACY_UNCLASSIFIED | V1 evidence

fun v1_of :: "decoded_evidence \<Rightarrow> evidence option" where
  "v1_of LEGACY_UNCLASSIFIED = None"
| "v1_of (V1 e) = Some e"

section \<open>Timestamps\<close>

definition MIN_ISO_TIMESTAMP_MS :: int where
  "MIN_ISO_TIMESTAMP_MS = - 62167219200000"

definition MAX_ISO_TIMESTAMP_MS :: int where
  "MAX_ISO_TIMESTAMP_MS = 253402300799999"

definition isIsoTimestamp :: "int \<Rightarrow> bool" where
  "isIsoTimestamp t \<longleftrightarrow> MIN_ISO_TIMESTAMP_MS \<le> t \<and> t \<le> MAX_ISO_TIMESTAMP_MS"

definition toIsoTimestamp :: "int \<Rightarrow> int result" where
  "toIsoTimestamp nowMs =
     throw_if (\<bar>nowMs\<bar> > 8640000000000000) (RangeError ''Invalid time value'') (Inr nowMs)"

text \<open>
  The string order of two printed instants. Inside the 24-character range it is the order of the
  instants; an instant outside it prints with a sign, and both signs sort before every digit
  (\<^verbatim>\<open>+\<close> before \<^verbatim>\<open>-\<close>). Two instants of the same sign outside the range are compared as instants,
  which only matters for a previous evidence that no validated value carries.
\<close>

definition iso_less :: "int \<Rightarrow> int \<Rightarrow> bool" where
  "iso_less a b \<longleftrightarrow>
     (if isIsoTimestamp a \<and> isIsoTimestamp b then a < b
      else if isIsoTimestamp b then True
      else if isIsoTimestamp a then False
      else if a > MAX_ISO_TIMESTAMP_MS \<and> b < MIN_ISO_TIMESTAMP_MS then True
      else if a < MIN_ISO_TIMESTAMP_MS \<and> b > MAX_ISO_TIMESTAMP_MS then False
      else a < b)"

definition monotonicEvidenceTimestamp :: "int \<Rightarrow> evidence option \<Rightarrow> int result" where
  "monotonicEvidenceTimestamp nowMs previous =
     and_then (toIsoTimestamp nowMs) (\<lambda>candidate. Inr
       (case previous of
          None \<Rightarrow> candidate
        | Some p \<Rightarrow> if iso_less candidate (last_failure_at p) then last_failure_at p
                    else candidate))"

definition validPositiveDelay :: "jnum option \<Rightarrow> int \<Rightarrow> int option" where
  "validPositiveDelay value nowMs = (case value of
     Some (Num q) \<Rightarrow>
       if q \<le> 0 then None
       else let delayMs = \<lceil>q\<rceil>
            in if nowMs + delayMs \<le> MAX_ISO_TIMESTAMP_MS then Some delayMs else None
   | _ \<Rightarrow> None)"

section \<open>Stage and mutation state of a failure\<close>

definition stageFor :: "failure_code \<Rightarrow> phase option \<Rightarrow> stage" where
  "stageFor code ph =
     (if ph = Some Ph_not_started then St_admission
      else if ph = Some Ph_ack_received then St_acknowledgement
      else if code \<in> {Transport Tc_unsupported_capability, Transport Tc_payload_too_large,
                      Transport Tc_conversation_not_found, Internal Ic_governor_shed,
                      Internal Ic_identity_blocked, Internal Ic_shutdown_before_send}
      then St_admission
      else if code \<in> {Transport Tc_auth_required, Transport Tc_rate_limited,
                      Transport Tc_permanent_provider}
      then St_provider_response
      else St_provider_request)"

definition mutationStateFor :: "failure_code \<Rightarrow> phase option \<Rightarrow> mutation" where
  "mutationStateFor code ph =
     (if ph = Some Ph_not_started
         \<or> code \<in> {Transport Tc_unsupported_capability, Transport Tc_payload_too_large,
                   Transport Tc_conversation_not_found, Internal Ic_governor_shed,
                   Internal Ic_identity_blocked, Internal Ic_shutdown_before_send}
      then Mu_not_started
      else if code \<in> {Transport Tc_send_ambiguous, Transport Tc_transient_provider,
                      Internal Ic_unknown_failure, Internal Ic_shutdown_deadline,
                      Internal Ic_crash_in_flight, Internal Ic_echo_timeout,
                      Internal Ic_replay_failed}
              \<or> ph = Some Ph_ack_received
      then Mu_ambiguous
      else Mu_rejected)"

section \<open>Validation\<close>

text \<open>
  The semantic part of \<open>assertValidEvidence\<close>, the checks that remain once every field has its
  type: a typed record always has the right keys, schema, code and vocabulary.
\<close>

definition assertValidEvidence :: "evidence \<Rightarrow> evidence result" where
  "assertValidEvidence v =
     throw_if (\<not> safe_integer (logical_attempt_count v) \<or> logical_attempt_count v < 0)
       (Error ''Outbound logical attempt count must be a non-negative safe integer'')
    (throw_if (\<not> safe_integer (provider_submission_count v) \<or> provider_submission_count v < 0
         \<or> provider_submission_count v > logical_attempt_count v)
       (Error ''Outbound provider submission count contradicts logical attempts'')
    (throw_if (\<not> isIsoTimestamp (first_failure_at v) \<or> \<not> isIsoTimestamp (last_failure_at v)
         \<or> first_failure_at v > last_failure_at v)
       (Error ''Outbound failure evidence timestamps are invalid'')
    (throw_if (case retry_not_before v of None \<Rightarrow> False | Some t \<Rightarrow> \<not> isIsoTimestamp t)
       (Error ''Outbound retry-not-before must be an absolute ISO timestamp'')
    (throw_if (retry_decision v = Rd_retry_not_before
         \<and> (retry_not_before v = None \<or> retry_owner v \<noteq> Ro_pending_drainer
            \<or> attempt_budget_disposition v \<noteq> Bd_preserve \<or> \<not> retryable v
            \<or> mutation_state v = Mu_ambiguous \<or> mutation_state v = Mu_submitted))
       (Error ''Outbound deferred retry evidence is incoherent'')
    (throw_if (retry_decision v \<noteq> Rd_retry_not_before \<and> retry_not_before v \<noteq> None)
       (Error ''Outbound non-deferred evidence cannot carry retry-not-before'')
    (throw_if (retry_decision v = Rd_stop
         \<and> (retry_owner v \<noteq> Ro_none \<or> attempt_budget_disposition v \<noteq> Bd_stop))
       (Error ''Stopped outbound evidence cannot retain retry ownership or budget'')
    (throw_if (retry_decision v = Rd_retry_now
         \<and> (\<not> retryable v \<or> retry_owner v = Ro_none \<or> attempt_budget_disposition v = Bd_stop))
       (Error ''Immediate outbound retry evidence is incoherent'')
    (Inr v))))))))"

definition valid_evidence :: "evidence \<Rightarrow> bool" where
  "valid_evidence v \<longleftrightarrow> assertValidEvidence v = Inr v"

section \<open>The durable text column\<close>

definition OUTBOUND_FAILURE_EVIDENCE_SCHEMA :: string where
  "OUTBOUND_FAILURE_EVIDENCE_SCHEMA = ''whatsoup-outbound-failure-v1''"

definition OUTBOUND_FAILURE_EVIDENCE_MAX_BYTES :: nat where
  "OUTBOUND_FAILURE_EVIDENCE_MAX_BYTES = 2048"

definition V1_KEYS :: "string list" where
  "V1_KEYS = [''schema'', ''failure_code'', ''stage'', ''mutation_state'', ''retryable'',
     ''retry_decision'', ''retry_not_before'', ''retry_owner'', ''attempt_budget_disposition'',
     ''logical_attempt_count'', ''provider_submission_count'', ''first_failure_at'',
     ''last_failure_at'', ''evidence_coverage'']"

definition evidence_json :: "evidence \<Rightarrow> json" where
  "evidence_json v = JObj (zip V1_KEYS
     [JStr OUTBOUND_FAILURE_EVIDENCE_SCHEMA,
      JStr (failure_code_str (failure_code v)),
      JStr (stage_str (stage v)),
      JStr (mutation_str (mutation_state v)),
      JBool (retryable v),
      JStr (decision_str (retry_decision v)),
      (case retry_not_before v of None \<Rightarrow> JNull | Some t \<Rightarrow> JIso t),
      JStr (owner_str (retry_owner v)),
      JStr (budget_str (attempt_budget_disposition v)),
      json_of_int (logical_attempt_count v),
      json_of_int (provider_submission_count v),
      JIso (first_failure_at v),
      JIso (last_failure_at v),
      JStr (coverage_str (evidence_coverage v))])"

text \<open>
  The checks of the validator on a value of unknown shape: the exact key set, the schema and every
  field's vocabulary or type. Everything they refuse is read as legacy.
\<close>

definition iso_of_json :: "json option \<Rightarrow> int option" where
  "iso_of_json v = (case v of Some (JIso t) \<Rightarrow> Some t | _ \<Rightarrow> None)"

definition nullable_iso_of_json :: "json option \<Rightarrow> int option option" where
  "nullable_iso_of_json v = (case v of
     Some JNull \<Rightarrow> Some None | Some (JIso t) \<Rightarrow> Some (Some t) | _ \<Rightarrow> None)"

definition bool_of_json :: "json option \<Rightarrow> bool option" where
  "bool_of_json v = (case v of Some (JBool b) \<Rightarrow> Some b | _ \<Rightarrow> None)"

definition exact_keys :: "json \<Rightarrow> bool" where
  "exact_keys v = (case v of
     JObj kvs \<Rightarrow> length kvs = length V1_KEYS \<and> list_all (\<lambda>kv. fst kv \<in> set V1_KEYS) kvs
   | _ \<Rightarrow> False)"

definition evidence_of_json :: "json \<Rightarrow> evidence option" where
  "evidence_of_json v =
     (if \<not> exact_keys v \<or> field ''schema'' v \<noteq> Some (JStr OUTBOUND_FAILURE_EVIDENCE_SCHEMA)
      then None
      else do {
        code \<leftarrow> lookup_word failure_code_str OUTBOUND_FAILURE_EVIDENCE_CODES (field ''failure_code'' v);
        st \<leftarrow> lookup_word stage_str STAGES (field ''stage'' v);
        mu \<leftarrow> lookup_word mutation_str MUTATION_STATES (field ''mutation_state'' v);
        rb \<leftarrow> bool_of_json (field ''retryable'' v);
        rd \<leftarrow> lookup_word decision_str RETRY_DECISIONS (field ''retry_decision'' v);
        nb \<leftarrow> nullable_iso_of_json (field ''retry_not_before'' v);
        ro \<leftarrow> lookup_word owner_str RETRY_OWNERS (field ''retry_owner'' v);
        bd \<leftarrow> lookup_word budget_str ATTEMPT_BUDGET_DISPOSITIONS
               (field ''attempt_budget_disposition'' v);
        lc \<leftarrow> Option.bind (field ''logical_attempt_count'' v) int_of_json;
        pc \<leftarrow> Option.bind (field ''provider_submission_count'' v) int_of_json;
        ff \<leftarrow> iso_of_json (field ''first_failure_at'' v);
        lf \<leftarrow> iso_of_json (field ''last_failure_at'' v);
        cv \<leftarrow> lookup_word coverage_str EVIDENCE_COVERAGE (field ''evidence_coverage'' v);
        Some \<lparr>failure_code = code, stage = st, mutation_state = mu, retryable = rb,
              retry_decision = rd, retry_not_before = nb, retry_owner = ro,
              attempt_budget_disposition = bd, logical_attempt_count = lc,
              provider_submission_count = pc, first_failure_at = ff, last_failure_at = lf,
              evidence_coverage = cv\<rparr>
      })"

text \<open>The length of \<^verbatim>\<open>JSON.stringify\<close> on a flat object of strings that need no escapes.\<close>

fun scalar_bytes :: "json \<Rightarrow> nat" where
  "scalar_bytes JNull = 4"
| "scalar_bytes (JBool b) = (if b then 4 else 5)"
| "scalar_bytes (JNum (Num q)) = int_bytes \<lfloor>q\<rfloor>"
| "scalar_bytes (JStr s) = length s + 2"
| "scalar_bytes (JIso t) = (if isIsoTimestamp t then 26 else 29)"
| "scalar_bytes _ = 0"

fun flat_object_bytes :: "json \<Rightarrow> nat" where
  "flat_object_bytes (JObj kvs) =
     1 + sum_list (map (\<lambda>kv. length (fst kv) + 4 + scalar_bytes (snd kv)) kvs)"
| "flat_object_bytes _ = 0"

definition encodeOutboundFailureEvidence :: "evidence \<Rightarrow> stored_text result" where
  "encodeOutboundFailureEvidence ev =
     and_then (assertValidEvidence ev) (\<lambda>v.
       let encoded = Text (flat_object_bytes (evidence_json v)) (Some (evidence_json v)) in
       throw_if (text_bytes encoded > OUTBOUND_FAILURE_EVIDENCE_MAX_BYTES)
         (Error ''Outbound failure evidence exceeds the durable size bound'')
         (Inr encoded))"

definition decodeOutboundFailureEvidence :: "stored_text option \<Rightarrow> decoded_evidence" where
  "decodeOutboundFailureEvidence stored = (case stored of
     None \<Rightarrow> LEGACY_UNCLASSIFIED
   | Some t \<Rightarrow>
       if text_bytes t = 0 then LEGACY_UNCLASSIFIED
       else if text_bytes t > OUTBOUND_FAILURE_EVIDENCE_MAX_BYTES then LEGACY_UNCLASSIFIED
       else (case text_parse t of
          None \<Rightarrow> LEGACY_UNCLASSIFIED
        | Some parsed \<Rightarrow> (case evidence_of_json parsed of
             None \<Rightarrow> LEGACY_UNCLASSIFIED
           | Some v \<Rightarrow> (case assertValidEvidence v of
                Inl _ \<Rightarrow> LEGACY_UNCLASSIFIED
              | Inr v' \<Rightarrow> V1 v'))))"

section \<open>Classifying a thrown error\<close>

text \<open>
  A thrown value: its \<^verbatim>\<open>payload\<close> property (\<open>JNull\<close> when the error is no record or has none) and
  what \<^verbatim>\<open>isOutboundIdentityBlocked\<close> and \<^verbatim>\<open>isOutboundGovernorShed\<close> answer for it.
\<close>

record thrown =
  payload :: json
  identity_blocked :: bool
  governor_shed :: bool

record transport_payload =
  tp_code :: transport_code
  tp_retryable :: bool
  tp_phase :: "phase option"
  tp_retryAfterMs :: "jnum option"

definition readTransportPayload :: "thrown \<Rightarrow> transport_payload option" where
  "readTransportPayload err = do {
     code \<leftarrow> lookup_word transport_code_str TRANSPORT_CODES (field ''code'' (payload err));
     rb \<leftarrow> bool_of_json (field ''retryable'' (payload err));
     Some \<lparr>tp_code = code, tp_retryable = rb,
           tp_phase = lookup_word phase_str PHASES (field ''phase'' (payload err)),
           tp_retryAfterMs = (case field ''retryAfterMs'' (payload err) of
              Some (JNum n) \<Rightarrow> Some n | _ \<Rightarrow> None)\<rparr>
   }"

definition classifyOutboundFailure ::
  "thrown \<Rightarrow> int \<Rightarrow> retry_owner \<Rightarrow> int \<Rightarrow> evidence option \<Rightarrow> evidence result" where
  "classifyOutboundFailure err nowMs owner attemptsRemaining previous =
     throw_if (\<not> safe_integer attemptsRemaining \<or> attemptsRemaining < 0)
       (RangeError ''Outbound attempts remaining must be a non-negative safe integer'')
    (and_then (monotonicEvidenceTimestamp nowMs previous) (\<lambda>now.
     let pl = readTransportPayload err;
         code = (case pl of Some p \<Rightarrow> Transport (tp_code p)
                 | None \<Rightarrow> if identity_blocked err then Internal Ic_identity_blocked
                          else if governor_shed err then Internal Ic_governor_shed
                          else Internal Ic_unknown_failure);
         ph = Option.bind pl tp_phase;
         st = stageFor code ph;
         mu = mutationStateFor code ph;
         rb = (case pl of Some p \<Rightarrow> tp_retryable p
               | None \<Rightarrow> \<not> (identity_blocked err \<or> governor_shed err));
         retryAfterMs = (if rb \<and> mu \<noteq> Mu_ambiguous
                         then validPositiveDelay (Option.bind pl tp_retryAfterMs) nowMs
                         else None)
     in and_then
         (case retryAfterMs of
            Some d \<Rightarrow> and_then (toIsoTimestamp (nowMs + d)) (\<lambda>t.
               Inr (Rd_retry_not_before, Some t, Ro_pending_drainer, Bd_preserve))
          | None \<Rightarrow>
              if rb \<and> attemptsRemaining > 0 then Inr (Rd_retry_now, None, owner, Bd_consume)
              else Inr (Rd_stop, None, Ro_none, Bd_stop))
         (\<lambda>(decision, notBefore, retryOwner, bd).
          assertValidEvidence
           \<lparr>failure_code = code, stage = st, mutation_state = mu, retryable = rb,
            retry_decision = decision, retry_not_before = notBefore, retry_owner = retryOwner,
            attempt_budget_disposition = bd,
            logical_attempt_count =
              (case previous of None \<Rightarrow> 0 | Some p \<Rightarrow> logical_attempt_count p) + 1,
            provider_submission_count =
              (case previous of None \<Rightarrow> 0 | Some p \<Rightarrow> provider_submission_count p)
              + (if mu = Mu_not_started then 0 else 1),
            first_failure_at = (case previous of None \<Rightarrow> now | Some p \<Rightarrow> first_failure_at p),
            last_failure_at = now,
            evidence_coverage = (if pl = None then Cv_partial else Cv_complete)\<rparr>)))"

section \<open>Internal failures\<close>

record internal_options =
  io_failureCode :: internal_code
  io_stage :: stage
  io_mutationState :: mutation
  io_retryable :: "bool option"
  io_retryDecision :: "retry_decision option"
  io_retryNotBefore :: "int option"
  io_retryOwner :: "retry_owner option"
  io_attemptBudgetDisposition :: "budget option"
  io_logicalAttemptCount :: "int option"
  io_providerSubmissionCount :: "int option"
  io_previousEvidence :: "evidence option"
  io_evidenceCoverage :: "coverage option"

definition createInternalOutboundFailureEvidence :: "internal_options \<Rightarrow> int \<Rightarrow> evidence result" where
  "createInternalOutboundFailureEvidence opts nowMs =
     (let previous = io_previousEvidence opts in
      and_then (monotonicEvidenceTimestamp nowMs previous) (\<lambda>now.
      let decision = (case io_retryDecision opts of None \<Rightarrow> Rd_stop | Some d \<Rightarrow> d) in
      assertValidEvidence
       \<lparr>failure_code = Internal (io_failureCode opts), stage = io_stage opts,
        mutation_state = io_mutationState opts,
        retryable = (case io_retryable opts of None \<Rightarrow> False | Some b \<Rightarrow> b),
        retry_decision = decision,
        retry_not_before = io_retryNotBefore opts,
        retry_owner = (case io_retryOwner opts of
            None \<Rightarrow> if decision = Rd_stop then Ro_none else Ro_recovery | Some r \<Rightarrow> r),
        attempt_budget_disposition = (case io_attemptBudgetDisposition opts of
            None \<Rightarrow> if decision = Rd_stop then Bd_stop else Bd_consume | Some b \<Rightarrow> b),
        logical_attempt_count = (case io_logicalAttemptCount opts of
            None \<Rightarrow> (case previous of None \<Rightarrow> 0 | Some p \<Rightarrow> logical_attempt_count p) + 1
          | Some n \<Rightarrow> n),
        provider_submission_count = (case io_providerSubmissionCount opts of
            None \<Rightarrow> (case previous of None \<Rightarrow> 0 | Some p \<Rightarrow> provider_submission_count p)
          | Some n \<Rightarrow> n),
        first_failure_at = (case previous of None \<Rightarrow> now | Some p \<Rightarrow> first_failure_at p),
        last_failure_at = now,
        evidence_coverage = (case io_evidenceCoverage opts of None \<Rightarrow> Cv_complete | Some c \<Rightarrow> c)\<rparr>))"

section \<open>Quarantine dispositions\<close>

definition classifyOutboundQuarantineDisposition :: "evidence \<Rightarrow> disposition" where
  "classifyOutboundQuarantineDisposition ev =
     (if failure_code ev = Internal Ic_unsafe_delivery_unconfirmed
         \<and> mutation_state ev = Mu_ambiguous
      then Qd_delivery_ambiguous_unsafe
      else if \<not> (mutation_state ev = Mu_not_started \<and> provider_submission_count ev = 0)
      then Qd_legacy_unclassified
      else (case failure_code ev of
          Internal Ic_deferral_limit_exceeded \<Rightarrow> Qd_delivery_not_attempted
        | Internal Ic_replay_attempt_limit_exceeded \<Rightarrow> Qd_delivery_not_attempted
        | Internal Ic_pending_replay_unreconstructable \<Rightarrow> Qd_record_unreconstructable
        | Internal Ic_status_ping_expired \<Rightarrow> Qd_stale_status_discarded
        | _ \<Rightarrow> Qd_legacy_unclassified))"

datatype provider_call = Pc_possible | Pc_not_started | Pc_unknown
datatype severity = Sv_critical | Sv_warning | Sv_info
datatype acknowledgement = Ak_delivery_risk_reviewed | Ak_record_reconstruction_reviewed | Ak_none
datatype retention = Rt_extended | Rt_standard

record disposition_policy =
  providerCall :: provider_call
  alertSource :: string
  alertSeverity :: severity
  alertSummary :: string
  acknowledgement :: acknowledgement
  retention :: retention
  clearWhenContributorFree :: bool

fun OUTBOUND_QUARANTINE_DISPOSITION_POLICIES :: "disposition \<Rightarrow> disposition_policy" where
  "OUTBOUND_QUARANTINE_DISPOSITION_POLICIES Qd_delivery_ambiguous_unsafe =
     \<lparr>providerCall = Pc_possible, alertSource = ''outbound_delivery_ambiguous'',
      alertSeverity = Sv_critical,
      alertSummary = ''outbound delivery is ambiguous; automatic replay remains disabled'',
      acknowledgement = Ak_delivery_risk_reviewed, retention = Rt_extended,
      clearWhenContributorFree = True\<rparr>"
| "OUTBOUND_QUARANTINE_DISPOSITION_POLICIES Qd_delivery_not_attempted =
     \<lparr>providerCall = Pc_not_started, alertSource = ''outbound_delivery_not_attempted'',
      alertSeverity = Sv_warning,
      alertSummary = ''outbound delivery was not attempted and requires disposition review'',
      acknowledgement = Ak_none, retention = Rt_standard,
      clearWhenContributorFree = True\<rparr>"
| "OUTBOUND_QUARANTINE_DISPOSITION_POLICIES Qd_record_unreconstructable =
     \<lparr>providerCall = Pc_not_started, alertSource = ''outbound_record_unreconstructable'',
      alertSeverity = Sv_warning,
      alertSummary = ''outbound record cannot be reconstructed and requires review'',
      acknowledgement = Ak_record_reconstruction_reviewed, retention = Rt_standard,
      clearWhenContributorFree = True\<rparr>"
| "OUTBOUND_QUARANTINE_DISPOSITION_POLICIES Qd_stale_status_discarded =
     \<lparr>providerCall = Pc_not_started, alertSource = ''outbound_status_discarded'',
      alertSeverity = Sv_info,
      alertSummary = ''stale outbound status notice was discarded before send'',
      acknowledgement = Ak_none, retention = Rt_standard,
      clearWhenContributorFree = False\<rparr>"
| "OUTBOUND_QUARANTINE_DISPOSITION_POLICIES Qd_legacy_unclassified =
     \<lparr>providerCall = Pc_unknown, alertSource = ''outbound_quarantine_unclassified'',
      alertSeverity = Sv_warning,
      alertSummary = ''outbound quarantine lacks a classified disposition'',
      acknowledgement = Ak_delivery_risk_reviewed, retention = Rt_extended,
      clearWhenContributorFree = True\<rparr>"

section \<open>User notice and retry hand-over\<close>

definition NOTICE_ELIGIBLE_FAILURE_CODES :: "failure_code set" where
  "NOTICE_ELIGIBLE_FAILURE_CODES = {Transport Tc_payload_too_large, Transport Tc_unsupported_capability}"

definition outboundFailureWarrantsUserNotice :: "evidence \<Rightarrow> bool" where
  "outboundFailureWarrantsUserNotice ev \<longleftrightarrow>
     retry_decision ev = Rd_stop \<and> failure_code ev \<in> NOTICE_ELIGIBLE_FAILURE_CODES"

definition transferOutboundRetryOwnership :: "evidence \<Rightarrow> retry_owner \<Rightarrow> int \<Rightarrow> evidence result" where
  "transferOutboundRetryOwnership ev owner nowMs =
     and_then (monotonicEvidenceTimestamp nowMs (Some ev)) (\<lambda>now.
       assertValidEvidence (ev\<lparr>retryable := True, retry_decision := Rd_retry_now,
         retry_not_before := None, retry_owner := owner,
         attempt_budget_disposition := Bd_preserve, last_failure_at := now\<rparr>))"

section \<open>What valid evidence says\<close>

lemma valid_evidence_iff:
  "valid_evidence v \<longleftrightarrow>
     safe_integer (logical_attempt_count v)
   \<and> 0 \<le> provider_submission_count v \<and> provider_submission_count v \<le> logical_attempt_count v
   \<and> isIsoTimestamp (first_failure_at v) \<and> isIsoTimestamp (last_failure_at v)
   \<and> first_failure_at v \<le> last_failure_at v
   \<and> (case retry_not_before v of None \<Rightarrow> True | Some t \<Rightarrow> isIsoTimestamp t)
   \<and> (if retry_decision v = Rd_retry_not_before
      then retry_not_before v \<noteq> None \<and> retry_owner v = Ro_pending_drainer
         \<and> attempt_budget_disposition v = Bd_preserve \<and> retryable v
         \<and> mutation_state v \<noteq> Mu_ambiguous \<and> mutation_state v \<noteq> Mu_submitted
      else retry_not_before v = None)
   \<and> (retry_decision v = Rd_stop \<longrightarrow> retry_owner v = Ro_none \<and> attempt_budget_disposition v = Bd_stop)
   \<and> (retry_decision v = Rd_retry_now \<longrightarrow> retryable v \<and> retry_owner v \<noteq> Ro_none
        \<and> attempt_budget_disposition v \<noteq> Bd_stop)"
  unfolding valid_evidence_def assertValidEvidence_def throw_if_Inr safe_integer_def
  by (auto split: option.splits)

lemma assertValidEvidence_Inr: "assertValidEvidence v = Inr w \<longleftrightarrow> w = v \<and> valid_evidence v"
  unfolding valid_evidence_def by (auto simp: assertValidEvidence_def throw_if_Inr)

lemma valid_counts:
  assumes "valid_evidence v"
  shows "0 \<le> logical_attempt_count v" "logical_attempt_count v \<le> 9007199254740991"
    "0 \<le> provider_submission_count v" "provider_submission_count v \<le> 9007199254740991"
  using assms by (auto simp: valid_evidence_iff safe_integer_def)

lemma iso_less_valid:
  "isIsoTimestamp a \<Longrightarrow> isIsoTimestamp b \<Longrightarrow> iso_less a b \<longleftrightarrow> a < b"
  by (simp add: iso_less_def)

lemma toIsoTimestamp_valid: "isIsoTimestamp t \<Longrightarrow> toIsoTimestamp t = Inr t"
  by (auto simp: isIsoTimestamp_def MIN_ISO_TIMESTAMP_MS_def MAX_ISO_TIMESTAMP_MS_def
      toIsoTimestamp_def throw_if_def)

lemma monotonic_valid:
  assumes "isIsoTimestamp nowMs" "case previous of None \<Rightarrow> True | Some p \<Rightarrow> valid_evidence p"
  shows "monotonicEvidenceTimestamp nowMs previous
    = Inr (case previous of None \<Rightarrow> nowMs | Some p \<Rightarrow> max nowMs (last_failure_at p))"
  using assms
  by (auto simp: monotonicEvidenceTimestamp_def toIsoTimestamp_valid valid_evidence_iff
      iso_less_valid max_def split: option.splits)

lemma isIsoTimestamp_max: "isIsoTimestamp a \<Longrightarrow> isIsoTimestamp b \<Longrightarrow> isIsoTimestamp (max a b)"
  by (simp add: max_def)

section \<open>The codec\<close>

lemma word_members:
  "c \<in> set TRANSPORT_CODES" "i \<in> set INTERNAL_CODES" "f \<in> set OUTBOUND_FAILURE_EVIDENCE_CODES"
  "s \<in> set STAGES" "m \<in> set MUTATION_STATES" "d \<in> set RETRY_DECISIONS" "r \<in> set RETRY_OWNERS"
  "b \<in> set ATTEMPT_BUDGET_DISPOSITIONS" "v \<in> set EVIDENCE_COVERAGE" "p \<in> set PHASES"
proof -
  show c: "c \<in> set TRANSPORT_CODES" for c by (cases c) (simp_all add: TRANSPORT_CODES_def)
  show i: "i \<in> set INTERNAL_CODES" for i by (cases i) (simp_all add: INTERNAL_CODES_def)
  show "f \<in> set OUTBOUND_FAILURE_EVIDENCE_CODES"
    by (cases f) (simp_all add: OUTBOUND_FAILURE_EVIDENCE_CODES_def c i)
  show "s \<in> set STAGES" by (cases s) (simp_all add: STAGES_def)
  show "m \<in> set MUTATION_STATES" by (cases m) (simp_all add: MUTATION_STATES_def)
  show "d \<in> set RETRY_DECISIONS" by (cases d) (simp_all add: RETRY_DECISIONS_def)
  show "r \<in> set RETRY_OWNERS" by (cases r) (simp_all add: RETRY_OWNERS_def)
  show "b \<in> set ATTEMPT_BUDGET_DISPOSITIONS"
    by (cases b) (simp_all add: ATTEMPT_BUDGET_DISPOSITIONS_def)
  show "v \<in> set EVIDENCE_COVERAGE" by (cases v) (simp_all add: EVIDENCE_COVERAGE_def)
  show "p \<in> set PHASES" by (cases p) (simp_all add: PHASES_def)
qed

lemma lookup_word_member:
  assumes "m \<in> set ms" "\<And>x y. str x = str y \<Longrightarrow> x = y"
  shows "lookup_word str ms (Some (JStr (str m))) = Some m"
proof -
  have "\<exists>x. find (\<lambda>x. str x = str m) ms = Some x"
    using assms(1) by (auto simp: find_None_iff simp flip: not_None_eq)
  then obtain x where x: "find (\<lambda>x. str x = str m) ms = Some x" by blast
  then have "str x = str m" by (auto simp: find_Some_iff)
  then have "x = m" by (rule assms(2))
  with x show ?thesis by (simp add: lookup_word_def)
qed

lemma transport_code_str_inj: "transport_code_str x = transport_code_str y \<Longrightarrow> x = y"
  by (cases x; cases y; simp)

lemma internal_code_str_inj: "internal_code_str x = internal_code_str y \<Longrightarrow> x = y"
  by (cases x; cases y; simp)

lemma transport_not_internal: "transport_code_str x \<noteq> internal_code_str y"
  by (cases x; cases y; simp)

lemma failure_code_str_inj: "failure_code_str x = failure_code_str y \<Longrightarrow> x = y"
  by (cases x; cases y)
    (auto dest: transport_code_str_inj internal_code_str_inj
      simp: transport_not_internal transport_not_internal [symmetric])

lemma word_str_inj:
  "stage_str s1 = stage_str s2 \<Longrightarrow> s1 = s2"
  "mutation_str m1 = mutation_str m2 \<Longrightarrow> m1 = m2"
  "decision_str d1 = decision_str d2 \<Longrightarrow> d1 = d2"
  "owner_str r1 = owner_str r2 \<Longrightarrow> r1 = r2"
  "budget_str b1 = budget_str b2 \<Longrightarrow> b1 = b2"
  "coverage_str v1 = coverage_str v2 \<Longrightarrow> v1 = v2"
  by ((cases s1; cases s2; simp), (cases m1; cases m2; simp), (cases d1; cases d2; simp),
      (cases r1; cases r2; simp), (cases b1; cases b2; simp), (cases v1; cases v2; simp))

lemmas lookup_words =
  lookup_word_member [OF word_members(3) failure_code_str_inj]
  lookup_word_member [OF word_members(4) word_str_inj(1)]
  lookup_word_member [OF word_members(5) word_str_inj(2)]
  lookup_word_member [OF word_members(6) word_str_inj(3)]
  lookup_word_member [OF word_members(7) word_str_inj(4)]
  lookup_word_member [OF word_members(8) word_str_inj(5)]
  lookup_word_member [OF word_members(9) word_str_inj(6)]

lemma int_of_json_of_int [simp]: "int_of_json (json_of_int n) = Some n"
  by (simp add: int_of_json_def json_of_int_def)

lemma evidence_of_json_of_evidence: "evidence_of_json (evidence_json v) = Some v"
  unfolding evidence_of_json_def evidence_json_def exact_keys_def V1_KEYS_def
  by (cases v) (simp add: lookup_words bool_of_json_def iso_of_json_def nullable_iso_of_json_def
      split: option.splits)

text \<open>The size of an encoded record: every field is bounded, so the durable bound always holds.\<close>

lemma decimal_digits_le: "n < 10 ^ Suc k \<Longrightarrow> decimal_digits n \<le> Suc k"
proof (induction k arbitrary: n)
  case 0
  then show ?case by (simp add: decimal_digits.simps)
next
  case (Suc k)
  from Suc.prems have "n div 10 < 10 ^ Suc k" by simp
  then have "decimal_digits (n div 10) \<le> Suc k" by (rule Suc.IH)
  then show ?case by (subst decimal_digits.simps) simp
qed

lemma int_bytes_safe: "safe_integer n \<Longrightarrow> int_bytes n \<le> 17"
proof -
  assume "safe_integer n"
  then have "nat \<bar>n\<bar> < 10 ^ Suc 15" by (simp add: safe_integer_def)
  then have "decimal_digits (nat \<bar>n\<bar>) \<le> Suc 15" by (rule decimal_digits_le)
  then show ?thesis by (cases "n < 0") (simp_all add: int_bytes_def)
qed

lemma word_lengths:
  "length (failure_code_str f) \<le> 44" "length (stage_str s) \<le> 17" "length (mutation_str m) \<le> 11"
  "length (decision_str d) \<le> 16" "length (owner_str r) \<le> 15" "length (budget_str b) \<le> 8"
  "length (coverage_str v) \<le> 8"
proof -
  have t: "length (transport_code_str c) \<le> 44" for c by (cases c) simp_all
  have i: "length (internal_code_str c) \<le> 44" for c by (cases c) simp_all
  show "length (failure_code_str f) \<le> 44" by (cases f) (simp_all add: t i)
  show "length (stage_str s) \<le> 17" by (cases s) simp_all
  show "length (mutation_str m) \<le> 11" by (cases m) simp_all
  show "length (decision_str d) \<le> 16" by (cases d) simp_all
  show "length (owner_str r) \<le> 15" by (cases r) simp_all
  show "length (budget_str b) \<le> 8" by (cases b) simp_all
  show "length (coverage_str v) \<le> 8" by (cases v) simp_all
qed

lemma encoded_size:
  assumes "valid_evidence v"
  shows "flat_object_bytes (evidence_json v) \<le> OUTBOUND_FAILURE_EVIDENCE_MAX_BYTES"
    "flat_object_bytes (evidence_json v) \<noteq> 0"
proof -
  from assms have "safe_integer (logical_attempt_count v)"
    "safe_integer (provider_submission_count v)"
    by (auto simp: valid_evidence_iff safe_integer_def)
  then have n: "scalar_bytes (json_of_int (logical_attempt_count v)) \<le> 17"
    "scalar_bytes (json_of_int (provider_submission_count v)) \<le> 17"
    by (simp_all add: json_of_int_def int_bytes_safe)
  have nb: "scalar_bytes (case retry_not_before v of None \<Rightarrow> JNull | Some t \<Rightarrow> JIso t) \<le> 29"
    by (simp split: option.split)
  show "flat_object_bytes (evidence_json v) \<le> OUTBOUND_FAILURE_EVIDENCE_MAX_BYTES"
    using n nb word_lengths(1) [of "failure_code v"] word_lengths(2) [of "stage v"]
      word_lengths(3) [of "mutation_state v"] word_lengths(4) [of "retry_decision v"]
      word_lengths(5) [of "retry_owner v"] word_lengths(6) [of "attempt_budget_disposition v"]
      word_lengths(7) [of "evidence_coverage v"]
    by (simp add: evidence_json_def V1_KEYS_def OUTBOUND_FAILURE_EVIDENCE_MAX_BYTES_def
        OUTBOUND_FAILURE_EVIDENCE_SCHEMA_def)
  show "flat_object_bytes (evidence_json v) \<noteq> 0"
    by (simp add: evidence_json_def)
qed

lemma encode_valid:
  "valid_evidence v \<Longrightarrow> encodeOutboundFailureEvidence v
     = Inr (Text (flat_object_bytes (evidence_json v)) (Some (evidence_json v)))"
  using encoded_size(1) [of v]
  by (simp add: encodeOutboundFailureEvidence_def valid_evidence_def)

lemma encode_Inr_valid: "encodeOutboundFailureEvidence v = Inr t \<Longrightarrow> valid_evidence v"
  by (auto simp: encodeOutboundFailureEvidence_def and_then_Inr assertValidEvidence_Inr)

lemma decode_encoded:
  "encodeOutboundFailureEvidence v = Inr t \<Longrightarrow> decodeOutboundFailureEvidence (Some t) = V1 v"
  using encoded_size [of v] encode_valid [of v] encode_Inr_valid [of v t]
  by (auto simp: decodeOutboundFailureEvidence_def evidence_of_json_of_evidence valid_evidence_def)

lemma decode_V1_valid: "decodeOutboundFailureEvidence stored = V1 v \<Longrightarrow> valid_evidence v"
  by (auto simp: decodeOutboundFailureEvidence_def assertValidEvidence_Inr
      split: option.splits if_splits sum.splits)

lemma decode_None [simp]: "decodeOutboundFailureEvidence None = LEGACY_UNCLASSIFIED"
  by (simp add: decodeOutboundFailureEvidence_def)

section \<open>The classifier\<close>

definition previous_ok :: "evidence option \<Rightarrow> bool" where
  "previous_ok previous = (case previous of None \<Rightarrow> True
     | Some p \<Rightarrow> valid_evidence p \<and> logical_attempt_count p < 9007199254740991)"

lemma validPositiveDelay_iso:
  "isIsoTimestamp nowMs \<Longrightarrow> validPositiveDelay d nowMs = Some t \<Longrightarrow> isIsoTimestamp (nowMs + t)"
  by (auto simp: validPositiveDelay_def isIsoTimestamp_def Let_def MIN_ISO_TIMESTAMP_MS_def
      split: option.splits jnum.splits if_splits) (smt (verit) ceiling_less_one not_one_le_zero)

lemma validPositiveDelay_pos: "validPositiveDelay d nowMs = Some t \<Longrightarrow> 0 < t"
  by (auto simp: validPositiveDelay_def Let_def split: option.splits jnum.splits if_splits)

text \<open>The record the classifier builds once the decision inputs are known.\<close>

lemma classified_record:
  assumes prev: "previous_ok previous" and clock: "isIsoTimestamp nowMs"
    and now: "now = (case previous of None \<Rightarrow> nowMs | Some p \<Rightarrow> max nowMs (last_failure_at p))"
    and d: "\<And>t. d = Some t \<Longrightarrow> rb \<and> mu \<noteq> Mu_ambiguous \<and> isIsoTimestamp (nowMs + t) \<and> 0 < t"
    and mu: "mu \<noteq> Mu_submitted" and owner: "owner \<noteq> Ro_none"
    and outcome: "outcome = (case d of
            Some d \<Rightarrow> and_then (toIsoTimestamp (nowMs + d)) (\<lambda>t.
               Inr (Rd_retry_not_before, Some t, Ro_pending_drainer, Bd_preserve))
          | None \<Rightarrow>
              if rb \<and> (0::int) < remaining then Inr (Rd_retry_now, None, owner, Bd_consume)
              else Inr (Rd_stop, None, Ro_none, Bd_stop))"
  shows "\<exists>e. and_then outcome (\<lambda>(decision, notBefore, retryOwner, bd).
          assertValidEvidence
           \<lparr>failure_code = code, stage = st, mutation_state = mu, retryable = rb,
            retry_decision = decision, retry_not_before = notBefore, retry_owner = retryOwner,
            attempt_budget_disposition = bd,
            logical_attempt_count =
              (case previous of None \<Rightarrow> 0 | Some p \<Rightarrow> logical_attempt_count p) + 1,
            provider_submission_count =
              (case previous of None \<Rightarrow> 0 | Some p \<Rightarrow> provider_submission_count p)
              + (if mu = Mu_not_started then 0 else 1),
            first_failure_at = (case previous of None \<Rightarrow> now | Some p \<Rightarrow> first_failure_at p),
            last_failure_at = now,
            evidence_coverage = cv\<rparr>) = Inr e
    \<and> valid_evidence e \<and> failure_code e = code \<and> mutation_state e = mu
    \<and> logical_attempt_count e
        = (case previous of None \<Rightarrow> 0 | Some p \<Rightarrow> logical_attempt_count p) + 1
    \<and> provider_submission_count e
        = (case previous of None \<Rightarrow> 0 | Some p \<Rightarrow> provider_submission_count p)
            + (if mu = Mu_not_started then 0 else 1)
    \<and> (mu = Mu_ambiguous \<longrightarrow> retry_decision e \<noteq> Rd_retry_not_before)
    \<and> (remaining \<le> 0 \<longrightarrow> retry_decision e \<noteq> Rd_retry_now)
    \<and> last_failure_at e = now
    \<and> (\<forall>p. previous = Some p \<longrightarrow> first_failure_at e = first_failure_at p)
    \<and> (\<forall>t. retry_not_before e = Some t \<longrightarrow> nowMs < t)"
proof -
  have iso: "isIsoTimestamp now"
    using prev clock by (auto simp: now previous_ok_def valid_evidence_iff isIsoTimestamp_max
        split: option.splits)
  have counts: "safe_integer (n + 1) \<and> 0 \<le> m \<and> m \<le> n"
    if "n = (case previous of None \<Rightarrow> 0 | Some p \<Rightarrow> logical_attempt_count p)"
      "m = (case previous of None \<Rightarrow> 0 | Some p \<Rightarrow> provider_submission_count p)" for n m
    using prev that
    by (auto simp: previous_ok_def valid_evidence_iff safe_integer_def split: option.splits)
  have first: "isIsoTimestamp f \<and> f \<le> now"
    if "f = (case previous of None \<Rightarrow> now | Some p \<Rightarrow> first_failure_at p)" for f
    using prev clock iso that
    by (auto simp: previous_ok_def valid_evidence_iff now split: option.splits)
  have dd: "(\<exists>t. outcome = Inr (Rd_retry_not_before, Some t, Ro_pending_drainer, Bd_preserve)
        \<and> rb \<and> mu \<noteq> Mu_ambiguous \<and> isIsoTimestamp t \<and> nowMs < t)
      \<or> outcome = Inr (Rd_retry_now, None, owner, Bd_consume) \<and> rb \<and> 0 < remaining
      \<or> outcome = Inr (Rd_stop, None, Ro_none, Bd_stop)"
    using d by (auto simp: outcome toIsoTimestamp_valid split: option.splits)
  show ?thesis
    using dd iso counts [OF refl refl] first [OF refl] mu owner
    by (auto simp: assertValidEvidence_Inr valid_evidence_iff)
qed

lemma classify_spec:
  assumes "isIsoTimestamp nowMs" "previous_ok previous" "owner \<noteq> Ro_none"
    and "0 \<le> attemptsRemaining" "safe_integer attemptsRemaining"
  shows "\<exists>e. classifyOutboundFailure err nowMs owner attemptsRemaining previous = Inr e
    \<and> valid_evidence e
    \<and> logical_attempt_count e
        = (case previous of None \<Rightarrow> 0 | Some p \<Rightarrow> logical_attempt_count p) + 1
    \<and> provider_submission_count e
        = (case previous of None \<Rightarrow> 0 | Some p \<Rightarrow> provider_submission_count p)
            + (if mutation_state e = Mu_not_started then 0 else 1)
    \<and> (mutation_state e = Mu_ambiguous \<longrightarrow> retry_decision e \<noteq> Rd_retry_not_before)
    \<and> (attemptsRemaining \<le> 0 \<longrightarrow> retry_decision e \<noteq> Rd_retry_now)
    \<and> last_failure_at e = (case previous of None \<Rightarrow> nowMs | Some p \<Rightarrow> max nowMs (last_failure_at p))
    \<and> (\<forall>p. previous = Some p \<longrightarrow> first_failure_at e = first_failure_at p)
    \<and> (\<forall>t. retry_not_before e = Some t \<longrightarrow> nowMs < t)"
proof -
  let ?pl = "readTransportPayload err"
  let ?code = "case ?pl of Some p \<Rightarrow> Transport (tp_code p)
                 | None \<Rightarrow> if identity_blocked err then Internal Ic_identity_blocked
                          else if governor_shed err then Internal Ic_governor_shed
                          else Internal Ic_unknown_failure"
  let ?rb = "case ?pl of Some p \<Rightarrow> tp_retryable p
      | None \<Rightarrow> \<not> (identity_blocked err \<or> governor_shed err)"
  let ?ph = "Option.bind ?pl tp_phase"
  let ?mu = "mutationStateFor ?code ?ph"
  let ?d = "if ?rb \<and> ?mu \<noteq> Mu_ambiguous
      then validPositiveDelay (Option.bind ?pl tp_retryAfterMs) nowMs else None"
  have now: "monotonicEvidenceTimestamp nowMs previous
      = Inr (case previous of None \<Rightarrow> nowMs | Some p \<Rightarrow> max nowMs (last_failure_at p))"
    by (rule monotonic_valid)
      (use assms in \<open>auto simp: previous_ok_def split: option.splits\<close>)
  have mu: "?mu \<noteq> Mu_submitted" by (simp add: mutationStateFor_def)
  have delay: "?rb \<and> ?mu \<noteq> Mu_ambiguous \<and> isIsoTimestamp (nowMs + t) \<and> 0 < t" if "?d = Some t" for t
    using that validPositiveDelay_iso [OF assms(1)] validPositiveDelay_pos
    by (auto split: if_splits)
  have guard: "(\<not> safe_integer attemptsRemaining \<or> attemptsRemaining < 0) = False"
    using assms(4,5) by simp
  note rec = classified_record [OF assms(2,1) refl delay mu assms(3) refl,
      where remaining = attemptsRemaining and code = ?code and st = "stageFor ?code ?ph"
      and cv = "if ?pl = None then Cv_partial else Cv_complete"]
  show ?thesis
    unfolding classifyOutboundFailure_def now Let_def and_then_simps guard throw_if_False
    by (rule exE [OF rec], assumption, elim conjE, rule exI, intro conjI) (assumption | simp)+
qed

section \<open>Internal failures and the hand-over\<close>

definition stop_options :: "internal_options \<Rightarrow> bool" where
  "stop_options opts \<longleftrightarrow> io_retryNotBefore opts = None
     \<and> (io_retryDecision opts = None \<or> io_retryDecision opts = Some Rd_stop)
     \<and> io_retryOwner opts = None \<and> io_attemptBudgetDisposition opts = None
     \<and> io_logicalAttemptCount opts = None \<and> io_providerSubmissionCount opts = None"

text \<open>A terminal internal record is always accepted and counts one more logical attempt.\<close>

lemma internal_stop_spec:
  assumes "stop_options opts" "isIsoTimestamp nowMs" "previous_ok (io_previousEvidence opts)"
  shows "\<exists>e. createInternalOutboundFailureEvidence opts nowMs = Inr e \<and> valid_evidence e
    \<and> failure_code e = Internal (io_failureCode opts) \<and> mutation_state e = io_mutationState opts
    \<and> stage e = io_stage opts \<and> retry_decision e = Rd_stop
    \<and> logical_attempt_count e = (case io_previousEvidence opts of None \<Rightarrow> 0
         | Some p \<Rightarrow> logical_attempt_count p) + 1
    \<and> provider_submission_count e = (case io_previousEvidence opts of None \<Rightarrow> 0
         | Some p \<Rightarrow> provider_submission_count p)"
proof -
  let ?now = "case io_previousEvidence opts of None \<Rightarrow> nowMs | Some p \<Rightarrow> max nowMs (last_failure_at p)"
  have now: "monotonicEvidenceTimestamp nowMs (io_previousEvidence opts) = Inr ?now"
    by (rule monotonic_valid)
      (use assms in \<open>auto simp: previous_ok_def split: option.splits\<close>)
  have "isIsoTimestamp ?now"
    using assms by (auto simp: previous_ok_def valid_evidence_iff isIsoTimestamp_max
        split: option.splits)
  with assms show ?thesis
    unfolding createInternalOutboundFailureEvidence_def Let_def now and_then_simps
    by (cases "io_previousEvidence opts")
      (auto simp: assertValidEvidence_Inr valid_evidence_iff stop_options_def
        previous_ok_def safe_integer_def)
qed

text \<open>The same with explicit counts, as the recovery passes build their records.\<close>

definition counted_stop_options :: "internal_options \<Rightarrow> int \<Rightarrow> int \<Rightarrow> bool" where
  "counted_stop_options opts l p \<longleftrightarrow> io_retryNotBefore opts = None \<and> io_retryDecision opts = None
     \<and> io_retryOwner opts = None \<and> io_attemptBudgetDisposition opts = None
     \<and> io_logicalAttemptCount opts = Some l \<and> io_providerSubmissionCount opts = Some p"

lemma internal_counted_spec:
  assumes "counted_stop_options opts l p" "isIsoTimestamp nowMs"
    and "case io_previousEvidence opts of None \<Rightarrow> True | Some e \<Rightarrow> valid_evidence e"
    and "0 \<le> p" "p \<le> l" "l \<le> 9007199254740991"
  shows "\<exists>e. createInternalOutboundFailureEvidence opts nowMs = Inr e \<and> valid_evidence e
    \<and> failure_code e = Internal (io_failureCode opts) \<and> mutation_state e = io_mutationState opts
    \<and> retry_decision e = Rd_stop \<and> retry_owner e = Ro_none \<and> attempt_budget_disposition e = Bd_stop
    \<and> logical_attempt_count e = l \<and> provider_submission_count e = p"
proof -
  let ?now = "case io_previousEvidence opts of None \<Rightarrow> nowMs | Some p \<Rightarrow> max nowMs (last_failure_at p)"
  have now: "monotonicEvidenceTimestamp nowMs (io_previousEvidence opts) = Inr ?now"
    by (rule monotonic_valid [OF assms(2,3)])
  have "isIsoTimestamp ?now"
    using assms by (auto simp: valid_evidence_iff isIsoTimestamp_max split: option.splits)
  with assms show ?thesis
    unfolding createInternalOutboundFailureEvidence_def Let_def now and_then_simps
    by (cases "io_previousEvidence opts")
      (auto simp: assertValidEvidence_Inr valid_evidence_iff counted_stop_options_def
        safe_integer_def)
qed

text \<open>A terminal record with explicit counts, field by field.\<close>

lemma counted_internal:
  assumes "isIsoTimestamp nowMs" "case previous of None \<Rightarrow> True | Some e \<Rightarrow> valid_evidence e"
    and "0 \<le> p" "p \<le> l" "l \<le> 9007199254740991"
  obtains e where "createInternalOutboundFailureEvidence
     \<lparr>io_failureCode = code, io_stage = st, io_mutationState = mu, io_retryable = None,
      io_retryDecision = None, io_retryNotBefore = None, io_retryOwner = None,
      io_attemptBudgetDisposition = None, io_logicalAttemptCount = Some l,
      io_providerSubmissionCount = Some p, io_previousEvidence = previous,
      io_evidenceCoverage = Some cv\<rparr> nowMs = Inr e"
    "valid_evidence e" "failure_code e = Internal code" "mutation_state e = mu"
    "retry_decision e = Rd_stop" "retry_owner e = Ro_none" "attempt_budget_disposition e = Bd_stop"
    "logical_attempt_count e = l" "provider_submission_count e = p"
  using internal_counted_spec [of "\<lparr>io_failureCode = code, io_stage = st, io_mutationState = mu,
      io_retryable = None, io_retryDecision = None, io_retryNotBefore = None, io_retryOwner = None,
      io_attemptBudgetDisposition = None, io_logicalAttemptCount = Some l,
      io_providerSubmissionCount = Some p, io_previousEvidence = previous,
      io_evidenceCoverage = Some cv\<rparr>" l p nowMs] assms
  by (auto simp: counted_stop_options_def)

lemma internal_counted_encodes:
  assumes "counted_stop_options opts l p" "isIsoTimestamp nowMs"
    and "case io_previousEvidence opts of None \<Rightarrow> True | Some e \<Rightarrow> valid_evidence e"
    and "0 \<le> p" "p \<le> l" "l \<le> 9007199254740991"
  shows "\<exists>e t. createInternalOutboundFailureEvidence opts nowMs = Inr e
    \<and> encodeOutboundFailureEvidence e = Inr t"
  using internal_counted_spec [OF assms] encode_valid by blast

lemma transfer_spec:
  assumes "valid_evidence e" "isIsoTimestamp nowMs" "owner \<noteq> Ro_none"
  shows "transferOutboundRetryOwnership e owner nowMs
    = Inr (e\<lparr>retryable := True, retry_decision := Rd_retry_now, retry_not_before := None,
             retry_owner := owner, attempt_budget_disposition := Bd_preserve,
             last_failure_at := max nowMs (last_failure_at e)\<rparr>)"
proof -
  have "monotonicEvidenceTimestamp nowMs (Some e) = Inr (max nowMs (last_failure_at e))"
    using monotonic_valid [of nowMs "Some e"] assms by simp
  with assms show ?thesis
    by (auto simp: transferOutboundRetryOwnership_def assertValidEvidence_Inr valid_evidence_iff
        isIsoTimestamp_max)
qed

section \<open>Properties\<close>

definition sample_evidence :: evidence where
  "sample_evidence = \<lparr>failure_code = Transport Tc_rate_limited, stage = St_provider_response,
     mutation_state = Mu_rejected, retryable = True, retry_decision = Rd_retry_not_before,
     retry_not_before = Some 1700000060000, retry_owner = Ro_pending_drainer,
     attempt_budget_disposition = Bd_preserve, logical_attempt_count = 2,
     provider_submission_count = 1, first_failure_at = 1699999990000,
     last_failure_at = 1700000000000, evidence_coverage = Cv_complete\<rparr>"

lemma valid_sample_evidence: "valid_evidence sample_evidence"
  by (simp add: valid_evidence_iff sample_evidence_def safe_integer_def isIsoTimestamp_def
      MIN_ISO_TIMESTAMP_MS_def MAX_ISO_TIMESTAMP_MS_def)

text \<open>
  C9: Every valid evidence record can be written to the durable column within the size bound, and
  reading the column back yields exactly that record.
\<close>

theorem evidence_round_trip:
  assumes "valid_evidence e"
  shows "\<exists>t. encodeOutboundFailureEvidence e = Inr t
    \<and> text_bytes t \<le> OUTBOUND_FAILURE_EVIDENCE_MAX_BYTES
    \<and> decodeOutboundFailureEvidence (Some t) = V1 e"
  using assms encoded_size(1) [of e] encode_valid [of e] decode_encoded by auto

theorem evidence_round_trip_witness:
  "\<exists>t. encodeOutboundFailureEvidence sample_evidence = Inr t
    \<and> text_bytes t \<le> OUTBOUND_FAILURE_EVIDENCE_MAX_BYTES
    \<and> decodeOutboundFailureEvidence (Some t) = V1 sample_evidence"
  by (rule evidence_round_trip [OF valid_sample_evidence])

text \<open>
  C10: Classifying any thrown value at a representable instant, against any valid previous evidence,
  always yields a record: it is valid, counts exactly one more attempt, counts a provider
  submission unless the call provably did not start, never defers an ambiguous send, never retries
  at once when no attempt remains, keeps the first failure instant and never moves the last one
  backwards, and a deferral lies in the future.
\<close>

theorem classification_sound:
  assumes "isIsoTimestamp nowMs" "previous_ok previous" "owner \<noteq> Ro_none"
    and "0 \<le> attemptsRemaining" "safe_integer attemptsRemaining"
  shows "\<exists>e. classifyOutboundFailure err nowMs owner attemptsRemaining previous = Inr e
    \<and> valid_evidence e
    \<and> logical_attempt_count e
        = (case previous of None \<Rightarrow> 0 | Some p \<Rightarrow> logical_attempt_count p) + 1
    \<and> provider_submission_count e
        = (case previous of None \<Rightarrow> 0 | Some p \<Rightarrow> provider_submission_count p)
            + (if mutation_state e = Mu_not_started then 0 else 1)
    \<and> (mutation_state e = Mu_ambiguous \<longrightarrow> retry_decision e \<noteq> Rd_retry_not_before)
    \<and> (attemptsRemaining \<le> 0 \<longrightarrow> retry_decision e \<noteq> Rd_retry_now)
    \<and> last_failure_at e = (case previous of None \<Rightarrow> nowMs | Some p \<Rightarrow> max nowMs (last_failure_at p))
    \<and> (\<forall>p. previous = Some p \<longrightarrow> first_failure_at e = first_failure_at p)
    \<and> (\<forall>t. retry_not_before e = Some t \<longrightarrow> nowMs < t)"
  by (rule classify_spec [OF assms])

definition sample_thrown :: thrown where
  "sample_thrown = \<lparr>payload = JObj [(''code'', JStr ''transport.rate_limited''),
     (''retryable'', JBool True), (''retryAfterMs'', JNum (Num 1500))],
     identity_blocked = False, governor_shed = False\<rparr>"

theorem classification_sound_witness:
  "\<exists>e. classifyOutboundFailure sample_thrown 1700000090000 Ro_pending_drainer 0
        (Some sample_evidence) = Inr e
    \<and> logical_attempt_count e = 3 \<and> retry_decision e \<noteq> Rd_retry_now"
proof -
  have "isIsoTimestamp 1700000090000" "safe_integer 0"
    "previous_ok (Some sample_evidence)"
    using valid_sample_evidence
    by (simp_all add: previous_ok_def isIsoTimestamp_def MIN_ISO_TIMESTAMP_MS_def
        MAX_ISO_TIMESTAMP_MS_def sample_evidence_def safe_integer_def)
  from classification_sound [OF this(1,3) _ _ this(2), of Ro_pending_drainer sample_thrown]
  show ?thesis by (auto simp: sample_evidence_def)
qed

text \<open>
  Handing a valid failed attempt over to another retry owner always succeeds and changes only
  the retry fields: the counts, the failure code and how far the send got are those of the attempt.
\<close>

lemma retry_handover_preserves_attempts:
  assumes "valid_evidence e" "isIsoTimestamp nowMs" "owner \<noteq> Ro_none"
  shows "\<exists>e'. transferOutboundRetryOwnership e owner nowMs = Inr e' \<and> valid_evidence e'
    \<and> retry_decision e' = Rd_retry_now \<and> retry_owner e' = owner \<and> retry_not_before e' = None
    \<and> logical_attempt_count e' = logical_attempt_count e
    \<and> provider_submission_count e' = provider_submission_count e
    \<and> failure_code e' = failure_code e \<and> mutation_state e' = mutation_state e
    \<and> last_failure_at e \<le> last_failure_at e'"
  using transfer_spec [OF assms] assms by (auto simp: valid_evidence_iff isIsoTimestamp_max)

end
