(* ===== verification/Store.thy ===== *)
theory Store
  imports Evidence
begin

text \<open>
  The SQLite tables the durability engine keeps (\<^verbatim>\<open>src/core/database.ts\<close> and the row interfaces
  of \<^verbatim>\<open>src/core/durability.ts\<close> and \<^verbatim>\<open>src/core/turn-recovery-store.ts\<close>), as one record of row lists
  in insertion order with the counters of the autoincrement keys. Strings are their UTF-8 bytes, so
  \<open>length\<close> is \<^verbatim>\<open>Buffer.byteLength\<close>. An instant column holds seconds, as \<^verbatim>\<open>datetime('now')\<close> does.
  The host clock is read once per operation in milliseconds and \<open>sql_now\<close> is the SQL clock at it.
  Strings are taken to hold no NUL character. Triggers and CHECK constraints can only abort a statement;
  the immutability triggers are in the theory \<open>Triggers\<close>, constraints stand with the tables they guard.
\<close>

definition sql_now :: "int \<Rightarrow> int" where
  "sql_now nowMs = nowMs div 1000"

datatype stamp = At int | Malformed

section \<open>Outbound operations\<close>

datatype outbound_status = Os_pending | Os_sending | Os_submitted | Os_echoed | Os_maybe_sent
  | Os_failed_permanent | Os_quarantined

datatype replay_policy = Rp_safe | Rp_unsafe | Rp_read_only

record outbound_op =
  op_id :: int
  op_status :: outbound_status
  op_conversation_key :: string
  op_chat_jid :: string
  op_type :: string
  op_payload :: stored_text
  op_payload_hash :: string
  op_wa_message_id :: "string option"
  op_replay_policy :: replay_policy
  op_created_at :: stamp
  op_submitted_at :: "stamp option"
  op_ambiguity_at :: "stamp option"
  op_echoed_at :: "int option"
  op_source_inbound_seq :: "int option"
  op_retry_count :: int
  op_error :: "stored_text option"
  op_is_terminal :: bool
  op_quarantine_disposition :: "disposition option"
  op_quarantine_coverage :: "coverage option"
  op_quarantine_sha256 :: "string option"
  op_quarantined_at :: "int option"

section \<open>Inbound events\<close>

datatype inbound_status = Is_pending | Is_processing | Is_turn_done | Is_complete | Is_failed

datatype failure_class = Fc_provider_failure | Fc_transport_send_failed | Fc_transport_disconnected
  | Fc_timeout | Fc_db_error | Fc_session_crash | Fc_operator_cancelled | Fc_session_spawn_failed
  | Fc_crash_recovery | Fc_stale_reclaim | Fc_queue_full | Fc_queue_halted | Fc_queue_closed
  | Fc_pre_dispatch_error | Fc_scope_blocked_recovery | Fc_recovery_owner_reclaimed
  | Fc_processor_throw | Fc_unknown

record inbound_event =
  ie_seq :: int
  ie_message_id :: string
  ie_conversation_key :: string
  ie_chat_jid :: string
  ie_routed_to :: string
  ie_processing_status :: inbound_status
  ie_received_at :: int
  ie_completed_at :: "int option"
  ie_terminal_reason :: "string option"
  ie_failure_class :: "failure_class option"
  ie_candidate_reason :: "string option"
  ie_candidate_source :: "string option"
  ie_candidate_marked_at :: "int option"
  ie_candidate_consumed_at :: "int option"

section \<open>Turn terminal records\<close>

text \<open>
  The scope, attempt, disposition and delivery columns are free text in the schema and in the
  parameter types, and their vocabularies are checked where they are written; they stay strings.
\<close>

record terminal_record =
  tt_id :: int
  tt_scope :: string
  tt_conversation_key :: string
  tt_delivery_jid :: string
  tt_inbound_seq :: "int option"
  tt_inbound_seq_key :: int
  tt_logical_turn_id :: string
  tt_manager_id :: string
  tt_generation :: int
  tt_attempt_kind :: string
  tt_attempt_failure_class :: "string option"
  tt_inbound_disposition :: string
  tt_delivery_kind :: string
  tt_delivery_op_id :: "int option"
  tt_owner_logical_turn_id :: "string option"
  tt_owner_manager_id :: "string option"
  tt_owner_generation :: "int option"
  tt_reply_guarantee_disarmed :: bool
  tt_duplicate_finalize_count :: nat
  tt_last_duplicate_at :: "int option"

section \<open>Turn recovery jobs\<close>

datatype job_state = Js_blocked_unsafe | Js_pending | Js_claimed | Js_completed | Js_exhausted

record recovery_job =
  rj_id :: int
  rj_terminal_record_id :: int
  rj_scope :: string
  rj_conversation_key :: string
  rj_delivery_jid :: string
  rj_source_inbound_seq :: int
  rj_source_inbound_seq_key :: int
  rj_source_logical_turn_id :: string
  rj_source_manager_id :: string
  rj_source_generation :: int
  rj_source_message_id :: string
  rj_owner_logical_turn_id :: string
  rj_owner_manager_id :: string
  rj_owner_generation :: int
  rj_assigned_logical_turn_id :: string
  rj_assigned_manager_id :: string
  rj_assigned_generation :: int
  rj_replay_safe :: bool
  rj_replay_safety_proof_id :: "string option"
  rj_sender_jid :: string
  rj_sender_name :: "string option"
  rj_replay_text :: string
  rj_is_group :: bool
  rj_group_name :: "string option"
  rj_state :: job_state
  rj_attempt_count :: int
  rj_claim_epoch :: int
  rj_assignment_epoch :: int
  rj_claim_token :: "string option"
  rj_claimed_at :: "int option"
  rj_claim_expires_at :: "int option"
  rj_next_attempt_at :: int
  rj_last_requeue_hash :: "string option"
  rj_last_requeue_epoch :: "int option"
  rj_last_requeue_backoff :: "int option"
  rj_duplicate_enqueue_count :: nat
  rj_completed_at :: "int option"
  rj_completion_kind :: "string option"
  rj_completion_proof_id :: "string option"
  rj_echo_conflict_at :: "int option"
  rj_echo_conflict_reason :: "string option"

section \<open>The remaining tables\<close>

record message_row =
  ms_message_id :: string
  ms_conversation_key :: string
  ms_chat_jid :: string
  ms_is_from_me :: bool

record corroboration =
  co_terminal_record_id :: int
  co_corroborating_op_id :: int
  co_basis :: string
  co_actor :: string
  co_evidence_ref :: string

text \<open>The columns of an operator's closure that triggers read; the closing command writes them.\<close>

record closure_witness =
  cw_terminal_record_id :: int
  cw_selected_op_id :: int

record tool_call =
  tc_id :: int
  tc_conversation_key :: string
  tc_tool_name :: string
  tc_status :: string
  tc_replay_policy :: replay_policy
  tc_outbound_op_id :: "int option"
  tc_outcome_code :: string
  tc_failure_code :: "string option"
  tc_failure_stage :: "string option"
  tc_retry_disposition :: string
  tc_operator_action :: string
  tc_evidence_coverage :: coverage
  tc_duration_ms :: "int option"
  tc_completed_at :: "int option"

record disposition_link =
  dl_inbound_seq :: int
  dl_recovery_plan_id :: string
  dl_disposition :: string
  dl_superseded_by :: "int option"
  dl_reason :: string
  dl_evidence_ref :: string
  dl_actor :: string

record recovery_plan =
  rp_plan_id :: string
  rp_origin :: string
  rp_actor :: string
  rp_summary :: string

text \<open>The counters of a recovery run; its notes are the JSON texts the engine writes, by their fields.\<close>

record recovery_stats =
  rs_inboundReplayed :: nat
  rs_outboundReconciled :: nat
  rs_outboundReplayed :: nat
  rs_outboundQuarantined :: nat
  rs_toolCallsRecovered :: nat
  rs_toolCallsReplayed :: nat
  rs_toolCallsQuarantined :: nat
  rs_sessionsRestored :: nat
  rs_recoveryPlanId :: "string option"
  rs_recoveryRunId :: "int option"
  rs_openRecoveries :: nat

record sweep_counts =
  sw_completedEchoed :: nat
  sw_completedTurnDone :: nat
  sw_failedStale :: nat
  sw_reclaimedRecoveryOwned :: nat
  sw_terminalRecordCloseCandidates :: nat

datatype run_notes = Notes_open nat | Notes_incomplete "string list" "nat option"
  | Notes_sweep sweep_counts nat

record recovery_run =
  rr_id :: int
  rr_plan_id :: "string option"
  rr_trigger :: string
  rr_status :: string
  rr_stats :: "recovery_stats option"
  rr_notes :: "run_notes option"
  rr_error_kind :: "string option"
  rr_error_message :: "string option"
  rr_completed_at :: "int option"

record completed_identity =
  ci_inbound_seq :: int
  ci_delivery_jid :: string
  ci_delivery_namespace :: string
  ci_scope :: string
  ci_logical_turn_id :: string
  ci_manager_id :: string
  ci_generation :: int

record checkpoint =
  cp_conversation_key :: string
  cp_session_id :: "string option"
  cp_transcript_path :: "string option"
  cp_active_turn_id :: "string option"
  cp_last_inbound_seq :: "int option"
  cp_last_flushed_outbound_id :: "int option"
  cp_watchdog_state :: "string option"
  cp_workspace_path :: "string option"
  cp_claude_pid :: "int option"
  cp_session_status :: string
  cp_completed :: "completed_identity option"
  cp_version :: nat

record agent_session =
  as_id :: int
  as_session_id :: "string option"
  as_workspace_key :: "string option"
  as_status :: string
  as_input_tokens :: int
  as_output_tokens :: int
  as_cache_read_tokens :: int

record token_event =
  te_agent_session_id :: int
  te_timestamp :: int
  te_input_tokens :: int
  te_output_tokens :: int

record db =
  outbound_ops :: "outbound_op list"
  last_op_id :: int
  inbound_events :: "inbound_event list"
  last_seq :: int
  terminal_records :: "terminal_record list"
  last_terminal_id :: int
  recovery_jobs :: "recovery_job list"
  last_job_id :: int
  messages :: "message_row list"
  corroborations :: "corroboration list"
  tool_calls :: "tool_call list"
  last_tool_call_id :: int
  disposition_links :: "disposition_link list"
  recovery_plans :: "recovery_plan list"
  recovery_runs :: "recovery_run list"
  last_run_id :: int
  checkpoints :: "checkpoint list"
  agent_sessions :: "agent_session list"
  token_events :: "token_event list"
  closure_witnesses :: "closure_witness list"

definition empty_db :: db where
  "empty_db = \<lparr>outbound_ops = [], last_op_id = 0, inbound_events = [], last_seq = 0,
     terminal_records = [], last_terminal_id = 0, recovery_jobs = [], last_job_id = 0,
     messages = [], corroborations = [], tool_calls = [], last_tool_call_id = 0,
     disposition_links = [], recovery_plans = [], recovery_runs = [], last_run_id = 0, checkpoints = [],
     agent_sessions = [], token_events = [], closure_witnesses = []\<rparr>"

section \<open>Row updates\<close>

text \<open>The primary-key updates of the three tables the state machines live in.\<close>

definition get_op :: "db \<Rightarrow> int \<Rightarrow> outbound_op option" where
  "get_op d k = find (\<lambda>r. op_id r = k) (outbound_ops d)"

definition cas_op :: "(outbound_op \<Rightarrow> bool) \<Rightarrow> (outbound_op \<Rightarrow> outbound_op) \<Rightarrow> int \<Rightarrow> db \<Rightarrow> db \<times> bool" where
  "cas_op g f k d = (let p = (\<lambda>r. op_id r = k \<and> g r) in
     (d\<lparr>outbound_ops := update_rows p f (outbound_ops d)\<rparr>, changes p (outbound_ops d) = 1))"

definition get_inbound :: "db \<Rightarrow> int \<Rightarrow> inbound_event option" where
  "get_inbound d k = find (\<lambda>r. ie_seq r = k) (inbound_events d)"

definition cas_inbound ::
  "(inbound_event \<Rightarrow> bool) \<Rightarrow> (inbound_event \<Rightarrow> inbound_event) \<Rightarrow> int \<Rightarrow> db \<Rightarrow> db \<times> bool" where
  "cas_inbound g f k d = (let p = (\<lambda>r. ie_seq r = k \<and> g r) in
     (d\<lparr>inbound_events := update_rows p f (inbound_events d)\<rparr>, changes p (inbound_events d) = 1))"

definition get_job :: "db \<Rightarrow> int \<Rightarrow> recovery_job option" where
  "get_job d k = find (\<lambda>r. rj_id r = k) (recovery_jobs d)"

definition cas_job ::
  "(recovery_job \<Rightarrow> bool) \<Rightarrow> (recovery_job \<Rightarrow> recovery_job) \<Rightarrow> int \<Rightarrow> db \<Rightarrow> db \<times> bool" where
  "cas_job g f k d = (let p = (\<lambda>r. rj_id r = k \<and> g r) in
     (d\<lparr>recovery_jobs := update_rows p f (recovery_jobs d)\<rparr>, changes p (recovery_jobs d) = 1))"

definition get_terminal :: "db \<Rightarrow> int \<Rightarrow> terminal_record option" where
  "get_terminal d k = find (\<lambda>r. tt_id r = k) (terminal_records d)"

section \<open>Well-formed stores\<close>

text \<open>Primary keys are unique and at most the autoincrement counter of their table.\<close>

definition keys_ok :: "int list \<Rightarrow> int \<Rightarrow> bool" where
  "keys_ok ks m \<longleftrightarrow> distinct ks \<and> list_all (\<lambda>k. 0 < k \<and> k \<le> m) ks \<and> 0 \<le> m"

definition wf_db :: "db \<Rightarrow> bool" where
  "wf_db d \<longleftrightarrow> keys_ok (map op_id (outbound_ops d)) (last_op_id d)
     \<and> keys_ok (map ie_seq (inbound_events d)) (last_seq d)
     \<and> keys_ok (map tt_id (terminal_records d)) (last_terminal_id d)
     \<and> keys_ok (map rj_id (recovery_jobs d)) (last_job_id d)"

lemma keys_ok_append: "keys_ok ks m \<Longrightarrow> keys_ok (ks @ [m + 1]) (m + 1)"
  by (auto simp: keys_ok_def list_all_iff)

lemma wf_empty: "wf_db empty_db"
  by (simp add: wf_db_def empty_db_def keys_ok_def)

definition keeps_id :: "('r \<Rightarrow> int) \<Rightarrow> ('r \<Rightarrow> 'r) \<Rightarrow> bool" where
  "keeps_id key f \<longleftrightarrow> (\<forall>r. key (f r) = key r)"

lemma keeps_idD: "keeps_id key f \<Longrightarrow> key (f r) = key r"
  by (simp add: keeps_id_def)

lemma find_keyed_update:
  assumes "\<And>r. key (f r) = key r"
  shows "find (\<lambda>r. key r = k') (update_rows (\<lambda>r. key r = k \<and> g r) f rows)
    = (if k' = k then map_option (\<lambda>r. if g r then f r else r) (find (\<lambda>r. key r = k) rows)
       else find (\<lambda>r. key r = k') rows)"
  using assms by (induction rows) auto

interpretation ops: row_store get_op cas_op wf_db "keeps_id op_id"
proof unfold_locales
  fix d k k' and f :: "outbound_op \<Rightarrow> outbound_op" and g
  assume wf: "wf_db d" and ok: "keeps_id op_id f"
  from wf have dist: "distinct (map op_id (outbound_ops d))"
    by (simp add: wf_db_def keys_ok_def)
  show "snd (cas_op g f k d) = (case get_op d k of None \<Rightarrow> False | Some r \<Rightarrow> g r)"
    by (simp add: cas_op_def Let_def get_op_def changes_by_key [OF dist] split: option.split)
  show "get_op (fst (cas_op g f k d)) k' =
      (if k' = k then map_option (\<lambda>r. if g r then f r else r) (get_op d k) else get_op d k')"
    using ok by (simp add: cas_op_def Let_def get_op_def find_keyed_update keeps_id_def)
  show "wf_db (fst (cas_op g f k d))"
    using wf ok by (simp add: wf_db_def cas_op_def Let_def map_key_update_rows keeps_id_def)
qed

interpretation jobs: row_store get_job cas_job wf_db "keeps_id rj_id"
proof unfold_locales
  fix d k k' and f :: "recovery_job \<Rightarrow> recovery_job" and g
  assume wf: "wf_db d" and ok: "keeps_id rj_id f"
  from wf have dist: "distinct (map rj_id (recovery_jobs d))"
    by (simp add: wf_db_def keys_ok_def)
  show "snd (cas_job g f k d) = (case get_job d k of None \<Rightarrow> False | Some r \<Rightarrow> g r)"
    by (simp add: cas_job_def Let_def get_job_def changes_by_key [OF dist] split: option.split)
  show "get_job (fst (cas_job g f k d)) k' =
      (if k' = k then map_option (\<lambda>r. if g r then f r else r) (get_job d k) else get_job d k')"
    using ok by (simp add: cas_job_def Let_def get_job_def find_keyed_update keeps_id_def)
  show "wf_db (fst (cas_job g f k d))"
    using wf ok by (simp add: wf_db_def cas_job_def Let_def map_key_update_rows keeps_id_def)
qed

interpretation inbounds: row_store get_inbound cas_inbound wf_db "keeps_id ie_seq"
proof unfold_locales
  fix d k k' and f :: "inbound_event \<Rightarrow> inbound_event" and g
  assume wf: "wf_db d" and ok: "keeps_id ie_seq f"
  from wf have dist: "distinct (map ie_seq (inbound_events d))"
    by (simp add: wf_db_def keys_ok_def)
  show "snd (cas_inbound g f k d) = (case get_inbound d k of None \<Rightarrow> False | Some r \<Rightarrow> g r)"
    by (simp add: cas_inbound_def Let_def get_inbound_def changes_by_key [OF dist] split: option.split)
  show "get_inbound (fst (cas_inbound g f k d)) k' =
      (if k' = k then map_option (\<lambda>r. if g r then f r else r) (get_inbound d k) else get_inbound d k')"
    using ok by (simp add: cas_inbound_def Let_def get_inbound_def find_keyed_update keeps_id_def)
  show "wf_db (fst (cas_inbound g f k d))"
    using wf ok by (simp add: wf_db_def cas_inbound_def Let_def map_key_update_rows keeps_id_def)
qed

text \<open>Each keyed update leaves the other tables alone.\<close>

lemma cas_frames [simp]:
  "get_inbound (fst (cas_op g f k d)) n = get_inbound d n"
  "get_job (fst (cas_op g f k d)) n = get_job d n"
  "get_terminal (fst (cas_op g f k d)) n = get_terminal d n"
  "get_op (fst (cas_inbound g' f' k d)) n = get_op d n"
  "get_job (fst (cas_inbound g' f' k d)) n = get_job d n"
  "get_terminal (fst (cas_inbound g' f' k d)) n = get_terminal d n"
  "get_op (fst (cas_job g'' f'' k d)) n = get_op d n"
  "get_inbound (fst (cas_job g'' f'' k d)) n = get_inbound d n"
  "get_terminal (fst (cas_job g'' f'' k d)) n = get_terminal d n"
  by (simp_all add: cas_op_def cas_inbound_def cas_job_def get_op_def get_inbound_def get_job_def
      get_terminal_def Let_def)

end
