(* ===== verification/Triggers.thy ===== *)
theory Triggers
  imports Store
begin

text \<open>
  The immutability triggers on the inbound events and the outbound operations
  (\<^verbatim>\<open>src/core/database-migration-41.ts\<close>, \<^verbatim>\<open>src/core/database-migration-43.ts\<close>,
  \<^verbatim>\<open>src/core/database-migrations-37-40.ts\<close>), and keyed updates that they may abort. A row that is the
  proof of a recovery disposition, of a corroborated delivery or of an operator's closure keeps its columns;
  a statement that would change one throws, and leaves the tables as they were.
\<close>

section \<open>Inbound events\<close>

definition linked_inbound :: "int \<Rightarrow> db \<Rightarrow> bool" where
  "linked_inbound k d \<longleftrightarrow> exists_row (\<lambda>l. dl_inbound_seq l = k \<or> dl_superseded_by l = Some k) (disposition_links d)"

definition disposition_inbound_proof_immutable :: "db \<Rightarrow> inbound_event \<Rightarrow> inbound_event \<Rightarrow> bool" where
  "disposition_inbound_proof_immutable d old new \<longleftrightarrow> linked_inbound (ie_seq old) d
     \<and> (ie_seq new \<noteq> ie_seq old \<or> ie_message_id new \<noteq> ie_message_id old
        \<or> ie_conversation_key new \<noteq> ie_conversation_key old \<or> ie_chat_jid new \<noteq> ie_chat_jid old
        \<or> ie_received_at new \<noteq> ie_received_at old \<or> ie_routed_to new \<noteq> ie_routed_to old
        \<or> ie_processing_status new \<noteq> ie_processing_status old \<or> ie_completed_at new \<noteq> ie_completed_at old
        \<or> ie_terminal_reason new \<noteq> ie_terminal_reason old \<or> ie_failure_class new \<noteq> ie_failure_class old
        \<or> ie_candidate_reason new \<noteq> ie_candidate_reason old \<or> ie_candidate_source new \<noteq> ie_candidate_source old
        \<or> ie_candidate_marked_at new \<noteq> ie_candidate_marked_at old)"

definition completed_source :: "int \<Rightarrow> db \<Rightarrow> bool" where
  "completed_source k d \<longleftrightarrow> exists_row (\<lambda>j. rj_source_inbound_seq j = k \<and> rj_state j = Js_completed) (recovery_jobs d)"

text \<open>This one is declared for updates of the status column only.\<close>

definition turn_recovery_completed_source_stays_terminal :: "db \<Rightarrow> inbound_event \<Rightarrow> inbound_event \<Rightarrow> bool" where
  "turn_recovery_completed_source_stays_terminal d old new \<longleftrightarrow>
     ie_processing_status new \<notin> {Is_complete, Is_failed} \<and> completed_source (ie_seq old) d"

definition inbound_triggers :: "bool \<Rightarrow> db \<Rightarrow> inbound_event \<Rightarrow> inbound_event \<Rightarrow> error option" where
  "inbound_triggers sets_status d old new =
     (if disposition_inbound_proof_immutable d old new then Some (Error ''disposition inbound proof is immutable'')
      else if sets_status \<and> turn_recovery_completed_source_stays_terminal d old new
      then Some (Error ''completed recovery source inbound must stay terminal'') else None)"

definition inbound_abort ::
  "bool \<Rightarrow> (inbound_event \<Rightarrow> bool) \<Rightarrow> (inbound_event \<Rightarrow> inbound_event) \<Rightarrow> int \<Rightarrow> db \<Rightarrow> error option" where
  "inbound_abort sets_status g f k d = (case get_inbound d k of None \<Rightarrow> None
     | Some r \<Rightarrow> if g r then inbound_triggers sets_status d r (f r) else None)"

definition update_inbound ::
  "bool \<Rightarrow> (inbound_event \<Rightarrow> bool) \<Rightarrow> (inbound_event \<Rightarrow> inbound_event) \<Rightarrow> int \<Rightarrow> db \<Rightarrow> (db \<times> bool) result" where
  "update_inbound sets_status g f k d = (case inbound_abort sets_status g f k d of
     Some e \<Rightarrow> Inl e | None \<Rightarrow> Inr (cas_inbound g f k d))"

section \<open>Outbound operations\<close>

definition outbound_proof_changes :: "outbound_op \<Rightarrow> outbound_op \<Rightarrow> bool" where
  "outbound_proof_changes old new \<longleftrightarrow> op_id new \<noteq> op_id old
     \<or> op_conversation_key new \<noteq> op_conversation_key old \<or> op_chat_jid new \<noteq> op_chat_jid old
     \<or> op_type new \<noteq> op_type old \<or> op_payload new \<noteq> op_payload old
     \<or> op_payload_hash new \<noteq> op_payload_hash old \<or> op_status new \<noteq> op_status old
     \<or> op_created_at new \<noteq> op_created_at old \<or> op_submitted_at new \<noteq> op_submitted_at old
     \<or> op_echoed_at new \<noteq> op_echoed_at old \<or> op_wa_message_id new \<noteq> op_wa_message_id old
     \<or> op_error new \<noteq> op_error old \<or> op_source_inbound_seq new \<noteq> op_source_inbound_seq old
     \<or> op_retry_count new \<noteq> op_retry_count old \<or> op_is_terminal new \<noteq> op_is_terminal old
     \<or> op_replay_policy new \<noteq> op_replay_policy old"

definition corroborated_selected :: "int \<Rightarrow> db \<Rightarrow> bool" where
  "corroborated_selected k d \<longleftrightarrow> exists_row (\<lambda>c. exists_row (\<lambda>t. tt_id t = co_terminal_record_id c
     \<and> tt_delivery_op_id t = Some k) (terminal_records d)) (corroborations d)"

definition corroborating :: "int \<Rightarrow> db \<Rightarrow> bool" where
  "corroborating k d \<longleftrightarrow> exists_row (\<lambda>c. co_corroborating_op_id c = k) (corroborations d)"

definition closure_selected :: "int \<Rightarrow> db \<Rightarrow> bool" where
  "closure_selected k d \<longleftrightarrow> exists_row (\<lambda>w. cw_selected_op_id w = k) (closure_witnesses d)"

definition proof_op :: "int \<Rightarrow> db \<Rightarrow> bool" where
  "proof_op k d \<longleftrightarrow> corroborated_selected k d \<or> corroborating k d \<or> closure_selected k d"

definition outbound_triggers :: "db \<Rightarrow> outbound_op \<Rightarrow> outbound_op \<Rightarrow> error option" where
  "outbound_triggers d old new = (if \<not> outbound_proof_changes old new then None
     else if corroborated_selected (op_id old) d then Some (Error ''corroborated selected outbound proof is immutable'')
     else if corroborating (op_id old) d then Some (Error ''corroborating outbound proof is immutable'')
     else if closure_selected (op_id old) d then Some (Error ''operator catch-up selected outbound proof is immutable'')
     else None)"

definition outbound_abort ::
  "(outbound_op \<Rightarrow> bool) \<Rightarrow> (outbound_op \<Rightarrow> outbound_op) \<Rightarrow> int \<Rightarrow> db \<Rightarrow> error option" where
  "outbound_abort g f k d = (case get_op d k of None \<Rightarrow> None
     | Some r \<Rightarrow> if g r then outbound_triggers d r (f r) else None)"

text \<open>A statement that runs unless a trigger aborts it.\<close>

definition unless_aborted :: "error option \<Rightarrow> 'a \<Rightarrow> 'a result" where
  "unless_aborted abort x = (case abort of None \<Rightarrow> Inr x | Some e \<Rightarrow> Inl e)"

section \<open>Laws\<close>

lemma unless_aborted_Inr: "unless_aborted a x = Inr y \<longleftrightarrow> a = None \<and> y = x"
  by (auto simp: unless_aborted_def split: option.split)

lemma unless_aborted_None [simp]: "unless_aborted None x = Inr x"
  by (simp add: unless_aborted_def)

lemma update_inbound_Inr: "update_inbound b g f k d = Inr x \<longleftrightarrow> inbound_abort b g f k d = None \<and> x = cas_inbound g f k d"
  by (auto simp: update_inbound_def split: option.split)

lemma update_inboundD: "update_inbound b g f k d = Inr x \<Longrightarrow> x = cas_inbound g f k d"
  by (simp add: update_inbound_Inr)

lemma get_inbound_seq: "get_inbound d k = Some r \<Longrightarrow> ie_seq r = k"
  by (auto simp: get_inbound_def dest: find_SomeD)

lemma get_op_id: "get_op d n = Some r \<Longrightarrow> op_id r = n"
  by (auto simp: get_op_def dest: find_SomeD)

text \<open>A row that proves nothing is updated freely.\<close>

lemma no_inbound_abort:
  assumes "\<not> linked_inbound k d" "\<not> completed_source k d \<or> (\<forall>r. ie_processing_status (f r) \<in> {Is_complete, Is_failed})"
  shows "inbound_abort b g f k d = None"
  using assms by (auto simp: inbound_abort_def inbound_triggers_def disposition_inbound_proof_immutable_def
      turn_recovery_completed_source_stays_terminal_def dest!: get_inbound_seq split: option.split)

lemma no_candidate_abort: "\<not> linked_inbound k d \<Longrightarrow> inbound_abort False g f k d = None"
  by (auto simp: inbound_abort_def inbound_triggers_def disposition_inbound_proof_immutable_def
      dest!: get_inbound_seq split: option.split)

lemma no_outbound_abort: "\<not> proof_op k d \<Longrightarrow> outbound_abort g f k d = None"
  by (auto simp: outbound_abort_def outbound_triggers_def proof_op_def dest!: get_op_id split: option.split)

lemma outbound_abort_guards: "outbound_abort g f k d = Some e \<Longrightarrow> proof_op k d"
  by (metis no_outbound_abort option.distinct(1))

lemma inbound_abort_guards:
  "inbound_abort b g f k d = Some e \<Longrightarrow> linked_inbound k d \<or> completed_source k d"
  by (metis no_inbound_abort option.distinct(1))

text \<open>The triggers read tables that keyed updates leave alone.\<close>

lemma guards_frame:
  "disposition_links d' = disposition_links d \<Longrightarrow> linked_inbound k d' = linked_inbound k d"
  "recovery_jobs d' = recovery_jobs d \<Longrightarrow> completed_source k d' = completed_source k d"
  "corroborations d' = corroborations d \<Longrightarrow> terminal_records d' = terminal_records d
    \<Longrightarrow> closure_witnesses d' = closure_witnesses d \<Longrightarrow> proof_op k d' = proof_op k d"
  by (simp_all add: linked_inbound_def completed_source_def proof_op_def corroborated_selected_def
      corroborating_def closure_selected_def)

end
