(* ===== verification/Validators.thy ===== *)
theory Validators
  imports Evidence
begin

text \<open>
  The argument validators the durability engine and the recovery store share
  (\<^verbatim>\<open>src/core/turn-recovery-store.ts\<close> and \<^verbatim>\<open>src/lib/type-guards.ts\<close>). A validator returns unit or
  the error it throws. Strings are UTF-8 bytes, so \<^verbatim>\<open>String.prototype.trim\<close> removes the byte
  sequences of the ECMAScript white space.
\<close>

definition WHITE_SPACE :: "nat list list" where
  "WHITE_SPACE = [[9], [10], [11], [12], [13], [32], [194, 160], [225, 154, 128],
     [226, 128, 128], [226, 128, 129], [226, 128, 130], [226, 128, 131], [226, 128, 132],
     [226, 128, 133], [226, 128, 134], [226, 128, 135], [226, 128, 136], [226, 128, 137],
     [226, 128, 138], [226, 128, 168], [226, 128, 169], [226, 128, 175], [226, 129, 159],
     [227, 128, 128], [239, 187, 191]]"

definition leading_space :: "nat list \<Rightarrow> nat list option" where
  "leading_space bs = find (\<lambda>w. take (length w) bs = w) WHITE_SPACE"

lemma leading_space_nonempty: "leading_space bs = Some w \<Longrightarrow> w \<noteq> [] \<and> take (length w) bs = w"
  using find_SomeD [of "\<lambda>w. take (length w) bs = w" WHITE_SPACE w]
  by (auto simp: leading_space_def WHITE_SPACE_def)

function blank_bytes :: "nat list \<Rightarrow> bool" where
  "blank_bytes bs = (case leading_space bs of
     None \<Rightarrow> bs = []
   | Some w \<Rightarrow> blank_bytes (drop (length w) bs))"
  by pat_completeness auto

termination blank_bytes
proof (relation "measure length")
  show "wf (measure length)" by simp
next
  fix bs w
  assume "leading_space bs = Some w"
  from leading_space_nonempty [OF this] have "w \<noteq> []" "take (length w) bs = w" by simp_all
  then have "bs \<noteq> []" by auto
  with \<open>w \<noteq> []\<close> show "(drop (length w) bs, bs) \<in> measure length" by simp
qed

declare blank_bytes.simps [simp del]

definition isNonEmptyString :: "string \<Rightarrow> bool" where
  "isNonEmptyString s \<longleftrightarrow> \<not> blank_bytes (map of_char s)"

lemma blank_bytes_Nil [simp]: "blank_bytes []"
  by (simp add: blank_bytes.simps leading_space_def WHITE_SPACE_def)

lemma isNonEmptyString_Nil [simp]: "\<not> isNonEmptyString []"
  by (simp add: isNonEmptyString_def)

text \<open>A text that starts with a printable ASCII byte is not blank.\<close>

lemma leading_space_printable: "32 < c \<Longrightarrow> c < 128 \<Longrightarrow> leading_space (c # bs) = None"
  by (auto simp: leading_space_def WHITE_SPACE_def)

lemma isNonEmptyString_printable:
  "32 < (of_char c :: nat) \<Longrightarrow> (of_char c :: nat) < 128 \<Longrightarrow> isNonEmptyString (c # s)"
  by (simp add: isNonEmptyString_def blank_bytes.simps leading_space_printable)

definition TURN_RECOVERY_MAX_ID_BYTES :: nat where
  "TURN_RECOVERY_MAX_ID_BYTES = 2048"

definition TURN_RECOVERY_MAX_NAME_BYTES :: nat where
  "TURN_RECOVERY_MAX_NAME_BYTES = 4096"

definition TURN_RECOVERY_MAX_TEXT_BYTES :: nat where
  "TURN_RECOVERY_MAX_TEXT_BYTES = 262144"

definition validatePositiveSafeInteger :: "int \<Rightarrow> string \<Rightarrow> unit result" where
  "validatePositiveSafeInteger v label =
     throw_if (\<not> safe_integer v \<or> v < 1) (Error (label @ '' must be a positive safe integer''))
       (Inr ())"

definition validateBoundedRequired :: "string \<Rightarrow> string \<Rightarrow> nat \<Rightarrow> unit result" where
  "validateBoundedRequired v label maxBytes =
     throw_if (\<not> isNonEmptyString v) (Error (label @ '' must be nonempty''))
    (throw_if (length v > maxBytes) (Error (label @ '' exceeds its byte limit'')) (Inr ()))"

definition validateOptionalBounded :: "string option \<Rightarrow> string \<Rightarrow> nat \<Rightarrow> unit result" where
  "validateOptionalBounded v label maxBytes = (case v of None \<Rightarrow> Inr ()
     | Some s \<Rightarrow> throw_if (length s > maxBytes) (Error (label @ '' exceeds its byte limit''))
         (Inr ()))"

definition bounded_id :: "string \<Rightarrow> bool" where
  "bounded_id s \<longleftrightarrow> isNonEmptyString s \<and> length s \<le> TURN_RECOVERY_MAX_ID_BYTES"

definition positive_safe :: "int \<Rightarrow> bool" where
  "positive_safe n \<longleftrightarrow> 1 \<le> n \<and> n \<le> 9007199254740991"

lemma validatePositiveSafeInteger_iff [result_simps]:
  "validatePositiveSafeInteger v label = Inr u \<longleftrightarrow> positive_safe v"
  by (auto simp: validatePositiveSafeInteger_def throw_if_Inr safe_integer_def positive_safe_def)

lemma validateBoundedRequired_iff [result_simps]:
  "validateBoundedRequired v label TURN_RECOVERY_MAX_ID_BYTES = Inr u \<longleftrightarrow> bounded_id v"
  by (auto simp: validateBoundedRequired_def throw_if_Inr bounded_id_def)

lemma validateOptionalBounded_iff [result_simps]:
  "validateOptionalBounded v label m = Inr u \<longleftrightarrow> (\<forall>s. v = Some s \<longrightarrow> length s \<le> m)"
  by (auto simp: validateOptionalBounded_def throw_if_Inr split: option.splits)

end
