(* ===== verification/Ledger.thy ===== *)
theory Ledger
  imports Triggers Validators
begin

text \<open>
  The outbound half of the durability engine (\<^verbatim>\<open>src/core/durability.ts\<close>, section "Outbound ops"):
  one row per outgoing message and the guarded status transitions of its life. \<open>sha256\<close> is the
  digest of \<^verbatim>\<open>node:crypto\<close>, a parameter of the operations that store one. The transitions that
  also settle recovery jobs or complete inbound events are in the theory Settlement.
\<close>

section \<open>Status vocabulary\<close>

definition OUTBOUND_STATUSES :: "outbound_status list" where
  "OUTBOUND_STATUSES = [Os_pending, Os_sending, Os_submitted, Os_echoed, Os_maybe_sent,
     Os_failed_permanent, Os_quarantined]"

definition live_statuses :: "outbound_status list" where
  "live_statuses = [Os_pending, Os_sending, Os_submitted, Os_maybe_sent]"

definition failure_evidence :: "outbound_op \<Rightarrow> decoded_evidence" where
  "failure_evidence r = decodeOutboundFailureEvidence (op_error r)"

definition getOutboundByStatus :: "outbound_status \<Rightarrow> db \<Rightarrow> outbound_op list" where
  "getOutboundByStatus st d = sort_key op_id (filter (\<lambda>r. op_status r = st) (outbound_ops d))"

section \<open>The age of an ambiguity episode\<close>

definition past_stamp :: "int \<Rightarrow> stamp \<Rightarrow> int option" where
  "past_stamp now s = (case s of At t \<Rightarrow> if t \<le> now then Some t else None | Malformed \<Rightarrow> None)"

definition maybeSentDwellAtSql :: "int \<Rightarrow> outbound_op \<Rightarrow> int" where
  "maybeSentDwellAtSql now r =
     (let stale = now - 31 * 60;
          known = (\<lambda>s. case past_stamp now s of Some t \<Rightarrow> t | None \<Rightarrow> stale) in
      case op_ambiguity_at r of Some s \<Rightarrow> known s
      | None \<Rightarrow> (case op_submitted_at r of Some s \<Rightarrow> known s | None \<Rightarrow> known (op_created_at r)))"

section \<open>Creating an operation\<close>

record outbound_op_params =
  opp_conversationKey :: string
  opp_chatJid :: string
  opp_opType :: string
  opp_payload :: stored_text
  opp_replayPolicy :: replay_policy
  opp_sourceInboundSeq :: "int option"
  opp_isTerminal :: bool

definition new_op :: "(stored_text \<Rightarrow> string) \<Rightarrow> outbound_op_params \<Rightarrow> int \<Rightarrow> int \<Rightarrow> outbound_op" where
  "new_op sha256 params i now =
     \<lparr>op_id = i, op_status = Os_pending, op_conversation_key = opp_conversationKey params,
      op_chat_jid = opp_chatJid params, op_type = opp_opType params, op_payload = opp_payload params,
      op_payload_hash = sha256 (opp_payload params), op_wa_message_id = None,
      op_replay_policy = opp_replayPolicy params, op_created_at = At now, op_submitted_at = None,
      op_ambiguity_at = None, op_echoed_at = None,
      op_source_inbound_seq = opp_sourceInboundSeq params, op_retry_count = 0, op_error = None,
      op_is_terminal = opp_isTerminal params, op_quarantine_disposition = None,
      op_quarantine_coverage = None, op_quarantine_sha256 = None, op_quarantined_at = None\<rparr>"

definition insert_op :: "(stored_text \<Rightarrow> string) \<Rightarrow> outbound_op_params \<Rightarrow> int \<Rightarrow> db \<Rightarrow> db \<times> int" where
  "insert_op sha256 params now d = (let i = last_op_id d + 1 in
     (d\<lparr>outbound_ops := outbound_ops d @ [new_op sha256 params i now], last_op_id := i\<rparr>, i))"

text \<open>The evidence of an outstanding status ping that a newer ping replaces.\<close>

definition superseded_evidence :: "outbound_op \<Rightarrow> int \<Rightarrow> evidence result" where
  "superseded_evidence r nowMs =
     (let previous = v1_of (failure_evidence r);
          st = op_status r;
          rc = op_retry_count r;
          mutationState = (if st = Os_pending then Mu_not_started
            else if st = Os_submitted then Mu_submitted else Mu_ambiguous);
          logicalAttemptCount = (if st = Os_sending then rc + 1
            else if st = Os_submitted then max rc 1 else rc);
          submitted = map_option provider_submission_count previous;
          providerSubmissionCount = (if st = Os_sending
              then min logicalAttemptCount ((case submitted of None \<Rightarrow> rc | Some n \<Rightarrow> n) + 1)
            else if st = Os_submitted then max (case submitted of None \<Rightarrow> 0 | Some n \<Rightarrow> n) 1
            else (case submitted of None \<Rightarrow> min rc 1 | Some n \<Rightarrow> n))
      in createInternalOutboundFailureEvidence
       \<lparr>io_failureCode = Ic_superseded, io_stage = St_runtime, io_mutationState = mutationState,
        io_retryable = None, io_retryDecision = None, io_retryNotBefore = None,
        io_retryOwner = None, io_attemptBudgetDisposition = None,
        io_logicalAttemptCount = Some logicalAttemptCount,
        io_providerSubmissionCount = Some providerSubmissionCount,
        io_previousEvidence = previous,
        io_evidenceCoverage = Some (if previous = None then Cv_partial else Cv_complete)\<rparr> nowMs)"

definition markSupersededStatus ::
  "outbound_status \<Rightarrow> stored_text \<Rightarrow> int \<Rightarrow> int \<Rightarrow> outbound_status \<Rightarrow> db \<Rightarrow> db \<times> bool" where
  "markSupersededStatus new err n k old =
     cas_op (\<lambda>r. op_status r = old)
       (\<lambda>r. r\<lparr>op_status := new, op_error := Some err, op_retry_count := max (op_retry_count r) n\<rparr>) k"

fun supersede_all :: "outbound_op list \<Rightarrow> int \<Rightarrow> db \<Rightarrow> db \<times> unit result" where
  "supersede_all [] nowMs d = (d, Inr ())"
| "supersede_all (r # rs) nowMs d =
     (case and_then (superseded_evidence r nowMs) (\<lambda>e.
             and_then (encodeOutboundFailureEvidence e) (\<lambda>t. Inr (e, t))) of
        Inl x \<Rightarrow> (d, Inl x)
      | Inr (e, t) \<Rightarrow> supersede_all rs nowMs (fst (markSupersededStatus
          (if op_status r = Os_pending then Os_failed_permanent else Os_quarantined)
          t (logical_attempt_count e) (op_id r) (op_status r) d)))"

definition selectOutstandingStatus :: "string \<Rightarrow> db \<Rightarrow> outbound_op list" where
  "selectOutstandingStatus chatJid d =
     filter (\<lambda>r. op_chat_jid r = chatJid \<and> op_type r = ''status_ping''
       \<and> op_status r \<in> set live_statuses) (outbound_ops d)"

text \<open>The loop over the outstanding pings runs outside a transaction: a throw keeps what it wrote.\<close>

definition createOutboundOp ::
  "(stored_text \<Rightarrow> string) \<Rightarrow> outbound_op_params \<Rightarrow> int \<Rightarrow> db \<Rightarrow> db \<times> int result" where
  "createOutboundOp sha256 params nowMs d =
     (let (d', r) = (if opp_opType params = ''status_ping''
                     then supersede_all (selectOutstandingStatus (opp_chatJid params) d) nowMs d
                     else (d, Inr ())) in
      case r of Inl x \<Rightarrow> (d', Inl x)
      | Inr _ \<Rightarrow> (let (d'', i) = insert_op sha256 params (sql_now nowMs) d' in (d'', Inr i)))"

section \<open>Status transitions\<close>

definition markSending :: "int \<Rightarrow> db \<Rightarrow> db \<times> bool" where
  "markSending k = cas_op (\<lambda>r. op_status r = Os_pending) (\<lambda>r. r\<lparr>op_status := Os_sending\<rparr>) k"

definition markSubmitted :: "int \<Rightarrow> string option \<Rightarrow> int \<Rightarrow> int \<Rightarrow> db \<Rightarrow> db result" where
  "markSubmitted k waMessageId logicalAttemptCount nowMs d =
     throw_if (\<not> safe_integer logicalAttemptCount \<or> logicalAttemptCount < 1)
       (RangeError ''Submitted outbound logical attempt count must be positive'')
       (Inr (fst (cas_op (\<lambda>r. True)
         (\<lambda>r. r\<lparr>op_status := Os_submitted, op_wa_message_id := waMessageId,
                op_submitted_at := Some (At (sql_now nowMs)), op_error := None,
                op_retry_count := max (op_retry_count r) logicalAttemptCount\<rparr>) k d)))"

text \<open>The evidence argument of two transitions: a record, or a legacy text or nothing at all.\<close>

datatype evidence_arg = Evidence_record evidence | Legacy_text

definition normalizeOutboundTransitionEvidence ::
  "evidence_arg \<Rightarrow> internal_code \<Rightarrow> stage \<Rightarrow> mutation \<Rightarrow> int \<Rightarrow> evidence result" where
  "normalizeOutboundTransitionEvidence arg fallbackCode st mu nowMs = (case arg of
     Evidence_record e \<Rightarrow> and_then (encodeOutboundFailureEvidence e) (\<lambda>_. Inr e)
   | Legacy_text \<Rightarrow> createInternalOutboundFailureEvidence
       \<lparr>io_failureCode = fallbackCode, io_stage = st, io_mutationState = mu,
        io_retryable = None, io_retryDecision = None, io_retryNotBefore = None,
        io_retryOwner = None, io_attemptBudgetDisposition = None, io_logicalAttemptCount = None,
        io_providerSubmissionCount = Some (if mu = Mu_ambiguous then 1 else 0),
        io_previousEvidence = None, io_evidenceCoverage = Some Cv_partial\<rparr> nowMs)"

definition keeps_retry :: "evidence \<Rightarrow> bool" where
  "keeps_retry e \<longleftrightarrow> retry_decision e \<noteq> Rd_stop \<or> retry_owner e \<noteq> Ro_none
     \<or> attempt_budget_disposition e \<noteq> Bd_stop"

definition live :: "outbound_op \<Rightarrow> bool" where
  "live r \<longleftrightarrow> op_status r \<in> set live_statuses"

definition markMaybeSent :: "int \<Rightarrow> evidence_arg \<Rightarrow> string option \<Rightarrow> int \<Rightarrow> db \<Rightarrow> (db \<times> bool) result" where
  "markMaybeSent k arg waMessageId nowMs d =
     and_then (normalizeOutboundTransitionEvidence arg Ic_unknown_failure St_provider_request
         Mu_ambiguous nowMs) (\<lambda>e.
     throw_if (mutation_state e \<noteq> Mu_ambiguous)
       (Error ''Maybe-sent outbound transition requires ambiguous mutation evidence'')
    (throw_if (keeps_retry e)
       (Error ''Maybe-sent outbound transition requires terminal retry evidence'')
    (and_then (encodeOutboundFailureEvidence e) (\<lambda>t. Inr
       (cas_op live
         (\<lambda>r. r\<lparr>op_status := Os_maybe_sent,
                op_ambiguity_at := (if op_status r = Os_maybe_sent then op_ambiguity_at r
                                    else Some (At (sql_now nowMs))),
                op_error := Some t,
                op_wa_message_id := (case waMessageId of None \<Rightarrow> op_wa_message_id r | w \<Rightarrow> w),
                op_retry_count := max (op_retry_count r) (logical_attempt_count e)\<rparr>) k d)))))"

definition markFailedPermanent :: "int \<Rightarrow> evidence_arg \<Rightarrow> int \<Rightarrow> db \<Rightarrow> (db \<times> bool) result" where
  "markFailedPermanent k arg nowMs d =
     and_then (normalizeOutboundTransitionEvidence arg Ic_unknown_failure St_provider_response
         Mu_rejected nowMs) (\<lambda>e.
     throw_if (mutation_state e = Mu_ambiguous \<or> mutation_state e = Mu_submitted)
       (Error ''Permanent outbound failure requires deterministic non-delivery evidence'')
    (throw_if (keeps_retry e)
       (Error ''Permanent outbound failure requires terminal retry evidence'')
    (and_then (encodeOutboundFailureEvidence e) (\<lambda>t. Inr
       (cas_op live
         (\<lambda>r. r\<lparr>op_status := Os_failed_permanent, op_error := Some t,
                op_retry_count := max (op_retry_count r) (logical_attempt_count e)\<rparr>) k d)))))"

definition markDeferred :: "int \<Rightarrow> evidence \<Rightarrow> db \<Rightarrow> (db \<times> bool) result" where
  "markDeferred k e d =
     throw_if (retry_decision e \<noteq> Rd_retry_not_before \<or> retry_not_before e = None
         \<or> retry_owner e \<noteq> Ro_pending_drainer \<or> mutation_state e = Mu_ambiguous
         \<or> mutation_state e = Mu_submitted)
       (Error ''Deferred outbound transition requires pending-drainer deadline evidence'')
    (and_then (encodeOutboundFailureEvidence e) (\<lambda>t. Inr
       (cas_op (\<lambda>r. op_status r \<in> {Os_pending, Os_sending})
         (\<lambda>r. r\<lparr>op_status := Os_pending, op_error := Some t,
                op_retry_count := max (op_retry_count r) (logical_attempt_count e)\<rparr>) k d)))"

definition markQuarantined ::
  "(stored_text \<Rightarrow> string) \<Rightarrow> int \<Rightarrow> evidence option \<Rightarrow> int \<Rightarrow> db \<Rightarrow> (db \<times> bool) result" where
  "markQuarantined sha256 k ev nowMs d =
     and_then (case ev of Some e \<Rightarrow> Inr e
       | None \<Rightarrow> createInternalOutboundFailureEvidence
         \<lparr>io_failureCode = Ic_unknown_failure, io_stage = St_runtime, io_mutationState = Mu_rejected,
          io_retryable = None, io_retryDecision = None, io_retryNotBefore = None,
          io_retryOwner = None, io_attemptBudgetDisposition = None,
          io_logicalAttemptCount = Some 0, io_providerSubmissionCount = Some 0,
          io_previousEvidence = None, io_evidenceCoverage = Some Cv_partial\<rparr> nowMs) (\<lambda>e.
     throw_if (retry_decision e \<noteq> Rd_stop \<or> retry_owner e \<noteq> Ro_none)
       (Error ''Quarantined outbound transition cannot retain retry ownership'')
    (and_then (encodeOutboundFailureEvidence e) (\<lambda>t. Inr
       (cas_op live
         (\<lambda>r. r\<lparr>op_status := Os_quarantined, op_error := Some t,
                op_retry_count := max (op_retry_count r) (logical_attempt_count e),
                op_quarantine_disposition := Some (classifyOutboundQuarantineDisposition e),
                op_quarantine_coverage := Some (evidence_coverage e),
                op_quarantine_sha256 := Some (sha256 t),
                op_quarantined_at := Some (sql_now nowMs)\<rparr>) k d))))"

text \<open>The statements behind \<^verbatim>\<open>markEchoed\<close>, \<^verbatim>\<open>markTerminal\<close> and the two resets to pending.\<close>

definition echo_statement :: "int \<Rightarrow> int \<Rightarrow> db \<Rightarrow> db" where
  "echo_statement k now d = fst (cas_op (\<lambda>r. True)
     (\<lambda>r. r\<lparr>op_status := Os_echoed,
            op_echoed_at := (case op_echoed_at r of None \<Rightarrow> Some now | s \<Rightarrow> s)\<rparr>) k d)"

definition terminal_statement :: "int \<Rightarrow> db \<Rightarrow> db \<times> bool" where
  "terminal_statement k = cas_op (\<lambda>r. True) (\<lambda>r. r\<lparr>op_is_terminal := True\<rparr>) k"

definition runMarkTerminal :: "int \<Rightarrow> db \<Rightarrow> (db \<times> bool) result" where
  "runMarkTerminal k d = unless_aborted (outbound_abort (\<lambda>r. True) (\<lambda>r. r\<lparr>op_is_terminal := True\<rparr>) k d)
     (terminal_statement k d)"

lemma runMarkTerminal_free: "\<not> proof_op k d \<Longrightarrow> runMarkTerminal k d = Inr (terminal_statement k d)"
  by (simp add: runMarkTerminal_def no_outbound_abort)

lemma runMarkTerminal_ran: "runMarkTerminal k d = Inr x \<Longrightarrow> x = terminal_statement k d"
  by (simp add: runMarkTerminal_def unless_aborted_Inr)

definition resetMaybeSentToPending :: "int \<Rightarrow> stored_text \<Rightarrow> int \<Rightarrow> db \<Rightarrow> db \<times> bool" where
  "resetMaybeSentToPending k t n = cas_op (\<lambda>r. op_status r = Os_maybe_sent)
     (\<lambda>r. r\<lparr>op_status := Os_pending, op_error := Some t,
            op_retry_count := max (op_retry_count r) n\<rparr>) k"

definition selectOutboundForEchoMatch :: "string \<Rightarrow> db \<Rightarrow> int option" where
  "selectOutboundForEchoMatch waMessageId d = map_option op_id (find (\<lambda>r.
     op_wa_message_id r = Some waMessageId
     \<and> op_status r \<in> {Os_submitted, Os_maybe_sent, Os_quarantined, Os_failed_permanent})
     (outbound_ops d))"

section \<open>Delivery snapshot\<close>

record delivery_identity =
  di_conversationKey :: string
  di_deliveryJid :: string
  di_sourceInboundSeq :: "int option"

definition getOutboundDeliverySnapshot ::
  "int \<Rightarrow> delivery_identity \<Rightarrow> db \<Rightarrow> outbound_status option result" where
  "getOutboundDeliverySnapshot opId identity d =
     and_then (validatePositiveSafeInteger opId ''Outbound delivery op ID'') (\<lambda>_.
     and_then (validateBoundedRequired (di_conversationKey identity)
       ''Outbound delivery conversation key'' TURN_RECOVERY_MAX_ID_BYTES) (\<lambda>_.
     and_then (validateBoundedRequired (di_deliveryJid identity)
       ''Outbound delivery JID'' TURN_RECOVERY_MAX_ID_BYTES) (\<lambda>_.
     and_then (case di_sourceInboundSeq identity of None \<Rightarrow> Inr ()
       | Some n \<Rightarrow> validatePositiveSafeInteger n ''Outbound source inbound sequence'') (\<lambda>_.
     (case get_op d opId of None \<Rightarrow> Inr None
      | Some r \<Rightarrow> throw_if (op_conversation_key r \<noteq> di_conversationKey identity
            \<or> op_chat_jid r \<noteq> di_deliveryJid identity
            \<or> op_source_inbound_seq r \<noteq> di_sourceInboundSeq identity)
          (Error ''Selected outbound identity does not match the expected turn identity'')
          (Inr (Some (op_status r))))))))"

section \<open>Tool calls\<close>

datatype tool_completion = Tool_success int "coverage option"
  | Tool_failure int string string string string coverage

definition tool_duration :: "int \<Rightarrow> int" where
  "tool_duration ms = (if safe_integer ms \<and> 0 \<le> ms then ms else 0)"

definition markToolExecuting :: "int \<Rightarrow> db \<Rightarrow> db" where
  "markToolExecuting k d = d\<lparr>tool_calls := update_rows (\<lambda>r. tc_id r = k)
     (\<lambda>r. r\<lparr>tc_status := ''executing''\<rparr>) (tool_calls d)\<rparr>"

definition markToolComplete :: "int \<Rightarrow> tool_completion \<Rightarrow> int option \<Rightarrow> int \<Rightarrow> db \<Rightarrow> db" where
  "markToolComplete k completion outboundOpId now d = d\<lparr>tool_calls := update_rows (\<lambda>r. tc_id r = k)
     (\<lambda>r. case completion of
        Tool_failure ms code st disp action cov \<Rightarrow>
          r\<lparr>tc_status := ''error'', tc_completed_at := Some now, tc_outbound_op_id := outboundOpId,
            tc_outcome_code := ''failure'', tc_failure_code := Some code,
            tc_failure_stage := Some st, tc_retry_disposition := disp,
            tc_operator_action := action, tc_evidence_coverage := cov,
            tc_duration_ms := Some (tool_duration ms)\<rparr>
      | Tool_success ms cov \<Rightarrow>
          r\<lparr>tc_status := ''complete'', tc_completed_at := Some now,
            tc_outbound_op_id := outboundOpId, tc_outcome_code := ''success'',
            tc_failure_code := None, tc_failure_stage := None,
            tc_retry_disposition := ''not_applicable'', tc_operator_action := ''none'',
            tc_evidence_coverage := (case cov of None \<Rightarrow> Cv_complete | Some c \<Rightarrow> c),
            tc_duration_ms := Some (tool_duration ms)\<rparr>) (tool_calls d)\<rparr>"

definition markToolReplayed :: "int \<Rightarrow> int \<Rightarrow> db \<Rightarrow> db" where
  "markToolReplayed k now d = d\<lparr>tool_calls := update_rows (\<lambda>r. tc_id r = k)
     (\<lambda>r. r\<lparr>tc_status := ''replayed'', tc_completed_at := Some now,
        tc_outcome_code := ''recovered_replayed'', tc_failure_code := None,
        tc_failure_stage := None, tc_retry_disposition := ''not_applicable'',
        tc_operator_action := ''none'', tc_evidence_coverage := Cv_complete,
        tc_duration_ms := None\<rparr>) (tool_calls d)\<rparr>"

definition markRecoveredToolQuarantined :: "int \<Rightarrow> int \<Rightarrow> db \<Rightarrow> db" where
  "markRecoveredToolQuarantined k now d = d\<lparr>tool_calls := update_rows (\<lambda>r. tc_id r = k)
     (\<lambda>r. r\<lparr>tc_status := ''quarantined'', tc_completed_at := Some now,
        tc_outcome_code := ''recovery_quarantined'', tc_failure_code := Some ''unknown'',
        tc_failure_stage := Some ''recovery'', tc_retry_disposition := ''not_retryable'',
        tc_operator_action := ''inspect'', tc_evidence_coverage := Cv_partial,
        tc_duration_ms := None\<rparr>) (tool_calls d)\<rparr>"

section \<open>The ledger invariant\<close>

text \<open>
  A row's retry count is never below the attempts its evidence counts. It is what keeps every
  later record constructible: the recovery passes build records with the row's retry count as the
  logical count and the evidence's submissions as the submission count.
\<close>

definition op_ok :: "outbound_op \<Rightarrow> bool" where
  "op_ok r \<longleftrightarrow> 0 \<le> op_retry_count r
     \<and> (case failure_evidence r of LEGACY_UNCLASSIFIED \<Rightarrow> True
        | V1 e \<Rightarrow> logical_attempt_count e \<le> op_retry_count r)"

definition ledger_ok :: "db \<Rightarrow> bool" where
  "ledger_ok d \<longleftrightarrow> (\<forall>r \<in> set (outbound_ops d). op_ok r)"

lemma live_iff: "live r \<longleftrightarrow> op_status r \<in> {Os_pending, Os_sending, Os_submitted, Os_maybe_sent}"
  by (simp add: live_def live_statuses_def)

lemma cas_op_ok:
  assumes "ledger_ok d" "\<And>r. g r \<Longrightarrow> op_ok r \<Longrightarrow> op_ok (f r)"
  shows "ledger_ok (fst (cas_op g f k d))"
  using assms by (auto simp: ledger_ok_def cas_op_def Let_def set_update_rows)

lemma op_ok_cong:
  "op_error r' = op_error r \<Longrightarrow> op_retry_count r' = op_retry_count r \<Longrightarrow> op_ok r' = op_ok r"
  by (simp add: op_ok_def failure_evidence_def split: decoded_evidence.split)

text \<open>Writing an encoded record together with a retry count of at least its attempts.\<close>

lemma op_ok_encoded:
  assumes "encodeOutboundFailureEvidence e = Inr t" "op_error r = Some t"
    "logical_attempt_count e \<le> op_retry_count r"
  shows "op_ok r"
  using assms decode_encoded [OF assms(1)] valid_counts(1) [OF encode_Inr_valid [OF assms(1)]]
  by (simp add: op_ok_def failure_evidence_def)

lemma get_op_ok: "ledger_ok d \<Longrightarrow> get_op d k = Some r \<Longrightarrow> op_ok r"
  by (auto simp: ledger_ok_def get_op_def dest: find_SomeD)

lemma cas_op_row:
  assumes "wf_db d" "keeps_id op_id f" "get_op d k = Some r"
  shows "\<exists>r'. get_op (fst (cas_op g f n d)) k = Some r' \<and> (r' = r \<or> k = n \<and> g r \<and> r' = f r)"
  using assms by (auto simp: ops.get_cas)

section \<open>One transition of the ledger\<close>

inductive ledger_step :: "(stored_text \<Rightarrow> string) \<Rightarrow> db \<Rightarrow> db \<Rightarrow> bool" for sha256 where
  Create: "createOutboundOp sha256 params nowMs d = (d', res) \<Longrightarrow> ledger_step sha256 d d'"
| Sending: "ledger_step sha256 d (fst (markSending k d))"
| Submitted: "markSubmitted k w n nowMs d = Inr d' \<Longrightarrow> ledger_step sha256 d d'"
| Maybe: "markMaybeSent k arg w nowMs d = Inr (d', won) \<Longrightarrow> ledger_step sha256 d d'"
| Failed: "markFailedPermanent k arg nowMs d = Inr (d', won) \<Longrightarrow> ledger_step sha256 d d'"
| Deferred: "markDeferred k e d = Inr (d', won) \<Longrightarrow> ledger_step sha256 d d'"
| Quarantined: "markQuarantined sha256 k ev nowMs d = Inr (d', won) \<Longrightarrow> ledger_step sha256 d d'"
| Echoed: "ledger_step sha256 d (echo_statement k now d)"
| Terminal: "ledger_step sha256 d (fst (terminal_statement k d))"
| Reset: "encodeOutboundFailureEvidence e = Inr t \<Longrightarrow>
    ledger_step sha256 d (fst (resetMaybeSentToPending k t (logical_attempt_count e) d))"

text \<open>Each transition is a guarded update of one row; the updates, by name.\<close>

definition sets_error :: "outbound_status \<Rightarrow> outbound_op \<Rightarrow> outbound_op \<Rightarrow> bool" where
  "sets_error st r r' \<longleftrightarrow> op_status r' = st \<and>
     (\<exists>e t. encodeOutboundFailureEvidence e = Inr t \<and> op_error r' = Some t
        \<and> op_retry_count r' = max (op_retry_count r) (logical_attempt_count e))"

definition same_identity :: "outbound_op \<Rightarrow> outbound_op \<Rightarrow> bool" where
  "same_identity r r' \<longleftrightarrow> op_id r' = op_id r \<and> op_conversation_key r' = op_conversation_key r
     \<and> op_chat_jid r' = op_chat_jid r \<and> op_type r' = op_type r \<and> op_payload r' = op_payload r
     \<and> op_payload_hash r' = op_payload_hash r \<and> op_replay_policy r' = op_replay_policy r
     \<and> op_created_at r' = op_created_at r \<and> op_source_inbound_seq r' = op_source_inbound_seq r
     \<and> (op_is_terminal r \<longrightarrow> op_is_terminal r')
     \<and> (op_echoed_at r \<noteq> None \<longrightarrow> op_echoed_at r' = op_echoed_at r)"

definition row_step :: "outbound_op \<Rightarrow> outbound_op \<Rightarrow> bool" where
  "row_step r r' \<longleftrightarrow> same_identity r r' \<and>
     (op_status r' = op_status r \<and> op_error r' = op_error r \<and> op_retry_count r' = op_retry_count r
      \<or> op_status r = Os_pending \<and> op_status r' = Os_sending \<and> op_error r' = op_error r
          \<and> op_retry_count r' = op_retry_count r
      \<or> op_status r' = Os_submitted \<and> op_error r' = None \<and> op_retry_count r \<le> op_retry_count r'
          \<and> 1 \<le> op_retry_count r'
      \<or> live r \<and> (sets_error Os_maybe_sent r r' \<or> sets_error Os_failed_permanent r r'
          \<or> sets_error Os_quarantined r r')
      \<or> op_status r \<in> {Os_pending, Os_sending, Os_maybe_sent} \<and> sets_error Os_pending r r'
      \<or> op_status r' = Os_echoed \<and> op_error r' = op_error r
          \<and> op_retry_count r' = op_retry_count r)"

lemma row_step_refl: "row_step r r"
  by (simp add: row_step_def same_identity_def)

lemma row_step_ok: "row_step r r' \<Longrightarrow> op_ok r \<Longrightarrow> op_ok r'"
  unfolding row_step_def sets_error_def
  by (elim conjE disjE exE)
    (simp add: op_ok_cong [of r' r] | rule op_ok_encoded, assumption+, simp
      | simp add: op_ok_def failure_evidence_def)+

lemma row_step_retry: "row_step r r' \<Longrightarrow> op_retry_count r \<le> op_retry_count r'"
  by (auto simp: row_step_def sets_error_def)

text \<open>A guarded update whose effect on a matching row is a row step.\<close>

lemma cas_op_steps:
  assumes "\<And>r. g r \<Longrightarrow> row_step r (f r)"
  shows "keeps_id op_id (\<lambda>r. if g r then f r else r)"
    "cas_op g f k d = cas_op g (\<lambda>r. if g r then f r else r) k d"
proof -
  show "keeps_id op_id (\<lambda>r. if g r then f r else r)"
    using assms by (auto simp: keeps_id_def row_step_def same_identity_def)
  have "update_rows (\<lambda>r. op_id r = k \<and> g r) f rows
    = update_rows (\<lambda>r. op_id r = k \<and> g r) (\<lambda>r. if g r then f r else r) rows" for rows
    by (simp add: update_rows_def)
  then show "cas_op g f k d = cas_op g (\<lambda>r. if g r then f r else r) k d"
    by (simp add: cas_op_def Let_def)
qed

lemma cas_op_step:
  assumes "\<And>r. g r \<Longrightarrow> row_step r (f r)" "wf_db d"
  shows "wf_db (fst (cas_op g f k d))"
    "ledger_ok d \<Longrightarrow> ledger_ok (fst (cas_op g f k d))"
    "get_op d n = Some r \<Longrightarrow> \<exists>r'. get_op (fst (cas_op g f k d)) n = Some r' \<and> row_step r r'"
proof -
  have eq: "cas_op g f k d = cas_op g (\<lambda>r. if g r then f r else r) k d"
    by (rule cas_op_steps(2)) (rule assms(1))
  have keeps: "keeps_id op_id (\<lambda>r. if g r then f r else r)"
    by (rule cas_op_steps(1)) (rule assms(1))
  show "wf_db (fst (cas_op g f k d))"
    by (subst eq) (rule ops.wf_cas [OF assms(2) keeps])
  show "ledger_ok d \<Longrightarrow> ledger_ok (fst (cas_op g f k d))"
    by (rule cas_op_ok) (auto intro: row_step_ok assms(1))
  show "get_op d n = Some r \<Longrightarrow> \<exists>r'. get_op (fst (cas_op g f k d)) n = Some r' \<and> row_step r r'"
    by (subst eq) (use cas_op_row [OF assms(2) keeps, of n r g k] assms(1) in \<open>auto intro: row_step_refl\<close>)
qed

section \<open>Every transition is a row step\<close>

lemmas row_step_defs = row_step_def sets_error_def same_identity_def live_iff

lemma row_step_sending: "op_status r = Os_pending \<Longrightarrow> row_step r (r\<lparr>op_status := Os_sending\<rparr>)"
  by (simp add: row_step_def same_identity_def)

lemma row_step_submitted:
  "1 \<le> n \<Longrightarrow> row_step r (r\<lparr>op_status := Os_submitted, op_wa_message_id := w,
     op_submitted_at := s, op_error := None, op_retry_count := max (op_retry_count r) n\<rparr>)"
  by (auto simp: row_step_def same_identity_def)

lemma row_step_echoed:
  "row_step r (r\<lparr>op_status := Os_echoed,
     op_echoed_at := (case op_echoed_at r of None \<Rightarrow> Some now | s \<Rightarrow> s)\<rparr>)"
  by (simp add: row_step_def same_identity_def split: option.split)

lemma row_step_terminal: "row_step r (r\<lparr>op_is_terminal := True\<rparr>)"
  by (simp add: row_step_def same_identity_def)

lemma markSending_steps:
  "wf_db d \<Longrightarrow> wf_db (fst (markSending k d))"
  "wf_db d \<Longrightarrow> ledger_ok d \<Longrightarrow> ledger_ok (fst (markSending k d))"
  "wf_db d \<Longrightarrow> get_op d n = Some r \<Longrightarrow>
     \<exists>r'. get_op (fst (markSending k d)) n = Some r' \<and> row_step r r'"
  unfolding markSending_def by (rule cas_op_step; simp add: row_step_sending)+

lemma echo_steps:
  "wf_db d \<Longrightarrow> wf_db (echo_statement k now d)"
  "wf_db d \<Longrightarrow> ledger_ok d \<Longrightarrow> ledger_ok (echo_statement k now d)"
  "wf_db d \<Longrightarrow> get_op d n = Some r \<Longrightarrow>
     \<exists>r'. get_op (echo_statement k now d) n = Some r' \<and> row_step r r'"
  unfolding echo_statement_def by (rule cas_op_step; simp add: row_step_echoed)+

lemma terminal_steps:
  "wf_db d \<Longrightarrow> wf_db (fst (terminal_statement k d))"
  "wf_db d \<Longrightarrow> ledger_ok d \<Longrightarrow> ledger_ok (fst (terminal_statement k d))"
  "wf_db d \<Longrightarrow> get_op d n = Some r \<Longrightarrow>
     \<exists>r'. get_op (fst (terminal_statement k d)) n = Some r' \<and> row_step r r'"
  unfolding terminal_statement_def by (rule cas_op_step; simp add: row_step_terminal)+

text \<open>The four transitions that store an encoded record are guarded updates with it.\<close>

lemma markSubmitted_cas:
  assumes "markSubmitted k w n nowMs d = Inr d'"
  shows "\<exists>f. d' = fst (cas_op (\<lambda>r. True) f k d) \<and> (\<forall>r. row_step r (f r))"
proof -
  from assms have "1 \<le> n" by (auto simp: markSubmitted_def throw_if_Inr)
  then show ?thesis using assms
    by (auto simp: markSubmitted_def throw_if_Inr intro!: exI row_step_submitted)
qed

lemma markMaybeSent_cas:
  assumes "markMaybeSent k arg w nowMs d = Inr (d', won)"
  shows "\<exists>f. (d', won) = cas_op live f k d \<and> (\<forall>r. live r \<longrightarrow> row_step r (f r))"
proof -
  from assms obtain e t where e: "encodeOutboundFailureEvidence e = Inr t"
    and u: "cas_op live (\<lambda>r. r\<lparr>op_status := Os_maybe_sent,
        op_ambiguity_at := (if op_status r = Os_maybe_sent then op_ambiguity_at r
                            else Some (At (sql_now nowMs))),
        op_error := Some t,
        op_wa_message_id := (case w of None \<Rightarrow> op_wa_message_id r | w \<Rightarrow> w),
        op_retry_count := max (op_retry_count r) (logical_attempt_count e)\<rparr>) k d = (d', won)"
    by (auto simp: markMaybeSent_def and_then_Inr throw_if_Inr)
  show ?thesis
    by (rule exI, rule conjI [OF u [symmetric]]) (use e in \<open>auto simp: row_step_defs\<close>)
qed

lemma markFailedPermanent_cas:
  assumes "markFailedPermanent k arg nowMs d = Inr (d', won)"
  shows "\<exists>f. (d', won) = cas_op live f k d \<and> (\<forall>r. live r \<longrightarrow> row_step r (f r))"
proof -
  from assms obtain e t where e: "encodeOutboundFailureEvidence e = Inr t"
    and u: "cas_op live (\<lambda>r. r\<lparr>op_status := Os_failed_permanent, op_error := Some t,
        op_retry_count := max (op_retry_count r) (logical_attempt_count e)\<rparr>) k d = (d', won)"
    by (auto simp: markFailedPermanent_def and_then_Inr throw_if_Inr)
  show ?thesis
    by (rule exI, rule conjI [OF u [symmetric]]) (use e in \<open>auto simp: row_step_defs\<close>)
qed

lemma markQuarantined_cas:
  assumes "markQuarantined sha256 k ev nowMs d = Inr (d', won)"
  shows "\<exists>f. (d', won) = cas_op live f k d \<and> (\<forall>r. live r \<longrightarrow> row_step r (f r))"
proof -
  from assms obtain e t where e: "encodeOutboundFailureEvidence e = Inr t"
    and u: "cas_op live (\<lambda>r. r\<lparr>op_status := Os_quarantined, op_error := Some t,
        op_retry_count := max (op_retry_count r) (logical_attempt_count e),
        op_quarantine_disposition := Some (classifyOutboundQuarantineDisposition e),
        op_quarantine_coverage := Some (evidence_coverage e),
        op_quarantine_sha256 := Some (sha256 t),
        op_quarantined_at := Some (sql_now nowMs)\<rparr>) k d = (d', won)"
    by (auto simp: markQuarantined_def and_then_Inr throw_if_Inr)
  show ?thesis
    by (rule exI, rule conjI [OF u [symmetric]]) (use e in \<open>auto simp: row_step_defs\<close>)
qed

lemma markDeferred_cas:
  assumes "markDeferred k e d = Inr (d', won)"
  shows "\<exists>f. (d', won) = cas_op (\<lambda>r. op_status r \<in> {Os_pending, Os_sending}) f k d
    \<and> (\<forall>r. op_status r \<in> {Os_pending, Os_sending} \<longrightarrow> row_step r (f r))"
proof -
  from assms obtain t where e: "encodeOutboundFailureEvidence e = Inr t"
    and u: "cas_op (\<lambda>r. op_status r \<in> {Os_pending, Os_sending})
      (\<lambda>r. r\<lparr>op_status := Os_pending, op_error := Some t,
        op_retry_count := max (op_retry_count r) (logical_attempt_count e)\<rparr>) k d = (d', won)"
    by (auto simp: markDeferred_def and_then_Inr throw_if_Inr)
  show ?thesis
    by (rule exI, rule conjI [OF u [symmetric]]) (use e in \<open>auto simp: row_step_defs\<close>)
qed

lemma reset_cas:
  assumes "encodeOutboundFailureEvidence e = Inr t"
  shows "\<exists>f. resetMaybeSentToPending k t (logical_attempt_count e) d
      = cas_op (\<lambda>r. op_status r = Os_maybe_sent) f k d
    \<and> (\<forall>r. op_status r = Os_maybe_sent \<longrightarrow> row_step r (f r))"
  unfolding resetMaybeSentToPending_def
  by (rule exI, rule conjI [OF refl]) (use assms in \<open>auto simp: row_step_defs\<close>)

text \<open>The supersede loop touches a row at most once, since it leaves it terminal.\<close>

definition superseded :: "outbound_op \<Rightarrow> outbound_op \<Rightarrow> bool" where
  "superseded r r' \<longleftrightarrow> live r \<and> \<not> live r' \<and> row_step r r'"

lemma superseded_update:
  assumes "encodeOutboundFailureEvidence e = Inr t" "live r"
  shows "superseded r (r\<lparr>op_status := (if op_status x = Os_pending then Os_failed_permanent
      else Os_quarantined), op_error := Some t,
     op_retry_count := max (op_retry_count r) (logical_attempt_count e)\<rparr>)"
  using assms by (auto simp: superseded_def row_step_defs)

lemma markSuperseded_step:
  assumes "wf_db d" "live x" "encodeOutboundFailureEvidence e = Inr t"
  defines "d' \<equiv> fst (markSupersededStatus (if op_status x = Os_pending then Os_failed_permanent
      else Os_quarantined) t (logical_attempt_count e) (op_id x) (op_status x) d)"
  shows "wf_db d'" "ledger_ok d \<Longrightarrow> ledger_ok d'"
    "get_op d n = Some r \<Longrightarrow> \<exists>r'. get_op d' n = Some r' \<and> (r' = r \<or> superseded r r')"
proof -
  have sup: "superseded r (r\<lparr>op_status := (if op_status x = Os_pending then Os_failed_permanent
      else Os_quarantined), op_error := Some t,
     op_retry_count := max (op_retry_count r) (logical_attempt_count e)\<rparr>)"
    if "op_status r = op_status x" for r
    using superseded_update [OF assms(3), of r x] that assms(2) by (simp add: live_def)
  then show "wf_db d'" "ledger_ok d \<Longrightarrow> ledger_ok d'"
    unfolding d'_def markSupersededStatus_def
    by (auto intro!: cas_op_step assms(1) simp: superseded_def)
  have keeps: "keeps_id op_id (\<lambda>r. r\<lparr>op_status := (if op_status x = Os_pending
      then Os_failed_permanent else Os_quarantined), op_error := Some t,
     op_retry_count := max (op_retry_count r) (logical_attempt_count e)\<rparr>)"
    by (simp add: keeps_id_def)
  show "get_op d n = Some r \<Longrightarrow> \<exists>r'. get_op d' n = Some r' \<and> (r' = r \<or> superseded r r')"
    unfolding d'_def markSupersededStatus_def
    using cas_op_row [OF assms(1) keeps, of n r "\<lambda>r. op_status r = op_status x" "op_id x"] sup
    by auto
qed

lemma supersede_all_steps:
  assumes "wf_db d" "\<forall>x \<in> set rs. live x"
  shows "wf_db (fst (supersede_all rs nowMs d))
    \<and> (ledger_ok d \<longrightarrow> ledger_ok (fst (supersede_all rs nowMs d)))
    \<and> last_op_id (fst (supersede_all rs nowMs d)) = last_op_id d
    \<and> (\<forall>r. get_op d n = Some r \<longrightarrow>
        (\<exists>r'. get_op (fst (supersede_all rs nowMs d)) n = Some r' \<and> (r' = r \<or> superseded r r')))"
  using assms
proof (induction rs arbitrary: d)
  case Nil
  then show ?case by simp
next
  case (Cons x rs)
  show ?case
  proof (cases "and_then (superseded_evidence x nowMs) (\<lambda>e.
             and_then (encodeOutboundFailureEvidence e) (\<lambda>t. Inr (e, t)))")
    case (Inl e)
    then show ?thesis using Cons.prems by simp
  next
    case (Inr p)
    obtain e t where p: "p = (e, t)" by (cases p)
    with Inr have enc: "encodeOutboundFailureEvidence e = Inr t"
      by (auto simp: and_then_Inr)
    let ?d = "fst (markSupersededStatus (if op_status x = Os_pending then Os_failed_permanent
      else Os_quarantined) t (logical_attempt_count e) (op_id x) (op_status x) d)"
    have live: "live x" using Cons.prems by simp
    note one = markSuperseded_step [OF Cons.prems(1) live enc]
    have last: "last_op_id ?d = last_op_id d"
      by (simp add: markSupersededStatus_def cas_op_def Let_def)
    note IH = Cons.IH [OF one(1)] Cons.prems(2)
    show ?thesis
      using IH last one(2) one(3) [of n] Inr
      by (auto simp: p superseded_def)
  qed
qed

lemma get_op_append:
  "get_op (d\<lparr>outbound_ops := outbound_ops d @ [x], last_op_id := m\<rparr>) n
    = (case get_op d n of Some r \<Rightarrow> Some r | None \<Rightarrow> if op_id x = n then Some x else None)"
  by (simp add: get_op_def find_append split: option.split)

lemma new_op_ok: "op_ok (new_op sha256 params i now)"
  by (simp add: op_ok_def failure_evidence_def new_op_def)

lemma insert_op_steps:
  assumes "wf_db d"
  shows "wf_db (fst (insert_op sha256 params now d))"
    "ledger_ok d \<Longrightarrow> ledger_ok (fst (insert_op sha256 params now d))"
    "get_op d n = Some r \<Longrightarrow> get_op (fst (insert_op sha256 params now d)) n = Some r"
  using assms new_op_ok [of sha256 params]
  by (auto simp: insert_op_def Let_def wf_db_def new_op_def keys_ok_append ledger_ok_def
      get_op_append)

lemma createOutboundOp_steps:
  assumes "createOutboundOp sha256 params nowMs d = (d', res)" "wf_db d"
  shows "wf_db d'" "ledger_ok d \<Longrightarrow> ledger_ok d'"
    "get_op d n = Some r \<Longrightarrow> \<exists>r'. get_op d' n = Some r' \<and> row_step r r'"
proof -
  obtain d1 u where d1: "(if opp_opType params = ''status_ping''
      then supersede_all (selectOutstandingStatus (opp_chatJid params) d) nowMs d
      else (d, Inr ())) = (d1, u)" by (cases rule: prod.exhaust)
  have live: "\<forall>x \<in> set (selectOutstandingStatus (opp_chatJid params) d). live x"
    by (simp add: selectOutstandingStatus_def live_def)
  have one: "wf_db d1 \<and> (ledger_ok d \<longrightarrow> ledger_ok d1)
    \<and> (\<forall>r. get_op d n = Some r \<longrightarrow> (\<exists>r'. get_op d1 n = Some r' \<and> row_step r r'))" for n
  proof (cases "opp_opType params = ''status_ping''")
    case True
    then show ?thesis
      using supersede_all_steps [OF assms(2) live, of nowMs n] d1
      by (auto simp: superseded_def intro: row_step_refl)
  next
    case False
    then show ?thesis using d1 assms(2) by (auto intro: row_step_refl)
  qed
  have "d' = d1 \<or> d' = fst (insert_op sha256 params (sql_now nowMs) d1)"
    using assms(1) unfolding createOutboundOp_def d1
    by (auto split: sum.splits prod.splits)
  then show "wf_db d'" "ledger_ok d \<Longrightarrow> ledger_ok d'"
    "get_op d n = Some r \<Longrightarrow> \<exists>r'. get_op d' n = Some r' \<and> row_step r r'"
    using one [of n] insert_op_steps(1,2) [of d1 sha256 params "sql_now nowMs"]
      insert_op_steps(3) [of d1 n _ sha256 params "sql_now nowMs"] by auto
qed

lemma ledger_step_row:
  assumes "ledger_step sha256 d d'" "wf_db d"
  shows "wf_db d' \<and> (ledger_ok d \<longrightarrow> ledger_ok d')
    \<and> (\<forall>r. get_op d n = Some r \<longrightarrow> (\<exists>r'. get_op d' n = Some r' \<and> row_step r r'))"
  using assms
proof cases
  case (Create params nowMs res)
  then show ?thesis using createOutboundOp_steps [OF Create assms(2)] by blast
next
  case (Sending k)
  then show ?thesis using markSending_steps [OF assms(2), where k = k] by blast
next
  case (Submitted k w m nowMs)
  from markSubmitted_cas [OF Submitted] obtain f where
    "d' = fst (cas_op (\<lambda>r. True) f k d)" "\<And>r. row_step r (f r)" by blast
  then show ?thesis using cas_op_step [of "\<lambda>_. True" f, OF _ assms(2)] by blast
next
  case (Maybe k arg w nowMs won)
  from markMaybeSent_cas [OF Maybe] obtain f where
    f: "d' = fst (cas_op live f k d)" "\<And>r. live r \<Longrightarrow> row_step r (f r)" by (metis fst_conv)
  then show ?thesis using cas_op_step [of live f, OF f(2) assms(2)] by blast
next
  case (Failed k arg nowMs won)
  from markFailedPermanent_cas [OF Failed] obtain f where
    f: "d' = fst (cas_op live f k d)" "\<And>r. live r \<Longrightarrow> row_step r (f r)" by (metis fst_conv)
  then show ?thesis using cas_op_step [of live f, OF f(2) assms(2)] by blast
next
  case (Deferred k e won)
  from markDeferred_cas [OF Deferred] obtain f where
    f: "d' = fst (cas_op (\<lambda>r. op_status r \<in> {Os_pending, Os_sending}) f k d)"
      "\<And>r. op_status r \<in> {Os_pending, Os_sending} \<Longrightarrow> row_step r (f r)" by (metis fst_conv)
  then show ?thesis using cas_op_step [of "\<lambda>r. op_status r \<in> {Os_pending, Os_sending}" f, OF f(2) assms(2)]
    by blast
next
  case (Quarantined k ev nowMs won)
  from markQuarantined_cas [OF Quarantined] obtain f where
    f: "d' = fst (cas_op live f k d)" "\<And>r. live r \<Longrightarrow> row_step r (f r)" by (metis fst_conv)
  then show ?thesis using cas_op_step [of live f, OF f(2) assms(2)] by blast
next
  case (Echoed k now)
  then show ?thesis using echo_steps [OF assms(2), where k = k and now = now] by blast
next
  case (Terminal k)
  then show ?thesis using terminal_steps [OF assms(2), where k = k] by blast
next
  case (Reset e t k)
  from reset_cas [OF Reset(2), of k d] obtain f where
    f: "d' = fst (cas_op (\<lambda>r. op_status r = Os_maybe_sent) f k d)"
      "\<And>r. op_status r = Os_maybe_sent \<Longrightarrow> row_step r (f r)" using Reset(1) by metis
  then show ?thesis using cas_op_step [of "\<lambda>r. op_status r = Os_maybe_sent" f, OF f(2) assms(2)]
    by blast
qed

section \<open>A new status ping replaces the outstanding ones\<close>

definition max_count :: int where
  "max_count = 9007199254740991"

lemma evidence_counts_le:
  assumes "op_ok r" "failure_evidence r = V1 e"
  shows "0 \<le> provider_submission_count e" "provider_submission_count e \<le> op_retry_count r"
    "logical_attempt_count e \<le> op_retry_count r" "valid_evidence e"
  using assms decode_V1_valid [of "op_error r" e]
  by (auto simp: op_ok_def failure_evidence_def valid_evidence_iff)

lemma v1_of_Some [simp]: "v1_of x = Some e \<longleftrightarrow> x = V1 e"
  by (cases x) auto

lemma v1_of_None [simp]: "v1_of x = None \<longleftrightarrow> x = LEGACY_UNCLASSIFIED"
  by (cases x) auto

lemma previous_valid:
  "case v1_of (failure_evidence r) of None \<Rightarrow> True | Some e \<Rightarrow> valid_evidence e"
  by (auto simp: failure_evidence_def split: option.splits dest: decode_V1_valid)

lemma superseded_evidence_total:
  assumes "op_ok r" "isIsoTimestamp nowMs" "op_retry_count r < max_count"
  shows "\<exists>e t. superseded_evidence r nowMs = Inr e \<and> encodeOutboundFailureEvidence e = Inr t"
proof -
  let ?prev = "v1_of (failure_evidence r)"
  let ?sub = "map_option provider_submission_count ?prev"
  let ?rc = "op_retry_count r"
  let ?l = "if op_status r = Os_sending then ?rc + 1
            else if op_status r = Os_submitted then max ?rc 1 else ?rc"
  let ?p = "if op_status r = Os_sending then min ?l ((case ?sub of None \<Rightarrow> ?rc | Some n \<Rightarrow> n) + 1)
            else if op_status r = Os_submitted then max (case ?sub of None \<Rightarrow> 0 | Some n \<Rightarrow> n) 1
            else (case ?sub of None \<Rightarrow> min ?rc 1 | Some n \<Rightarrow> n)"
  have rc: "0 \<le> ?rc" using assms(1) by (simp add: op_ok_def)
  have sub: "0 \<le> n \<and> n \<le> ?rc" if "?sub = Some n" for n
    using that evidence_counts_le [OF assms(1)] by auto
  have l: "?rc \<le> ?l \<and> ?l \<le> 9007199254740991 \<and> (op_status r = Os_sending \<longrightarrow> 1 \<le> ?l)
      \<and> (op_status r = Os_submitted \<longrightarrow> 1 \<le> ?l)"
    using rc assms(3) by (simp add: max_count_def)
  have "0 \<le> ?p \<and> ?p \<le> ?l \<and> ?l \<le> 9007199254740991"
  proof (cases ?sub)
    case None
    show ?thesis unfolding None option.case using l rc by simp
  next
    case (Some n)
    show ?thesis unfolding Some option.case using l rc sub [OF Some] by (auto simp: max_def)
  qed
  then have counts: "0 \<le> ?p" "?p \<le> ?l" "?l \<le> 9007199254740991" by blast+
  show ?thesis
    unfolding superseded_evidence_def Let_def
    by (rule internal_counted_encodes [OF _ assms(2) _ counts])
      (simp_all add: counted_stop_options_def previous_valid)
qed

lemma supersede_all_total:
  assumes "wf_db d" "isIsoTimestamp nowMs" "distinct (map op_id rs)"
    and "\<forall>x \<in> set rs. get_op d (op_id x) = Some x \<and> live x \<and> op_ok x \<and> op_retry_count x < max_count"
  shows "\<exists>d'. supersede_all rs nowMs d = (d', Inr ())
    \<and> (\<forall>x \<in> set rs. \<exists>r'. get_op d' (op_id x) = Some r' \<and> \<not> live r')"
  using assms
proof (induction rs arbitrary: d)
  case Nil
  then show ?case by simp
next
  case (Cons x rs)
  then have x: "live x" "op_ok x" "op_retry_count x < max_count" "get_op d (op_id x) = Some x"
    by simp_all
  from superseded_evidence_total [OF x(2) Cons.prems(2) x(3)] obtain e t where
    e: "superseded_evidence x nowMs = Inr e" "encodeOutboundFailureEvidence e = Inr t" by blast
  let ?st = "if op_status x = Os_pending then Os_failed_permanent else Os_quarantined"
  let ?d = "fst (markSupersededStatus ?st t (logical_attempt_count e) (op_id x) (op_status x) d)"
  have get: "get_op ?d n = (if n = op_id x then map_option (\<lambda>r. if op_status r = op_status x
      then r\<lparr>op_status := ?st, op_error := Some t,
        op_retry_count := max (op_retry_count r) (logical_attempt_count e)\<rparr> else r)
      (get_op d (op_id x)) else get_op d n)" for n
    unfolding markSupersededStatus_def
    by (rule ops.get_cas [OF Cons.prems(1)]) (simp add: keeps_id_def)
  have wf: "wf_db ?d" by (rule markSuperseded_step(1) [OF Cons.prems(1) x(1) e(2)])
  have rest: "\<forall>y \<in> set rs. get_op ?d (op_id y) = Some y \<and> live y \<and> op_ok y \<and> op_retry_count y < max_count"
  proof
    fix y assume y: "y \<in> set rs"
    with Cons.prems(3) have "op_id y \<noteq> op_id x" by (auto simp: image_iff)
    then have "get_op ?d (op_id y) = get_op d (op_id y)" by (simp only: get if_False)
    with Cons.prems(4) y show "get_op ?d (op_id y) = Some y \<and> live y \<and> op_ok y \<and> op_retry_count y < max_count"
      by simp
  qed
  from Cons.IH [OF wf Cons.prems(2) _ rest] Cons.prems(3) obtain d' where
    d': "supersede_all rs nowMs ?d = (d', Inr ())"
      "\<forall>y \<in> set rs. \<exists>r'. get_op d' (op_id y) = Some r' \<and> \<not> live r'" by auto
  have "\<exists>r'. get_op ?d (op_id x) = Some r' \<and> \<not> live r'"
    unfolding get using x(4) by (simp add: live_iff)
  then obtain r1 where r1: "get_op ?d (op_id x) = Some r1" "\<not> live r1" by blast
  have "\<forall>y \<in> set rs. live y" using Cons.prems(4) by simp
  from supersede_all_steps [OF wf this, of nowMs "op_id x"] d'(1) r1
  have "\<exists>r'. get_op d' (op_id x) = Some r' \<and> \<not> live r'"
    by (auto simp: superseded_def)
  with d' e show ?case by simp
qed

lemma get_op_mem: "wf_db d \<Longrightarrow> r \<in> set (outbound_ops d) \<longleftrightarrow> get_op d (op_id r) = Some r"
  unfolding get_op_def wf_db_def keys_ok_def
  by (metis find_SomeD find_key_unique)

lemma supersede_all_keys:
  "map op_id (outbound_ops (fst (supersede_all rs nowMs d))) = map op_id (outbound_ops d)"
proof (induction rs arbitrary: d)
  case (Cons x rs)
  have "map op_id (outbound_ops (fst (markSupersededStatus st t n k old d)))
      = map op_id (outbound_ops d)" for st t n k old d
    by (simp add: markSupersededStatus_def cas_op_def Let_def map_key_update_rows)
  with Cons show ?case by (auto split: sum.split prod.split)
qed simp

lemma status_ping_alone:
  assumes "wf_db d" "ledger_ok d" "isIsoTimestamp nowMs" "opp_opType params = ''status_ping''"
    and "\<forall>r \<in> set (outbound_ops d). op_retry_count r < max_count"
  shows "\<exists>d' i. createOutboundOp sha256 params nowMs d = (d', Inr i)
    \<and> selectOutstandingStatus (opp_chatJid params) d' = [new_op sha256 params i (sql_now nowMs)]"
proof -
  let ?rs = "selectOutstandingStatus (opp_chatJid params) d"
  have dist: "distinct (map op_id ?rs)"
    using assms(1) by (auto simp: selectOutstandingStatus_def wf_db_def keys_ok_def
        distinct_map intro: inj_on_subset)
  have live: "\<forall>x \<in> set ?rs. live x"
    by (simp add: selectOutstandingStatus_def live_def)
  have rows: "\<forall>x \<in> set ?rs. get_op d (op_id x) = Some x \<and> live x \<and> op_ok x \<and> op_retry_count x < max_count"
    using assms(2,5) live get_op_mem [OF assms(1)]
    by (auto simp: ledger_ok_def selectOutstandingStatus_def)
  from supersede_all_total [OF assms(1,3) dist rows] obtain d1 where
    d1: "supersede_all ?rs nowMs d = (d1, Inr ())"
      "\<forall>x \<in> set ?rs. \<exists>r'. get_op d1 (op_id x) = Some r' \<and> \<not> live r'" by blast
  note steps = supersede_all_steps [OF assms(1) live, of nowMs, unfolded d1(1) fst_conv]
  have wf1: "wf_db d1" using steps by simp
  note keys = supersede_all_keys
  have none: "selectOutstandingStatus (opp_chatJid params) d1 = []"
    unfolding selectOutstandingStatus_def filter_empty_conv
  proof (intro ballI notI, elim conjE)
    fix r' assume r': "r' \<in> set (outbound_ops d1)" "op_chat_jid r' = opp_chatJid params"
      "op_type r' = ''status_ping''" "op_status r' \<in> set live_statuses"
    have "op_id r' \<in> set (map op_id (outbound_ops d))"
      using r'(1) keys [of ?rs] d1(1) by (metis fst_conv image_eqI list.set_map)
    then obtain r where r: "r \<in> set (outbound_ops d)" "op_id r = op_id r'" by auto
    with get_op_mem [OF assms(1)] have "get_op d (op_id r') = Some r" by metis
    moreover have g': "get_op d1 (op_id r') = Some r'" using r'(1) get_op_mem [OF wf1] by blast
    ultimately have "r' = r \<or> superseded r r'" using steps [of "op_id r'"] by auto
    moreover have "live r'" using r'(4) by (simp add: live_def)
    ultimately have "r \<in> set ?rs" using r r' by (auto simp: selectOutstandingStatus_def superseded_def)
    with d1(2) g' r(2) \<open>live r'\<close> show False by auto
  qed
  have "createOutboundOp sha256 params nowMs d
      = (fst (insert_op sha256 params (sql_now nowMs) d1), Inr (last_op_id d1 + 1))"
    using assms(4) by (simp add: createOutboundOp_def d1(1) insert_op_def Let_def)
  moreover have "selectOutstandingStatus (opp_chatJid params)
      (fst (insert_op sha256 params (sql_now nowMs) d1))
    = [new_op sha256 params (last_op_id d1 + 1) (sql_now nowMs)]"
    using none assms(4)
    by (simp add: selectOutstandingStatus_def insert_op_def Let_def new_op_def live_statuses_def)
  ultimately show ?thesis by blast
qed

section \<open>Properties\<close>

lemma ledger_steps_row:
  assumes "(ledger_step sha256)\<^sup>*\<^sup>* d d'" "wf_db d"
  shows "wf_db d' \<and> (ledger_ok d \<longrightarrow> ledger_ok d') \<and> (\<forall>r. get_op d n = Some r \<longrightarrow>
    (\<exists>r'. get_op d' n = Some r' \<and> same_identity r r' \<and> op_retry_count r \<le> op_retry_count r'))"
  using assms
proof (induction rule: rtranclp_induct)
  case base
  then show ?case by (simp add: same_identity_def)
next
  case (step d1 d2)
  have trans: "same_identity a c" if "same_identity a b" "same_identity b c" for a b c
    using that by (auto simp: same_identity_def)
  from step have IH: "wf_db d1 \<and> (ledger_ok d \<longrightarrow> ledger_ok d1) \<and> (\<forall>r. get_op d n = Some r \<longrightarrow>
    (\<exists>r'. get_op d1 n = Some r' \<and> same_identity r r' \<and> op_retry_count r \<le> op_retry_count r'))"
    by blast
  then have wf: "wf_db d1" by blast
  note one = ledger_step_row [OF step(2) wf, of n]
  show ?case
  proof (intro conjI allI impI)
    show "wf_db d2" using one by blast
    show "ledger_ok d \<Longrightarrow> ledger_ok d2" using one IH by blast
    fix r assume "get_op d n = Some r"
    with IH obtain r1 where r1: "get_op d1 n = Some r1" "same_identity r r1"
      "op_retry_count r \<le> op_retry_count r1" by blast
    with one obtain r2 where r2: "get_op d2 n = Some r2" "row_step r1 r2" by blast
    have "same_identity r1 r2" "op_retry_count r1 \<le> op_retry_count r2"
      using r2(2) row_step_retry by (auto simp: row_step_def)
    with r1 r2 trans show "\<exists>r'. get_op d2 n = Some r' \<and> same_identity r r'
        \<and> op_retry_count r \<le> op_retry_count r'"
      by (intro exI [of _ r2]) auto
  qed
qed

definition no_hash :: "stored_text \<Rightarrow> string" where
  "no_hash t = ''h''"

definition sample_params :: outbound_op_params where
  "sample_params = \<lparr>opp_conversationKey = ''c1'', opp_chatJid = ''1@s.whatsapp.net'',
     opp_opType = ''status_ping'', opp_payload = Text 13 (Some (JObj [(''text'', JStr ''hello'')])),
     opp_replayPolicy = Rp_safe, opp_sourceInboundSeq = Some 1, opp_isTerminal = False\<rparr>"

definition sample_db :: db where
  "sample_db = fst (insert_op no_hash sample_params 1700000000 empty_db)"

lemma sample_db_ok: "wf_db sample_db" "ledger_ok sample_db"
  unfolding sample_db_def
  by (rule insert_op_steps(1) [OF wf_empty],
      rule insert_op_steps(2) [OF wf_empty], simp add: ledger_ok_def empty_db_def)

lemma sample_db_row:
  "get_op sample_db 1 = Some (new_op no_hash sample_params 1 1700000000)"
  "outbound_ops sample_db = [new_op no_hash sample_params 1 1700000000]"
  by (simp_all add: sample_db_def insert_op_def get_op_def Let_def empty_db_def new_op_def)

lemma sample_clock: "isIsoTimestamp 1700000000000"
  by (simp add: isIsoTimestamp_def MIN_ISO_TIMESTAMP_MS_def MAX_ISO_TIMESTAMP_MS_def)

text \<open>
  C11: Whatever sequence of ledger transitions runs, starting from a well-formed ledger in which no
  evidence counts more attempts than its row: the ledger stays so, no row disappears, the identity
  of a row (chat, payload, replay policy, source turn, creation time) never changes, its retry count
  never falls, its terminal mark is never taken back, and its first echo time is never rewritten.
\<close>

theorem ledger_history:
  assumes "(ledger_step sha256)\<^sup>*\<^sup>* d d'" "wf_db d" "ledger_ok d"
  shows "wf_db d' \<and> ledger_ok d' \<and> (\<forall>n r. get_op d n = Some r \<longrightarrow>
    (\<exists>r'. get_op d' n = Some r' \<and> same_identity r r' \<and> op_retry_count r \<le> op_retry_count r'))"
  using ledger_steps_row [OF assms(1,2)] assms(3) by blast

theorem ledger_history_witness:
  "\<exists>r'. get_op (fst (markSending 1 sample_db)) 1 = Some r'
     \<and> same_identity (new_op no_hash sample_params 1 1700000000) r'"
proof -
  have "(ledger_step no_hash)\<^sup>*\<^sup>* sample_db (fst (markSending 1 sample_db))"
    by (rule r_into_rtranclp) (rule Sending)
  from ledger_history [OF this sample_db_ok] sample_db_row(1) show ?thesis by blast
qed

text \<open>
  C12: Every single transition moves a row along the edges of the delivery state machine: a claim
  only from pending; a failure record only onto a row that is pending, sending, submitted or
  ambiguous, together with a retry count that covers it; back to pending only from pending, sending
  or ambiguous and with the record that explains the retry; otherwise a row can only be marked
  submitted or echoed, and keeps its evidence when it is echoed.
\<close>

theorem ledger_step_follows_machine:
  assumes "ledger_step sha256 d d'" "wf_db d" "get_op d n = Some r"
  shows "\<exists>r'. get_op d' n = Some r' \<and> row_step r r'"
  using ledger_step_row [OF assms(1,2), of n] assms(3) by blast

theorem ledger_step_follows_machine_witness:
  "\<exists>r'. get_op (echo_statement 1 1700000005 sample_db) 1 = Some r'
     \<and> row_step (new_op no_hash sample_params 1 1700000000) r'"
  by (rule ledger_step_follows_machine [of no_hash, OF Echoed sample_db_ok(1) sample_db_row(1)])

text \<open>
  The claim of a pending operation is exclusive: of two claims with nothing in between, the
  second one loses and changes nothing, and a claim never touches another row. This is the guard
  that keeps two overlapping drains from sending one operation twice.
\<close>

lemma claim_is_exclusive:
  assumes "wf_db d" "snd (markSending k d)"
  shows "\<not> snd (markSending k (fst (markSending k d)))
    \<and> get_op (fst (markSending k (fst (markSending k d)))) n = get_op (fst (markSending k d)) n
    \<and> (n \<noteq> k \<longrightarrow> get_op (fst (markSending k d)) n = get_op d n)"
proof -
  have keeps: "keeps_id op_id (\<lambda>r. r\<lparr>op_status := Os_sending\<rparr>)" by (simp add: keeps_id_def)
  have lose: "\<not> snd (markSending k (fst (markSending k d)))"
    using assms(2) unfolding markSending_def
    by (rule ops.second_writer_loses [OF assms(1) keeps, rotated]) simp
  moreover have "wf_db (fst (markSending k d))" by (rule markSending_steps(1) [OF assms(1)])
  ultimately show ?thesis
    using ops.losing_write_changes_nothing [OF _ keeps] ops.other_rows_untouched [OF assms(1) keeps]
    unfolding markSending_def by blast
qed

lemma claim_is_exclusive_witness:
  "\<not> snd (markSending 1 (fst (markSending 1 sample_db)))"
proof -
  have "snd (markSending 1 sample_db)"
    by (simp add: markSending_def cas_op_def Let_def sample_db_row new_op_def changes_def)
  from claim_is_exclusive [OF sample_db_ok(1) this] show ?thesis by blast
qed

text \<open>
  C13: A row that has reached a final status (echoed, permanently failed or quarantined) is fenced: a
  late ambiguous, failed, deferred or quarantined transition reports that it lost and leaves every
  row as it was.
\<close>

theorem settled_rows_are_fenced:
  assumes "wf_db d" "get_op d k = Some r" "\<not> live r"
    and "markMaybeSent k arg w nowMs d = Inr (d', won) \<or> markFailedPermanent k arg nowMs d = Inr (d', won)
      \<or> markDeferred k e d = Inr (d', won) \<or> markQuarantined sha256 k ev nowMs d = Inr (d', won)"
  shows "\<not> won \<and> get_op d' n = get_op d n"
proof -
  have fenced: "\<not> won \<and> get_op d' n = get_op d n"
    if "(d', won) = cas_op g f k d" "\<And>x. g x \<longrightarrow> live x" "\<forall>x. g x \<longrightarrow> row_step x (f x)" for g f
  proof -
    have eq: "cas_op g f k d = cas_op g (\<lambda>r. if g r then f r else r) k d"
      by (rule cas_op_steps(2)) (use that(3) in blast)
    have keeps: "keeps_id op_id (\<lambda>r. if g r then f r else r)"
      by (rule cas_op_steps(1)) (use that(3) in blast)
    have "\<not> g r" using that(2) assms(3) by blast
    then have "\<not> snd (cas_op g (\<lambda>r. if g r then f r else r) k d)"
      using ops.cas_wins [OF assms(1) keeps] assms(2) by simp
    moreover from this have "get_op (fst (cas_op g (\<lambda>r. if g r then f r else r) k d)) n = get_op d n"
      by (rule ops.losing_write_changes_nothing [OF assms(1) keeps])
    ultimately show ?thesis using that(1) unfolding eq by (metis fst_conv snd_conv)
  qed
  have dl: "op_status x \<in> {Os_pending, Os_sending} \<longrightarrow> live x" for x
    by (auto simp: live_iff)
  from assms(4) show ?thesis
    by (elim disjE)
      (drule markMaybeSent_cas markFailedPermanent_cas markDeferred_cas markQuarantined_cas,
        elim exE conjE, erule fenced, (simp add: dl), assumption)+
qed

theorem settled_rows_are_fenced_witness:
  "\<exists>d'. markQuarantined no_hash 1 None 1700000000000 (echo_statement 1 1700000005 sample_db)
    = Inr (d', False)"
proof -
  let ?d = "echo_statement 1 1700000005 sample_db"
  let ?opts = "\<lparr>io_failureCode = Ic_unknown_failure, io_stage = St_runtime, io_mutationState = Mu_rejected,
          io_retryable = None, io_retryDecision = None, io_retryNotBefore = None,
          io_retryOwner = None, io_attemptBudgetDisposition = None,
          io_logicalAttemptCount = Some 0, io_providerSubmissionCount = Some 0,
          io_previousEvidence = None, io_evidenceCoverage = Some Cv_partial\<rparr>"
  from internal_counted_spec [of ?opts 0 0, OF _ sample_clock] obtain e where
    e: "createInternalOutboundFailureEvidence ?opts 1700000000000 = Inr e" "valid_evidence e"
      "retry_decision e = Rd_stop" "retry_owner e = Ro_none"
    by (auto simp: counted_stop_options_def)
  have "\<exists>f. markQuarantined no_hash 1 None 1700000000000 ?d = Inr (cas_op live f 1 ?d)"
    using e by (simp add: markQuarantined_def encode_valid) (rule exI, rule refl)
  then obtain d' won where m: "markQuarantined no_hash 1 None 1700000000000 ?d = Inr (d', won)"
    by (metis prod.exhaust)
  from echo_steps(3) [OF sample_db_ok(1) sample_db_row(1), of 1 1700000005] obtain r' where
    "get_op ?d 1 = Some r'" by blast
  moreover from this have "\<not> live r'"
    by (simp add: echo_statement_def cas_op_def Let_def get_op_def sample_db_row new_op_def live_iff)
      auto
  ultimately have "\<not> won"
    using settled_rows_are_fenced [of ?d 1 r'] echo_steps(1) [OF sample_db_ok(1)] m by blast
  with m show ?thesis by auto
qed

text \<open>
  Enqueueing a status ping never fails while the clock and the counts are representable, and
  leaves exactly one outstanding status ping for its chat: the new one.
\<close>

lemma one_outstanding_status_ping:
  assumes "wf_db d" "ledger_ok d" "isIsoTimestamp nowMs" "opp_opType params = ''status_ping''"
    and "\<forall>r \<in> set (outbound_ops d). op_retry_count r < max_count"
  shows "\<exists>d' i. createOutboundOp sha256 params nowMs d = (d', Inr i)
    \<and> selectOutstandingStatus (opp_chatJid params) d' = [new_op sha256 params i (sql_now nowMs)]"
  by (rule status_ping_alone [OF assms])

lemma one_outstanding_status_ping_witness:
  "\<exists>d' i. createOutboundOp no_hash sample_params 1700000000000 sample_db = (d', Inr i)
    \<and> selectOutstandingStatus ''1@s.whatsapp.net'' d' = [new_op no_hash sample_params i 1700000000]"
proof -
  have "\<forall>r \<in> set (outbound_ops sample_db). op_retry_count r < max_count"
    by (simp add: sample_db_row new_op_def max_count_def)
  from one_outstanding_status_ping [OF sample_db_ok sample_clock _ this, of sample_params no_hash]
  show ?thesis by (simp add: sample_params_def sql_now_def)
qed

end
