(* ===== verification/Inbound.thy ===== *)
theory Inbound
  imports Ledger
begin

text \<open>
  The inbound half of the durability engine: \<^verbatim>\<open>inbound_events\<close> rows and their writers
  (\<^verbatim>\<open>src/core/durability.ts\<close>, sections "Inbound events" and the continuity candidates),
  the status and failure vocabularies (\<^verbatim>\<open>src/core/inbound-status.ts\<close>,
  \<^verbatim>\<open>src/core/inbound-failure-class.ts\<close>), and the rows a later writer must leave alone
  (\<^verbatim>\<open>src/core/durability-recovery-evidence.ts\<close>, \<^verbatim>\<open>src/core/synthetic-turn-source.ts\<close>).
\<close>

section \<open>Vocabularies\<close>

fun inbound_status_str :: "inbound_status \<Rightarrow> string" where
  "inbound_status_str Is_pending = ''pending''"
| "inbound_status_str Is_processing = ''processing''"
| "inbound_status_str Is_turn_done = ''turn_done''"
| "inbound_status_str Is_complete = ''complete''"
| "inbound_status_str Is_failed = ''failed''"

definition INBOUND_STATUSES :: "inbound_status list" where
  "INBOUND_STATUSES = [Is_pending, Is_processing, Is_turn_done, Is_complete, Is_failed]"

definition isInboundStatus :: "json \<Rightarrow> inbound_status option" where
  "isInboundStatus v = lookup_word inbound_status_str INBOUND_STATUSES (Some v)"

definition OPEN_INBOUND_STATUSES :: "inbound_status list" where
  "OPEN_INBOUND_STATUSES = [Is_pending, Is_processing, Is_turn_done]"

definition isOpenInboundStatus :: "inbound_status option \<Rightarrow> bool" where
  "isOpenInboundStatus st \<longleftrightarrow> (case st of None \<Rightarrow> False | Some s \<Rightarrow> s \<in> set OPEN_INBOUND_STATUSES)"

fun failure_class_str :: "failure_class \<Rightarrow> string" where
  "failure_class_str Fc_provider_failure = ''provider_failure''"
| "failure_class_str Fc_transport_send_failed = ''transport_send_failed''"
| "failure_class_str Fc_transport_disconnected = ''transport_disconnected''"
| "failure_class_str Fc_timeout = ''timeout''"
| "failure_class_str Fc_db_error = ''db_error''"
| "failure_class_str Fc_session_crash = ''session_crash''"
| "failure_class_str Fc_operator_cancelled = ''operator_cancelled''"
| "failure_class_str Fc_session_spawn_failed = ''session_spawn_failed''"
| "failure_class_str Fc_crash_recovery = ''crash_recovery''"
| "failure_class_str Fc_stale_reclaim = ''stale_reclaim''"
| "failure_class_str Fc_queue_full = ''queue_full''"
| "failure_class_str Fc_queue_halted = ''queue_halted''"
| "failure_class_str Fc_queue_closed = ''queue_closed''"
| "failure_class_str Fc_pre_dispatch_error = ''pre_dispatch_error''"
| "failure_class_str Fc_scope_blocked_recovery = ''scope_blocked_recovery''"
| "failure_class_str Fc_recovery_owner_reclaimed = ''recovery_owner_reclaimed''"
| "failure_class_str Fc_processor_throw = ''processor_throw''"
| "failure_class_str Fc_unknown = ''unknown''"

definition INBOUND_FAILURE_CLASSES :: "failure_class list" where
  "INBOUND_FAILURE_CLASSES = [Fc_provider_failure, Fc_transport_send_failed,
     Fc_transport_disconnected, Fc_timeout, Fc_db_error, Fc_session_crash, Fc_operator_cancelled,
     Fc_session_spawn_failed, Fc_crash_recovery, Fc_stale_reclaim, Fc_queue_full, Fc_queue_halted,
     Fc_queue_closed, Fc_pre_dispatch_error, Fc_scope_blocked_recovery,
     Fc_recovery_owner_reclaimed, Fc_processor_throw, Fc_unknown]"

definition ADMISSION_REJECT_CLASSES :: "failure_class list" where
  "ADMISSION_REJECT_CLASSES = [Fc_queue_full, Fc_queue_halted, Fc_queue_closed,
     Fc_pre_dispatch_error, Fc_scope_blocked_recovery]"

definition coerceInboundFailureClass :: "string option \<Rightarrow> failure_class" where
  "coerceInboundFailureClass v = (case v of None \<Rightarrow> Fc_unknown
     | Some s \<Rightarrow> (case find (\<lambda>c. failure_class_str c = s) INBOUND_FAILURE_CLASSES of
         Some c \<Rightarrow> c | None \<Rightarrow> Fc_unknown))"

definition admissionRejectInboundFailureClass :: "string option \<Rightarrow> failure_class result" where
  "admissionRejectInboundFailureClass v = (case v of None \<Rightarrow> Inr Fc_unknown
     | Some s \<Rightarrow> (case find (\<lambda>c. failure_class_str c = s) ADMISSION_REJECT_CLASSES of
         Some c \<Rightarrow> Inr c
       | None \<Rightarrow> Inl (Error ''admission_rejected terminal disposition has an invalid rejection class'')))"

section \<open>Scheduled-turn losses\<close>

definition SYNTHETIC_SOURCE_MESSAGE_ID_PREFIX :: string where
  "SYNTHETIC_SOURCE_MESSAGE_ID_PREFIX = ''agentjob-''"

definition syntheticSourceMessageId :: "string \<Rightarrow> bool" where
  "syntheticSourceMessageId s \<longleftrightarrow>
     take (length SYNTHETIC_SOURCE_MESSAGE_ID_PREFIX) s = SYNTHETIC_SOURCE_MESSAGE_ID_PREFIX"

definition SCHEDULED_TURN_LOSS_FAILURE_CLASSES :: "failure_class list" where
  "SCHEDULED_TURN_LOSS_FAILURE_CLASSES = [Fc_crash_recovery, Fc_stale_reclaim,
     Fc_recovery_owner_reclaimed]"

definition scheduled_turn_loss_row :: "inbound_event \<Rightarrow> bool" where
  "scheduled_turn_loss_row r \<longleftrightarrow> syntheticSourceMessageId (ie_message_id r)
     \<and> ie_processing_status r = Is_failed
     \<and> (\<exists>c \<in> set SCHEDULED_TURN_LOSS_FAILURE_CLASSES. ie_failure_class r = Some c)"

definition SCHEDULED_TURN_LOSS_WINDOW_DAYS :: int where
  "SCHEDULED_TURN_LOSS_WINDOW_DAYS = 7"

definition countScheduledTurnsLost :: "int \<Rightarrow> db \<Rightarrow> nat" where
  "countScheduledTurnsLost now d = length (filter (\<lambda>r. scheduled_turn_loss_row r
     \<and> (case ie_completed_at r of None \<Rightarrow> False
        | Some t \<Rightarrow> now - SCHEDULED_TURN_LOSS_WINDOW_DAYS * 86400 \<le> t)) (inbound_events d))"

section \<open>Writers\<close>

definition journalInbound ::
  "string \<Rightarrow> string \<Rightarrow> string \<Rightarrow> string \<Rightarrow> int option \<Rightarrow> int \<Rightarrow> db \<Rightarrow> (db \<times> int) result" where
  "journalInbound messageId conversationKey chatJid routedTo receivedAt now d =
     throw_if (case receivedAt of None \<Rightarrow> False
         | Some t \<Rightarrow> \<not> safe_integer t \<or> t < 0 \<or> t > 253402300799)
       (Error ''Inbound receipt timestamp must be within the SQLite Unix timestamp range'')
       (let i = last_seq d + 1 in Inr
         (d\<lparr>inbound_events := inbound_events d @
             [\<lparr>ie_seq = i, ie_message_id = messageId, ie_conversation_key = conversationKey,
               ie_chat_jid = chatJid, ie_routed_to = routedTo,
               ie_processing_status = Is_processing,
               ie_received_at = (case receivedAt of None \<Rightarrow> now | Some t \<Rightarrow> t),
               ie_completed_at = None, ie_terminal_reason = None, ie_failure_class = None,
               ie_candidate_reason = None, ie_candidate_source = None,
               ie_candidate_marked_at = None, ie_candidate_consumed_at = None\<rparr>],
           last_seq := i\<rparr>, i))"

text \<open>Each writer is one statement, which a trigger on a row that proves something may abort.\<close>

definition markTurnDone :: "int \<Rightarrow> db \<Rightarrow> db result" where
  "markTurnDone k d = and_then (update_inbound True (\<lambda>r. \<not> scheduled_turn_loss_row r)
     (\<lambda>r. r\<lparr>ie_processing_status := Is_turn_done\<rparr>) k d) (\<lambda>(d', changed). Inr d')"

definition markInboundComplete :: "int \<Rightarrow> string \<Rightarrow> int \<Rightarrow> db \<Rightarrow> (db \<times> bool) result" where
  "markInboundComplete k reason now = update_inbound True (\<lambda>r. \<not> scheduled_turn_loss_row r)
     (\<lambda>r. r\<lparr>ie_processing_status := Is_complete, ie_completed_at := Some now,
            ie_terminal_reason := Some reason\<rparr>) k"

definition markInboundFailed :: "int \<Rightarrow> failure_class \<Rightarrow> int \<Rightarrow> db \<Rightarrow> (db \<times> bool) result" where
  "markInboundFailed k c now = update_inbound True (\<lambda>r. \<not> scheduled_turn_loss_row r)
     (\<lambda>r. r\<lparr>ie_processing_status := Is_failed, ie_completed_at := Some now,
            ie_terminal_reason := Some ''error'', ie_failure_class := Some c\<rparr>) k"

definition markInboundFailedIfProcessing ::
  "int \<Rightarrow> string \<Rightarrow> string \<Rightarrow> string option \<Rightarrow> int \<Rightarrow> db \<Rightarrow> (db \<times> bool) result" where
  "markInboundFailedIfProcessing k messageId chatJid c now = update_inbound True
     (\<lambda>r. ie_message_id r = messageId \<and> ie_chat_jid r = chatJid
        \<and> ie_processing_status r = Is_processing)
     (\<lambda>r. r\<lparr>ie_processing_status := Is_failed, ie_completed_at := Some now,
            ie_terminal_reason := Some ''error'',
            ie_failure_class := Some (coerceInboundFailureClass c)\<rparr>) k"

definition markInboundSkipped :: "int \<Rightarrow> string \<Rightarrow> int \<Rightarrow> db \<Rightarrow> (db \<times> bool) result" where
  "markInboundSkipped k reason now = update_inbound True (\<lambda>r. \<not> scheduled_turn_loss_row r)
     (\<lambda>r. r\<lparr>ie_processing_status := Is_complete, ie_completed_at := Some now,
            ie_terminal_reason := Some reason\<rparr>) k"

text \<open>Two statements: the first stays when the second throws, unless the caller holds a transaction.\<close>

definition completeInbound :: "int \<Rightarrow> string \<Rightarrow> int \<Rightarrow> db \<Rightarrow> db \<times> unit result" where
  "completeInbound k reason now d =
     (case (case get_inbound d k of
          Some r \<Rightarrow> if ie_processing_status r = Is_processing then markTurnDone k d else Inr d
        | None \<Rightarrow> Inr d) of
       Inl e \<Rightarrow> (d, Inl e)
     | Inr d1 \<Rightarrow> (case markInboundComplete k reason now d1 of
         Inl e \<Rightarrow> (d1, Inl e) | Inr (d2, changed) \<Rightarrow> (d2, Inr ())))"

definition isInboundSweepReclaimed :: "int \<Rightarrow> db \<Rightarrow> bool" where
  "isInboundSweepReclaimed k d \<longleftrightarrow> (case get_inbound d k of None \<Rightarrow> False
     | Some r \<Rightarrow> ie_processing_status r = Is_failed \<and> ie_failure_class r = Some Fc_stale_reclaim)"

definition getInboundReceivedAtUnixSeconds :: "int \<Rightarrow> db \<Rightarrow> int option" where
  "getInboundReceivedAtUnixSeconds k d = map_option ie_received_at (get_inbound d k)"

definition getInboundStatus :: "int \<Rightarrow> db \<Rightarrow> inbound_status option" where
  "getInboundStatus k d = map_option ie_processing_status (get_inbound d k)"

section \<open>Continuity candidates\<close>

definition mark_candidate :: "string \<Rightarrow> string \<Rightarrow> int \<Rightarrow> inbound_event \<Rightarrow> inbound_event" where
  "mark_candidate reason source now r = r\<lparr>ie_candidate_reason := Some reason,
     ie_candidate_source := Some source,
     ie_candidate_marked_at := (case ie_candidate_marked_at r of None \<Rightarrow> Some now | t \<Rightarrow> t)\<rparr>"

definition markContinuityCandidate :: "int \<Rightarrow> string \<Rightarrow> string \<Rightarrow> int \<Rightarrow> db \<Rightarrow> (db \<times> bool) result" where
  "markContinuityCandidate k reason source now = update_inbound False
     (\<lambda>r. ie_candidate_reason r = None) (mark_candidate reason source now) k"

definition terminal_record_for :: "int \<Rightarrow> db \<Rightarrow> bool" where
  "terminal_record_for k d = list_ex (\<lambda>t. tt_inbound_seq_key t = k) (terminal_records d)"

definition terminal_outbound_for :: "int \<Rightarrow> db \<Rightarrow> outbound_op list" where
  "terminal_outbound_for k d = filter (\<lambda>o'. op_source_inbound_seq o' = Some k \<and> op_is_terminal o'
     \<and> op_status o' \<notin> {Os_quarantined, Os_failed_permanent}) (outbound_ops d)"

definition markContinuityCandidateIfNoTerminalOutbound ::
  "int \<Rightarrow> string \<Rightarrow> string \<Rightarrow> int \<Rightarrow> db \<Rightarrow> (db \<times> bool) result" where
  "markContinuityCandidateIfNoTerminalOutbound k reason source now d = update_inbound False
     (\<lambda>r. ie_candidate_reason r = None \<and> \<not> terminal_record_for k d
        \<and> terminal_outbound_for k d = []) (mark_candidate reason source now) k d"

definition unconsumed_candidate :: "inbound_event \<Rightarrow> bool" where
  "unconsumed_candidate r \<longleftrightarrow> ie_candidate_reason r \<noteq> None \<and> ie_candidate_consumed_at r = None"

definition getUnconsumedContinuityCandidates :: "nat \<Rightarrow> db \<Rightarrow> inbound_event list" where
  "getUnconsumedContinuityCandidates limit d = take limit
     (sort_key (\<lambda>r. case ie_candidate_marked_at r of None \<Rightarrow> 0 | Some t \<Rightarrow> t)
       (sort_key ie_seq (filter unconsumed_candidate (inbound_events d))))"

definition countUnconsumedContinuityCandidates :: "db \<Rightarrow> nat" where
  "countUnconsumedContinuityCandidates d = length (filter unconsumed_candidate (inbound_events d))"

definition continuityCandidateHasTerminalOrRecovery :: "int \<Rightarrow> db \<Rightarrow> bool" where
  "continuityCandidateHasTerminalOrRecovery k d \<longleftrightarrow> terminal_record_for k d
     \<or> list_ex (\<lambda>j. rj_source_inbound_seq j = k) (recovery_jobs d)"

text \<open>No trigger guards the stamp.\<close>

definition stampContinuityCandidateConsumed :: "int \<Rightarrow> int \<Rightarrow> db \<Rightarrow> db" where
  "stampContinuityCandidateConsumed k now d = fst (cas_inbound unconsumed_candidate
     (\<lambda>r. r\<lparr>ie_candidate_consumed_at := Some now\<rparr>) k d)"

definition CONTINUITY_CANDIDATE_FRESH_WINDOW_MS :: int where
  "CONTINUITY_CANDIDATE_FRESH_WINDOW_MS = 1800000"

record candidate_stats =
  cs_reconciled :: nat
  cs_unresolvedFresh :: nat
  cs_unresolvedStale :: nat
  cs_newestUnresolvedMarkedAt :: "int option"

fun reconcile_candidates ::
  "inbound_event list \<Rightarrow> int \<Rightarrow> candidate_stats \<Rightarrow> db \<Rightarrow> db \<times> candidate_stats" where
  "reconcile_candidates [] nowMs st d = (d, st)"
| "reconcile_candidates (r # rs) nowMs st d =
     (if continuityCandidateHasTerminalOrRecovery (ie_seq r) d
      then reconcile_candidates rs nowMs (st\<lparr>cs_reconciled := cs_reconciled st + 1\<rparr>)
             (stampContinuityCandidateConsumed (ie_seq r) (sql_now nowMs) d)
      else let marked = ie_candidate_marked_at r;
               fresh = (case marked of None \<Rightarrow> False
                 | Some t \<Rightarrow> nowMs - CONTINUITY_CANDIDATE_FRESH_WINDOW_MS \<le> t * 1000);
               newest = cs_newestUnresolvedMarkedAt st
           in reconcile_candidates rs nowMs
             (st\<lparr>cs_unresolvedFresh := cs_unresolvedFresh st + (if fresh then 1 else 0),
                cs_unresolvedStale := cs_unresolvedStale st + (if fresh then 0 else 1),
                cs_newestUnresolvedMarkedAt :=
                  (case newest of None \<Rightarrow> marked
                   | Some n \<Rightarrow> (case marked of Some t \<Rightarrow> if t > n then marked else newest
                               | None \<Rightarrow> newest))\<rparr>) d)"

definition reconcileContinuityCandidates :: "int \<Rightarrow> nat \<Rightarrow> db \<Rightarrow> db \<times> candidate_stats" where
  "reconcileContinuityCandidates nowMs limit d =
     reconcile_candidates (getUnconsumedContinuityCandidates limit d) nowMs
       \<lparr>cs_reconciled = 0, cs_unresolvedFresh = 0, cs_unresolvedStale = 0,
        cs_newestUnresolvedMarkedAt = None\<rparr> d"

section \<open>Facts about the writers\<close>

lemma journalInbound_wf:
  assumes "journalInbound m c j t received now d = Inr (d', i)" "wf_db d"
  shows "wf_db d'" "i = last_seq d + 1"
  using assms by (auto simp: journalInbound_def throw_if_Inr Let_def wf_db_def keys_ok_append)

text \<open>
  What the statements behind the writers do, in one place: each is a keyed update that changes no key,
  either of a row that is no lost scheduled turn or of a row still processing, or of its candidate columns.
\<close>

definition inbound_settling :: "(inbound_event \<Rightarrow> bool) \<Rightarrow> (inbound_event \<Rightarrow> inbound_event) \<Rightarrow> bool" where
  "inbound_settling g f \<longleftrightarrow> keeps_id ie_seq f \<and> (\<forall>r. g r \<longrightarrow> \<not> scheduled_turn_loss_row r)"

lemma markTurnDoneD:
  assumes "markTurnDone k d = Inr d'"
  shows "d' = fst (cas_inbound (\<lambda>r. \<not> scheduled_turn_loss_row r) (\<lambda>r. r\<lparr>ie_processing_status := Is_turn_done\<rparr>) k d)"
  using assms unfolding markTurnDone_def and_then_Inr
  by (elim exE conjE) (drule update_inboundD, drule arg_cong [where f = fst], simp split: prod.splits)

lemma inbound_writerD:
  "markInboundComplete k reason now d = Inr (d', b) \<Longrightarrow> (d', b) = cas_inbound (\<lambda>r. \<not> scheduled_turn_loss_row r)
     (\<lambda>r. r\<lparr>ie_processing_status := Is_complete, ie_completed_at := Some now, ie_terminal_reason := Some reason\<rparr>) k d"
  "markInboundSkipped k reason now d = Inr (d', b) \<Longrightarrow> (d', b) = cas_inbound (\<lambda>r. \<not> scheduled_turn_loss_row r)
     (\<lambda>r. r\<lparr>ie_processing_status := Is_complete, ie_completed_at := Some now, ie_terminal_reason := Some reason\<rparr>) k d"
  "markInboundFailed k c now d = Inr (d', b) \<Longrightarrow> (d', b) = cas_inbound (\<lambda>r. \<not> scheduled_turn_loss_row r)
     (\<lambda>r. r\<lparr>ie_processing_status := Is_failed, ie_completed_at := Some now, ie_terminal_reason := Some ''error'',
            ie_failure_class := Some c\<rparr>) k d"
  "markContinuityCandidate k reason source now d = Inr (d', b) \<Longrightarrow> (d', b) = cas_inbound
     (\<lambda>r. ie_candidate_reason r = None) (mark_candidate reason source now) k d"
  "markContinuityCandidateIfNoTerminalOutbound k reason source now d = Inr (d', b) \<Longrightarrow> (d', b) = cas_inbound
     (\<lambda>r. ie_candidate_reason r = None \<and> \<not> terminal_record_for k d \<and> terminal_outbound_for k d = [])
     (mark_candidate reason source now) k d"
  unfolding markInboundComplete_def markInboundSkipped_def markInboundFailed_def markContinuityCandidate_def
    markContinuityCandidateIfNoTerminalOutbound_def by (rule update_inboundD, assumption)+

lemma pair_fst: "(a, b) = x \<Longrightarrow> a = fst x"
  by (simp add: prod_eq_iff)

lemma mark_candidate_id: "keeps_id ie_seq (mark_candidate reason source now)"
  by (simp add: keeps_id_def mark_candidate_def)

lemma complete_inbound_id:
  "keeps_id ie_seq (\<lambda>r. r\<lparr>ie_processing_status := s\<rparr>)"
  "keeps_id ie_seq (\<lambda>r. r\<lparr>ie_processing_status := s, ie_completed_at := a, ie_terminal_reason := b\<rparr>)"
  "keeps_id ie_seq (\<lambda>r. r\<lparr>ie_processing_status := s, ie_completed_at := a, ie_terminal_reason := b, ie_failure_class := e\<rparr>)"
  by (simp_all add: keeps_id_def)

lemmas inbound_row_ids = mark_candidate_id complete_inbound_id

text \<open>A keyed update of an event touches nothing but the inbound table.\<close>

lemma cas_inbound_table: "\<exists>es. fst (cas_inbound g f k d) = d\<lparr>inbound_events := es\<rparr>"
  unfolding cas_inbound_def Let_def fst_conv by (rule exI) (rule refl)

lemma inbound_self: "d = d\<lparr>inbound_events := inbound_events d\<rparr>"
  by simp

lemma inbound_writer_wf:
  "wf_db d \<Longrightarrow> markTurnDone k d = Inr d' \<Longrightarrow> wf_db d'"
  "wf_db d \<Longrightarrow> markInboundComplete k reason now d = Inr (d', b) \<Longrightarrow> wf_db d'"
  "wf_db d \<Longrightarrow> markInboundFailed k c now d = Inr (d', b) \<Longrightarrow> wf_db d'"
  "wf_db d \<Longrightarrow> markInboundSkipped k reason now d = Inr (d', b) \<Longrightarrow> wf_db d'"
  "wf_db d \<Longrightarrow> markInboundFailedIfProcessing k m j fc now d = Inr (d', b) \<Longrightarrow> wf_db d'"
  "wf_db d \<Longrightarrow> markContinuityCandidate k reason source now d = Inr (d', b) \<Longrightarrow> wf_db d'"
  "wf_db d \<Longrightarrow> markContinuityCandidateIfNoTerminalOutbound k reason source now d = Inr (d', b) \<Longrightarrow> wf_db d'"
  "wf_db d \<Longrightarrow> wf_db (stampContinuityCandidateConsumed k now d)"
proof -
  note wf = inbounds.wf_cas [OF _ inbound_row_ids(1)] inbounds.wf_cas [OF _ inbound_row_ids(2)]
    inbounds.wf_cas [OF _ inbound_row_ids(3)] inbounds.wf_cas [OF _ inbound_row_ids(4)]
  show "wf_db d \<Longrightarrow> markTurnDone k d = Inr d' \<Longrightarrow> wf_db d'" using wf(2) by (auto dest!: markTurnDoneD)
  show "wf_db d \<Longrightarrow> markInboundComplete k reason now d = Inr (d', b) \<Longrightarrow> wf_db d'"
    by (drule inbound_writerD(1), drule pair_fst, erule ssubst) (rule wf(3))
  show "wf_db d \<Longrightarrow> markInboundFailed k c now d = Inr (d', b) \<Longrightarrow> wf_db d'"
    by (drule inbound_writerD(3), drule pair_fst, erule ssubst) (rule wf(4))
  show "wf_db d \<Longrightarrow> markInboundSkipped k reason now d = Inr (d', b) \<Longrightarrow> wf_db d'"
    by (drule inbound_writerD(2), drule pair_fst, erule ssubst) (rule wf(3))
  show "wf_db d \<Longrightarrow> markInboundFailedIfProcessing k m j fc now d = Inr (d', b) \<Longrightarrow> wf_db d'"
    unfolding markInboundFailedIfProcessing_def
    by (drule update_inboundD, drule pair_fst, erule ssubst) (rule wf(4))
  show "wf_db d \<Longrightarrow> markContinuityCandidate k reason source now d = Inr (d', b) \<Longrightarrow> wf_db d'"
    by (drule inbound_writerD(4), drule pair_fst, erule ssubst) (rule wf(1))
  show "wf_db d \<Longrightarrow> markContinuityCandidateIfNoTerminalOutbound k reason source now d = Inr (d', b) \<Longrightarrow> wf_db d'"
    by (drule inbound_writerD(5), drule pair_fst, erule ssubst) (rule wf(1))
  show "wf_db d \<Longrightarrow> wf_db (stampContinuityCandidateConsumed k now d)"
    unfolding stampContinuityCandidateConsumed_def by (erule inbounds.wf_cas) (simp add: keeps_id_def)
qed

lemma completeInbound_cases:
  assumes "completeInbound k reason now d = (d', res)"
  obtains (first) e where "d' = d" "res = Inl e" "markTurnDone k d = Inl e"
  | (second) d1 e where "d' = d1" "res = Inl e" "d1 = d \<or> markTurnDone k d = Inr d1" "markInboundComplete k reason now d1 = Inl e"
  | (full) d1 b where "res = Inr ()" "d1 = d \<or> markTurnDone k d = Inr d1" "markInboundComplete k reason now d1 = Inr (d', b)"
  using assms unfolding completeInbound_def
  by (auto split: option.splits if_splits sum.splits prod.splits)

lemma completeInbound_frame:
  assumes "completeInbound k reason now d = (d', res)"
  shows "\<exists>es. d' = d\<lparr>inbound_events := es\<rparr>" "wf_db d \<Longrightarrow> wf_db d'"
proof -
  have one: "\<exists>es. d1 = d\<lparr>inbound_events := es\<rparr>" if "d1 = d \<or> markTurnDone k d = Inr d1" for d1
    using that inbound_self [of d] cas_inbound_table by (metis markTurnDoneD)
  have wf1: "wf_db d1" if "wf_db d" "d1 = d \<or> markTurnDone k d = Inr d1" for d1
    using that inbound_writer_wf(1) by blast
  have two: "\<exists>es. d2 = d1\<lparr>inbound_events := es\<rparr>" if "markInboundComplete k reason now d1 = Inr (d2, b)" for d1 d2 b
    using cas_inbound_table pair_fst [OF inbound_writerD(1) [OF that]] by simp
  from assms show "\<exists>es. d' = d\<lparr>inbound_events := es\<rparr>"
  proof (cases rule: completeInbound_cases)
    case first
    with inbound_self [of d] show ?thesis by metis
  next
    case (second d1 e)
    with one show ?thesis by blast
  next
    case (full d1 b)
    from one [OF full(2)] two [OF full(3)] show ?thesis by auto
  qed
  from assms show "wf_db d \<Longrightarrow> wf_db d'"
    by (cases rule: completeInbound_cases) (use wf1 inbound_writer_wf(2) in blast)+
qed

section \<open>The candidate reconciler\<close>

definition consumed_by :: "int \<Rightarrow> inbound_event \<Rightarrow> inbound_event \<Rightarrow> bool" where
  "consumed_by now r r' \<longleftrightarrow> unconsumed_candidate r \<and> r' = r\<lparr>ie_candidate_consumed_at := Some now\<rparr>"

lemma stamp_frames [simp]:
  "outbound_ops (stampContinuityCandidateConsumed k now d) = outbound_ops d"
  "terminal_records (stampContinuityCandidateConsumed k now d) = terminal_records d"
  "recovery_jobs (stampContinuityCandidateConsumed k now d) = recovery_jobs d"
  by (simp_all add: stampContinuityCandidateConsumed_def cas_inbound_def Let_def)

lemma covered_stable [simp]:
  "continuityCandidateHasTerminalOrRecovery n (stampContinuityCandidateConsumed k now d)
    = continuityCandidateHasTerminalOrRecovery n d"
  by (simp add: continuityCandidateHasTerminalOrRecovery_def terminal_record_for_def)

lemma stamp_row:
  assumes "wf_db d"
  shows "get_inbound (stampContinuityCandidateConsumed k now d) n = (if n = k then map_option (\<lambda>r.
      if unconsumed_candidate r then r\<lparr>ie_candidate_consumed_at := Some now\<rparr> else r)
      (get_inbound d k) else get_inbound d n)"
  unfolding stampContinuityCandidateConsumed_def
  by (simp add: inbounds.get_cas [OF assms] keeps_id_def)

lemma stamp_consumed: "unconsumed_candidate r \<Longrightarrow>
    \<not> unconsumed_candidate (r\<lparr>ie_candidate_consumed_at := Some now\<rparr>)"
  by (simp add: unconsumed_candidate_def)

lemma reconcile_row:
  assumes "wf_db d" "get_inbound d n = Some r"
  shows "\<exists>r'. get_inbound (fst (reconcile_candidates rs nowMs st d)) n = Some r'
    \<and> (r' = r \<or> continuityCandidateHasTerminalOrRecovery n d \<and> consumed_by (sql_now nowMs) r r')
    \<and> (n \<in> ie_seq ` set rs \<longrightarrow> continuityCandidateHasTerminalOrRecovery n d
        \<longrightarrow> \<not> unconsumed_candidate r')"
  using assms
proof (induction rs arbitrary: d st r)
  case Nil
  then show ?case by simp
next
  case (Cons x rs)
  let ?now = "sql_now nowMs"
  let ?d1 = "stampContinuityCandidateConsumed (ie_seq x) ?now d"
  show ?case
  proof (cases "continuityCandidateHasTerminalOrRecovery (ie_seq x) d")
    case False
    then show ?thesis using Cons.IH [OF Cons.prems] by (auto simp: Let_def)
  next
    case True
    have wf: "wf_db ?d1" by (rule inbound_writer_wf(8) [OF Cons.prems(1)])
    show ?thesis
    proof (cases "n = ie_seq x \<and> unconsumed_candidate r")
      case stamped: True
      let ?r = "r\<lparr>ie_candidate_consumed_at := Some ?now\<rparr>"
      have "get_inbound ?d1 n = Some ?r"
        using Cons.prems stamped by (simp add: stamp_row)
      from Cons.IH [OF wf this] stamped True show ?thesis
        using stamp_consumed [of r ?now] by (fastforce simp: consumed_by_def)
    next
      case False
      then have "get_inbound ?d1 n = Some r"
        using Cons.prems by (auto simp: stamp_row)
      from Cons.IH [OF wf this] True False show ?thesis
        by (fastforce simp: consumed_by_def)
    qed
  qed
qed

lemma reconcile_counts:
  "cs_reconciled (snd (reconcile_candidates rs nowMs st d))
     + cs_unresolvedFresh (snd (reconcile_candidates rs nowMs st d))
     + cs_unresolvedStale (snd (reconcile_candidates rs nowMs st d))
   = cs_reconciled st + cs_unresolvedFresh st + cs_unresolvedStale st + length rs"
  by (induction rs arbitrary: st d) (simp_all add: Let_def)

lemma reconcile_frames:
  "outbound_ops (fst (reconcile_candidates rs nowMs st d)) = outbound_ops d
    \<and> terminal_records (fst (reconcile_candidates rs nowMs st d)) = terminal_records d
    \<and> recovery_jobs (fst (reconcile_candidates rs nowMs st d)) = recovery_jobs d"
  by (induction rs arbitrary: st d) (simp_all add: Let_def)

lemma reconcile_wf: "wf_db d \<Longrightarrow> wf_db (fst (reconcile_candidates rs nowMs st d))"
  by (induction rs arbitrary: st d) (simp_all add: Let_def inbound_writer_wf(8))

section \<open>Histories of the inbound table\<close>

text \<open>One call of a writer, whatever its arguments and whether it throws half way.\<close>

inductive inbound_step :: "db \<Rightarrow> db \<Rightarrow> bool" where
  Journals: "journalInbound m c j t received now d = Inr (d', i) \<Longrightarrow> inbound_step d d'"
| Turn_done: "markTurnDone k d = Inr d' \<Longrightarrow> inbound_step d d'"
| Completes: "markInboundComplete k reason now d = Inr (d', b) \<Longrightarrow> inbound_step d d'"
| Fails: "markInboundFailed k c now d = Inr (d', b) \<Longrightarrow> inbound_step d d'"
| Fails_processing: "markInboundFailedIfProcessing k m j fc now d = Inr (d', b) \<Longrightarrow> inbound_step d d'"
| Skips: "markInboundSkipped k reason now d = Inr (d', b) \<Longrightarrow> inbound_step d d'"
| Settles: "completeInbound k reason now d = (d', res) \<Longrightarrow> inbound_step d d'"
| Marks: "markContinuityCandidate k reason source now d = Inr (d', b) \<Longrightarrow> inbound_step d d'"
| Marks_unanswered: "markContinuityCandidateIfNoTerminalOutbound k reason source now d = Inr (d', b) \<Longrightarrow> inbound_step d d'"
| Stamps: "inbound_step d (stampContinuityCandidateConsumed k now d)"
| Reconciles: "reconcileContinuityCandidates nowMs limit d = (d', st) \<Longrightarrow> inbound_step d d'"

text \<open>An event without its continuity columns.\<close>

definition forget_candidate :: "inbound_event \<Rightarrow> inbound_event" where
  "forget_candidate r = r\<lparr>ie_candidate_reason := None, ie_candidate_source := None, ie_candidate_marked_at := None,
     ie_candidate_consumed_at := None\<rparr>"

lemma forget_loss:
  assumes "forget_candidate r' = forget_candidate r"
  shows "scheduled_turn_loss_row r' = scheduled_turn_loss_row r"
proof -
  have "ie_message_id r' = ie_message_id r" "ie_processing_status r' = ie_processing_status r"
    "ie_failure_class r' = ie_failure_class r"
    using arg_cong [OF assms, of ie_message_id] arg_cong [OF assms, of ie_processing_status]
      arg_cong [OF assms, of ie_failure_class] by (simp_all add: forget_candidate_def)
  then show ?thesis by (simp add: scheduled_turn_loss_row_def)
qed

lemma forget_marks [simp]:
  "forget_candidate (mark_candidate reason source now r) = forget_candidate r"
  "forget_candidate (r\<lparr>ie_candidate_consumed_at := t\<rparr>) = forget_candidate r"
  by (simp_all add: forget_candidate_def mark_candidate_def)

definition keeps_loss :: "db \<Rightarrow> db \<Rightarrow> bool" where
  "keeps_loss d d' \<longleftrightarrow> wf_db d' \<and> (\<forall>k r. get_inbound d k = Some r \<and> scheduled_turn_loss_row r \<longrightarrow>
     (\<exists>r'. get_inbound d' k = Some r' \<and> forget_candidate r' = forget_candidate r))"

lemma keeps_loss_refl: "wf_db d \<Longrightarrow> keeps_loss d d"
  by (simp add: keeps_loss_def)

lemma keeps_loss_trans: "keeps_loss d d1 \<Longrightarrow> keeps_loss d1 d2 \<Longrightarrow> keeps_loss d d2"
  unfolding keeps_loss_def by (metis forget_loss)

lemma cas_keeps_loss:
  assumes "wf_db d" "keeps_id ie_seq f" "\<And>r. g r \<Longrightarrow> scheduled_turn_loss_row r \<Longrightarrow> forget_candidate (f r) = forget_candidate r"
  shows "keeps_loss d (fst (cas_inbound g f k d))"
  using assms(3) inbounds.wf_cas [OF assms(1,2)] by (auto simp: keeps_loss_def inbounds.get_cas [OF assms(1,2)])

lemma cas_open_keeps_loss:
  assumes "wf_db d" "keeps_id ie_seq f" "\<And>r. g r \<Longrightarrow> \<not> scheduled_turn_loss_row r"
  shows "keeps_loss d (fst (cas_inbound g f k d))"
  using assms(3) by (intro cas_keeps_loss [OF assms(1,2)]) blast

lemma turn_done_keeps_loss: "wf_db d \<Longrightarrow> markTurnDone k d = Inr d' \<Longrightarrow> keeps_loss d d'"
  by (drule markTurnDoneD, erule ssubst) (rule cas_open_keeps_loss [OF _ inbound_row_ids(2)])

lemma complete_keeps_loss: "wf_db d \<Longrightarrow> markInboundComplete k reason now d = Inr (d', b) \<Longrightarrow> keeps_loss d d'"
  by (drule inbound_writerD(1), drule pair_fst, erule ssubst)
    (rule cas_open_keeps_loss [OF _ inbound_row_ids(3)])

lemma settle_keeps_loss:
  assumes "wf_db d" "completeInbound k reason now d = (d', res)"
  shows "keeps_loss d d'"
  using assms(2)
proof (cases rule: completeInbound_cases)
  case first
  with assms(1) show ?thesis by (simp add: keeps_loss_refl)
next
  case (second d1 e)
  with assms(1) show ?thesis by (auto intro: keeps_loss_refl turn_done_keeps_loss)
next
  case (full d1 b)
  have "keeps_loss d d1" using full(2) assms(1) by (auto intro: keeps_loss_refl turn_done_keeps_loss)
  moreover from this have "wf_db d1" by (simp add: keeps_loss_def)
  then have "keeps_loss d1 d'" using full(3) by (rule complete_keeps_loss)
  ultimately show ?thesis by (rule keeps_loss_trans)
qed

lemma journal_keeps_loss:
  assumes "wf_db d" "journalInbound m c j t received now d = Inr (d', i)"
  shows "keeps_loss d d'"
proof -
  obtain e where "inbound_events d' = inbound_events d @ [e]"
    using assms(2) by (auto simp: journalInbound_def throw_if_Inr Let_def)
  then show ?thesis using journalInbound_wf(1) [OF assms(2,1)]
    by (auto simp: keeps_loss_def get_inbound_def find_append)
qed

lemma reconcile_keeps_loss:
  assumes "wf_db d" "reconcileContinuityCandidates nowMs limit d = (d', st)"
  shows "keeps_loss d d'"
proof -
  have d': "d' = fst (reconcile_candidates (getUnconsumedContinuityCandidates limit d) nowMs \<lparr>cs_reconciled = 0,
    cs_unresolvedFresh = 0, cs_unresolvedStale = 0, cs_newestUnresolvedMarkedAt = None\<rparr> d)"
    using assms(2) by (simp add: reconcileContinuityCandidates_def)
  have "\<exists>r'. get_inbound d' k = Some r' \<and> forget_candidate r' = forget_candidate r" if "get_inbound d k = Some r" for k r
    using reconcile_row [OF assms(1) that] unfolding d' by (fastforce simp: consumed_by_def)
  with reconcile_wf [OF assms(1)] show ?thesis by (simp add: keeps_loss_def d')
qed

lemma inbound_step_keeps_loss: "inbound_step d d' \<Longrightarrow> wf_db d \<Longrightarrow> keeps_loss d d'"
proof (induction rule: inbound_step.induct)
  case (Fails k c now d d' b)
  then have "d' = fst (cas_inbound (\<lambda>r. \<not> scheduled_turn_loss_row r) (\<lambda>r. r\<lparr>ie_processing_status := Is_failed,
      ie_completed_at := Some now, ie_terminal_reason := Some ''error'', ie_failure_class := Some c\<rparr>) k d)"
    by (intro pair_fst [OF inbound_writerD(3)])
  then show ?case by (simp only:) (rule cas_open_keeps_loss [OF Fails(2) inbound_row_ids(4)])
next
  case (Fails_processing k m j fc now d d' b)
  then have "d' = fst (cas_inbound (\<lambda>r. ie_message_id r = m \<and> ie_chat_jid r = j \<and> ie_processing_status r = Is_processing)
      (\<lambda>r. r\<lparr>ie_processing_status := Is_failed, ie_completed_at := Some now, ie_terminal_reason := Some ''error'',
         ie_failure_class := Some (coerceInboundFailureClass fc)\<rparr>) k d)"
    unfolding markInboundFailedIfProcessing_def by (intro pair_fst [OF update_inboundD])
  then show ?case
    by (simp only:) (rule cas_open_keeps_loss [OF Fails_processing(2) inbound_row_ids(4)], simp add: scheduled_turn_loss_row_def)
next
  case (Skips k reason now d d' b)
  then have "markInboundComplete k reason now d = Inr (d', b)" by (simp add: markInboundSkipped_def markInboundComplete_def)
  with Skips(2) show ?case by (rule complete_keeps_loss)
next
  case (Marks k reason source now d d' b)
  then have "d' = fst (cas_inbound (\<lambda>r. ie_candidate_reason r = None) (mark_candidate reason source now) k d)"
    by (intro pair_fst [OF inbound_writerD(4)])
  then show ?case by (simp only:) (rule cas_keeps_loss [OF Marks(2) inbound_row_ids(1)], simp)
next
  case (Marks_unanswered k reason source now d d' b)
  then have "d' = fst (cas_inbound (\<lambda>r. ie_candidate_reason r = None \<and> \<not> terminal_record_for k d \<and> terminal_outbound_for k d = [])
      (mark_candidate reason source now) k d)"
    by (intro pair_fst [OF inbound_writerD(5)])
  then show ?case by (simp only:) (rule cas_keeps_loss [OF Marks_unanswered(2) inbound_row_ids(1)], simp)
next
  case (Stamps d k now)
  then show ?case unfolding stampContinuityCandidateConsumed_def
    by (rule cas_keeps_loss) (simp_all add: keeps_id_def)
qed (auto intro: journal_keeps_loss turn_done_keeps_loss complete_keeps_loss settle_keeps_loss reconcile_keeps_loss)

lemma inbound_history_keeps_loss: "inbound_step\<^sup>*\<^sup>* d d' \<Longrightarrow> wf_db d \<Longrightarrow> keeps_loss d d'"
proof (induction rule: rtranclp_induct)
  case base
  then show ?case by (rule keeps_loss_refl)
next
  case (step d1 d2)
  then have "keeps_loss d d1" by simp
  moreover from this have "wf_db d1" by (simp add: keeps_loss_def)
  with step have "keeps_loss d1 d2" by (intro inbound_step_keeps_loss)
  ultimately show ?case by (rule keeps_loss_trans)
qed

section \<open>Properties\<close>

definition sample_inbound_db :: db where
  "sample_inbound_db = (case journalInbound ''agentjob-7-1700000000-occ1'' ''c1'' ''1@s.whatsapp.net''
     ''agent'' None 1700000000 empty_db of Inr (d, _) \<Rightarrow> d | Inl _ \<Rightarrow> empty_db)"

lemma sample_inbound_wf: "wf_db sample_inbound_db"
  unfolding sample_inbound_db_def
  using journalInbound_wf(1) [OF _ wf_empty] by (auto split: sum.split simp: wf_empty)

text \<open>
  C14: The first terminal of a scheduled job's turn wins: once a crash-recovery pass has failed such a row
  as lost, no history of the inbound writers changes its status, its completion, its reason, its failure
  class or what it is about. It stays in the table and stays a lost turn. The writers are journal, turn done,
  complete, failed, failed while processing, skipped, the completion that settles a reply, and those of the
  continuity candidates, which may only write their own four columns of such a row.
\<close>

theorem scheduled_turn_loss_is_final:
  assumes "wf_db d" "get_inbound d k = Some r" "scheduled_turn_loss_row r" "inbound_step\<^sup>*\<^sup>* d d'"
  shows "\<exists>r'. get_inbound d' k = Some r' \<and> forget_candidate r' = forget_candidate r \<and> scheduled_turn_loss_row r'"
  using inbound_history_keeps_loss [OF assms(4,1)] assms(2,3) forget_loss unfolding keeps_loss_def by metis

definition sample_lost_db :: db where
  "sample_lost_db = (case markInboundFailed 1 Fc_crash_recovery 1700000500 sample_inbound_db of
     Inr (d, _) \<Rightarrow> d | Inl _ \<Rightarrow> empty_db)"

definition sample_marked_db :: db where
  "sample_marked_db = (case markContinuityCandidate 1 ''crash_reclaim_no_terminal_outbound'' ''pre_connect_recovery''
     1700000600 sample_lost_db of Inr (d, _) \<Rightarrow> d | Inl _ \<Rightarrow> empty_db)"

lemma sample_lost_run: "\<exists>b. markInboundFailed 1 Fc_crash_recovery 1700000500 sample_inbound_db = Inr (sample_lost_db, b)"
  by code_simp

theorem scheduled_turn_loss_is_final_witness:
  "\<exists>r'. get_inbound (fst (completeInbound 1 ''response_sent'' 1700000900 sample_marked_db)) 1 = Some r'
    \<and> scheduled_turn_loss_row r'"
proof -
  obtain b where lost: "markInboundFailed 1 Fc_crash_recovery 1700000500 sample_inbound_db = Inr (sample_lost_db, b)"
    using sample_lost_run by blast
  have "\<exists>b. markContinuityCandidate 1 ''crash_reclaim_no_terminal_outbound'' ''pre_connect_recovery''
     1700000600 sample_lost_db = Inr (sample_marked_db, b)" by code_simp
  then have "inbound_step sample_lost_db sample_marked_db" by (auto intro: Marks)
  moreover have "inbound_step sample_marked_db (fst (completeInbound 1 ''response_sent'' 1700000900 sample_marked_db))"
    by (rule Settles) (rule prod.collapse [symmetric])
  ultimately have run: "inbound_step\<^sup>*\<^sup>* sample_lost_db (fst (completeInbound 1 ''response_sent'' 1700000900 sample_marked_db))"
    by (meson converse_rtranclp_into_rtranclp rtranclp.rtrancl_refl)
  have "case get_inbound sample_lost_db 1 of None \<Rightarrow> False | Some r \<Rightarrow> scheduled_turn_loss_row r" by code_simp
  then obtain r where r: "get_inbound sample_lost_db 1 = Some r" "scheduled_turn_loss_row r" by (auto split: option.splits)
  from scheduled_turn_loss_is_final [OF inbound_writer_wf(3) [OF sample_inbound_wf lost] r run] show ?thesis by blast
qed

text \<open>
  C15: The candidate reconciler settles exactly the drops another path already covers: a scanned row
  with a terminal record or a recovery job is stamped consumed, a row without one is left exactly
  as it was, nothing else in the database moves, and every scanned row is counted once.
\<close>

theorem candidate_reconciler_settles_only_covered:
  assumes "wf_db d" "get_inbound d n = Some r"
  shows "\<exists>r' d' st. reconcileContinuityCandidates nowMs limit d = (d', st)
    \<and> get_inbound d' n = Some r'
    \<and> (r' = r \<or> continuityCandidateHasTerminalOrRecovery n d \<and> consumed_by (sql_now nowMs) r r')
    \<and> (r \<in> set (getUnconsumedContinuityCandidates limit d)
        \<longrightarrow> continuityCandidateHasTerminalOrRecovery n d \<longrightarrow> \<not> unconsumed_candidate r')
    \<and> outbound_ops d' = outbound_ops d \<and> terminal_records d' = terminal_records d
    \<and> recovery_jobs d' = recovery_jobs d
    \<and> cs_reconciled st + cs_unresolvedFresh st + cs_unresolvedStale st
        = length (getUnconsumedContinuityCandidates limit d)"
proof -
  let ?rs = "getUnconsumedContinuityCandidates limit d"
  let ?st = "\<lparr>cs_reconciled = 0, cs_unresolvedFresh = 0, cs_unresolvedStale = 0,
        cs_newestUnresolvedMarkedAt = None\<rparr>"
  have n: "ie_seq r = n" using assms(2) by (auto simp: get_inbound_def dest: find_SomeD)
  from reconcile_row [OF assms, of ?rs nowMs ?st] reconcile_frames [of ?rs nowMs ?st d]
    reconcile_counts [of ?rs nowMs ?st d] n
  show ?thesis
    unfolding reconcileContinuityCandidates_def
    by (cases "reconcile_candidates ?rs nowMs ?st d") (fastforce simp: image_iff)
qed

definition sample_candidate_db :: db where
  "sample_candidate_db = (case markContinuityCandidate 1 ''crash_reclaim_no_terminal_outbound'' ''pre_connect_recovery''
     1700000100 sample_inbound_db of Inr (d, _) \<Rightarrow> d | Inl _ \<Rightarrow> empty_db)"

theorem candidate_reconciler_witness:
  "\<exists>r' d' st. reconcileContinuityCandidates 1700003600000 100 sample_candidate_db = (d', st)
    \<and> get_inbound d' 1 = Some r' \<and> unconsumed_candidate r'"
proof -
  have "\<exists>b. markContinuityCandidate 1 ''crash_reclaim_no_terminal_outbound'' ''pre_connect_recovery''
     1700000100 sample_inbound_db = Inr (sample_candidate_db, b)" by code_simp
  then have wf: "wf_db sample_candidate_db" using inbound_writer_wf(6) [OF sample_inbound_wf] by blast
  have "case get_inbound sample_candidate_db 1 of None \<Rightarrow> False | Some r \<Rightarrow> unconsumed_candidate r
      \<and> \<not> continuityCandidateHasTerminalOrRecovery 1 sample_candidate_db" by code_simp
  then obtain r where r: "get_inbound sample_candidate_db 1 = Some r" "unconsumed_candidate r"
    "\<not> continuityCandidateHasTerminalOrRecovery 1 sample_candidate_db" by (auto split: option.splits)
  from candidate_reconciler_settles_only_covered [OF wf r(1), of 1700003600000 100] r(2,3)
  show ?thesis by metis
qed

end
