(* ===== verification/Jobs.thy ===== *)
theory Jobs
  imports Inbound
begin

text \<open>
  The turn recovery store (\<^verbatim>\<open>src/core/turn-recovery-store.ts\<close>): durable jobs that own a turn whose
  delivery was not yet proved, with leases (a claim token and an epoch), a bounded number of
  attempts, requeue with backoff, reassignment under epoch fences, promotion of unsafe work against
  a proof, and settlement by a late echo. \<open>hash\<close> is the token digest of \<^verbatim>\<open>node:crypto\<close>. A statement
  that matches no row leaves the database as it was, so a thrown error carries no state.
\<close>

definition TURN_RECOVERY_MAX_ATTEMPTS :: int where
  "TURN_RECOVERY_MAX_ATTEMPTS = 5"

definition TURN_RECOVERY_MAX_LEASE_SECONDS :: int where
  "TURN_RECOVERY_MAX_LEASE_SECONDS = 300"

definition TURN_RECOVERY_MAX_BACKOFF_SECONDS :: int where
  "TURN_RECOVERY_MAX_BACKOFF_SECONDS = 3600"

section \<open>Parameters and their validation\<close>

record job_params =
  jp_scope :: string
  jp_conversationKey :: string
  jp_deliveryJid :: string
  jp_sourceInboundSeq :: int
  jp_sourceLogicalTurnId :: string
  jp_sourceManagerId :: string
  jp_sourceGeneration :: int
  jp_sourceMessageId :: string
  jp_ownerLogicalTurnId :: string
  jp_ownerManagerId :: string
  jp_ownerGeneration :: int
  jp_replaySafe :: bool
  jp_senderJid :: string
  jp_senderName :: "string option"
  jp_replayText :: string
  jp_isGroup :: bool
  jp_groupName :: "string option"

record owner_identity =
  oi_logicalTurnId :: string
  oi_managerId :: string
  oi_generation :: int

record claim_fence =
  cf_claimToken :: string
  cf_claimEpoch :: int

record assignment_fence =
  af_claimEpoch :: int
  af_assignmentEpoch :: int

definition SCOPES :: "string list" where
  "SCOPES = [''per_chat'', ''shared'', ''singleton'']"

definition validate_id :: "string \<Rightarrow> string \<Rightarrow> unit result" where
  "validate_id v label = validateBoundedRequired v label TURN_RECOVERY_MAX_ID_BYTES"

definition validateTurnRecoveryOwnerIdentity :: "owner_identity \<Rightarrow> unit result" where
  "validateTurnRecoveryOwnerIdentity owner =
     and_then (validate_id (oi_logicalTurnId owner) ''Recovery owner logical turn ID'') (\<lambda>_.
     and_then (validate_id (oi_managerId owner) ''Recovery owner manager ID'') (\<lambda>_.
     validatePositiveSafeInteger (oi_generation owner) ''Recovery owner generation''))"

definition validateRecoveryClaimToken :: "string \<Rightarrow> unit result" where
  "validateRecoveryClaimToken token = validate_id token ''Recovery claim token''"

definition validateRecoveryLeaseSeconds :: "int \<Rightarrow> unit result" where
  "validateRecoveryLeaseSeconds s =
     throw_if (\<not> safe_integer s \<or> s < 1 \<or> s > TURN_RECOVERY_MAX_LEASE_SECONDS)
       (Error ''Recovery claim lease must be between 1 and 300 seconds'') (Inr ())"

definition validateRecoveryBackoffSeconds :: "int \<Rightarrow> unit result" where
  "validateRecoveryBackoffSeconds s =
     throw_if (\<not> safe_integer s \<or> s < 0 \<or> s > TURN_RECOVERY_MAX_BACKOFF_SECONDS)
       (Error ''Recovery backoff must be between 0 and 3600 seconds'') (Inr ())"

definition validateRecoveryAssignmentFence :: "assignment_fence \<Rightarrow> unit result" where
  "validateRecoveryAssignmentFence f =
     throw_if (\<not> safe_integer (af_claimEpoch f) \<or> af_claimEpoch f < 0)
       (Error ''Expected recovery claim epoch must be a nonnegative safe integer'')
    (throw_if (\<not> safe_integer (af_assignmentEpoch f) \<or> af_assignmentEpoch f < 0)
       (Error ''Expected recovery assignment epoch must be a nonnegative safe integer'')
       (Inr ()))"

definition validateTurnRecoveryJob :: "job_params \<Rightarrow> unit result" where
  "validateTurnRecoveryJob p =
     throw_if (jp_scope p \<notin> set SCOPES) (Error ''Recovery job scope is invalid'')
    (and_then (validate_id (jp_conversationKey p) ''Recovery conversation key'') (\<lambda>_.
     and_then (validate_id (jp_deliveryJid p) ''Recovery delivery JID'') (\<lambda>_.
     and_then (validatePositiveSafeInteger (jp_sourceInboundSeq p) ''Recovery source inbound sequence'') (\<lambda>_.
     and_then (validate_id (jp_sourceLogicalTurnId p) ''Recovery source logical turn ID'') (\<lambda>_.
     and_then (validate_id (jp_sourceManagerId p) ''Recovery source manager ID'') (\<lambda>_.
     and_then (validatePositiveSafeInteger (jp_sourceGeneration p) ''Recovery source generation'') (\<lambda>_.
     and_then (validate_id (jp_sourceMessageId p) ''Recovery source message ID'') (\<lambda>_.
     and_then (validate_id (jp_ownerLogicalTurnId p) ''Recovery owner logical turn ID'') (\<lambda>_.
     and_then (validate_id (jp_ownerManagerId p) ''Recovery owner manager ID'') (\<lambda>_.
     and_then (validatePositiveSafeInteger (jp_ownerGeneration p) ''Recovery owner generation'') (\<lambda>_.
     and_then (validate_id (jp_senderJid p) ''Recovery sender JID'') (\<lambda>_.
     and_then (validateOptionalBounded (jp_senderName p) ''Recovery sender name'' TURN_RECOVERY_MAX_NAME_BYTES) (\<lambda>_.
     throw_if (length (jp_replayText p) > TURN_RECOVERY_MAX_TEXT_BYTES)
       (Error ''Recovery replay text exceeds its byte limit'')
    (throw_if (\<not> isNonEmptyString (jp_replayText p))
       (Error ''Recovery jobs require nonempty replay text'')
    (and_then (validateOptionalBounded (jp_groupName p) ''Recovery group name'' TURN_RECOVERY_MAX_NAME_BYTES) (\<lambda>_.
     throw_if (\<not> jp_isGroup p \<and> jp_groupName p \<noteq> None)
       (Error ''A direct-message recovery job cannot carry a group name'')
       (Inr ())))))))))))))))))"

section \<open>The joined view of a job\<close>

text \<open>
  \<^verbatim>\<open>VALID_RECOVERY_JOB_FROM\<close>: a job is visible only together with the terminal record, the inbound
  event and the selected outbound operation it claims to own, all agreeing on the turn's identity.
\<close>

definition terminal_link_ok :: "recovery_job \<Rightarrow> terminal_record \<Rightarrow> bool" where
  "terminal_link_ok j t \<longleftrightarrow> tt_inbound_disposition t = ''transferred_to_recovery_owner''
     \<and> tt_scope t = rj_scope j \<and> tt_inbound_seq t = Some (rj_source_inbound_seq j)
     \<and> tt_logical_turn_id t = rj_source_logical_turn_id j
     \<and> tt_manager_id t = rj_source_manager_id j \<and> tt_generation t = rj_source_generation j
     \<and> tt_conversation_key t = rj_conversation_key j \<and> tt_delivery_jid t = rj_delivery_jid j
     \<and> tt_owner_logical_turn_id t = Some (rj_owner_logical_turn_id j)
     \<and> tt_owner_manager_id t = Some (rj_owner_manager_id j)
     \<and> tt_owner_generation t = Some (rj_owner_generation j)
     \<and> tt_delivery_kind t \<in> {''enqueued'', ''flushed'', ''delivery_unknown''}"

definition inbound_link_ok :: "recovery_job \<Rightarrow> inbound_event \<Rightarrow> bool" where
  "inbound_link_ok j i \<longleftrightarrow> ie_message_id i = rj_source_message_id j
     \<and> ie_conversation_key i = rj_conversation_key j \<and> ie_chat_jid i = rj_delivery_jid j"

definition outbound_link_ok :: "recovery_job \<Rightarrow> outbound_op \<Rightarrow> bool" where
  "outbound_link_ok j o' \<longleftrightarrow> op_source_inbound_seq o' = Some (rj_source_inbound_seq j)
     \<and> op_conversation_key o' = rj_conversation_key j \<and> op_chat_jid o' = rj_delivery_jid j"

definition valid_links ::
  "db \<Rightarrow> recovery_job \<Rightarrow> (terminal_record \<times> inbound_event \<times> outbound_op) option" where
  "valid_links d j = (case get_terminal d (rj_terminal_record_id j) of
     Some t \<Rightarrow> (case get_inbound d (rj_source_inbound_seq j) of
       Some i \<Rightarrow> (case Option.bind (tt_delivery_op_id t) (get_op d) of
         Some o' \<Rightarrow> if terminal_link_ok j t \<and> inbound_link_ok j i \<and> outbound_link_ok j o'
                    then Some (t, i, o') else None
       | None \<Rightarrow> None) | None \<Rightarrow> None) | None \<Rightarrow> None)"

definition getInternalTurnRecoveryJob :: "int \<Rightarrow> db \<Rightarrow> recovery_job option" where
  "getInternalTurnRecoveryJob k d = (case get_job d k of
     Some j \<Rightarrow> if valid_links d j \<noteq> None then Some j else None | None \<Rightarrow> None)"

definition getTurnRecoveryJob :: "int \<Rightarrow> db \<Rightarrow> recovery_job option result" where
  "getTurnRecoveryJob k d =
     and_then (validatePositiveSafeInteger k ''Recovery job ID'') (\<lambda>_.
     Inr (getInternalTurnRecoveryJob k d))"

definition getTurnRecoveryJobBySource :: "int \<Rightarrow> string \<Rightarrow> int \<Rightarrow> db \<Rightarrow> recovery_job option result" where
  "getTurnRecoveryJobBySource inboundSeq logicalTurnId generation d =
     and_then (validatePositiveSafeInteger inboundSeq ''Recovery source inbound sequence'') (\<lambda>_.
     and_then (validate_id logicalTurnId ''Recovery source logical turn ID'') (\<lambda>_.
     and_then (validatePositiveSafeInteger generation ''Recovery source generation'') (\<lambda>_.
     Inr (find (\<lambda>j. rj_source_inbound_seq_key j = inboundSeq
         \<and> rj_source_logical_turn_id j = logicalTurnId \<and> rj_source_generation j = generation
         \<and> valid_links d j \<noteq> None) (recovery_jobs d)))))"

section \<open>Corroborated deliveries\<close>

definition validDeliveryCorroborationForTerminal :: "db \<Rightarrow> terminal_record \<Rightarrow> bool" where
  "validDeliveryCorroborationForTerminal d t \<longleftrightarrow>
     tt_delivery_kind t = ''delivery_unknown'' \<and> tt_inbound_seq t = Some (tt_inbound_seq_key t)
     \<and> list_ex (\<lambda>selected. tt_delivery_op_id t = Some (op_id selected)
         \<and> op_source_inbound_seq selected = tt_inbound_seq t
         \<and> op_conversation_key selected = tt_conversation_key t
         \<and> op_chat_jid selected = tt_delivery_jid t \<and> op_is_terminal selected
         \<and> list_ex (\<lambda>c. co_terminal_record_id c = tt_id t
             \<and> co_basis c = ''same_source_later_echoed_op''
             \<and> list_ex (\<lambda>candidate. op_id candidate = co_corroborating_op_id c
                 \<and> op_source_inbound_seq candidate = op_source_inbound_seq selected
                 \<and> op_conversation_key candidate = op_conversation_key selected
                 \<and> op_chat_jid candidate = op_chat_jid selected
                 \<and> op_status candidate = Os_echoed \<and> op_id selected < op_id candidate)
               (outbound_ops d)) (corroborations d)) (outbound_ops d)"

definition validDeliveryCorroborationForJob :: "db \<Rightarrow> recovery_job \<Rightarrow> bool" where
  "validDeliveryCorroborationForJob d j \<longleftrightarrow>
     list_ex (\<lambda>t. tt_id t = rj_terminal_record_id j \<and> validDeliveryCorroborationForTerminal d t)
       (terminal_records d)"

definition isTurnRecoveryReplayEligible :: "recovery_job \<Rightarrow> bool" where
  "isTurnRecoveryReplayEligible j \<longleftrightarrow> rj_replay_safe j
     \<or> (case rj_replay_safety_proof_id j of None \<Rightarrow> False | Some p \<Rightarrow> length p > 0)"

section \<open>Enqueue\<close>

record enqueue_result =
  er_blocked :: bool
  er_applied :: bool
  er_jobId :: int
  er_state :: job_state
  er_duplicateEnqueueCount :: nat

definition recoveryReceiptStatus :: "job_state \<Rightarrow> bool" where
  "recoveryReceiptStatus st \<longleftrightarrow> st = Js_blocked_unsafe"

definition new_job :: "int \<Rightarrow> int \<Rightarrow> job_params \<Rightarrow> int \<Rightarrow> recovery_job" where
  "new_job i terminalRecordId p now =
     \<lparr>rj_id = i, rj_terminal_record_id = terminalRecordId, rj_scope = jp_scope p,
      rj_conversation_key = jp_conversationKey p, rj_delivery_jid = jp_deliveryJid p,
      rj_source_inbound_seq = jp_sourceInboundSeq p,
      rj_source_inbound_seq_key = jp_sourceInboundSeq p,
      rj_source_logical_turn_id = jp_sourceLogicalTurnId p,
      rj_source_manager_id = jp_sourceManagerId p, rj_source_generation = jp_sourceGeneration p,
      rj_source_message_id = jp_sourceMessageId p,
      rj_owner_logical_turn_id = jp_ownerLogicalTurnId p,
      rj_owner_manager_id = jp_ownerManagerId p, rj_owner_generation = jp_ownerGeneration p,
      rj_assigned_logical_turn_id = jp_ownerLogicalTurnId p,
      rj_assigned_manager_id = jp_ownerManagerId p, rj_assigned_generation = jp_ownerGeneration p,
      rj_replay_safe = jp_replaySafe p, rj_replay_safety_proof_id = None,
      rj_sender_jid = jp_senderJid p, rj_sender_name = jp_senderName p,
      rj_replay_text = jp_replayText p, rj_is_group = jp_isGroup p,
      rj_group_name = jp_groupName p,
      rj_state = (if jp_replaySafe p then Js_pending else Js_blocked_unsafe),
      rj_attempt_count = 0, rj_claim_epoch = 0, rj_assignment_epoch = 0, rj_claim_token = None,
      rj_claimed_at = None, rj_claim_expires_at = None, rj_next_attempt_at = now,
      rj_last_requeue_hash = None, rj_last_requeue_epoch = None, rj_last_requeue_backoff = None,
      rj_duplicate_enqueue_count = 0, rj_completed_at = None, rj_completion_kind = None,
      rj_completion_proof_id = None, rj_echo_conflict_at = None, rj_echo_conflict_reason = None\<rparr>"

text \<open>The two unique keys of the table abort the insert of a second job for one source.\<close>

definition job_key_taken :: "db \<Rightarrow> int \<Rightarrow> job_params \<Rightarrow> bool" where
  "job_key_taken d terminalRecordId p \<longleftrightarrow> list_ex (\<lambda>j. rj_terminal_record_id j = terminalRecordId
     \<or> rj_source_inbound_seq_key j = jp_sourceInboundSeq p
       \<and> rj_source_logical_turn_id j = jp_sourceLogicalTurnId p
       \<and> rj_source_generation j = jp_sourceGeneration p) (recovery_jobs d)"

definition insertLinkedWithinCallerTransaction ::
  "int \<Rightarrow> job_params \<Rightarrow> int \<Rightarrow> db \<Rightarrow> (db \<times> enqueue_result) result" where
  "insertLinkedWithinCallerTransaction terminalRecordId p now d =
     and_then (validateTurnRecoveryJob p) (\<lambda>_.
     throw_if (job_key_taken d terminalRecordId p) (Error ''UNIQUE constraint failed'')
       (let i = last_job_id d + 1; j = new_job i terminalRecordId p now in Inr
         (d\<lparr>recovery_jobs := recovery_jobs d @ [j], last_job_id := i\<rparr>,
          \<lparr>er_blocked = recoveryReceiptStatus (rj_state j), er_applied = True, er_jobId = i,
           er_state = rj_state j, er_duplicateEnqueueCount = 0\<rparr>)))"

definition recoveryJobMatches :: "recovery_job \<Rightarrow> job_params \<Rightarrow> bool" where
  "recoveryJobMatches r p \<longleftrightarrow> rj_scope r = jp_scope p \<and> rj_conversation_key r = jp_conversationKey p
     \<and> rj_delivery_jid r = jp_deliveryJid p \<and> rj_source_inbound_seq r = jp_sourceInboundSeq p
     \<and> rj_source_logical_turn_id r = jp_sourceLogicalTurnId p
     \<and> rj_source_manager_id r = jp_sourceManagerId p
     \<and> rj_source_generation r = jp_sourceGeneration p
     \<and> rj_source_message_id r = jp_sourceMessageId p
     \<and> rj_owner_logical_turn_id r = jp_ownerLogicalTurnId p
     \<and> rj_owner_manager_id r = jp_ownerManagerId p \<and> rj_owner_generation r = jp_ownerGeneration p
     \<and> rj_replay_safe r = jp_replaySafe p \<and> rj_sender_jid r = jp_senderJid p
     \<and> rj_sender_name r = jp_senderName p \<and> rj_replay_text r = jp_replayText p
     \<and> rj_is_group r = jp_isGroup p \<and> rj_group_name r = jp_groupName p"

definition findExactLinkedReceipt ::
  "int \<Rightarrow> job_params \<Rightarrow> db \<Rightarrow> (db \<times> enqueue_result option) result" where
  "findExactLinkedReceipt terminalRecordId p d =
     and_then (getTurnRecoveryJobBySource (jp_sourceInboundSeq p) (jp_sourceLogicalTurnId p)
       (jp_sourceGeneration p) d) (\<lambda>linked. case linked of
       None \<Rightarrow> Inr (d, None)
     | Some j \<Rightarrow>
         if rj_terminal_record_id j \<noteq> terminalRecordId \<or> \<not> recoveryJobMatches j p then Inr (d, None)
         else let n = rj_duplicate_enqueue_count j + 1 in Inr
           (fst (cas_job (\<lambda>r. True) (\<lambda>r. r\<lparr>rj_duplicate_enqueue_count := rj_duplicate_enqueue_count r + 1\<rparr>)
              (rj_id j) d),
            Some \<lparr>er_blocked = recoveryReceiptStatus (rj_state j), er_applied = False,
              er_jobId = rj_id j, er_state = rj_state j, er_duplicateEnqueueCount = n\<rparr>))"

section \<open>Claims\<close>

definition assigned_to :: "owner_identity \<Rightarrow> recovery_job \<Rightarrow> bool" where
  "assigned_to owner j \<longleftrightarrow> rj_assigned_logical_turn_id j = oi_logicalTurnId owner
     \<and> rj_assigned_manager_id j = oi_managerId owner \<and> rj_assigned_generation j = oi_generation owner"

definition getOwnedTurnRecoveryJob :: "int \<Rightarrow> owner_identity \<Rightarrow> db \<Rightarrow> recovery_job result" where
  "getOwnedTurnRecoveryJob k owner d =
     and_then (validatePositiveSafeInteger k ''Recovery job ID'') (\<lambda>_.
     and_then (validateTurnRecoveryOwnerIdentity owner) (\<lambda>_.
     (case getInternalTurnRecoveryJob k d of None \<Rightarrow> Inl (Error ''Recovery job does not exist'')
      | Some j \<Rightarrow> throw_if (\<not> assigned_to owner j)
          (Error ''Recovery job may only be changed by its assigned recovery owner'') (Inr j))))"

definition isRecoveryClaimUnexpired :: "int \<Rightarrow> recovery_job \<Rightarrow> bool" where
  "isRecoveryClaimUnexpired now j \<longleftrightarrow> (case rj_claim_expires_at j of None \<Rightarrow> False | Some t \<Rightarrow> t > now)"

record claim_result =
  cr_applied :: bool
  cr_claimToken :: string
  cr_claimEpoch :: int
  cr_attemptCount :: int
  cr_claimExpiresAt :: "int option"

definition held_claim :: "string \<Rightarrow> int \<Rightarrow> recovery_job \<Rightarrow> claim_result result" where
  "held_claim token now j =
     throw_if (rj_claim_token j \<noteq> Some token)
       (Error ''Recovery job is already claimed by another claim token'')
    (throw_if (\<not> isRecoveryClaimUnexpired now j) (Error ''Recovery job claim lease has expired'')
       (Inr \<lparr>cr_applied = False, cr_claimToken = token, cr_claimEpoch = rj_claim_epoch j,
          cr_attemptCount = rj_attempt_count j, cr_claimExpiresAt = rj_claim_expires_at j\<rparr>))"

definition claimable :: "db \<Rightarrow> owner_identity \<Rightarrow> int \<Rightarrow> recovery_job \<Rightarrow> bool" where
  "claimable d owner now j \<longleftrightarrow> assigned_to owner j \<and> rj_state j = Js_pending
     \<and> rj_attempt_count j < TURN_RECOVERY_MAX_ATTEMPTS \<and> rj_next_attempt_at j \<le> now
     \<and> \<not> validDeliveryCorroborationForJob d j"

definition claim_row :: "string \<Rightarrow> int \<Rightarrow> int \<Rightarrow> recovery_job \<Rightarrow> recovery_job" where
  "claim_row token leaseSeconds now j = j\<lparr>rj_state := Js_claimed,
     rj_attempt_count := rj_attempt_count j + 1, rj_claim_epoch := rj_claim_epoch j + 1,
     rj_claim_token := Some token, rj_claimed_at := Some now,
     rj_claim_expires_at := Some (now + leaseSeconds), rj_last_requeue_hash := None,
     rj_last_requeue_epoch := None, rj_last_requeue_backoff := None\<rparr>"

text \<open>
  The store is synchronous, so nothing runs between the read of the row and the guarded update: when
  the update of a pending row loses, the row the code reads again is that pending row.
\<close>

definition claimTurnRecoveryJob ::
  "int \<Rightarrow> owner_identity \<Rightarrow> string \<Rightarrow> int \<Rightarrow> int \<Rightarrow> db \<Rightarrow> (db \<times> claim_result) result" where
  "claimTurnRecoveryJob k owner token leaseSeconds now d =
     and_then (validatePositiveSafeInteger k ''Recovery job ID'') (\<lambda>_.
     and_then (validateTurnRecoveryOwnerIdentity owner) (\<lambda>_.
     and_then (validateRecoveryClaimToken token) (\<lambda>_.
     and_then (validateRecoveryLeaseSeconds leaseSeconds) (\<lambda>_.
     and_then (getOwnedTurnRecoveryJob k owner d) (\<lambda>before.
     if rj_state before = Js_blocked_unsafe
     then Inl (Error ''Recovery job is blocked unsafe pending an idempotency proof'')
     else if rj_state before = Js_claimed
     then and_then (held_claim token now before) (\<lambda>c. Inr (d, c))
     else if rj_state before = Js_completed then Inl (Error ''Recovery job is already completed'')
     else if rj_state before = Js_exhausted
     then Inl (Error ''Recovery job attempts are exhausted'')
     else let (d', won) = cas_job (claimable d owner now) (claim_row token leaseSeconds now) k d in
       if won then (let row = claim_row token leaseSeconds now before in
         Inr (d', \<lparr>cr_applied = True, cr_claimToken = token, cr_claimEpoch = rj_claim_epoch row,
           cr_attemptCount = rj_attempt_count row, cr_claimExpiresAt = rj_claim_expires_at row\<rparr>))
       else Inl (Error ''Recovery job is still in backoff''))))))"

text \<open>A claim that is still held: the row's token and epoch, and a lease that has not run out.\<close>

definition fence_holds :: "owner_identity \<Rightarrow> claim_fence \<Rightarrow> int \<Rightarrow> recovery_job \<Rightarrow> bool" where
  "fence_holds owner f now j \<longleftrightarrow> assigned_to owner j \<and> rj_state j = Js_claimed
     \<and> rj_claim_token j = Some (cf_claimToken f) \<and> rj_claim_epoch j = cf_claimEpoch f
     \<and> isRecoveryClaimUnexpired now j"

definition validate_fence :: "int \<Rightarrow> owner_identity \<Rightarrow> claim_fence \<Rightarrow> unit result" where
  "validate_fence k owner f =
     and_then (validatePositiveSafeInteger k ''Recovery job ID'') (\<lambda>_.
     and_then (validateTurnRecoveryOwnerIdentity owner) (\<lambda>_.
     and_then (validateRecoveryClaimToken (cf_claimToken f)) (\<lambda>_.
     validatePositiveSafeInteger (cf_claimEpoch f) ''Recovery claim epoch'')))"

definition renewTurnRecoveryClaim ::
  "int \<Rightarrow> owner_identity \<Rightarrow> claim_fence \<Rightarrow> int \<Rightarrow> int \<Rightarrow> db \<Rightarrow> (db \<times> int) result" where
  "renewTurnRecoveryClaim k owner f leaseSeconds now d =
     and_then (validate_fence k owner f) (\<lambda>_.
     and_then (validateRecoveryLeaseSeconds leaseSeconds) (\<lambda>_.
     (case getInternalTurnRecoveryJob k d of
        None \<Rightarrow> Inl (ClaimFenceError ''Recovery claim job no longer exists'')
      | Some owned \<Rightarrow>
          throw_if (\<not> assigned_to owner owned)
            (ClaimFenceError ''Recovery claim ownership no longer matches the renewing owner'')
            (let (d', won) = cas_job (fence_holds owner f now)
                 (\<lambda>j. j\<lparr>rj_claim_expires_at := Some (now + leaseSeconds)\<rparr>) k d in
             if won then Inr (d', now + leaseSeconds)
             else Inl (ClaimFenceError ''Recovery claim fence is stale or expired'')))))"

section \<open>Completion by the worker\<close>

definition delivery_terminal :: "outbound_op \<Rightarrow> bool" where
  "delivery_terminal o' \<longleftrightarrow> op_status o' \<in> {Os_echoed, Os_failed_permanent, Os_quarantined}"

definition source_terminal :: "db \<Rightarrow> recovery_job \<Rightarrow> bool" where
  "source_terminal d j \<longleftrightarrow> list_ex (\<lambda>i. ie_seq i = rj_source_inbound_seq j
     \<and> ie_processing_status i \<in> {Is_complete, Is_failed}) (inbound_events d)"

definition selected_delivery_terminal :: "db \<Rightarrow> recovery_job \<Rightarrow> bool" where
  "selected_delivery_terminal d j \<longleftrightarrow> list_ex (\<lambda>t. tt_id t = rj_terminal_record_id j
     \<and> tt_inbound_disposition t = ''transferred_to_recovery_owner'' \<and> tt_scope t = rj_scope j
     \<and> tt_inbound_seq t = Some (rj_source_inbound_seq j)
     \<and> tt_conversation_key t = rj_conversation_key j \<and> tt_delivery_jid t = rj_delivery_jid j
     \<and> list_ex (\<lambda>o'. tt_delivery_op_id t = Some (op_id o') \<and> outbound_link_ok j o'
          \<and> delivery_terminal o') (outbound_ops d)) (terminal_records d)"

definition worker_proof :: "int \<Rightarrow> int \<Rightarrow> string" where
  "worker_proof k epoch = ''worker-claim:'' @ int_str k @ '':'' @ int_str epoch"

definition complete_row :: "string \<Rightarrow> int \<Rightarrow> recovery_job \<Rightarrow> recovery_job" where
  "complete_row proof now j = j\<lparr>rj_state := Js_completed, rj_completed_at := Some now,
     rj_completion_kind := Some ''worker'', rj_completion_proof_id := Some proof\<rparr>"

definition completeTurnRecoveryJob ::
  "int \<Rightarrow> owner_identity \<Rightarrow> claim_fence \<Rightarrow> int \<Rightarrow> db \<Rightarrow> (db \<times> bool) result" where
  "completeTurnRecoveryJob k owner f now d =
     and_then (validate_fence k owner f) (\<lambda>_.
     and_then (getOwnedTurnRecoveryJob k owner d) (\<lambda>current.
     let (d', won) = cas_job (\<lambda>j. fence_holds owner f now j \<and> source_terminal d j
             \<and> selected_delivery_terminal d j) (complete_row (worker_proof k (cf_claimEpoch f)) now) k d in
     if won then Inr (d', True)
     else if rj_state current = Js_completed \<and> rj_claim_token current = Some (cf_claimToken f)
        \<and> rj_claim_epoch current = cf_claimEpoch f then Inr (d, False)
     else throw_if (rj_state current = Js_claimed \<and> rj_claim_token current = Some (cf_claimToken f)
         \<and> rj_claim_epoch current = cf_claimEpoch f \<and> isRecoveryClaimUnexpired now current
         \<and> \<not> source_terminal d current)
       (Error ''Recovery source inbound must be terminal before job completion'')
      (throw_if (rj_state current = Js_claimed \<and> rj_claim_token current = Some (cf_claimToken f)
         \<and> rj_claim_epoch current = cf_claimEpoch f \<and> isRecoveryClaimUnexpired now current
         \<and> (case valid_links d current of None \<Rightarrow> False
            | Some (t, i, o') \<Rightarrow> \<not> delivery_terminal o'))
       (Error ''Recovery selected delivery must have a terminal outcome before completion'')
       (Inl (Error ''Recovery claim fence does not match the current owner claim'')))))"

section \<open>Settlement by a late echo\<close>

record settlement =
  st_matched :: bool
  st_applied :: bool
  st_jobId :: "int option"
  st_state :: "job_state option"
  st_conflict :: bool

definition settle_inbound_row :: "int \<Rightarrow> inbound_event \<Rightarrow> inbound_event" where
  "settle_inbound_row now r = r\<lparr>ie_processing_status := Is_complete,
     ie_completed_at := (case ie_completed_at r of None \<Rightarrow> Some now | t \<Rightarrow> t),
     ie_terminal_reason := Some ''response_echoed''\<rparr>"

definition settle_source_statement :: "int \<Rightarrow> int \<Rightarrow> db \<Rightarrow> db \<times> bool" where
  "settle_source_statement k now = cas_inbound
     (\<lambda>r. ie_processing_status r \<in> {Is_processing, Is_turn_done}) (settle_inbound_row now) k"

definition completeEchoedTurnRecoveryInbound :: "int \<Rightarrow> int \<Rightarrow> db \<Rightarrow> (db \<times> bool) result" where
  "completeEchoedTurnRecoveryInbound k now d = unless_aborted (inbound_abort True
     (\<lambda>r. ie_processing_status r \<in> {Is_processing, Is_turn_done}) (settle_inbound_row now) k d)
     (settle_source_statement k now d)"

definition echo_token :: "int \<Rightarrow> string" where
  "echo_token opId = ''echo-delivery:'' @ int_str opId"

definition echo_proof :: "int \<Rightarrow> string" where
  "echo_proof opId = ''outbound-op:'' @ int_str opId"

definition echo_complete_row :: "int \<Rightarrow> int \<Rightarrow> recovery_job \<Rightarrow> recovery_job" where
  "echo_complete_row opId now j = j\<lparr>rj_state := Js_completed,
     rj_completed_at := (case rj_completed_at j of None \<Rightarrow> Some now | t \<Rightarrow> t),
     rj_attempt_count := (if rj_attempt_count j = 0 then 1 else rj_attempt_count j),
     rj_claim_epoch := (if rj_attempt_count j = 0 then 1 else rj_attempt_count j),
     rj_claim_token := Some (echo_token opId),
     rj_claimed_at := (case rj_claimed_at j of None \<Rightarrow> Some now | t \<Rightarrow> t),
     rj_claim_expires_at := Some (now + 300), rj_last_requeue_hash := None,
     rj_last_requeue_epoch := None, rj_last_requeue_backoff := None,
     rj_replay_safety_proof_id := (if rj_replay_safe j then rj_replay_safety_proof_id j
       else (case rj_replay_safety_proof_id j of None \<Rightarrow> Some (echo_token opId) | p \<Rightarrow> p)),
     rj_completion_kind := Some ''echo'', rj_completion_proof_id := Some (echo_proof opId)\<rparr>"

definition conflict_row :: "string \<Rightarrow> int \<Rightarrow> recovery_job \<Rightarrow> recovery_job" where
  "conflict_row reason now j = j\<lparr>
     rj_echo_conflict_at := (case rj_echo_conflict_at j of None \<Rightarrow> Some now | t \<Rightarrow> t),
     rj_echo_conflict_reason := (case rj_echo_conflict_reason j of None \<Rightarrow> Some reason | r \<Rightarrow> r)\<rparr>"

definition recordEchoedTurnRecoveryConflict :: "string \<Rightarrow> int \<Rightarrow> int \<Rightarrow> db \<Rightarrow> db" where
  "recordEchoedTurnRecoveryConflict reason k now d =
     fst (cas_job (\<lambda>j. True) (conflict_row reason now) k d)"

definition jid_namespace :: "string \<Rightarrow> string" where
  "jid_namespace jid = (let rest = dropWhile (\<lambda>c. c \<noteq> CHR ''@'') jid in
     if rest = [] then jid else tl rest)"

text \<open>The late completed identity of a checkpoint (\<^verbatim>\<open>src/core/turn-recovery-checkpoint-identity.ts\<close>).\<close>

definition identity_proof :: "db \<Rightarrow> int \<Rightarrow> recovery_job \<Rightarrow> completed_identity option" where
  "identity_proof d opId j = (case valid_links d j of None \<Rightarrow> None
     | Some (t, i, o') \<Rightarrow>
        if op_id o' = opId \<and> op_status o' = Os_echoed \<and> op_echoed_at o' \<noteq> None \<and> op_is_terminal o'
           \<and> list_ex (\<lambda>m. op_wa_message_id o' = Some (ms_message_id m) \<and> ms_is_from_me m
               \<and> ms_conversation_key m = op_conversation_key o' \<and> ms_chat_jid m = op_chat_jid o')
               (messages d)
           \<and> length (filter (\<lambda>x. op_wa_message_id x = op_wa_message_id o') (outbound_ops d)) = 1
           \<and> tt_scope t = ''per_chat'' \<and> tt_attempt_kind t = ''completed''
           \<and> rj_state j = Js_completed \<and> rj_completion_kind j = Some ''echo''
           \<and> rj_completion_proof_id j = Some (echo_proof opId) \<and> rj_echo_conflict_at j = None
           \<and> ie_processing_status i = Is_complete
           \<and> ie_terminal_reason i = Some ''response_echoed''
        then (case tt_inbound_seq t of None \<Rightarrow> None | Some n \<Rightarrow> Some
          \<lparr>ci_inbound_seq = n, ci_delivery_jid = tt_delivery_jid t,
           ci_delivery_namespace = jid_namespace (tt_delivery_jid t), ci_scope = tt_scope t,
           ci_logical_turn_id = tt_logical_turn_id t, ci_manager_id = tt_manager_id t,
           ci_generation = tt_generation t\<rparr>) else None)"

definition checkpoint_accepts ::
  "db \<Rightarrow> int \<Rightarrow> string \<Rightarrow> completed_identity \<Rightarrow> checkpoint \<Rightarrow> bool" where
  "checkpoint_accepts d opId conversationKey proof c \<longleftrightarrow> cp_conversation_key c = conversationKey
     \<and> cp_last_inbound_seq c = Some (ci_inbound_seq proof)
     \<and> cp_last_flushed_outbound_id c = Some opId \<and> cp_active_turn_id c = None
     \<and> cp_session_status c \<in> {''active'', ''suspended'', ''orphaned''}
     \<and> list_ex (\<lambda>s. as_session_id s \<noteq> None \<and> as_session_id s = cp_session_id c
         \<and> as_workspace_key s = Some (cp_conversation_key c)
         \<and> as_status s \<in> {''active'', ''suspended''}) (agent_sessions d)
     \<and> (case cp_completed c of None \<Rightarrow> True | Some ci \<Rightarrow> ci_inbound_seq ci < ci_inbound_seq proof)"

definition promoteEchoedCheckpointIdentity :: "int \<Rightarrow> db \<Rightarrow> db" where
  "promoteEchoedCheckpointIdentity opId d =
     (case find (\<lambda>j. identity_proof d opId j \<noteq> None) (recovery_jobs d) of None \<Rightarrow> d
      | Some j \<Rightarrow> (case identity_proof d opId j of None \<Rightarrow> d
         | Some proof \<Rightarrow> d\<lparr>checkpoints := update_rows
             (checkpoint_accepts d opId (rj_conversation_key j) proof)
             (\<lambda>c. c\<lparr>cp_completed := Some proof, cp_version := cp_version c + 1\<rparr>) (checkpoints d)\<rparr>))"

definition echoed_job_for :: "int \<Rightarrow> db \<Rightarrow> recovery_job option" where
  "echoed_job_for opId d = find (\<lambda>j. case valid_links d j of None \<Rightarrow> False
     | Some (t, i, o') \<Rightarrow> op_id o' = opId) (recovery_jobs d)"

definition settleEchoedTurnRecoveryJob :: "int \<Rightarrow> int \<Rightarrow> db \<Rightarrow> (db \<times> settlement) result" where
  "settleEchoedTurnRecoveryJob opId now d =
     and_then (validatePositiveSafeInteger opId ''Recovery outbound op ID'') (\<lambda>_.
     (case echoed_job_for opId d of
       None \<Rightarrow> Inr (d, \<lparr>st_matched = False, st_applied = False, st_jobId = None, st_state = None,
         st_conflict = False\<rparr>)
     | Some j \<Rightarrow> (case valid_links d j of
         None \<Rightarrow> Inr (d, \<lparr>st_matched = False, st_applied = False, st_jobId = None, st_state = None,
           st_conflict = False\<rparr>)
       | Some (t, i, o') \<Rightarrow>
         let settled = (ie_processing_status i = Is_complete
               \<and> ie_terminal_reason i = Some ''response_echoed'');
             answer = (\<lambda>applied st conflict. \<lparr>st_matched = True, st_applied = applied,
               st_jobId = Some (rj_id j), st_state = Some st, st_conflict = conflict\<rparr>) in
         throw_if (op_status o' \<noteq> Os_echoed)
           (Error ''Recovery delivery must be echoed before settlement'')
          (if rj_state j = Js_completed then
             (if \<not> settled
              then Inr (recordEchoedTurnRecoveryConflict ''completed_job_source_conflict'' (rj_id j) now d,
                        answer False Js_completed True)
              else Inr (d, answer False Js_completed False))
           else if \<not> settled \<and> ie_processing_status i \<notin> {Is_processing, Is_turn_done}
           then Inr (recordEchoedTurnRecoveryConflict ''open_job_source_not_echo_settleable'' (rj_id j) now d,
                     answer False (rj_state j) True)
           else and_then (if settled then Inr (d, True)
                   else completeEchoedTurnRecoveryInbound (ie_seq i) now d) (\<lambda>(d1, inbound_ok).
             let (d2, job_ok) = cas_job (\<lambda>r. rj_state r \<noteq> Js_completed)
                   (echo_complete_row opId now) (rj_id j) d1 in
             throw_if (\<not> inbound_ok)
               (Error ''Echoed recovery settlement did not update exactly one source inbound'')
            (throw_if (\<not> job_ok)
               (Error ''Echoed recovery job settlement did not update exactly one row'')
               (Inr (promoteEchoedCheckpointIdentity opId d2, answer True Js_completed False))))))))"

definition getUnsettledEchoedTurnRecoveryOpIds :: "nat \<Rightarrow> db \<Rightarrow> int list" where
  "getUnsettledEchoedTurnRecoveryOpIds limit d = take limit (sort (concat (map (\<lambda>j.
     case valid_links d j of None \<Rightarrow> [] | Some (t, i, o') \<Rightarrow>
       if op_status o' = Os_echoed \<and> (rj_state j \<noteq> Js_completed
            \<or> ie_processing_status i \<noteq> Is_complete
            \<or> (case ie_terminal_reason i of None \<Rightarrow> False | Some r \<Rightarrow> r \<noteq> ''response_echoed''))
          \<and> rj_echo_conflict_at j = None
       then [op_id o'] else []) (recovery_jobs d))))"

section \<open>Requeue, recovery of stale claims, reclaim\<close>

record requeue_result =
  rq_applied :: bool
  rq_state :: job_state
  rq_attemptCount :: int

definition getIdempotentRequeueResult ::
  "(string \<Rightarrow> string) \<Rightarrow> recovery_job \<Rightarrow> claim_fence \<Rightarrow> int \<Rightarrow> requeue_result option result" where
  "getIdempotentRequeueResult hash j f backoff =
     (if rj_state j \<noteq> Js_pending \<and> rj_state j \<noteq> Js_exhausted then Inr None
      else if rj_last_requeue_hash j \<noteq> Some (hash (cf_claimToken f))
          \<or> rj_last_requeue_epoch j \<noteq> Some (cf_claimEpoch f) then Inr None
      else throw_if (rj_last_requeue_backoff j \<noteq> Some backoff)
        (Error ''Recovery requeue retry supplied a different backoff'')
        (Inr (Some \<lparr>rq_applied = False, rq_state = rj_state j, rq_attemptCount = rj_attempt_count j\<rparr>)))"

definition requeue_row :: "string \<Rightarrow> int \<Rightarrow> int \<Rightarrow> recovery_job \<Rightarrow> recovery_job" where
  "requeue_row h backoff now j = j\<lparr>
     rj_state := (if rj_attempt_count j \<ge> TURN_RECOVERY_MAX_ATTEMPTS then Js_exhausted else Js_pending),
     rj_claim_token := None, rj_claimed_at := None, rj_claim_expires_at := None,
     rj_last_requeue_hash := Some h, rj_last_requeue_epoch := Some (rj_claim_epoch j),
     rj_last_requeue_backoff := Some backoff,
     rj_next_attempt_at := (if rj_attempt_count j \<ge> TURN_RECOVERY_MAX_ATTEMPTS then now else now + backoff)\<rparr>"

definition requeueTurnRecoveryJob ::
  "(string \<Rightarrow> string) \<Rightarrow> int \<Rightarrow> owner_identity \<Rightarrow> claim_fence \<Rightarrow> int \<Rightarrow> int \<Rightarrow> db
     \<Rightarrow> (db \<times> requeue_result) result" where
  "requeueTurnRecoveryJob hash k owner f backoff now d =
     and_then (validate_fence k owner f) (\<lambda>_.
     and_then (validateRecoveryBackoffSeconds backoff) (\<lambda>_.
     and_then (getOwnedTurnRecoveryJob k owner d) (\<lambda>before.
     and_then (getIdempotentRequeueResult hash before f backoff) (\<lambda>again. case again of
       Some r \<Rightarrow> Inr (d, r)
     | None \<Rightarrow>
         let (d', won) = cas_job (fence_holds owner f now)
               (requeue_row (hash (cf_claimToken f)) backoff now) k d in
         if won then (let row = requeue_row (hash (cf_claimToken f)) backoff now before in
           Inr (d', \<lparr>rq_applied = True, rq_state = rj_state row, rq_attemptCount = rj_attempt_count row\<rparr>))
         else Inl (Error ''Recovery claim fence does not match the current owner claim'')))))"

definition getStaleTurnRecoveryJobs :: "nat \<Rightarrow> int \<Rightarrow> db \<Rightarrow> recovery_job list" where
  "getStaleTurnRecoveryJobs limit now d = take limit (sort_key rj_id (filter (\<lambda>j.
     rj_state j = Js_claimed \<and> (case rj_claim_expires_at j of None \<Rightarrow> False | Some t \<Rightarrow> t \<le> now)
     \<and> valid_links d j \<noteq> None) (recovery_jobs d)))"

definition stale_guard :: "string \<Rightarrow> int \<Rightarrow> recovery_job \<Rightarrow> bool" where
  "stale_guard token epoch j \<longleftrightarrow> rj_state j = Js_claimed \<and> rj_claim_token j = Some token
     \<and> rj_claim_epoch j = epoch"

definition stale_row :: "job_state \<Rightarrow> string \<Rightarrow> int \<Rightarrow> recovery_job \<Rightarrow> recovery_job" where
  "stale_row st h now j = j\<lparr>rj_state := st, rj_claim_token := None, rj_claimed_at := None,
     rj_claim_expires_at := None, rj_last_requeue_hash := Some h,
     rj_last_requeue_epoch := Some (rj_claim_epoch j), rj_last_requeue_backoff := Some 0,
     rj_next_attempt_at := now\<rparr>"

fun recover_stale ::
  "(string \<Rightarrow> string) \<Rightarrow> recovery_job list \<Rightarrow> int \<Rightarrow> nat \<times> nat \<Rightarrow> db \<Rightarrow> db \<times> nat \<times> nat" where
  "recover_stale hash [] now (q, e) d = (d, q, e)"
| "recover_stale hash (j # js) now (q, e) d = (case rj_claim_token j of
     None \<Rightarrow> recover_stale hash js now (q, e) d
   | Some token \<Rightarrow>
       if rj_attempt_count j \<ge> TURN_RECOVERY_MAX_ATTEMPTS
       then (let (d', won) = cas_job (\<lambda>r. stale_guard token (rj_claim_epoch j) r
                    \<and> rj_attempt_count r \<ge> TURN_RECOVERY_MAX_ATTEMPTS)
                  (stale_row Js_exhausted (hash token) now) (rj_id j) d in
             recover_stale hash js now (q, if won then e + 1 else e) d')
       else (let (d', won) = cas_job (\<lambda>r. stale_guard token (rj_claim_epoch j) r
                    \<and> rj_attempt_count r < TURN_RECOVERY_MAX_ATTEMPTS)
                  (stale_row Js_pending (hash token) now) (rj_id j) d in
             recover_stale hash js now (if won then q + 1 else q, e) d'))"

definition recoverStaleTurnRecoveryJobs ::
  "(string \<Rightarrow> string) \<Rightarrow> int \<Rightarrow> int \<Rightarrow> db \<Rightarrow> (db \<times> nat \<times> nat) result" where
  "recoverStaleTurnRecoveryJobs hash limit now d =
     throw_if (\<not> safe_integer limit \<or> limit < 1 \<or> limit > 200)
       (Error ''Stale recovery limit must be between 1 and 200'')
       (Inr (recover_stale hash (getStaleTurnRecoveryJobs (nat limit) now d) now (0, 0) d))"

definition reclaim_row :: "int \<Rightarrow> recovery_job \<Rightarrow> recovery_job" where
  "reclaim_row now j = j\<lparr>rj_state := Js_exhausted, rj_attempt_count := 5, rj_claim_epoch := 5,
     rj_claim_token := None, rj_claimed_at := None, rj_claim_expires_at := None,
     rj_last_requeue_hash := None, rj_last_requeue_epoch := None, rj_last_requeue_backoff := None,
     rj_next_attempt_at := now\<rparr>"

definition reclaimDeadDeliveryRecoveryJob :: "int \<Rightarrow> int \<Rightarrow> db \<Rightarrow> (db \<times> bool) result" where
  "reclaimDeadDeliveryRecoveryJob k now d =
     and_then (validatePositiveSafeInteger k ''Recovery job ID'') (\<lambda>_.
     Inr (cas_job (\<lambda>j. rj_state j \<in> {Js_pending, Js_claimed}) (reclaim_row now) k d))"

section \<open>Reassignment and promotion\<close>

definition reassign_row :: "owner_identity \<Rightarrow> recovery_job \<Rightarrow> recovery_job" where
  "reassign_row owner j = j\<lparr>rj_assigned_logical_turn_id := oi_logicalTurnId owner,
     rj_assigned_manager_id := oi_managerId owner, rj_assigned_generation := oi_generation owner,
     rj_assignment_epoch := rj_assignment_epoch j + 1\<rparr>"

definition epochs_match :: "assignment_fence \<Rightarrow> recovery_job \<Rightarrow> bool" where
  "epochs_match f j \<longleftrightarrow> rj_claim_epoch j = af_claimEpoch f \<and> rj_assignment_epoch j = af_assignmentEpoch f"

definition is_source :: "owner_identity \<Rightarrow> recovery_job \<Rightarrow> bool" where
  "is_source owner j \<longleftrightarrow> rj_source_logical_turn_id j = oi_logicalTurnId owner
     \<and> rj_source_manager_id j = oi_managerId owner \<and> rj_source_generation j = oi_generation owner"

text \<open>The answer is whether the call changed the row, and the assignment epoch it leaves.\<close>

definition reassignTurnRecoveryJobInState ::
  "int \<Rightarrow> owner_identity \<Rightarrow> owner_identity \<Rightarrow> assignment_fence \<Rightarrow> job_state
     \<Rightarrow> (recovery_job \<Rightarrow> bool) \<Rightarrow> string \<Rightarrow> string \<Rightarrow> db \<Rightarrow> (db \<times> bool \<times> int) result" where
  "reassignTurnRecoveryJobInState k currentOwner newOwner f requiredState statementGuard
       wrongStateMessage fenceLostMessage d =
     and_then (validatePositiveSafeInteger k ''Recovery job ID'') (\<lambda>_.
     and_then (validateTurnRecoveryOwnerIdentity currentOwner) (\<lambda>_.
     and_then (validateTurnRecoveryOwnerIdentity newOwner) (\<lambda>_.
     and_then (validateRecoveryAssignmentFence f) (\<lambda>_.
     (case getInternalTurnRecoveryJob k d of
        None \<Rightarrow> Inl (Error ''Recovery job does not exist'')
      | Some current \<Rightarrow>
          throw_if (is_source newOwner current)
            (Error ''Recovery source and assigned owner identities must differ'')
           (if rj_state current = requiredState \<and> assigned_to newOwner current
               \<and> rj_claim_epoch current = af_claimEpoch f
               \<and> rj_assignment_epoch current = af_assignmentEpoch f + 1
            then Inr (d, False, rj_assignment_epoch current)
            else throw_if (\<not> assigned_to currentOwner current)
              (Error ''Recovery job may only be changed by its assigned recovery owner'')
             (throw_if (rj_state current \<noteq> requiredState) (Error wrongStateMessage)
               (let (d', won) = cas_job (\<lambda>j. assigned_to currentOwner j \<and> statementGuard j
                        \<and> rj_claim_token j = None \<and> epochs_match f j) (reassign_row newOwner) k d in
                if won then Inr (d', True, rj_assignment_epoch current + 1)
                else Inl (Error fenceLostMessage)))))))))"

definition reassignPendingTurnRecoveryJob ::
  "int \<Rightarrow> owner_identity \<Rightarrow> owner_identity \<Rightarrow> assignment_fence \<Rightarrow> db \<Rightarrow> (db \<times> bool \<times> int) result" where
  "reassignPendingTurnRecoveryJob k currentOwner newOwner f =
     reassignTurnRecoveryJobInState k currentOwner newOwner f Js_pending
       (\<lambda>j. rj_state j = Js_pending)
       ''Only pending recovery work can be reassigned''
       ''Recovery reassignment lost its pending epoch fence''"

definition reassignBlockedTurnRecoveryJob ::
  "int \<Rightarrow> owner_identity \<Rightarrow> owner_identity \<Rightarrow> assignment_fence \<Rightarrow> db \<Rightarrow> (db \<times> bool \<times> int) result" where
  "reassignBlockedTurnRecoveryJob k currentOwner newOwner f =
     reassignTurnRecoveryJobInState k currentOwner newOwner f Js_blocked_unsafe
       (\<lambda>j. rj_state j = Js_blocked_unsafe \<and> \<not> rj_replay_safe j \<and> rj_replay_safety_proof_id j = None)
       ''Only blocked unsafe recovery work can use blocked reassignment''
       ''Blocked recovery reassignment lost its epoch fence''"

definition promote_row :: "string \<Rightarrow> int \<Rightarrow> recovery_job \<Rightarrow> recovery_job" where
  "promote_row proof now j = j\<lparr>rj_state := Js_pending, rj_replay_safety_proof_id := Some proof,
     rj_next_attempt_at := now\<rparr>"

definition promoteBlockedTurnRecoveryJob ::
  "int \<Rightarrow> owner_identity \<Rightarrow> assignment_fence \<Rightarrow> string \<Rightarrow> int \<Rightarrow> db \<Rightarrow> (db \<times> bool \<times> int) result" where
  "promoteBlockedTurnRecoveryJob k owner f proof now d =
     and_then (validatePositiveSafeInteger k ''Recovery job ID'') (\<lambda>_.
     and_then (validateTurnRecoveryOwnerIdentity owner) (\<lambda>_.
     and_then (validateRecoveryAssignmentFence f) (\<lambda>_.
     and_then (validate_id proof ''Recovery idempotency proof ID'') (\<lambda>_.
     and_then (getOwnedTurnRecoveryJob k owner d) (\<lambda>before.
     if rj_state before = Js_pending \<and> \<not> rj_replay_safe before
     then (if rj_replay_safety_proof_id before = Some proof \<and> epochs_match f before
           then Inr (d, False, rj_assignment_epoch before)
           else if rj_replay_safety_proof_id before = Some proof
           then Inl (Error ''Blocked recovery proof promotion lost its epoch fence'')
           else Inl (Error ''Recovery work was promoted with a different idempotency proof''))
     else throw_if (rj_state before \<noteq> Js_blocked_unsafe)
       (Error ''Only blocked unsafe recovery work can be proof-promoted'')
       (let (d', won) = cas_job (\<lambda>j. assigned_to owner j \<and> rj_state j = Js_blocked_unsafe
                \<and> \<not> rj_replay_safe j \<and> rj_replay_safety_proof_id j = None \<and> rj_attempt_count j = 0
                \<and> rj_claim_token j = None \<and> epochs_match f j) (promote_row proof now) k d in
        if won then Inr (d', True, rj_assignment_epoch before)
        else Inl (Error ''Blocked recovery proof promotion lost its epoch fence'')))))))"

section \<open>Enumeration and admission\<close>

record enumeration_page =
  ep_jobs :: "recovery_job list"
  ep_nextCursor :: "int option"
  ep_scanComplete :: bool

definition toRecoveryEnumerationPage :: "recovery_job list \<Rightarrow> nat \<Rightarrow> enumeration_page" where
  "toRecoveryEnumerationPage rows limit =
     (let scanComplete = length rows \<le> limit; js = take limit rows in
      \<lparr>ep_jobs = js,
       ep_nextCursor = (if scanComplete \<or> js = [] then None else Some (rj_id (last js))),
       ep_scanComplete = scanComplete\<rparr>)"

definition getRecoverableTurnRecoveryJobs ::
  "owner_identity \<Rightarrow> int \<Rightarrow> int \<Rightarrow> db \<Rightarrow> enumeration_page result" where
  "getRecoverableTurnRecoveryJobs owner limit afterId d =
     and_then (validateTurnRecoveryOwnerIdentity owner) (\<lambda>_.
     throw_if (\<not> safe_integer limit \<or> limit < 1 \<or> limit > 200)
       (Error ''Recovery enumeration limit must be between 1 and 200'')
    (throw_if (\<not> safe_integer afterId \<or> afterId < 0)
       (Error ''Recovery enumeration cursor must be a nonnegative safe integer'')
       (Inr (toRecoveryEnumerationPage (take (nat limit + 1) (sort_key rj_id (filter (\<lambda>j.
          assigned_to owner j \<and> afterId < rj_id j \<and> rj_state j \<in> {Js_pending, Js_claimed}
          \<and> valid_links d j \<noteq> None \<and> \<not> validDeliveryCorroborationForJob d j) (recovery_jobs d))))
          (nat limit)))))"

definition getOutstandingTurnRecoveryJobsForSupervisor ::
  "int \<Rightarrow> int \<Rightarrow> int \<Rightarrow> db \<Rightarrow> enumeration_page result" where
  "getOutstandingTurnRecoveryJobsForSupervisor limit afterId now d =
     throw_if (\<not> safe_integer limit \<or> limit < 1 \<or> limit > 200)
       (Error ''Supervisor recovery enumeration limit must be between 1 and 200'')
    (throw_if (\<not> safe_integer afterId \<or> afterId < 0)
       (Error ''Supervisor recovery cursor must be a nonnegative safe integer'')
       (Inr (toRecoveryEnumerationPage (take (nat limit + 1) (sort_key rj_id (filter (\<lambda>j.
          afterId < rj_id j
          \<and> (rj_state j \<in> {Js_blocked_unsafe, Js_pending, Js_exhausted}
             \<or> rj_state j = Js_claimed
               \<and> (case rj_claim_expires_at j of None \<Rightarrow> False | Some t \<Rightarrow> t \<le> now))
          \<and> valid_links d j \<noteq> None \<and> \<not> validDeliveryCorroborationForJob d j) (recovery_jobs d))))
          (nat limit))))"

datatype admission_state = Clear | Awaiting_delivery_echo | Blocked

text \<open>
  The outstanding work of a scope: open jobs without corroborated delivery, and transferred terminal
  records that never got a job. The second component is the job, if there is one.
\<close>

definition outstanding_for_scope ::
  "string \<Rightarrow> string \<Rightarrow> int option \<Rightarrow> db \<Rightarrow> recovery_job option list" where
  "outstanding_for_scope sc conversationKey excluded d =
     map Some (filter (\<lambda>j. rj_state j \<in> {Js_pending, Js_claimed}
         \<and> \<not> validDeliveryCorroborationForJob d j \<and> rj_scope j = sc
         \<and> (sc \<noteq> ''per_chat'' \<or> rj_conversation_key j = conversationKey)
         \<and> excluded \<noteq> Some (rj_id j)) (recovery_jobs d))
     @ map (\<lambda>_. None) (filter (\<lambda>t. tt_inbound_disposition t = ''transferred_to_recovery_owner''
         \<and> \<not> list_ex (\<lambda>j. rj_terminal_record_id j = tt_id t) (recovery_jobs d)
         \<and> \<not> validDeliveryCorroborationForTerminal d t \<and> tt_scope t = sc
         \<and> (sc \<noteq> ''per_chat'' \<or> tt_conversation_key t = conversationKey)) (terminal_records d))"

definition awaiting_echo :: "db \<Rightarrow> recovery_job \<Rightarrow> bool" where
  "awaiting_echo d j \<longleftrightarrow> rj_state j = Js_pending \<and> (case valid_links d j of None \<Rightarrow> False
     | Some (t, i, o') \<Rightarrow> tt_attempt_kind t = ''completed'' \<and> tt_delivery_kind t = ''flushed''
         \<and> op_status o' = Os_submitted)"

definition validateRecoveryScopeQuery :: "string \<Rightarrow> int option \<Rightarrow> unit result" where
  "validateRecoveryScopeQuery conversationKey excluded =
     and_then (validate_id conversationKey ''Recovery conversation key'') (\<lambda>_.
     (case excluded of None \<Rightarrow> Inr () | Some k \<Rightarrow> validatePositiveSafeInteger k ''Recovery job ID''))"

definition getTurnRecoveryAdmissionStateForScope ::
  "string \<Rightarrow> string \<Rightarrow> int option \<Rightarrow> db \<Rightarrow> admission_state result" where
  "getTurnRecoveryAdmissionStateForScope sc conversationKey excluded d =
     and_then (validateRecoveryScopeQuery conversationKey excluded) (\<lambda>_.
     let work = outstanding_for_scope sc conversationKey excluded d;
         awaiting = filter (\<lambda>j. case j of None \<Rightarrow> False | Some j \<Rightarrow> awaiting_echo d j) work in
     Inr (if work = [] then Clear
          else if length work = length awaiting then Awaiting_delivery_echo else Blocked))"

definition hasOutstandingTurnRecoveryForScope ::
  "string \<Rightarrow> string \<Rightarrow> int option \<Rightarrow> db \<Rightarrow> bool result" where
  "hasOutstandingTurnRecoveryForScope sc conversationKey excluded d =
     and_then (validateRecoveryScopeQuery conversationKey excluded) (\<lambda>_.
     Inr (outstanding_for_scope sc conversationKey excluded d \<noteq> []))"

definition getNewestInboundSeqForConversation :: "string \<Rightarrow> db \<Rightarrow> int option" where
  "getNewestInboundSeqForConversation conversationKey d =
     (let ks = map ie_seq (filter (\<lambda>r. ie_conversation_key r = conversationKey) (inbound_events d)) in
      if ks = [] then None else Some (fold max ks (hd ks)))"

end
