(* ===== verification/JobLaws.thy ===== *)
theory JobLaws
  imports Jobs
begin

text \<open>
  What keeps a recovery job sound: the CHECK constraints of the job table
  (\<^verbatim>\<open>src/core/database-migrations-37-40.ts\<close>), which every operation of the store satisfies by itself,
  and the laws of the lease: one holder at a time, at most five claims, no stale fence accepted, no
  replay of unsafe work without a proof, and settlement by an echo once.
\<close>

section \<open>The CHECK constraints of the table\<close>

definition required_identity :: "string \<Rightarrow> bool" where
  "required_identity s \<longleftrightarrow> list_ex (\<lambda>c. (of_char c :: nat) \<notin> {9, 10, 13, 32}) s"

definition hex64 :: "string \<Rightarrow> bool" where
  "hex64 s \<longleftrightarrow> length s = 64 \<and> set s \<subseteq> set ''0123456789abcdef''"

definition hex_digest :: "(string \<Rightarrow> string) \<Rightarrow> bool" where
  "hex_digest h \<longleftrightarrow> (\<forall>s. hex64 (h s))"

definition epochs_coherent :: "recovery_job \<Rightarrow> bool" where
  "epochs_coherent j \<longleftrightarrow> 0 \<le> rj_attempt_count j \<and> rj_attempt_count j \<le> 5
     \<and> rj_claim_epoch j = rj_attempt_count j \<and> 0 \<le> rj_assignment_epoch j"

definition replay_safe_coherent :: "recovery_job \<Rightarrow> bool" where
  "replay_safe_coherent j \<longleftrightarrow> \<not> rj_replay_safe j \<or> rj_replay_safety_proof_id j = None"

definition last_requeue_coherent :: "recovery_job \<Rightarrow> bool" where
  "last_requeue_coherent j \<longleftrightarrow>
     rj_last_requeue_hash j = None \<and> rj_last_requeue_epoch j = None \<and> rj_last_requeue_backoff j = None
     \<or> rj_state j \<in> {Js_pending, Js_exhausted}
       \<and> (case rj_last_requeue_hash j of None \<Rightarrow> False | Some h \<Rightarrow> hex64 h)
       \<and> rj_last_requeue_epoch j = Some (rj_claim_epoch j)
       \<and> 1 \<le> rj_claim_epoch j \<and> rj_claim_epoch j \<le> 5
       \<and> (case rj_last_requeue_backoff j of None \<Rightarrow> False | Some b \<Rightarrow> 0 \<le> b \<and> b \<le> 3600)"

definition replay_proved :: "recovery_job \<Rightarrow> bool" where
  "replay_proved j \<longleftrightarrow> rj_replay_safe j
     \<or> (case rj_replay_safety_proof_id j of None \<Rightarrow> False | Some p \<Rightarrow> required_identity p)"

definition lease_absent :: "recovery_job \<Rightarrow> bool" where
  "lease_absent j \<longleftrightarrow> rj_claim_token j = None \<and> rj_claimed_at j = None \<and> rj_claim_expires_at j = None"

definition lease_present :: "recovery_job \<Rightarrow> bool" where
  "lease_present j \<longleftrightarrow> (case rj_claim_token j of None \<Rightarrow> False | Some t \<Rightarrow> required_identity t)
     \<and> rj_claimed_at j \<noteq> None \<and> rj_claim_expires_at j \<noteq> None"

definition state_coherent :: "recovery_job \<Rightarrow> bool" where
  "state_coherent j \<longleftrightarrow> (case rj_state j of
     Js_blocked_unsafe \<Rightarrow> \<not> rj_replay_safe j \<and> rj_replay_safety_proof_id j = None
       \<and> rj_attempt_count j = 0 \<and> lease_absent j \<and> rj_completed_at j = None
   | Js_pending \<Rightarrow> rj_attempt_count j < 5 \<and> replay_proved j \<and> lease_absent j \<and> rj_completed_at j = None
   | Js_claimed \<Rightarrow> 1 \<le> rj_attempt_count j \<and> rj_attempt_count j \<le> 5 \<and> replay_proved j
       \<and> lease_present j \<and> rj_completed_at j = None
   | Js_completed \<Rightarrow> 1 \<le> rj_attempt_count j \<and> rj_attempt_count j \<le> 5 \<and> replay_proved j
       \<and> lease_present j \<and> rj_completed_at j \<noteq> None
   | Js_exhausted \<Rightarrow> rj_attempt_count j = 5 \<and> replay_proved j \<and> lease_absent j
       \<and> rj_completed_at j = None)"

definition group_coherent :: "recovery_job \<Rightarrow> bool" where
  "group_coherent j \<longleftrightarrow> rj_is_group j \<or> rj_group_name j = None"

definition job_coherent :: "recovery_job \<Rightarrow> bool" where
  "job_coherent j \<longleftrightarrow> epochs_coherent j \<and> replay_safe_coherent j \<and> last_requeue_coherent j
     \<and> state_coherent j \<and> group_coherent j"

definition jobs_coherent :: "db \<Rightarrow> bool" where
  "jobs_coherent d \<longleftrightarrow> (\<forall>j \<in> set (recovery_jobs d). job_coherent j)"

lemmas coherent_defs = job_coherent_def epochs_coherent_def replay_safe_coherent_def
  last_requeue_coherent_def state_coherent_def group_coherent_def replay_proved_def lease_absent_def
  lease_present_def

text \<open>A text that \<^verbatim>\<open>trim\<close> leaves nonempty also passes the table's weaker check.\<close>

lemma blank_ascii: "\<forall>c \<in> set bs. c \<in> {9, 10, 13, 32} \<Longrightarrow> blank_bytes bs"
proof (induction bs)
  case (Cons b bs)
  from Cons.prems have "b = 9 \<or> b = 10 \<or> b = 13 \<or> b = 32" by simp
  then have lead: "leading_space (b # bs) = Some [b]"
    by (elim disjE) (simp_all add: leading_space_def WHITE_SPACE_def)
  have "blank_bytes bs" using Cons.prems by (intro Cons.IH) simp
  then show ?case by (simp add: blank_bytes.simps [of "b # bs"] lead)
qed simp

lemma nonempty_required: "isNonEmptyString s \<Longrightarrow> required_identity s"
proof (rule ccontr)
  assume ne: "isNonEmptyString s" and "\<not> required_identity s"
  then have "\<forall>c \<in> set (map of_char s). (c :: nat) \<in> {9, 10, 13, 32}"
    unfolding required_identity_def list_ex_iff by (simp only: set_map) blast
  from blank_ascii [OF this] ne show False by (simp add: isNonEmptyString_def)
qed

lemma validate_id_iff [result_simps]: "validate_id v label = Inr u \<longleftrightarrow> bounded_id v"
  by (simp add: validate_id_def result_simps)

lemma echo_token_required: "required_identity (echo_token opId)"
  by (simp add: required_identity_def echo_token_def)

section \<open>The rows the operations write\<close>

lemma coherent_cong:
  assumes "rj_attempt_count j' = rj_attempt_count j" "rj_claim_epoch j' = rj_claim_epoch j"
    "rj_replay_safe j' = rj_replay_safe j" "rj_replay_safety_proof_id j' = rj_replay_safety_proof_id j"
    "rj_last_requeue_hash j' = rj_last_requeue_hash j"
    "rj_last_requeue_epoch j' = rj_last_requeue_epoch j"
    "rj_last_requeue_backoff j' = rj_last_requeue_backoff j" "rj_state j' = rj_state j"
    "rj_claim_token j' = rj_claim_token j" "rj_claimed_at j' = rj_claimed_at j"
    "rj_claim_expires_at j' = rj_claim_expires_at j" "rj_completed_at j' = rj_completed_at j"
    "rj_is_group j' = rj_is_group j" "rj_group_name j' = rj_group_name j"
    and "0 \<le> rj_assignment_epoch j'" "job_coherent j"
  shows "job_coherent j'"
  using assms(15,16) unfolding coherent_defs assms(1-14) by (elim conjE, intro conjI) assumption+

lemma claim_row_coherent:
  "claimable d owner now j \<Longrightarrow> job_coherent j \<Longrightarrow> bounded_id token \<Longrightarrow> job_coherent (claim_row token l now j)"
  by (auto simp: coherent_defs claimable_def claim_row_def TURN_RECOVERY_MAX_ATTEMPTS_def bounded_id_def
      nonempty_required)

lemma renew_row_coherent:
  "fence_holds owner f now j \<Longrightarrow> job_coherent j \<Longrightarrow> job_coherent (j\<lparr>rj_claim_expires_at := Some t\<rparr>)"
  by (auto simp: coherent_defs fence_holds_def split: job_state.splits)

lemma complete_row_coherent:
  "fence_holds owner f now j \<Longrightarrow> job_coherent j \<Longrightarrow> job_coherent (complete_row p now j)"
  by (auto simp: coherent_defs fence_holds_def complete_row_def)

lemma echo_complete_row_coherent:
  assumes "job_coherent j" "rj_state j \<noteq> Js_completed"
  shows "job_coherent (echo_complete_row opId now j)"
  using assms echo_token_required [of opId]
  by (cases "rj_state j") (auto simp: coherent_defs echo_complete_row_def split: option.splits)

lemma conflict_row_coherent: "job_coherent j \<Longrightarrow> job_coherent (conflict_row reason now j)"
  by (rule coherent_cong [of _ j]) (simp_all add: conflict_row_def job_coherent_def epochs_coherent_def)

lemma requeue_row_coherent:
  "fence_holds owner f now j \<Longrightarrow> job_coherent j \<Longrightarrow> hex64 h \<Longrightarrow> 0 \<le> b \<Longrightarrow> b \<le> 3600 \<Longrightarrow>
   job_coherent (requeue_row h b now j)"
  by (auto simp: coherent_defs fence_holds_def requeue_row_def TURN_RECOVERY_MAX_ATTEMPTS_def)

lemma stale_row_coherent:
  "rj_state j = Js_claimed \<Longrightarrow> job_coherent j \<Longrightarrow> hex64 h \<Longrightarrow>
   st = (if rj_attempt_count j \<ge> 5 then Js_exhausted else Js_pending) \<Longrightarrow>
   job_coherent (stale_row st h now j)"
  by (auto simp: coherent_defs stale_row_def)

lemma reclaim_row_coherent:
  "rj_state j \<in> {Js_pending, Js_claimed} \<Longrightarrow> job_coherent j \<Longrightarrow> job_coherent (reclaim_row now j)"
  by (auto simp: coherent_defs reclaim_row_def)

lemma reassign_row_coherent: "job_coherent j \<Longrightarrow> job_coherent (reassign_row owner j)"
  by (rule coherent_cong [of _ j]) (simp_all add: reassign_row_def job_coherent_def epochs_coherent_def)

lemma promote_row_coherent:
  "rj_state j = Js_blocked_unsafe \<Longrightarrow> job_coherent j \<Longrightarrow> bounded_id p \<Longrightarrow> job_coherent (promote_row p now j)"
  by (auto simp: coherent_defs promote_row_def bounded_id_def nonempty_required)

lemma duplicate_row_coherent:
  "job_coherent j \<Longrightarrow> job_coherent (j\<lparr>rj_duplicate_enqueue_count := n\<rparr>)"
  by (rule coherent_cong [of _ j]) (simp_all add: job_coherent_def epochs_coherent_def)

lemma new_job_coherent:
  "validateTurnRecoveryJob p = Inr u \<Longrightarrow> job_coherent (new_job i t p now)"
  by (auto simp: validateTurnRecoveryJob_def result_simps coherent_defs new_job_def)

section \<open>How a job may move\<close>

definition same_envelope :: "recovery_job \<Rightarrow> recovery_job \<Rightarrow> bool" where
  "same_envelope j j' \<longleftrightarrow> rj_id j' = rj_id j \<and> rj_terminal_record_id j' = rj_terminal_record_id j
     \<and> rj_scope j' = rj_scope j \<and> rj_conversation_key j' = rj_conversation_key j
     \<and> rj_delivery_jid j' = rj_delivery_jid j \<and> rj_source_inbound_seq j' = rj_source_inbound_seq j
     \<and> rj_source_inbound_seq_key j' = rj_source_inbound_seq_key j
     \<and> rj_source_logical_turn_id j' = rj_source_logical_turn_id j
     \<and> rj_source_manager_id j' = rj_source_manager_id j
     \<and> rj_source_generation j' = rj_source_generation j
     \<and> rj_source_message_id j' = rj_source_message_id j
     \<and> rj_owner_logical_turn_id j' = rj_owner_logical_turn_id j
     \<and> rj_owner_manager_id j' = rj_owner_manager_id j
     \<and> rj_owner_generation j' = rj_owner_generation j \<and> rj_replay_safe j' = rj_replay_safe j
     \<and> rj_sender_jid j' = rj_sender_jid j \<and> rj_sender_name j' = rj_sender_name j
     \<and> rj_replay_text j' = rj_replay_text j \<and> rj_is_group j' = rj_is_group j
     \<and> rj_group_name j' = rj_group_name j"

definition state_le :: "job_state \<Rightarrow> job_state \<Rightarrow> bool" where
  "state_le s s' \<longleftrightarrow> (s = Js_completed \<longrightarrow> s' = Js_completed)
     \<and> (s = Js_exhausted \<longrightarrow> s' \<in> {Js_exhausted, Js_completed})
     \<and> (s' = Js_blocked_unsafe \<longrightarrow> s = Js_blocked_unsafe)"

definition proof_le :: "string option \<Rightarrow> string option \<Rightarrow> bool" where
  "proof_le p p' \<longleftrightarrow> p = None \<or> p' = p"

definition job_le :: "recovery_job \<Rightarrow> recovery_job \<Rightarrow> bool" where
  "job_le j j' \<longleftrightarrow> same_envelope j j' \<and> rj_claim_epoch j \<le> rj_claim_epoch j'
     \<and> rj_assignment_epoch j \<le> rj_assignment_epoch j' \<and> state_le (rj_state j) (rj_state j')
     \<and> proof_le (rj_replay_safety_proof_id j) (rj_replay_safety_proof_id j')"

lemmas job_le_defs = job_le_def same_envelope_def state_le_def proof_le_def

lemma job_le_refl: "job_le j j"
  by (simp add: job_le_defs)

lemma same_envelope_trans: "same_envelope a b \<Longrightarrow> same_envelope b c \<Longrightarrow> same_envelope a c"
  by (simp add: same_envelope_def)

lemma state_le_trans: "state_le a b \<Longrightarrow> state_le b c \<Longrightarrow> state_le a c"
  by (cases a; cases b; simp add: state_le_def)

lemma proof_le_trans: "proof_le a b \<Longrightarrow> proof_le b c \<Longrightarrow> proof_le a c"
  unfolding proof_le_def by metis

lemma job_le_trans: "job_le a b \<Longrightarrow> job_le b c \<Longrightarrow> job_le a c"
  unfolding job_le_def
  by (elim conjE, intro conjI)
    (erule (1) same_envelope_trans order.trans state_le_trans proof_le_trans)+

definition jobs_good :: "db \<Rightarrow> bool" where
  "jobs_good d \<longleftrightarrow> wf_db d \<and> jobs_coherent d"

definition jobs_advance :: "db \<Rightarrow> db \<Rightarrow> bool" where
  "jobs_advance d d' \<longleftrightarrow> jobs_good d' \<and> (\<forall>n j. get_job d n = Some j \<longrightarrow>
     (\<exists>j'. get_job d' n = Some j' \<and> job_le j j'))"

lemma jobs_advance_refl: "jobs_good d \<Longrightarrow> jobs_advance d d"
  by (auto simp: jobs_advance_def intro: job_le_refl)

lemma jobs_advance_trans: "jobs_advance a b \<Longrightarrow> jobs_advance b c \<Longrightarrow> jobs_advance a c"
  unfolding jobs_advance_def by (meson job_le_trans)

lemma jobs_good_rows: "jobs_good d \<Longrightarrow> get_job d n = Some j \<Longrightarrow> job_coherent j"
  by (auto simp: jobs_good_def jobs_coherent_def get_job_def dest: find_SomeD)

text \<open>Anything that leaves the job table and the keys alone advances the jobs.\<close>

lemma jobs_advance_frame:
  "jobs_good d \<Longrightarrow> wf_db d' \<Longrightarrow> recovery_jobs d' = recovery_jobs d \<Longrightarrow> jobs_advance d d'"
  by (auto simp: jobs_advance_def jobs_good_def jobs_coherent_def get_job_def intro: job_le_refl)

lemma cas_job_advance:
  assumes "jobs_good d" "keeps_id rj_id f"
    and "\<And>j. g j \<Longrightarrow> job_coherent j \<Longrightarrow> job_le j (f j) \<and> job_coherent (f j)"
  shows "jobs_advance d (fst (cas_job g f k d))"
  unfolding jobs_advance_def jobs_good_def
proof (intro conjI allI impI)
  show "wf_db (fst (cas_job g f k d))"
    using assms(1,2) by (simp add: jobs.wf_cas jobs_good_def)
  show "jobs_coherent (fst (cas_job g f k d))"
    using assms(1,3) by (auto simp: jobs_good_def jobs_coherent_def cas_job_def Let_def set_update_rows)
  fix n j assume j: "get_job d n = Some j"
  show "\<exists>j'. get_job (fst (cas_job g f k d)) n = Some j' \<and> job_le j j'"
  proof (cases "n = k \<and> g j")
    case True
    then have "get_job (fst (cas_job g f k d)) n = Some (f j)"
      using assms(1,2) j by (simp add: jobs.get_cas jobs_good_def)
    with assms(3) [of j] jobs_good_rows [OF assms(1) j] True show ?thesis by blast
  next
    case False
    then have "get_job (fst (cas_job g f k d)) n = Some j"
      using assms(1,2) j by (auto simp: jobs.get_cas jobs_good_def)
    with job_le_refl show ?thesis by blast
  qed
qed

section \<open>One operation of the store\<close>

inductive job_step :: "(string \<Rightarrow> string) \<Rightarrow> db \<Rightarrow> db \<Rightarrow> bool" for hash where
  Enqueue: "insertLinkedWithinCallerTransaction t p now d = Inr (d', r) \<Longrightarrow> job_step hash d d'"
| Duplicate: "findExactLinkedReceipt t p d = Inr (d', r) \<Longrightarrow> job_step hash d d'"
| Claim: "claimTurnRecoveryJob k owner token l now d = Inr (d', r) \<Longrightarrow> job_step hash d d'"
| Renew: "renewTurnRecoveryClaim k owner f l now d = Inr (d', t) \<Longrightarrow> job_step hash d d'"
| Complete: "completeTurnRecoveryJob k owner f now d = Inr (d', b) \<Longrightarrow> job_step hash d d'"
| Settle: "settleEchoedTurnRecoveryJob opId now d = Inr (d', r) \<Longrightarrow> job_step hash d d'"
| Requeue: "requeueTurnRecoveryJob hash k owner f backoff now d = Inr (d', r) \<Longrightarrow> job_step hash d d'"
| Recover: "recoverStaleTurnRecoveryJobs hash limit now d = Inr (d', q, e) \<Longrightarrow> job_step hash d d'"
| Reclaim: "reclaimDeadDeliveryRecoveryJob k now d = Inr (d', b) \<Longrightarrow> job_step hash d d'"
| Reassign_pending: "reassignPendingTurnRecoveryJob k owner owner' g d = Inr (d', r)
    \<Longrightarrow> job_step hash d d'"
| Reassign_blocked: "reassignBlockedTurnRecoveryJob k owner owner' g d = Inr (d', r)
    \<Longrightarrow> job_step hash d d'"
| Promote: "promoteBlockedTurnRecoveryJob k owner g p now d = Inr (d', r) \<Longrightarrow> job_step hash d d'"

lemma enqueue_advance:
  assumes "insertLinkedWithinCallerTransaction t p now d = Inr (d', r)" "jobs_good d"
  shows "jobs_advance d d'"
proof -
  from assms(1) have v: "validateTurnRecoveryJob p = Inr ()"
    and d': "d' = d\<lparr>recovery_jobs := recovery_jobs d @ [new_job (last_job_id d + 1) t p now],
      last_job_id := last_job_id d + 1\<rparr>"
    by (auto simp: insertLinkedWithinCallerTransaction_def and_then_Inr throw_if_Inr Let_def)
  have "get_job d' n = Some j" if "get_job d n = Some j" for n j
    using that unfolding d' get_job_def by (simp add: find_append)
  then show ?thesis
    using assms(2) new_job_coherent [OF v]
    by (auto simp: jobs_advance_def jobs_good_def jobs_coherent_def wf_db_def d' new_job_def
        keys_ok_append job_le_refl)
qed

lemma duplicate_advance:
  assumes "findExactLinkedReceipt t p d = Inr (d', r)" "jobs_good d"
  shows "jobs_advance d d'"
proof -
  have "jobs_advance d (fst (cas_job (\<lambda>r. True)
      (\<lambda>r. r\<lparr>rj_duplicate_enqueue_count := rj_duplicate_enqueue_count r + 1\<rparr>) k d))" for k
    by (rule cas_job_advance [OF assms(2)])
      (simp_all add: keeps_id_def job_le_defs duplicate_row_coherent)
  with assms show ?thesis
    by (auto simp: findExactLinkedReceipt_def and_then_Inr jobs_advance_refl Let_def
        split: option.splits if_splits)
qed

text \<open>Every row an operation writes is later than the row it replaces.\<close>

lemma row_le:
  "claimable d owner now j \<Longrightarrow> job_le j (claim_row token l now j)"
  "job_le j (j\<lparr>rj_claim_expires_at := x\<rparr>)"
  "fence_holds owner f now j \<Longrightarrow> job_le j (complete_row p now j)"
  "fence_holds owner f now j \<Longrightarrow> job_le j (requeue_row h b now j)"
  "rj_state j = Js_claimed \<Longrightarrow> st \<in> {Js_exhausted, Js_pending} \<Longrightarrow> job_le j (stale_row st h now j)"
  "job_le j (reassign_row owner j)"
  "job_le j (conflict_row reason now j)"
  "rj_state j = Js_blocked_unsafe \<Longrightarrow> rj_replay_safety_proof_id j = None \<Longrightarrow> job_le j (promote_row p now j)"
  by (auto simp: job_le_defs claim_row_def claimable_def complete_row_def requeue_row_def stale_row_def
      reassign_row_def conflict_row_def promote_row_def fence_holds_def)

lemma coherent_row_le:
  assumes "job_coherent j"
  shows "job_le j (echo_complete_row opId now j)"
    "rj_state j \<in> {Js_pending, Js_claimed} \<Longrightarrow> job_le j (reclaim_row now j)"
proof -
  from assms have e: "rj_claim_epoch j = rj_attempt_count j" "rj_attempt_count j \<le> 5"
    by (simp_all add: job_coherent_def epochs_coherent_def)
  then show "job_le j (echo_complete_row opId now j)"
    by (simp add: job_le_defs echo_complete_row_def split: option.split)
  show "rj_state j \<in> {Js_pending, Js_claimed} \<Longrightarrow> job_le j (reclaim_row now j)"
    using e by (auto simp: job_le_defs reclaim_row_def)
qed

lemma row_ids:
  "keeps_id rj_id (claim_row token l now)" "keeps_id rj_id (complete_row p now)"
  "keeps_id rj_id (requeue_row h b now)" "keeps_id rj_id (stale_row st h now)"
  "keeps_id rj_id (reassign_row owner)" "keeps_id rj_id (conflict_row reason now)"
  "keeps_id rj_id (promote_row p now)" "keeps_id rj_id (echo_complete_row opId now)"
  "keeps_id rj_id (reclaim_row now)" "keeps_id rj_id (\<lambda>j. j\<lparr>rj_claim_expires_at := x\<rparr>)"
  by (simp_all add: keeps_id_def claim_row_def complete_row_def requeue_row_def stale_row_def
      reassign_row_def conflict_row_def promote_row_def echo_complete_row_def reclaim_row_def)

lemma claim_outcome:
  assumes "claimTurnRecoveryJob k owner token l now d = Inr (d', r)"
  shows "bounded_id token \<and> 1 \<le> l \<and> l \<le> 300
    \<and> (d' = d \<and> \<not> cr_applied r
       \<or> cas_job (claimable d owner now) (claim_row token l now) k d = (d', True) \<and> cr_applied r)"
  using assms
  by (auto simp: claimTurnRecoveryJob_def result_simps Let_def validateRecoveryClaimToken_def
      validateRecoveryLeaseSeconds_def TURN_RECOVERY_MAX_LEASE_SECONDS_def held_claim_def
      split: if_splits prod.splits)

lemma claim_advance:
  assumes "claimTurnRecoveryJob k owner token l now d = Inr (d', r)" "jobs_good d"
  shows "jobs_advance d d'"
proof -
  note out = claim_outcome [OF assms(1)]
  have "jobs_advance d (fst (cas_job (claimable d owner now) (claim_row token l now) k d))"
    by (rule cas_job_advance [OF assms(2) row_ids(1)])
      (use out in \<open>blast intro: row_le(1) claim_row_coherent\<close>)
  with out show ?thesis by (metis fst_conv jobs_advance_refl [OF assms(2)])
qed

lemma renew_advance:
  assumes "renewTurnRecoveryClaim k owner f l now d = Inr (d', t)" "jobs_good d"
  shows "jobs_advance d d'"
proof -
  from assms(1) have d': "d' = fst (cas_job (fence_holds owner f now)
      (\<lambda>j. j\<lparr>rj_claim_expires_at := Some (now + l)\<rparr>) k d)"
    by (auto simp: renewTurnRecoveryClaim_def result_simps Let_def
        split: if_splits prod.splits option.splits)
  show ?thesis unfolding d'
    by (rule cas_job_advance [OF assms(2) row_ids(10)]) (blast intro: row_le(2) renew_row_coherent)
qed

lemma complete_outcome:
  assumes "completeTurnRecoveryJob k owner f now d = Inr (d', b)"
  shows "d' = d \<and> \<not> b \<or> b \<and> cas_job (\<lambda>j. fence_holds owner f now j \<and> source_terminal d j
      \<and> selected_delivery_terminal d j) (complete_row (worker_proof k (cf_claimEpoch f)) now) k d = (d', True)"
  using assms by (auto simp: completeTurnRecoveryJob_def result_simps Let_def
      split: if_splits prod.splits)

lemma complete_advance:
  assumes "completeTurnRecoveryJob k owner f now d = Inr (d', b)" "jobs_good d"
  shows "jobs_advance d d'"
proof -
  have "jobs_advance d (fst (cas_job (\<lambda>j. fence_holds owner f now j \<and> source_terminal d j
      \<and> selected_delivery_terminal d j) (complete_row (worker_proof k (cf_claimEpoch f)) now) k d))"
    by (rule cas_job_advance [OF assms(2) row_ids(2)]) (blast intro: row_le(3) complete_row_coherent)
  with complete_outcome [OF assms(1)] show ?thesis
    by (metis fst_conv jobs_advance_refl [OF assms(2)])
qed

lemma requeue_outcome:
  assumes "requeueTurnRecoveryJob hash k owner f backoff now d = Inr (d', r)"
  shows "0 \<le> backoff \<and> backoff \<le> 3600 \<and> (d' = d \<and> \<not> rq_applied r
    \<or> rq_applied r \<and> cas_job (fence_holds owner f now)
        (requeue_row (hash (cf_claimToken f)) backoff now) k d = (d', True))"
  using assms by (auto simp: requeueTurnRecoveryJob_def result_simps Let_def
      validateRecoveryBackoffSeconds_def TURN_RECOVERY_MAX_BACKOFF_SECONDS_def
      getIdempotentRequeueResult_def split: if_splits prod.splits option.splits)

lemma requeue_advance:
  assumes "requeueTurnRecoveryJob hash k owner f backoff now d = Inr (d', r)" "jobs_good d" "hex_digest hash"
  shows "jobs_advance d d'"
proof -
  note out = requeue_outcome [OF assms(1)]
  have "jobs_advance d (fst (cas_job (fence_holds owner f now)
        (requeue_row (hash (cf_claimToken f)) backoff now) k d))"
    by (rule cas_job_advance [OF assms(2) row_ids(3)])
      (use out assms(3) in \<open>auto intro: row_le(4) requeue_row_coherent simp: hex_digest_def\<close>)
  with out show ?thesis by (metis fst_conv jobs_advance_refl [OF assms(2)])
qed

lemma stale_advance:
  assumes "jobs_good d" "hex_digest hash"
  shows "jobs_advance d (fst (recover_stale hash js now qe d))"
  using assms(1)
proof (induction js arbitrary: d qe)
  case Nil
  then show ?case by (cases qe) (simp add: jobs_advance_refl)
next
  case (Cons j js)
  obtain q e where qe: "qe = (q, e)" by (cases qe)
  have ex: "jobs_advance d (fst (cas_job (\<lambda>r. stale_guard token ep r
      \<and> rj_attempt_count r \<ge> TURN_RECOVERY_MAX_ATTEMPTS) (stale_row Js_exhausted (hash token) now) k d))"
    for token ep k
    by (rule cas_job_advance [OF Cons.prems row_ids(4)])
      (use assms(2) in \<open>auto intro!: row_le(5) stale_row_coherent
        simp: hex_digest_def stale_guard_def TURN_RECOVERY_MAX_ATTEMPTS_def\<close>)
  have pe: "jobs_advance d (fst (cas_job (\<lambda>r. stale_guard token ep r
      \<and> rj_attempt_count r < TURN_RECOVERY_MAX_ATTEMPTS) (stale_row Js_pending (hash token) now) k d))"
    for token ep k
    by (rule cas_job_advance [OF Cons.prems row_ids(4)])
      (use assms(2) in \<open>auto intro!: row_le(5) stale_row_coherent
        simp: hex_digest_def stale_guard_def TURN_RECOVERY_MAX_ATTEMPTS_def\<close>)
  have next_good: "jobs_good d1 \<Longrightarrow> jobs_advance d1 (fst (recover_stale hash js now qe' d1))" for d1 qe'
    by (rule Cons.IH)
  have go: "jobs_advance d d1 \<Longrightarrow> jobs_advance d (fst (recover_stale hash js now qe' d1))" for d1 qe'
    using next_good by (meson jobs_advance_def jobs_advance_trans)
  show ?case
  proof (cases "rj_claim_token j")
    case None
    then show ?thesis by (simp add: qe next_good Cons.prems)
  next
    case (Some token)
    show ?thesis
      using go [OF ex [of token "rj_claim_epoch j" "rj_id j"]]
        go [OF pe [of token "rj_claim_epoch j" "rj_id j"]]
      by (cases "rj_attempt_count j \<ge> TURN_RECOVERY_MAX_ATTEMPTS")
        (simp_all add: qe Some Let_def case_prod_beta)
  qed
qed

lemma reclaim_advance:
  assumes "reclaimDeadDeliveryRecoveryJob k now d = Inr (d', b)" "jobs_good d"
  shows "jobs_advance d d'"
proof -
  from assms(1) have "d' = fst (cas_job (\<lambda>j. rj_state j \<in> {Js_pending, Js_claimed}) (reclaim_row now) k d)"
    by (auto simp: reclaimDeadDeliveryRecoveryJob_def result_simps)
  then show ?thesis
    by (simp only:) (rule cas_job_advance [OF assms(2) row_ids(9)],
      blast intro: coherent_row_le(2) reclaim_row_coherent)
qed

lemma reassign_advance:
  assumes "reassignTurnRecoveryJobInState k o1 o2 g st guard m1 m2 d = Inr (d', r)" "jobs_good d"
  shows "jobs_advance d d'"
proof -
  have "jobs_advance d (fst (cas_job (\<lambda>j. assigned_to o1 j \<and> guard j
      \<and> rj_claim_token j = None \<and> epochs_match g j) (reassign_row o2) k d))"
    by (rule cas_job_advance [OF assms(2) row_ids(5)]) (blast intro: row_le(6) reassign_row_coherent)
  moreover from assms(1) have "d' = d \<or> d' = fst (cas_job (\<lambda>j. assigned_to o1 j \<and> guard j
      \<and> rj_claim_token j = None \<and> epochs_match g j) (reassign_row o2) k d)"
    by (auto simp: reassignTurnRecoveryJobInState_def result_simps Let_def
        split: if_splits prod.splits option.splits)
  ultimately show ?thesis using jobs_advance_refl [OF assms(2)] by blast
qed

lemma promote_advance:
  assumes "promoteBlockedTurnRecoveryJob k owner g p now d = Inr (d', r)" "jobs_good d"
  shows "jobs_advance d d'"
proof -
  let ?g = "\<lambda>j. assigned_to owner j \<and> rj_state j = Js_blocked_unsafe
                \<and> \<not> rj_replay_safe j \<and> rj_replay_safety_proof_id j = None \<and> rj_attempt_count j = 0
                \<and> rj_claim_token j = None \<and> epochs_match g j"
  from assms(1) have p: "bounded_id p" "d' = d \<or> d' = fst (cas_job ?g (promote_row p now) k d)"
    by (auto simp: promoteBlockedTurnRecoveryJob_def result_simps Let_def
        split: if_splits prod.splits option.splits)
  have "jobs_advance d (fst (cas_job ?g (promote_row p now) k d))"
    by (rule cas_job_advance [OF assms(2) row_ids(7)])
      (use p(1) in \<open>blast intro: row_le(8) promote_row_coherent\<close>)
  with p(2) jobs_advance_refl [OF assms(2)] show ?thesis by blast
qed

lemma promote_identity_frame [simp]:
  "recovery_jobs (promoteEchoedCheckpointIdentity opId d) = recovery_jobs d"
  "outbound_ops (promoteEchoedCheckpointIdentity opId d) = outbound_ops d"
  "inbound_events (promoteEchoedCheckpointIdentity opId d) = inbound_events d"
  "terminal_records (promoteEchoedCheckpointIdentity opId d) = terminal_records d"
  "wf_db (promoteEchoedCheckpointIdentity opId d) = wf_db d"
  by (simp_all add: promoteEchoedCheckpointIdentity_def wf_db_def split: option.split)

end
