(* ===== verification/Leases.thy ===== *)
theory Leases
  imports JobLaws "HOL-Library.Code_Target_Nat"
begin

text \<open>
  The laws of the recovery store: what any history of its operations preserves, what a claim fence
  is worth, and what an echo settles.
\<close>

section \<open>Settlement by an echo\<close>

definition source_settled :: "inbound_event \<Rightarrow> bool" where
  "source_settled i \<longleftrightarrow> ie_processing_status i = Is_complete
     \<and> ie_terminal_reason i = Some ''response_echoed''"

definition settled_store :: "int \<Rightarrow> int \<Rightarrow> recovery_job \<Rightarrow> inbound_event \<Rightarrow> db \<Rightarrow> db" where
  "settled_store opId now j i d =
     promoteEchoedCheckpointIdentity opId (fst (cas_job (\<lambda>r. rj_state r \<noteq> Js_completed)
       (echo_complete_row opId now) (rj_id j)
       (if source_settled i then d else fst (settle_source_statement (ie_seq i) now d))))"

lemma settle_source_ran: "completeEchoedTurnRecoveryInbound k now d = Inr (d', b) \<Longrightarrow> d' = fst (settle_source_statement k now d)"
  by (simp add: completeEchoedTurnRecoveryInbound_def unless_aborted_Inr prod_eq_iff)

lemma settle_outcome:
  assumes "settleEchoedTurnRecoveryJob opId now d = Inr (d', r)"
  shows "\<not> st_applied r \<and> (d' = d \<or> (\<exists>k reason. d' = recordEchoedTurnRecoveryConflict reason k now d))
    \<or> st_applied r \<and> (\<exists>j t i x. echoed_job_for opId d = Some j \<and> valid_links d j = Some (t, i, x)
        \<and> op_status x = Os_echoed \<and> rj_state j \<noteq> Js_completed \<and> d' = settled_store opId now j i d
        \<and> st_jobId r = Some (rj_id j) \<and> \<not> st_conflict r)"
proof -
  from assms have settle: "(case echoed_job_for opId d of
       None \<Rightarrow> Inr (d, \<lparr>st_matched = False, st_applied = False, st_jobId = None, st_state = None,
         st_conflict = False\<rparr>)
     | Some j \<Rightarrow> (case valid_links d j of
         None \<Rightarrow> Inr (d, \<lparr>st_matched = False, st_applied = False, st_jobId = None, st_state = None,
           st_conflict = False\<rparr>)
       | Some (t, i, o') \<Rightarrow> and_then (settleEchoedTurnRecoveryJob opId now d) Inr)) = Inr (d', r)"
    by (auto simp: settleEchoedTurnRecoveryJob_def and_then_Inr split: option.splits)
  show ?thesis
  proof (cases "echoed_job_for opId d")
    case None
    with settle show ?thesis by auto
  next
    case (Some j)
    show ?thesis
    proof (cases "valid_links d j")
      case None
      with settle Some show ?thesis by auto
    next
      case (Some links)
      obtain t i x where l: "links = (t, i, x)" by (cases links)
      show ?thesis
        using assms unfolding settleEchoedTurnRecoveryJob_def
        by (simp add: \<open>echoed_job_for opId d = Some j\<close> Some l and_then_Inr Let_def case_prod_beta
            throw_if_Inr settled_store_def source_settled_def split: if_splits) (auto dest: settle_source_ran)
    qed
  qed
qed

lemma settle_applied_source:
  assumes "settleEchoedTurnRecoveryJob opId now d = Inr (d', r)" "st_applied r"
    "echoed_job_for opId d = Some j" "valid_links d j = Some (t, i, x)"
  shows "source_settled i \<or> ie_processing_status i \<in> {Is_processing, Is_turn_done}"
  using assms unfolding settleEchoedTurnRecoveryJob_def
  by (auto simp: and_then_Inr throw_if_Inr Let_def source_settled_def split: if_splits)

lemma complete_inbound_keeps:
  "keeps_id ie_seq (\<lambda>r. r\<lparr>ie_processing_status := s, ie_completed_at := c r, ie_terminal_reason := t\<rparr>)"
  by (simp add: keeps_id_def)

lemma echo_inbound_frame:
  "wf_db d \<Longrightarrow> wf_db (fst (settle_source_statement k now d))"
  "recovery_jobs (fst (settle_source_statement k now d)) = recovery_jobs d"
  unfolding settle_source_statement_def
  by (rule inbounds.wf_cas, assumption, simp add: keeps_id_def settle_inbound_row_def) (simp add: cas_inbound_def Let_def)

lemma settle_advance:
  assumes "settleEchoedTurnRecoveryJob opId now d = Inr (d', r)" "jobs_good d"
  shows "jobs_advance d d'"
proof -
  have conflict: "jobs_advance d (recordEchoedTurnRecoveryConflict reason k now d)" for reason k
    unfolding recordEchoedTurnRecoveryConflict_def
    by (rule cas_job_advance [OF assms(2) row_ids(6)]) (blast intro: row_le(7) conflict_row_coherent)
  have store: "jobs_advance d (settled_store opId now j i d)" for j i
  proof -
    let ?d1 = "if source_settled i then d else fst (settle_source_statement (ie_seq i) now d)"
    let ?d2 = "fst (cas_job (\<lambda>r. rj_state r \<noteq> Js_completed) (echo_complete_row opId now) (rj_id j) ?d1)"
    have d1: "jobs_advance d ?d1"
      by (rule jobs_advance_frame [OF assms(2)])
        (use assms(2) in \<open>auto simp: jobs_good_def echo_inbound_frame\<close>)
    then have good1: "jobs_good ?d1" by (simp add: jobs_advance_def)
    have d2: "jobs_advance ?d1 ?d2"
      by (rule cas_job_advance [OF good1 row_ids(8)])
        (blast intro: coherent_row_le(1) echo_complete_row_coherent)
    then have good2: "jobs_good ?d2" by (simp only: jobs_advance_def)
    then have wf2: "wf_db ?d2" by (simp only: jobs_good_def)
    have "jobs_advance ?d2 (settled_store opId now j i d)"
      unfolding settled_store_def
      by (rule jobs_advance_frame [OF good2]) (simp_all only: promote_identity_frame wf2)
    then show ?thesis
      by (rule jobs_advance_trans [OF d1 jobs_advance_trans [OF d2]])
  qed
  from settle_outcome [OF assms(1)] conflict store jobs_advance_refl [OF assms(2)] show ?thesis
    by auto
qed

section \<open>Any history of the store\<close>

lemma job_step_advance:
  assumes "job_step hash d d'" "jobs_good d" "hex_digest hash"
  shows "jobs_advance d d'"
  using assms
proof (cases rule: job_step.cases)
  case (Recover limit now q e)
  then have "d' = fst (recover_stale hash (getStaleTurnRecoveryJobs (nat limit) now d) now (0, 0) d)"
    by (auto simp: recoverStaleTurnRecoveryJobs_def throw_if_Inr)
  with stale_advance [OF assms(2,3)] show ?thesis by simp
qed (use assms in \<open>auto simp: reassignPendingTurnRecoveryJob_def reassignBlockedTurnRecoveryJob_def
    intro: enqueue_advance duplicate_advance claim_advance renew_advance complete_advance
      settle_advance requeue_advance reclaim_advance reassign_advance promote_advance\<close>)

inductive job_steps :: "(string \<Rightarrow> string) \<Rightarrow> db \<Rightarrow> db \<Rightarrow> bool" for hash where
  Done: "job_steps hash d d"
| More: "job_step hash d d1 \<Longrightarrow> job_steps hash d1 d2 \<Longrightarrow> job_steps hash d d2"

lemma job_steps_advance:
  "job_steps hash d d' \<Longrightarrow> jobs_good d \<Longrightarrow> hex_digest hash \<Longrightarrow> jobs_advance d d'"
proof (induction rule: job_steps.induct)
  case (Done d)
  then show ?case by (simp add: jobs_advance_refl)
next
  case (More d d1 d2)
  from job_step_advance [OF More.hyps(1) More.prems] have "jobs_advance d d1" .
  moreover from this More.IH More.prems(2) have "jobs_advance d1 d2" by (simp add: jobs_advance_def)
  ultimately show ?case by (rule jobs_advance_trans)
qed


section \<open>Fences\<close>

lemma validate_fence_ok: "validate_fence k owner f = Inr u \<Longrightarrow> bounded_id (cf_claimToken f)"
  by (auto simp: validate_fence_def result_simps validateRecoveryClaimToken_def)

definition fence_live :: "db \<Rightarrow> int \<Rightarrow> owner_identity \<Rightarrow> claim_fence \<Rightarrow> int \<Rightarrow> bool" where
  "fence_live d k owner f now \<longleftrightarrow>
     (case get_job d k of None \<Rightarrow> False | Some j \<Rightarrow> fence_holds owner f now j)"

lemma dead_fence_loses:
  assumes "wf_db d" "\<not> fence_live d k owner f now" "keeps_id rj_id g"
  shows "\<not> snd (cas_job (\<lambda>j. fence_holds owner f now j \<and> P j) g k d)"
  using assms by (auto simp: jobs.cas_wins fence_live_def split: option.splits)

lemma dead_fence_renew:
  assumes "wf_db d" "\<not> fence_live d k owner f now"
  shows "\<not> succeeds (renewTurnRecoveryClaim k owner f l now d)"
  using dead_fence_loses [OF assms row_ids(10), of "\<lambda>_. True"]
  by (auto simp: renewTurnRecoveryClaim_def succeeds_iff result_simps Let_def case_prod_beta
      split: option.splits if_splits)

lemma dead_fence_complete:
  assumes "wf_db d" "\<not> fence_live d k owner f now" "completeTurnRecoveryJob k owner f now d = Inr (d', b)"
  shows "d' = d \<and> \<not> b"
proof -
  have "snd (cas_job (\<lambda>j. fence_holds owner f now j \<and> source_terminal d j
      \<and> selected_delivery_terminal d j) (complete_row (worker_proof k (cf_claimEpoch f)) now) k d) = False"
    using dead_fence_loses [OF assms(1,2) row_ids(2)] by simp
  with complete_outcome [OF assms(3)] show ?thesis by auto
qed

lemma dead_fence_requeue:
  assumes "wf_db d" "\<not> fence_live d k owner f now"
    "requeueTurnRecoveryJob hash k owner f backoff now d = Inr (d', r)"
  shows "d' = d \<and> \<not> rq_applied r"
proof -
  have "snd (cas_job (fence_holds owner f now) (requeue_row (hash (cf_claimToken f)) backoff now) k d) = False"
    using dead_fence_loses [OF assms(1,2) row_ids(3), of "\<lambda>_. True"] by simp
  with requeue_outcome [OF assms(3)] show ?thesis by auto
qed

lemma jobs_good_wf: "jobs_good d \<Longrightarrow> wf_db d"
  by (simp add: jobs_good_def)

lemma claim_path:
  assumes "claimTurnRecoveryJob k owner token l now d = Inr (d', r)"
  shows "\<exists>u. getOwnedTurnRecoveryJob k owner d = Inr u \<and> (rj_state u = Js_pending \<longrightarrow>
       (let (d', won) = cas_job (claimable d owner now) (claim_row token l now) k d in
       if won then (let row = claim_row token l now u in
         Inr (d', \<lparr>cr_applied = True, cr_claimToken = token, cr_claimEpoch = rj_claim_epoch row,
           cr_attemptCount = rj_attempt_count row, cr_claimExpiresAt = rj_claim_expires_at row\<rparr>))
       else Inl (Error ''Recovery job is still in backoff'')) = Inr (d', r))"
proof -
  from assms obtain u where "getOwnedTurnRecoveryJob k owner d = Inr u"
    and "(if rj_state u = Js_blocked_unsafe
     then Inl (Error ''Recovery job is blocked unsafe pending an idempotency proof'')
     else if rj_state u = Js_claimed
     then and_then (held_claim token now u) (\<lambda>c. Inr (d, c))
     else if rj_state u = Js_completed then Inl (Error ''Recovery job is already completed'')
     else if rj_state u = Js_exhausted
     then Inl (Error ''Recovery job attempts are exhausted'')
     else let (d', won) = cas_job (claimable d owner now) (claim_row token l now) k d in
       if won then (let row = claim_row token l now u in
         Inr (d', \<lparr>cr_applied = True, cr_claimToken = token, cr_claimEpoch = rj_claim_epoch row,
           cr_attemptCount = rj_attempt_count row, cr_claimExpiresAt = rj_claim_expires_at row\<rparr>))
       else Inl (Error ''Recovery job is still in backoff'')) = Inr (d', r)"
    unfolding claimTurnRecoveryJob_def and_then_Inr by blast
  then show ?thesis by (intro exI [of _ u] conjI impI) simp_all
qed

lemma claim_granted:
  assumes "claimTurnRecoveryJob k owner token l now d = Inr (d', r)" "cr_applied r" "wf_db d"
  obtains j where "get_job d k = Some j" "claimable d owner now j" "valid_links d j \<noteq> None"
    "get_job d' k = Some (claim_row token l now j)"
    "d' = fst (cas_job (claimable d owner now) (claim_row token l now) k d)"
    "r = \<lparr>cr_applied = True, cr_claimToken = token, cr_claimEpoch = rj_claim_epoch j + 1,
      cr_attemptCount = rj_attempt_count j + 1, cr_claimExpiresAt = Some (now + l)\<rparr>"
    "bounded_id token" "1 \<le> l" "l \<le> 300"
proof -
  from claim_outcome [OF assms(1)] assms(2)
  have out: "cas_job (claimable d owner now) (claim_row token l now) k d = (d', True)"
    "bounded_id token" "1 \<le> l" "l \<le> 300" by auto
  from jobs.cas_wins [OF assms(3) row_ids(1), of "claimable d owner now" token l now k]
  obtain j where j: "get_job d k = Some j" "claimable d owner now j"
    by (auto simp: out split: option.splits)
  from jobs.get_cas [OF assms(3) row_ids(1), of "claimable d owner now" token l now k k] j
  have row: "get_job d' k = Some (claim_row token l now j)" by (simp add: out)
  from assms(1) obtain u where owned: "getOwnedTurnRecoveryJob k owner d = Inr u"
    and body: "rj_state u = Js_pending \<Longrightarrow>
       (let (d', won) = cas_job (claimable d owner now) (claim_row token l now) k d in
       if won then (let row = claim_row token l now u in
         Inr (d', \<lparr>cr_applied = True, cr_claimToken = token, cr_claimEpoch = rj_claim_epoch row,
           cr_attemptCount = rj_attempt_count row, cr_claimExpiresAt = rj_claim_expires_at row\<rparr>))
       else Inl (Error ''Recovery job is still in backoff'')) = Inr (d', r)"
    using claim_path [OF assms(1)] by blast
  from owned j(1) have u: "u = j" "valid_links d j \<noteq> None"
    by (auto simp: getOwnedTurnRecoveryJob_def and_then_Inr throw_if_Inr getInternalTurnRecoveryJob_def
        split: if_splits)
  from j(2) have "rj_state j = Js_pending" by (simp add: claimable_def)
  with body have "r = \<lparr>cr_applied = True, cr_claimToken = token, cr_claimEpoch = rj_claim_epoch j + 1,
      cr_attemptCount = rj_attempt_count j + 1, cr_claimExpiresAt = Some (now + l)\<rparr>"
    by (simp add: u(1) out(1) claim_row_def)
  with that [OF j u(2) row] out show ?thesis by simp
qed

lemma old_fence_dead:
  assumes "jobs_advance d d'" "get_job d k = Some j" "cf_claimEpoch f < rj_claim_epoch j"
  shows "\<not> fence_live d' k owner f now"
proof -
  from assms(1,2) obtain j' where "get_job d' k = Some j'" "job_le j j'"
    unfolding jobs_advance_def by blast
  with assms(3) show ?thesis by (simp add: fence_live_def fence_holds_def job_le_def)
qed

section \<open>Links under updates\<close>

lemma links_keep:
  assumes "same_envelope j j'" "terminal_records d' = terminal_records d"
    "inbound_events d' = inbound_events d" "outbound_ops d' = outbound_ops d"
  shows "valid_links d' j' = valid_links d j"
proof -
  have g: "get_terminal d' = get_terminal d" "get_inbound d' = get_inbound d" "get_op d' = get_op d"
    by (rule ext, simp add: get_terminal_def get_inbound_def get_op_def assms(2-4))+
  have l: "terminal_link_ok j' = terminal_link_ok j" "inbound_link_ok j' = inbound_link_ok j"
    "outbound_link_ok j' = outbound_link_ok j"
    "rj_terminal_record_id j' = rj_terminal_record_id j"
    "rj_source_inbound_seq j' = rj_source_inbound_seq j"
    using assms(1) by (auto simp: fun_eq_iff terminal_link_ok_def inbound_link_ok_def
        outbound_link_ok_def same_envelope_def)
  show ?thesis unfolding valid_links_def g l ..
qed

lemma cas_job_tables [simp]:
  "terminal_records (fst (cas_job g f k d)) = terminal_records d"
  "inbound_events (fst (cas_job g f k d)) = inbound_events d"
  "outbound_ops (fst (cas_job g f k d)) = outbound_ops d"
  "corroborations (fst (cas_job g f k d)) = corroborations d"
  by (simp_all add: cas_job_def Let_def)


section \<open>A store to try the laws on\<close>

definition sample_params :: "bool \<Rightarrow> job_params" where
  "sample_params safe = \<lparr>jp_scope = ''per_chat'', jp_conversationKey = ''c'', jp_deliveryJid = ''c@s'',
     jp_sourceInboundSeq = 1, jp_sourceLogicalTurnId = ''turn'', jp_sourceManagerId = ''m1'',
     jp_sourceGeneration = 1, jp_sourceMessageId = ''msg'', jp_ownerLogicalTurnId = ''owner'',
     jp_ownerManagerId = ''m2'', jp_ownerGeneration = 2, jp_replaySafe = safe,
     jp_senderJid = ''s@s'', jp_senderName = None, jp_replayText = ''hello'', jp_isGroup = False,
     jp_groupName = None\<rparr>"

definition sample_owner :: owner_identity where
  "sample_owner = \<lparr>oi_logicalTurnId = ''owner'', oi_managerId = ''m2'', oi_generation = 2\<rparr>"

definition sample_op :: "outbound_status \<Rightarrow> outbound_op" where
  "sample_op st = \<lparr>op_id = 1, op_status = st, op_conversation_key = ''c'', op_chat_jid = ''c@s'',
     op_type = ''text'', op_payload = Text 2 None, op_payload_hash = ''h'',
     op_wa_message_id = Some ''w'', op_replay_policy = Rp_safe, op_created_at = At 0,
     op_submitted_at = Some (At 0), op_ambiguity_at = None, op_echoed_at = Some 1,
     op_source_inbound_seq = Some 1, op_retry_count = 1, op_error = None, op_is_terminal = True,
     op_quarantine_disposition = None, op_quarantine_coverage = None, op_quarantine_sha256 = None,
     op_quarantined_at = None\<rparr>"

definition sample_inbound :: inbound_event where
  "sample_inbound = \<lparr>ie_seq = 1, ie_message_id = ''msg'', ie_conversation_key = ''c'',
     ie_chat_jid = ''c@s'', ie_routed_to = ''agent'', ie_processing_status = Is_turn_done,
     ie_received_at = 0, ie_completed_at = None, ie_terminal_reason = None,
     ie_failure_class = None, ie_candidate_reason = None, ie_candidate_source = None,
     ie_candidate_marked_at = None, ie_candidate_consumed_at = None\<rparr>"

definition sample_terminal :: terminal_record where
  "sample_terminal = \<lparr>tt_id = 1, tt_scope = ''per_chat'', tt_conversation_key = ''c'',
     tt_delivery_jid = ''c@s'', tt_inbound_seq = Some 1, tt_inbound_seq_key = 1,
     tt_logical_turn_id = ''turn'', tt_manager_id = ''m1'', tt_generation = 1,
     tt_attempt_kind = ''completed'', tt_attempt_failure_class = None,
     tt_inbound_disposition = ''transferred_to_recovery_owner'', tt_delivery_kind = ''flushed'',
     tt_delivery_op_id = Some 1, tt_owner_logical_turn_id = Some ''owner'',
     tt_owner_manager_id = Some ''m2'', tt_owner_generation = Some 2,
     tt_reply_guarantee_disarmed = False, tt_duplicate_finalize_count = 0,
     tt_last_duplicate_at = None\<rparr>"

definition sample_base :: "outbound_status \<Rightarrow> db" where
  "sample_base st = empty_db\<lparr>outbound_ops := [sample_op st], last_op_id := 1,
     inbound_events := [sample_inbound], last_seq := 1,
     terminal_records := [sample_terminal], last_terminal_id := 1\<rparr>"

definition sample_db :: "bool \<Rightarrow> outbound_status \<Rightarrow> db" where
  "sample_db safe st = (sample_base st)
     \<lparr>recovery_jobs := [new_job 1 1 (sample_params safe) 0], last_job_id := 1\<rparr>"

definition sample_hash :: "string \<Rightarrow> string" where
  "sample_hash s = replicate 64 (CHR ''0'')"

lemma sample_hash_ok: "hex_digest sample_hash"
  by (simp add: hex_digest_def hex64_def sample_hash_def)

lemma sample_base_good: "jobs_good (sample_base st)"
  by (simp add: jobs_good_def wf_db_def jobs_coherent_def sample_base_def empty_db_def keys_ok_def
      sample_op_def sample_inbound_def sample_terminal_def)

lemma sample_valid: "validateTurnRecoveryJob (sample_params safe) = Inr ()"
  by (cases safe) code_simp+

lemma sample_inserted:
  "insertLinkedWithinCallerTransaction 1 (sample_params safe) 0 (sample_base st)
   = Inr (sample_db safe st, \<lparr>er_blocked = \<not> safe, er_applied = True, er_jobId = 1,
       er_state = (if safe then Js_pending else Js_blocked_unsafe), er_duplicateEnqueueCount = 0\<rparr>)"
  unfolding insertLinkedWithinCallerTransaction_def sample_valid and_then_simps
  by (simp add: job_key_taken_def sample_base_def sample_db_def empty_db_def Let_def new_job_def
      recoveryReceiptStatus_def sample_params_def)

lemma sample_db_good: "jobs_good (sample_db safe st)"
  using enqueue_advance [OF sample_inserted sample_base_good] by (simp add: jobs_advance_def)

definition sample_claim :: "db \<times> claim_result" where
  "sample_claim = (case claimTurnRecoveryJob 1 sample_owner ''t1'' 60 10 (sample_db True Os_submitted) of
     Inr r \<Rightarrow> r | Inl _ \<Rightarrow> (empty_db, \<lparr>cr_applied = False, cr_claimToken = [], cr_claimEpoch = 0,
       cr_attemptCount = 0, cr_claimExpiresAt = None\<rparr>))"

lemma sample_claimed:
  "claimTurnRecoveryJob 1 sample_owner ''t1'' 60 10 (sample_db True Os_submitted) = Inr sample_claim"
  "snd sample_claim = \<lparr>cr_applied = True, cr_claimToken = ''t1'', cr_claimEpoch = 1,
     cr_attemptCount = 1, cr_claimExpiresAt = Some 70\<rparr>"
  by code_simp+


lemma sample_claim_good: "jobs_good (fst sample_claim)"
proof -
  have "claimTurnRecoveryJob 1 sample_owner ''t1'' 60 10 (sample_db True Os_submitted)
      = Inr (fst sample_claim, snd sample_claim)" using sample_claimed(1) by simp
  from claim_advance [OF this sample_db_good] show ?thesis by (simp add: jobs_advance_def)
qed

section \<open>Properties\<close>

text \<open>
  C16: Recovery jobs only move forward. Whatever sequence of store operations runs (enqueue, duplicate
  enqueue, claim, renewal, completion, echo settlement, requeue, recovery of stale claims, reclaim of
  a dead delivery, reassignment, promotion), every job row satisfies the coherence constraints of its
  table at the end (epochs and attempts, lease per state, requeue record, idempotency proof, group
  name), no job disappears, the envelope of the job (its source turn, first owner, sender
  and replay text) is unchanged, claim and assignment epochs never fall, a completed job stays
  completed, an exhausted one can only still be completed by an echo, no job becomes blocked again,
  and a recorded idempotency proof is never replaced.
\<close>

theorem recovery_job_history:
  assumes "job_steps hash d d'" "jobs_good d" "hex_digest hash" "get_job d k = Some j"
  shows "jobs_good d' \<and> (\<exists>j'. get_job d' k = Some j' \<and> job_coherent j' \<and> same_envelope j j'
    \<and> rj_claim_epoch j \<le> rj_claim_epoch j' \<and> rj_assignment_epoch j \<le> rj_assignment_epoch j'
    \<and> (rj_state j = Js_completed \<longrightarrow> rj_state j' = Js_completed)
    \<and> (rj_state j = Js_exhausted \<longrightarrow> rj_state j' \<in> {Js_exhausted, Js_completed})
    \<and> (rj_state j \<noteq> Js_blocked_unsafe \<longrightarrow> rj_state j' \<noteq> Js_blocked_unsafe)
    \<and> (rj_replay_safety_proof_id j \<noteq> None
         \<longrightarrow> rj_replay_safety_proof_id j' = rj_replay_safety_proof_id j))"
proof -
  from job_steps_advance [OF assms(1-3)] have adv: "jobs_advance d d'" .
  with assms(4) obtain j' where j': "get_job d' k = Some j'" "job_le j j'"
    unfolding jobs_advance_def by blast
  from adv have good: "jobs_good d'" by (simp add: jobs_advance_def)
  from jobs_good_rows [OF good j'(1)] good j' show ?thesis
    unfolding job_le_def state_le_def proof_le_def by auto
qed

theorem recovery_job_history_witness:
  "\<exists>j'. get_job (fst sample_claim) 1 = Some j' \<and> job_coherent j'"
proof -
  have "claimTurnRecoveryJob 1 sample_owner ''t1'' 60 10 (sample_db True Os_submitted)
      = Inr (fst sample_claim, snd sample_claim)" using sample_claimed(1) by simp
  from job_steps.More [OF job_step.Claim [OF this] job_steps.Done]
  have "job_steps sample_hash (sample_db True Os_submitted) (fst sample_claim)" .
  moreover have "get_job (sample_db True Os_submitted) 1 = Some (new_job 1 1 (sample_params True) 0)"
    by (simp add: get_job_def sample_db_def new_job_def)
  ultimately show ?thesis
    using recovery_job_history [OF _ sample_db_good sample_hash_ok] by blast
qed

text \<open>
  The history with the claims of one job counted.
\<close>

inductive claim_history :: "(string \<Rightarrow> string) \<Rightarrow> int \<Rightarrow> db \<Rightarrow> nat \<Rightarrow> db \<Rightarrow> bool" for hash k where
  Start: "claim_history hash k d 0 d"
| Other: "job_step hash d d1 \<Longrightarrow> claim_history hash k d1 n d2 \<Longrightarrow> claim_history hash k d n d2"
| Grant: "claimTurnRecoveryJob k owner token l now d = Inr (d1, r) \<Longrightarrow> cr_applied r
    \<Longrightarrow> claim_history hash k d1 n d2 \<Longrightarrow> claim_history hash k d (Suc n) d2"

lemma claim_history_epochs:
  assumes "claim_history hash k d n d'" "jobs_good d" "hex_digest hash" "get_job d k = Some j"
  shows "rj_claim_epoch j + int n \<le> 5"
  using assms
proof (induction arbitrary: j rule: claim_history.induct)
  case (Start d)
  from jobs_good_rows [OF Start(1,3)] show ?case by (simp add: job_coherent_def epochs_coherent_def)
next
  case (Other d d1 n d2)
  from job_step_advance [OF Other.hyps(1) Other.prems(1,2)] have adv: "jobs_advance d d1" .
  with Other.prems(3) obtain j1 where j1: "get_job d1 k = Some j1" "job_le j j1"
    unfolding jobs_advance_def by blast
  from adv have "jobs_good d1" by (simp add: jobs_advance_def)
  from Other.IH [OF this Other.prems(2) j1(1)] j1(2) show ?case by (simp add: job_le_def)
next
  case (Grant owner token l now d d1 r n d2)
  obtain j0 where j0: "get_job d k = Some j0" "get_job d1 k = Some (claim_row token l now j0)"
    by (rule claim_granted [OF Grant.hyps(1,2) jobs_good_wf [OF Grant.prems(1)]]) blast
  from claim_advance [OF Grant.hyps(1) Grant.prems(1)] have "jobs_good d1"
    by (simp add: jobs_advance_def)
  from Grant.IH [OF this Grant.prems(2) j0(2)] j0(1) Grant.prems(3) show ?case
    by (simp add: claim_row_def)
qed

text \<open>
  C17: A turn is handed out for replay at most five times. In any history of the store, with any
  interleaving of requeues, stale-lease recoveries, reassignments and echoes, the number of claims
  granted for one job is at most five (less the epoch it starts from).
\<close>

theorem at_most_five_claims:
  assumes "claim_history hash k d n d'" "jobs_good d" "hex_digest hash" "get_job d k = Some j"
  shows "rj_claim_epoch j + int n \<le> TURN_RECOVERY_MAX_ATTEMPTS \<and> n \<le> 5"
  using claim_history_epochs [OF assms] jobs_good_rows [OF assms(2,4)]
  by (simp add: TURN_RECOVERY_MAX_ATTEMPTS_def job_coherent_def epochs_coherent_def)

theorem at_most_five_claims_witness:
  "rj_claim_epoch (new_job 1 1 (sample_params True) 0) + int 1 \<le> TURN_RECOVERY_MAX_ATTEMPTS"
proof -
  have "claimTurnRecoveryJob 1 sample_owner ''t1'' 60 10 (sample_db True Os_submitted)
      = Inr (fst sample_claim, snd sample_claim)" using sample_claimed(1) by simp
  from claim_history.Grant [OF this _ claim_history.Start]
  have "claim_history sample_hash 1 (sample_db True Os_submitted) (Suc 0) (fst sample_claim)"
    by (simp add: sample_claimed(2))
  from at_most_five_claims [OF this sample_db_good sample_hash_ok] show ?thesis
    by (simp add: get_job_def sample_db_def new_job_def)
qed


text \<open>
  C18: A worker whose lease was taken over cannot touch the job. Once a claim has been granted under a
  newer epoch, then after any further history of the store and at any time, the older claim's fence
  makes a renewal throw, and its completion and its requeue either throw or report that nothing was
  applied and leave the database as it is.
\<close>

theorem superseded_claim_is_fenced:
  assumes "jobs_good d" "hex_digest hash" "claimTurnRecoveryJob k owner token l now d = Inr (d1, r)"
    "cr_applied r" "cf_claimEpoch f < cr_claimEpoch r" "job_steps hash d1 d2"
  shows "\<not> succeeds (renewTurnRecoveryClaim k owner' f l' now' d2)
    \<and> (\<forall>d3 b. completeTurnRecoveryJob k owner' f now' d2 = Inr (d3, b) \<longrightarrow> d3 = d2 \<and> \<not> b)
    \<and> (\<forall>d3 q. requeueTurnRecoveryJob hash k owner' f backoff now' d2 = Inr (d3, q)
         \<longrightarrow> d3 = d2 \<and> \<not> rq_applied q)"
proof -
  obtain j where row: "get_job d1 k = Some (claim_row token l now j)"
    and epoch: "cr_claimEpoch r = rj_claim_epoch j + 1"
    by (rule claim_granted [OF assms(3,4) jobs_good_wf [OF assms(1)]]) simp
  from claim_advance [OF assms(3,1)] have "jobs_good d1" by (simp add: jobs_advance_def)
  from job_steps_advance [OF assms(6) this assms(2)] have adv: "jobs_advance d1 d2" .
  then have wf: "wf_db d2" by (simp add: jobs_advance_def jobs_good_def)
  from old_fence_dead [OF adv row] assms(5) epoch
  have dead: "\<not> fence_live d2 k owner' f now'" by (simp add: claim_row_def)
  show ?thesis
    using dead_fence_renew [OF wf dead] dead_fence_complete [OF wf dead] dead_fence_requeue [OF wf dead]
    by blast
qed

theorem superseded_claim_is_fenced_witness:
  "\<not> succeeds (renewTurnRecoveryClaim 1 sample_owner \<lparr>cf_claimToken = ''t0'', cf_claimEpoch = 0\<rparr> 60 20
      (fst sample_claim))"
proof -
  have "claimTurnRecoveryJob 1 sample_owner ''t1'' 60 10 (sample_db True Os_submitted)
      = Inr (fst sample_claim, snd sample_claim)" using sample_claimed(1) by simp
  from superseded_claim_is_fenced [OF sample_db_good sample_hash_ok this _ _ job_steps.Done,
      of "\<lparr>cf_claimToken = ''t0'', cf_claimEpoch = 0\<rparr>"]
  show ?thesis by (simp add: sample_claimed(2))
qed

lemma claim_read:
  assumes "claimTurnRecoveryJob k owner token l now d = Inr res"
  shows "\<exists>u. getOwnedTurnRecoveryJob k owner d = Inr u
    \<and> (rj_state u = Js_claimed \<longrightarrow> succeeds (held_claim token now u))"
proof -
  from assms obtain u where "getOwnedTurnRecoveryJob k owner d = Inr u"
    and "(if rj_state u = Js_blocked_unsafe
     then Inl (Error ''Recovery job is blocked unsafe pending an idempotency proof'')
     else if rj_state u = Js_claimed
     then and_then (held_claim token now u) (\<lambda>c. Inr (d, c))
     else if rj_state u = Js_completed then Inl (Error ''Recovery job is already completed'')
     else if rj_state u = Js_exhausted
     then Inl (Error ''Recovery job attempts are exhausted'')
     else let (d', won) = cas_job (claimable d owner now) (claim_row token l now) k d in
       if won then (let row = claim_row token l now u in
         Inr (d', \<lparr>cr_applied = True, cr_claimToken = token, cr_claimEpoch = rj_claim_epoch row,
           cr_attemptCount = rj_attempt_count row, cr_claimExpiresAt = rj_claim_expires_at row\<rparr>))
       else Inl (Error ''Recovery job is still in backoff'')) = Inr res"
    unfolding claimTurnRecoveryJob_def and_then_Inr by blast
  then show ?thesis by (intro exI [of _ u] conjI impI) (auto simp: and_then_Inr succeeds_iff)
qed

lemma other_token_rejected:
  assumes "get_job d k = Some j" "rj_state j = Js_claimed" "rj_claim_token j \<noteq> Some token"
  shows "\<not> succeeds (claimTurnRecoveryJob k owner token l now d)"
proof
  assume "succeeds (claimTurnRecoveryJob k owner token l now d)"
  then obtain res where "claimTurnRecoveryJob k owner token l now d = Inr res"
    unfolding succeeds_iff ..
  then obtain u where "getOwnedTurnRecoveryJob k owner d = Inr u"
    and u: "rj_state u = Js_claimed \<longrightarrow> succeeds (held_claim token now u)"
    using claim_read by blast
  then have "u = j"
    using assms(1) by (auto simp: getOwnedTurnRecoveryJob_def and_then_Inr throw_if_Inr
        getInternalTurnRecoveryJob_def split: if_splits)
  with u assms(2,3) show False by (simp add: held_claim_def throw_if_def)
qed

lemma held_claim_again:
  assumes "getOwnedTurnRecoveryJob k owner d = Inr j" "rj_state j = Js_claimed"
    "rj_claim_token j = Some token" "isRecoveryClaimUnexpired now j" "bounded_id token" "1 \<le> l" "l \<le> 300"
  shows "claimTurnRecoveryJob k owner token l now d = Inr (d, \<lparr>cr_applied = False,
    cr_claimToken = token, cr_claimEpoch = rj_claim_epoch j, cr_attemptCount = rj_attempt_count j,
    cr_claimExpiresAt = rj_claim_expires_at j\<rparr>)"
proof -
  from assms(1) have v: "validatePositiveSafeInteger k ''Recovery job ID'' = Inr ()"
    "validateTurnRecoveryOwnerIdentity owner = Inr ()"
    unfolding getOwnedTurnRecoveryJob_def and_then_Inr by auto
  have "validateRecoveryClaimToken token = Inr ()" "validateRecoveryLeaseSeconds l = Inr ()"
    using assms(5-7) by (simp_all add: validateRecoveryClaimToken_def result_simps
        validateRecoveryLeaseSeconds_def TURN_RECOVERY_MAX_LEASE_SECONDS_def safe_integer_def)
  then show ?thesis
    using assms v by (simp add: claimTurnRecoveryJob_def held_claim_def)
qed


text \<open>
  C19: A granted claim is an exclusive lease. It is granted only for pending work of the claiming
  owner that is out of its backoff, has attempts left, is replayable (safe, or with an idempotency
  proof) and whose delivery has not been corroborated otherwise; it leaves a live fence with the
  next epoch, an attempt more and an expiry of the lease length from now. Until the store changes,
  any other token is refused at any time, even after expiry, and the same owner and token get the
  same claim back without another attempt while the lease lasts.
\<close>

theorem claim_grants_exclusive_lease:
  assumes "claimTurnRecoveryJob k owner token l now d = Inr (d', r)" "cr_applied r" "jobs_good d"
  shows "(\<exists>j. get_job d k = Some j \<and> rj_state j = Js_pending \<and> assigned_to owner j
        \<and> rj_next_attempt_at j \<le> now \<and> isTurnRecoveryReplayEligible j
        \<and> \<not> validDeliveryCorroborationForJob d j
        \<and> cr_claimEpoch r = rj_claim_epoch j + 1 \<and> cr_attemptCount r = rj_attempt_count j + 1)
    \<and> cr_attemptCount r \<le> TURN_RECOVERY_MAX_ATTEMPTS
    \<and> fence_live d' k owner \<lparr>cf_claimToken = token, cf_claimEpoch = cr_claimEpoch r\<rparr> now
    \<and> cr_claimExpiresAt r = Some (now + l)
    \<and> (token' \<noteq> token \<longrightarrow> \<not> succeeds (claimTurnRecoveryJob k owner' token' l' later d'))
    \<and> (later < now + l \<longrightarrow> claimTurnRecoveryJob k owner token l later d' = Inr (d', r\<lparr>cr_applied := False\<rparr>))"
proof -
  obtain j where j: "get_job d k = Some j" "claimable d owner now j" "valid_links d j \<noteq> None"
    "get_job d' k = Some (claim_row token l now j)"
    "d' = fst (cas_job (claimable d owner now) (claim_row token l now) k d)"
    "r = \<lparr>cr_applied = True, cr_claimToken = token, cr_claimEpoch = rj_claim_epoch j + 1,
      cr_attemptCount = rj_attempt_count j + 1, cr_claimExpiresAt = Some (now + l)\<rparr>"
    "bounded_id token" "1 \<le> l" "l \<le> 300"
    by (rule claim_granted [OF assms(1,2) jobs_good_wf [OF assms(3)]])
  let ?row = "claim_row token l now j"
  have pending: "rj_state j = Js_pending" "assigned_to owner j" "rj_next_attempt_at j \<le> now"
    "rj_attempt_count j < 5" "\<not> validDeliveryCorroborationForJob d j"
    using j(2) by (simp_all add: claimable_def TURN_RECOVERY_MAX_ATTEMPTS_def)
  have "replay_proved j"
    using jobs_good_rows [OF assms(3) j(1)] pending(1) by (simp add: job_coherent_def state_coherent_def)
  then have eligible: "isTurnRecoveryReplayEligible j"
    by (auto simp: replay_proved_def isTurnRecoveryReplayEligible_def required_identity_def
        split: option.splits)
  from claim_path [OF assms(1)] obtain u where "getOwnedTurnRecoveryJob k owner d = Inr u" by blast
  then have v: "validatePositiveSafeInteger k ''Recovery job ID'' = Inr ()"
    "validateTurnRecoveryOwnerIdentity owner = Inr ()"
    unfolding getOwnedTurnRecoveryJob_def and_then_Inr by auto
  have links: "valid_links d' ?row = valid_links d j"
    by (rule links_keep) (simp_all add: j(5) same_envelope_def claim_row_def)
  have owned: "getOwnedTurnRecoveryJob k owner d' = Inr ?row"
    using v j(3,4) pending(2) links
    by (simp add: getOwnedTurnRecoveryJob_def getInternalTurnRecoveryJob_def assigned_to_def claim_row_def)
  have live: "fence_live d' k owner \<lparr>cf_claimToken = token, cf_claimEpoch = cr_claimEpoch r\<rparr> now"
    using j(4,6,8) pending(2) by (simp add: fence_live_def fence_holds_def claim_row_def
        isRecoveryClaimUnexpired_def assigned_to_def)
  have other: "token' \<noteq> token \<longrightarrow> \<not> succeeds (claimTurnRecoveryJob k owner' token' l' later d')"
    using other_token_rejected [OF j(4)] by (simp add: claim_row_def)
  have again: "later < now + l \<longrightarrow>
      claimTurnRecoveryJob k owner token l later d' = Inr (d', r\<lparr>cr_applied := False\<rparr>)"
    using held_claim_again [OF owned _ _ _ j(7-9), of later]
    by (simp add: claim_row_def isRecoveryClaimUnexpired_def j(6))
  show ?thesis
    using j(1,6) pending eligible live other again
    by (simp add: TURN_RECOVERY_MAX_ATTEMPTS_def)
qed

theorem claim_grants_exclusive_lease_witness:
  "\<not> succeeds (claimTurnRecoveryJob 1 sample_owner ''t2'' 60 500 (fst sample_claim))"
proof -
  have "claimTurnRecoveryJob 1 sample_owner ''t1'' 60 10 (sample_db True Os_submitted)
      = Inr (fst sample_claim, snd sample_claim)" using sample_claimed(1) by simp
  from claim_grants_exclusive_lease [OF this _ sample_db_good, of "''t2''" sample_owner 60 500]
  show ?thesis by (simp add: sample_claimed(2))
qed

section \<open>Stale leases\<close>

lemma recover_stale_other:
  assumes "wf_db d" "\<forall>s \<in> set js. rj_id s \<noteq> k"
  shows "get_job (fst (recover_stale hash js now qe d)) k = get_job d k"
  using assms
proof (induction js arbitrary: d qe)
  case Nil
  then show ?case by (cases qe) simp
next
  case (Cons s js)
  obtain q e where qe: "qe = (q, e)" by (cases qe)
  have step: "get_job (fst (recover_stale hash js now qe' (fst (cas_job g (stale_row st h now) (rj_id s) d)))) k
      = get_job d k" for qe' g st h
    using Cons.prems Cons.IH [OF jobs.wf_cas [OF Cons.prems(1) row_ids(4)]]
    by (simp add: jobs.get_cas [OF Cons.prems(1) row_ids(4)])
  show ?case
    using step Cons.prems Cons.IH [OF Cons.prems(1)]
    by (cases "rj_claim_token s") (simp_all add: qe Let_def case_prod_beta)
qed

text \<open>
  Recovering stale claims never takes a live lease. A job that is not claimed, or whose lease has
  not expired at the time of the sweep, has exactly the same row after it, whatever else the sweep
  requeues or exhausts.
\<close>

lemma stale_recovery_spares_live_leases:
  assumes "recoverStaleTurnRecoveryJobs hash limit now d = Inr (d', q, e)" "wf_db d"
    "get_job d k = Some j" "rj_state j \<noteq> Js_claimed \<or> isRecoveryClaimUnexpired now j"
  shows "get_job d' k = Some j"
proof -
  have "rj_id s \<noteq> k" if "s \<in> set (getStaleTurnRecoveryJobs (nat limit) now d)" for s
  proof
    assume "rj_id s = k"
    from that have s: "s \<in> set (recovery_jobs d)" "rj_state s = Js_claimed"
      "case rj_claim_expires_at s of None \<Rightarrow> False | Some t \<Rightarrow> t \<le> now"
      by (auto simp: getStaleTurnRecoveryJobs_def dest: in_set_takeD)
    from assms(2) have "distinct (map rj_id (recovery_jobs d))" by (simp add: wf_db_def keys_ok_def)
    from find_key_unique [OF this s(1)] \<open>rj_id s = k\<close> assms(3) have "s = j" by (simp add: get_job_def)
    with s assms(4) show False by (simp add: isRecoveryClaimUnexpired_def split: option.splits)
  qed
  then have "get_job (fst (recover_stale hash (getStaleTurnRecoveryJobs (nat limit) now d) now (0, 0) d)) k
      = get_job d k"
    by (intro recover_stale_other assms(2)) blast
  with assms(1,3) show ?thesis by (auto simp: recoverStaleTurnRecoveryJobs_def throw_if_Inr)
qed

lemma stale_recovery_spares_live_leases_witness:
  "get_job (fst (recover_stale sample_hash (getStaleTurnRecoveryJobs 5 30 (fst sample_claim)) 30 (0, 0)
      (fst sample_claim))) 1 = get_job (fst sample_claim) 1"
proof -
  let ?d = "fst sample_claim"
  let ?r = "recover_stale sample_hash (getStaleTurnRecoveryJobs 5 30 ?d) 30 (0, 0) ?d"
  have rec: "recoverStaleTurnRecoveryJobs sample_hash 5 30 ?d = Inr (fst ?r, fst (snd ?r), snd (snd ?r))"
    unfolding recoverStaleTurnRecoveryJobs_def prod.collapse
    by (simp add: safe_integer_def del: recover_stale.simps)
  have "claimTurnRecoveryJob 1 sample_owner ''t1'' 60 10 (sample_db True Os_submitted)
      = Inr (?d, snd sample_claim)" using sample_claimed(1) by simp
  then obtain j where j: "get_job ?d 1 = Some (claim_row ''t1'' 60 10 j)"
    by (rule claim_granted) (simp_all add: sample_claimed(2) jobs_good_wf sample_db_good)
  from stale_recovery_spares_live_leases [OF rec jobs_good_wf [OF sample_claim_good] j]
  have "get_job (fst ?r) 1 = Some (claim_row ''t1'' 60 10 j)"
    by (simp add: isRecoveryClaimUnexpired_def claim_row_def)
  with j show ?thesis by (simp only:)
qed


section \<open>An echo settles a job once\<close>

definition same_inbound :: "inbound_event \<Rightarrow> inbound_event \<Rightarrow> bool" where
  "same_inbound i i' \<longleftrightarrow> ie_message_id i' = ie_message_id i
     \<and> ie_conversation_key i' = ie_conversation_key i \<and> ie_chat_jid i' = ie_chat_jid i"

lemma links_inbound:
  assumes "same_envelope j j'" "get_terminal d' = get_terminal d" "get_op d' = get_op d"
    "\<And>n. get_inbound d' n = map_option h (get_inbound d n)" "\<And>i. same_inbound i (h i)"
  shows "valid_links d' j' = map_option (\<lambda>(t, i, x). (t, h i, x)) (valid_links d j)"
proof -
  have l: "terminal_link_ok j' = terminal_link_ok j" "outbound_link_ok j' = outbound_link_ok j"
    "rj_terminal_record_id j' = rj_terminal_record_id j"
    "rj_source_inbound_seq j' = rj_source_inbound_seq j"
    using assms(1) by (auto simp: fun_eq_iff terminal_link_ok_def outbound_link_ok_def same_envelope_def)
  have i: "inbound_link_ok j' (h i) = inbound_link_ok j i" for i
    using assms(1) assms(5) [of i] by (simp add: inbound_link_ok_def same_inbound_def same_envelope_def)
  show ?thesis unfolding valid_links_def l assms(2-4)
    by (simp add: i split: option.split)
qed

lemma find_update_invariant:
  assumes "\<And>r. P' (if p r then f r else r) = P r"
  shows "find P' (update_rows p f rows) = map_option (\<lambda>r. if p r then f r else r) (find P rows)"
proof (induction rows)
  case (Cons r rows)
  then show ?case using assms [of r] by simp
qed simp

text \<open>What the settlement writes to the inbound table.\<close>

definition settled_inbound :: "bool \<Rightarrow> int \<Rightarrow> int \<Rightarrow> inbound_event \<Rightarrow> inbound_event" where
  "settled_inbound already n now i = (if \<not> already \<and> ie_seq i = n
     \<and> ie_processing_status i \<in> {Is_processing, Is_turn_done} then settle_inbound_row now i else i)"

lemma settled_inbound_same: "same_inbound i (settled_inbound already n now i)"
  by (simp add: same_inbound_def settled_inbound_def settle_inbound_row_def)

lemma settle_inbound_table:
  assumes "wf_db d"
  shows "get_inbound (if already then d else fst (settle_source_statement m now d)) n
    = map_option (settled_inbound already m now) (get_inbound d n)"
proof (cases already)
  case True
  then show ?thesis by (cases "get_inbound d n") (simp_all add: settled_inbound_def)
next
  case False
  have "fst (settle_source_statement m now d) = fst (cas_inbound
      (\<lambda>r. ie_processing_status r \<in> {Is_processing, Is_turn_done}) (settle_inbound_row now) m d)"
    by (simp add: settle_source_statement_def)
  then show ?thesis
    using False get_inbound_seq [of d n] get_inbound_seq [of d m]
    by (cases "get_inbound d n") (auto simp: inbounds.get_cas [OF assms] keeps_id_def
        settle_inbound_row_def settled_inbound_def)
qed

lemma echoed_job_links:
  assumes "echoed_job_for opId d = Some j" "wf_db d"
  obtains t i x where "valid_links d j = Some (t, i, x)" "op_id x = opId"
    "get_job d (rj_id j) = Some j" "get_inbound d (rj_source_inbound_seq j) = Some i"
    "ie_seq i = rj_source_inbound_seq j"
proof -
  from find_SomeD [OF assms(1) [unfolded echoed_job_for_def]]
  have j: "j \<in> set (recovery_jobs d)"
    and "case valid_links d j of None \<Rightarrow> False | Some (t, i, o') \<Rightarrow> op_id o' = opId" by auto
  then obtain t i x where l: "valid_links d j = Some (t, i, x)" "op_id x = opId"
    by (auto split: option.splits)
  from assms(2) have "distinct (map rj_id (recovery_jobs d))" by (simp add: wf_db_def keys_ok_def)
  from find_key_unique [OF this j] have "get_job d (rj_id j) = Some j" by (simp add: get_job_def)
  moreover from l(1) have "get_inbound d (rj_source_inbound_seq j) = Some i"
    by (auto simp: valid_links_def split: option.splits if_splits)
  ultimately show ?thesis using that l get_inbound_seq by blast
qed

lemma echo_row_envelope: "same_envelope j (echo_complete_row opId now j)"
  by (simp add: same_envelope_def echo_complete_row_def)

lemma settle_completed:
  assumes "validatePositiveSafeInteger opId ''Recovery outbound op ID'' = Inr ()"
    "echoed_job_for opId d = Some j" "valid_links d j = Some (t, i, x)" "op_status x = Os_echoed"
    "rj_state j = Js_completed" "source_settled i"
  shows "settleEchoedTurnRecoveryJob opId now d = Inr (d, \<lparr>st_matched = True, st_applied = False,
        st_jobId = Some (rj_id j), st_state = Some Js_completed, st_conflict = False\<rparr>)"
  using assms(4-6) unfolding settleEchoedTurnRecoveryJob_def
  by (simp add: assms(1-3) Let_def source_settled_def)

lemma settled_store_links:
  assumes "wf_db d" "same_envelope j0 j'"
  shows "valid_links (settled_store opId now j i d) j' = map_option (\<lambda>(t, i', x).
     (t, settled_inbound (source_settled i) (ie_seq i) now i', x)) (valid_links d j0)"
proof (rule links_inbound [OF assms(2) _ _ _ settled_inbound_same])
  show "get_terminal (settled_store opId now j i d) = get_terminal d"
    and "get_op (settled_store opId now j i d) = get_op d"
    by (simp_all add: fun_eq_iff settled_store_def get_terminal_def get_op_def
        settle_source_statement_def cas_inbound_def Let_def)
  have "get_inbound (settled_store opId now j i d) n = get_inbound
      (if source_settled i then d else fst (settle_source_statement (ie_seq i) now d)) n" for n
    by (simp only: settled_store_def get_inbound_def promote_identity_frame cas_job_tables)
  then show "get_inbound (settled_store opId now j i d) n
      = map_option (settled_inbound (source_settled i) (ie_seq i) now) (get_inbound d n)" for n
    by (simp only: settle_inbound_table [OF assms(1)])
qed

lemma settled_store_jobs:
  "recovery_jobs (settled_store opId now j i d) = update_rows
     (\<lambda>r. rj_id r = rj_id j \<and> rj_state r \<noteq> Js_completed) (echo_complete_row opId now) (recovery_jobs d)"
  by (simp add: settled_store_def cas_job_def Let_def settle_source_statement_def
      cas_inbound_def)

lemma settled_store_echoed_job:
  assumes "wf_db d" "echoed_job_for opId d = Some j" "rj_state j \<noteq> Js_completed"
  shows "echoed_job_for opId (settled_store opId now j i d) = Some (echo_complete_row opId now j)"
proof -
  define old where "old = (\<lambda>r. case valid_links d r of None \<Rightarrow> False
    | Some (t, i, o') \<Rightarrow> op_id o' = opId)"
  define new where "new = (\<lambda>r. case valid_links (settled_store opId now j i d) r of None \<Rightarrow> False
    | Some (t, i, o') \<Rightarrow> op_id o' = opId)"
  have agree: "new r' = old r" if "same_envelope r r'" for r r'
    using settled_store_links [OF assms(1) that, of opId now j i]
    by (simp add: new_def old_def split: option.split)
  have keep: "new (if p r then echo_complete_row opId now r else r) = old r" for p r
    using agree [OF echo_row_envelope [of r opId now]] agree [of r r] by (simp add: same_envelope_def)
  have pinned: "new (if rj_id r = rj_id j \<and> rj_state r \<noteq> Js_completed
      then echo_complete_row opId now r else r) = old r" for r
    by (rule keep)
  from assms(2) have "find old (recovery_jobs d) = Some j" by (simp add: echoed_job_for_def old_def)
  then have "find new (recovery_jobs (settled_store opId now j i d)) = Some (echo_complete_row opId now j)"
    using find_update_invariant [of new, OF pinned, of "recovery_jobs d"] assms(3)
    by (simp only: settled_store_jobs) simp
  then show ?thesis by (simp add: echoed_job_for_def new_def)
qed


lemma settled_once:
  assumes "settleEchoedTurnRecoveryJob opId now d = Inr (d', r)" "st_applied r" "jobs_good d"
    "echoed_job_for opId d = Some j"
  shows "\<exists>j' i'. st_jobId r = Some (rj_id j) \<and> get_job d (rj_id j) = Some j
    \<and> rj_state j \<noteq> Js_completed \<and> get_job d' (rj_id j) = Some j' \<and> job_coherent j'
    \<and> rj_state j' = Js_completed \<and> rj_completion_kind j' = Some ''echo''
    \<and> rj_completion_proof_id j' = Some (echo_proof opId)
    \<and> get_inbound d' (rj_source_inbound_seq j) = Some i' \<and> source_settled i'
    \<and> settleEchoedTurnRecoveryJob opId later d' = Inr (d', \<lparr>st_matched = True, st_applied = False,
        st_jobId = Some (rj_id j), st_state = Some Js_completed, st_conflict = False\<rparr>)"
proof -
  have wf: "wf_db d" by (rule jobs_good_wf [OF assms(3)])
  note e = assms(4)
  from settle_outcome [OF assms(1)] assms(2) e obtain t i x where
    l: "valid_links d j = Some (t, i, x)"
    and x: "op_status x = Os_echoed" and open_job: "rj_state j \<noteq> Js_completed"
    and d': "d' = settled_store opId now j i d" and id: "st_jobId r = Some (rj_id j)" by auto
  from echoed_job_links [OF e wf] l have j: "get_job d (rj_id j) = Some j"
    "get_inbound d (rj_source_inbound_seq j) = Some i" "ie_seq i = rj_source_inbound_seq j" by auto
  let ?j = "echo_complete_row opId now j" and ?i = "settled_inbound (source_settled i) (ie_seq i) now i"
  have st: "rj_state ?j = Js_completed" "rj_id ?j = rj_id j"
    by (simp_all add: echo_complete_row_def)
  from settle_applied_source [OF assms(1,2) e l] have settled: "source_settled ?i"
    by (auto simp: settled_inbound_def settle_inbound_row_def source_settled_def)
  have e': "echoed_job_for opId d' = Some ?j"
    unfolding d' by (rule settled_store_echoed_job [OF wf e open_job])
  have l': "valid_links d' ?j = Some (t, ?i, x)"
    unfolding d' using settled_store_links [OF wf echo_row_envelope] l by simp
  from settle_advance [OF assms(1,3)] have good: "jobs_good d'" by (simp add: jobs_advance_def)
  from echoed_job_links [OF e' jobs_good_wf [OF good]] l'
  have j': "get_job d' (rj_id ?j) = Some ?j" "get_inbound d' (rj_source_inbound_seq ?j) = Some ?i"
    by auto
  from jobs_good_rows [OF good j'(1)] have "job_coherent ?j" .
  moreover have "validatePositiveSafeInteger opId ''Recovery outbound op ID'' = Inr ()"
    using assms(1) unfolding settleEchoedTurnRecoveryJob_def and_then_Inr by auto
  then have "settleEchoedTurnRecoveryJob opId later d' = Inr (d', \<lparr>st_matched = True, st_applied = False,
        st_jobId = Some (rj_id j), st_state = Some Js_completed, st_conflict = False\<rparr>)"
    unfolding st(2) [symmetric] by (rule settle_completed) (rule e' l' x st(1) settled)+
  ultimately show ?thesis
    using j j' id open_job settled
    by (intro exI [of _ ?j] exI [of _ ?i])
      (simp add: echo_complete_row_def)
qed

text \<open>
  A delivery echo settles its recovery job exactly once and atomically with its turn. When the
  settlement reports that it was applied, the job matched to the operation was open, is now completed
  with the echo as its proof, holds no replayable claim epoch beyond five, and its source inbound
  event is complete with the reason response_echoed. Settling the same echo again, at any time,
  changes nothing and reports neither an application nor a conflict.
\<close>

lemma echo_settles_job_once:
  assumes "settleEchoedTurnRecoveryJob opId now d = Inr (d', r)" "st_applied r" "jobs_good d"
  shows "\<exists>j j' i'. st_jobId r = Some (rj_id j) \<and> get_job d (rj_id j) = Some j
    \<and> rj_state j \<noteq> Js_completed \<and> get_job d' (rj_id j) = Some j' \<and> job_coherent j'
    \<and> rj_state j' = Js_completed \<and> rj_completion_kind j' = Some ''echo''
    \<and> rj_completion_proof_id j' = Some (echo_proof opId)
    \<and> get_inbound d' (rj_source_inbound_seq j) = Some i' \<and> source_settled i'
    \<and> settleEchoedTurnRecoveryJob opId later d' = Inr (d', \<lparr>st_matched = True, st_applied = False,
        st_jobId = Some (rj_id j), st_state = Some Js_completed, st_conflict = False\<rparr>)"
proof -
  from settle_outcome [OF assms(1)] assms(2) obtain j where "echoed_job_for opId d = Some j" by blast
  from settled_once [OF assms this] show ?thesis by blast
qed

definition sample_settled :: "db \<times> settlement" where
  "sample_settled = (case settleEchoedTurnRecoveryJob 1 20 (sample_db True Os_echoed) of
     Inr r \<Rightarrow> r | Inl _ \<Rightarrow> (empty_db, \<lparr>st_matched = False, st_applied = False, st_jobId = None,
       st_state = None, st_conflict = False\<rparr>))"

lemma echo_settles_job_once_witness:
  "settleEchoedTurnRecoveryJob 1 30 (fst sample_settled) = Inr (fst sample_settled,
     \<lparr>st_matched = True, st_applied = False, st_jobId = Some 1, st_state = Some Js_completed,
      st_conflict = False\<rparr>)"
proof -
  have "settleEchoedTurnRecoveryJob 1 20 (sample_db True Os_echoed)
      = Inr (fst sample_settled, snd sample_settled)" by code_simp
  moreover have "st_applied (snd sample_settled)" "st_jobId (snd sample_settled) = Some 1" by code_simp+
  ultimately show ?thesis
    using echo_settles_job_once [OF _ _ sample_db_good, of 1 20 True Os_echoed "fst sample_settled"
      "snd sample_settled" 30] by auto
qed

end
