(* ===== verification/Settlement.thy ===== *)
theory Settlement
  imports Leases
begin

text \<open>
  The two outbound transitions that reach into the other tables (\<^verbatim>\<open>src/core/durability.ts\<close>,
  markEchoed, markTerminal, matchEcho) and the transaction wrapper they run in
  (\<^verbatim>\<open>src/core/db-tx.ts\<close>): an echo settles the recovery job linked to its operation, and only an
  operation no terminal record owns completes its inbound event directly.
\<close>

section \<open>Transactions\<close>

text \<open>
  A callback that throws leaves the database as it was on entry, at the outermost level by ROLLBACK
  and at a nested one by ROLLBACK TO its savepoint. BEGIN, COMMIT and RELEASE are assumed to succeed.
\<close>

definition withTransaction :: "(db \<Rightarrow> db \<times> 'a result) \<Rightarrow> db \<Rightarrow> db \<times> 'a result" where
  "withTransaction body d = (case body d of (d', Inr x) \<Rightarrow> (d', Inr x) | (d', Inl e) \<Rightarrow> (d, Inl e))"

lemma withTransaction_throws: "snd (withTransaction body d) = Inl e \<Longrightarrow> fst (withTransaction body d) = d"
  by (auto simp: withTransaction_def split: prod.splits sum.splits)

section \<open>Echo and terminal marks\<close>

definition terminal_record_owned :: "db \<Rightarrow> outbound_op \<Rightarrow> bool" where
  "terminal_record_owned d r \<longleftrightarrow>
     list_ex (\<lambda>t. op_source_inbound_seq r = Some (tt_inbound_seq_key t)) (terminal_records d)"

definition unowned_source :: "db \<Rightarrow> outbound_op \<Rightarrow> int option" where
  "unowned_source d r = (case op_source_inbound_seq r of None \<Rightarrow> None
     | Some n \<Rightarrow> if n \<noteq> 0 \<and> \<not> terminal_record_owned d r then Some n else None)"

definition echo_row :: "int \<Rightarrow> outbound_op \<Rightarrow> outbound_op" where
  "echo_row now r = r\<lparr>op_status := Os_echoed,
     op_echoed_at := (case op_echoed_at r of None \<Rightarrow> Some now | s \<Rightarrow> s)\<rparr>"

text \<open>The statement on the operation, aborted by a trigger when the operation is a proof.\<close>

definition runMarkEchoed :: "int \<Rightarrow> int \<Rightarrow> db \<Rightarrow> db result" where
  "runMarkEchoed k now d = unless_aborted (outbound_abort (\<lambda>r. True) (echo_row now) k d) (echo_statement k now d)"

definition complete_unowned :: "(outbound_op \<Rightarrow> bool) \<Rightarrow> int \<Rightarrow> int \<Rightarrow> db \<Rightarrow> db \<times> unit result" where
  "complete_unowned p k now d = (case get_op d k of None \<Rightarrow> (d, Inr ())
     | Some r \<Rightarrow> if p r then (case unowned_source d r of None \<Rightarrow> (d, Inr ())
         | Some n \<Rightarrow> completeInbound n ''response_sent'' now d) else (d, Inr ()))"

definition markEchoed :: "int \<Rightarrow> int \<Rightarrow> db \<Rightarrow> db \<times> unit result" where
  "markEchoed k now = withTransaction (\<lambda>d. case runMarkEchoed k now d of
       Inl e \<Rightarrow> (d, Inl e)
     | Inr d1 \<Rightarrow> (case settleEchoedTurnRecoveryJob k now d1 of
         Inl e \<Rightarrow> (d1, Inl e)
       | Inr (d2, recovery) \<Rightarrow> if st_matched recovery then (d2, Inr ())
           else complete_unowned op_is_terminal k now d2))"

text \<open>Not a transaction: the mark stays when the completion throws.\<close>

definition markTerminal :: "int \<Rightarrow> int \<Rightarrow> db \<Rightarrow> db \<times> unit result" where
  "markTerminal k now d = (case runMarkTerminal k d of
       Inl e \<Rightarrow> (d, Inl e)
     | Inr (d1, changed) \<Rightarrow> complete_unowned (\<lambda>r. op_status r = Os_echoed) k now d1)"

definition matchEcho :: "string \<Rightarrow> int \<Rightarrow> db \<Rightarrow> db \<times> bool result" where
  "matchEcho waMessageId now d = (case selectOutboundForEchoMatch waMessageId d of
     None \<Rightarrow> (d, Inr False)
   | Some k \<Rightarrow> (case markEchoed k now d of
       (d', Inl e) \<Rightarrow> (d', Inl e) | (d', Inr _) \<Rightarrow> (d', Inr True)))"

section \<open>What an operation update leaves alone\<close>

lemma links_op:
  assumes "terminal_records d' = terminal_records d" "inbound_events d' = inbound_events d"
    "\<And>n. get_op d' n = map_option h (get_op d n)"
    "\<And>x. op_source_inbound_seq (h x) = op_source_inbound_seq x"
    "\<And>x. op_conversation_key (h x) = op_conversation_key x" "\<And>x. op_chat_jid (h x) = op_chat_jid x"
  shows "valid_links d' j = map_option (\<lambda>(t, i, x). (t, i, h x)) (valid_links d j)"
proof -
  have g: "get_terminal d' = get_terminal d" "get_inbound d' = get_inbound d"
    by (simp_all add: fun_eq_iff get_terminal_def get_inbound_def assms(1,2))
  have o: "outbound_link_ok j (h x) = outbound_link_ok j x" for x
    by (simp add: outbound_link_ok_def assms(4-6))
  show ?thesis unfolding valid_links_def g
    by (auto simp: assms(3) o split: option.split bind_split)
qed

definition at_op :: "int \<Rightarrow> (outbound_op \<Rightarrow> outbound_op) \<Rightarrow> outbound_op \<Rightarrow> outbound_op" where
  "at_op k f r = (if op_id r = k then f r else r)"

lemma get_op_always:
  assumes "wf_db d" "keeps_id op_id f"
  shows "get_op (fst (cas_op (\<lambda>r. True) f k d)) n = map_option (at_op k f) (get_op d n)"
  using get_op_id [of d n] by (cases "get_op d n") (auto simp: ops.get_cas [OF assms] at_op_def)

lemma echo_statement_row:
  assumes "wf_db d"
  shows "get_op (echo_statement k now d) n = map_option (at_op k (echo_row now)) (get_op d n)"
  unfolding echo_statement_def echo_row_def [abs_def]
  by (rule get_op_always [OF assms]) (simp add: keeps_id_def)

lemma terminal_statement_row:
  assumes "wf_db d"
  shows "get_op (fst (terminal_statement k d)) n
    = map_option (at_op k (\<lambda>r. r\<lparr>op_is_terminal := True\<rparr>)) (get_op d n)"
  unfolding terminal_statement_def by (rule get_op_always [OF assms]) (simp add: keeps_id_def)

lemma cas_op_tables [simp]:
  "terminal_records (fst (cas_op g f k d)) = terminal_records d"
  "inbound_events (fst (cas_op g f k d)) = inbound_events d"
  "recovery_jobs (fst (cas_op g f k d)) = recovery_jobs d"
  "last_job_id (fst (cas_op g f k d)) = last_job_id d"
  by (simp_all add: cas_op_def Let_def)

lemma statement_tables [simp]:
  "terminal_records (echo_statement k now d) = terminal_records d"
  "inbound_events (echo_statement k now d) = inbound_events d"
  "recovery_jobs (echo_statement k now d) = recovery_jobs d"
  "terminal_records (fst (terminal_statement k d)) = terminal_records d"
  "inbound_events (fst (terminal_statement k d)) = inbound_events d"
  "recovery_jobs (fst (terminal_statement k d)) = recovery_jobs d"
  by (simp_all add: echo_statement_def terminal_statement_def)

lemma statement_wf:
  "wf_db d \<Longrightarrow> wf_db (echo_statement k now d)"
  "wf_db d \<Longrightarrow> wf_db (fst (terminal_statement k d))"
  unfolding echo_statement_def terminal_statement_def
  by (rule ops.wf_cas, assumption, simp add: keeps_id_def)+

lemma op_update_links:
  assumes "wf_db d" "h = echo_row now \<and> d' = echo_statement k now d
    \<or> h = (\<lambda>r. r\<lparr>op_is_terminal := True\<rparr>) \<and> d' = fst (terminal_statement k d)"
  shows "valid_links d' j = map_option (\<lambda>(t, i, x). (t, i, at_op k h x)) (valid_links d j)"
  using assms(2)
proof
  assume a: "h = echo_row now \<and> d' = echo_statement k now d"
  show ?thesis
  proof (rule links_op [where h = "at_op k h"])
    show "get_op d' n = map_option (at_op k h) (get_op d n)" for n
      using a echo_statement_row [OF assms(1)] by simp
  qed (use a in \<open>simp_all add: at_op_def echo_row_def\<close>)
next
  assume a: "h = (\<lambda>r. r\<lparr>op_is_terminal := True\<rparr>) \<and> d' = fst (terminal_statement k d)"
  show ?thesis
  proof (rule links_op [where h = "at_op k h"])
    show "get_op d' n = map_option (at_op k h) (get_op d n)" for n
      using a terminal_statement_row [OF assms(1)] by simp
  qed (use a in \<open>simp_all add: at_op_def\<close>)
qed

lemma echoed_job_op_update:
  assumes "wf_db d" "h = echo_row now \<and> d' = echo_statement k now d
    \<or> h = (\<lambda>r. r\<lparr>op_is_terminal := True\<rparr>) \<and> d' = fst (terminal_statement k d)"
  shows "echoed_job_for n d' = echoed_job_for n d"
proof -
  have h: "op_id (at_op k h x) = op_id x" for x
    using assms(2) by (auto simp: at_op_def echo_row_def)
  have "recovery_jobs d' = recovery_jobs d" using assms(2) by auto
  then show ?thesis unfolding echoed_job_for_def op_update_links [OF assms]
    by (auto simp: h intro!: find_cong split: option.split)
qed

section \<open>Settlement never fails once the echo is recorded\<close>

text \<open>What settlement leaves behind for the job of an operation.\<close>

definition echo_accounted :: "db \<Rightarrow> recovery_job \<Rightarrow> bool" where
  "echo_accounted d j \<longleftrightarrow> (\<exists>j'. get_job d (rj_id j) = Some j'
     \<and> (rj_state j' = Js_completed
          \<and> (\<exists>i. get_inbound d (rj_source_inbound_seq j) = Some i \<and> source_settled i)
        \<or> rj_echo_conflict_at j' \<noteq> None))"

lemma conflict_recorded:
  assumes "jobs_good d" "get_job d (rj_id j) = Some j"
  shows "echo_accounted (recordEchoedTurnRecoveryConflict reason (rj_id j) now d) j"
  using assms by (simp add: echo_accounted_def recordEchoedTurnRecoveryConflict_def jobs_good_def
      jobs.get_cas row_ids conflict_row_def split: option.split)

lemma echoed_link_op:
  assumes "valid_links d j = Some (t, i, x)"
  shows "get_op d (op_id x) = Some x"
  using assms by (auto simp: valid_links_def bind_eq_Some_conv dest: get_op_id
      split: option.splits if_splits)

lemma settle_guards:
  fixes now k :: int
  assumes "wf_db d" "get_job d (rj_id j) = Some j" "rj_state j \<noteq> Js_completed"
    "get_inbound d (ie_seq i) = Some i"
    "source_settled i \<or> ie_processing_status i \<in> {Is_processing, Is_turn_done}"
  defines "r1 \<equiv> (if source_settled i then (d, True)
      else settle_source_statement (ie_seq i) now d)"
  shows "snd r1" "snd (cas_job (\<lambda>r. rj_state r \<noteq> Js_completed) (echo_complete_row k now) (rj_id j) (fst r1))"
proof -
  show "snd r1" using assms(1,4,5)
    by (auto simp: r1_def settle_source_statement_def inbounds.cas_wins keeps_id_def settle_inbound_row_def)
  have "wf_db (fst r1)" using assms(1) by (simp add: r1_def echo_inbound_frame)
  moreover have "get_job (fst r1) (rj_id j) = Some j"
    using assms(2) by (simp add: r1_def settle_source_statement_def)
  ultimately show "snd (cas_job (\<lambda>r. rj_state r \<noteq> Js_completed) (echo_complete_row k now) (rj_id j) (fst r1))"
    using assms(3) by (simp add: jobs.cas_wins row_ids)
qed

lemma settle_open_job:
  assumes "wf_db d" "positive_safe k" "echoed_job_for k d = Some j" "valid_links d j = Some (t, i, x)"
    "op_status x = Os_echoed" "rj_state j \<noteq> Js_completed"
    "source_settled i \<or> ie_processing_status i \<in> {Is_processing, Is_turn_done}" "\<not> linked_inbound (ie_seq i) d"
  shows "\<exists>d' r. settleEchoedTurnRecoveryJob k now d = Inr (d', r) \<and> st_matched r \<and> st_applied r"
proof -
  obtain i' where j: "get_job d (rj_id j) = Some j" and i': "i' = i"
    "get_inbound d (rj_source_inbound_seq j) = Some i'" "ie_seq i' = rj_source_inbound_seq j"
    by (rule echoed_job_links [OF assms(3,1)]) (use assms(4) in simp)
  have i: "get_inbound d (ie_seq i) = Some i"
    using i'(2) unfolding i'(3) [symmetric] i'(1) .
  note guards = settle_guards [OF assms(1) j assms(6) i assms(7), where now = now]
  have v: "validatePositiveSafeInteger k ''Recovery outbound op ID'' = Inr ()"
    using assms(2) by (simp add: result_simps)
  have ran: "completeEchoedTurnRecoveryInbound (ie_seq i) now d = Inr (settle_source_statement (ie_seq i) now d)"
    using assms(8) by (simp add: completeEchoedTurnRecoveryInbound_def no_inbound_abort settle_inbound_row_def)
  note eval = settleEchoedTurnRecoveryJob_def v ran assms(3,4)
  show ?thesis
  proof (cases "source_settled i")
    case True
    then have t: "ie_processing_status i = Is_complete" "ie_terminal_reason i = Some ''response_echoed''"
      by (simp_all add: source_settled_def)
    from guards(2) True show ?thesis
      by (simp add: eval Let_def t assms(5,6) case_prod_beta)
  next
    case False
    with assms(7) have "ie_processing_status i = Is_processing \<or> ie_processing_status i = Is_turn_done"
      by blast
    then show ?thesis
      using guards False
      by (elim disjE) (simp_all add: eval Let_def assms(5,6) case_prod_beta)
  qed
qed

text \<open>What settling says and leaves when it returns.\<close>

lemma settle_facts:
  assumes "jobs_good d" "positive_safe k" "\<And>x. get_op d k = Some x \<Longrightarrow> op_status x = Os_echoed"
    "settleEchoedTurnRecoveryJob k now d = Inr (d', r)"
  shows "echoed_job_for k d = None \<Longrightarrow> \<not> st_matched r \<and> d' = d"
    "echoed_job_for k d = Some j \<Longrightarrow> st_matched r \<and> echo_accounted d' j"
proof -
  have wf: "wf_db d" by (rule jobs_good_wf [OF assms(1)])
  have v: "validatePositiveSafeInteger k ''Recovery outbound op ID'' = Inr ()"
    using assms(2) by (simp add: result_simps)
  show "echoed_job_for k d = None \<Longrightarrow> \<not> st_matched r \<and> d' = d"
    using assms(4) v by (auto simp: settleEchoedTurnRecoveryJob_def)
  assume Some: "echoed_job_for k d = Some j"
  obtain t i x where l: "valid_links d j = Some (t, i, x)" "op_id x = k" "get_job d (rj_id j) = Some j"
    "get_inbound d (rj_source_inbound_seq j) = Some i" "ie_seq i = rj_source_inbound_seq j"
    by (rule echoed_job_links [OF Some wf])
  from assms(3) echoed_link_op [OF l(1)] l(2) have x: "op_status x = Os_echoed" by simp
  note eval = assms(4) [unfolded settleEchoedTurnRecoveryJob_def source_settled_def]
  consider (finished) "rj_state j = Js_completed" "source_settled i"
    | (conflict) "rj_state j = Js_completed" "\<not> source_settled i"
    | (stuck) "rj_state j \<noteq> Js_completed"
        "\<not> (source_settled i \<or> ie_processing_status i \<in> {Is_processing, Is_turn_done})"
    | (live) "rj_state j \<noteq> Js_completed"
        "source_settled i \<or> ie_processing_status i \<in> {Is_processing, Is_turn_done}" by blast
  then show "st_matched r \<and> echo_accounted d' j"
  proof cases
    case finished
    from settle_completed [OF v Some l(1) x finished] assms(4) l finished show ?thesis
      by (auto simp: echo_accounted_def)
  next
    case conflict
    then have "d' = recordEchoedTurnRecoveryConflict ''completed_job_source_conflict'' (rj_id j) now d" "st_matched r"
      using eval unfolding source_settled_def by (auto simp: v Some l(1) x Let_def)
    with conflict_recorded [OF assms(1) l(3)] show ?thesis by simp
  next
    case stuck
    then have "d' = recordEchoedTurnRecoveryConflict ''open_job_source_not_echo_settleable'' (rj_id j) now d" "st_matched r"
      using eval unfolding source_settled_def by (auto simp: v Some l(1) x Let_def)
    with conflict_recorded [OF assms(1) l(3)] show ?thesis by simp
  next
    case live
    then have "st_matched r" "st_applied r"
      using eval unfolding source_settled_def
      by (auto simp: v Some l(1) x Let_def and_then_Inr throw_if_Inr case_prod_beta)
    from this(1) settled_once [OF assms(4) this(2) assms(1) Some, of now] show ?thesis
      unfolding echo_accounted_def by blast
  qed
qed

text \<open>It throws only when a trigger guards the source event.\<close>

lemma settle_throws:
  assumes "wf_db d" "positive_safe k" "\<And>x. get_op d k = Some x \<Longrightarrow> op_status x = Os_echoed"
    "settleEchoedTurnRecoveryJob k now d = Inl e"
  obtains j where "echoed_job_for k d = Some j" "linked_inbound (rj_source_inbound_seq j) d"
proof (cases "echoed_job_for k d")
  case None
  have v: "validatePositiveSafeInteger k ''Recovery outbound op ID'' = Inr ()"
    using assms(2) by (simp add: result_simps)
  from None assms(4) show ?thesis by (simp add: settleEchoedTurnRecoveryJob_def v)
next
  case (Some j)
  have v: "validatePositiveSafeInteger k ''Recovery outbound op ID'' = Inr ()"
    using assms(2) by (simp add: result_simps)
  obtain t i x where l: "valid_links d j = Some (t, i, x)" "op_id x = k" "get_job d (rj_id j) = Some j"
    "get_inbound d (rj_source_inbound_seq j) = Some i" "ie_seq i = rj_source_inbound_seq j"
    by (rule echoed_job_links [OF Some assms(1)])
  from assms(3) echoed_link_op [OF l(1)] l(2) have x: "op_status x = Os_echoed" by simp
  note eval = assms(4) [unfolded settleEchoedTurnRecoveryJob_def]
  have live: "rj_state j \<noteq> Js_completed" "source_settled i \<or> ie_processing_status i \<in> {Is_processing, Is_turn_done}"
    using eval by (auto simp: v Some l(1) x Let_def source_settled_def split: if_splits)
  have "linked_inbound (ie_seq i) d"
    using settle_open_job [OF assms(1,2) Some l(1) x live, of now] assms(4) by auto
  with Some l(5) show ?thesis by (intro that) simp_all
qed

section \<open>Completing an inbound event as a table update\<close>

definition complete_row_of :: "string \<Rightarrow> int \<Rightarrow> inbound_event \<Rightarrow> inbound_event" where
  "complete_row_of reason now r = r\<lparr>ie_processing_status := Is_complete, ie_completed_at := Some now,
     ie_terminal_reason := Some reason\<rparr>"

definition complete_table :: "int \<Rightarrow> string \<Rightarrow> int \<Rightarrow> inbound_event list \<Rightarrow> inbound_event list" where
  "complete_table k reason now =
     update_rows (\<lambda>r. ie_seq r = k \<and> \<not> scheduled_turn_loss_row r) (complete_row_of reason now)"

lemma complete_not_loss: "\<not> scheduled_turn_loss_row (complete_row_of reason now r)"
  by (simp add: scheduled_turn_loss_row_def complete_row_of_def)

lemma complete_table_idem: "complete_table k reason now (complete_table k reason now rows)
    = complete_table k reason now rows"
proof -
  have "complete_row_of reason now (complete_row_of reason now r) = complete_row_of reason now r" for r
    by (simp add: complete_row_of_def)
  then show ?thesis by (simp add: complete_table_def update_rows_def complete_not_loss)
qed

lemma complete_statement_table:
  "fst (cas_inbound (\<lambda>r. \<not> scheduled_turn_loss_row r) (\<lambda>r. r\<lparr>ie_processing_status := Is_complete,
     ie_completed_at := Some now, ie_terminal_reason := Some reason\<rparr>) k d)
   = d\<lparr>inbound_events := complete_table k reason now (inbound_events d)\<rparr>"
  by (simp add: cas_inbound_def complete_table_def complete_row_of_def [abs_def] Let_def)

lemma complete_after_turn_done:
  assumes "d1 = fst (cas_inbound (\<lambda>r. \<not> scheduled_turn_loss_row r) (\<lambda>r. r\<lparr>ie_processing_status := Is_turn_done\<rparr>) k d)"
  shows "d1\<lparr>inbound_events := complete_table k reason now (inbound_events d1)\<rparr>
    = d\<lparr>inbound_events := complete_table k reason now (inbound_events d)\<rparr>"
proof -
  have "complete_row_of reason now (x\<lparr>ie_processing_status := Is_turn_done\<rparr>) = complete_row_of reason now x" for x
    by (simp add: complete_row_of_def)
  then have "complete_table k reason now (inbound_events d1) = complete_table k reason now (inbound_events d)"
    by (auto simp: assms complete_table_def cas_inbound_def Let_def update_rows_def scheduled_turn_loss_row_def)
  then show ?thesis by (simp add: assms cas_inbound_def Let_def)
qed

lemma completeInbound_table:
  assumes "completeInbound k reason now d = (d', Inr ())"
  shows "d' = d\<lparr>inbound_events := complete_table k reason now (inbound_events d)\<rparr>"
  using assms
proof (cases rule: completeInbound_cases)
  case (full d1 b)
  from pair_fst [OF inbound_writerD(1) [OF full(3)]]
  have "d' = d1\<lparr>inbound_events := complete_table k reason now (inbound_events d1)\<rparr>"
    by (simp only: complete_statement_table)
  with full(2) complete_after_turn_done [OF markTurnDoneD, of k d d1] show ?thesis by auto
qed simp_all

text \<open>An event that no trigger guards is completed.\<close>

lemma completeInbound_runs:
  assumes "\<not> linked_inbound k d" "\<not> completed_source k d"
  shows "completeInbound k reason now d = (d\<lparr>inbound_events := complete_table k reason now (inbound_events d)\<rparr>, Inr ())"
proof -
  have runs: "\<not> linked_inbound k x \<Longrightarrow> \<exists>d'. markInboundComplete k reason now x = Inr d'" for x
    by (simp add: markInboundComplete_def update_inbound_def no_inbound_abort)
  have first: "\<exists>d1. markTurnDone k d = Inr d1"
    using assms by (simp add: markTurnDone_def update_inbound_def no_inbound_abort case_prod_beta)
  have "\<not> linked_inbound k d1" if "markTurnDone k d = Inr d1" for d1
    using assms(1) unfolding markTurnDoneD [OF that] by (simp add: linked_inbound_def cas_inbound_def Let_def)
  with runs [OF assms(1)] runs first have "snd (completeInbound k reason now d) = Inr ()"
    by (fastforce simp: completeInbound_def split: option.splits sum.splits prod.splits)
  then show ?thesis
    using completeInbound_table [of k reason now d "fst (completeInbound k reason now d)"] by (simp add: prod_eq_iff)
qed

lemma completeInbound_throws:
  "completeInbound k reason now d = (d', Inl e) \<Longrightarrow> linked_inbound k d \<or> completed_source k d"
  using completeInbound_runs [of k d] by fastforce

section \<open>Rows that triggers guard\<close>

text \<open>
  An echo or a terminal mark can only be aborted for an operation that proves something, or for a source
  event that is linked to a recovery disposition or whose recovery was completed.
\<close>

definition echo_guarded :: "int \<Rightarrow> outbound_op \<Rightarrow> db \<Rightarrow> bool" where
  "echo_guarded k r d \<longleftrightarrow> proof_op k d
     \<or> (\<exists>n. op_source_inbound_seq r = Some n \<and> (linked_inbound n d \<or> completed_source n d))"

lemma unowned_sourceD: "unowned_source d r = Some n \<Longrightarrow> op_source_inbound_seq r = Some n"
  by (auto simp: unowned_source_def split: option.splits if_splits)

lemma runMarkEchoed_cases:
  obtains "runMarkEchoed k now d = Inr (echo_statement k now d)" | e where "runMarkEchoed k now d = Inl e" "proof_op k d"
  using outbound_abort_guards [of "\<lambda>r. True" "echo_row now" k d]
  by (cases "outbound_abort (\<lambda>r. True) (echo_row now) k d") (auto simp: runMarkEchoed_def unless_aborted_def)

lemma runMarkEchoed_free: "\<not> proof_op k d \<Longrightarrow> runMarkEchoed k now d = Inr (echo_statement k now d)"
  by (simp add: runMarkEchoed_def no_outbound_abort)

lemma complete_unowned_throws:
  assumes "complete_unowned p k now d = (d', Inl e)"
  obtains r n where "get_op d k = Some r" "op_source_inbound_seq r = Some n" "linked_inbound n d \<or> completed_source n d"
proof -
  from assms obtain r n where r: "get_op d k = Some r" "unowned_source d r = Some n"
    "completeInbound n ''response_sent'' now d = (d', Inl e)"
    by (auto simp: complete_unowned_def split: option.splits if_splits)
  from unowned_sourceD [OF r(2)] completeInbound_throws [OF r(3)] show ?thesis by (rule that [OF r(1)])
qed

section \<open>The two orders of echo and terminal mark\<close>

definition with_inbound :: "(inbound_event list \<Rightarrow> inbound_event list) \<Rightarrow> db \<Rightarrow> db" where
  "with_inbound F d = d\<lparr>inbound_events := F (inbound_events d)\<rparr>"

lemma with_inbound_ops:
  "get_op (with_inbound F d) = get_op d"
  "echo_statement k now (with_inbound F d) = with_inbound F (echo_statement k now d)"
  "fst (terminal_statement k (with_inbound F d)) = with_inbound F (fst (terminal_statement k d))"
  "unowned_source (with_inbound F d) = unowned_source d"
  by (simp_all add: with_inbound_def fun_eq_iff get_op_def echo_statement_def terminal_statement_def
      cas_op_def Let_def unowned_source_def terminal_record_owned_def split: option.split)

text \<open>Neither statement moves a table that the triggers read.\<close>

lemma guard_tables [simp]:
  "disposition_links (echo_statement k now d) = disposition_links d"
  "disposition_links (fst (terminal_statement k d)) = disposition_links d"
  "corroborations (echo_statement k now d) = corroborations d"
  "corroborations (fst (terminal_statement k d)) = corroborations d"
  "closure_witnesses (echo_statement k now d) = closure_witnesses d"
  "closure_witnesses (fst (terminal_statement k d)) = closure_witnesses d"
  by (simp_all add: echo_statement_def terminal_statement_def cas_op_def Let_def)

lemma guards_stable [simp]:
  "linked_inbound n (echo_statement k now d) = linked_inbound n d"
  "linked_inbound n (fst (terminal_statement k d)) = linked_inbound n d"
  "linked_inbound n (with_inbound F d) = linked_inbound n d"
  "completed_source n (echo_statement k now d) = completed_source n d"
  "completed_source n (fst (terminal_statement k d)) = completed_source n d"
  "completed_source n (with_inbound F d) = completed_source n d"
  "proof_op n (echo_statement k now d) = proof_op n d"
  "proof_op n (fst (terminal_statement k d)) = proof_op n d"
  "proof_op n (with_inbound F d) = proof_op n d"
  by (rule guards_frame; simp add: with_inbound_def)+

lemma statements_commute:
  "echo_statement k now (fst (terminal_statement k d)) = fst (terminal_statement k (echo_statement k now d))"
  by (auto simp: echo_statement_def terminal_statement_def cas_op_def Let_def update_rows_def comp_def
      intro!: map_cong split: option.split)

lemma source_stable:
  "unowned_source (echo_statement k now d) r = unowned_source d r"
  "unowned_source (fst (terminal_statement k d)) r = unowned_source d r"
  "unowned_source d (r\<lparr>op_is_terminal := t\<rparr>) = unowned_source d r"
  "unowned_source d (echo_row now r) = unowned_source d r"
  by (simp_all add: unowned_source_def terminal_record_owned_def echo_row_def split: option.split)

lemma echo_row_simps [simp]:
  "op_is_terminal (echo_row now r) = op_is_terminal r" "op_status (echo_row now r) = Os_echoed"
  "op_id (echo_row now r) = op_id r" "op_source_inbound_seq (echo_row now r) = op_source_inbound_seq r"
  by (simp_all add: echo_row_def)

lemma complete_unowned_table:
  assumes "get_op d k = Some r" "\<And>n. op_source_inbound_seq r = Some n \<Longrightarrow> \<not> linked_inbound n d \<and> \<not> completed_source n d"
  shows "complete_unowned p k now d = (with_inbound (if p r then (case unowned_source d r of
      None \<Rightarrow> (\<lambda>x. x) | Some n \<Rightarrow> complete_table n ''response_sent'' now) else (\<lambda>x. x)) d, Inr ())"
proof (cases "unowned_source d r")
  case None
  with assms(1) show ?thesis by (simp add: complete_unowned_def with_inbound_def)
next
  case (Some n)
  with assms(2) [OF unowned_sourceD [OF Some]] assms(1) show ?thesis
    by (simp add: complete_unowned_def completeInbound_runs with_inbound_def)
qed

lemma markEchoed_unlinked:
  assumes "positive_safe k" "echoed_job_for k d = None" "wf_db d" "\<not> proof_op k d"
    "snd (complete_unowned op_is_terminal k now (echo_statement k now d)) = Inr ()"
  shows "markEchoed k now d = complete_unowned op_is_terminal k now (echo_statement k now d)"
proof -
  have "echoed_job_for k (echo_statement k now d) = echoed_job_for k d"
    by (rule echoed_job_op_update [OF assms(3)], rule disjI1, rule conjI, rule refl, rule refl)
  with assms(2) have "echoed_job_for k (echo_statement k now d) = None" by simp
  then have "settleEchoedTurnRecoveryJob k now (echo_statement k now d) = Inr (echo_statement k now d,
      \<lparr>st_matched = False, st_applied = False, st_jobId = None, st_state = None, st_conflict = False\<rparr>)"
    using assms(1) by (simp add: settleEchoedTurnRecoveryJob_def result_simps)
  with assms(4,5) show ?thesis
    by (auto simp: markEchoed_def withTransaction_def runMarkEchoed_free prod_eq_iff split: prod.splits sum.splits)
qed

definition settle_table :: "db \<Rightarrow> outbound_op \<Rightarrow> int \<Rightarrow> inbound_event list \<Rightarrow> inbound_event list" where
  "settle_table d r now = (case unowned_source d r of None \<Rightarrow> (\<lambda>x. x)
     | Some n \<Rightarrow> complete_table n ''response_sent'' now)"

lemma settle_table_idem: "settle_table d r now (settle_table d r now rows) = settle_table d r now rows"
  by (simp add: settle_table_def complete_table_idem split: option.split)

lemma with_inbound_comp: "with_inbound F (with_inbound G d) = with_inbound (\<lambda>x. F (G x)) d"
  by (simp add: with_inbound_def)

lemma with_inbound_id: "with_inbound (\<lambda>x. x) d = d"
  by (simp add: with_inbound_def)

lemma with_inbound_wf: "wf_db (with_inbound (settle_table d0 r now) d) = wf_db d"
proof -
  have "map ie_seq (complete_table k reason now rows) = map ie_seq rows" for k reason rows
    unfolding complete_table_def by (rule map_key_update_rows) (simp add: complete_row_of_def)
  then show ?thesis by (simp add: wf_db_def with_inbound_def settle_table_def split: option.split)
qed

lemma echoed_job_with_inbound:
  "echoed_job_for k (with_inbound (settle_table d0 r now) d) = echoed_job_for k d"
proof (cases "unowned_source d0 r")
  case None
  then show ?thesis by (simp add: settle_table_def with_inbound_id)
next
  case (Some n)
  define h where "h = (\<lambda>i. if ie_seq i = n \<and> \<not> scheduled_turn_loss_row i
    then complete_row_of ''response_sent'' now i else i)"
  let ?d = "with_inbound (settle_table d0 r now) d"
  have links: "valid_links ?d j = map_option (\<lambda>(t, i, x). (t, h i, x)) (valid_links d j)" for j
  proof (rule links_inbound)
    show "get_inbound ?d m = map_option h (get_inbound d m)" for m
      by (simp add: get_inbound_def with_inbound_def settle_table_def Some complete_table_def h_def
          find_update_rows complete_row_of_def)
  qed (simp_all add: same_envelope_def same_inbound_def h_def complete_row_of_def with_inbound_def
      get_terminal_def get_op_def fun_eq_iff)
  show ?thesis unfolding echoed_job_for_def links
    by (auto simp: with_inbound_def intro!: find_cong split: option.split)
qed

lemma echo_then_terminal:
  assumes "positive_safe k" "echoed_job_for k d = None" "wf_db d" "get_op d k = Some r" "\<not> echo_guarded k r d"
  shows "snd (markEchoed k now d) = Inr ()" "markTerminal k now (fst (markEchoed k now d))
    = (with_inbound (settle_table d r now) (echo_statement k now (fst (terminal_statement k d))), Inr ())"
proof -
  let ?F = "settle_table d r now" and ?e = "echo_statement k now d"
  from get_op_id [OF assms(4)] have id: "op_id r = k" .
  have free: "\<not> proof_op k d" "\<And>n. op_source_inbound_seq r = Some n \<Longrightarrow> \<not> linked_inbound n d \<and> \<not> completed_source n d"
    using assms(5) by (auto simp: echo_guarded_def)
  have e: "get_op ?e k = Some (echo_row now r)"
    using assms(4) id by (simp add: echo_statement_row [OF assms(3)] at_op_def)
  define G where "G = (if op_is_terminal r then ?F else (\<lambda>x. x))"
  have ran: "complete_unowned op_is_terminal k now ?e = (with_inbound G ?e, Inr ())"
    unfolding G_def using complete_unowned_table [OF e, of op_is_terminal now] free(2)
    by (simp add: settle_table_def source_stable)
  with markEchoed_unlinked [OF assms(1-3) free(1), of now] have echoed: "markEchoed k now d = (with_inbound G ?e, Inr ())"
    by simp
  then show "snd (markEchoed k now d) = Inr ()" by simp
  let ?t = "fst (terminal_statement k (with_inbound G ?e))"
  have t: "get_op ?t k = Some ((echo_row now r)\<lparr>op_is_terminal := True\<rparr>)"
    using e id by (simp add: with_inbound_ops terminal_statement_row [OF statement_wf(1) [OF assms(3)]] at_op_def)
  have "complete_unowned (\<lambda>r. op_status r = Os_echoed) k now ?t = (with_inbound ?F ?t, Inr ())"
    using complete_unowned_table [OF t, of "\<lambda>r. op_status r = Os_echoed" now] free(2)
    by (simp add: settle_table_def source_stable with_inbound_ops)
  then have "markTerminal k now (with_inbound G ?e) = (with_inbound ?F ?t, Inr ())"
    using runMarkTerminal_free [of k "with_inbound G ?e"] free(1)
    by (cases "terminal_statement k (with_inbound G ?e)") (simp add: markTerminal_def)
  moreover have "with_inbound ?F ?t = with_inbound (\<lambda>x. ?F (G x)) (fst (terminal_statement k ?e))"
    by (simp add: with_inbound_ops with_inbound_comp)
  moreover have "(\<lambda>x. ?F (G x)) = ?F" by (simp add: G_def fun_eq_iff settle_table_idem)
  ultimately show "markTerminal k now (fst (markEchoed k now d))
    = (with_inbound (settle_table d r now) (echo_statement k now (fst (terminal_statement k d))), Inr ())"
    by (simp add: echoed statements_commute)
qed

lemma terminal_then_echo:
  assumes "positive_safe k" "echoed_job_for k d = None" "wf_db d" "get_op d k = Some r" "\<not> echo_guarded k r d"
  shows "snd (markTerminal k now d) = Inr ()" "markEchoed k now (fst (markTerminal k now d))
    = (with_inbound (settle_table d r now) (echo_statement k now (fst (terminal_statement k d))), Inr ())"
proof -
  let ?F = "settle_table d r now" and ?t = "fst (terminal_statement k d)"
  from get_op_id [OF assms(4)] have id: "op_id r = k" .
  have free: "\<not> proof_op k d" "\<And>n. op_source_inbound_seq r = Some n \<Longrightarrow> \<not> linked_inbound n d \<and> \<not> completed_source n d"
    using assms(5) by (auto simp: echo_guarded_def)
  have t: "get_op ?t k = Some (r\<lparr>op_is_terminal := True\<rparr>)"
    using assms(4) id by (simp add: terminal_statement_row [OF assms(3)] at_op_def)
  define G where "G = (if op_status r = Os_echoed then ?F else (\<lambda>x. x))"
  have "complete_unowned (\<lambda>r. op_status r = Os_echoed) k now ?t = (with_inbound G ?t, Inr ())"
    unfolding G_def using complete_unowned_table [OF t, of "\<lambda>r. op_status r = Os_echoed" now] free(2)
    by (simp add: settle_table_def source_stable)
  then have mark: "markTerminal k now d = (with_inbound G ?t, Inr ())"
    using runMarkTerminal_free [OF free(1)] by (cases "terminal_statement k d") (simp add: markTerminal_def)
  then show "snd (markTerminal k now d) = Inr ()" by simp
  have wf: "wf_db (with_inbound G ?t)"
    using with_inbound_wf [of d r now ?t] statement_wf(2) [OF assms(3)]
    by (simp add: G_def with_inbound_id)
  have "echoed_job_for k ?t = echoed_job_for k d"
    by (rule echoed_job_op_update [OF assms(3)], rule disjI2, rule conjI, rule refl, rule refl)
  then have none: "echoed_job_for k (with_inbound G ?t) = None"
    using assms(2) echoed_job_with_inbound [of k d r now ?t] by (simp add: G_def with_inbound_id)
  let ?e = "echo_statement k now (with_inbound G ?t)"
  have e: "get_op ?e k = Some (echo_row now (r\<lparr>op_is_terminal := True\<rparr>))"
    using t id by (simp add: with_inbound_ops echo_statement_row [OF statement_wf(2) [OF assms(3)]] at_op_def)
  have ran: "complete_unowned op_is_terminal k now ?e = (with_inbound ?F ?e, Inr ())"
    using complete_unowned_table [OF e, of op_is_terminal now] free(2)
    by (simp add: settle_table_def source_stable with_inbound_ops)
  have "\<not> proof_op k (with_inbound G ?t)" using free(1) by simp
  from markEchoed_unlinked [OF assms(1) none wf this, of now] ran
  have "markEchoed k now (with_inbound G ?t) = (with_inbound ?F ?e, Inr ())" by simp
  moreover have "with_inbound ?F ?e = with_inbound (\<lambda>x. ?F (G x)) (echo_statement k now ?t)"
    by (simp add: with_inbound_ops with_inbound_comp)
  moreover have "(\<lambda>x. ?F (G x)) = ?F" by (simp add: G_def fun_eq_iff settle_table_idem)
  ultimately show "markEchoed k now (fst (markTerminal k now d))
    = (with_inbound (settle_table d r now) (echo_statement k now (fst (terminal_statement k d))), Inr ())"
    by (simp add: mark)
qed

section \<open>Properties\<close>

lemma settle_keeps_ops:
  assumes "settleEchoedTurnRecoveryJob k now d = Inr (d', r)"
  shows "get_op d' = get_op d"
proof -
  have "get_op (settled_store k now j i d) = get_op d" for j i
    by (simp add: fun_eq_iff settled_store_def get_op_def settle_source_statement_def
        cas_inbound_def Let_def)
  moreover have "get_op (recordEchoedTurnRecoveryConflict reason n now d) = get_op d" for reason n
    by (simp add: fun_eq_iff recordEchoedTurnRecoveryConflict_def)
  ultimately show ?thesis using settle_outcome [OF assms] by auto
qed

lemma echo_statement_good: "jobs_good d \<Longrightarrow> jobs_good (echo_statement k now d)"
  using jobs_advance_frame [of d "echo_statement k now d"] statement_wf(1) [of d k now]
  by (simp add: jobs_advance_def jobs_good_def)

lemma complete_unowned_inbound: "\<exists>es. fst (complete_unowned p k now d) = d\<lparr>inbound_events := es\<rparr>"
proof -
  have "\<exists>es. fst (completeInbound n reason now d) = d\<lparr>inbound_events := es\<rparr>" for n reason
    using completeInbound_frame(1) [of n reason now d "fst (completeInbound n reason now d)" "snd (completeInbound n reason now d)"]
    by simp
  moreover have "\<exists>es. d = d\<lparr>inbound_events := es\<rparr>" by (rule exI [of _ "inbound_events d"]) simp
  ultimately show ?thesis by (auto simp: complete_unowned_def split: option.split)
qed

lemma complete_unowned_wf: "wf_db d \<Longrightarrow> wf_db (fst (complete_unowned p k now d))"
  using completeInbound_frame(2) [OF prod.collapse [symmetric]] by (simp add: complete_unowned_def split: option.split)

lemma complete_unowned_frame:
  "get_op (fst (complete_unowned p k now d)) = get_op d" "get_job (fst (complete_unowned p k now d)) = get_job d"
  using complete_unowned_inbound [of p k now d] by (auto simp: fun_eq_iff get_op_def get_job_def)

lemma echoed_job_source:
  assumes "echoed_job_for k d = Some j" "wf_db d" "get_op d k = Some r"
  shows "op_source_inbound_seq r = Some (rj_source_inbound_seq j)"
proof -
  obtain t i x where "valid_links d j = Some (t, i, x)" "op_id x = k" by (rule echoed_job_links [OF assms(1,2)])
  with assms(3) echoed_link_op [OF this(1)] show ?thesis
    by (auto simp: valid_links_def outbound_link_ok_def bind_eq_Some_conv split: option.splits if_splits)
qed

text \<open>What the two marks leave, whether they throw or not.\<close>

lemma markEchoed_leaves:
  obtains "fst (markEchoed k now d) = d"
  | d' s where "settleEchoedTurnRecoveryJob k now (echo_statement k now d) = Inr (d', s)" "fst (markEchoed k now d) = d'"
  | d' s where "settleEchoedTurnRecoveryJob k now (echo_statement k now d) = Inr (d', s)"
      "fst (markEchoed k now d) = fst (complete_unowned op_is_terminal k now d')"
proof (cases "snd (markEchoed k now d)")
  case (Inl e)
  then have "fst (markEchoed k now d) = d" unfolding markEchoed_def by (rule withTransaction_throws)
  then show ?thesis by (rule that(1))
next
  case (Inr u)
  then obtain d' s where "settleEchoedTurnRecoveryJob k now (echo_statement k now d) = Inr (d', s)"
    "fst (markEchoed k now d) = (if st_matched s then d' else fst (complete_unowned op_is_terminal k now d'))"
    by (cases rule: runMarkEchoed_cases [of k now d])
      (auto simp: markEchoed_def withTransaction_def split: sum.splits prod.splits if_splits)
  with that(2,3) show ?thesis by (cases "st_matched s") auto
qed

lemma markTerminal_leaves:
  "fst (markTerminal k now d) = d
    \<or> fst (markTerminal k now d) = fst (complete_unowned (\<lambda>r. op_status r = Os_echoed) k now (fst (terminal_statement k d)))"
  by (auto simp: markTerminal_def dest!: runMarkTerminal_ran arg_cong [where f = fst] split: sum.splits prod.splits)

text \<open>How marking an operation echoed ends.\<close>

lemma markEchoed_ends:
  assumes "jobs_good d" "positive_safe k" "get_op d k = Some r"
  shows "(snd (markEchoed k now d) = Inr ()
      \<and> (\<forall>n. get_op (fst (markEchoed k now d)) n = (if n = k then Some (echo_row now r) else get_op d n))
      \<and> (\<forall>j. echoed_job_for k d = Some j \<longrightarrow> echo_accounted (fst (markEchoed k now d)) j))
    \<or> (\<exists>e. snd (markEchoed k now d) = Inl e \<and> fst (markEchoed k now d) = d \<and> echo_guarded k r d)"
proof -
  let ?e = "echo_statement k now d" and ?m = "markEchoed k now d"
  have wf: "wf_db d" by (rule jobs_good_wf [OF assms(1)])
  have jobs: "echoed_job_for k ?e = echoed_job_for k d"
    by (rule echoed_job_op_update [OF wf], rule disjI1, rule conjI, rule refl, rule refl)
  have op: "get_op ?e n = (if n = k then Some (echo_row now r) else get_op d n)" for n
    using assms(3) get_op_id [of d n] by (cases "get_op d n") (auto simp: echo_statement_row [OF wf] at_op_def)
  have source: "op_source_inbound_seq r = Some (rj_source_inbound_seq j)" if "echoed_job_for k d = Some j" for j
    by (rule echoed_job_source [OF that wf assms(3)])
  have rolled: ?thesis if "snd ?m = Inl e" "echo_guarded k r d" for e
    using that withTransaction_throws [of _ d e] by (auto simp: markEchoed_def)
  have good: "jobs_good ?e" by (rule echo_statement_good [OF assms(1)])
  have echoed: "op_status x = Os_echoed" if "get_op ?e k = Some x" for x using that by (auto simp: op)
  show ?thesis
  proof (cases rule: runMarkEchoed_cases [of k now d])
    case (2 e)
    then show ?thesis by (intro rolled [of e]) (simp_all add: markEchoed_def withTransaction_def echo_guarded_def)
  next
    case 1
    show ?thesis
    proof (cases "settleEchoedTurnRecoveryJob k now ?e")
      case (Inl e)
      obtain j where "echoed_job_for k ?e = Some j" "linked_inbound (rj_source_inbound_seq j) ?e"
        by (rule settle_throws [OF jobs_good_wf [OF good] assms(2) echoed Inl])
      with jobs source have "echo_guarded k r d" by (auto simp: echo_guarded_def)
      with 1 Inl show ?thesis by (intro rolled [of e]) (simp_all add: markEchoed_def withTransaction_def)
    next
      case (Inr b)
      then obtain d' s where s: "settleEchoedTurnRecoveryJob k now ?e = Inr (d', s)" by (cases b) simp
      note facts = settle_facts [OF good assms(2) echoed s]
      have ops: "get_op d' n = (if n = k then Some (echo_row now r) else get_op d n)" for n
        using settle_keeps_ops [OF s] op by simp
      show ?thesis
      proof (cases "st_matched s")
        case True
        with 1 s have m: "?m = (d', Inr ())" by (simp add: markEchoed_def withTransaction_def)
        with ops facts(2) jobs show ?thesis by simp
      next
        case False
        with facts have none: "echoed_job_for k d = None" "d' = ?e" unfolding jobs by (cases "echoed_job_for k d"; auto)+
        obtain d2 res where c: "complete_unowned op_is_terminal k now d' = (d2, res)" by fastforce
        show ?thesis
        proof (cases res)
          case (Inl e)
          obtain r' n where "get_op d' k = Some r'" "op_source_inbound_seq r' = Some n"
            "linked_inbound n d' \<or> completed_source n d'" by (rule complete_unowned_throws [OF c [unfolded Inl]])
          then have "echo_guarded k r d" by (auto simp: none(2) op echo_guarded_def)
          with 1 s False c Inl show ?thesis by (intro rolled [of e]) (simp_all add: markEchoed_def withTransaction_def)
        next
          case (Inr u)
          with 1 s False c have m: "?m = (d2, Inr ())" by (simp add: markEchoed_def withTransaction_def)
          with complete_unowned_frame(1) [of op_is_terminal k now d'] c ops none(1) show ?thesis by simp
        qed
      qed
    qed
  qed
qed

text \<open>
  C20: Recording an echo never loses track of a recovery job. On a store whose jobs satisfy their
  constraints, marking an existing operation echoed either succeeds or throws and leaves the database as it
  was, and it throws only for an operation that proves a corroborated delivery or an operator's closure, or
  whose source event is linked to a recovery disposition or has a completed recovery. When it succeeds it
  changes that operation only (to echoed, with the first echo time kept), and if a recovery job is linked to
  the operation, the job ends either completed together with its source inbound event or marked with a
  conflict for an operator.
\<close>

theorem echo_is_accounted:
  assumes "jobs_good d" "positive_safe k" "get_op d k = Some r"
  shows "case markEchoed k now d of
      (d', Inr _) \<Rightarrow> (\<forall>n. get_op d' n = (if n = k then Some (echo_row now r) else get_op d n))
        \<and> (\<forall>j. echoed_job_for k d = Some j \<longrightarrow> echo_accounted d' j)
    | (d', Inl _) \<Rightarrow> d' = d \<and> echo_guarded k r d"
  using markEchoed_ends [OF assms, of now] by (cases "markEchoed k now d"; cases "snd (markEchoed k now d)") auto

theorem echo_is_accounted_witness:
  "\<exists>d' j. markEchoed 1 20 (sample_db True Os_submitted) = (d', Inr ())
    \<and> echoed_job_for 1 (sample_db True Os_submitted) = Some j \<and> echo_accounted d' j"
proof -
  let ?d = "sample_db True Os_submitted"
  have safe: "positive_safe 1" by code_simp
  have row: "get_op ?d 1 = Some (sample_op Os_submitted)"
    by (simp add: get_op_def sample_db_def sample_base_def sample_op_def)
  have "op_source_inbound_seq (sample_op Os_submitted) = Some 1" by (simp add: sample_op_def)
  moreover have "\<not> proof_op 1 ?d" "\<not> linked_inbound 1 ?d" "\<not> completed_source 1 ?d" by code_simp+
  ultimately have "\<not> echo_guarded 1 (sample_op Os_submitted) ?d" by (simp add: echo_guarded_def)
  moreover have "echoed_job_for 1 ?d \<noteq> None" by code_simp
  then obtain j where "echoed_job_for 1 ?d = Some j" by blast
  ultimately show ?thesis
    using echo_is_accounted [OF sample_db_good safe row, of 20] by (auto split: prod.splits sum.splits)
qed

text \<open>
  C21: The order in which an answer is echoed and marked as its turn's last message does not matter as long
  as no trigger guards the operation or its source event. For an operation no recovery job is linked to,
  both orders succeed and leave exactly the same database, whatever the state of the operation and of its
  source inbound event.
\<close>

theorem echo_and_terminal_commute:
  assumes "positive_safe k" "echoed_job_for k d = None" "wf_db d" "get_op d k = Some r" "\<not> echo_guarded k r d"
  shows "snd (markEchoed k now d) = Inr () \<and> snd (markTerminal k now d) = Inr ()
    \<and> snd (markTerminal k now (fst (markEchoed k now d))) = Inr ()
    \<and> markTerminal k now (fst (markEchoed k now d)) = markEchoed k now (fst (markTerminal k now d))"
  by (simp add: echo_then_terminal [OF assms] terminal_then_echo [OF assms])

theorem echo_and_terminal_commute_witness:
  "markTerminal 1 20 (fst (markEchoed 1 20 (sample_base Os_submitted)))
   = markEchoed 1 20 (fst (markTerminal 1 20 (sample_base Os_submitted)))"
proof (rule echo_and_terminal_commute [THEN conjunct2, THEN conjunct2, THEN conjunct2])
  show "positive_safe 1" by code_simp
  show "echoed_job_for 1 (sample_base Os_submitted) = None"
    by (simp add: echoed_job_for_def sample_base_def empty_db_def)
  show "wf_db (sample_base Os_submitted)" by (rule jobs_good_wf [OF sample_base_good])
  show "get_op (sample_base Os_submitted) 1 = Some (sample_op Os_submitted)"
    by (simp add: get_op_def sample_base_def sample_op_def)
  show "\<not> echo_guarded 1 (sample_op Os_submitted) (sample_base Os_submitted)"
    by (simp add: echo_guarded_def proof_op_def corroborated_selected_def corroborating_def closure_selected_def linked_inbound_def
        completed_source_def sample_base_def sample_op_def empty_db_def exists_row_def)
qed

end
