(* ===== verification/Jid.thy ===== *)
theory Jid
  imports Validators
begin

text \<open>
  Chat addresses: the JID constants, builders, predicates and parsers of
  \<^verbatim>\<open>src/core/jid-constants.ts\<close>, the conversation keys of \<^verbatim>\<open>src/core/conversation-key.ts\<close>, and the
  Signal group shape of \<^verbatim>\<open>src/core/transport-refs.ts\<close>. The regular expressions are written out as
  functions on the bytes of the text; all their classes are ASCII.
\<close>

section \<open>Texts\<close>

definition starts_with :: "string \<Rightarrow> string \<Rightarrow> bool" where
  "starts_with p s \<longleftrightarrow> take (length p) s = p"

definition ends_with :: "string \<Rightarrow> string \<Rightarrow> bool" where
  "ends_with p s \<longleftrightarrow> length p \<le> length s \<and> drop (length s - length p) s = p"

definition strip_suffix :: "string \<Rightarrow> string \<Rightarrow> string" where
  "strip_suffix p s = (if ends_with p s then take (length s - length p) s else s)"

definition contains :: "string \<Rightarrow> string \<Rightarrow> bool" where
  "contains p s \<longleftrightarrow> list_ex (\<lambda>n. starts_with p (drop n s)) [0..<Suc (length s)]"

definition before_char :: "char \<Rightarrow> string \<Rightarrow> string" where
  "before_char c s = takeWhile (\<lambda>x. x \<noteq> c) s"

definition after_char :: "char \<Rightarrow> string \<Rightarrow> string" where
  "after_char c s = drop (Suc (length (before_char c s))) s"

definition digit_char :: "char \<Rightarrow> bool" where
  "digit_char c \<longleftrightarrow> 48 \<le> (of_char c :: nat) \<and> (of_char c :: nat) \<le> 57"

definition alpha_char :: "char \<Rightarrow> bool" where
  "alpha_char c \<longleftrightarrow> 65 \<le> (of_char c :: nat) \<and> (of_char c :: nat) \<le> 90
     \<or> 97 \<le> (of_char c :: nat) \<and> (of_char c :: nat) \<le> 122"

section \<open>Domains\<close>

definition DOMAIN_PERSONAL :: string where "DOMAIN_PERSONAL = ''s.whatsapp.net''"
definition DOMAIN_LID :: string where "DOMAIN_LID = ''lid''"
definition DOMAIN_GROUP :: string where "DOMAIN_GROUP = ''g.us''"
definition DOMAIN_SMS :: string where "DOMAIN_SMS = ''sms''"
definition DOMAIN_SIGNAL :: string where "DOMAIN_SIGNAL = ''signal''"
definition DOMAIN_IMESSAGE :: string where "DOMAIN_IMESSAGE = ''imessage''"

definition JID_PERSONAL :: string where "JID_PERSONAL = CHR ''@'' # DOMAIN_PERSONAL"
definition JID_LID :: string where "JID_LID = CHR ''@'' # DOMAIN_LID"
definition JID_GROUP :: string where "JID_GROUP = CHR ''@'' # DOMAIN_GROUP"
definition JID_SMS :: string where "JID_SMS = CHR ''@'' # DOMAIN_SMS"
definition JID_SIGNAL :: string where "JID_SIGNAL = CHR ''@'' # DOMAIN_SIGNAL"
definition JID_IMESSAGE :: string where "JID_IMESSAGE = CHR ''@'' # DOMAIN_IMESSAGE"

lemmas domain_defs = DOMAIN_PERSONAL_def DOMAIN_LID_def DOMAIN_GROUP_def DOMAIN_SMS_def
  DOMAIN_SIGNAL_def DOMAIN_IMESSAGE_def JID_PERSONAL_def JID_LID_def JID_GROUP_def JID_SMS_def
  JID_SIGNAL_def JID_IMESSAGE_def

section \<open>Builders\<close>

definition toPersonalJid :: "string \<Rightarrow> string" where "toPersonalJid phone = phone @ JID_PERSONAL"
definition toLidJid :: "string \<Rightarrow> string" where "toLidJid number = number @ JID_LID"

definition toSmsJid :: "string \<Rightarrow> string" where
  "toSmsJid a = (if ends_with JID_SMS a then a else a @ JID_SMS)"

definition fromSmsJid :: "string \<Rightarrow> string" where "fromSmsJid = strip_suffix JID_SMS"

definition smsJidToPhone :: "string \<Rightarrow> string" where
  "smsJidToPhone jid = (let bare = fromSmsJid jid in
     if starts_with ''+'' bare then drop 1 bare else bare)"

definition toSignalJid :: "string \<Rightarrow> string" where
  "toSignalJid a = (if ends_with JID_SIGNAL a then a else a @ JID_SIGNAL)"

definition fromSignalJid :: "string \<Rightarrow> string" where "fromSignalJid = strip_suffix JID_SIGNAL"

definition toImessageJid :: "string \<Rightarrow> string" where
  "toImessageJid a = (if ends_with JID_IMESSAGE a then a else a @ JID_IMESSAGE)"

definition fromImessageJid :: "string \<Rightarrow> string" where "fromImessageJid = strip_suffix JID_IMESSAGE"

datatype transport_id = Baileys | Twilio | Signal | Imessage

fun resolveConfiguredAdminJid :: "transport_id \<Rightarrow> string \<Rightarrow> string" where
  "resolveConfiguredAdminJid Baileys ident = toPersonalJid ident"
| "resolveConfiguredAdminJid Signal ident = toSignalJid ident"
| "resolveConfiguredAdminJid Twilio ident = toSmsJid (CHR ''+'' # ident)"
| "resolveConfiguredAdminJid Imessage ident = toImessageJid ident"

section \<open>Predicates\<close>

text \<open>\<^verbatim>\<open>/^\+[1-9]\d{6,14}$/\<close>\<close>

definition isE164Wire :: "string \<Rightarrow> bool" where
  "isE164Wire s \<longleftrightarrow> (case s of
     p # d # rest \<Rightarrow> p = CHR ''+'' \<and> digit_char d \<and> d \<noteq> CHR ''0'' \<and> list_all digit_char rest
       \<and> 6 \<le> length rest \<and> length rest \<le> 14
   | _ \<Rightarrow> False)"

definition lower_hex :: "char \<Rightarrow> bool" where
  "lower_hex c \<longleftrightarrow> digit_char c \<or> 97 \<le> (of_char c :: nat) \<and> (of_char c :: nat) \<le> 102"

text \<open>Five groups of 8, 4, 4, 4 and 12 lower-case hexadecimal digits.\<close>

definition SIGNAL_UUID_RE :: "string \<Rightarrow> bool" where
  "SIGNAL_UUID_RE s \<longleftrightarrow> length s = 36 \<and> list_all (\<lambda>i.
     if i \<in> {8, 13, 18, 23} then s ! i = CHR ''-'' else lower_hex (s ! i)) [0..<36]"

definition base64_char :: "char \<Rightarrow> bool" where
  "base64_char c \<longleftrightarrow> alpha_char c \<or> digit_char c \<or> c = CHR ''+'' \<or> c = CHR ''/''"

text \<open>At least sixteen base64 characters, then at most two padding signs.\<close>

definition SIGNAL_GROUP_ID_RE :: "string \<Rightarrow> bool" where
  "SIGNAL_GROUP_ID_RE s \<longleftrightarrow> 16 \<le> length (takeWhile base64_char s)
     \<and> dropWhile base64_char s \<in> {'''', ''='', ''==''}"

definition isSignalGroupAddress :: "string \<Rightarrow> bool" where
  "isSignalGroupAddress a \<longleftrightarrow> \<not> isE164Wire a \<and> \<not> SIGNAL_UUID_RE a \<and> SIGNAL_GROUP_ID_RE a"

definition isLidJid :: "string option \<Rightarrow> bool" where
  "isLidJid jid \<longleftrightarrow> (case jid of None \<Rightarrow> False | Some s \<Rightarrow> s \<noteq> [] \<and> ends_with JID_LID s)"

definition isPnJid :: "string option \<Rightarrow> bool" where
  "isPnJid jid \<longleftrightarrow> (case jid of None \<Rightarrow> False | Some s \<Rightarrow> s \<noteq> [] \<and> ends_with JID_PERSONAL s)"

definition isGroupJid :: "string \<Rightarrow> bool" where
  "isGroupJid jid \<longleftrightarrow> ends_with JID_GROUP jid
     \<or> ends_with JID_SIGNAL jid \<and> isSignalGroupAddress (fromSignalJid jid)"

definition STATUS_BROADCAST_JID :: string where "STATUS_BROADCAST_JID = ''status@broadcast''"

definition isStatusBroadcastJid :: "string option \<Rightarrow> bool" where
  "isStatusBroadcastJid jid \<longleftrightarrow> jid = Some STATUS_BROADCAST_JID"

definition isSignalJid :: "string option \<Rightarrow> bool" where
  "isSignalJid jid \<longleftrightarrow> (case jid of None \<Rightarrow> False | Some s \<Rightarrow> s \<noteq> [] \<and> ends_with JID_SIGNAL s)"

definition isImessageJid :: "string option \<Rightarrow> bool" where
  "isImessageJid jid \<longleftrightarrow> (case jid of None \<Rightarrow> False | Some s \<Rightarrow> s \<noteq> [] \<and> ends_with JID_IMESSAGE s)"

definition isSmsJid :: "string option \<Rightarrow> bool" where
  "isSmsJid jid \<longleftrightarrow> (case jid of None \<Rightarrow> False | Some s \<Rightarrow> s \<noteq> [] \<and> ends_with JID_SMS s)"

definition isAuthenticatedSenderJid :: "string option \<Rightarrow> bool" where
  "isAuthenticatedSenderJid jid \<longleftrightarrow> isPnJid jid \<or> isLidJid jid \<or> isSignalJid jid \<or> isImessageJid jid"

section \<open>Parsing\<close>

definition any_space :: "nat list \<Rightarrow> bool" where
  "any_space bs \<longleftrightarrow> list_ex (\<lambda>n. leading_space (drop n bs) \<noteq> None) [0..<length bs]"

definition parseWhatsAppDeliveryNamespace :: "string \<Rightarrow> string option" where
  "parseWhatsAppDeliveryNamespace jid =
     (let loc = before_char (CHR ''@'') jid; ns = after_char (CHR ''@'') jid in
      if jid = [] \<or> any_space (map of_char jid) then None
      else if loc = [] \<or> CHR ''@'' \<notin> set jid \<or> CHR ''@'' \<in> set ns \<or> ns = [] then None
      else if ns \<in> {DOMAIN_PERSONAL, DOMAIN_LID, DOMAIN_GROUP} then Some ns else None)"

definition bareNumber :: "string \<Rightarrow> string" where "bareNumber jid = before_char (CHR ''@'') jid"

definition normalizeLid :: "string \<Rightarrow> string" where "normalizeLid raw = before_char (CHR '':'') raw"

section \<open>Conversation keys\<close>

definition GLOBAL_CONVERSATION_KEY :: string where "GLOBAL_CONVERSATION_KEY = ''__global__''"

definition isGroupConversationKey :: "string \<Rightarrow> bool" where
  "isGroupConversationKey key \<longleftrightarrow> contains ''_at_g.us'' key \<or> contains ''@g.us'' key"

text \<open>\<^verbatim>\<open>String.replace\<close> with a string pattern replaces its first occurrence.\<close>

fun replace_first :: "string \<Rightarrow> string \<Rightarrow> string \<Rightarrow> string" where
  "replace_first p r [] = (if p = [] then r else [])"
| "replace_first p r (c # s) = (if starts_with p (c # s) then r @ drop (length p) (c # s)
     else c # replace_first p r s)"

definition conversationKeyToJid :: "string \<Rightarrow> string" where
  "conversationKeyToJid key = replace_first ''_at_g.us'' ''@g.us'' key"

definition em_dash :: string where "em_dash = map char_of [226, 128, 148 :: nat]"

definition quoted :: "string \<Rightarrow> string" where "quoted s = [CHR 0x22] @ s @ [CHR 0x22]"

definition toConversationKey :: "string \<Rightarrow> string result" where
  "toConversationKey jid =
     throw_if (jid = [] \<or> CHR ''@'' \<notin> set jid)
       (Error (''Invalid JID: '' @ quoted jid @ '' -- must contain @''))
    (let loc = before_char (CHR ''@'') jid; dom = after_char (CHR ''@'') jid in
     throw_if (loc = [])
       (Error (''Invalid JID: '' @ quoted jid @ '' '' @ em_dash @ '' empty local part''))
    (if dom = DOMAIN_PERSONAL \<or> dom = DOMAIN_LID then
       (let key = before_char (CHR '':'') loc in
        throw_if (key = GLOBAL_CONVERSATION_KEY)
          (Error (''Invalid JID: '' @ quoted jid @ '' '' @ em_dash
             @ '' local part collides with the reserved '' @ [CHR 0x27] @ GLOBAL_CONVERSATION_KEY
             @ [CHR 0x27] @ '' conversation key''))
          (Inr key))
     else if dom = DOMAIN_GROUP then Inr (loc @ ''_at_g.us'')
     else Inr (loc @ ''_at_'' @ dom)))"

section \<open>Facts about the pieces of an address\<close>

lemma starts_with_append [simp]: "starts_with p (p @ s)"
  by (simp add: starts_with_def)

lemma contains_append: "contains p (a @ p @ b)"
  unfolding contains_def list_ex_iff
  by (intro bexI [of _ "length a"]) simp_all

lemma before_char_append:
  "c \<notin> set a \<Longrightarrow> before_char c (a @ c # b) = a" "c \<notin> set a \<Longrightarrow> after_char c (a @ c # b) = b"
proof -
  show "c \<notin> set a \<Longrightarrow> before_char c (a @ c # b) = a"
    unfolding before_char_def by (subst takeWhile_append2) auto
  then show "c \<notin> set a \<Longrightarrow> after_char c (a @ c # b) = b" by (simp add: after_char_def)
qed

lemma split_char: "c \<in> set s \<Longrightarrow> s = before_char c s @ c # after_char c s"
proof (induction s)
  case (Cons x s)
  then show ?case by (cases "x = c") (auto simp: before_char_def after_char_def)
qed simp

lemma before_char_free: "c \<notin> set (before_char c s)"
  by (auto simp: before_char_def dest: set_takeWhileD)

lemma before_char_none: "c \<notin> set s \<Longrightarrow> before_char c s = s"
  by (auto simp: before_char_def takeWhile_eq_all_conv)

lemma ends_with_append [simp]: "ends_with p (s @ p)"
  by (simp add: ends_with_def)

lemma strip_suffix_append [simp]: "strip_suffix p (s @ p) = s"
  by (simp add: strip_suffix_def)

lemma domains_at_free [simp]:
  "CHR ''@'' \<notin> set DOMAIN_PERSONAL" "CHR ''@'' \<notin> set DOMAIN_LID" "CHR ''@'' \<notin> set DOMAIN_GROUP"
  by (simp_all add: domain_defs)

lemma replace_first_free:
  assumes "p = x # q" "x \<notin> set a"
  shows "replace_first p r (a @ p @ b) = a @ r @ b"
  using assms by (induction a) (auto simp: starts_with_def)

section \<open>Properties\<close>

text \<open>
  A conversation key identifies a chat and is never the reserved global key. Every address the
  function accepts yields a key different from the reserved one, and for a phone or linked-device
  address the key is its number without the device qualifier, so all devices of a number share one
  key.
\<close>

lemma conversation_key_is_chat_identity:
  "(\<forall>k. toConversationKey jid = Inr k \<longrightarrow> k \<noteq> GLOBAL_CONVERSATION_KEY)
   \<and> (ns \<in> {DOMAIN_PERSONAL, DOMAIN_LID} \<longrightarrow> CHR ''@'' \<notin> set n \<longrightarrow> CHR '':'' \<notin> set n \<longrightarrow> n \<noteq> []
      \<longrightarrow> n \<noteq> GLOBAL_CONVERSATION_KEY \<longrightarrow> CHR ''@'' \<notin> set dev
      \<longrightarrow> toConversationKey (n @ CHR '':'' # dev @ CHR ''@'' # ns) = Inr n
        \<and> toConversationKey (n @ CHR ''@'' # ns) = Inr n)"
proof (intro conjI allI impI)
  fix k assume key: "toConversationKey jid = Inr k"
  have at: "contains ''_at_'' (a @ ''_at_'' @ b)" for a b by (rule contains_append)
  have "\<not> contains ''_at_'' GLOBAL_CONVERSATION_KEY" by code_simp
  with at have mixed: "a @ ''_at_'' @ b \<noteq> GLOBAL_CONVERSATION_KEY" for a b by metis
  have group: "a @ ''_at_g.us'' \<noteq> GLOBAL_CONVERSATION_KEY" for a
    using mixed [of a "''g.us''"] by simp
  show "k \<noteq> GLOBAL_CONVERSATION_KEY"
    using key mixed group unfolding toConversationKey_def
    by (auto simp: throw_if_Inr Let_def split: if_splits)
next
  assume ns: "ns \<in> {DOMAIN_PERSONAL, DOMAIN_LID}" and n: "CHR ''@'' \<notin> set n" "CHR '':'' \<notin> set n"
    "n \<noteq> []" "n \<noteq> GLOBAL_CONVERSATION_KEY" and dev: "CHR ''@'' \<notin> set dev"
  have at: "CHR ''@'' \<notin> set (n @ CHR '':'' # dev)" using n dev by auto
  have dl: "before_char (CHR '':'') (n @ CHR '':'' # dev) = n" by (rule before_char_append [OF n(2)])
  have bare: "before_char (CHR '':'') n = n" by (rule before_char_none [OF n(2)])
  show "toConversationKey (n @ CHR '':'' # dev @ CHR ''@'' # ns) = Inr n"
    using before_char_append [OF at, of ns] ns n(3,4) dl by (auto simp: toConversationKey_def)
  show "toConversationKey (n @ CHR ''@'' # ns) = Inr n"
    using before_char_append [OF n(1), of ns] ns n(3,4) bare by (auto simp: toConversationKey_def)
qed

lemma conversation_key_is_chat_identity_witness:
  "toConversationKey ''1555:7@s.whatsapp.net'' = Inr ''1555''"
  using conversation_key_is_chat_identity [of "[]" DOMAIN_PERSONAL "''1555''" "''7''"]
  by (simp add: GLOBAL_CONVERSATION_KEY_def DOMAIN_PERSONAL_def)

text \<open>
  A group's conversation key leads back to its address. For a group whose identifier has no
  underscore, the key made from the address is recognised as a group key and is turned back into
  exactly that address.
\<close>

lemma group_key_round_trip:
  assumes "g \<noteq> []" "CHR ''@'' \<notin> set g" "CHR ''_'' \<notin> set g"
  shows "\<exists>k. toConversationKey (g @ JID_GROUP) = Inr k \<and> isGroupConversationKey k
    \<and> conversationKeyToJid k = g @ JID_GROUP \<and> isGroupJid (conversationKeyToJid k)"
proof -
  have "toConversationKey (g @ JID_GROUP) = Inr (g @ ''_at_g.us'')"
    using assms(1) before_char_append [OF assms(2), of DOMAIN_GROUP]
    by (simp add: toConversationKey_def JID_GROUP_def) (simp add: domain_defs)
  moreover have "isGroupConversationKey (g @ ''_at_g.us'')"
    using contains_append [of "''_at_g.us''" g "[]"] by (simp add: isGroupConversationKey_def)
  moreover have "conversationKeyToJid (g @ ''_at_g.us'') = g @ JID_GROUP"
    using replace_first_free [of "''_at_g.us''" "CHR ''_''" "''at_g.us''" g "''@g.us''" "[]"] assms(3)
    by (simp add: conversationKeyToJid_def domain_defs)
  ultimately show ?thesis by (simp add: isGroupJid_def)
qed

lemma group_key_round_trip_witness:
  "\<exists>k. toConversationKey (''12036-1'' @ JID_GROUP) = Inr k
     \<and> conversationKeyToJid k = ''12036-1'' @ JID_GROUP"
  using group_key_round_trip [of "''12036-1''"] by auto

text \<open>
  The delivery namespace accepts exactly the canonical WhatsApp addresses: a nonempty local part,
  one separator, one of the three namespaces, and no white space anywhere; and it returns the part
  after the separator.
\<close>

lemma delivery_namespace_exact:
  "parseWhatsAppDeliveryNamespace jid = Some ns \<longleftrightarrow>
     (\<exists>loc. jid = loc @ CHR ''@'' # ns \<and> loc \<noteq> [] \<and> CHR ''@'' \<notin> set loc
        \<and> ns \<in> {DOMAIN_PERSONAL, DOMAIN_LID, DOMAIN_GROUP} \<and> \<not> any_space (map of_char jid))"
proof
  assume p: "parseWhatsAppDeliveryNamespace jid = Some ns"
  then have at: "CHR ''@'' \<in> set jid"
    by (auto simp: parseWhatsAppDeliveryNamespace_def Let_def split: if_splits)
  from p have "before_char (CHR ''@'') jid \<noteq> [] \<and> after_char (CHR ''@'') jid = ns
      \<and> ns \<in> {DOMAIN_PERSONAL, DOMAIN_LID, DOMAIN_GROUP} \<and> \<not> any_space (map of_char jid)"
    by (auto simp: parseWhatsAppDeliveryNamespace_def Let_def split: if_splits)
  with split_char [OF at] before_char_free [of "CHR ''@''" jid]
  show "\<exists>loc. jid = loc @ CHR ''@'' # ns \<and> loc \<noteq> [] \<and> CHR ''@'' \<notin> set loc
        \<and> ns \<in> {DOMAIN_PERSONAL, DOMAIN_LID, DOMAIN_GROUP} \<and> \<not> any_space (map of_char jid)"
    by (intro exI [of _ "before_char (CHR ''@'') jid"]) simp
next
  assume "\<exists>loc. jid = loc @ CHR ''@'' # ns \<and> loc \<noteq> [] \<and> CHR ''@'' \<notin> set loc
        \<and> ns \<in> {DOMAIN_PERSONAL, DOMAIN_LID, DOMAIN_GROUP} \<and> \<not> any_space (map of_char jid)"
  then obtain loc where j: "jid = loc @ CHR ''@'' # ns" "loc \<noteq> []" "CHR ''@'' \<notin> set loc"
    "ns \<in> {DOMAIN_PERSONAL, DOMAIN_LID, DOMAIN_GROUP}" "\<not> any_space (map of_char jid)" by blast
  have "CHR ''@'' \<notin> set ns" "ns \<noteq> []" using j(4) by (auto simp: domain_defs)
  moreover have "before_char (CHR ''@'') jid = loc" "after_char (CHR ''@'') jid = ns"
    unfolding j(1) by (rule before_char_append [OF j(3)])+
  ultimately show "parseWhatsAppDeliveryNamespace jid = Some ns"
    using j(2,4,5) by (simp add: parseWhatsAppDeliveryNamespace_def Let_def j(1))
qed

end
