(* ===== verification/Access.thy ===== *)
theory Access
  imports Jid
begin

text \<open>
  Who the bot answers: phone matching (\<^verbatim>\<open>src/lib/phone.ts\<close>), the access list and phone resolution
  (\<^verbatim>\<open>src/core/access-list.ts\<close>, with \<^verbatim>\<open>resolveLid\<close> of \<^verbatim>\<open>src/core/lid-resolver.ts\<close>), the shared predicates
  (\<^verbatim>\<open>src/core/access-predicates.ts\<close>) and the decision itself (\<^verbatim>\<open>src/core/access-policy.ts\<close>). The two
  tables involved are lists of rows; \<open>disk\<close> is the answer of the lazy file lookup behind
  \<^verbatim>\<open>lookupLidFromDisk\<close>, which reads files outside the repository. Phones and admin lists are texts.
\<close>

section \<open>Phone numbers\<close>

definition normalizePhone :: "string \<Rightarrow> string" where
  "normalizePhone s = filter digit_char s"

definition normalizePhoneE164 :: "string \<Rightarrow> string" where
  "normalizePhoneE164 s = (let digits = normalizePhone s in
     if length digits = 10 then CHR ''1'' # digits else digits)"

definition isPhoneLocal :: "string \<Rightarrow> bool" where
  "isPhoneLocal s \<longleftrightarrow> list_all digit_char s \<and> 7 \<le> length s \<and> length s \<le> 15"

definition phone_length :: "string \<Rightarrow> bool" where
  "phone_length digits \<longleftrightarrow> 8 \<le> length digits \<and> length digits \<le> 15"

definition country_code_match :: "string \<Rightarrow> string \<Rightarrow> bool" where
  "country_code_match digits adminDigits \<longleftrightarrow> digits = adminDigits \<or>
     (let longer = (if length digits \<ge> length adminDigits then digits else adminDigits);
          shorter = (if length digits \<ge> length adminDigits then adminDigits else digits);
          ccLen = length longer - length shorter
      in 1 \<le> ccLen \<and> ccLen \<le> 3 \<and> ends_with shorter longer)"

definition isAdminPhone :: "string \<Rightarrow> string list \<Rightarrow> bool" where
  "isAdminPhone rawPhone adminPhones \<longleftrightarrow>
     (if rawPhone = [] then False
      else if rawPhone \<in> set adminPhones then True
      else if list_ex (\<lambda>c. alpha_char c \<or> c = CHR ''@'') rawPhone then False
      else let digits = normalizePhone rawPhone in
        if \<not> phone_length digits then False
        else list_ex (\<lambda>admin. phone_length (normalizePhone admin)
          \<and> country_code_match digits (normalizePhone admin)) adminPhones)"

section \<open>The access list\<close>

datatype access_status = As_allowed | As_blocked | As_pending | As_seen

datatype subject_type = Phone | Group

record access_entry =
  ae_subjectType :: subject_type
  ae_subjectId :: string
  ae_status :: access_status
  ae_displayName :: "string option"
  ae_requestedAt :: "int option"
  ae_decidedAt :: "int option"

record access_db =
  access_list :: "access_entry list"
  lid_mappings :: "(string \<times> string) list"

definition is_subject :: "subject_type \<Rightarrow> string \<Rightarrow> access_entry \<Rightarrow> bool" where
  "is_subject ty i r \<longleftrightarrow> ae_subjectType r = ty \<and> ae_subjectId r = i"

definition lookupAccess :: "subject_type \<Rightarrow> string \<Rightarrow> access_db \<Rightarrow> access_entry option" where
  "lookupAccess ty i d = find (is_subject ty i) (access_list d)"

text \<open>The primary key makes \<^verbatim>\<open>INSERT OR IGNORE\<close> keep an existing row.\<close>

definition insert_or_ignore :: "access_entry \<Rightarrow> access_db \<Rightarrow> access_db" where
  "insert_or_ignore r d = (if lookupAccess (ae_subjectType r) (ae_subjectId r) d \<noteq> None then d
     else d\<lparr>access_list := access_list d @ [r]\<rparr>)"

definition insertPending :: "subject_type \<Rightarrow> string \<Rightarrow> string option \<Rightarrow> int \<Rightarrow> access_db \<Rightarrow> access_db" where
  "insertPending ty i name now = insert_or_ignore \<lparr>ae_subjectType = ty, ae_subjectId = i,
     ae_status = As_pending, ae_displayName = name, ae_requestedAt = Some now, ae_decidedAt = None\<rparr>"

definition insertAllowed :: "subject_type \<Rightarrow> string \<Rightarrow> int \<Rightarrow> access_db \<Rightarrow> access_db" where
  "insertAllowed ty i now = insert_or_ignore \<lparr>ae_subjectType = ty, ae_subjectId = i,
     ae_status = As_allowed, ae_displayName = None, ae_requestedAt = None, ae_decidedAt = Some now\<rparr>"

fun trim_left :: "nat \<Rightarrow> nat list \<Rightarrow> nat list" where
  "trim_left 0 bs = bs"
| "trim_left (Suc n) bs = (case leading_space bs of None \<Rightarrow> bs
     | Some w \<Rightarrow> trim_left n (drop (length w) bs))"

text \<open>Trailing white space: the shortest prefix whose remainder is blank.\<close>

definition trim_right :: "nat list \<Rightarrow> nat list" where
  "trim_right bs = (case find (\<lambda>n. blank_bytes (drop n bs)) [0..<Suc (length bs)] of
     None \<Rightarrow> bs | Some n \<Rightarrow> take n bs)"

definition trim :: "string \<Rightarrow> string" where
  "trim s = map char_of (trim_right (trim_left (length s) (map of_char s)))"

fun seed_groups :: "string list \<Rightarrow> string list \<Rightarrow> int \<Rightarrow> access_db \<Rightarrow> access_db \<times> nat" where
  "seed_groups [] seen now d = (d, 0)"
| "seed_groups (raw # rs) seen now d =
     (let jid = trim raw in
      if jid = [] \<or> jid \<in> set seen then seed_groups rs seen now d
      else if lookupAccess Group jid d \<noteq> None then seed_groups rs (jid # seen) now d
      else (let (d', n) = seed_groups rs (jid # seen) now (insertAllowed Group jid now d) in (d', n + 1)))"

definition seedAutoRespondGroups :: "string list \<Rightarrow> int \<Rightarrow> access_db \<Rightarrow> access_db \<times> nat" where
  "seedAutoRespondGroups jids now d = seed_groups jids [] now d"

definition updateAccess :: "subject_type \<Rightarrow> string \<Rightarrow> access_status \<Rightarrow> int \<Rightarrow> access_db \<Rightarrow> access_db" where
  "updateAccess ty i st now d = d\<lparr>access_list := update_rows (is_subject ty i)
     (\<lambda>r. r\<lparr>ae_status := st, ae_decidedAt := Some now\<rparr>) (access_list d)\<rparr>"

datatype upsert_action = Inserted | Updated

definition upsertAccess ::
  "subject_type \<Rightarrow> string \<Rightarrow> access_status \<Rightarrow> int \<Rightarrow> access_db \<Rightarrow> access_db \<times> upsert_action" where
  "upsertAccess ty i st now d = (if lookupAccess ty i d \<noteq> None then (updateAccess ty i st now d, Updated)
     else (d\<lparr>access_list := access_list d @ [\<lparr>ae_subjectType = ty, ae_subjectId = i, ae_status = st,
       ae_displayName = None, ae_requestedAt = None, ae_decidedAt = Some now\<rparr>]\<rparr>, Inserted))"

definition getPendingCount :: "access_db \<Rightarrow> nat" where
  "getPendingCount d = length (filter (\<lambda>r. ae_status r = As_pending) (access_list d))"

section \<open>Phone resolution\<close>

definition extractLocal :: "string \<Rightarrow> string" where
  "extractLocal jid = (if CHR ''@'' \<notin> set jid then jid
     else (case toConversationKey jid of Inr k \<Rightarrow> k | Inl _ \<Rightarrow> before_char (CHR ''@'') jid))"

definition resolveLid :: "(string \<Rightarrow> string option) \<Rightarrow> access_db \<Rightarrow> string \<Rightarrow> string option" where
  "resolveLid disk d rawLid = (let lid = normalizeLid rawLid in
     case map_of (lid_mappings d) lid of Some phoneJid \<Rightarrow> Some (bareNumber phoneJid)
     | None \<Rightarrow> disk lid)"

definition resolvePhoneFromJid :: "(string \<Rightarrow> string option) \<Rightarrow> access_db \<Rightarrow> string \<Rightarrow> string" where
  "resolvePhoneFromJid disk d jid =
     (if CHR ''@'' \<notin> set jid then jid
      else let loc = before_char (CHR ''@'') jid; ns = after_char (CHR ''@'') jid in
        if ns = DOMAIN_LID then (case resolveLid disk d loc of Some p \<Rightarrow> p | None \<Rightarrow> normalizeLid loc)
        else if ns = DOMAIN_SMS then smsJidToPhone jid
        else if ns = DOMAIN_SIGNAL then loc
        else extractLocal jid)"

definition resolvePhoneFromJidForGrant ::
  "(string \<Rightarrow> string option) \<Rightarrow> access_db \<Rightarrow> string option \<Rightarrow> string option" where
  "resolvePhoneFromJidForGrant disk d jid = (case jid of None \<Rightarrow> None
     | Some j \<Rightarrow> if isAuthenticatedSenderJid (Some j) then Some (resolvePhoneFromJid disk d j) else None)"

definition canonicalConversationKey ::
  "(string \<Rightarrow> string option) \<Rightarrow> access_db \<Rightarrow> string \<Rightarrow> string result" where
  "canonicalConversationKey disk d jid = (if isLidJid (Some jid) then Inr (resolvePhoneFromJid disk d jid)
     else toConversationKey jid)"

definition resolveLidToJid :: "(string \<Rightarrow> string option) \<Rightarrow> access_db \<Rightarrow> string \<Rightarrow> string option" where
  "resolveLidToJid disk d rawLid = (case resolveLid disk d (bareNumber rawLid) of
     None \<Rightarrow> None | Some phone \<Rightarrow> if phone = [] then None else Some (phone @ JID_PERSONAL))"

definition canonicalizeChatJid :: "(string \<Rightarrow> string option) \<Rightarrow> access_db option \<Rightarrow> string \<Rightarrow> string" where
  "canonicalizeChatJid disk d chatJid =
     (if ends_with JID_GROUP chatJid then chatJid
      else if ends_with JID_PERSONAL chatJid then chatJid
      else if ends_with JID_LID chatJid then (case d of None \<Rightarrow> chatJid
        | Some d \<Rightarrow> (case resolveLidToJid disk d chatJid of None \<Rightarrow> chatJid | Some j \<Rightarrow> j))
      else chatJid)"

section \<open>Shared predicates\<close>

definition isBotMentioned :: "string list \<Rightarrow> string \<Rightarrow> string option \<Rightarrow> bool" where
  "isBotMentioned mentionedJids botJid botLid =
     (let botIds = [botJid, bareNumber botJid] @ (case botLid of None \<Rightarrow> []
            | Some l \<Rightarrow> if l = [] then [] else [l, bareNumber l]) in
      list_ex (\<lambda>jid. jid \<in> set botIds \<or> bareNumber jid \<in> set botIds) mentionedJids)"

definition isAuthenticatedAdmin :: "string \<Rightarrow> string \<Rightarrow> string list \<Rightarrow> bool" where
  "isAuthenticatedAdmin senderJid phone adminPhones \<longleftrightarrow>
     isAuthenticatedSenderJid (Some senderJid) \<and> isAdminPhone phone adminPhones"

section \<open>The decision\<close>

datatype access_mode = Self_only | Allowlist | Open_dm | Groups_only

datatype group_sender_policy = Any_member | Allowlisted_only

record access_config =
  cfg_accessMode :: access_mode
  cfg_groupSenderPolicy :: group_sender_policy
  cfg_adminPhones :: "string list"
  cfg_siblingPhones :: "string list"

record incoming_message =
  im_isFromMe :: bool
  im_isResponseWorthy :: bool
  im_senderJid :: string
  im_chatJid :: string
  im_isGroup :: bool
  im_mentionedJids :: "string list"

datatype trigger_reason = Own_message | Not_response_worthy | Self_only_no_groups
  | Self_only_lid_unresolvable | Self_only_admin | Self_only_rejected | Blocked_sender
  | Lid_unresolvable | Open_dm_reply | Groups_only_no_dms | Sibling_mentioned | Sibling_bot
  | Strict_group_non_allowlisted | Group_auto_respond | Mentioned | Not_mentioned
  | Unknown_sender | Pending_sender | Dm_allowed

record trigger_result =
  respond :: bool
  reason :: trigger_reason

definition unresolved_lid :: "(string \<Rightarrow> string option) \<Rightarrow> access_db \<Rightarrow> string \<Rightarrow> bool" where
  "unresolved_lid disk d senderJid \<longleftrightarrow> isLidJid (Some senderJid)
     \<and> resolvePhoneFromJid disk d senderJid = normalizeLid (bareNumber senderJid)"

definition self_only_decision ::
  "access_config \<Rightarrow> incoming_message \<Rightarrow> string \<Rightarrow> bool \<Rightarrow> trigger_result" where
  "self_only_decision cfg msg phone unresolved =
     (if im_isGroup msg then \<lparr>respond = False, reason = Self_only_no_groups\<rparr>
      else if unresolved then \<lparr>respond = False, reason = Self_only_lid_unresolvable\<rparr>
      else if isAuthenticatedAdmin (im_senderJid msg) phone (cfg_adminPhones cfg)
      then \<lparr>respond = True, reason = Self_only_admin\<rparr>
      else \<lparr>respond = False, reason = Self_only_rejected\<rparr>)"

definition group_decision ::
  "access_config \<Rightarrow> incoming_message \<Rightarrow> string \<Rightarrow> access_entry option \<Rightarrow> string \<Rightarrow> string option
     \<Rightarrow> access_db \<Rightarrow> trigger_result" where
  "group_decision cfg msg phone entry botJid botLid d =
     (let mentioned = isBotMentioned (im_mentionedJids msg) botJid botLid in
      if phone \<in> set (cfg_siblingPhones cfg)
      then \<lparr>respond = mentioned, reason = if mentioned then Sibling_mentioned else Sibling_bot\<rparr>
      else if cfg_groupSenderPolicy cfg = Allowlisted_only
          \<and> \<not> (map_option ae_status entry = Some As_allowed
               \<or> isAuthenticatedAdmin (im_senderJid msg) phone (cfg_adminPhones cfg))
      then \<lparr>respond = False, reason = Strict_group_non_allowlisted\<rparr>
      else if map_option ae_status (lookupAccess Group (im_chatJid msg) d) = Some As_allowed
      then \<lparr>respond = True, reason = Group_auto_respond\<rparr>
      else \<lparr>respond = mentioned, reason = if mentioned then Mentioned else Not_mentioned\<rparr>)"

definition shouldRespond ::
  "(string \<Rightarrow> string option) \<Rightarrow> access_config \<Rightarrow> incoming_message \<Rightarrow> string \<Rightarrow> string option
     \<Rightarrow> access_db \<Rightarrow> trigger_result" where
  "shouldRespond disk cfg msg botJid botLid d =
     (if im_isFromMe msg then \<lparr>respond = False, reason = Own_message\<rparr>
      else if \<not> im_isResponseWorthy msg then \<lparr>respond = False, reason = Not_response_worthy\<rparr>
      else let phone = resolvePhoneFromJid disk d (im_senderJid msg);
               unresolved = unresolved_lid disk d (im_senderJid msg);
               entry = lookupAccess Phone phone d in
        if cfg_accessMode cfg = Self_only then self_only_decision cfg msg phone unresolved
        else if map_option ae_status entry = Some As_blocked
        then \<lparr>respond = False, reason = Blocked_sender\<rparr>
        else if unresolved \<and> \<not> (cfg_accessMode cfg = Groups_only \<and> \<not> im_isGroup msg)
        then \<lparr>respond = False, reason = Lid_unresolvable\<rparr>
        else if cfg_accessMode cfg = Open_dm \<and> \<not> im_isGroup msg
        then \<lparr>respond = True, reason = Open_dm_reply\<rparr>
        else if cfg_accessMode cfg = Groups_only \<and> \<not> im_isGroup msg
        then \<lparr>respond = False, reason = Groups_only_no_dms\<rparr>
        else if im_isGroup msg then group_decision cfg msg phone entry botJid botLid d
        else (case entry of None \<Rightarrow> \<lparr>respond = False, reason = Unknown_sender\<rparr>
          | Some e \<Rightarrow> if ae_status e = As_pending then \<lparr>respond = False, reason = Pending_sender\<rparr>
                    else \<lparr>respond = True, reason = Dm_allowed\<rparr>))"

section \<open>Facts about rows and numbers\<close>

lemma find_update_other:
  assumes "ty' \<noteq> ty \<or> i' \<noteq> i" "\<And>r. is_subject ty' i' (f r) = is_subject ty' i' r"
  shows "find (is_subject ty' i') (update_rows (is_subject ty i) f rows) = find (is_subject ty' i') rows"
proof (induction rows)
  case (Cons a rows)
  have "is_subject ty i a \<Longrightarrow> \<not> is_subject ty' i' a" using assms(1) by (auto simp: is_subject_def)
  with Cons assms(2) show ?case by simp
qed simp

lemma find_update_same:
  assumes "\<And>r. is_subject ty i (f r) = is_subject ty i r"
  shows "find (is_subject ty i) (update_rows (is_subject ty i) f rows)
    = map_option f (find (is_subject ty i) rows)"
  using assms by (induction rows) simp_all

lemma lookup_insert_or_ignore:
  "lookupAccess ty i (insert_or_ignore r d) = (case lookupAccess ty i d of Some e \<Rightarrow> Some e
     | None \<Rightarrow> if is_subject ty i r then Some r else None)"
proof (cases "is_subject ty i r")
  case True
  then have "ae_subjectType r = ty" "ae_subjectId r = i" by (simp_all add: is_subject_def)
  with True show ?thesis
    by (cases "lookupAccess ty i d") (simp_all add: insert_or_ignore_def lookupAccess_def find_append)
next
  case False
  then show ?thesis
    by (cases "lookupAccess ty i d")
      (simp_all add: insert_or_ignore_def lookupAccess_def find_append split: option.split)
qed

lemma insert_keeps: "lookupAccess ty i d = Some e \<Longrightarrow> lookupAccess ty i (insertAllowed g j now d) = Some e"
  by (simp add: insertAllowed_def lookup_insert_or_ignore)

lemma seed_keeps: "lookupAccess ty i d = Some e
  \<Longrightarrow> lookupAccess ty i (fst (seed_groups js seen now d)) = Some e"
  by (induction js seen now d rule: seed_groups.induct) (simp_all add: Let_def insert_keeps split_beta)

lemma seed_only_groups: "lookupAccess ty i d = None
  \<Longrightarrow> lookupAccess ty i (fst (seed_groups js seen now d)) = Some e
  \<Longrightarrow> ty = Group \<and> i \<in> set (map trim js) \<and> ae_status e = As_allowed"
proof (induction js seen now d rule: seed_groups.induct)
  case (2 raw rs seen now d)
  show ?case
  proof (cases "trim raw = [] \<or> trim raw \<in> set seen \<or> lookupAccess Group (trim raw) d \<noteq> None")
    case True
    with 2 show ?thesis by (auto simp: Let_def split: if_splits)
  next
    case False
    note IH = "2.IH"(3) [OF refl]
    have fin: "lookupAccess ty i (fst (seed_groups rs (trim raw # seen) now
        (insertAllowed Group (trim raw) now d))) = Some e"
      using "2.prems"(2) False by (simp add: Let_def split_beta)
    show ?thesis
    proof (cases "lookupAccess ty i (insertAllowed Group (trim raw) now d)")
      case None
      with IH fin False show ?thesis by auto
    next
      case (Some e')
      with seed_keeps [OF Some] fin have "e' = e" by simp
      with Some "2.prems"(1) show ?thesis
        by (auto simp: insertAllowed_def lookup_insert_or_ignore is_subject_def split: if_splits)
    qed
  qed
qed simp

lemma seed_complete: "raw \<in> set js \<Longrightarrow> trim raw \<noteq> [] \<Longrightarrow> trim raw \<notin> set seen
  \<Longrightarrow> lookupAccess Group (trim raw) (fst (seed_groups js seen now d)) \<noteq> None"
proof (induction js seen now d rule: seed_groups.induct)
  case (2 r rs seen now d)
  show ?case
  proof (cases "trim raw = trim r")
    case True
    then show ?thesis
    proof (cases "lookupAccess Group (trim r) d")
      case None
      have "\<exists>e. lookupAccess Group (trim r) (insertAllowed Group (trim r) now d) = Some e"
        using None by (simp add: insertAllowed_def lookup_insert_or_ignore is_subject_def)
      then show ?thesis using None True "2.prems" seed_keeps by (fastforce simp: Let_def split_beta)
    next
      case (Some e)
      with True "2.prems" seed_keeps [OF Some] show ?thesis by (simp add: Let_def split_beta)
    qed
  next
    case False
    with "2.prems" have "raw \<in> set rs" by auto
    with False 2 show ?thesis by (auto simp: Let_def split_beta)
  qed
qed simp

lemma ends_with_iff: "ends_with p s \<longleftrightarrow> (\<exists>a. s = a @ p)"
  unfolding ends_with_def by (metis append_eq_conv_conj append_take_drop_id diff_add_inverse2
      le_add2 length_append)

definition differ_by_prefix :: "string \<Rightarrow> string \<Rightarrow> bool" where
  "differ_by_prefix a b \<longleftrightarrow> (\<exists>cc. length cc \<le> 3 \<and> (a = cc @ b \<or> b = cc @ a))"

lemma country_code_match_iff: "country_code_match a b \<longleftrightarrow> differ_by_prefix a b"
proof
  assume "country_code_match a b"
  then show "differ_by_prefix a b"
    by (auto simp: country_code_match_def differ_by_prefix_def Let_def ends_with_iff split: if_splits
        intro: exI [of _ "[]"])
next
  assume "differ_by_prefix a b"
  then obtain cc where cc: "length cc \<le> 3" "a = cc @ b \<or> b = cc @ a"
    unfolding differ_by_prefix_def by blast
  show "country_code_match a b"
  proof (cases "cc = []")
    case False
    then have "1 \<le> length cc" by (cases cc) auto
    with cc show ?thesis by (auto simp: country_code_match_def Let_def ends_with_iff)
  qed (use cc in \<open>auto simp: country_code_match_def\<close>)
qed

section \<open>Properties\<close>



definition sample_access :: access_db where
  "sample_access = \<lparr>access_list = [\<lparr>ae_subjectType = Phone, ae_subjectId = ''15550001'', ae_status = As_seen,
     ae_displayName = None, ae_requestedAt = None, ae_decidedAt = None\<rparr>], lid_mappings = []\<rparr>"

definition sample_config :: "access_mode \<Rightarrow> access_config" where
  "sample_config m = \<lparr>cfg_accessMode = m, cfg_groupSenderPolicy = Any_member,
     cfg_adminPhones = [''15551234''], cfg_siblingPhones = []\<rparr>"

definition sample_message :: "string \<Rightarrow> incoming_message" where
  "sample_message s = \<lparr>im_isFromMe = False, im_isResponseWorthy = True, im_senderJid = s, im_chatJid = s,
     im_isGroup = False, im_mentionedJids = []\<rparr>"


text \<open>
  Administrators are matched by identity, not by suffix. A number is an administrator's exactly
  when it is listed literally, or it contains no letter or at-sign, has 8 to 15 digits, and its
  digits and those of a listed number of 8 to 15 digits are equal up to a prefix of at most three
  digits on one side.
\<close>

lemma admin_match_exact:
  "isAdminPhone p admins \<longleftrightarrow> p \<noteq> [] \<and> (p \<in> set admins
     \<or> (\<forall>c \<in> set p. \<not> alpha_char c \<and> c \<noteq> CHR ''@'') \<and> length (normalizePhone p) \<in> {8..15}
       \<and> (\<exists>a \<in> set admins. length (normalizePhone a) \<in> {8..15}
            \<and> differ_by_prefix (normalizePhone p) (normalizePhone a)))"
  unfolding isAdminPhone_def Let_def list_ex_iff phone_length_def country_code_match_iff
  by auto

lemma admin_match_exact_witness:
  "isAdminPhone ''+1 555 123-0006'' [''5551230006''] \<and> \<not> isAdminPhone ''99995551230006'' [''5551230006'']"
proof
  have "differ_by_prefix ''15551230006'' ''5551230006''"
    unfolding differ_by_prefix_def by (rule exI [of _ "''1''"]) simp
  moreover have "normalizePhone ''+1 555 123-0006'' = ''15551230006''" "normalizePhone ''5551230006'' = ''5551230006''"
    by code_simp+
  ultimately show "isAdminPhone ''+1 555 123-0006'' [''5551230006'']"
    using admin_match_exact [of "''+1 555 123-0006''" "[''5551230006'']"] by (simp add: alpha_char_def)
  show "\<not> isAdminPhone ''99995551230006'' [''5551230006'']" by code_simp
qed

text \<open>
  Declared groups are granted without overriding a decision. Seeding the auto-respond groups
  keeps every existing access entry whatever its status, adds nothing but allowed entries of
  declared groups, and leaves every declared group with an entry; an explicit decision afterwards is
  what the next lookup returns, and no other entry changes.
\<close>

lemma seeding_keeps_decisions:
  "(\<forall>e. lookupAccess ty i d = Some e
      \<longrightarrow> lookupAccess ty i (fst (seedAutoRespondGroups js now d)) = Some e)
   \<and> (\<forall>e. lookupAccess ty i d = None \<longrightarrow> lookupAccess ty i (fst (seedAutoRespondGroups js now d)) = Some e
      \<longrightarrow> ty = Group \<and> i \<in> set (map trim js) \<and> ae_status e = As_allowed)
   \<and> (\<forall>raw \<in> set js. trim raw \<noteq> []
      \<longrightarrow> lookupAccess Group (trim raw) (fst (seedAutoRespondGroups js now d)) \<noteq> None)
   \<and> map_option ae_status (lookupAccess ty i (fst (upsertAccess ty i st now d))) = Some st
   \<and> ((ty', i') \<noteq> (ty, i) \<longrightarrow> lookupAccess ty' i' (fst (upsertAccess ty i st now d)) = lookupAccess ty' i' d)"
proof (intro conjI allI ballI impI)
  show "map_option ae_status (lookupAccess ty i (fst (upsertAccess ty i st now d))) = Some st"
    by (auto simp: upsertAccess_def updateAccess_def lookupAccess_def find_update_same find_append
        is_subject_def)
next
  assume "(ty', i') \<noteq> (ty, i)"
  then have ne: "ty' \<noteq> ty \<or> i' \<noteq> i" by auto
  show "lookupAccess ty' i' (fst (upsertAccess ty i st now d)) = lookupAccess ty' i' d"
    unfolding upsertAccess_def updateAccess_def lookupAccess_def
    using ne by (auto simp: find_append is_subject_def find_update_other split: option.splits)
qed (use seed_keeps seed_only_groups seed_complete in \<open>auto simp: seedAutoRespondGroups_def\<close>)

lemma seeding_keeps_decisions_witness:
  "lookupAccess Phone ''15550001'' (fst (seedAutoRespondGroups [''g@g.us''] 1 sample_access)) =
     lookupAccess Phone ''15550001'' sample_access"
proof -
  have "lookupAccess Phone ''15550001'' sample_access \<noteq> None" by code_simp
  then show ?thesis
    using seeding_keeps_decisions [of Phone "''15550001''" sample_access "[''g@g.us'']" 1] by auto
qed

section \<open>Two notes on the source's comments\<close>

text \<open>
  The comment before the last reply of \<^verbatim>\<open>shouldRespond\<close> reads \<^verbatim>\<open>entry.status === 'allowed'\<close>, but an
  entry that is only \<^verbatim>\<open>'seen'\<close> gets that reply too.
\<close>

lemma seen_sender_is_answered:
  "lookupAccess Phone ''15550001'' sample_access \<noteq> None
   \<and> shouldRespond (\<lambda>_. None) (sample_config Allowlist) (sample_message ''15550001@s.whatsapp.net'')
       ''1@s.whatsapp.net'' None sample_access = \<lparr>respond = True, reason = Dm_allowed\<rparr>"
  by code_simp

text \<open>
  The comment of \<^verbatim>\<open>isAuthenticatedSenderJid\<close> names the WhatsApp transports only; Signal and iMessage
  addresses are accepted as well.
\<close>

lemma signal_sender_counts_as_authenticated:
  "isAuthenticatedSenderJid (Some (a @ JID_SIGNAL)) \<and> isAuthenticatedSenderJid (Some (a @ JID_IMESSAGE))"
  by (simp add: isAuthenticatedSenderJid_def isSignalJid_def isImessageJid_def ends_with_iff domain_defs)

end
