(* ===== verification/Drain.thy ===== *)
theory Drain
  imports Settlement Jid
begin

text \<open>
  The outbound send paths of \<^verbatim>\<open>src/core/durability.ts\<close>: \<^verbatim>\<open>sendTracked\<close>,
  \<^verbatim>\<open>persistOutboundFailureDisposition\<close> and the drain of pending operations. The messenger is code of
  the transports; a send is known by its outcome only, either a receipt or a thrown value, and the
  loop takes the messenger as an argument. An operation that awaits its send is split at the await,
  so that other handlers can run between the two halves. Operator alerts and logging are left out.
\<close>

section \<open>Sending with a ledger row\<close>

datatype send_outcome = Delivered "string option" | Threw thrown

text \<open>An exception of the engine itself, as the classifier sees it.\<close>

definition plain_error :: thrown where
  "plain_error = \<lparr>payload = JNull, identity_blocked = False, governor_shed = False\<rparr>"

definition fst_result :: "('a \<times> 'b) result \<Rightarrow> 'a result" where
  "fst_result r = (case r of Inl e \<Rightarrow> Inl e | Inr p \<Rightarrow> Inr (fst p))"

definition persistOutboundFailureDisposition ::
  "int \<Rightarrow> evidence \<Rightarrow> string option \<Rightarrow> int \<Rightarrow> db \<Rightarrow> db result" where
  "persistOutboundFailureDisposition k e waMessageId nowMs d =
     throw_if (retry_decision e = Rd_retry_now)
       (Error ''Retry-now outbound evidence must remain with its active retry owner'')
    (if retry_decision e = Rd_retry_not_before then fst_result (markDeferred k e d)
     else if mutation_state e = Mu_ambiguous
     then fst_result (markMaybeSent k (Evidence_record e) waMessageId nowMs d)
     else fst_result (markFailedPermanent k (Evidence_record e) nowMs d))"

text \<open>\<^verbatim>\<open>JSON.stringify({ text })\<close>: the length counts the escapes of quotes and control characters.\<close>

definition escaped_length :: "char \<Rightarrow> nat" where
  "escaped_length c = (let n = of_char c :: nat in
     if n \<in> {8, 9, 10, 12, 13, 34, 92} then 2 else if n < 32 then 6 else 1)"

definition text_payload :: "string \<Rightarrow> stored_text" where
  "text_payload s = Text (11 + sum_list (map escaped_length s)) (Some (JObj [(''text'', JStr s)]))"

record tracked_opts =
  to_replayPolicy :: replay_policy
  to_isTerminal :: bool
  to_sourceInboundSeq :: "int option"
  to_opType :: "string option"

definition sendTracked_begin ::
  "(stored_text \<Rightarrow> string) \<Rightarrow> string \<Rightarrow> string \<Rightarrow> tracked_opts \<Rightarrow> int \<Rightarrow> db \<Rightarrow> db \<times> int result" where
  "sendTracked_begin sha256 chatJid txt opts nowMs d =
     (case toConversationKey chatJid of Inl e \<Rightarrow> (d, Inl e)
      | Inr key \<Rightarrow> (case createOutboundOp sha256 \<lparr>opp_conversationKey = key, opp_chatJid = chatJid,
            opp_opType = (case to_opType opts of None \<Rightarrow> ''text'' | Some t \<Rightarrow> t),
            opp_payload = text_payload txt, opp_replayPolicy = to_replayPolicy opts,
            opp_sourceInboundSeq = to_sourceInboundSeq opts, opp_isTerminal = to_isTerminal opts\<rparr> nowMs d of
          (d', Inl e) \<Rightarrow> (d', Inl e)
        | (d', Inr opId) \<Rightarrow> (fst (markSending opId d'), Inr opId)))"

datatype tracked_result = Tr_returned | Tr_rethrown thrown | Tr_threw error

definition tracked_failed :: "int \<Rightarrow> thrown \<Rightarrow> int \<Rightarrow> db \<Rightarrow> db \<times> tracked_result" where
  "tracked_failed opId err nowMs d =
     (case and_then (classifyOutboundFailure err nowMs Ro_send_tracked 0 None)
             (\<lambda>e. persistOutboundFailureDisposition opId e None nowMs d) of
        Inl e \<Rightarrow> (d, Tr_threw e) | Inr d' \<Rightarrow> (d', Tr_rethrown err))"

definition sendTracked_settle :: "int \<Rightarrow> send_outcome \<Rightarrow> int \<Rightarrow> db \<Rightarrow> db \<times> tracked_result" where
  "sendTracked_settle opId outcome nowMs d = (case outcome of
     Delivered w \<Rightarrow> (case markSubmitted opId w 1 nowMs d of Inr d' \<Rightarrow> (d', Tr_returned)
       | Inl e \<Rightarrow> tracked_failed opId plain_error nowMs d)
   | Threw err \<Rightarrow> tracked_failed opId err nowMs d)"

text \<open>\<open>durability\<close> tells whether an engine was passed; \<open>laterMs\<close> is the clock after the await.\<close>

definition sendTracked ::
  "(stored_text \<Rightarrow> string) \<Rightarrow> send_outcome \<Rightarrow> string \<Rightarrow> string \<Rightarrow> bool \<Rightarrow> tracked_opts \<Rightarrow> int \<Rightarrow> int
     \<Rightarrow> db \<Rightarrow> db \<times> tracked_result" where
  "sendTracked sha256 outcome chatJid txt durability opts nowMs laterMs d =
     (if \<not> durability then (d, case outcome of Delivered _ \<Rightarrow> Tr_returned | Threw err \<Rightarrow> Tr_rethrown err)
      else (case sendTracked_begin sha256 chatJid txt opts nowMs d of
          (d', Inl e) \<Rightarrow> (d', Tr_threw e)
        | (d', Inr opId) \<Rightarrow> sendTracked_settle opId outcome laterMs d'))"

section \<open>One pending operation\<close>

definition STATUS_OP_TTL_MS :: int where "STATUS_OP_TTL_MS = 30 * 60000"
definition MAX_TEXT_OP_DEFERRAL_COUNT :: int where "MAX_TEXT_OP_DEFERRAL_COUNT = 20"
definition MAX_OUTBOUND_REPLAY_ATTEMPTS :: int where "MAX_OUTBOUND_REPLAY_ATTEMPTS = 50"

definition prior_evidence :: "outbound_op \<Rightarrow> evidence option" where
  "prior_evidence r = v1_of (failure_evidence r)"

definition waits_for_deadline :: "outbound_op \<Rightarrow> int \<Rightarrow> bool" where
  "waits_for_deadline r nowMs = (case prior_evidence r of None \<Rightarrow> False
     | Some e \<Rightarrow> retry_decision e = Rd_retry_not_before
         \<and> (case retry_not_before e of None \<Rightarrow> False | Some t \<Rightarrow> t > nowMs))"

text \<open>The text of a payload: the member of that name when it is a string.\<close>

definition drain_text :: "outbound_op \<Rightarrow> json option" where
  "drain_text r = (if op_type r = ''text'' \<or> op_type r = ''status_ping''
     then (case text_parse (op_payload r) of None \<Rightarrow> None
       | Some v \<Rightarrow> (case field ''text'' v of Some (JStr s) \<Rightarrow> Some (JStr s)
           | Some (JIso t) \<Rightarrow> Some (JIso t) | _ \<Rightarrow> None))
     else None)"

text \<open>A creation time that does not parse compares false, so such a ping never ages out.\<close>

definition ping_expired :: "outbound_op \<Rightarrow> int \<Rightarrow> bool" where
  "ping_expired r nowMs \<longleftrightarrow> op_type r = ''status_ping''
     \<and> (case op_created_at r of At t \<Rightarrow> t * 1000 < nowMs - STATUS_OP_TTL_MS | Malformed \<Rightarrow> False)"

datatype drain_decision = Dv_quarantine internal_code | Dv_wait | Dv_send json

definition drain_verdict :: "outbound_op \<Rightarrow> int \<Rightarrow> drain_decision" where
  "drain_verdict r nowMs =
     (if op_retry_count r \<ge> MAX_OUTBOUND_REPLAY_ATTEMPTS then Dv_quarantine Ic_replay_attempt_limit_exceeded
      else if waits_for_deadline r nowMs
      then (if op_type r = ''text'' \<and> op_retry_count r \<ge> MAX_TEXT_OP_DEFERRAL_COUNT
            then Dv_quarantine Ic_deferral_limit_exceeded else Dv_wait)
      else (case drain_text r of None \<Rightarrow> Dv_quarantine Ic_pending_replay_unreconstructable
        | Some t \<Rightarrow> if ping_expired r nowMs then Dv_quarantine Ic_status_ping_expired else Dv_send t))"

definition drain_evidence :: "internal_code \<Rightarrow> outbound_op \<Rightarrow> int \<Rightarrow> evidence result" where
  "drain_evidence code r nowMs = createInternalOutboundFailureEvidence
     \<lparr>io_failureCode = code, io_stage = St_admission, io_mutationState = Mu_not_started,
      io_retryable = None, io_retryDecision = None, io_retryNotBefore = None, io_retryOwner = None,
      io_attemptBudgetDisposition = None, io_logicalAttemptCount = Some (op_retry_count r),
      io_providerSubmissionCount = Some (case prior_evidence r of None \<Rightarrow> 0
        | Some e \<Rightarrow> provider_submission_count e),
      io_previousEvidence = prior_evidence r,
      io_evidenceCoverage = Some (if prior_evidence r = None then Cv_partial else Cv_complete)\<rparr> nowMs"

datatype drain_action = Da_error error | Da_skipped | Da_quarantined internal_code | Da_send json

definition drain_quarantine ::
  "(stored_text \<Rightarrow> string) \<Rightarrow> internal_code \<Rightarrow> outbound_op \<Rightarrow> int \<Rightarrow> db \<Rightarrow> db \<times> drain_action" where
  "drain_quarantine sha256 code r nowMs d =
     (case and_then (drain_evidence code r nowMs) (\<lambda>e. markQuarantined sha256 (op_id r) (Some e) nowMs d) of
        Inl x \<Rightarrow> (d, Da_error x)
      | Inr (d', changed) \<Rightarrow> (d', if changed then Da_quarantined code else Da_skipped))"

text \<open>Everything the drain does with an operation before it awaits the send.\<close>

definition drain_admit ::
  "(stored_text \<Rightarrow> string) \<Rightarrow> outbound_op \<Rightarrow> int \<Rightarrow> db \<Rightarrow> db \<times> drain_action" where
  "drain_admit sha256 r nowMs d = (case drain_verdict r nowMs of
     Dv_quarantine code \<Rightarrow> drain_quarantine sha256 code r nowMs d
   | Dv_wait \<Rightarrow> (d, Da_skipped)
   | Dv_send t \<Rightarrow> (let (d', claimed) = markSending (op_id r) d in
       (d', if claimed then Da_send t else Da_skipped)))"

definition drain_failed :: "outbound_op \<Rightarrow> thrown \<Rightarrow> int \<Rightarrow> db \<Rightarrow> db" where
  "drain_failed r err nowMs d =
     (case and_then (classifyOutboundFailure err nowMs Ro_pending_drainer 0 (prior_evidence r))
             (\<lambda>e. persistOutboundFailureDisposition (op_id r) e None nowMs d) of
        Inl _ \<Rightarrow> d | Inr d' \<Rightarrow> d')"

definition next_attempt :: "outbound_op \<Rightarrow> int" where
  "next_attempt r = (case prior_evidence r of None \<Rightarrow> op_retry_count r
     | Some e \<Rightarrow> logical_attempt_count e) + 1"

text \<open>And after it: whether the operation counts as re-sent.\<close>

definition drain_settle :: "outbound_op \<Rightarrow> send_outcome \<Rightarrow> int \<Rightarrow> db \<Rightarrow> db \<times> bool" where
  "drain_settle r outcome nowMs d = (case outcome of
     Delivered w \<Rightarrow> (case markSubmitted (op_id r) w (next_attempt r) nowMs d of Inr d' \<Rightarrow> (d', True)
       | Inl _ \<Rightarrow> (drain_failed r plain_error nowMs d, False))
   | Threw err \<Rightarrow> (drain_failed r err nowMs d, False))"

section \<open>The drain\<close>

record drain_stats =
  ds_resent :: nat
  ds_expired :: nat

definition drain_op ::
  "(stored_text \<Rightarrow> string) \<Rightarrow> (outbound_op \<Rightarrow> json \<Rightarrow> send_outcome) \<Rightarrow> int \<Rightarrow> outbound_op
     \<Rightarrow> db \<times> drain_stats \<Rightarrow> db \<times> drain_stats" where
  "drain_op sha256 send nowMs r = (\<lambda>(d, s). case drain_admit sha256 r nowMs d of
     (d', Da_send t) \<Rightarrow> (let (d'', resent) = drain_settle r (send r t) nowMs d' in
        (d'', if resent then s\<lparr>ds_resent := ds_resent s + 1\<rparr> else s))
   | (d', Da_quarantined code) \<Rightarrow>
        (d', if code = Ic_status_ping_expired then s\<lparr>ds_expired := ds_expired s + 1\<rparr> else s)
   | (d', _) \<Rightarrow> (d', s))"

definition drainPendingOutbound ::
  "(stored_text \<Rightarrow> string) \<Rightarrow> (outbound_op \<Rightarrow> json \<Rightarrow> send_outcome) \<Rightarrow> int \<Rightarrow> db \<Rightarrow> db \<times> drain_stats" where
  "drainPendingOutbound sha256 send nowMs d =
     fold (drain_op sha256 send nowMs) (getOutboundByStatus Os_pending d)
       (d, \<lparr>ds_resent = 0, ds_expired = 0\<rparr>)"

text \<open>The module-level lock is the first component; it is released whether or not the drain ran.\<close>

definition drainPendingOutboundLocked ::
  "(stored_text \<Rightarrow> string) \<Rightarrow> (outbound_op \<Rightarrow> json \<Rightarrow> send_outcome) \<Rightarrow> int \<Rightarrow> bool \<times> db
     \<Rightarrow> (bool \<times> db) \<times> drain_stats" where
  "drainPendingOutboundLocked sha256 send nowMs = (\<lambda>(inProgress, d).
     if inProgress then ((inProgress, d), \<lparr>ds_resent = 0, ds_expired = 0\<rparr>)
     else (let (d', s) = drainPendingOutbound sha256 send nowMs d in ((False, d'), s)))"

definition confirmedOutboundProbe :: "db \<Rightarrow> int \<Rightarrow> rat \<Rightarrow> bool" where
  "confirmedOutboundProbe d now seconds \<longleftrightarrow> list_ex (\<lambda>r. case op_echoed_at r of None \<Rightarrow> False
     | Some t \<Rightarrow> t \<ge> now - max 0 \<lfloor>seconds\<rfloor>) (outbound_ops d)"

section \<open>What one statement does to the rows\<close>

text \<open>A write to one row: the others are as before, and the row is related to what it was.\<close>

definition one_row :: "db \<Rightarrow> db \<Rightarrow> int \<Rightarrow> (outbound_op \<Rightarrow> outbound_op \<Rightarrow> bool) \<Rightarrow> bool" where
  "one_row d d' k R \<longleftrightarrow> wf_db d' \<and> (\<forall>n. n \<noteq> k \<longrightarrow> get_op d' n = get_op d n)
     \<and> (case get_op d k of None \<Rightarrow> get_op d' k = None | Some r \<Rightarrow> \<exists>r'. get_op d' k = Some r' \<and> R r r')"

lemma one_row_refl: "wf_db d \<Longrightarrow> (\<And>r. R r r) \<Longrightarrow> one_row d d k R"
  by (simp add: one_row_def split: option.split)

lemma one_row_mono: "one_row d d' k R \<Longrightarrow> (\<And>r r'. R r r' \<Longrightarrow> S r r') \<Longrightarrow> one_row d d' k S"
  by (auto simp: one_row_def split: option.splits)

lemma cas_one_row:
  assumes "wf_db d" "keeps_id op_id f"
  shows "one_row d (fst (cas_op g f k d)) k (\<lambda>r r'. r' = (if g r then f r else r))"
  unfolding one_row_def
  using ops.wf_cas [OF assms] by (auto simp: ops.get_cas [OF assms] split: option.split)

lemma cas_one_row':
  assumes "wf_db d" "keeps_id op_id f" "\<And>r. if g r then R r (f r) else R r r"
  shows "one_row d (fst (cas_op g f k d)) k R"
  using assms(3) by (intro one_row_mono [OF cas_one_row [OF assms(1,2)]]) (auto split: if_splits)

lemma markSending_row:
  assumes "wf_db d"
  shows "one_row d (fst (markSending k d)) k
      (\<lambda>r r'. r' = (if op_status r = Os_pending then r\<lparr>op_status := Os_sending\<rparr> else r))"
    "snd (markSending k d) \<longleftrightarrow> (\<exists>r. get_op d k = Some r \<and> op_status r = Os_pending)"
proof -
  have keeps: "keeps_id op_id (\<lambda>r. r\<lparr>op_status := Os_sending\<rparr>)" by (simp add: keeps_id_def)
  show "one_row d (fst (markSending k d)) k
      (\<lambda>r r'. r' = (if op_status r = Os_pending then r\<lparr>op_status := Os_sending\<rparr> else r))"
    unfolding markSending_def by (rule cas_one_row [OF assms keeps])
  show "snd (markSending k d) \<longleftrightarrow> (\<exists>r. get_op d k = Some r \<and> op_status r = Os_pending)"
    unfolding markSending_def by (simp add: ops.cas_wins [OF assms keeps] split: option.split)
qed

definition submitted_update :: "string option \<Rightarrow> int \<Rightarrow> outbound_op \<Rightarrow> outbound_op \<Rightarrow> bool" where
  "submitted_update w n r r' \<longleftrightarrow> same_identity r r' \<and> op_status r' = Os_submitted
     \<and> op_wa_message_id r' = w \<and> op_error r' = None \<and> op_retry_count r' = max (op_retry_count r) n"

lemma markSubmitted_row:
  assumes "wf_db d" "markSubmitted k w n nowMs d = Inr d'"
  shows "one_row d d' k (submitted_update w n)"
  using assms(2) unfolding markSubmitted_def throw_if_Inr
  by (auto intro!: cas_one_row' [OF assms(1)] simp: keeps_id_def submitted_update_def same_identity_def)

lemma markSubmitted_total:
  "safe_integer n \<Longrightarrow> 1 \<le> n \<Longrightarrow> \<exists>d'. markSubmitted k w n nowMs d = Inr d'"
  by (simp add: markSubmitted_def)

definition failure_update :: "outbound_status \<Rightarrow> evidence \<Rightarrow> outbound_op \<Rightarrow> outbound_op \<Rightarrow> bool" where
  "failure_update st e r r' \<longleftrightarrow> same_identity r r' \<and> op_status r' = st \<and> failure_evidence r' = V1 e
     \<and> op_retry_count r' = max (op_retry_count r) (logical_attempt_count e)"

lemma failure_update_text:
  assumes "encodeOutboundFailureEvidence e = Inr t" "op_error r' = Some t"
    "same_identity r r'" "op_status r' = st"
    "op_retry_count r' = max (op_retry_count r) (logical_attempt_count e)"
  shows "failure_update st e r r'"
  using assms decode_encoded [OF assms(1)] by (simp add: failure_update_def failure_evidence_def)

lemma cas_eq_row:
  assumes "cas_op g f k d = (d', won)" "wf_db d" "keeps_id op_id f"
    "\<And>r. g r \<Longrightarrow> R r (f r)" "\<And>r. \<not> g r \<Longrightarrow> R r r"
  shows "one_row d d' k R" "won \<longleftrightarrow> (\<exists>r. get_op d k = Some r \<and> g r)"
  using cas_one_row' [OF assms(2,3), of g R k] assms(1,4,5) ops.cas_wins [OF assms(2,3), of g k]
  by (auto split: option.splits)

lemma markMaybeSent_row:
  assumes "wf_db d" "markMaybeSent k (Evidence_record e) w nowMs d = Inr (d', won)"
  shows "one_row d d' k (\<lambda>r r'. if live r then failure_update Os_maybe_sent e r r' else r' = r)"
proof -
  from assms(2) obtain t where t: "encodeOutboundFailureEvidence e = Inr t"
    and u: "cas_op live (\<lambda>r. r\<lparr>op_status := Os_maybe_sent,
        op_ambiguity_at := (if op_status r = Os_maybe_sent then op_ambiguity_at r
                            else Some (At (sql_now nowMs))),
        op_error := Some t,
        op_wa_message_id := (case w of None \<Rightarrow> op_wa_message_id r | w \<Rightarrow> w),
        op_retry_count := max (op_retry_count r) (logical_attempt_count e)\<rparr>) k d = (d', won)"
    by (auto simp: markMaybeSent_def normalizeOutboundTransitionEvidence_def and_then_Inr throw_if_Inr)
  show ?thesis
    by (rule cas_eq_row(1) [OF u assms(1)])
      (simp_all add: keeps_id_def failure_update_text [OF t] same_identity_def)
qed

lemma markFailedPermanent_row:
  assumes "wf_db d" "markFailedPermanent k (Evidence_record e) nowMs d = Inr (d', won)"
  shows "one_row d d' k (\<lambda>r r'. if live r then failure_update Os_failed_permanent e r r' else r' = r)"
proof -
  from assms(2) obtain t where t: "encodeOutboundFailureEvidence e = Inr t"
    and u: "cas_op live (\<lambda>r. r\<lparr>op_status := Os_failed_permanent, op_error := Some t,
        op_retry_count := max (op_retry_count r) (logical_attempt_count e)\<rparr>) k d = (d', won)"
    by (auto simp: markFailedPermanent_def normalizeOutboundTransitionEvidence_def and_then_Inr throw_if_Inr)
  show ?thesis
    by (rule cas_eq_row(1) [OF u assms(1)])
      (simp_all add: keeps_id_def failure_update_text [OF t] same_identity_def)
qed

lemma markDeferred_row:
  assumes "wf_db d" "markDeferred k e d = Inr (d', won)"
  shows "one_row d d' k (\<lambda>r r'. if op_status r \<in> {Os_pending, Os_sending}
    then failure_update Os_pending e r r' else r' = r)"
proof -
  from assms(2) obtain t where t: "encodeOutboundFailureEvidence e = Inr t"
    and u: "cas_op (\<lambda>r. op_status r \<in> {Os_pending, Os_sending})
      (\<lambda>r. r\<lparr>op_status := Os_pending, op_error := Some t,
        op_retry_count := max (op_retry_count r) (logical_attempt_count e)\<rparr>) k d = (d', won)"
    by (auto simp: markDeferred_def and_then_Inr throw_if_Inr)
  show ?thesis
    by (rule cas_eq_row(1) [OF u assms(1)])
      (simp_all add: keeps_id_def failure_update_text [OF t] same_identity_def)
qed

lemma markQuarantined_row:
  assumes "wf_db d" "markQuarantined sha256 k (Some e) nowMs d = Inr (d', won)"
  shows "one_row d d' k (\<lambda>r r'. if live r then failure_update Os_quarantined e r r' else r' = r)"
    "won \<longleftrightarrow> (\<exists>r. get_op d k = Some r \<and> live r)"
proof -
  from assms(2) obtain t where t: "encodeOutboundFailureEvidence e = Inr t"
    and u: "cas_op live (\<lambda>r. r\<lparr>op_status := Os_quarantined, op_error := Some t,
        op_retry_count := max (op_retry_count r) (logical_attempt_count e),
        op_quarantine_disposition := Some (classifyOutboundQuarantineDisposition e),
        op_quarantine_coverage := Some (evidence_coverage e),
        op_quarantine_sha256 := Some (sha256 t),
        op_quarantined_at := Some (sql_now nowMs)\<rparr>) k d = (d', won)"
    by (auto simp: markQuarantined_def and_then_Inr throw_if_Inr)
  show "one_row d d' k (\<lambda>r r'. if live r then failure_update Os_quarantined e r r' else r' = r)"
    "won \<longleftrightarrow> (\<exists>r. get_op d k = Some r \<and> live r)"
    by (rule cas_eq_row [OF u assms(1), where R = "\<lambda>r r'. if live r
          then failure_update Os_quarantined e r r' else r' = r"];
        simp add: keeps_id_def failure_update_text [OF t] same_identity_def)+
qed

section \<open>Persisting a failure\<close>

definition disposition_status :: "evidence \<Rightarrow> outbound_status" where
  "disposition_status e = (if retry_decision e = Rd_retry_not_before then Os_pending
     else if mutation_state e = Mu_ambiguous then Os_maybe_sent else Os_failed_permanent)"

definition accepts_failure :: "evidence \<Rightarrow> outbound_op \<Rightarrow> bool" where
  "accepts_failure e r \<longleftrightarrow> (if retry_decision e = Rd_retry_not_before
     then op_status r \<in> {Os_pending, Os_sending} else live r)"

lemma fst_result_Inr: "fst_result r = Inr d' \<longleftrightarrow> (\<exists>x. r = Inr (d', x))"
  by (auto simp: fst_result_def split: sum.splits)

lemma persist_row:
  assumes "wf_db d" "persistOutboundFailureDisposition k e w nowMs d = Inr d'"
  shows "one_row d d' k (\<lambda>r r'. if accepts_failure e r
    then failure_update (disposition_status e) e r r' else r' = r)"
proof (cases "retry_decision e = Rd_retry_not_before")
  case True
  with assms(2) obtain won where "markDeferred k e d = Inr (d', won)"
    by (auto simp: persistOutboundFailureDisposition_def fst_result_Inr)
  from markDeferred_row [OF assms(1) this] show ?thesis
    by (rule one_row_mono) (simp only: accepts_failure_def disposition_status_def True simp_thms if_True)
next
  case False
  show ?thesis
  proof (cases "mutation_state e = Mu_ambiguous")
    case True
    with False assms(2) obtain won where "markMaybeSent k (Evidence_record e) w nowMs d = Inr (d', won)"
      by (auto simp: persistOutboundFailureDisposition_def fst_result_Inr throw_if_Inr)
    from markMaybeSent_row [OF assms(1) this] show ?thesis
      by (rule one_row_mono) (use True False in \<open>simp only: accepts_failure_def disposition_status_def simp_thms if_False if_True\<close>)
  next
    case na: False
    with False assms(2) obtain won where "markFailedPermanent k (Evidence_record e) nowMs d = Inr (d', won)"
      by (auto simp: persistOutboundFailureDisposition_def fst_result_Inr throw_if_Inr)
    from markFailedPermanent_row [OF assms(1) this] show ?thesis
      by (rule one_row_mono) (use na False in \<open>simp only: accepts_failure_def disposition_status_def if_False\<close>)
  qed
qed

lemma persist_total:
  assumes "valid_evidence e" "mutation_state e \<noteq> Mu_submitted" "retry_decision e \<noteq> Rd_retry_now"
  shows "\<exists>d'. persistOutboundFailureDisposition k e w nowMs d = Inr d'"
proof -
  from encode_valid [OF assms(1)] obtain t where t: "encodeOutboundFailureEvidence e = Inr t" by blast
  have stop: "\<not> keeps_retry e" if "retry_decision e \<noteq> Rd_retry_not_before"
    using assms that by (cases "retry_decision e") (auto simp: keeps_retry_def valid_evidence_iff)
  show ?thesis
  proof (cases "retry_decision e = Rd_retry_not_before")
    case True
    with assms(1) obtain u where "retry_not_before e = Some u" "retry_owner e = Ro_pending_drainer"
      "mutation_state e \<noteq> Mu_ambiguous" by (auto simp: valid_evidence_iff)
    with True assms t show ?thesis
      by (simp add: persistOutboundFailureDisposition_def markDeferred_def fst_result_def)
  next
    case False
    with assms t stop show ?thesis
      by (cases "mutation_state e = Mu_ambiguous")
        (simp_all add: persistOutboundFailureDisposition_def markMaybeSent_def markFailedPermanent_def
          normalizeOutboundTransitionEvidence_def fst_result_def)
  qed
qed

lemma classify_not_submitted:
  assumes "classifyOutboundFailure err nowMs owner n previous = Inr e"
  shows "mutation_state e \<noteq> Mu_submitted"
proof -
  have "mutationStateFor code ph \<noteq> Mu_submitted" for code ph by (simp add: mutationStateFor_def)
  with assms show ?thesis
    unfolding classifyOutboundFailure_def Let_def
    by (auto simp: and_then_Inr throw_if_Inr assertValidEvidence_Inr)
qed

text \<open>A failed send with no attempt left is always classified and stored.\<close>

lemma send_failure_stored:
  assumes "wf_db d" "isIsoTimestamp nowMs" "previous_ok previous" "owner \<noteq> Ro_none"
  obtains e d' where "classifyOutboundFailure err nowMs owner 0 previous = Inr e"
    "persistOutboundFailureDisposition k e w nowMs d = Inr d'" "valid_evidence e"
    "logical_attempt_count e = (case previous of None \<Rightarrow> 0 | Some p \<Rightarrow> logical_attempt_count p) + 1"
    "\<And>t. retry_not_before e = Some t \<Longrightarrow> nowMs < t"
    "one_row d d' k (\<lambda>r r'. if accepts_failure e r
       then failure_update (disposition_status e) e r r' else r' = r)"
proof -
  have zero: "(0::int) \<le> 0" "safe_integer 0" by (simp_all add: safe_integer_def)
  from classify_spec [OF assms(2,3,4) zero, of err] obtain e where
    e: "classifyOutboundFailure err nowMs owner 0 previous = Inr e" "valid_evidence e"
      "logical_attempt_count e = (case previous of None \<Rightarrow> 0 | Some p \<Rightarrow> logical_attempt_count p) + 1"
      "retry_decision e \<noteq> Rd_retry_now" "\<And>t. retry_not_before e = Some t \<Longrightarrow> nowMs < t" by auto
  from persist_total [OF e(2) classify_not_submitted [OF e(1)] e(4)] obtain d' where
    p: "persistOutboundFailureDisposition k e w nowMs d = Inr d'" by blast
  show ?thesis by (rule that [OF e(1) p e(2,3,5) persist_row [OF assms(1) p]])
qed

section \<open>The drain as a pass over its snapshot\<close>

definition drain_db ::
  "(stored_text \<Rightarrow> string) \<Rightarrow> (outbound_op \<Rightarrow> json \<Rightarrow> send_outcome) \<Rightarrow> int \<Rightarrow> outbound_op \<Rightarrow> db \<Rightarrow> db" where
  "drain_db sha256 send nowMs r d = (case drain_admit sha256 r nowMs d of
     (d', Da_send t) \<Rightarrow> fst (drain_settle r (send r t) nowMs d') | (d', _) \<Rightarrow> d')"

lemma fst_drain_op: "fst (drain_op sha256 send nowMs r (d, s)) = drain_db sha256 send nowMs r d"
  by (simp add: drain_op_def drain_db_def Let_def split_beta split: prod.split drain_action.split)

lemma fst_fold_drain: "fst (fold (drain_op sha256 send nowMs) rs (d, s)) = fold (drain_db sha256 send nowMs) rs d"
proof (induction rs arbitrary: d s)
  case (Cons r rs)
  then show ?case
    by (cases "drain_op sha256 send nowMs r (d, s)") (use fst_drain_op [of sha256 send nowMs r d s] in auto)
qed simp

lemma fst_drain: "fst (drainPendingOutbound sha256 send nowMs d)
    = fold (drain_db sha256 send nowMs) (getOutboundByStatus Os_pending d) d"
  by (simp add: drainPendingOutbound_def fst_fold_drain)

lemma one_row_trans: "one_row d d1 k R \<Longrightarrow> one_row d1 d2 k S \<Longrightarrow> one_row d d2 k (R OO S)"
  unfolding one_row_def by (fastforce split: option.splits)

abbreviation any_row :: "outbound_op \<Rightarrow> outbound_op \<Rightarrow> bool" where
  "any_row \<equiv> \<lambda>_ _. True"

lemma one_row_any: "one_row d d' k R \<Longrightarrow> one_row d d' k any_row"
  by (erule one_row_mono) simp

lemma any_trans: "one_row d d1 k any_row \<Longrightarrow> one_row d1 d2 k any_row \<Longrightarrow> one_row d d2 k any_row"
  using one_row_trans one_row_any by blast

lemma drain_admit_local: "wf_db d \<Longrightarrow> one_row d (fst (drain_admit sha256 r nowMs d)) (op_id r) any_row"
  using one_row_any [OF markSending_row(1)] one_row_any [OF markQuarantined_row(1)]
  by (auto simp: drain_admit_def drain_quarantine_def Let_def split_beta and_then_Inr one_row_refl
      split: drain_decision.splits sum.splits prod.splits)

lemma drain_failed_local: "wf_db d \<Longrightarrow> one_row d (drain_failed r err nowMs d) (op_id r) any_row"
  using one_row_any [OF persist_row]
  by (auto simp: drain_failed_def and_then_Inr one_row_refl split: sum.splits)

lemma drain_settle_local: "wf_db d \<Longrightarrow> one_row d (fst (drain_settle r outcome nowMs d)) (op_id r) any_row"
  using one_row_any [OF markSubmitted_row] drain_failed_local
  by (auto simp: drain_settle_def split: sum.splits send_outcome.splits)

lemma drain_db_local:
  assumes "wf_db d"
  shows "one_row d (drain_db sha256 send nowMs r d) (op_id r) any_row"
proof -
  obtain d' a where a: "drain_admit sha256 r nowMs d = (d', a)" by (cases rule: prod.exhaust)
  have one: "one_row d d' (op_id r) any_row"
    using drain_admit_local [OF assms, of sha256 r nowMs] by (simp add: a)
  then have "wf_db d'" by (simp add: one_row_def)
  from any_trans [OF one drain_settle_local [OF this]] one show ?thesis
    by (simp add: drain_db_def a split: drain_action.split)
qed

interpretation drain_pass: row_pass get_op op_id "drain_db sha256 send nowMs" wf_db
  for sha256 :: "stored_text \<Rightarrow> string" and send :: "outbound_op \<Rightarrow> json \<Rightarrow> send_outcome" and nowMs :: int
proof unfold_locales
  fix d r k
  assume "wf_db d"
  from drain_db_local [OF this, of sha256 send nowMs r] show "wf_db (drain_db sha256 send nowMs r d)"
    and "k \<noteq> op_id r \<Longrightarrow> get_op (drain_db sha256 send nowMs r d) k = get_op d k"
    by (simp_all add: one_row_def)
qed

section \<open>What the drain does with a pending row\<close>

lemma prior_ok:
  assumes "op_ok r" "op_retry_count r \<le> max_count"
  shows "case prior_evidence r of None \<Rightarrow> True | Some e \<Rightarrow> valid_evidence e"
    "0 \<le> (case prior_evidence r of None \<Rightarrow> 0 | Some e \<Rightarrow> provider_submission_count e)"
    "(case prior_evidence r of None \<Rightarrow> 0 | Some e \<Rightarrow> provider_submission_count e) \<le> op_retry_count r"
    "op_retry_count r < max_count \<Longrightarrow> previous_ok (prior_evidence r)"
  using assms evidence_counts_le [OF assms(1)]
  by (auto simp: prior_evidence_def op_ok_def previous_ok_def max_count_def split: option.splits)

lemma drain_evidence_total:
  assumes "op_ok r" "op_retry_count r \<le> max_count" "isIsoTimestamp nowMs"
  obtains e where "drain_evidence code r nowMs = Inr e" "valid_evidence e"
    "failure_code e = Internal code" "logical_attempt_count e = op_retry_count r"
    "retry_decision e = Rd_stop" "retry_owner e = Ro_none"
  unfolding drain_evidence_def
  by (rule counted_internal [OF assms(3) prior_ok(1) [OF assms(1,2)] prior_ok(2,3) [OF assms(1,2)]])
    (use assms(2) that in \<open>auto simp: max_count_def drain_evidence_def\<close>)

lemma markQuarantined_total:
  assumes "valid_evidence e" "retry_decision e = Rd_stop" "retry_owner e = Ro_none"
  shows "\<exists>d' won. markQuarantined sha256 k (Some e) nowMs d = Inr (d', won)"
proof -
  from encode_valid [OF assms(1)] obtain t where "encodeOutboundFailureEvidence e = Inr t" by blast
  with assms show ?thesis by (simp add: markQuarantined_def)
qed

lemma one_rowD:
  assumes "one_row d d' k R" "get_op d k = Some r"
  obtains r' where "get_op d' k = Some r'" "R r r'" "wf_db d'"
  using assms by (auto simp: one_row_def)

lemma drain_quarantine_effect:
  assumes "wf_db d" "get_op d (op_id r) = Some r" "op_status r = Os_pending" "op_ok r"
    "op_retry_count r \<le> max_count" "isIsoTimestamp nowMs"
  obtains d' r' e where "drain_quarantine sha256 code r nowMs d = (d', Da_quarantined code)"
    "get_op d' (op_id r) = Some r'" "failure_update Os_quarantined e r r'"
    "failure_code e = Internal code" "logical_attempt_count e = op_retry_count r"
proof -
  obtain e where e: "drain_evidence code r nowMs = Inr e" "valid_evidence e"
    "failure_code e = Internal code" "logical_attempt_count e = op_retry_count r"
    "retry_decision e = Rd_stop" "retry_owner e = Ro_none"
    by (rule drain_evidence_total [OF assms(4-6)])
  from markQuarantined_total [OF e(2,5,6)] obtain d' won where
    q: "markQuarantined sha256 (op_id r) (Some e) nowMs d = Inr (d', won)" by blast
  have live: "live r" by (simp add: live_iff assms(3))
  note row = markQuarantined_row [OF assms(1) q]
  obtain r' where r': "get_op d' (op_id r) = Some r'" "failure_update Os_quarantined e r r'"
    by (rule one_rowD [OF row(1) assms(2)]) (use live in auto)
  have "drain_quarantine sha256 code r nowMs d = (d', Da_quarantined code)"
    using e(1) q row(2) assms(2) live by (simp add: drain_quarantine_def)
  from that [OF this r' e(3,4)] show ?thesis .
qed

lemma drain_failed_effect:
  assumes "wf_db d" "get_op d (op_id r) = Some s" "op_status s = Os_sending" "op_ok r"
    "op_retry_count r < max_count" "isIsoTimestamp nowMs"
  obtains r' e where "get_op (drain_failed r err nowMs d) (op_id r) = Some r'"
    "failure_update (disposition_status e) e s r'" "valid_evidence e"
    "logical_attempt_count e = (case prior_evidence r of None \<Rightarrow> 0 | Some p \<Rightarrow> logical_attempt_count p) + 1"
    "\<And>t. retry_not_before e = Some t \<Longrightarrow> nowMs < t"
proof -
  have rc: "op_retry_count r \<le> max_count" using assms(5) by simp
  obtain e d' where e: "classifyOutboundFailure err nowMs Ro_pending_drainer 0 (prior_evidence r) = Inr e"
    "persistOutboundFailureDisposition (op_id r) e None nowMs d = Inr d'" "valid_evidence e"
    "logical_attempt_count e = (case prior_evidence r of None \<Rightarrow> 0 | Some p \<Rightarrow> logical_attempt_count p) + 1"
    "\<And>t. retry_not_before e = Some t \<Longrightarrow> nowMs < t"
    "one_row d d' (op_id r) (\<lambda>r r'. if accepts_failure e r
       then failure_update (disposition_status e) e r r' else r' = r)"
    using send_failure_stored [OF assms(1,6) prior_ok(4) [OF assms(4) rc assms(5)]] by blast
  have "accepts_failure e s" by (simp add: accepts_failure_def live_iff assms(3))
  then obtain r' where "get_op d' (op_id r) = Some r'" "failure_update (disposition_status e) e s r'"
    by (rule_tac one_rowD [OF e(6) assms(2)]) auto
  then show ?thesis using that [of r' e] e by (simp add: drain_failed_def)
qed

lemma next_attempt_ok:
  assumes "op_ok r" "op_retry_count r < max_count"
  shows "safe_integer (next_attempt r)" "1 \<le> next_attempt r" "next_attempt r \<le> op_retry_count r + 1"
proof -
  have "0 \<le> (case prior_evidence r of None \<Rightarrow> op_retry_count r | Some e \<Rightarrow> logical_attempt_count e)
      \<and> (case prior_evidence r of None \<Rightarrow> op_retry_count r | Some e \<Rightarrow> logical_attempt_count e) \<le> op_retry_count r"
    using assms evidence_counts_le [OF assms(1)] valid_counts(1)
    by (auto simp: prior_evidence_def op_ok_def split: option.splits)
  then show "safe_integer (next_attempt r)" "1 \<le> next_attempt r" "next_attempt r \<le> op_retry_count r + 1"
    using assms(2) by (auto simp: next_attempt_def safe_integer_def max_count_def)
qed

lemma settle_effect:
  assumes "wf_db d" "get_op d (op_id r) = Some s" "op_status s = Os_sending" "op_ok r"
    "op_retry_count r < max_count" "isIsoTimestamp nowMs"
  obtains r' where "get_op (fst (drain_settle r outcome nowMs d)) (op_id r) = Some r'"
    "case outcome of Delivered w \<Rightarrow> submitted_update w (next_attempt r) s r'
     | Threw err \<Rightarrow> (\<exists>e. failure_update (disposition_status e) e s r' \<and> valid_evidence e
         \<and> logical_attempt_count e
             = (case prior_evidence r of None \<Rightarrow> 0 | Some p \<Rightarrow> logical_attempt_count p) + 1
         \<and> (\<forall>t. retry_not_before e = Some t \<longrightarrow> nowMs < t))"
proof (cases outcome)
  case (Delivered w)
  from markSubmitted_total [OF next_attempt_ok(1,2) [OF assms(4,5)]] obtain d' where
    d': "markSubmitted (op_id r) w (next_attempt r) nowMs d = Inr d'" by blast
  obtain r' where "get_op d' (op_id r) = Some r'" "submitted_update w (next_attempt r) s r'"
    by (rule one_rowD [OF markSubmitted_row [OF assms(1) d'] assms(2)])
  with that [of r'] d' Delivered show ?thesis by (simp add: drain_settle_def)
next
  case (Threw err)
  obtain r' e where "get_op (drain_failed r err nowMs d) (op_id r) = Some r'"
    "failure_update (disposition_status e) e s r'" "valid_evidence e"
    "logical_attempt_count e = (case prior_evidence r of None \<Rightarrow> 0 | Some p \<Rightarrow> logical_attempt_count p) + 1"
    "\<And>t. retry_not_before e = Some t \<Longrightarrow> nowMs < t"
    by (rule drain_failed_effect [OF assms]) blast
  with that [of r'] Threw show ?thesis by (auto simp: drain_settle_def)
qed

lemma deferral_waits:
  assumes "failure_update (disposition_status e) e s r'" "valid_evidence e"
    "\<forall>t. retry_not_before e = Some t \<longrightarrow> nowMs < t"
  shows "op_status r' \<in> {Os_maybe_sent, Os_failed_permanent}
    \<or> op_status r' = Os_pending \<and> waits_for_deadline r' nowMs"
  using assms
  by (auto simp: failure_update_def disposition_status_def waits_for_deadline_def prior_evidence_def
      valid_evidence_iff split: if_splits)

text \<open>One step of the pass, on a row that is still as it was in the snapshot.\<close>

lemma drain_db_effect:
  assumes "wf_db d" "get_op d (op_id r) = Some r" "op_status r = Os_pending" "op_ok r"
    "op_retry_count r \<le> max_count" "isIsoTimestamp nowMs"
  shows "\<exists>r'. get_op (drain_db sha256 send nowMs r d) (op_id r) = Some r' \<and> same_identity r r'
    \<and> op_retry_count r \<le> op_retry_count r'
    \<and> (case drain_verdict r nowMs of Dv_wait \<Rightarrow> r' = r
       | Dv_quarantine code \<Rightarrow> op_status r' = Os_quarantined
           \<and> (\<exists>e. failure_evidence r' = V1 e \<and> failure_code e = Internal code)
       | Dv_send t \<Rightarrow> (case send r t of
             Delivered w \<Rightarrow> op_status r' = Os_submitted \<and> op_wa_message_id r' = w
           | Threw _ \<Rightarrow> op_status r' \<in> {Os_maybe_sent, Os_failed_permanent}
               \<or> op_status r' = Os_pending \<and> waits_for_deadline r' nowMs))"
proof (cases "drain_verdict r nowMs")
  case (Dv_quarantine code)
  obtain d' r' e where "drain_quarantine sha256 code r nowMs d = (d', Da_quarantined code)"
    "get_op d' (op_id r) = Some r'" "failure_update Os_quarantined e r r'"
    "failure_code e = Internal code" "logical_attempt_count e = op_retry_count r"
    by (rule drain_quarantine_effect [OF assms])
  then show ?thesis
    by (auto simp: drain_db_def drain_admit_def Dv_quarantine failure_update_def)
next
  case Dv_wait
  then show ?thesis using assms(2) by (simp add: drain_db_def drain_admit_def same_identity_def)
next
  case (Dv_send t)
  let ?d = "fst (markSending (op_id r) d)" and ?s = "r\<lparr>op_status := Os_sending\<rparr>"
  have "op_retry_count r < MAX_OUTBOUND_REPLAY_ATTEMPTS"
    using Dv_send by (auto simp: drain_verdict_def split: if_splits)
  then have rc: "op_retry_count r < max_count" by (simp add: MAX_OUTBOUND_REPLAY_ATTEMPTS_def max_count_def)
  have admit: "drain_admit sha256 r nowMs d = (?d, Da_send t)"
    using Dv_send markSending_row(2) [OF assms(1), of "op_id r"] assms(2,3)
    by (simp add: drain_admit_def Let_def split_beta)
  have s: "get_op ?d (op_id r) = Some ?s" and wf: "wf_db ?d"
    using markSending_row(1) [OF assms(1), of "op_id r"] assms(2,3) by (auto simp: one_row_def)
  have same: "same_identity r r'" if "same_identity ?s r'" for r'
    using that by (simp add: same_identity_def)
  obtain r' where r': "get_op (fst (drain_settle r (send r t) nowMs ?d)) (op_id r) = Some r'"
    "case send r t of Delivered w \<Rightarrow> submitted_update w (next_attempt r) ?s r'
     | Threw err \<Rightarrow> (\<exists>e. failure_update (disposition_status e) e ?s r' \<and> valid_evidence e
         \<and> logical_attempt_count e
             = (case prior_evidence r of None \<Rightarrow> 0 | Some p \<Rightarrow> logical_attempt_count p) + 1
         \<and> (\<forall>t. retry_not_before e = Some t \<longrightarrow> nowMs < t))"
    by (rule settle_effect [OF wf s _ assms(4) rc assms(6), where outcome = "send r t"]) simp
  show ?thesis
  proof (cases "send r t")
    case (Delivered w)
    with r' Dv_send same show ?thesis
      by (auto simp: drain_db_def admit submitted_update_def)
  next
    case (Threw err)
    with r'(2) obtain e where e: "failure_update (disposition_status e) e ?s r'" "valid_evidence e"
      "\<forall>t. retry_not_before e = Some t \<longrightarrow> nowMs < t" by auto
    from deferral_waits [OF e] e(1) r'(1) Dv_send Threw same show ?thesis
      by (auto simp: drain_db_def admit failure_update_def)
  qed
qed

section \<open>Properties\<close>

lemma snapshot_rows:
  assumes "wf_db d"
  shows "distinct (map op_id (getOutboundByStatus st d))"
    "r \<in> set (getOutboundByStatus st d) \<longleftrightarrow> get_op d (op_id r) = Some r \<and> op_status r = st"
proof -
  have "distinct (map op_id (outbound_ops d))" using assms by (simp add: wf_db_def keys_ok_def)
  then show "distinct (map op_id (getOutboundByStatus st d))"
    by (auto simp: getOutboundByStatus_def distinct_map intro: inj_on_subset)
  show "r \<in> set (getOutboundByStatus st d) \<longleftrightarrow> get_op d (op_id r) = Some r \<and> op_status r = st"
    using get_op_mem [OF assms] by (auto simp: getOutboundByStatus_def)
qed

text \<open>
  C23: The drain leaves no pending operation without an outcome. On a well-formed ledger, every
  operation that was pending when the drain read its snapshot either waits unchanged for its retry
  deadline, or is quarantined with the code of its limit, or was sent: then it is submitted with the
  receipt's message id, or its failure is stored as ambiguous, as permanent, or as a deferral whose
  deadline lies in the future. A failing operation never stops the others, identities and retry
  counts are kept, and operations that were not pending are untouched.
\<close>

theorem drain_settles_every_pending_op:
  assumes "wf_db d" "ledger_ok d" "isIsoTimestamp nowMs" "get_op d k = Some r"
    "op_retry_count r \<le> max_count"
  shows "\<exists>r'. get_op (fst (drainPendingOutbound sha256 send nowMs d)) k = Some r'
    \<and> (if op_status r \<noteq> Os_pending then r' = r
       else same_identity r r' \<and> op_retry_count r \<le> op_retry_count r'
        \<and> (case drain_verdict r nowMs of Dv_wait \<Rightarrow> r' = r
           | Dv_quarantine code \<Rightarrow> op_status r' = Os_quarantined
               \<and> (\<exists>e. failure_evidence r' = V1 e \<and> failure_code e = Internal code)
           | Dv_send t \<Rightarrow> (case send r t of
                 Delivered w \<Rightarrow> op_status r' = Os_submitted \<and> op_wa_message_id r' = w
               | Threw _ \<Rightarrow> op_status r' \<in> {Os_maybe_sent, Os_failed_permanent}
                   \<or> op_status r' = Os_pending \<and> waits_for_deadline r' nowMs)))"
proof (cases "op_status r = Os_pending")
  case True
  have id: "op_id r = k" by (rule get_op_id [OF assms(4)])
  have mem: "r \<in> set (getOutboundByStatus Os_pending d)"
    using snapshot_rows(2) [OF assms(1)] assms(4) id True by simp
  obtain d1 where d1: "wf_db d1" "get_op d1 (op_id r) = get_op d (op_id r)"
    "get_op (fold (drain_db sha256 send nowMs) (getOutboundByStatus Os_pending d) d) (op_id r)
      = get_op (drain_db sha256 send nowMs r d1) (op_id r)"
    by (rule drain_pass.pass_row [OF assms(1) snapshot_rows(1) [OF assms(1)] mem])
  have "get_op d1 (op_id r) = Some r" using d1(2) assms(4) id by simp
  note eff = drain_db_effect [OF d1(1) this True get_op_ok [OF assms(2,4)] assms(5,3), of sha256 send]
  show ?thesis
    unfolding fst_drain id [symmetric] using eff d1(3) True by (simp only: simp_thms if_False conj_assoc)
next
  case False
  have "op_id x \<noteq> k" if "x \<in> set (getOutboundByStatus Os_pending d)" for x
    using that False assms(4) unfolding snapshot_rows(2) [OF assms(1), of x] by auto
  then have "k \<notin> op_id ` set (getOutboundByStatus Os_pending d)" by blast
  from drain_pass.pass_outside [OF assms(1) this] False assms(4) show ?thesis
    by (simp add: fst_drain)
qed

theorem drain_settles_every_pending_op_witness:
  "\<exists>r'. get_op (fst (drainPendingOutbound no_hash (\<lambda>_ _. Delivered (Some ''m1'')) 1700000000000 Ledger.sample_db)) 1
     = Some r' \<and> op_status r' = Os_submitted"
proof -
  let ?r = "new_op no_hash Ledger.sample_params 1 1700000000"
  have "op_status ?r = Os_pending" "op_retry_count ?r \<le> max_count"
    by (simp_all add: new_op_def max_count_def)
  moreover have "drain_verdict ?r 1700000000000 = Dv_send (JStr ''hello'')"
    by (simp add: drain_verdict_def new_op_def Ledger.sample_params_def waits_for_deadline_def prior_evidence_def
        failure_evidence_def drain_text_def ping_expired_def STATUS_OP_TTL_MS_def MAX_OUTBOUND_REPLAY_ATTEMPTS_def)
  ultimately show ?thesis
    using drain_settles_every_pending_op [OF Ledger.sample_db_ok Ledger.sample_clock Ledger.sample_db_row(1),
        of no_hash "\<lambda>_ _. Delivered (Some ''m1'')"] by auto
qed

lemma supersede_selected_total:
  assumes "wf_db d" "ledger_ok d" "isIsoTimestamp nowMs"
    "\<forall>r \<in> set (outbound_ops d). op_retry_count r < max_count"
  shows "\<exists>d1. supersede_all (selectOutstandingStatus chat d) nowMs d = (d1, Inr ())"
proof -
  let ?rs = "selectOutstandingStatus chat d"
  have dist: "distinct (map op_id ?rs)"
    using assms(1) by (auto simp: selectOutstandingStatus_def wf_db_def keys_ok_def distinct_map
        intro: inj_on_subset)
  have "\<forall>x \<in> set ?rs. get_op d (op_id x) = Some x \<and> live x \<and> op_ok x \<and> op_retry_count x < max_count"
    using assms(2,4) get_op_mem [OF assms(1)]
    by (auto simp: ledger_ok_def selectOutstandingStatus_def live_def)
  from supersede_all_total [OF assms(1,3) dist this] show ?thesis by blast
qed

text \<open>Creating an operation returns the next key, whose row is the new pending one.\<close>

lemma createOutboundOp_new:
  assumes "wf_db d" "ledger_ok d" "isIsoTimestamp nowMs"
    "\<forall>r \<in> set (outbound_ops d). op_retry_count r < max_count"
  obtains d' where "createOutboundOp sha256 params nowMs d = (d', Inr (last_op_id d + 1))" "wf_db d'"
    "get_op d' (last_op_id d + 1) = Some (new_op sha256 params (last_op_id d + 1) (sql_now nowMs))"
proof -
  let ?u = "if opp_opType params = ''status_ping''
    then supersede_all (selectOutstandingStatus (opp_chatJid params) d) nowMs d else (d, Inr ())"
  have live: "\<forall>x \<in> set (selectOutstandingStatus (opp_chatJid params) d). live x"
    by (simp add: selectOutstandingStatus_def live_def)
  obtain d1 where d1: "?u = (d1, Inr ())"
    using supersede_selected_total [OF assms] by (cases "opp_opType params = ''status_ping''") auto
  have one: "wf_db d1 \<and> last_op_id d1 = last_op_id d"
    using supersede_all_steps [OF assms(1) live, of nowMs] d1 assms(1)
    by (cases "opp_opType params = ''status_ping''") auto
  let ?d = "fst (insert_op sha256 params (sql_now nowMs) d1)"
  have "\<forall>r \<in> set (outbound_ops d1). op_id r \<noteq> last_op_id d + 1"
    using one by (fastforce simp: wf_db_def keys_ok_def list_all_iff)
  then have "get_op d1 (last_op_id d + 1) = None" by (simp add: get_op_def find_None_iff)
  then have row: "get_op ?d (last_op_id d + 1)
      = Some (new_op sha256 params (last_op_id d + 1) (sql_now nowMs))"
    using one by (simp add: insert_op_def Let_def get_op_append) (simp add: new_op_def)
  have "createOutboundOp sha256 params nowMs d = (?d, Inr (last_op_id d + 1))"
    using one by (simp add: createOutboundOp_def d1 insert_op_def Let_def)
  from that [OF this insert_op_steps(1) row] one show ?thesis by blast
qed

text \<open>
  C24: A tracked send always settles its ledger row. For a valid address and representable clocks,
  sending through the engine records a new operation, and whatever the messenger does, the operation
  never stays claimed: after a receipt it is submitted under the receipt's message id and the call
  returns; after a thrown error the same error is thrown on and the row is ambiguous, permanently
  failed, or pending with a deadline in the future and one attempt counted.
\<close>

theorem tracked_send_settles:
  assumes "wf_db d" "ledger_ok d" "isIsoTimestamp nowMs" "isIsoTimestamp laterMs"
    "\<forall>r \<in> set (outbound_ops d). op_retry_count r < max_count" "toConversationKey chatJid = Inr key"
  shows "\<exists>d' res r. sendTracked sha256 outcome chatJid txt True opts nowMs laterMs d = (d', res)
    \<and> get_op d' (last_op_id d + 1) = Some r \<and> op_chat_jid r = chatJid \<and> op_payload r = text_payload txt
    \<and> op_retry_count r = 1
    \<and> (case outcome of
        Delivered w \<Rightarrow> res = Tr_returned \<and> op_status r = Os_submitted \<and> op_wa_message_id r = w
      | Threw err \<Rightarrow> res = Tr_rethrown err \<and> (op_status r \<in> {Os_maybe_sent, Os_failed_permanent}
          \<or> op_status r = Os_pending \<and> waits_for_deadline r laterMs))"
proof -
  define params where "params = \<lparr>opp_conversationKey = key, opp_chatJid = chatJid,
     opp_opType = (case to_opType opts of None \<Rightarrow> ''text'' | Some t \<Rightarrow> t),
     opp_payload = text_payload txt, opp_replayPolicy = to_replayPolicy opts,
     opp_sourceInboundSeq = to_sourceInboundSeq opts, opp_isTerminal = to_isTerminal opts\<rparr>"
  let ?k = "last_op_id d + 1"
  obtain d1 where d1: "createOutboundOp sha256 params nowMs d = (d1, Inr ?k)" "wf_db d1"
    "get_op d1 ?k = Some (new_op sha256 params ?k (sql_now nowMs))"
    by (rule createOutboundOp_new [OF assms(1-3,5)])
  define d2 where "d2 = fst (markSending ?k d1)"
  define s where "s = (new_op sha256 params ?k (sql_now nowMs))\<lparr>op_status := Os_sending\<rparr>"
  have s: "get_op d2 ?k = Some s" and wf: "wf_db d2"
    using markSending_row(1) [OF d1(2), of ?k] d1(3) by (auto simp: one_row_def s_def d2_def new_op_def)
  have fields: "op_status s = Os_sending" "op_retry_count s = 0" "op_chat_jid s = chatJid"
    "op_payload s = text_payload txt" by (simp_all add: s_def new_op_def params_def)
  have start: "sendTracked sha256 outcome chatJid txt True opts nowMs laterMs d
      = sendTracked_settle ?k outcome laterMs d2"
    using assms(6) d1(1) by (simp add: sendTracked_def sendTracked_begin_def params_def d2_def)
  show ?thesis
  proof (cases outcome)
    case (Delivered w)
    have "\<exists>d'. markSubmitted ?k w 1 laterMs d2 = Inr d'"
      by (rule markSubmitted_total) (simp_all add: safe_integer_def)
    then obtain d' where d': "markSubmitted ?k w 1 laterMs d2 = Inr d'" by blast
    obtain r where "get_op d' ?k = Some r" "submitted_update w 1 s r"
      by (rule one_rowD [OF markSubmitted_row [OF wf d'] s])
    with d' Delivered fields show ?thesis
      unfolding start by (simp add: sendTracked_settle_def submitted_update_def same_identity_def)
  next
    case (Threw err)
    obtain e d' where e: "classifyOutboundFailure err laterMs Ro_send_tracked 0 None = Inr e"
      "persistOutboundFailureDisposition ?k e None laterMs d2 = Inr d'" "valid_evidence e"
      "logical_attempt_count e = 1" "\<And>t. retry_not_before e = Some t \<Longrightarrow> laterMs < t"
      "one_row d2 d' ?k (\<lambda>r r'. if accepts_failure e r
         then failure_update (disposition_status e) e r r' else r' = r)"
      by (rule send_failure_stored [OF wf assms(4), of None Ro_send_tracked err ?k None])
        (auto simp: previous_ok_def)
    have "accepts_failure e s" by (simp add: accepts_failure_def live_iff fields)
    then obtain r where r: "get_op d' ?k = Some r" "failure_update (disposition_status e) e s r"
      by (rule_tac one_rowD [OF e(6) s]) auto
    have "op_status r \<in> {Os_maybe_sent, Os_failed_permanent}
        \<or> op_status r = Os_pending \<and> waits_for_deadline r laterMs"
      by (rule deferral_waits [OF r(2) e(3)]) (use e(5) in blast)
    with r e Threw fields show ?thesis
      unfolding start by (simp add: sendTracked_settle_def tracked_failed_def failure_update_def same_identity_def)
  qed
qed

definition sample_opts :: tracked_opts where
  "sample_opts = \<lparr>to_replayPolicy = Rp_safe, to_isTerminal = True, to_sourceInboundSeq = None, to_opType = None\<rparr>"

theorem tracked_send_settles_witness:
  "\<exists>d' r. sendTracked Ledger.no_hash (Delivered (Some ''m1'')) ''1555@s.whatsapp.net'' ''hi'' True sample_opts
       1700000000000 1700000000000 Ledger.sample_db = (d', Tr_returned)
     \<and> get_op d' (last_op_id Ledger.sample_db + 1) = Some r \<and> op_status r = Os_submitted"
proof -
  have "\<forall>r \<in> set (outbound_ops Ledger.sample_db). op_retry_count r < max_count"
    by (simp add: Ledger.sample_db_row new_op_def max_count_def)
  moreover have "toConversationKey ''1555@s.whatsapp.net'' = Inr ''1555''" by code_simp
  ultimately show ?thesis
    using tracked_send_settles [OF Ledger.sample_db_ok Ledger.sample_clock Ledger.sample_clock,
        of "''1555@s.whatsapp.net''" "''1555''" Ledger.no_hash "Delivered (Some ''m1'')" "''hi''" sample_opts]
    by auto
qed

end
