(* ===== verification/Runs.thy ===== *)
theory Runs
  imports Drain
begin

text \<open>
  The durable evidence of recovery runs (\<^verbatim>\<open>src/core/durability-recovery-evidence.ts\<close>): a run is
  admitted with a plan and a receipt, its failed phases are collected, and it is finalized exactly
  once or recorded incomplete. Turns lost to a crash are enrolled for an operator in the same
  transaction that fails them. The random part of a plan id is an argument. Of the schema's
  constraints the two that decide whether an enrolment is written are modelled: its inbound event
  must exist, and a plan enrols an event once.
\<close>

section \<open>Admission\<close>

definition RECOVERY_ACTOR :: string where "RECOVERY_ACTOR = ''durability_engine''"

definition DELIVERY_CORROBORATION_BASIS :: string where
  "DELIVERY_CORROBORATION_BASIS = ''same_source_later_echoed_op''"

record recovery_receipt =
  rc_recoveryPlanId :: string
  rc_recoveryRunId :: int

definition createRecoveryStats :: "recovery_receipt option \<Rightarrow> recovery_stats" where
  "createRecoveryStats receipt = \<lparr>rs_inboundReplayed = 0, rs_outboundReconciled = 0,
     rs_outboundReplayed = 0, rs_outboundQuarantined = 0, rs_toolCallsRecovered = 0,
     rs_toolCallsReplayed = 0, rs_toolCallsQuarantined = 0, rs_sessionsRestored = 0,
     rs_recoveryPlanId = map_option rc_recoveryPlanId receipt,
     rs_recoveryRunId = map_option rc_recoveryRunId receipt, rs_openRecoveries = 0\<rparr>"

datatype recovery_origin = Ro_pre_connect_recovery | Ro_post_connect_recovery | Ro_stuck_inbound_sweep

fun origin_str :: "recovery_origin \<Rightarrow> string" where
  "origin_str Ro_pre_connect_recovery = ''pre_connect_recovery''"
| "origin_str Ro_post_connect_recovery = ''post_connect_recovery''"
| "origin_str Ro_stuck_inbound_sweep = ''stuck_inbound_sweep''"

definition startWithinTransaction ::
  "string \<Rightarrow> recovery_origin \<Rightarrow> string \<Rightarrow> string \<Rightarrow> db \<Rightarrow> db \<times> recovery_receipt result" where
  "startWithinTransaction uuid origin trigger summary d =
     (let planId = ''recovery-'' @ uuid;
          runId = last_run_id d + 1;
          d' = d\<lparr>recovery_plans := recovery_plans d @ [\<lparr>rp_plan_id = planId, rp_origin = origin_str origin,
                 rp_actor = RECOVERY_ACTOR, rp_summary = summary\<rparr>],
               recovery_runs := recovery_runs d @ [\<lparr>rr_id = runId, rr_plan_id = Some planId,
                 rr_trigger = trigger, rr_status = ''started'', rr_stats = None, rr_notes = None,
                 rr_error_kind = None, rr_error_message = None, rr_completed_at = None\<rparr>],
               last_run_id := runId\<rparr>
      in (d', throw_if (\<not> safe_integer runId \<or> runId < 1)
           (Error ''Recovery run did not return a durable positive identity'')
           (Inr \<lparr>rc_recoveryPlanId = planId, rc_recoveryRunId = runId\<rparr>)))"

definition start_run ::
  "string \<Rightarrow> recovery_origin \<Rightarrow> string \<Rightarrow> string \<Rightarrow> db \<Rightarrow> db \<times> recovery_receipt result" where
  "start_run uuid origin trigger summary =
     withTransaction (startWithinTransaction uuid origin trigger summary)"

section \<open>The receipt of a run\<close>

definition open_run :: "recovery_receipt \<Rightarrow> recovery_run \<Rightarrow> bool" where
  "open_run receipt r \<longleftrightarrow> rr_id r = rc_recoveryRunId receipt
     \<and> rr_plan_id r = Some (rc_recoveryPlanId receipt) \<and> rr_completed_at r = None"

definition update_run ::
  "recovery_receipt \<Rightarrow> (recovery_run \<Rightarrow> recovery_run) \<Rightarrow> error \<Rightarrow> db \<Rightarrow> db \<times> unit result" where
  "update_run receipt f err d =
     (d\<lparr>recovery_runs := update_rows (open_run receipt) f (recovery_runs d)\<rparr>,
      throw_if (changes (open_run receipt) (recovery_runs d) \<noteq> 1) err (Inr ()))"

definition finalize_run ::
  "recovery_receipt \<Rightarrow> recovery_stats \<Rightarrow> run_notes option \<Rightarrow> int \<Rightarrow> db \<Rightarrow> db \<times> unit result" where
  "finalize_run receipt stats notes now = update_run receipt
     (\<lambda>r. r\<lparr>rr_stats := Some stats, rr_status := ''completed'', rr_notes := notes,
            rr_completed_at := Some now\<rparr>)
     (Error ''Recovery run receipt could not be finalized exactly once'')"

definition recordIncomplete ::
  "recovery_receipt \<Rightarrow> recovery_stats \<Rightarrow> run_notes \<Rightarrow> string option \<Rightarrow> string option \<Rightarrow> db \<Rightarrow> db \<times> unit result" where
  "recordIncomplete receipt stats notes errorKind errorMsg = update_run receipt
     (\<lambda>r. r\<lparr>rr_stats := Some stats, rr_status := ''failed'', rr_notes := Some notes,
            rr_error_kind := errorKind, rr_error_message := errorMsg\<rparr>)
     (Error ''Incomplete recovery run receipt could not be recorded exactly once'')"

section \<open>Open catch-ups\<close>

definition pending_link :: "disposition_link \<Rightarrow> bool" where
  "pending_link l \<longleftrightarrow> dl_disposition l = ''recovery_pending_operator_catchup''"

definition closed_link :: "db \<Rightarrow> disposition_link \<Rightarrow> bool" where
  "closed_link d l \<longleftrightarrow> list_ex (\<lambda>c. dl_inbound_seq c = dl_inbound_seq l
     \<and> dl_recovery_plan_id c = dl_recovery_plan_id l
     \<and> dl_disposition c = ''superseded_by_operator_catchup'') (disposition_links d)"

definition synthetic_source :: "db \<Rightarrow> int \<Rightarrow> bool" where
  "synthetic_source d k \<longleftrightarrow> (case get_inbound d k of None \<Rightarrow> False
     | Some i \<Rightarrow> syntheticSourceMessageId (ie_message_id i))"

definition countOpen :: "db \<Rightarrow> nat" where
  "countOpen d = length (filter (\<lambda>l. pending_link l \<and> \<not> closed_link d l
     \<and> \<not> synthetic_source d (dl_inbound_seq l)) (disposition_links d))"

definition insertPendingDisposition ::
  "int \<Rightarrow> recovery_receipt \<Rightarrow> string \<Rightarrow> db \<Rightarrow> db \<times> unit result" where
  "insertPendingDisposition k receipt why d =
     (if get_inbound d k = None then (d, Inl (Error ''FOREIGN KEY constraint failed''))
      else if list_ex (\<lambda>l. pending_link l \<and> dl_inbound_seq l = k
           \<and> dl_recovery_plan_id l = rc_recoveryPlanId receipt) (disposition_links d)
      then (d, Inl (Error ''UNIQUE constraint failed''))
      else (d\<lparr>disposition_links := disposition_links d @ [\<lparr>dl_inbound_seq = k,
          dl_recovery_plan_id = rc_recoveryPlanId receipt,
          dl_disposition = ''recovery_pending_operator_catchup'', dl_superseded_by = None, dl_reason = why,
          dl_evidence_ref = ''recovery_run:'' @ int_str (rc_recoveryRunId receipt),
          dl_actor = RECOVERY_ACTOR\<rparr>]\<rparr>, Inr ()))"

definition recordPendingWithinTransaction ::
  "int \<Rightarrow> recovery_receipt \<Rightarrow> string \<Rightarrow> (db \<Rightarrow> db) \<Rightarrow> db \<Rightarrow> db \<times> unit result" where
  "recordPendingWithinTransaction k receipt why mutateInbound d =
     (let d1 = mutateInbound d in
      if synthetic_source d1 k then (d1, Inr ()) else insertPendingDisposition k receipt why d1)"

definition recordPending ::
  "int \<Rightarrow> recovery_receipt \<Rightarrow> string \<Rightarrow> (db \<Rightarrow> db) \<Rightarrow> db \<Rightarrow> db \<times> unit result" where
  "recordPending k receipt why mutateInbound =
     withTransaction (recordPendingWithinTransaction k receipt why mutateInbound)"

section \<open>Delivery corroboration\<close>

definition later_echo :: "terminal_record \<Rightarrow> outbound_op \<Rightarrow> outbound_op \<Rightarrow> bool" where
  "later_echo t sel cand \<longleftrightarrow> tt_delivery_op_id t = Some (op_id sel)
     \<and> op_source_inbound_seq cand = op_source_inbound_seq sel
     \<and> op_conversation_key cand = op_conversation_key sel \<and> op_chat_jid cand = op_chat_jid sel
     \<and> op_status cand = Os_echoed \<and> op_id cand > op_id sel
     \<and> tt_delivery_kind t = ''delivery_unknown'' \<and> tt_inbound_seq t \<noteq> None
     \<and> Some (tt_inbound_seq_key t) = tt_inbound_seq t
     \<and> op_source_inbound_seq sel = tt_inbound_seq t
     \<and> op_conversation_key sel = tt_conversation_key t \<and> op_chat_jid sel = tt_delivery_jid t
     \<and> op_is_terminal sel"

definition corroboration_row :: "recovery_receipt \<Rightarrow> terminal_record \<Rightarrow> outbound_op \<Rightarrow> outbound_op \<Rightarrow> corroboration" where
  "corroboration_row receipt t sel cand = \<lparr>co_terminal_record_id = tt_id t,
     co_corroborating_op_id = op_id cand, co_basis = DELIVERY_CORROBORATION_BASIS,
     co_actor = RECOVERY_ACTOR,
     co_evidence_ref = ''recovery_plan:'' @ rc_recoveryPlanId receipt @ ''/recovery_run:''
       @ int_str (rc_recoveryRunId receipt) @ ''/terminal_record:'' @ int_str (tt_id t)
       @ ''/selected_op:'' @ int_str (op_id sel)\<rparr>"

text \<open>\<^verbatim>\<open>INSERT OR IGNORE\<close> under UNIQUE (terminal_record_id, corroborating_op_id), and its row count.\<close>

fun insert_corroborations :: "corroboration list \<Rightarrow> db \<Rightarrow> db \<times> nat" where
  "insert_corroborations [] d = (d, 0)"
| "insert_corroborations (c # cs) d =
     (if list_ex (\<lambda>x. co_terminal_record_id x = co_terminal_record_id c
          \<and> co_corroborating_op_id x = co_corroborating_op_id c) (corroborations d)
      then insert_corroborations cs d
      else let (d', n) = insert_corroborations cs (d\<lparr>corroborations := corroborations d @ [c]\<rparr>) in (d', n + 1))"

definition reconcileDeliveryCorroboration :: "recovery_receipt \<Rightarrow> db \<Rightarrow> db \<times> nat" where
  "reconcileDeliveryCorroboration receipt d = insert_corroborations
     [corroboration_row receipt t sel cand. t \<leftarrow> terminal_records d, sel \<leftarrow> outbound_ops d,
        cand \<leftarrow> outbound_ops d, later_echo t sel cand] d"

definition hasDeliveryCorroboration :: "int \<Rightarrow> db \<Rightarrow> bool" where
  "hasDeliveryCorroboration opId d \<longleftrightarrow> list_ex (\<lambda>t. tt_delivery_kind t = ''delivery_unknown''
     \<and> tt_delivery_op_id t = Some opId
     \<and> list_ex (\<lambda>c. co_terminal_record_id c = tt_id t) (corroborations d)) (terminal_records d)"

section \<open>A run from admission to its end\<close>

record run_state =
  ru_receipt :: recovery_receipt
  ru_stats :: recovery_stats
  ru_failures :: "(string \<times> error) list"

definition begin_run ::
  "string \<Rightarrow> recovery_origin \<Rightarrow> string \<Rightarrow> string \<Rightarrow> db \<Rightarrow> db \<times> run_state result" where
  "begin_run uuid origin trigger summary d = (case start_run uuid origin trigger summary d of
     (d', Inl e) \<Rightarrow> (d', Inl e)
   | (d', Inr receipt) \<Rightarrow> (d', Inr \<lparr>ru_receipt = receipt,
       ru_stats = createRecoveryStats (Some receipt), ru_failures = []\<rparr>))"

definition recordFailure :: "string \<Rightarrow> error \<Rightarrow> run_state \<Rightarrow> run_state" where
  "recordFailure ph err run = run\<lparr>ru_failures := ru_failures run @ [(ph, err)]\<rparr>"

fun error_message :: "error \<Rightarrow> string" where
  "error_message (Error m) = m"
| "error_message (RangeError m) = m"
| "error_message (ClaimFenceError m) = m"

text \<open>Each failed phase once, in the order of its first failure, as \<^verbatim>\<open>new Set(..)\<close> keeps it.\<close>

definition failed_phases :: "run_state \<Rightarrow> string list" where
  "failed_phases run = rev (remdups (rev (map fst (ru_failures run))))"

datatype run_error = Primary error | Aggregate error error string

definition failIncomplete :: "string \<Rightarrow> nat option \<Rightarrow> run_state \<Rightarrow> db \<Rightarrow> db \<times> run_error" where
  "failIncomplete operation openRecoveries run d =
     (let phases = failed_phases run;
          first = (case phases of [] \<Rightarrow> None | p # _ \<Rightarrow> Some p);
          primary = (case ru_failures run of (_, e) # _ \<Rightarrow> e
            | [] \<Rightarrow> Error (operation @ '' failed during '' @ (case first of None \<Rightarrow> ''unknown_phase'' | Some p \<Rightarrow> p)))
      in case recordIncomplete (ru_receipt run) (ru_stats run) (Notes_incomplete phases openRecoveries)
             first (Some (error_message primary)) d of
           (d', Inl e) \<Rightarrow> (d', Aggregate primary e
              (operation @ '': recovery failed and its incomplete receipt could not be recorded''))
         | (d', Inr _) \<Rightarrow> (d', Primary primary))"

definition failImmediately ::
  "string \<Rightarrow> string \<Rightarrow> error \<Rightarrow> nat option \<Rightarrow> run_state \<Rightarrow> db \<Rightarrow> db \<times> run_error" where
  "failImmediately operation ph err openRecoveries run =
     failIncomplete operation openRecoveries (recordFailure ph err run)"

definition attestOpenRecoveries :: "string \<Rightarrow> run_state \<Rightarrow> db \<Rightarrow> db \<times> (run_error + run_state)" where
  "attestOpenRecoveries operation run d =
     (let run' = run\<lparr>ru_stats := (ru_stats run)\<lparr>rs_openRecoveries := countOpen d\<rparr>\<rparr> in
      if ru_failures run' \<noteq> []
      then (case failIncomplete operation (Some (rs_openRecoveries (ru_stats run'))) run' d of
          (d', e) \<Rightarrow> (d', Inl e))
      else (d, Inr run'))"

definition finalize :: "string \<Rightarrow> run_state \<Rightarrow> int \<Rightarrow> db \<Rightarrow> db \<times> (run_error + unit)" where
  "finalize operation run now d =
     (case finalize_run (ru_receipt run) (ru_stats run)
             (Some (Notes_open (rs_openRecoveries (ru_stats run)))) now d of
        (d', Inr _) \<Rightarrow> (d', Inr ())
      | (d', Inl e) \<Rightarrow> (case failImmediately operation ''finalize_recovery_run'' e
            (Some (rs_openRecoveries (ru_stats run))) run d' of (d'', e') \<Rightarrow> (d'', Inl e')))"

end
