(* ===== verification/Reconcile.thy ===== *)
theory Reconcile
  imports Runs
begin

text \<open>
  The outbound half of recovery (\<^verbatim>\<open>src/core/durability.ts\<close>): interrupted sends are promoted to
  ambiguous at startup, submitted sends without an echo are swept to ambiguous, and ambiguous sends
  are reconciled against the message history, replayed when their policy allows it, or quarantined.
  \<open>alert\<close> answers whether an operator alert was durably queued.
\<close>

section \<open>Startup: interrupted sends\<close>

definition crash_evidence :: "outbound_op \<Rightarrow> int \<Rightarrow> evidence result" where
  "crash_evidence r nowMs = createInternalOutboundFailureEvidence
     \<lparr>io_failureCode = Ic_crash_in_flight, io_stage = St_provider_request, io_mutationState = Mu_ambiguous,
      io_retryable = None, io_retryDecision = None, io_retryNotBefore = None, io_retryOwner = None,
      io_attemptBudgetDisposition = None, io_logicalAttemptCount = Some (op_retry_count r + 1),
      io_providerSubmissionCount = Some (min (op_retry_count r + 1)
        ((case prior_evidence r of None \<Rightarrow> op_retry_count r | Some e \<Rightarrow> provider_submission_count e) + 1)),
      io_previousEvidence = prior_evidence r, io_evidenceCoverage = Some Cv_partial\<rparr> nowMs"

definition mark_ambiguous ::
  "(outbound_op \<Rightarrow> int \<Rightarrow> evidence result) \<Rightarrow> string option \<Rightarrow> outbound_op \<Rightarrow> int \<Rightarrow> db \<Rightarrow> (db \<times> bool) result" where
  "mark_ambiguous mk w r nowMs d = and_then (mk r nowMs)
     (\<lambda>e. markMaybeSent (op_id r) (Evidence_record e) w nowMs d)"

definition promote_sending :: "int \<Rightarrow> outbound_op \<Rightarrow> db \<times> nat \<Rightarrow> (db \<times> nat) \<times> unit result" where
  "promote_sending nowMs r = (\<lambda>(d, n). case mark_ambiguous crash_evidence None r nowMs d of
     Inl e \<Rightarrow> ((d, n), Inl e) | Inr (d', changed) \<Rightarrow> ((d', if changed then n + 1 else n), Inr ()))"

definition promoteSendingOutbound :: "int \<Rightarrow> db \<Rightarrow> (db \<times> nat) \<times> unit result" where
  "promoteSendingOutbound nowMs d =
     run_until_throw (promote_sending nowMs) (getOutboundByStatus Os_sending d) (d, 0)"

section \<open>Submitted sends without an echo\<close>

text \<open>\<^verbatim>\<open>submitted_at\<close> is written by the engine alone; a value it did not write counts as fresh.\<close>

definition getStaleSubmitted :: "int \<Rightarrow> db \<Rightarrow> outbound_op list" where
  "getStaleSubmitted now d = filter (\<lambda>r. op_status r = Os_submitted
     \<and> (case op_submitted_at r of Some (At t) \<Rightarrow> t < now - 30 | _ \<Rightarrow> False)) (outbound_ops d)"

definition echo_timeout_evidence :: "outbound_op \<Rightarrow> int \<Rightarrow> evidence result" where
  "echo_timeout_evidence r nowMs = createInternalOutboundFailureEvidence
     \<lparr>io_failureCode = Ic_echo_timeout, io_stage = St_acknowledgement, io_mutationState = Mu_ambiguous,
      io_retryable = None, io_retryDecision = None, io_retryNotBefore = None, io_retryOwner = None,
      io_attemptBudgetDisposition = None, io_logicalAttemptCount = Some (max (op_retry_count r) 1),
      io_providerSubmissionCount = Some (max
        (case prior_evidence r of None \<Rightarrow> 0 | Some e \<Rightarrow> provider_submission_count e) 1),
      io_previousEvidence = prior_evidence r, io_evidenceCoverage = Some Cv_partial\<rparr> nowMs"

definition sweep_submitted :: "int \<Rightarrow> outbound_op \<Rightarrow> db \<times> nat \<Rightarrow> (db \<times> nat) \<times> unit result" where
  "sweep_submitted nowMs r = (\<lambda>(d, n).
     case mark_ambiguous echo_timeout_evidence (op_wa_message_id r) r nowMs d of
       Inl e \<Rightarrow> ((d, n), Inl e) | Inr (d', changed) \<Rightarrow> ((d', if changed then n + 1 else n), Inr ()))"

definition sweepStaleSubmitted :: "int \<Rightarrow> db \<Rightarrow> db \<times> nat result" where
  "sweepStaleSubmitted nowMs d =
     (case run_until_throw (sweep_submitted nowMs) (getStaleSubmitted (sql_now nowMs) d) (d, 0) of
        ((d', n), Inr _) \<Rightarrow> (d', Inr n) | ((d', _), Inl e) \<Rightarrow> (d', Inl e))"

section \<open>Ambiguous sends\<close>

definition pendingReplayEvidence :: "outbound_op \<Rightarrow> int \<Rightarrow> evidence result" where
  "pendingReplayEvidence r nowMs = (case prior_evidence r of
     Some e \<Rightarrow> transferOutboundRetryOwnership e Ro_pending_drainer nowMs
   | None \<Rightarrow> createInternalOutboundFailureEvidence
     \<lparr>io_failureCode = Ic_unknown_failure, io_stage = St_runtime, io_mutationState = Mu_ambiguous,
      io_retryable = Some True, io_retryDecision = Some Rd_retry_now, io_retryNotBefore = None,
      io_retryOwner = Some Ro_pending_drainer, io_attemptBudgetDisposition = Some Bd_preserve,
      io_logicalAttemptCount = Some (op_retry_count r),
      io_providerSubmissionCount = Some (min (op_retry_count r) 1),
      io_previousEvidence = None, io_evidenceCoverage = Some Cv_partial\<rparr> nowMs)"

definition reset_for_replay :: "outbound_op \<Rightarrow> int \<Rightarrow> db \<Rightarrow> (db \<times> bool) result" where
  "reset_for_replay r nowMs d = and_then (pendingReplayEvidence r nowMs) (\<lambda>e.
     and_then (encodeOutboundFailureEvidence e) (\<lambda>t.
       Inr (resetMaybeSentToPending (op_id r) t (logical_attempt_count e) d)))"

definition unconfirmed_evidence :: "outbound_op \<Rightarrow> int \<Rightarrow> evidence result" where
  "unconfirmed_evidence r nowMs = createInternalOutboundFailureEvidence
     \<lparr>io_failureCode = Ic_unsafe_delivery_unconfirmed, io_stage = St_runtime, io_mutationState = Mu_ambiguous,
      io_retryable = None, io_retryDecision = None, io_retryNotBefore = None, io_retryOwner = None,
      io_attemptBudgetDisposition = None, io_logicalAttemptCount = Some (op_retry_count r),
      io_providerSubmissionCount = Some (case prior_evidence r of None \<Rightarrow> min (op_retry_count r) 1
        | Some e \<Rightarrow> provider_submission_count e),
      io_previousEvidence = prior_evidence r,
      io_evidenceCoverage = Some (if prior_evidence r = None then Cv_partial else Cv_complete)\<rparr> nowMs"

definition bump_reconciled :: "run_state \<Rightarrow> run_state" where
  "bump_reconciled run = run\<lparr>ru_stats := (ru_stats run)
     \<lparr>rs_outboundReconciled := rs_outboundReconciled (ru_stats run) + 1\<rparr>\<rparr>"

definition bump_replayed :: "run_state \<Rightarrow> run_state" where
  "bump_replayed run = run\<lparr>ru_stats := (ru_stats run)
     \<lparr>rs_outboundReplayed := rs_outboundReplayed (ru_stats run) + 1\<rparr>\<rparr>"

definition bump_quarantined :: "run_state \<Rightarrow> run_state" where
  "bump_quarantined run = run\<lparr>ru_stats := (ru_stats run)
     \<lparr>rs_outboundQuarantined := rs_outboundQuarantined (ru_stats run) + 1\<rparr>\<rparr>"

definition quarantineMaybeSent ::
  "(stored_text \<Rightarrow> string) \<Rightarrow> (evidence \<Rightarrow> bool) \<Rightarrow> int \<Rightarrow> outbound_op \<Rightarrow> db \<times> run_state
     \<Rightarrow> (db \<times> run_state) \<times> unit result" where
  "quarantineMaybeSent sha256 alert nowMs r = (\<lambda>(d, run).
     case and_then (unconfirmed_evidence r nowMs) (\<lambda>e.
         and_then (markQuarantined sha256 (op_id r) (Some e) nowMs d) (\<lambda>x. Inr (e, x))) of
       Inl err \<Rightarrow> ((d, run), Inl err)
     | Inr (e, d', changed) \<Rightarrow>
         (if \<not> changed then ((d', run), Inr ())
          else let run' = bump_quarantined run in
            ((d', if alert e then run' else recordFailure ''emit_outbound_quarantine_alert''
               (Error (''outbound quarantine alert could not be durably queued for op '' @ int_str (op_id r))) run'),
             Inr ())))"

definition replay_maybe_sent ::
  "int \<Rightarrow> outbound_op \<Rightarrow> db \<times> run_state \<Rightarrow> (db \<times> run_state) \<times> unit result" where
  "replay_maybe_sent nowMs r = (\<lambda>(d, run). case reset_for_replay r nowMs d of
     Inl err \<Rightarrow> ((d, run), Inl err)
   | Inr (d', reset) \<Rightarrow> ((d', if reset then bump_replayed run else run), Inr ()))"

definition getMessageByWaMessageId :: "string \<Rightarrow> db \<Rightarrow> message_row option" where
  "getMessageByWaMessageId w d = find (\<lambda>m. ms_message_id m = w) (messages d)"

definition replayable :: "outbound_op \<Rightarrow> bool" where
  "replayable r \<longleftrightarrow> op_replay_policy r = Rp_safe \<or> op_replay_policy r = Rp_read_only"

definition reconcile_op ::
  "(stored_text \<Rightarrow> string) \<Rightarrow> (evidence \<Rightarrow> bool) \<Rightarrow> int \<Rightarrow> outbound_op \<Rightarrow> db \<times> run_state
     \<Rightarrow> (db \<times> run_state) \<times> unit result" where
  "reconcile_op sha256 alert nowMs r = (\<lambda>(d, run0).
     let run = bump_reconciled run0;
         replay_or_quarantine = (if replayable r then replay_maybe_sent nowMs r (d, run)
           else quarantineMaybeSent sha256 alert nowMs r (d, run))
     in if hasDeliveryCorroboration (op_id r) d then ((d, run), Inr ())
        else (case op_wa_message_id r of
            None \<Rightarrow> replay_or_quarantine
          | Some w \<Rightarrow> if w = [] then replay_or_quarantine
              else (case getMessageByWaMessageId w d of
                  None \<Rightarrow> replay_or_quarantine
                | Some m \<Rightarrow> if \<not> ms_is_from_me m then quarantineMaybeSent sha256 alert nowMs r (d, run)
                    else (case markEchoed (op_id r) (sql_now nowMs) d of (d', res) \<Rightarrow> ((d', run), res)))))"

definition reconcileMaybeSentOutbound ::
  "(stored_text \<Rightarrow> string) \<Rightarrow> (evidence \<Rightarrow> bool) \<Rightarrow> int \<Rightarrow> outbound_op list \<Rightarrow> db \<times> run_state \<Rightarrow> db \<times> run_state" where
  "reconcileMaybeSentOutbound sha256 alert nowMs maybeSent s =
     (case run_until_throw (reconcile_op sha256 alert nowMs) maybeSent s of
        (s', Inr _) \<Rightarrow> s'
      | ((d', run), Inl err) \<Rightarrow> (d', recordFailure ''reconcile_maybe_sent_outbound'' err run))"

definition getLiveReconcileMaybeSent :: "int \<Rightarrow> db \<Rightarrow> outbound_op list" where
  "getLiveReconcileMaybeSent now d = take 200 (sort_key op_id (filter (\<lambda>r.
     op_status r = Os_maybe_sent \<and> maybeSentDwellAtSql now r < now - 30
     \<and> \<not> list_ex (\<lambda>t. tt_delivery_op_id t = Some (op_id r)
         \<and> list_ex (\<lambda>c. co_terminal_record_id c = tt_id t) (corroborations d)) (terminal_records d))
     (outbound_ops d)))"

definition reconcileLiveMaybeSent ::
  "(stored_text \<Rightarrow> string) \<Rightarrow> (evidence \<Rightarrow> bool) \<Rightarrow> string \<Rightarrow> int \<Rightarrow> db \<Rightarrow> db \<times> (run_error + recovery_stats)" where
  "reconcileLiveMaybeSent sha256 alert uuid nowMs d =
     (let now = sql_now nowMs; maybeSent = getLiveReconcileMaybeSent now d; operation = ''reconcileLiveMaybeSent'' in
      if maybeSent = [] then (d, Inr (createRecoveryStats None))
      else (case begin_run uuid Ro_post_connect_recovery ''live_maybe_sent_recovery''
                 ''Live maybe-sent outbound reconciliation'' d of
          (d1, Inl e) \<Rightarrow> (d1, Inl (Primary e))
        | (d1, Inr run) \<Rightarrow>
            (case reconcileMaybeSentOutbound sha256 alert nowMs maybeSent (d1, run) of (d2, run2) \<Rightarrow>
            (case attestOpenRecoveries operation run2 d2 of
                (d3, Inl e) \<Rightarrow> (d3, Inl e)
              | (d3, Inr run3) \<Rightarrow> (case finalize operation run3 now d3 of
                    (d4, Inl e) \<Rightarrow> (d4, Inl e)
                  | (d4, Inr _) \<Rightarrow> (d4, Inr (ru_stats run3)))))))"

section \<open>What an echo does to the operations\<close>

lemma settle_wf:
  assumes "settleEchoedTurnRecoveryJob k now d = Inr (d', r)" "wf_db d"
  shows "wf_db d'"
proof -
  have "wf_db (settled_store k now j i d)" for j i
    using assms(2) echo_inbound_frame(1) [OF assms(2)]
    by (simp add: settled_store_def jobs.wf_cas row_ids)
  moreover have "wf_db (recordEchoedTurnRecoveryConflict reason n now d)" for reason n
    unfolding recordEchoedTurnRecoveryConflict_def by (rule jobs.wf_cas [OF assms(2) row_ids(6)])
  ultimately show ?thesis using settle_outcome [OF assms(1)] assms(2) by auto
qed

lemma markEchoed_row:
  assumes "wf_db d"
  shows "one_row d (fst (markEchoed k now d)) k (\<lambda>r r'. r' = r \<or> r' = echo_row now r)"
proof -
  let ?d = "fst (markEchoed k now d)"
  have echoed: "one_row d ?d k (\<lambda>r r'. r' = r \<or> r' = echo_row now r)"
    if "settleEchoedTurnRecoveryJob k now (echo_statement k now d) = Inr (d', s)"
      "?d = d' \<or> ?d = fst (complete_unowned op_is_terminal k now d')" for d' s
  proof -
    have "wf_db d'" by (rule settle_wf [OF that(1) statement_wf(1) [OF assms]])
    then have wf: "wf_db ?d" using that(2) complete_unowned_wf by auto
    have "get_op ?d = get_op d'" using that(2) complete_unowned_frame(1) by auto
    then have "get_op ?d n = map_option (at_op k (echo_row now)) (get_op d n)" for n
      using settle_keeps_ops [OF that(1)] echo_statement_row [OF assms] by simp
    moreover have "map_option (at_op k (echo_row now)) (get_op d n)
        = (if n = k then map_option (echo_row now) (get_op d n) else get_op d n)" for n
      using get_op_id [of d n] by (cases "get_op d n") (auto simp: at_op_def)
    ultimately show ?thesis using wf by (auto simp: one_row_def split: option.split)
  qed
  show ?thesis
  proof (cases rule: markEchoed_leaves [of k now d])
    case 1
    with one_row_refl [OF assms] show ?thesis by simp
  qed (use echoed in blast)+
qed

section \<open>The steps of the passes\<close>

lemma mark_ambiguous_row:
  assumes "wf_db d" "mark_ambiguous mk w r nowMs d = Inr (d', changed)"
  obtains e where "mk r nowMs = Inr e"
    "one_row d d' (op_id r) (\<lambda>x x'. if live x then failure_update Os_maybe_sent e x x' else x' = x)"
  using assms(2) markMaybeSent_row [OF assms(1)] unfolding mark_ambiguous_def
  by (auto simp: and_then_Inr)

lemma mark_ambiguous_total:
  assumes "wf_db d" "get_op d (op_id r) = Some r" "live r" "mk r nowMs = Inr e" "valid_evidence e"
    "mutation_state e = Mu_ambiguous" "retry_decision e = Rd_stop" "retry_owner e = Ro_none"
    "attempt_budget_disposition e = Bd_stop"
  obtains d' r' where "mark_ambiguous mk w r nowMs d = Inr (d', True)" "get_op d' (op_id r) = Some r'"
    "failure_update Os_maybe_sent e r r'"
proof -
  obtain t where t: "encodeOutboundFailureEvidence e = Inr t" using encode_valid [OF assms(5)] by blast
  have "\<exists>p. markMaybeSent (op_id r) (Evidence_record e) w nowMs d = Inr p"
    using assms(4-9) t
    by (simp add: markMaybeSent_def normalizeOutboundTransitionEvidence_def keeps_retry_def)
  then obtain d' won where m: "markMaybeSent (op_id r) (Evidence_record e) w nowMs d = Inr (d', won)"
    by (auto simp del: split_paired_Ex)
  obtain f where f: "(d', won) = cas_op live f (op_id r) d" "\<forall>r. live r \<longrightarrow> row_step r (f r)"
    using markMaybeSent_cas [OF m] by blast
  have eq: "cas_op live f (op_id r) d = cas_op live (\<lambda>r. if live r then f r else r) (op_id r) d"
    by (rule cas_op_steps(2)) (use f(2) in blast)
  have keeps: "keeps_id op_id (\<lambda>r. if live r then f r else r)"
    by (rule cas_op_steps(1)) (use f(2) in blast)
  have won: "won"
    using ops.cas_wins [OF assms(1) keeps, of live "op_id r"] assms(2,3) f(1) unfolding eq
    by (metis option.simps(5) snd_conv)
  obtain r' where "get_op d' (op_id r) = Some r'" "failure_update Os_maybe_sent e r r'"
    by (rule one_rowD [OF markMaybeSent_row [OF assms(1) m] assms(2)]) (use assms(3) in auto)
  with that m won assms(4) show ?thesis by (simp add: mark_ambiguous_def)
qed

lemma crash_evidence_total:
  assumes "op_ok r" "op_retry_count r < max_count" "isIsoTimestamp nowMs"
  obtains e where "crash_evidence r nowMs = Inr e" "valid_evidence e" "mutation_state e = Mu_ambiguous"
    "retry_decision e = Rd_stop" "retry_owner e = Ro_none" "attempt_budget_disposition e = Bd_stop"
    "logical_attempt_count e = op_retry_count r + 1"
proof -
  have rc: "op_retry_count r \<le> max_count" "0 \<le> op_retry_count r" using assms by (simp_all add: op_ok_def)
  let ?p = "case prior_evidence r of None \<Rightarrow> op_retry_count r | Some e \<Rightarrow> provider_submission_count e"
  have "0 \<le> ?p" using prior_ok(2) [OF assms(1) rc(1)] rc by (auto split: option.splits)
  then have p: "0 \<le> min (op_retry_count r + 1) (?p + 1)" "min (op_retry_count r + 1) (?p + 1) \<le> op_retry_count r + 1"
    "op_retry_count r + 1 \<le> 9007199254740991" using rc assms(2) by (auto simp: max_count_def)
  show ?thesis
    by (rule counted_internal [OF assms(3) prior_ok(1) [OF assms(1) rc(1)] p]) (rule that; simp add: crash_evidence_def)
qed

lemma echo_timeout_total:
  assumes "op_ok r" "op_retry_count r < max_count" "isIsoTimestamp nowMs"
  obtains e where "echo_timeout_evidence r nowMs = Inr e" "valid_evidence e" "mutation_state e = Mu_ambiguous"
    "retry_decision e = Rd_stop" "retry_owner e = Ro_none" "attempt_budget_disposition e = Bd_stop"
    "logical_attempt_count e = max (op_retry_count r) 1"
proof -
  have rc: "op_retry_count r \<le> max_count" using assms by simp
  let ?p = "case prior_evidence r of None \<Rightarrow> 0 | Some e \<Rightarrow> provider_submission_count e"
  have p: "0 \<le> max ?p 1" "max ?p 1 \<le> max (op_retry_count r) 1" "max (op_retry_count r) 1 \<le> 9007199254740991"
    using prior_ok(2,3) [OF assms(1) rc] assms(2) by (auto simp: max_count_def)
  show ?thesis
    by (rule counted_internal [OF assms(3) prior_ok(1) [OF assms(1) rc] p])
      (rule that; simp add: echo_timeout_evidence_def)
qed

lemma promote_local:
  "wf_db d \<Longrightarrow> one_row d (fst (fst (promote_sending nowMs r (d, n)))) (op_id r) any_row"
  using one_row_any by (fastforce simp: promote_sending_def one_row_refl split: sum.splits prod.splits
      elim: mark_ambiguous_row)

lemma sweep_local:
  "wf_db d \<Longrightarrow> one_row d (fst (fst (sweep_submitted nowMs r (d, n)))) (op_id r) any_row"
  using one_row_any by (fastforce simp: sweep_submitted_def one_row_refl split: sum.splits prod.splits
      elim: mark_ambiguous_row)

interpretation promote_pass: throwing_pass get_op op_id "promote_sending nowMs" wf_db for nowMs :: int
  by unfold_locales (use promote_local in \<open>auto simp: one_row_def\<close>)

interpretation sweep_pass: throwing_pass get_op op_id "sweep_submitted nowMs" wf_db for nowMs :: int
  by unfold_locales (use sweep_local in \<open>auto simp: one_row_def\<close>)

section \<open>The reconciling steps\<close>

lemma reset_row:
  assumes "wf_db d" "reset_for_replay r nowMs d = Inr (d', won)"
  obtains e where "pendingReplayEvidence r nowMs = Inr e"
    "one_row d d' (op_id r) (\<lambda>x x'. if op_status x = Os_maybe_sent
       then failure_update Os_pending e x x' else x' = x)"
proof -
  from assms(2) obtain e t where e: "pendingReplayEvidence r nowMs = Inr e"
    and t: "encodeOutboundFailureEvidence e = Inr t"
    and u: "cas_op (\<lambda>r. op_status r = Os_maybe_sent) (\<lambda>x. x\<lparr>op_status := Os_pending, op_error := Some t,
            op_retry_count := max (op_retry_count x) (logical_attempt_count e)\<rparr>) (op_id r) d = (d', won)"
    by (auto simp: reset_for_replay_def resetMaybeSentToPending_def and_then_Inr)
  show ?thesis
    by (rule that [OF e], rule cas_eq_row(1) [OF u assms(1)])
      (simp_all add: keeps_id_def failure_update_text [OF t] same_identity_def)
qed

text \<open>What a reconciling step can make of the row it was given.\<close>

definition reconciled :: "int \<Rightarrow> bool \<Rightarrow> outbound_op \<Rightarrow> outbound_op \<Rightarrow> outbound_op \<Rightarrow> bool" where
  "reconciled nowMs unconfirmed r x x' \<longleftrightarrow> x' = x \<or> x' = echo_row (sql_now nowMs) x
     \<or> live x \<and> (\<exists>e. unconfirmed_evidence r nowMs = Inr e \<and> failure_update Os_quarantined e x x')
     \<or> op_status x = Os_maybe_sent \<and> replayable r \<and> unconfirmed
       \<and> (\<exists>e. pendingReplayEvidence r nowMs = Inr e \<and> failure_update Os_pending e x x')"

lemma quarantine_step_row:
  "wf_db d \<Longrightarrow> one_row d (fst (fst (quarantineMaybeSent sha256 alert nowMs r (d, run)))) (op_id r)
    (reconciled nowMs u r)"
proof (cases "and_then (unconfirmed_evidence r nowMs) (\<lambda>e.
         and_then (markQuarantined sha256 (op_id r) (Some e) nowMs d) (\<lambda>x. Inr (e, x)))")
  case (Inl e)
  then show "wf_db d \<Longrightarrow> ?thesis"
    by (simp add: quarantineMaybeSent_def one_row_refl reconciled_def)
next
  case (Inr p)
  obtain e d' won where p: "p = (e, d', won)" by (cases p)
  assume wf: "wf_db d"
  from Inr p have e: "unconfirmed_evidence r nowMs = Inr e"
    "markQuarantined sha256 (op_id r) (Some e) nowMs d = Inr (d', won)" by (auto simp: and_then_Inr)
  have "one_row d d' (op_id r) (reconciled nowMs u r)"
    by (rule one_row_mono [OF markQuarantined_row(1) [OF wf e(2)]])
      (use e(1) in \<open>auto simp: reconciled_def split: if_splits\<close>)
  then show ?thesis by (simp add: quarantineMaybeSent_def Inr p Let_def)
qed

lemma replay_step_row:
  assumes "wf_db d" "replayable r" "u"
  shows "one_row d (fst (fst (replay_maybe_sent nowMs r (d, run)))) (op_id r) (reconciled nowMs u r)"
proof (cases "reset_for_replay r nowMs d")
  case (Inl e)
  then show ?thesis using assms(1) by (simp add: replay_maybe_sent_def one_row_refl reconciled_def)
next
  case (Inr p)
  obtain d' won where p: "p = (d', won)" by (cases p)
  obtain e where e: "pendingReplayEvidence r nowMs = Inr e"
    "one_row d d' (op_id r) (\<lambda>x x'. if op_status x = Os_maybe_sent
       then failure_update Os_pending e x x' else x' = x)"
    by (rule reset_row [OF assms(1), of r nowMs d' won]) (use Inr p in auto)
  have "one_row d d' (op_id r) (reconciled nowMs u r)"
    by (rule one_row_mono [OF e(2)]) (use assms(2,3) e(1) in \<open>auto simp: reconciled_def split: if_splits\<close>)
  then show ?thesis by (simp add: replay_maybe_sent_def Inr p)
qed

text \<open>No proof of delivery: no corroboration and no message of the history with its id.\<close>

definition unconfirmed_in :: "db \<Rightarrow> outbound_op \<Rightarrow> bool" where
  "unconfirmed_in d r \<longleftrightarrow> \<not> hasDeliveryCorroboration (op_id r) d
     \<and> (\<forall>w. op_wa_message_id r = Some w \<longrightarrow> w \<noteq> [] \<longrightarrow> getMessageByWaMessageId w d = None)"

lemma reconcile_op_row:
  assumes "wf_db d"
  shows "one_row d (fst (fst (reconcile_op sha256 alert nowMs r (d, run)))) (op_id r)
    (reconciled nowMs (unconfirmed_in d r) r)"
proof -
  let ?run = "bump_reconciled run" and ?u = "unconfirmed_in d r"
  have q: "one_row d (fst (fst (quarantineMaybeSent sha256 alert nowMs r (d, ?run)))) (op_id r)
      (reconciled nowMs ?u r)" by (rule quarantine_step_row [OF assms])
  have rq: "one_row d (fst (fst (if replayable r then replay_maybe_sent nowMs r (d, ?run)
        else quarantineMaybeSent sha256 alert nowMs r (d, ?run)))) (op_id r) (reconciled nowMs ?u r)" if ?u
    using q replay_step_row [OF assms _ that] by (cases "replayable r") simp_all
  have e: "one_row d (fst (markEchoed (op_id r) (sql_now nowMs) d)) (op_id r) (reconciled nowMs ?u r)"
    by (rule one_row_mono [OF markEchoed_row [OF assms]]) (auto simp: reconciled_def)
  have same: "one_row d d (op_id r) (reconciled nowMs ?u r)"
    by (rule one_row_refl [OF assms]) (simp add: reconciled_def)
  show ?thesis
  proof (cases "hasDeliveryCorroboration (op_id r) d")
    case True
    then show ?thesis using same by (simp add: reconcile_op_def Let_def)
  next
    case False
    show ?thesis
    proof (cases ?u)
      case True
      then have "op_wa_message_id r = None \<or> op_wa_message_id r = Some []
          \<or> (\<exists>w. op_wa_message_id r = Some w \<and> w \<noteq> [] \<and> getMessageByWaMessageId w d = None)"
        unfolding unconfirmed_in_def by (cases "op_wa_message_id r") auto
      with rq [OF True] False show ?thesis by (auto simp: reconcile_op_def Let_def)
    next
      case nu: False
      with False obtain w m where "op_wa_message_id r = Some w" "w \<noteq> []"
        "getMessageByWaMessageId w d = Some m" by (auto simp: unconfirmed_in_def)
      with False q e show ?thesis by (simp add: reconcile_op_def Let_def split_beta)
    qed
  qed
qed

text \<open>The history a reconciliation reads is not changed by it.\<close>

definition history :: "db \<Rightarrow> message_row list \<times> corroboration list \<times> terminal_record list" where
  "history d = (messages d, corroborations d, terminal_records d)"

lemma history_cas [simp]:
  "history (fst (cas_op g f k d)) = history d" "history (fst (cas_inbound g' f' k d)) = history d"
  "history (fst (cas_job g'' f'' k d)) = history d"
  by (simp_all add: history_def cas_op_def cas_inbound_def cas_job_def Let_def)

lemma history_settle:
  assumes "settleEchoedTurnRecoveryJob k now d = Inr (d', r)"
  shows "history d' = history d"
proof -
  have p: "history (promoteEchoedCheckpointIdentity k d) = history d" for d
    by (simp add: history_def promoteEchoedCheckpointIdentity_def split: option.split)
  have "history (settled_store k now j i d) = history d" for j i
    by (simp add: settled_store_def p settle_source_statement_def)
  with settle_outcome [OF assms] show ?thesis
    by (auto simp: recordEchoedTurnRecoveryConflict_def)
qed

lemma history_markEchoed: "history (fst (markEchoed k now d)) = history d"
proof -
  have c: "history (fst (complete_unowned p k now d)) = history d" for p d
    using complete_unowned_inbound [of p k now d] by (auto simp: history_def)
  have s: "history d' = history d" if "settleEchoedTurnRecoveryJob k now (echo_statement k now d) = Inr (d', s)" for d' s
    using history_settle [OF that] by (simp add: echo_statement_def)
  show ?thesis
    by (cases rule: markEchoed_leaves [of k now d]) (auto simp: c dest!: s)
qed

lemma history_reconcile: "history (fst (fst (reconcile_op sha256 alert nowMs r (d, run)))) = history d"
proof -
  have q: "history (fst (fst (quarantineMaybeSent sha256 alert nowMs r (d, run)))) = history d" for run
    by (auto simp: quarantineMaybeSent_def markQuarantined_def and_then_Inr throw_if_Inr Let_def
        dest!: arg_cong [where f = "\<lambda>p. history (fst p)"] split: sum.split)
  have p: "history (fst (fst (replay_maybe_sent nowMs r (d, run)))) = history d" for run
    by (auto simp: replay_maybe_sent_def reset_for_replay_def resetMaybeSentToPending_def and_then_Inr
        dest!: arg_cong [where f = "\<lambda>p. history (fst p)"] split: sum.split)
  show ?thesis
    using q p history_markEchoed
    by (auto simp: reconcile_op_def Let_def split_beta split: option.split)
qed

interpretation reconcile_pass: throwing_pass get_op op_id "reconcile_op sha256 alert nowMs"
  "\<lambda>d. wf_db d \<and> history d = h"
  for sha256 :: "stored_text \<Rightarrow> string" and alert :: "evidence \<Rightarrow> bool" and nowMs :: int
    and h :: "message_row list \<times> corroboration list \<times> terminal_record list"
  by unfold_locales (use reconcile_op_row in \<open>auto simp: one_row_def history_reconcile\<close>)

section \<open>Properties\<close>

lemma reconcile_result:
  "fst (reconcileMaybeSentOutbound sha256 alert nowMs rs (d, run))
    = fst (fst (run_until_throw (reconcile_op sha256 alert nowMs) rs (d, run)))"
  by (simp add: reconcileMaybeSentOutbound_def split_beta split: sum.split)

lemma unconfirmed_in_history: "history d' = history d \<Longrightarrow> unconfirmed_in d' r = unconfirmed_in d r"
  by (simp add: unconfirmed_in_def hasDeliveryCorroboration_def getMessageByWaMessageId_def history_def)

text \<open>
  C25: Reconciliation replays only what is safe and unconfirmed. After the ambiguous operations are
  reconciled, whatever step failed on the way, each of them is still ambiguous, or echoed, or
  quarantined, or pending again; and it is pending again only if its replay policy allows it, no
  delivery corroboration exists for it and the message history holds no message with its id. An
  operation that was not ambiguous is untouched.
\<close>

theorem only_safe_unconfirmed_sends_are_replayed:
  fixes sha256 :: "stored_text \<Rightarrow> string" and alert :: "evidence \<Rightarrow> bool" and nowMs :: int and run :: run_state
  assumes "wf_db d" "get_op d k = Some r"
  defines "d' \<equiv> fst (reconcileMaybeSentOutbound sha256 alert nowMs (getOutboundByStatus Os_maybe_sent d) (d, run))"
  shows "\<exists>r'. get_op d' k = Some r' \<and> (if op_status r \<noteq> Os_maybe_sent then r' = r
    else same_identity r r' \<and> op_status r' \<in> {Os_maybe_sent, Os_echoed, Os_quarantined, Os_pending}
      \<and> (op_status r' = Os_pending \<longrightarrow> op_replay_policy r \<in> {Rp_safe, Rp_read_only}
          \<and> \<not> hasDeliveryCorroboration k d
          \<and> (\<forall>w. op_wa_message_id r = Some w \<longrightarrow> w \<noteq> [] \<longrightarrow> getMessageByWaMessageId w d = None)))"
proof -
  let ?rs = "getOutboundByStatus Os_maybe_sent d"
  have d': "d' = fst (fst (run_until_throw (reconcile_op sha256 alert nowMs) ?rs (d, run)))"
    unfolding d'_def by (rule reconcile_result)
  have id: "op_id r = k" by (rule get_op_id [OF assms(2)])
  have wf: "wf_db d \<and> history d = history d" using assms(1) by simp
  note dist = snapshot_rows(1) [OF assms(1), of Os_maybe_sent]
  have cur: "get_op d (op_id x) = Some x" if "x \<in> set ?rs" for x
    using that snapshot_rows(2) [OF assms(1)] by simp
  show ?thesis
  proof (cases "op_status r = Os_maybe_sent")
    case False
    have "op_id x \<noteq> k" if "x \<in> set ?rs" for x
      using that False assms(2) unfolding snapshot_rows(2) [OF assms(1), of x] by auto
    then have "k \<notin> op_id ` set ?rs" by blast
    from reconcile_pass.pass_outside [OF wf this] False assms(2) show ?thesis by (simp add: d')
  next
    case True
    have mem: "r \<in> set ?rs" using snapshot_rows(2) [OF assms(1)] assms(2) id True by simp
    have wf': "wf_db d'" unfolding d' using reconcile_pass.wf_pass [OF wf] by blast
    define Q where "Q = reconciled nowMs (unconfirmed_in d r) r r"
    have step: "Q r'" if "wf_db d1 \<and> history d1 = history d" "get_op d1 (op_id r) = Some r"
      "get_op (fst (fst (reconcile_op sha256 alert nowMs r (d1, run1)))) (op_id r) = Some r'" for d1 run1 r'
      using reconcile_op_row [of d1 sha256 alert nowMs r run1] that unconfirmed_in_history [of d1 d r]
      by (auto simp: one_row_def Q_def)
    have refl: "Q r" by (simp add: Q_def reconciled_def)
    have "get_op d' k \<noteq> None"
      unfolding d'
    proof (rule reconcile_pass.pass_inv [OF wf _ dist cur, where I = "\<lambda>d. get_op d k \<noteq> None"])
      fix d1 run1 x
      assume "wf_db d1 \<and> history d1 = history d" "get_op d1 k \<noteq> None"
      then show "get_op (fst (fst (reconcile_op sha256 alert nowMs x (d1, run1)))) k \<noteq> None"
        using reconcile_op_row [of d1 sha256 alert nowMs x run1]
        by (cases "op_id x = k") (auto simp: one_row_def)
    qed (use assms(2) in auto)
    then obtain r' where r': "get_op d' k = Some r'" by blast
    have "Q r'"
      by (rule reconcile_pass.pass_row [where Q = Q, OF wf dist cur mem refl step]) (use r' id d' in auto)
    with r' True id show ?thesis
      by (auto simp: Q_def reconciled_def failure_update_def unconfirmed_in_def replayable_def
          same_identity_def echo_row_def split: option.splits)
  qed
qed

definition promoted :: "outbound_op \<Rightarrow> outbound_op \<Rightarrow> bool" where
  "promoted x x' \<longleftrightarrow> same_identity x x' \<and> op_status x' = Os_maybe_sent \<and> op_retry_count x' = op_retry_count x + 1"

definition swept :: "outbound_op \<Rightarrow> outbound_op \<Rightarrow> bool" where
  "swept x x' \<longleftrightarrow> same_identity x x' \<and> op_status x' = Os_maybe_sent \<and> op_retry_count x' = max (op_retry_count x) 1"

lemma promote_step_total:
  assumes "wf_db d" "get_op d (op_id x) = Some x" "op_status x = Os_sending" "op_ok x"
    "op_retry_count x < max_count" "isIsoTimestamp nowMs"
  shows "snd (promote_sending nowMs x (d, n)) = Inr ()
    \<and> (\<exists>x'. get_op (fst (fst (promote_sending nowMs x (d, n)))) (op_id x) = Some x' \<and> promoted x x')"
proof -
  obtain e where e: "crash_evidence x nowMs = Inr e" "valid_evidence e" "mutation_state e = Mu_ambiguous"
    "retry_decision e = Rd_stop" "retry_owner e = Ro_none" "attempt_budget_disposition e = Bd_stop"
    "logical_attempt_count e = op_retry_count x + 1"
    by (rule crash_evidence_total [OF assms(4-6)])
  have "live x" using assms(3) by (simp add: live_iff)
  from mark_ambiguous_total [where mk = crash_evidence and w = None, OF assms(1,2) this e(1-6)]
  obtain d2 x' where "mark_ambiguous crash_evidence None x nowMs d = Inr (d2, True)"
    "get_op d2 (op_id x) = Some x'" "failure_update Os_maybe_sent e x x'" by metis
  with e(7) show ?thesis by (simp add: promote_sending_def failure_update_def promoted_def)
qed

lemma sweep_step_total:
  assumes "wf_db d" "get_op d (op_id x) = Some x" "op_status x = Os_submitted" "op_ok x"
    "op_retry_count x < max_count" "isIsoTimestamp nowMs"
  shows "snd (sweep_submitted nowMs x (d, n)) = Inr ()
    \<and> (\<exists>x'. get_op (fst (fst (sweep_submitted nowMs x (d, n)))) (op_id x) = Some x' \<and> swept x x')"
proof -
  obtain e where e: "echo_timeout_evidence x nowMs = Inr e" "valid_evidence e" "mutation_state e = Mu_ambiguous"
    "retry_decision e = Rd_stop" "retry_owner e = Ro_none" "attempt_budget_disposition e = Bd_stop"
    "logical_attempt_count e = max (op_retry_count x) 1"
    by (rule echo_timeout_total [OF assms(4-6)])
  have "live x" using assms(3) by (simp add: live_iff)
  from mark_ambiguous_total [where mk = echo_timeout_evidence and w = "op_wa_message_id x", OF assms(1,2) this e(1-6)]
  obtain d2 x' where "mark_ambiguous echo_timeout_evidence (op_wa_message_id x) x nowMs d = Inr (d2, True)"
    "get_op d2 (op_id x) = Some x'" "failure_update Os_maybe_sent e x x'" by metis
  with e(7) show ?thesis by (simp add: sweep_submitted_def failure_update_def swept_def)
qed

lemma ledger_rows:
  assumes "wf_db d" "ledger_ok d" "\<forall>r \<in> set (outbound_ops d). op_retry_count r < max_count" "get_op d k = Some r"
  shows "op_ok r" "op_retry_count r < max_count"
  using assms get_op_mem [OF assms(1), of r] get_op_id [OF assms(4)] by (auto simp: ledger_ok_def)

lemma promotion_outcome:
  assumes "wf_db d" "ledger_ok d" "isIsoTimestamp nowMs" "get_op d k = Some r"
    "\<forall>r \<in> set (outbound_ops d). op_retry_count r < max_count"
  shows "snd (promoteSendingOutbound nowMs d) = Inr ()
    \<and> (\<exists>r'. get_op (fst (fst (promoteSendingOutbound nowMs d))) k = Some r'
        \<and> (if op_status r = Os_sending then promoted r r' else r' = r))"
proof -
  let ?rs = "getOutboundByStatus Os_sending d"
  have id: "op_id r = k" by (rule get_op_id [OF assms(4)])
  have cur: "get_op d (op_id x) = Some x" "op_status x = Os_sending" if "x \<in> set ?rs" for x
    using that snapshot_rows(2) [OF assms(1)] by simp_all
  have total: "snd (run_until_throw (promote_sending nowMs) ?rs (d, 0)) = Inr ()
    \<and> (\<forall>x \<in> set ?rs. \<exists>x'. get_op (fst (fst (run_until_throw (promote_sending nowMs) ?rs (d, 0)))) (op_id x)
        = Some x' \<and> promoted x x')"
  proof (rule promote_pass.pass_total [where Q = promoted, OF assms(1) snapshot_rows(1) [OF assms(1)] cur(1)])
    fix d1 n x
    assume a: "wf_db d1" "x \<in> set ?rs" "get_op d1 (op_id x) = Some x"
    note l = ledger_rows [OF assms(1,2,5) cur(1) [OF a(2)]]
    show "snd (promote_sending nowMs x (d1, n)) = Inr ()
      \<and> (\<exists>x'. get_op (fst (fst (promote_sending nowMs x (d1, n)))) (op_id x) = Some x' \<and> promoted x x')"
      by (rule promote_step_total [OF a(1,3) cur(2) [OF a(2)] l assms(3)])
  qed
  show ?thesis
  proof (cases "op_status r = Os_sending")
    case True
    then have "r \<in> set ?rs" using snapshot_rows(2) [OF assms(1)] assms(4) id by simp
    with total True id show ?thesis unfolding promoteSendingOutbound_def by auto
  next
    case False
    have "op_id x \<noteq> k" if "x \<in> set ?rs" for x using cur [OF that] False assms(4) by auto
    then have "k \<notin> op_id ` set ?rs" by blast
    from promote_pass.pass_outside [OF assms(1) this, of nowMs 0] False assms(4) conjunct1 [OF total]
    show ?thesis unfolding promoteSendingOutbound_def by simp
  qed
qed

lemma sweep_outcome:
  assumes "wf_db d" "ledger_ok d" "isIsoTimestamp nowMs" "get_op d k = Some r"
    "\<forall>r \<in> set (outbound_ops d). op_retry_count r < max_count"
  shows "(\<exists>n. snd (sweepStaleSubmitted nowMs d) = Inr n)
    \<and> (\<exists>r'. get_op (fst (sweepStaleSubmitted nowMs d)) k = Some r'
        \<and> (if r \<in> set (getStaleSubmitted (sql_now nowMs) d) then swept r r' else r' = r))"
proof -
  let ?ss = "getStaleSubmitted (sql_now nowMs) d"
  let ?run = "run_until_throw (sweep_submitted nowMs) ?ss (d, 0)"
  have id: "op_id r = k" by (rule get_op_id [OF assms(4)])
  have cur: "get_op d (op_id x) = Some x" "op_status x = Os_submitted" if "x \<in> set ?ss" for x
    using that get_op_mem [OF assms(1)] by (auto simp: getStaleSubmitted_def)
  have dist: "distinct (map op_id ?ss)"
    using assms(1) by (auto simp: getStaleSubmitted_def wf_db_def keys_ok_def distinct_map intro: inj_on_subset)
  have total: "snd ?run = Inr () \<and> (\<forall>x \<in> set ?ss. \<exists>x'. get_op (fst (fst ?run)) (op_id x) = Some x' \<and> swept x x')"
  proof (rule sweep_pass.pass_total [where Q = swept, OF assms(1) dist cur(1)])
    fix d1 n x
    assume a: "wf_db d1" "x \<in> set ?ss" "get_op d1 (op_id x) = Some x"
    note l = ledger_rows [OF assms(1,2,5) cur(1) [OF a(2)]]
    show "snd (sweep_submitted nowMs x (d1, n)) = Inr ()
      \<and> (\<exists>x'. get_op (fst (fst (sweep_submitted nowMs x (d1, n)))) (op_id x) = Some x' \<and> swept x x')"
      by (rule sweep_step_total [OF a(1,3) cur(2) [OF a(2)] l assms(3)])
  qed
  have res: "fst (sweepStaleSubmitted nowMs d) = fst (fst ?run)" "\<exists>n. snd (sweepStaleSubmitted nowMs d) = Inr n"
    using conjunct1 [OF total] by (cases ?run; auto simp: sweepStaleSubmitted_def)+
  show ?thesis
  proof (cases "r \<in> set ?ss")
    case True
    with total id have "\<exists>r'. get_op (fst (fst ?run)) k = Some r' \<and> swept r r'" by auto
    with True res show ?thesis by simp
  next
    case False
    have "op_id x \<noteq> k" if "x \<in> set ?ss" for x using cur(1) [OF that] that False assms(4) by auto
    then have "k \<notin> op_id ` set ?ss" by blast
    from sweep_pass.pass_outside [OF assms(1) this, of nowMs 0] False assms(4) res show ?thesis by simp
  qed
qed

definition ambiguous_op :: "replay_policy \<Rightarrow> outbound_op" where
  "ambiguous_op p = (new_op no_hash Ledger.sample_params 1 1700000000)
     \<lparr>op_status := Os_maybe_sent, op_replay_policy := p, op_retry_count := 1\<rparr>"

definition ambiguous_db :: "replay_policy \<Rightarrow> db" where
  "ambiguous_db p = Ledger.sample_db\<lparr>outbound_ops := [ambiguous_op p]\<rparr>"

lemma ambiguous_db_row: "wf_db (ambiguous_db p)" "get_op (ambiguous_db p) 1 = Some (ambiguous_op p)"
  using Ledger.sample_db_ok(1)
  by (simp_all add: ambiguous_db_def wf_db_def ambiguous_op_def get_op_def Ledger.sample_db_row new_op_def)

definition sample_run :: run_state where
  "sample_run = \<lparr>ru_receipt = \<lparr>rc_recoveryPlanId = ''p1'', rc_recoveryRunId = 1\<rparr>,
     ru_stats = createRecoveryStats None, ru_failures = []\<rparr>"

theorem only_safe_unconfirmed_sends_are_replayed_witness:
  "\<exists>r'. get_op (fst (reconcileMaybeSentOutbound no_hash (\<lambda>_. True) 1700000000000
      (getOutboundByStatus Os_maybe_sent (ambiguous_db Rp_unsafe)) (ambiguous_db Rp_unsafe, sample_run))) 1 = Some r'
    \<and> op_status r' \<noteq> Os_pending"
proof -
  have "op_status (ambiguous_op Rp_unsafe) = Os_maybe_sent" "op_replay_policy (ambiguous_op Rp_unsafe) = Rp_unsafe"
    by (simp_all add: ambiguous_op_def)
  then show ?thesis
    using only_safe_unconfirmed_sends_are_replayed [OF ambiguous_db_row, of no_hash "\<lambda>_. True" 1700000000000
        Rp_unsafe sample_run] by auto
qed

text \<open>
  C26: No interrupted send stays undecided. At startup every operation that was being sent becomes
  ambiguous with one more attempt counted; the sweep makes every submitted operation without an echo
  after thirty seconds ambiguous; neither loop can be stopped by a row, and every other row is as it
  was.
\<close>

theorem interrupted_sends_become_ambiguous:
  assumes "wf_db d" "ledger_ok d" "isIsoTimestamp nowMs" "get_op d k = Some r"
    "\<forall>r \<in> set (outbound_ops d). op_retry_count r < max_count"
  shows "snd (promoteSendingOutbound nowMs d) = Inr ()
    \<and> (\<exists>r'. get_op (fst (fst (promoteSendingOutbound nowMs d))) k = Some r'
        \<and> (if op_status r = Os_sending
           then same_identity r r' \<and> op_status r' = Os_maybe_sent \<and> op_retry_count r' = op_retry_count r + 1
           else r' = r))
    \<and> (\<exists>n. snd (sweepStaleSubmitted nowMs d) = Inr n)
    \<and> (\<exists>r'. get_op (fst (sweepStaleSubmitted nowMs d)) k = Some r'
        \<and> (if r \<in> set (getStaleSubmitted (sql_now nowMs) d)
           then same_identity r r' \<and> op_status r' = Os_maybe_sent \<and> op_retry_count r' = max (op_retry_count r) 1
           else r' = r))"
  using promotion_outcome [OF assms] sweep_outcome [OF assms] by (simp only: promoted_def swept_def simp_thms)

theorem interrupted_sends_become_ambiguous_witness:
  "\<exists>r'. get_op (fst (fst (promoteSendingOutbound 1700000000000 (fst (markSending 1 Ledger.sample_db))))) 1 = Some r'
    \<and> op_status r' = Os_maybe_sent"
proof -
  let ?d = "fst (markSending 1 Ledger.sample_db)"
  let ?r = "(new_op no_hash Ledger.sample_params 1 1700000000)\<lparr>op_status := Os_sending\<rparr>"
  have ops: "outbound_ops ?d = [?r]"
    by (simp add: markSending_def cas_op_def Let_def Ledger.sample_db_row new_op_def)
  have "get_op ?d 1 = Some ?r" "\<forall>r \<in> set (outbound_ops ?d). op_retry_count r < max_count"
    unfolding get_op_def ops by (simp_all add: new_op_def max_count_def)
  from interrupted_sends_become_ambiguous [OF markSending_steps(1) [OF Ledger.sample_db_ok(1)]
      markSending_steps(2) [OF Ledger.sample_db_ok] Ledger.sample_clock this]
  show ?thesis by (auto simp: new_op_def)
qed

end
