(* ===== verification/Delivery.thy ===== *)
theory Delivery
  imports Reconcile
begin

text \<open>
  The outbound operations under every interleaving of the send paths of \<^verbatim>\<open>src/core/durability.ts\<close>:
  tracked sends and one drain (the module lock allows one) that wait for the messenger while echoes,
  sweeps, reconciliations, new operations and crashes happen. \<open>w_sends\<close> counts, for each operation,
  how often it was handed to the messenger; no code reads it. A loop that a crash cuts short is its
  run on a prefix of its snapshot.
\<close>

section \<open>The system\<close>

datatype drain_phase = Idle | Draining "outbound_op list" | Awaiting outbound_op "outbound_op list"

record world =
  w_db :: db
  w_drain :: drain_phase
  w_tracked :: "int list"
  w_sends :: "int \<Rightarrow> nat"

definition count_send :: "int \<Rightarrow> world \<Rightarrow> world" where
  "count_send k w = w\<lparr>w_sends := (w_sends w)(k := w_sends w k + 1)\<rparr>"

inductive delivery_step ::
  "(stored_text \<Rightarrow> string) \<Rightarrow> (evidence \<Rightarrow> bool) \<Rightarrow> world \<Rightarrow> world \<Rightarrow> bool" for sha256 alert where
  Track: "sendTracked_begin sha256 chatJid txt opts nowMs (w_db w) = (d', Inr k) \<Longrightarrow>
    delivery_step sha256 alert w (count_send k (w\<lparr>w_db := d', w_tracked := k # w_tracked w\<rparr>))"
| Track_refused: "sendTracked_begin sha256 chatJid txt opts nowMs (w_db w) = (d', Inl e) \<Longrightarrow>
    delivery_step sha256 alert w (w\<lparr>w_db := d'\<rparr>)"
| Track_settles: "k \<in> set (w_tracked w) \<Longrightarrow> sendTracked_settle k outcome nowMs (w_db w) = (d', res) \<Longrightarrow>
    delivery_step sha256 alert w (w\<lparr>w_db := d', w_tracked := remove1 k (w_tracked w)\<rparr>)"
| Drain_starts: "w_drain w = Idle \<Longrightarrow>
    delivery_step sha256 alert w (w\<lparr>w_drain := Draining (getOutboundByStatus Os_pending (w_db w))\<rparr>)"
| Drain_sends: "w_drain w = Draining (r # rs) \<Longrightarrow> drain_admit sha256 r nowMs (w_db w) = (d', Da_send t) \<Longrightarrow>
    delivery_step sha256 alert w (count_send (op_id r) (w\<lparr>w_db := d', w_drain := Awaiting r rs\<rparr>))"
| Drain_passes: "w_drain w = Draining (r # rs) \<Longrightarrow> drain_admit sha256 r nowMs (w_db w) = (d', a) \<Longrightarrow>
    (\<forall>t. a \<noteq> Da_send t) \<Longrightarrow> delivery_step sha256 alert w (w\<lparr>w_db := d', w_drain := Draining rs\<rparr>)"
| Drain_settles: "w_drain w = Awaiting r rs \<Longrightarrow> drain_settle r outcome nowMs (w_db w) = (d', b) \<Longrightarrow>
    delivery_step sha256 alert w (w\<lparr>w_db := d', w_drain := Draining rs\<rparr>)"
| Drain_ends: "w_drain w = Draining [] \<Longrightarrow> delivery_step sha256 alert w (w\<lparr>w_drain := Idle\<rparr>)"
| Created: "createOutboundOp sha256 params nowMs (w_db w) = (d', res) \<Longrightarrow>
    delivery_step sha256 alert w (w\<lparr>w_db := d'\<rparr>)"
| Echoed: "markEchoed k now (w_db w) = (d', res) \<Longrightarrow> delivery_step sha256 alert w (w\<lparr>w_db := d'\<rparr>)"
| Terminal: "markTerminal k now (w_db w) = (d', res) \<Longrightarrow> delivery_step sha256 alert w (w\<lparr>w_db := d'\<rparr>)"
| Sweep: "delivery_step sha256 alert w (w\<lparr>w_db := fst (fst (run_until_throw (sweep_submitted nowMs)
      (take n (getStaleSubmitted (sql_now nowMs) (w_db w))) (w_db w, 0)))\<rparr>)"
| Reconcile: "rows = getLiveReconcileMaybeSent (sql_now nowMs) (w_db w)
      \<or> rows = getOutboundByStatus Os_maybe_sent (w_db w) \<Longrightarrow>
    delivery_step sha256 alert w (w\<lparr>w_db := fst (reconcileMaybeSentOutbound sha256 alert nowMs
      (take n rows) (w_db w, run))\<rparr>)"
| Crash: "delivery_step sha256 alert w (w\<lparr>w_drain := Idle, w_tracked := []\<rparr>)"
| Boot: "w_drain w = Idle \<Longrightarrow> w_tracked w = [] \<Longrightarrow>
    delivery_step sha256 alert w (w\<lparr>w_db := fst (fst (run_until_throw (promote_sending nowMs)
      (take n (getOutboundByStatus Os_sending (w_db w))) (w_db w, 0)))\<rparr>)"

definition first_world :: world where
  "first_world = \<lparr>w_db = empty_db, w_drain = Idle, w_tracked = [], w_sends = (\<lambda>_. 0)\<rparr>"

section \<open>The invariant\<close>

text \<open>Attempts are counted: the evidence of a row that can be sent again counts as many as the row.\<close>

definition counted :: "outbound_op \<Rightarrow> bool" where
  "counted r \<longleftrightarrow> (case failure_evidence r of LEGACY_UNCLASSIFIED \<Rightarrow> op_retry_count r = 0
     | V1 e \<Rightarrow> logical_attempt_count e = op_retry_count r)"

definition row_inv :: "outbound_op \<Rightarrow> nat \<Rightarrow> bool \<Rightarrow> bool" where
  "row_inv r s flight \<longleftrightarrow> (case op_status r of
     Os_pending \<Rightarrow> \<not> flight \<and> int s \<le> op_retry_count r \<and> counted r
   | Os_sending \<Rightarrow> int s \<le> op_retry_count r + 1 \<and> counted r
   | Os_submitted \<Rightarrow> \<not> flight \<and> int s \<le> op_retry_count r \<and> 1 \<le> op_retry_count r
   | Os_maybe_sent \<Rightarrow> \<not> flight \<and> int s \<le> op_retry_count r \<and> failure_evidence r \<noteq> LEGACY_UNCLASSIFIED \<and> counted r
   | _ \<Rightarrow> True)"

definition settled :: "outbound_op \<Rightarrow> bool" where
  "settled r \<longleftrightarrow> op_status r \<in> {Os_echoed, Os_failed_permanent, Os_quarantined}"

definition queued_ok :: "db \<Rightarrow> int list \<Rightarrow> outbound_op \<Rightarrow> bool" where
  "queued_ok d tracked s \<longleftrightarrow> op_status s = Os_pending \<and> op_id s \<notin> set tracked
     \<and> (\<exists>r. get_op d (op_id s) = Some r \<and> (settled r
         \<or> op_status r = Os_pending \<and> op_retry_count r = op_retry_count s \<and> op_error r = op_error s))"

definition drain_inv :: "world \<Rightarrow> bool" where
  "drain_inv w \<longleftrightarrow> (case w_drain w of Idle \<Rightarrow> True
   | Draining rs \<Rightarrow> distinct (map op_id rs) \<and> (\<forall>s \<in> set rs. queued_ok (w_db w) (w_tracked w) s)
   | Awaiting r0 rs \<Rightarrow> distinct (map op_id (r0 # rs)) \<and> (\<forall>s \<in> set rs. queued_ok (w_db w) (w_tracked w) s)
       \<and> op_id r0 \<notin> set (w_tracked w) \<and> int (w_sends w (op_id r0)) \<le> op_retry_count r0 + 1
       \<and> counted r0 \<and> 0 \<le> op_retry_count r0
       \<and> (\<exists>r. get_op (w_db w) (op_id r0) = Some r
            \<and> (op_status r = Os_sending \<longrightarrow> op_retry_count r = op_retry_count r0)))"

definition tracked_inv :: "world \<Rightarrow> bool" where
  "tracked_inv w \<longleftrightarrow> distinct (w_tracked w) \<and> (\<forall>k \<in> set (w_tracked w). w_sends w k = 1
     \<and> (\<exists>r. get_op (w_db w) k = Some r \<and> (op_status r = Os_sending \<longrightarrow> op_retry_count r = 0)))"

definition in_flight :: "world \<Rightarrow> int \<Rightarrow> bool" where
  "in_flight w k \<longleftrightarrow> k \<in> set (w_tracked w)
     \<or> (case w_drain w of Awaiting r0 _ \<Rightarrow> op_id r0 = k | _ \<Rightarrow> False)"

definition delivery_inv :: "world \<Rightarrow> bool" where
  "delivery_inv w \<longleftrightarrow> wf_db (w_db w) \<and> drain_inv w \<and> tracked_inv w
     \<and> (\<forall>k. int (w_sends w k) \<le> MAX_OUTBOUND_REPLAY_ATTEMPTS
          \<and> (get_op (w_db w) k = None \<longrightarrow> w_sends w k = 0)
          \<and> (\<forall>r. get_op (w_db w) k = Some r \<longrightarrow> row_inv r (w_sends w k) (in_flight w k)))"

section \<open>Changes by bystanders\<close>

text \<open>
  A change of a row that concerns no send in progress: none, a settlement, or a step of an ambiguous
  or unconfirmed row that keeps the counts.
\<close>

definition quiet :: "nat \<Rightarrow> outbound_op \<Rightarrow> outbound_op \<Rightarrow> bool" where
  "quiet s r r' \<longleftrightarrow> op_status r' = op_status r \<and> op_retry_count r' = op_retry_count r \<and> op_error r' = op_error r
     \<or> settled r'
     \<or> op_status r \<in> {Os_submitted, Os_maybe_sent} \<and> op_status r' \<in> {Os_maybe_sent, Os_pending} \<and> row_inv r' s False"

lemma counted_status [simp]: "counted (r\<lparr>op_status := st\<rparr>) = counted r"
  by (simp add: counted_def failure_evidence_def split: decoded_evidence.split)

lemma row_inv_cong:
  "op_status r' = op_status r \<Longrightarrow> op_retry_count r' = op_retry_count r \<Longrightarrow> op_error r' = op_error r
    \<Longrightarrow> row_inv r' s f = row_inv r s f"
proof -
  assume a: "op_status r' = op_status r" "op_retry_count r' = op_retry_count r" "op_error r' = op_error r"
  then have "failure_evidence r' = failure_evidence r" "counted r' = counted r"
    by (simp_all add: failure_evidence_def counted_def split: decoded_evidence.split)
  with a show "row_inv r' s f = row_inv r s f" by (cases "op_status r") (simp_all add: row_inv_def)
qed

lemma quiet_row_inv: "quiet s r r' \<Longrightarrow> row_inv r s f \<Longrightarrow> row_inv r' s f"
  using row_inv_cong [of r' r s f]
  by (auto simp: quiet_def settled_def row_inv_def split: outbound_status.splits)

lemma quiet_queued:
  "quiet s r r' \<Longrightarrow> settled r \<or> op_status r = Os_pending \<and> op_retry_count r = n \<and> op_error r = x
    \<Longrightarrow> settled r' \<or> op_status r' = Os_pending \<and> op_retry_count r' = n \<and> op_error r' = x"
  by (auto simp: quiet_def settled_def)

lemma quiet_sending:
  "quiet s r r' \<Longrightarrow> op_status r' = Os_sending \<Longrightarrow> op_status r = Os_sending \<and> op_retry_count r' = op_retry_count r"
  by (auto simp: quiet_def settled_def)

lemma bystander:
  assumes inv: "delivery_inv w" and wf: "wf_db d'"
    and rows: "\<And>k r. get_op (w_db w) k = Some r \<Longrightarrow> \<exists>r'. get_op d' k = Some r' \<and> quiet (w_sends w k) r r'"
    and new: "\<And>k r'. get_op (w_db w) k = None \<Longrightarrow> get_op d' k = Some r' \<Longrightarrow> row_inv r' 0 False"
  shows "delivery_inv (w\<lparr>w_db := d'\<rparr>)"
proof -
  have queued: "queued_ok d' (w_tracked w) s" if "queued_ok (w_db w) (w_tracked w) s" for s
    using that rows quiet_queued unfolding queued_ok_def by meson
  have sending: "\<exists>r'. get_op d' k = Some r' \<and> (op_status r' = Os_sending \<longrightarrow> op_retry_count r' = n)"
    if "\<exists>r. get_op (w_db w) k = Some r \<and> (op_status r = Os_sending \<longrightarrow> op_retry_count r = n)" for k n
    using that rows quiet_sending by metis
  have "drain_inv (w\<lparr>w_db := d'\<rparr>)"
    using inv queued sending unfolding delivery_inv_def drain_inv_def
    by (auto split: drain_phase.splits)
  moreover have "tracked_inv (w\<lparr>w_db := d'\<rparr>)"
    using inv sending unfolding delivery_inv_def tracked_inv_def by auto
  moreover have "(get_op d' k = None \<longrightarrow> w_sends w k = 0)
      \<and> (\<forall>r. get_op d' k = Some r \<longrightarrow> row_inv r (w_sends w k) (in_flight w k))" for k
  proof (cases "get_op (w_db w) k")
    case None
    then have s: "w_sends w k = 0" using inv by (simp add: delivery_inv_def)
    have "\<not> in_flight w k"
      using None inv by (auto simp: delivery_inv_def tracked_inv_def drain_inv_def in_flight_def
          split: drain_phase.splits)
    with s new [OF None] show ?thesis by auto
  next
    case (Some r)
    then have "row_inv r (w_sends w k) (in_flight w k)" using inv by (simp add: delivery_inv_def)
    with rows [OF Some] quiet_row_inv show ?thesis by fastforce
  qed
  moreover have "in_flight (w\<lparr>w_db := d'\<rparr>) = in_flight w" by (simp add: fun_eq_iff in_flight_def)
  ultimately show ?thesis
    using inv wf by (simp add: delivery_inv_def)
qed

lemma bystander_row:
  assumes "delivery_inv w" "one_row (w_db w) d' k R"
    and "\<And>r r'. get_op (w_db w) k = Some r \<Longrightarrow> row_inv r (w_sends w k) (in_flight w k) \<Longrightarrow> R r r'
      \<Longrightarrow> quiet (w_sends w k) r r'"
  shows "delivery_inv (w\<lparr>w_db := d'\<rparr>)"
proof (rule bystander [OF assms(1)])
  show "wf_db d'" using assms(2) by (simp add: one_row_def)
  fix n r assume g: "get_op (w_db w) n = Some r"
  then have inv: "row_inv r (w_sends w n) (in_flight w n)" using assms(1) by (simp add: delivery_inv_def)
  show "\<exists>r'. get_op d' n = Some r' \<and> quiet (w_sends w n) r r'"
  proof (cases "n = k")
    case True
    with g inv assms(2,3) show ?thesis by (auto simp: one_row_def)
  next
    case False
    with g assms(2) show ?thesis by (simp add: one_row_def quiet_def)
  qed
next
  fix n r' assume "get_op (w_db w) n = None" "get_op d' n = Some r'"
  then show "row_inv r' 0 False" using assms(2) by (cases "n = k") (auto simp: one_row_def)
qed

section \<open>Sweeps and reconciliations\<close>

lemma internal_logical:
  assumes "createInternalOutboundFailureEvidence opts nowMs = Inr e" "io_logicalAttemptCount opts = Some n"
  shows "logical_attempt_count e = n"
  using assms unfolding createInternalOutboundFailureEvidence_def Let_def
  by (auto simp: and_then_Inr assertValidEvidence_Inr)

lemma transfer_logical:
  "transferOutboundRetryOwnership e owner nowMs = Inr e' \<Longrightarrow> logical_attempt_count e' = logical_attempt_count e"
  by (auto simp: transferOutboundRetryOwnership_def and_then_Inr throw_if_Inr assertValidEvidence_Inr Let_def)

lemma classify_logical:
  "classifyOutboundFailure err nowMs owner n previous = Inr e
    \<Longrightarrow> logical_attempt_count e = (case previous of None \<Rightarrow> 0 | Some p \<Rightarrow> logical_attempt_count p) + 1"
  unfolding classifyOutboundFailure_def Let_def
  by (auto simp: and_then_Inr throw_if_Inr assertValidEvidence_Inr)

lemma replay_logical:
  assumes "pendingReplayEvidence r nowMs = Inr e" "counted r"
  shows "logical_attempt_count e = op_retry_count r"
proof (cases "failure_evidence r")
  case LEGACY_UNCLASSIFIED
  with assms(1) show ?thesis
    by (auto simp: pendingReplayEvidence_def prior_evidence_def dest: internal_logical)
next
  case (V1 e0)
  with assms show ?thesis
    by (auto simp: pendingReplayEvidence_def prior_evidence_def counted_def dest: transfer_logical)
qed

text \<open>A new record that counts as many attempts as its row ends up with.\<close>

lemma failure_update_inv:
  assumes "failure_update st e r r'" "st \<in> {Os_pending, Os_maybe_sent, Os_failed_permanent, Os_quarantined}"
    "op_retry_count r \<le> logical_attempt_count e" "int s \<le> logical_attempt_count e"
  shows "row_inv r' s False"
  using assms by (auto simp: failure_update_def row_inv_def counted_def)

lemma sweep_quiet:
  assumes "op_status x = Os_submitted" "row_inv x s f" "echo_timeout_evidence x nowMs = Inr e"
    "failure_update Os_maybe_sent e x x'"
  shows "quiet s x x'"
proof -
  have "logical_attempt_count e = max (op_retry_count x) 1"
    using assms(3) by (auto simp: echo_timeout_evidence_def dest: internal_logical)
  then have "row_inv x' s False"
    by (intro failure_update_inv [OF assms(4)]) (use assms(1,2) in \<open>auto simp: row_inv_def\<close>)
  with assms(1,4) show ?thesis by (simp add: quiet_def failure_update_def)
qed

lemma reconcile_quiet:
  assumes "op_status x = Os_maybe_sent" "row_inv x s f" "reconciled nowMs u x x x'"
  shows "quiet s x x'"
  using assms(3) unfolding reconciled_def
proof (elim disjE conjE exE)
  fix e assume e: "pendingReplayEvidence x nowMs = Inr e" "failure_update Os_pending e x x'"
  have "counted x" using assms(1,2) by (simp add: row_inv_def)
  from replay_logical [OF e(1) this] have "row_inv x' s False"
    by (intro failure_update_inv [OF e(2)]) (use assms(1,2) in \<open>auto simp: row_inv_def\<close>)
  with assms(1) e(2) show ?thesis by (simp add: quiet_def failure_update_def)
qed (auto simp: quiet_def settled_def failure_update_def echo_row_def)

lemma same_db: "delivery_inv w \<Longrightarrow> delivery_inv (w\<lparr>w_db := w_db w\<rparr>)"
  by simp

lemma sweep_step_inv:
  assumes "delivery_inv w" "get_op (w_db w) (op_id x) = Some x" "op_status x = Os_submitted"
  shows "delivery_inv (w\<lparr>w_db := fst (fst (sweep_submitted nowMs x (w_db w, n)))\<rparr>)"
proof (cases "mark_ambiguous echo_timeout_evidence (op_wa_message_id x) x nowMs (w_db w)")
  case (Inl e)
  with same_db [OF assms(1)] show ?thesis by (simp add: sweep_submitted_def)
next
  case (Inr p)
  obtain d' c where p: "p = (d', c)" by (cases p)
  have wf: "wf_db (w_db w)" using assms(1) by (simp add: delivery_inv_def)
  obtain e where e: "echo_timeout_evidence x nowMs = Inr e"
    "one_row (w_db w) d' (op_id x) (\<lambda>x x'. if live x then failure_update Os_maybe_sent e x x' else x' = x)"
    by (rule mark_ambiguous_row [OF wf, of echo_timeout_evidence "op_wa_message_id x" x nowMs d' c])
      (use Inr p in auto)
  have "delivery_inv (w\<lparr>w_db := d'\<rparr>)"
    by (rule bystander_row [OF assms(1) e(2)])
      (use assms(2,3) sweep_quiet [OF assms(3) _ e(1)] in \<open>auto simp: live_iff split: if_splits\<close>)
  with Inr p show ?thesis by (simp add: sweep_submitted_def)
qed

lemma reconcile_step_inv:
  assumes "delivery_inv w" "get_op (w_db w) (op_id x) = Some x" "op_status x = Os_maybe_sent"
  shows "delivery_inv (w\<lparr>w_db := fst (fst (reconcile_op sha256 alert nowMs x (w_db w, run)))\<rparr>)"
proof -
  have wf: "wf_db (w_db w)" using assms(1) by (simp add: delivery_inv_def)
  show ?thesis
    by (rule bystander_row [OF assms(1) reconcile_op_row [OF wf]])
      (use assms(2,3) reconcile_quiet in auto)
qed

text \<open>A pass over a snapshot of rows with one status, cut off anywhere.\<close>

lemma sweep_pass_inv:
  assumes "delivery_inv w" "distinct (map op_id rs)"
    "\<And>x. x \<in> set rs \<Longrightarrow> get_op (w_db w) (op_id x) = Some x \<and> op_status x = Os_submitted"
  shows "delivery_inv (w\<lparr>w_db := fst (fst (run_until_throw (sweep_submitted nowMs) rs (w_db w, n)))\<rparr>)"
proof (rule sweep_pass.pass_inv [where I = "\<lambda>d. delivery_inv (w\<lparr>w_db := d\<rparr>)", OF _ _ assms(2)])
  fix d m x assume "delivery_inv (w\<lparr>w_db := d\<rparr>)" "x \<in> set rs" "get_op d (op_id x) = Some x"
  then show "delivery_inv (w\<lparr>w_db := fst (fst (sweep_submitted nowMs x (d, m)))\<rparr>)"
    using sweep_step_inv [of "w\<lparr>w_db := d\<rparr>" x nowMs m] assms(3) by simp
qed (use assms in \<open>auto simp: delivery_inv_def\<close>)

lemma reconcile_pass_inv:
  assumes "delivery_inv w" "distinct (map op_id rs)"
    "\<And>x. x \<in> set rs \<Longrightarrow> get_op (w_db w) (op_id x) = Some x \<and> op_status x = Os_maybe_sent"
  shows "delivery_inv (w\<lparr>w_db := fst (fst (run_until_throw (reconcile_op sha256 alert nowMs) rs (w_db w, run)))\<rparr>)"
proof (rule reconcile_pass.pass_inv [where I = "\<lambda>d. delivery_inv (w\<lparr>w_db := d\<rparr>)"
      and h = "history (w_db w)", OF _ _ assms(2)])
  fix d m x assume "delivery_inv (w\<lparr>w_db := d\<rparr>)" "x \<in> set rs" "get_op d (op_id x) = Some x"
  then show "delivery_inv (w\<lparr>w_db := fst (fst (reconcile_op sha256 alert nowMs x (d, m)))\<rparr>)"
    using reconcile_step_inv [of "w\<lparr>w_db := d\<rparr>" x sha256 alert nowMs m] assms(3) by simp
qed (use assms in \<open>auto simp: delivery_inv_def\<close>)

section \<open>New operations\<close>

lemma superseded_quiet: "superseded r r' \<Longrightarrow> quiet s r r'"
  by (cases "op_status r'") (auto simp: superseded_def quiet_def settled_def live_iff)

lemma key_absent: "get_op d k = None \<longleftrightarrow> k \<notin> set (map op_id (outbound_ops d))"
  by (auto simp: get_op_def find_None_iff)

lemma supersede_inv:
  assumes "delivery_inv w" "\<forall>x \<in> set rs. live x"
  shows "delivery_inv (w\<lparr>w_db := fst (supersede_all rs nowMs (w_db w))\<rparr>)"
proof (rule bystander [OF assms(1)])
  have wf: "wf_db (w_db w)" using assms(1) by (simp add: delivery_inv_def)
  note steps = supersede_all_steps [OF wf assms(2), of nowMs]
  show "wf_db (fst (supersede_all rs nowMs (w_db w)))" using steps by blast
  fix k r
  show "get_op (w_db w) k = Some r \<Longrightarrow> \<exists>r'. get_op (fst (supersede_all rs nowMs (w_db w))) k = Some r'
      \<and> quiet (w_sends w k) r r'"
    using steps [of k] superseded_quiet by (fastforce simp: quiet_def)
  show "get_op (w_db w) k = None \<Longrightarrow> get_op (fst (supersede_all rs nowMs (w_db w))) k = Some r \<Longrightarrow> row_inv r 0 False"
    using supersede_all_keys [of rs nowMs "w_db w"] by (metis key_absent option.distinct(1))
qed

lemma fresh_key: "wf_db d \<Longrightarrow> get_op d (last_op_id d + 1) = None"
  unfolding key_absent by (fastforce simp: wf_db_def keys_ok_def list_all_iff)

lemma insert_inv:
  assumes "delivery_inv w"
  shows "delivery_inv (w\<lparr>w_db := fst (insert_op sha256 params now (w_db w))\<rparr>)"
proof (rule bystander [OF assms])
  have wf: "wf_db (w_db w)" using assms by (simp add: delivery_inv_def)
  show "wf_db (fst (insert_op sha256 params now (w_db w)))" by (rule insert_op_steps(1) [OF wf])
  fix k r
  show "get_op (w_db w) k = Some r \<Longrightarrow> \<exists>r'. get_op (fst (insert_op sha256 params now (w_db w))) k = Some r'
      \<and> quiet (w_sends w k) r r'"
    using insert_op_steps(3) [OF wf] by (fastforce simp: quiet_def)
  show "get_op (w_db w) k = None \<Longrightarrow> get_op (fst (insert_op sha256 params now (w_db w))) k = Some r
      \<Longrightarrow> row_inv r 0 False"
    by (auto simp: insert_op_def Let_def get_op_append row_inv_def counted_def new_op_def failure_evidence_def
        split: if_splits)
qed

lemma create_inv:
  assumes "delivery_inv w" "createOutboundOp sha256 params nowMs (w_db w) = (d', res)"
  shows "delivery_inv (w\<lparr>w_db := d'\<rparr>)"
    "res = Inr k \<Longrightarrow> get_op (w_db w) k = None \<and> (\<exists>i. get_op d' k = Some (new_op sha256 params i (sql_now nowMs)))"
proof -
  let ?rs = "selectOutstandingStatus (opp_chatJid params) (w_db w)"
  let ?u = "if opp_opType params = ''status_ping'' then supersede_all ?rs nowMs (w_db w) else (w_db w, Inr ())"
  have wf: "wf_db (w_db w)" using assms(1) by (simp add: delivery_inv_def)
  have live: "\<forall>x \<in> set ?rs. live x" by (simp add: selectOutstandingStatus_def live_def)
  have inv1: "delivery_inv (w\<lparr>w_db := fst ?u\<rparr>)"
    using supersede_inv [OF assms(1) live, of nowMs] assms(1) by auto
  have last: "last_op_id (fst ?u) = last_op_id (w_db w)"
    using supersede_all_steps [OF wf live, of nowMs] by auto
  have cases: "(\<exists>e. snd ?u = Inl e) \<and> d' = fst ?u \<and> (\<forall>k. res \<noteq> Inr k)
      \<or> d' = fst (insert_op sha256 params (sql_now nowMs) (fst ?u)) \<and> res = Inr (last_op_id (w_db w) + 1)"
    using assms(2) last unfolding createOutboundOp_def Let_def
    by (auto simp: insert_op_def Let_def split_beta split: sum.splits if_splits)
  from cases show "delivery_inv (w\<lparr>w_db := d'\<rparr>)"
    using inv1 insert_inv [OF inv1] by auto
  assume res: "res = Inr k"
  with cases have k: "k = last_op_id (w_db w) + 1" "d' = fst (insert_op sha256 params (sql_now nowMs) (fst ?u))"
    by auto
  have "wf_db (fst ?u)" using inv1 by (simp add: delivery_inv_def)
  from fresh_key [OF this] have "get_op (fst ?u) k = None" using last k(1) by simp
  then have "get_op d' k = Some (new_op sha256 params k (sql_now nowMs))"
    using last k by (simp add: insert_op_def Let_def get_op_append) (simp add: new_op_def)
  moreover have "get_op (w_db w) k = None" unfolding k(1) by (rule fresh_key [OF wf])
  ultimately show "get_op (w_db w) k = None \<and> (\<exists>i. get_op d' k = Some (new_op sha256 params i (sql_now nowMs)))"
    by blast
qed

section \<open>Starting a send\<close>

lemma queued_frame:
  assumes "\<And>n. n \<noteq> k \<Longrightarrow> get_op d' n = get_op d n" "op_id s \<noteq> k"
  shows "queued_ok d' T s = queued_ok d T s"
  using assms by (simp add: queued_ok_def)

lemma inv_row: "delivery_inv w \<Longrightarrow> get_op (w_db w) k = Some r \<Longrightarrow> row_inv r (w_sends w k) (in_flight w k)"
  by (simp add: delivery_inv_def)

lemma pending_not_flying: "delivery_inv w \<Longrightarrow> get_op (w_db w) k = Some r \<Longrightarrow> op_status r = Os_pending \<Longrightarrow> \<not> in_flight w k"
  using inv_row [of w k r] by (simp add: row_inv_def)

lemma track_inv:
  assumes "delivery_inv w" "get_op (w_db w) k = Some r" "op_status r = Os_pending" "op_retry_count r = 0"
    "w_sends w k = 0" "\<And>s. drain_phase.case_drain_phase False (\<lambda>rs. s \<in> set rs) (\<lambda>_ rs. s \<in> set rs) (w_drain w)
      \<Longrightarrow> op_id s \<noteq> k"
  shows "delivery_inv (count_send k (w\<lparr>w_db := fst (markSending k (w_db w)), w_tracked := k # w_tracked w\<rparr>))"
proof -
  have wf: "wf_db (w_db w)" using assms(1) by (simp add: delivery_inv_def)
  let ?d = "fst (markSending k (w_db w))" and ?r = "r\<lparr>op_status := Os_sending\<rparr>"
  let ?w = "count_send k (w\<lparr>w_db := ?d, w_tracked := k # w_tracked w\<rparr>)"
  note row = markSending_row(1) [OF wf, of k]
  have wf': "wf_db ?d" and other: "\<And>n. n \<noteq> k \<Longrightarrow> get_op ?d n = get_op (w_db w) n"
    and own: "get_op ?d k = Some ?r"
    using row assms(2,3) by (auto simp: one_row_def)
  have nf: "\<not> in_flight w k" by (rule pending_not_flying [OF assms(1-3)])
  have queued: "queued_ok ?d (k # w_tracked w) s = queued_ok (w_db w) (w_tracked w) s" if "op_id s \<noteq> k" for s
    using queued_frame [of k ?d "w_db w", OF other that] that by (simp add: queued_ok_def)
  have drain: "drain_inv ?w"
  proof (cases "w_drain w")
    case (Awaiting r0 rs)
    then have "op_id r0 \<noteq> k" using nf by (auto simp: in_flight_def)
    then show ?thesis
      using assms(1,6) queued other Awaiting
      by (auto simp: delivery_inv_def drain_inv_def count_send_def)
  qed (use assms(1,6) queued in \<open>auto simp: delivery_inv_def drain_inv_def count_send_def\<close>)
  have "k \<notin> set (w_tracked w)" using nf by (simp add: in_flight_def)
  then have tracked: "tracked_inv ?w"
    using assms(1,4,5) own other by (auto simp: delivery_inv_def tracked_inv_def count_send_def)
  have flight: "in_flight ?w n = (n = k \<or> in_flight w n)" for n
    by (auto simp: in_flight_def count_send_def)
  have counted: "counted ?r" using inv_row [OF assms(1,2)] assms(3) by (simp add: row_inv_def)
  have "row_inv ?r 1 True" using counted assms(4) by (simp add: row_inv_def)
  then show ?thesis
    using assms(1,5) drain tracked wf' own other flight
    unfolding delivery_inv_def
    by (auto simp: count_send_def MAX_OUTBOUND_REPLAY_ATTEMPTS_def)
qed

lemma drain_sends_inv:
  assumes "delivery_inv w" "w_drain w = Draining (r0 # rs)"
    "drain_admit sha256 r0 nowMs (w_db w) = (d', Da_send t)"
  shows "delivery_inv (count_send (op_id r0) (w\<lparr>w_db := d', w_drain := Awaiting r0 rs\<rparr>))"
proof -
  let ?k = "op_id r0"
  let ?w = "count_send ?k (w\<lparr>w_db := d', w_drain := Awaiting r0 rs\<rparr>)"
  have wf: "wf_db (w_db w)" using assms(1) by (simp add: delivery_inv_def)
  from assms(3) have d': "d' = fst (markSending ?k (w_db w))" and won: "snd (markSending ?k (w_db w))"
    and verdict: "drain_verdict r0 nowMs = Dv_send t"
    by (auto simp: drain_admit_def drain_quarantine_def Let_def split_beta
        split: drain_decision.splits sum.splits prod.splits if_splits)
  have limit: "op_retry_count r0 < MAX_OUTBOUND_REPLAY_ATTEMPTS"
    using verdict by (auto simp: drain_verdict_def split: if_splits)
  obtain r where r: "get_op (w_db w) ?k = Some r" "op_status r = Os_pending"
    using won markSending_row(2) [OF wf] by blast
  have q: "distinct (map op_id (r0 # rs))" "\<forall>s \<in> set (r0 # rs). queued_ok (w_db w) (w_tracked w) s"
    using assms(1,2) by (auto simp: delivery_inv_def drain_inv_def)
  have same: "op_retry_count r = op_retry_count r0" "op_error r = op_error r0" "?k \<notin> set (w_tracked w)"
    using q(2) r by (auto simp: queued_ok_def settled_def)
  let ?r = "r\<lparr>op_status := Os_sending\<rparr>"
  have wf': "wf_db d'" and other: "\<And>n. n \<noteq> ?k \<Longrightarrow> get_op d' n = get_op (w_db w) n" and own: "get_op d' ?k = Some ?r"
    using markSending_row(1) [OF wf, of ?k] r by (auto simp: one_row_def d')
  have pinv: "int (w_sends w ?k) \<le> op_retry_count r" "counted r"
    using inv_row [OF assms(1) r(1)] r(2) by (simp_all add: row_inv_def)
  have c0: "counted r0" using pinv(2) same(1,2) by (simp add: counted_def failure_evidence_def split: decoded_evidence.splits)
  have queued: "queued_ok d' (w_tracked w) s" if "s \<in> set rs" for s
  proof -
    have "op_id s \<noteq> ?k" using q(1) that by (auto simp: image_iff)
    with queued_frame [of ?k d' "w_db w", OF other this] q(2) that show ?thesis by simp
  qed
  have drain: "drain_inv ?w"
    using q(1) queued same pinv c0 own by (auto simp: drain_inv_def count_send_def)
  have tracked: "tracked_inv ?w"
    using assms(1) other same(3) by (auto simp: delivery_inv_def tracked_inv_def count_send_def)
  have flight: "in_flight ?w n = (n = ?k \<or> in_flight w n)" for n
    using assms(2) by (auto simp: in_flight_def count_send_def)
  have "row_inv ?r (w_sends w ?k + 1) True" using pinv by (simp add: row_inv_def)
  moreover have "int (w_sends w ?k + 1) \<le> MAX_OUTBOUND_REPLAY_ATTEMPTS"
    using pinv(1) same(1) limit by simp
  ultimately show ?thesis
    using assms(1) drain tracked wf' own other flight
    unfolding delivery_inv_def by (auto simp: count_send_def)
qed

section \<open>Ending a send\<close>

lemma row_inv_landed: "row_inv r s f \<Longrightarrow> row_inv r s False"
  by (auto simp: row_inv_def split: outbound_status.splits)

definition landed :: "int \<Rightarrow> outbound_op \<Rightarrow> outbound_op \<Rightarrow> bool" where
  "landed b r r' \<longleftrightarrow> r' = r \<or> (\<exists>w. submitted_update w (b + 1) r r')
     \<or> (\<exists>e. accepts_failure e r \<and> logical_attempt_count e = b + 1
          \<and> failure_update (disposition_status e) e r r')"

lemma landed_inv:
  assumes "landed b r r'" "row_inv r s True" "int s \<le> b + 1" "0 \<le> b" "op_status r = Os_sending \<longrightarrow> op_retry_count r = b"
  shows "row_inv r' s False"
  using assms(1) unfolding landed_def
proof (elim disjE exE conjE)
  assume "r' = r"
  with assms(2) row_inv_landed show ?thesis by simp
next
  fix w assume "submitted_update w (b + 1) r r'"
  with assms(3,4) show ?thesis by (auto simp: row_inv_def submitted_update_def max_def)
next
  fix e assume e: "accepts_failure e r" "logical_attempt_count e = b + 1"
    "failure_update (disposition_status e) e r r'"
  have "op_status r = Os_sending"
    using e(1) assms(2) by (cases "op_status r") (auto simp: accepts_failure_def live_iff row_inv_def split: if_splits)
  with assms(5) have "op_retry_count r = b" by simp
  with e(2) assms(3) show ?thesis
    by (intro failure_update_inv [OF e(3)]) (auto simp: disposition_status_def)
qed

lemma drain_failed_landed:
  assumes "wf_db d" "counted r0"
  shows "one_row d (drain_failed r0 err nowMs d) (op_id r0) (landed (op_retry_count r0))"
proof (cases "and_then (classifyOutboundFailure err nowMs Ro_pending_drainer 0 (prior_evidence r0))
             (\<lambda>e. persistOutboundFailureDisposition (op_id r0) e None nowMs d)")
  case (Inl x)
  then show ?thesis by (simp add: drain_failed_def one_row_refl [OF assms(1)] landed_def)
next
  case (Inr d')
  then obtain e where e: "classifyOutboundFailure err nowMs Ro_pending_drainer 0 (prior_evidence r0) = Inr e"
    "persistOutboundFailureDisposition (op_id r0) e None nowMs d = Inr d'" by (auto simp: and_then_Inr)
  have "logical_attempt_count e = op_retry_count r0 + 1"
    using classify_logical [OF e(1)] assms(2)
    by (auto simp: prior_evidence_def counted_def split: decoded_evidence.splits option.splits)
  then have "one_row d d' (op_id r0) (landed (op_retry_count r0))"
    by (intro one_row_mono [OF persist_row [OF assms(1) e(2)]]) (auto simp: landed_def split: if_splits)
  with Inr show ?thesis by (simp add: drain_failed_def)
qed

lemma drain_settle_landed:
  assumes "wf_db d" "counted r0"
  shows "one_row d (fst (drain_settle r0 outcome nowMs d)) (op_id r0) (landed (op_retry_count r0))"
proof -
  have n: "next_attempt r0 = op_retry_count r0 + 1"
    using assms(2) by (auto simp: next_attempt_def prior_evidence_def counted_def split: decoded_evidence.splits option.splits)
  have "one_row d d' (op_id r0) (landed (op_retry_count r0))"
    if "markSubmitted (op_id r0) w (next_attempt r0) nowMs d = Inr d'" for w d'
    by (rule one_row_mono [OF markSubmitted_row [OF assms(1) that]]) (auto simp: landed_def n)
  then show ?thesis using drain_failed_landed [OF assms]
    by (auto simp: drain_settle_def split: send_outcome.split sum.split)
qed

lemma tracked_settle_landed:
  assumes "wf_db d"
  shows "one_row d (fst (sendTracked_settle k outcome nowMs d)) k (landed 0)"
proof -
  have failed: "one_row d (fst (tracked_failed k err nowMs d)) k (landed 0)" for err
  proof (cases "and_then (classifyOutboundFailure err nowMs Ro_send_tracked 0 None)
             (\<lambda>e. persistOutboundFailureDisposition k e None nowMs d)")
    case (Inl x)
    then show ?thesis by (simp add: tracked_failed_def one_row_refl [OF assms] landed_def)
  next
    case (Inr d')
    then obtain e where e: "classifyOutboundFailure err nowMs Ro_send_tracked 0 None = Inr e"
      "persistOutboundFailureDisposition k e None nowMs d = Inr d'" by (auto simp: and_then_Inr)
    have "one_row d d' k (landed 0)"
      by (rule one_row_mono [OF persist_row [OF assms e(2)]])
        (use classify_logical [OF e(1)] in \<open>auto simp: landed_def split: if_splits\<close>)
    with Inr show ?thesis by (simp add: tracked_failed_def)
  qed
  have "one_row d d' k (landed 0)" if "markSubmitted k w 1 nowMs d = Inr d'" for w d'
    by (rule one_row_mono [OF markSubmitted_row [OF assms that]]) (auto simp: landed_def)
  then show ?thesis using failed
    by (auto simp: sendTracked_settle_def split: send_outcome.split sum.split)
qed

lemma land_rows:
  assumes "delivery_inv w" "one_row (w_db w) d' k (landed b)" "get_op (w_db w) k = Some r" "in_flight w k"
    "int (w_sends w k) \<le> b + 1" "0 \<le> b" "op_status r = Os_sending \<longrightarrow> op_retry_count r = b"
  shows "(get_op d' n = None \<longrightarrow> w_sends w n = 0)
    \<and> (\<forall>r'. get_op d' n = Some r' \<longrightarrow> row_inv r' (w_sends w n) (in_flight w n \<and> n \<noteq> k))"
proof (cases "n = k")
  case True
  obtain r1 where r1: "get_op d' k = Some r1" "landed b r r1"
    using assms(2,3) by (auto simp: one_row_def)
  have "row_inv r (w_sends w k) True" using inv_row [OF assms(1,3)] assms(4) by simp
  from landed_inv [OF r1(2) this assms(5-7)] True r1(1) show ?thesis by simp
next
  case False
  then have "get_op d' n = get_op (w_db w) n" using assms(2) by (simp add: one_row_def)
  with False assms(1) show ?thesis by (simp add: delivery_inv_def)
qed

lemma queued_row_frame:
  assumes "one_row d d' k R" "op_id s \<noteq> k"
  shows "queued_ok d' T s = queued_ok d T s"
  by (rule queued_frame [where k = k]) (use assms in \<open>auto simp: one_row_def\<close>)

lemma queued_fewer: "queued_ok d T s \<Longrightarrow> queued_ok d (remove1 k T) s"
  by (auto simp: queued_ok_def dest: notin_set_remove1 [of _ T k])

lemma drain_settles_inv:
  assumes "delivery_inv w" "w_drain w = Awaiting r0 rs" "drain_settle r0 outcome nowMs (w_db w) = (d', b)"
  shows "delivery_inv (w\<lparr>w_db := d', w_drain := Draining rs\<rparr>)"
proof -
  let ?k = "op_id r0"
  have wf: "wf_db (w_db w)" using assms(1) by (simp add: delivery_inv_def)
  have a: "distinct (map op_id (r0 # rs))" "\<forall>s \<in> set rs. queued_ok (w_db w) (w_tracked w) s"
    "?k \<notin> set (w_tracked w)" "int (w_sends w ?k) \<le> op_retry_count r0 + 1" "counted r0" "0 \<le> op_retry_count r0"
    "\<exists>r. get_op (w_db w) ?k = Some r \<and> (op_status r = Os_sending \<longrightarrow> op_retry_count r = op_retry_count r0)"
    using assms(1,2) by (simp_all add: delivery_inv_def drain_inv_def)
  then obtain r where r: "get_op (w_db w) ?k = Some r" "op_status r = Os_sending \<longrightarrow> op_retry_count r = op_retry_count r0"
    by blast
  have row: "one_row (w_db w) d' ?k (landed (op_retry_count r0))"
    using drain_settle_landed [OF wf a(5), of outcome nowMs] assms(3) by simp
  have fl: "in_flight w ?k" using assms(2) by (simp add: in_flight_def)
  note rows = land_rows [OF assms(1) row r(1) fl a(4,6) r(2)]
  have fly: "in_flight (w\<lparr>w_db := d', w_drain := Draining rs\<rparr>) n = (in_flight w n \<and> n \<noteq> ?k)" for n
    using assms(2) a(3) by (auto simp: in_flight_def)
  have other: "get_op d' n = get_op (w_db w) n" if "n \<noteq> ?k" for n using row that by (simp add: one_row_def)
  have "queued_ok d' (w_tracked w) s" if "s \<in> set rs" for s
  proof -
    have "op_id s \<noteq> ?k" using a(1) that by (auto simp: image_iff)
    with queued_row_frame [OF row] a(2) that show ?thesis by simp
  qed
  with a(1) have "drain_inv (w\<lparr>w_db := d', w_drain := Draining rs\<rparr>)" by (simp add: drain_inv_def)
  moreover have tracked: "get_op d' m = get_op (w_db w) m" if "m \<in> set (w_tracked w)" for m
    using other [of m] that a(3) by blast
  moreover have "tracked_inv (w\<lparr>w_db := d', w_drain := Draining rs\<rparr>)"
    using assms(1) tracked by (simp add: delivery_inv_def tracked_inv_def)
  ultimately show ?thesis
    using assms(1) row rows fly unfolding delivery_inv_def by (simp add: one_row_def)
qed

lemma track_settles_inv:
  assumes "delivery_inv w" "k \<in> set (w_tracked w)" "sendTracked_settle k outcome nowMs (w_db w) = (d', res)"
  shows "delivery_inv (w\<lparr>w_db := d', w_tracked := remove1 k (w_tracked w)\<rparr>)"
proof -
  let ?w = "w\<lparr>w_db := d', w_tracked := remove1 k (w_tracked w)\<rparr>"
  have wf: "wf_db (w_db w)" using assms(1) by (simp add: delivery_inv_def)
  have t: "distinct (w_tracked w)" "w_sends w k = 1"
    "\<exists>r. get_op (w_db w) k = Some r \<and> (op_status r = Os_sending \<longrightarrow> op_retry_count r = 0)"
    using assms(1,2) by (auto simp: delivery_inv_def tracked_inv_def)
  then obtain r where r: "get_op (w_db w) k = Some r" "op_status r = Os_sending \<longrightarrow> op_retry_count r = 0" by blast
  have row: "one_row (w_db w) d' k (landed 0)"
    using tracked_settle_landed [OF wf, of k outcome nowMs] assms(3) by simp
  have fl: "in_flight w k" using assms(2) by (simp add: in_flight_def)
  have "int (w_sends w k) \<le> 0 + 1" "(0::int) \<le> 0" using t(2) by simp_all
  note rows = land_rows [OF assms(1) row r(1) fl this r(2)]
  have notk: "op_id s \<noteq> k" if "queued_ok (w_db w) (w_tracked w) s" for s
    using that assms(2) by (auto simp: queued_ok_def)
  have q: "queued_ok d' (remove1 k (w_tracked w)) s" if "queued_ok (w_db w) (w_tracked w) s" for s
    using queued_row_frame [OF row notk [OF that], of "w_tracked w"] that queued_fewer by blast
  have out: "op_id r0 \<noteq> k" if "w_drain w = Awaiting r0 rs" for r0 rs
    using assms(1,2) that by (auto simp: delivery_inv_def drain_inv_def)
  have other: "get_op d' n = get_op (w_db w) n" if "n \<noteq> k" for n using row that by (simp add: one_row_def)
  have "drain_inv ?w"
  proof (cases "w_drain w")
    case (Awaiting r0 rs)
    with assms(1) q out [OF Awaiting] other show ?thesis
      by (auto simp: delivery_inv_def drain_inv_def dest: notin_set_remove1)
  qed (use assms(1) q in \<open>auto simp: delivery_inv_def drain_inv_def\<close>)
  moreover have "tracked_inv ?w"
    using assms(1) t(1) other by (auto simp: delivery_inv_def tracked_inv_def)
  moreover have "in_flight ?w n = (in_flight w n \<and> n \<noteq> k)" for n
    using t(1) out by (auto simp: in_flight_def split: drain_phase.splits)
  ultimately show ?thesis
    using assms(1) row rows unfolding delivery_inv_def by (simp add: one_row_def)
qed

section \<open>The other steps\<close>

lemma phase_inv:
  assumes "delivery_inv w" "drain_inv (w\<lparr>w_drain := p\<rparr>)" "\<And>n. in_flight (w\<lparr>w_drain := p\<rparr>) n = in_flight w n"
  shows "delivery_inv (w\<lparr>w_drain := p\<rparr>)"
  using assms by (simp add: delivery_inv_def tracked_inv_def)

lemma drain_starts_inv:
  assumes "delivery_inv w" "w_drain w = Idle"
  shows "delivery_inv (w\<lparr>w_drain := Draining (getOutboundByStatus Os_pending (w_db w))\<rparr>)"
proof (rule phase_inv [OF assms(1)])
  have wf: "wf_db (w_db w)" using assms(1) by (simp add: delivery_inv_def)
  have "queued_ok (w_db w) (w_tracked w) s" if "s \<in> set (getOutboundByStatus Os_pending (w_db w))" for s
  proof -
    have s: "get_op (w_db w) (op_id s) = Some s" "op_status s = Os_pending"
      using that snapshot_rows(2) [OF wf] by auto
    with pending_not_flying [OF assms(1) s] show ?thesis by (simp add: queued_ok_def in_flight_def)
  qed
  then show "drain_inv (w\<lparr>w_drain := Draining (getOutboundByStatus Os_pending (w_db w))\<rparr>)"
    using snapshot_rows(1) [OF wf] by (simp add: drain_inv_def)
qed (simp add: in_flight_def assms(2))

lemma next_row_inv:
  "delivery_inv w \<Longrightarrow> w_drain w = Draining (r # rs) \<Longrightarrow> delivery_inv (w\<lparr>w_drain := Draining rs\<rparr>)"
  by (rule phase_inv) (auto simp: delivery_inv_def drain_inv_def in_flight_def)

lemma drain_ends_inv:
  "delivery_inv w \<Longrightarrow> w_drain w = Draining [] \<Longrightarrow> delivery_inv (w\<lparr>w_drain := Idle\<rparr>)"
  by (rule phase_inv) (auto simp: drain_inv_def in_flight_def)

lemma drain_passes_inv:
  assumes "delivery_inv w" "w_drain w = Draining (r # rs)" "drain_admit sha256 r nowMs (w_db w) = (d', a)"
    "\<forall>t. a \<noteq> Da_send t"
  shows "delivery_inv (w\<lparr>w_db := d', w_drain := Draining rs\<rparr>)"
proof -
  have wf: "wf_db (w_db w)" using assms(1) by (simp add: delivery_inv_def)
  have "delivery_inv (w\<lparr>w_db := d'\<rparr>)"
  proof (cases "drain_verdict r nowMs")
    case (Dv_quarantine code)
    with assms(3) have q: "drain_quarantine sha256 code r nowMs (w_db w) = (d', a)" by (simp add: drain_admit_def)
    show ?thesis
    proof (cases "and_then (drain_evidence code r nowMs)
        (\<lambda>e. markQuarantined sha256 (op_id r) (Some e) nowMs (w_db w))")
      case (Inl x)
      with q same_db [OF assms(1)] show ?thesis by (simp add: drain_quarantine_def)
    next
      case (Inr p)
      with q obtain e won where "markQuarantined sha256 (op_id r) (Some e) nowMs (w_db w) = Inr (d', won)"
        by (cases p) (auto simp: drain_quarantine_def and_then_Inr)
      from markQuarantined_row(1) [OF wf this] show ?thesis
        by (rule bystander_row [OF assms(1)]) (auto simp: quiet_def settled_def failure_update_def split: if_splits)
    qed
  next
    case Dv_wait
    with assms(3) same_db [OF assms(1)] show ?thesis by (simp add: drain_admit_def)
  next
    case (Dv_send t)
    with assms(3,4) have m: "d' = fst (markSending (op_id r) (w_db w))" "\<not> snd (markSending (op_id r) (w_db w))"
      by (auto simp: drain_admit_def Let_def split_beta split: if_splits)
    show ?thesis unfolding m(1)
      by (rule bystander_row [OF assms(1) markSending_row(1) [OF wf]])
        (use m(2) markSending_row(2) [OF wf] in \<open>auto simp: quiet_def\<close>)
  qed
  from next_row_inv [OF this, of r rs] assms(2) show ?thesis by simp
qed

lemma tracked_begins_inv:
  assumes "delivery_inv w" "sendTracked_begin sha256 chatJid txt opts nowMs (w_db w) = (d', Inr k)"
  shows "delivery_inv (count_send k (w\<lparr>w_db := d', w_tracked := k # w_tracked w\<rparr>))"
proof -
  from assms(2) obtain params d1 where c: "createOutboundOp sha256 params nowMs (w_db w) = (d1, Inr k)"
    and d': "d' = fst (markSending k d1)"
    by (auto simp: sendTracked_begin_def split: sum.splits prod.splits)
  from create_inv(2) [OF assms(1) c refl] obtain i where
    new: "get_op (w_db w) k = None" "get_op d1 k = Some (new_op sha256 params i (sql_now nowMs))" by blast
  have s: "w_sends w k = 0" using assms(1) new(1) by (simp add: delivery_inv_def)
  have q: "op_id s \<noteq> k" if "queued_ok (w_db w) (w_tracked w) s" for s
    using that new(1) by (auto simp: queued_ok_def)
  have "delivery_inv (count_send k ((w\<lparr>w_db := d1\<rparr>)\<lparr>w_db := fst (markSending k (w_db (w\<lparr>w_db := d1\<rparr>))),
      w_tracked := k # w_tracked (w\<lparr>w_db := d1\<rparr>)\<rparr>))"
  proof (rule track_inv [OF create_inv(1) [OF assms(1) c]])
    show "get_op (w_db (w\<lparr>w_db := d1\<rparr>)) k = Some (new_op sha256 params i (sql_now nowMs))" using new(2) by simp
    fix s assume "case w_drain (w\<lparr>w_db := d1\<rparr>) of Idle \<Rightarrow> False | Draining rs \<Rightarrow> s \<in> set rs
      | Awaiting _ rs \<Rightarrow> s \<in> set rs"
    with assms(1) have "queued_ok (w_db w) (w_tracked w) s"
      by (auto simp: delivery_inv_def drain_inv_def split: drain_phase.splits)
    with q show "op_id s \<noteq> k" by blast
  qed (use s in \<open>simp_all add: new_op_def\<close>)
  then show ?thesis by (simp add: d')
qed

lemma tracked_refused_inv:
  assumes "delivery_inv w" "sendTracked_begin sha256 chatJid txt opts nowMs (w_db w) = (d', Inl e)"
  shows "delivery_inv (w\<lparr>w_db := d'\<rparr>)"
proof (cases "toConversationKey chatJid")
  case (Inl x)
  with assms(2) same_db [OF assms(1)] show ?thesis by (auto simp: sendTracked_begin_def)
next
  case (Inr key)
  with assms(2) obtain params where "createOutboundOp sha256 params nowMs (w_db w) = (d', Inl e)"
    by (auto simp: sendTracked_begin_def split: sum.splits prod.splits)
  then show ?thesis by (rule create_inv(1) [OF assms(1)])
qed

lemma echoed_inv:
  assumes "delivery_inv w"
  shows "delivery_inv (w\<lparr>w_db := fst (markEchoed k now (w_db w))\<rparr>)"
proof -
  have wf: "wf_db (w_db w)" using assms by (simp add: delivery_inv_def)
  show ?thesis
    by (rule bystander_row [OF assms markEchoed_row [OF wf]]) (auto simp: quiet_def settled_def echo_row_def)
qed

lemma terminal_inv:
  assumes "delivery_inv w"
  shows "delivery_inv (w\<lparr>w_db := fst (markTerminal k now (w_db w))\<rparr>)"
proof (cases "fst (markTerminal k now (w_db w)) = w_db w")
  case True
  with assms show ?thesis by simp
next
  case False
  have wf: "wf_db (w_db w)" using assms by (simp add: delivery_inv_def)
  let ?d = "fst (complete_unowned (\<lambda>r. op_status r = Os_echoed) k now (fst (terminal_statement k (w_db w))))"
  have d: "fst (markTerminal k now (w_db w)) = ?d" using markTerminal_leaves [of k now "w_db w"] False by blast
  have g: "get_op ?d n = map_option (at_op k (\<lambda>r. r\<lparr>op_is_terminal := True\<rparr>)) (get_op (w_db w) n)" for n
    by (simp add: complete_unowned_frame(1) terminal_statement_row [OF wf])
  show ?thesis unfolding d
  proof (rule bystander [OF assms])
    show "wf_db ?d" by (intro complete_unowned_wf statement_wf(2) wf)
    fix n r
    show "get_op (w_db w) n = Some r \<Longrightarrow> \<exists>r'. get_op ?d n = Some r' \<and> quiet (w_sends w n) r r'"
      by (simp add: g at_op_def quiet_def)
    show "get_op (w_db w) n = None \<Longrightarrow> get_op ?d n = Some r \<Longrightarrow> row_inv r 0 False"
      by (simp add: g)
  qed
qed

lemma crash_inv: "delivery_inv w \<Longrightarrow> delivery_inv (w\<lparr>w_drain := Idle, w_tracked := []\<rparr>)"
  using row_inv_landed by (fastforce simp: delivery_inv_def drain_inv_def tracked_inv_def in_flight_def)

lemma promote_step_inv:
  assumes "delivery_inv w" "w_drain w = Idle" "w_tracked w = []"
    "get_op (w_db w) (op_id x) = Some x" "op_status x = Os_sending"
  shows "delivery_inv (w\<lparr>w_db := fst (fst (promote_sending nowMs x (w_db w, n)))\<rparr>)"
proof (cases "mark_ambiguous crash_evidence None x nowMs (w_db w)")
  case (Inl e)
  with same_db [OF assms(1)] show ?thesis by (simp add: promote_sending_def)
next
  case (Inr p)
  obtain d' c where p: "p = (d', c)" by (cases p)
  have wf: "wf_db (w_db w)" using assms(1) by (simp add: delivery_inv_def)
  obtain e where e: "crash_evidence x nowMs = Inr e"
    "one_row (w_db w) d' (op_id x) (\<lambda>x x'. if live x then failure_update Os_maybe_sent e x x' else x' = x)"
    by (rule mark_ambiguous_row [OF wf, of crash_evidence None x nowMs d' c]) (use Inr p in auto)
  have live: "live x" using assms(5) by (simp add: live_iff)
  obtain x' where x': "get_op d' (op_id x) = Some x'" "failure_update Os_maybe_sent e x x'"
    by (rule one_rowD [OF e(2) assms(4)]) (use live in simp)
  have no: "\<not> in_flight (w\<lparr>w_db := d\<rparr>) k" for k d using assms(2,3) by (simp add: in_flight_def)
  have "logical_attempt_count e = op_retry_count x + 1"
    using e(1) by (auto simp: crash_evidence_def dest: internal_logical)
  then have "row_inv x' (w_sends w (op_id x)) False"
    by (intro failure_update_inv [OF x'(2)]) (use inv_row [OF assms(1,4)] assms(5) in \<open>auto simp: row_inv_def\<close>)
  moreover have "get_op d' k = get_op (w_db w) k" if "k \<noteq> op_id x" for k using e(2) that by (simp add: one_row_def)
  ultimately have "(get_op d' k = None \<longrightarrow> w_sends w k = 0)
      \<and> (\<forall>r. get_op d' k = Some r \<longrightarrow> row_inv r (w_sends w k) False)" for k
    using assms(1) x'(1) no [of "w_db w"] by (cases "k = op_id x") (auto simp: delivery_inv_def)
  moreover have "wf_db d'" using e(2) by (simp add: one_row_def)
  ultimately have "delivery_inv (w\<lparr>w_db := d'\<rparr>)"
    using assms(1-3) no [of d'] by (simp add: delivery_inv_def drain_inv_def tracked_inv_def)
  with Inr p show ?thesis by (simp add: promote_sending_def)
qed

lemma boot_inv:
  assumes "delivery_inv w" "w_drain w = Idle" "w_tracked w = []" "distinct (map op_id rs)"
    "\<And>x. x \<in> set rs \<Longrightarrow> get_op (w_db w) (op_id x) = Some x \<and> op_status x = Os_sending"
  shows "delivery_inv (w\<lparr>w_db := fst (fst (run_until_throw (promote_sending nowMs) rs (w_db w, n)))\<rparr>)"
proof (rule promote_pass.pass_inv [where I = "\<lambda>d. delivery_inv (w\<lparr>w_db := d\<rparr>)", OF _ _ assms(4)])
  fix d m x assume "delivery_inv (w\<lparr>w_db := d\<rparr>)" "x \<in> set rs" "get_op d (op_id x) = Some x"
  then show "delivery_inv (w\<lparr>w_db := fst (fst (promote_sending nowMs x (d, m)))\<rparr>)"
    using promote_step_inv [of "w\<lparr>w_db := d\<rparr>" x nowMs m] assms(2,3,5) by simp
qed (use assms in \<open>auto simp: delivery_inv_def\<close>)

section \<open>The bound\<close>

lemma part_of_rows:
  assumes "wf_db d" "rs = filter P (outbound_ops d) \<or> rs = sort_key op_id (filter P (outbound_ops d))"
  shows "distinct (map op_id (take n rs))"
    "\<And>x. x \<in> set (take n rs) \<Longrightarrow> get_op d (op_id x) = Some x \<and> P x"
proof -
  have "distinct (map op_id (filter P (outbound_ops d)))"
    using assms(1) by (auto simp: wf_db_def keys_ok_def distinct_map intro: inj_on_subset)
  then have d: "distinct (map op_id rs)" using assms(2) by (auto simp: distinct_map)
  show "distinct (map op_id (take n rs))" using d by (simp flip: take_map)
  fix x assume "x \<in> set (take n rs)"
  then have "x \<in> set rs" by (rule in_set_takeD)
  then have "x \<in> set (outbound_ops d)" "P x" using assms(2) by auto
  then show "get_op d (op_id x) = Some x \<and> P x" using get_op_mem [OF assms(1), of x] by simp
qed

lemma part_of_live_reconcile:
  assumes "wf_db d"
  shows "distinct (map op_id (take n (getLiveReconcileMaybeSent now d)))"
    "\<And>x. x \<in> set (take n (getLiveReconcileMaybeSent now d)) \<Longrightarrow> get_op d (op_id x) = Some x \<and> op_status x = Os_maybe_sent"
proof -
  note part = part_of_rows [OF assms disjI2, OF refl, where n = "min n 200"]
  show "distinct (map op_id (take n (getLiveReconcileMaybeSent now d)))"
    unfolding getLiveReconcileMaybeSent_def take_take by (rule part(1))
  fix x assume "x \<in> set (take n (getLiveReconcileMaybeSent now d))"
  then show "get_op d (op_id x) = Some x \<and> op_status x = Os_maybe_sent"
    unfolding getLiveReconcileMaybeSent_def take_take using part(2) by blast
qed

lemma step_keeps_inv:
  assumes "delivery_step sha256 alert w w'" "delivery_inv w"
  shows "delivery_inv w'"
  using assms(1)
proof cases
  case (Track chatJid body opts nowMs d' k)
  then show ?thesis using tracked_begins_inv [OF assms(2)] by simp
next
  case (Track_refused chatJid body opts nowMs d' e)
  then show ?thesis using tracked_refused_inv [OF assms(2)] by simp
next
  case (Track_settles k outcome nowMs d' res)
  then show ?thesis using track_settles_inv [OF assms(2)] by simp
next
  case Drain_starts
  then show ?thesis using drain_starts_inv [OF assms(2)] by simp
next
  case (Drain_sends r rs nowMs d' t)
  then show ?thesis using drain_sends_inv [OF assms(2)] by simp
next
  case (Drain_passes r rs nowMs d' a)
  then show ?thesis using drain_passes_inv [OF assms(2)] by simp
next
  case (Drain_settles r rs outcome nowMs d' b)
  then show ?thesis using drain_settles_inv [OF assms(2)] by simp
next
  case Drain_ends
  then show ?thesis using drain_ends_inv [OF assms(2)] by simp
next
  case (Created params nowMs d' res)
  then show ?thesis using create_inv(1) [OF assms(2)] by simp
next
  case (Echoed k now d' res)
  then show ?thesis using echoed_inv [OF assms(2), of k now] by simp
next
  case (Terminal k now)
  then show ?thesis using terminal_inv [OF assms(2), of k now] by simp
next
  case (Sweep nowMs n)
  have wf: "wf_db (w_db w)" using assms(2) by (simp add: delivery_inv_def)
  note part = part_of_rows [OF wf disjI1, OF getStaleSubmitted_def [of "sql_now nowMs" "w_db w"], where n = n]
  show ?thesis unfolding Sweep
    by (rule sweep_pass_inv [OF assms(2) part(1)]) (use part(2) in blast)
next
  case (Reconcile rows nowMs n run)
  have wf: "wf_db (w_db w)" using assms(2) by (simp add: delivery_inv_def)
  have "distinct (map op_id (take n rows))
      \<and> (\<forall>x \<in> set (take n rows). get_op (w_db w) (op_id x) = Some x \<and> op_status x = Os_maybe_sent)"
    using Reconcile(2) part_of_live_reconcile [OF wf, where n = n]
      part_of_rows [OF wf disjI2, OF getOutboundByStatus_def [of Os_maybe_sent], where n = n] by blast
  then show ?thesis unfolding Reconcile(1) reconcile_result
    by (intro reconcile_pass_inv [OF assms(2)]) auto
next
  case Crash
  then show ?thesis using crash_inv [OF assms(2)] by simp
next
  case (Boot nowMs n)
  have wf: "wf_db (w_db w)" using assms(2) by (simp add: delivery_inv_def)
  note part = part_of_rows [OF wf disjI2, OF getOutboundByStatus_def [of Os_sending], where n = n]
  show ?thesis unfolding Boot(1)
    by (rule boot_inv [OF assms(2) Boot(2,3) part(1)]) (use part(2) in blast)
qed

lemma first_world_inv: "delivery_inv first_world"
  using wf_empty by (simp add: delivery_inv_def first_world_def drain_inv_def tracked_inv_def get_op_def
      empty_db_def MAX_OUTBOUND_REPLAY_ATTEMPTS_def)

lemma reachable_inv: "(delivery_step sha256 alert)\<^sup>*\<^sup>* first_world w \<Longrightarrow> delivery_inv w"
  by (induction rule: rtranclp_induct) (auto intro: first_world_inv step_keeps_inv)

text \<open>
  C8: No operation is handed to the messenger more than fifty times, whatever happens: tracked sends
  and the drain may wait for the messenger while other operations are created, echoes arrive, ambiguous
  operations are swept, reconciled and reset for another replay, and the process may crash at any of
  these points and start again.
\<close>

theorem at_most_fifty_sends:
  "(delivery_step sha256 alert)\<^sup>*\<^sup>* first_world w \<Longrightarrow> w_sends w k \<le> 50"
  using reachable_inv [of sha256 alert w] by (force simp: delivery_inv_def MAX_OUTBOUND_REPLAY_ATTEMPTS_def)

theorem at_most_fifty_sends_witness:
  "\<exists>w. (delivery_step Ledger.no_hash (\<lambda>_. True))\<^sup>*\<^sup>* first_world w \<and> w_sends w 1 = 1 \<and> w_sends w 1 \<le> 50"
proof -
  have "toConversationKey ''1555@s.whatsapp.net'' = Inr ''1555''" by code_simp
  then have "\<exists>d'. sendTracked_begin Ledger.no_hash ''1555@s.whatsapp.net'' ''hi'' sample_opts 1700000000000
      (w_db first_world) = (d', Inr 1)"
    by (simp add: sendTracked_begin_def createOutboundOp_def sample_opts_def insert_op_def Let_def
        first_world_def empty_db_def)
  then obtain d' where "sendTracked_begin Ledger.no_hash ''1555@s.whatsapp.net'' ''hi'' sample_opts 1700000000000
      (w_db first_world) = (d', Inr 1)" by blast
  then have "delivery_step Ledger.no_hash (\<lambda>_. True) first_world
      (count_send 1 (first_world\<lparr>w_db := d', w_tracked := 1 # w_tracked first_world\<rparr>))" by (rule Track)
  then obtain w where w: "(delivery_step Ledger.no_hash (\<lambda>_. True))\<^sup>*\<^sup>* first_world w"
    "w = count_send 1 (first_world\<lparr>w_db := d', w_tracked := 1 # w_tracked first_world\<rparr>)"
    using r_into_rtranclp [of "delivery_step Ledger.no_hash (\<lambda>_. True)" first_world] by blast
  have "w_sends w 1 = 1" by (simp add: w(2) count_send_def first_world_def)
  with w(1) at_most_fifty_sends [OF w(1), of 1] show ?thesis by blast
qed

end
