(* ===== verification/TurnQueue.thy ===== *)
theory TurnQueue
  imports Prelude "HOL-Library.Sublist"
begin

text \<open>
  The turn queue of an agent session (\<^verbatim>\<open>src/runtimes/agent/turn-queue.ts\<close>): a FIFO that hands one
  turn at a time to the provider, with a depth cap, a sticky halt, closing, and teardowns that can be
  rolled back. A turn is an object, so it is compared by \<open>qt_ref\<close>; the queue reads none of the
  fields left out. Awaits and callbacks split an operation: what runs in between is any other step.
  \<open>tq_calls\<close> is the trace of the callbacks made. The captured async context is left out.
\<close>

section \<open>State\<close>

record queued_turn =
  qt_ref :: nat
  qt_sourceMessageId :: string
  qt_conversationKey :: string
  qt_chatJid :: string
  qt_inboundSeq :: "int option"

datatype admission_state = Queued | Detached | Settling

datatype reject_reason = Queue_closed | Queue_halted | Queue_full | Scope_blocked_recovery

record teardown_receipt =
  tr_pending :: "queued_turn list"
  tr_closeEpoch :: nat
  tr_wasAccepting :: bool

text \<open>
  Where the drain loop is: not running, awaiting the processor, awaiting the error finalizer, inside
  the settlement callback of the turn it just finished, or about to take the next one.
\<close>

datatype loop_phase = Stopped | Running queued_turn | Finalizing queued_turn | Leaving queued_turn | Between

datatype callback = Call_processor queued_turn | Call_onProcessorError queued_turn
  | Call_onReject queued_turn reject_reason | Call_onSettled queued_turn | Call_onHalt

record turn_queue =
  tq_queue :: "queued_turn list"
  tq_admissions :: "nat \<rightharpoonup> admission_state"
  tq_activeTurns :: "nat set"
  tq_loop :: loop_phase
  tq_active :: "queued_turn option"
  tq_hasProcessor :: bool
  tq_hasFinalizer :: bool
  tq_accepting :: bool
  tq_closeEpoch :: nat
  tq_receipt :: "teardown_receipt option"
  tq_haltError :: "error option"
  tq_maxDepth :: "nat option"
  tq_calls :: "callback list"

definition isHalted :: "turn_queue \<Rightarrow> bool" where
  "isHalted q \<longleftrightarrow> tq_haltError q \<noteq> None"

definition isProcessing :: "turn_queue \<Rightarrow> bool" where
  "isProcessing q \<longleftrightarrow> tq_loop q \<noteq> Stopped"

definition pendingForChat :: "string \<Rightarrow> turn_queue \<Rightarrow> nat" where
  "pendingForChat jid q = length (filter (\<lambda>t. qt_chatJid t = jid) (tq_queue q))"

text \<open>\<open>others\<close> are the turns that other queues hold: the set of live admissions is shared.\<close>

definition new_queue :: "nat option \<Rightarrow> bool \<Rightarrow> nat set \<Rightarrow> turn_queue" where
  "new_queue maxDepth hasFinalizer others = \<lparr>tq_queue = [], tq_admissions = Map.empty,
     tq_activeTurns = others, tq_loop = Stopped, tq_active = None, tq_hasProcessor = False,
     tq_hasFinalizer = hasFinalizer, tq_accepting = True, tq_closeEpoch = 0, tq_receipt = None,
     tq_haltError = None, tq_maxDepth = maxDepth, tq_calls = []\<rparr>"

definition call :: "callback \<Rightarrow> turn_queue \<Rightarrow> turn_queue" where
  "call c q = q\<lparr>tq_calls := tq_calls q @ [c]\<rparr>"

section \<open>Admissions\<close>

definition captureQueuedAsyncContext :: "queued_turn \<Rightarrow> turn_queue \<Rightarrow> turn_queue" where
  "captureQueuedAsyncContext t q = q\<lparr>tq_admissions := (tq_admissions q)(qt_ref t \<mapsto> Queued),
     tq_activeTurns := insert (qt_ref t) (tq_activeTurns q)\<rparr>"

definition releaseQueuedTurnAdmission :: "queued_turn \<Rightarrow> turn_queue \<Rightarrow> turn_queue" where
  "releaseQueuedTurnAdmission t q = q\<lparr>tq_admissions := (tq_admissions q)(qt_ref t := None),
     tq_activeTurns := tq_activeTurns q - {qt_ref t}\<rparr>"

definition detachQueuedTurnAdmission :: "queued_turn \<Rightarrow> turn_queue \<Rightarrow> turn_queue \<times> unit result" where
  "detachQueuedTurnAdmission t q =
     (if tq_admissions q (qt_ref t) \<noteq> Some Queued \<or> qt_ref t \<notin> tq_activeTurns q
      then (q, Inl (Error ''TurnQueue detached turn is missing its exact admission''))
      else (q\<lparr>tq_admissions := (tq_admissions q)(qt_ref t \<mapsto> Detached)\<rparr>, Inr ()))"

section \<open>The drain loop\<close>

text \<open>The head of the loop: the next turn is taken and its processor called, or the loop ends.\<close>

definition drain_next :: "turn_queue \<Rightarrow> turn_queue" where
  "drain_next q = (case tq_queue q of [] \<Rightarrow> q\<lparr>tq_loop := Stopped\<rparr>
     | t # ts \<Rightarrow> call (Call_processor t) (q\<lparr>tq_queue := ts, tq_active := Some t, tq_loop := Running t\<rparr>))"

definition drain :: "turn_queue \<Rightarrow> turn_queue" where
  "drain q = (if isProcessing q \<or> \<not> tq_hasProcessor q then q else drain_next q)"

definition setProcessor :: "turn_queue \<Rightarrow> turn_queue" where
  "setProcessor q = (let q' = q\<lparr>tq_hasProcessor := True\<rparr> in if isHalted q then q' else drain q')"

definition halt :: "error \<Rightarrow> turn_queue \<Rightarrow> turn_queue" where
  "halt e q = (if isHalted q then q else call Call_onHalt (q\<lparr>tq_haltError := Some e\<rparr>))"

definition settle_begin :: "queued_turn \<Rightarrow> turn_queue \<Rightarrow> turn_queue" where
  "settle_begin t q = call (Call_onSettled t) q"

text \<open>\<^verbatim>\<open>processQueuedTurn\<close> after the processor settled, and after the error finalizer did.\<close>

definition inactive :: "queued_turn \<Rightarrow> turn_queue \<Rightarrow> turn_queue" where
  "inactive t q = (if map_option qt_ref (tq_active q) = Some (qt_ref t) then q\<lparr>tq_active := None\<rparr> else q)"

definition turn_finalized :: "queued_turn \<Rightarrow> turn_queue \<Rightarrow> turn_queue" where
  "turn_finalized t q = settle_begin t (inactive t (q\<lparr>tq_loop := Leaving t\<rparr>))"

definition turn_halts :: "queued_turn \<Rightarrow> error \<Rightarrow> turn_queue \<Rightarrow> turn_queue" where
  "turn_halts t e q = inactive t (halt e (q\<lparr>tq_loop := Stopped\<rparr>))"

definition processor_settles :: "queued_turn \<Rightarrow> unit result \<Rightarrow> turn_queue \<Rightarrow> turn_queue" where
  "processor_settles t res q = (case res of Inr _ \<Rightarrow> turn_finalized t q
     | Inl e \<Rightarrow> if \<not> tq_hasFinalizer q then turn_halts t e q
        else call (Call_onProcessorError t) (q\<lparr>tq_loop := Finalizing t\<rparr>))"

definition finalizer_settles :: "queued_turn \<Rightarrow> unit result \<Rightarrow> turn_queue \<Rightarrow> turn_queue" where
  "finalizer_settles t res q = (case res of Inr _ \<Rightarrow> turn_finalized t q | Inl e \<Rightarrow> turn_halts t e q)"

definition settle_ends :: "queued_turn \<Rightarrow> turn_queue \<Rightarrow> turn_queue" where
  "settle_ends t q = releaseQueuedTurnAdmission t (q\<lparr>tq_loop := Between\<rparr>)"

section \<open>Operations\<close>

datatype enqueue_outcome = Enq_already_live | Enq_rejected reject_reason | Enq_accepted

definition reject :: "queued_turn \<Rightarrow> reject_reason \<Rightarrow> turn_queue \<Rightarrow> turn_queue \<times> enqueue_outcome" where
  "reject t reason q = (call (Call_onReject t reason) q, Enq_rejected reason)"

definition enqueue :: "queued_turn \<Rightarrow> turn_queue \<Rightarrow> turn_queue \<times> enqueue_outcome" where
  "enqueue t q0 = (if qt_ref t \<in> tq_activeTurns q0 then (q0, Enq_already_live)
     else let q = captureQueuedAsyncContext t q0 in
       if \<not> tq_accepting q then reject t Queue_closed q
       else if isHalted q then reject t Queue_halted q
       else if (case tq_maxDepth q of None \<Rightarrow> False | Some n \<Rightarrow> length (tq_queue q) \<ge> n) then reject t Queue_full q
       else (drain (q\<lparr>tq_queue := tq_queue q @ [t]\<rparr>), Enq_accepted))"

text \<open>A rejected turn is settled when its finalization succeeds, and halts the queue when it fails.\<close>

definition haltRejectedFinalization :: "error \<Rightarrow> turn_queue \<Rightarrow> turn_queue" where
  "haltRejectedFinalization e = halt e"

fun detach_all :: "queued_turn list \<Rightarrow> turn_queue \<Rightarrow> turn_queue \<times> unit result" where
  "detach_all [] q = (q, Inr ())"
| "detach_all (t # ts) q = (case detachQueuedTurnAdmission t q of (q', Inl e) \<Rightarrow> (q', Inl e)
     | (q', Inr _) \<Rightarrow> detach_all ts q')"

definition closeAndTakePendingTurns :: "turn_queue \<Rightarrow> turn_queue \<times> queued_turn list result" where
  "closeAndTakePendingTurns q =
     (if tq_receipt q \<noteq> None
      then (q, Inl (Error ''Cannot close TurnQueue while a teardown transaction is active''))
      else case detach_all (tq_queue q) (q\<lparr>tq_accepting := False, tq_closeEpoch := tq_closeEpoch q + 1, tq_queue := []\<rparr>) of
          (q', Inl e) \<Rightarrow> (q', Inl e) | (q', Inr _) \<Rightarrow> (q', Inr (tq_queue q)))"

text \<open>\<open>onHalt\<close> is what the halt callback throws, if the queue was not halted before.\<close>

definition haltAndTakePendingTurns ::
  "error \<Rightarrow> error option \<Rightarrow> turn_queue \<Rightarrow> turn_queue \<times> queued_turn list result" where
  "haltAndTakePendingTurns e onHalt q = (case onHalt of
     Some x \<Rightarrow> if isHalted q then closeAndTakePendingTurns q else (halt e q, Inl x)
   | None \<Rightarrow> closeAndTakePendingTurns (halt e q))"

definition settleDetachedTurn :: "queued_turn \<Rightarrow> turn_queue \<Rightarrow> turn_queue \<times> bool" where
  "settleDetachedTurn t q =
     (if tq_admissions q (qt_ref t) \<noteq> Some Detached \<or> qt_ref t \<notin> tq_activeTurns q then (q, False)
      else (settle_begin t (q\<lparr>tq_admissions := (tq_admissions q)(qt_ref t \<mapsto> Settling)\<rparr>), True))"

definition beginTeardown :: "turn_queue \<Rightarrow> turn_queue \<times> teardown_receipt result" where
  "beginTeardown q = (if tq_receipt q \<noteq> None
     then (q, Inl (Error ''Cannot overlap TurnQueue teardown transactions''))
     else let r = \<lparr>tr_pending = tq_queue q, tr_closeEpoch = tq_closeEpoch q + 1, tr_wasAccepting = tq_accepting q\<rparr> in
       (q\<lparr>tq_queue := [], tq_closeEpoch := tq_closeEpoch q + 1, tq_accepting := False, tq_receipt := Some r\<rparr>, Inr r))"

definition current_receipt :: "teardown_receipt \<Rightarrow> turn_queue \<Rightarrow> bool" where
  "current_receipt r q \<longleftrightarrow> tq_receipt q = Some r \<and> tq_closeEpoch q = tr_closeEpoch r"

definition commitTeardown :: "teardown_receipt \<Rightarrow> turn_queue \<Rightarrow> turn_queue \<times> unit result" where
  "commitTeardown r q = (if \<not> current_receipt r q
     then (q, Inl (Error ''TurnQueue teardown receipt is stale or already consumed''))
     else (fold releaseQueuedTurnAdmission (tr_pending r) (q\<lparr>tq_receipt := None\<rparr>), Inr ()))"

text \<open>The turns to restore, in the order of the receipt, and the counts nothing was found for.\<close>

definition turn_counts :: "queued_turn list \<Rightarrow> nat \<Rightarrow> nat" where
  "turn_counts ts = fold (\<lambda>t c. c(qt_ref t := c (qt_ref t) + 1)) ts (\<lambda>_. 0)"

fun take_unresolved :: "queued_turn list \<Rightarrow> (nat \<Rightarrow> nat) \<Rightarrow> queued_turn list \<times> (nat \<Rightarrow> nat)" where
  "take_unresolved [] c = ([], c)"
| "take_unresolved (t # ts) c = (if c (qt_ref t) = 0 then take_unresolved ts c
     else case take_unresolved ts (c(qt_ref t := c (qt_ref t) - 1)) of (rs, c') \<Rightarrow> (t # rs, c'))"

definition rollbackFailedTeardown ::
  "teardown_receipt \<Rightarrow> queued_turn list \<Rightarrow> bool \<Rightarrow> turn_queue \<Rightarrow> turn_queue \<times> bool result" where
  "rollbackFailedTeardown r unresolved exactQueueOwned q =
     (if \<not> current_receipt r q \<or> \<not> exactQueueOwned
      then (q, Inl (Error ''TurnQueue teardown receipt is stale or already consumed''))
      else case take_unresolved (tr_pending r) (turn_counts unresolved) of (restored, missing) \<Rightarrow>
        if list_ex (\<lambda>t. missing (qt_ref t) \<noteq> 0) unresolved \<or> length restored \<noteq> length unresolved
        then (q, Inl (Error ''TurnQueue teardown rollback contains a turn outside its receipt''))
        else if list_ex (\<lambda>t. map_option qt_ref (tq_active q) = Some (qt_ref t)
               \<or> qt_ref t \<in> qt_ref ` set (tq_queue q)) restored
        then (q, Inl (Error ''TurnQueue teardown rollback would duplicate an owned turn''))
        else let q1 = fold releaseQueuedTurnAdmission
                   (filter (\<lambda>t. qt_ref t \<notin> qt_ref ` set restored) (tr_pending r)) (q\<lparr>tq_receipt := None\<rparr>);
                 q2 = q1\<lparr>tq_queue := restored @ tq_queue q1\<rparr> in
          if tr_wasAccepting r \<and> tq_closeEpoch q2 = tr_closeEpoch r
          then (let q3 = q2\<lparr>tq_accepting := True\<rparr> in (if isHalted q3 then q3 else drain q3, Inr True))
          else (q2, Inr False))"

section \<open>The queue among its callers\<close>

text \<open>
  Turns the queue is not holding in its list: rejected turns whose finalization runs, turns inside
  their settlement callback, turns taken by a close, and turns that a halt left unsettled. The last
  three components are for the statements only: what was accepted, in order, and how often a turn was
  admitted and handed over by a teardown. A refused call changes nothing and is no step.
\<close>

record queue_world =
  qw_q :: turn_queue
  qw_rejecting :: "queued_turn list"
  qw_settling :: "queued_turn list"
  qw_detached :: "queued_turn list"
  qw_stuck :: "queued_turn list"
  qw_accepted :: "queued_turn list"
  qw_admitted :: "nat \<Rightarrow> nat"
  qw_handed :: "nat \<Rightarrow> nat"

definition first_queue_world :: "nat option \<Rightarrow> bool \<Rightarrow> nat set \<Rightarrow> queue_world" where
  "first_queue_world maxDepth hasFinalizer others = \<lparr>qw_q = new_queue maxDepth hasFinalizer others,
     qw_rejecting = [], qw_settling = [], qw_detached = [], qw_stuck = [], qw_accepted = [],
     qw_admitted = (\<lambda>_. 0), qw_handed = (\<lambda>_. 0)\<rparr>"

definition without :: "queued_turn \<Rightarrow> queued_turn list \<Rightarrow> queued_turn list" where
  "without t ts = filter (\<lambda>x. qt_ref x \<noteq> qt_ref t) ts"

definition admit_world :: "queued_turn \<Rightarrow> queue_world \<Rightarrow> queue_world" where
  "admit_world t w = w\<lparr>qw_admitted := (qw_admitted w)(qt_ref t := qw_admitted w (qt_ref t) + 1)\<rparr>"

definition after_loop :: "queued_turn \<Rightarrow> turn_queue \<Rightarrow> queue_world \<Rightarrow> queue_world" where
  "after_loop t q w = w\<lparr>qw_q := q, qw_stuck := (if tq_loop q = Stopped then t # qw_stuck w else qw_stuck w)\<rparr>"

definition hand_over :: "queued_turn list \<Rightarrow> turn_queue \<Rightarrow> queue_world \<Rightarrow> queue_world" where
  "hand_over ts q w = w\<lparr>qw_handed := (\<lambda>n. qw_handed w n
     + (if n \<in> qt_ref ` set ts \<and> tq_admissions q n = None then 1 else 0)), qw_q := q\<rparr>"

inductive queue_step :: "queue_world \<Rightarrow> queue_world \<Rightarrow> bool" where
  Accepts: "enqueue t (qw_q w) = (q, Enq_accepted) \<Longrightarrow>
    queue_step w (admit_world t (w\<lparr>qw_q := q, qw_accepted := qw_accepted w @ [t]\<rparr>))"
| Rejects: "enqueue t (qw_q w) = (q, Enq_rejected r) \<Longrightarrow>
    queue_step w (admit_world t (w\<lparr>qw_q := q, qw_rejecting := t # qw_rejecting w\<rparr>))"
| Processor_set: "queue_step w (w\<lparr>qw_q := setProcessor (qw_q w)\<rparr>)"
| Processor_settles: "tq_loop (qw_q w) = Running t \<Longrightarrow>
    queue_step w (after_loop t (processor_settles t res (qw_q w)) w)"
| Finalizer_settles: "tq_loop (qw_q w) = Finalizing t \<Longrightarrow>
    queue_step w (after_loop t (finalizer_settles t res (qw_q w)) w)"
| Settlement_ends: "tq_loop (qw_q w) = Leaving t \<Longrightarrow> queue_step w (w\<lparr>qw_q := settle_ends t (qw_q w)\<rparr>)"
| Loop_continues: "tq_loop (qw_q w) = Between \<Longrightarrow> queue_step w (w\<lparr>qw_q := drain_next (qw_q w)\<rparr>)"
| Rejection_finalized: "t \<in> set (qw_rejecting w) \<Longrightarrow> queue_step w (w\<lparr>qw_q := settle_begin t (qw_q w),
    qw_rejecting := without t (qw_rejecting w), qw_settling := t # qw_settling w\<rparr>)"
| Rejection_fails: "t \<in> set (qw_rejecting w) \<Longrightarrow> queue_step w (w\<lparr>qw_q := haltRejectedFinalization e (qw_q w),
    qw_rejecting := without t (qw_rejecting w), qw_stuck := t # qw_stuck w\<rparr>)"
| Callback_ends: "t \<in> set (qw_settling w) \<Longrightarrow>
    queue_step w (w\<lparr>qw_q := releaseQueuedTurnAdmission t (qw_q w), qw_settling := without t (qw_settling w)\<rparr>)"
| Closes: "closeAndTakePendingTurns (qw_q w) = (q, Inr ts) \<Longrightarrow>
    queue_step w (w\<lparr>qw_q := q, qw_detached := ts @ qw_detached w\<rparr>)"
| Halts: "haltAndTakePendingTurns e onHalt (qw_q w) = (q, res) \<Longrightarrow>
    queue_step w (w\<lparr>qw_q := q, qw_detached := (case res of Inr ts \<Rightarrow> ts | Inl _ \<Rightarrow> []) @ qw_detached w\<rparr>)"
| Settles_detached: "settleDetachedTurn t (qw_q w) = (q, True) \<Longrightarrow>
    queue_step w (w\<lparr>qw_q := q, qw_detached := without t (qw_detached w), qw_settling := t # qw_settling w\<rparr>)"
| Teardown_begins: "beginTeardown (qw_q w) = (q, Inr r) \<Longrightarrow> queue_step w (w\<lparr>qw_q := q\<rparr>)"
| Teardown_commits: "commitTeardown r (qw_q w) = (q, Inr u) \<Longrightarrow> queue_step w (hand_over (tr_pending r) q w)"
| Teardown_rolls_back: "rollbackFailedTeardown r unresolved exactQueueOwned (qw_q w) = (q, Inr b) \<Longrightarrow>
    queue_step w (hand_over (tr_pending r) q w)"
| Elsewhere_admits: "n \<notin> tq_activeTurns (qw_q w) \<Longrightarrow>
    queue_step w (w\<lparr>qw_q := (qw_q w)\<lparr>tq_activeTurns := insert n (tq_activeTurns (qw_q w))\<rparr>\<rparr>)"
| Elsewhere_releases: "tq_admissions (qw_q w) n = None \<Longrightarrow>
    queue_step w (w\<lparr>qw_q := (qw_q w)\<lparr>tq_activeTurns := tq_activeTurns (qw_q w) - {n}\<rparr>\<rparr>)"

section \<open>The invariant\<close>

definition cnt :: "queued_turn list \<Rightarrow> nat \<Rightarrow> nat" where
  "cnt ts n = count_list (map qt_ref ts) n"

lemma cnt_simps [simp]:
  "cnt [] n = 0" "cnt (t # ts) n = (if qt_ref t = n then 1 else 0) + cnt ts n" "cnt (xs @ ys) n = cnt xs n + cnt ys n"
  by (simp_all add: cnt_def)

lemma cnt_without [simp]: "cnt (without t ts) n = (if n = qt_ref t then 0 else cnt ts n)"
  by (induction ts) (auto simp: without_def)

lemma cnt_pos: "0 < cnt ts n \<longleftrightarrow> n \<in> qt_ref ` set ts"
  by (induction ts) auto

lemma cnt_mem: "t \<in> set ts \<Longrightarrow> 0 < cnt ts (qt_ref t)"
  by (simp add: cnt_pos)

fun phase_turns :: "loop_phase \<Rightarrow> queued_turn list" where
  "phase_turns Stopped = []" | "phase_turns (Running t) = [t]" | "phase_turns (Finalizing t) = [t]"
| "phase_turns (Leaving t) = [t]" | "phase_turns Between = []"

fun phase_leaving :: "loop_phase \<Rightarrow> queued_turn list" where
  "phase_leaving (Leaving t) = [t]" | "phase_leaving _ = []"

fun receipt_turns :: "teardown_receipt option \<Rightarrow> queued_turn list" where
  "receipt_turns None = []" | "receipt_turns (Some r) = tr_pending r"

definition held :: "queue_world \<Rightarrow> queued_turn list" where
  "held w = phase_turns (tq_loop (qw_q w)) @ tq_queue (qw_q w) @ receipt_turns (tq_receipt (qw_q w))
     @ qw_rejecting w @ qw_settling w @ qw_detached w @ qw_stuck w"

fun settled_calls :: "callback list \<Rightarrow> nat \<Rightarrow> nat" where
  "settled_calls [] n = 0"
| "settled_calls (c # cs) n = (case c of Call_onSettled t \<Rightarrow> if qt_ref t = n then 1 else 0 | _ \<Rightarrow> 0) + settled_calls cs n"

lemma settled_calls_append [simp]: "settled_calls (xs @ ys) n = settled_calls xs n + settled_calls ys n"
  by (induction xs) (auto split: callback.split)

text \<open>
  Where an admitted turn is, and the balance of its admissions: each ended in a settlement callback or
  was handed over, or the turn is held and its callback was not made yet.
\<close>

definition owned_at :: "queue_world \<Rightarrow> nat \<Rightarrow> bool" where
  "owned_at w n \<longleftrightarrow> cnt (held w) n = (if tq_admissions (qw_q w) n = None then 0 else 1)
     \<and> (tq_admissions (qw_q w) n \<noteq> None \<longrightarrow> n \<in> tq_activeTurns (qw_q w))
     \<and> (tq_admissions (qw_q w) n = Some Detached \<longleftrightarrow> 0 < cnt (qw_detached w) n)
     \<and> (0 < cnt (tq_queue (qw_q w) @ receipt_turns (tq_receipt (qw_q w))) n \<longrightarrow> tq_admissions (qw_q w) n = Some Queued)
     \<and> qw_admitted w n + cnt (phase_leaving (tq_loop (qw_q w)) @ qw_settling w) n
         = settled_calls (tq_calls (qw_q w)) n + qw_handed w n + cnt (held w) n"

definition owned :: "queue_world \<Rightarrow> bool" where
  "owned w \<longleftrightarrow> (\<forall>n. owned_at w n)"

definition shaped :: "turn_queue \<Rightarrow> bool" where
  "shaped q \<longleftrightarrow> (tq_receipt q \<noteq> None \<longrightarrow> tq_queue q = [] \<and> \<not> tq_accepting q)
     \<and> (tq_loop q \<noteq> Stopped \<longrightarrow> tq_hasProcessor q)
     \<and> tq_active q = (case tq_loop q of Running t \<Rightarrow> Some t | Finalizing t \<Rightarrow> Some t | _ \<Rightarrow> None)
     \<and> (\<forall>n. tq_maxDepth q = Some n \<longrightarrow> length (tq_queue q @ receipt_turns (tq_receipt q)) \<le> n)"

text \<open>An open queue with a processor that was not halted never rests while turns are waiting.\<close>

definition awake :: "turn_queue \<Rightarrow> bool" where
  "awake q \<longleftrightarrow> (tq_accepting q \<and> tq_hasProcessor q \<and> \<not> isHalted q \<and> tq_queue q \<noteq> [] \<longrightarrow> isProcessing q)"

lemmas owned_defs = owned_at_def held_def

lemma drain_next_stopped: "drain_next (q\<lparr>tq_loop := Stopped\<rparr>) = drain_next q"
  by (simp add: drain_next_def call_def split: list.split)

lemma drain_next_owned:
  assumes "owned_at (w\<lparr>qw_q := q\<rparr>) n" "tq_loop q = Stopped"
  shows "owned_at (w\<lparr>qw_q := drain_next q\<rparr>) n"
  using assms by (cases "tq_queue q") (auto simp: owned_defs drain_next_def call_def)

lemma drain_owned: "owned_at (w\<lparr>qw_q := q\<rparr>) n \<Longrightarrow> owned_at (w\<lparr>qw_q := drain q\<rparr>) n"
  using drain_next_owned by (auto simp: drain_def isProcessing_def)

lemma inactive_fields [simp]:
  "tq_loop (inactive t q) = tq_loop q" "tq_queue (inactive t q) = tq_queue q" "tq_receipt (inactive t q) = tq_receipt q"
  "tq_admissions (inactive t q) = tq_admissions q" "tq_activeTurns (inactive t q) = tq_activeTurns q"
  "tq_calls (inactive t q) = tq_calls q" "tq_haltError (inactive t q) = tq_haltError q"
  "tq_hasProcessor (inactive t q) = tq_hasProcessor q" "tq_accepting (inactive t q) = tq_accepting q"
  "tq_maxDepth (inactive t q) = tq_maxDepth q" "tq_closeEpoch (inactive t q) = tq_closeEpoch q"
  by (simp_all add: inactive_def)

lemma halt_fields [simp]:
  "tq_loop (halt e q) = tq_loop q" "tq_queue (halt e q) = tq_queue q" "tq_receipt (halt e q) = tq_receipt q"
  "tq_admissions (halt e q) = tq_admissions q" "tq_activeTurns (halt e q) = tq_activeTurns q"
  "settled_calls (tq_calls (halt e q)) = settled_calls (tq_calls q)" "isHalted (halt e q)"
  "tq_hasProcessor (halt e q) = tq_hasProcessor q" "tq_accepting (halt e q) = tq_accepting q"
  "tq_maxDepth (halt e q) = tq_maxDepth q" "tq_active (halt e q) = tq_active q" "tq_closeEpoch (halt e q) = tq_closeEpoch q"
  by (auto simp: halt_def call_def isHalted_def fun_eq_iff)

lemma isHalted_inactive [simp]: "isHalted (inactive t q) = isHalted q"
  by (simp add: isHalted_def)

lemma isHalted_update [simp]: "isHalted (q\<lparr>tq_loop := l\<rparr>) = isHalted q" "isHalted (q\<lparr>tq_active := a\<rparr>) = isHalted q"
  by (simp_all add: isHalted_def)

lemma finalized_owned:
  assumes "owned_at w n" "tq_loop (qw_q w) = Running t \<or> tq_loop (qw_q w) = Finalizing t"
  shows "owned_at (after_loop t (turn_finalized t (qw_q w)) w) n"
  using assms by (auto simp: owned_defs turn_finalized_def settle_begin_def call_def after_loop_def split: if_splits)

lemma halts_owned:
  assumes "owned_at w n" "tq_loop (qw_q w) = Running t \<or> tq_loop (qw_q w) = Finalizing t"
  shows "owned_at (after_loop t (turn_halts t e (qw_q w)) w) n"
  using assms by (auto simp: owned_defs turn_halts_def after_loop_def split: if_splits)

lemma captured_owned:
  assumes "owned_at w n" "n \<notin> tq_activeTurns (qw_q w)"
  shows "tq_admissions (qw_q w) n = None" "cnt (held w) n = 0"
  using assms by (auto simp: owned_at_def)

lemma accepted_queue:
  assumes "enqueue t q = (q', Enq_accepted)"
  shows "qt_ref t \<notin> tq_activeTurns q" "tq_accepting q" "\<not> isHalted q"
    "\<forall>n. tq_maxDepth q = Some n \<longrightarrow> length (tq_queue q) < n"
    "q' = drain ((captureQueuedAsyncContext t q)\<lparr>tq_queue := tq_queue q @ [t]\<rparr>)"
  using assms by (auto simp: enqueue_def reject_def Let_def captureQueuedAsyncContext_def isHalted_def
      split: if_splits option.splits)

lemma rejected_queue:
  assumes "enqueue t q = (q', Enq_rejected r)"
  shows "qt_ref t \<notin> tq_activeTurns q" "q' = call (Call_onReject t r) (captureQueuedAsyncContext t q)"
  using assms by (auto simp: enqueue_def reject_def Let_def captureQueuedAsyncContext_def split: if_splits)

lemma accepts_owned:
  assumes "owned w" "enqueue t (qw_q w) = (q, Enq_accepted)"
  shows "owned_at (admit_world t (w\<lparr>qw_q := q, qw_accepted := qw_accepted w @ [t]\<rparr>)) n"
proof -
  note q = accepted_queue [OF assms(2)]
  have at: "owned_at w n" using assms(1) by (simp add: owned_def)
  have "owned_at ((admit_world t (w\<lparr>qw_accepted := qw_accepted w @ [t]\<rparr>))
      \<lparr>qw_q := (captureQueuedAsyncContext t (qw_q w))\<lparr>tq_queue := tq_queue (qw_q w) @ [t]\<rparr>\<rparr>) n"
  proof (cases "n = qt_ref t")
    case True
    with captured_owned [OF at] at q(1) show ?thesis
      by (simp add: owned_defs admit_world_def captureQueuedAsyncContext_def)
  next
    case False
    with at show ?thesis by (simp add: owned_defs admit_world_def captureQueuedAsyncContext_def)
  qed
  from drain_owned [OF this] show ?thesis by (simp add: q(5) admit_world_def owned_defs)
qed

lemma rejects_owned:
  assumes "owned w" "enqueue t (qw_q w) = (q, Enq_rejected r)"
  shows "owned_at (admit_world t (w\<lparr>qw_q := q, qw_rejecting := t # qw_rejecting w\<rparr>)) n"
proof -
  note q = rejected_queue [OF assms(2)]
  have at: "owned_at w n" using assms(1) by (simp add: owned_def)
  show ?thesis
  proof (cases "n = qt_ref t")
    case True
    with captured_owned [OF at] at q show ?thesis
      by (simp add: owned_defs admit_world_def captureQueuedAsyncContext_def call_def)
  next
    case False
    with at q(2) show ?thesis by (simp add: owned_defs admit_world_def captureQueuedAsyncContext_def call_def)
  qed
qed

lemma settlement_ends_owned:
  assumes "owned_at w n" "tq_loop (qw_q w) = Leaving t"
  shows "owned_at (w\<lparr>qw_q := settle_ends t (qw_q w)\<rparr>) n"
  using assms by (auto simp: owned_defs settle_ends_def releaseQueuedTurnAdmission_def split: if_splits)

lemma loop_continues_owned:
  assumes "owned_at w n" "tq_loop (qw_q w) = Between"
  shows "owned_at (w\<lparr>qw_q := drain_next (qw_q w)\<rparr>) n"
proof -
  have "owned_at (w\<lparr>qw_q := (qw_q w)\<lparr>tq_loop := Stopped\<rparr>\<rparr>) n" using assms by (simp add: owned_defs)
  from drain_next_owned [OF this] show ?thesis by (simp add: drain_next_stopped)
qed

lemma rejection_ends_owned:
  assumes "owned_at w n" "t \<in> set (qw_rejecting w)"
  shows "owned_at (w\<lparr>qw_q := settle_begin t (qw_q w), qw_rejecting := without t (qw_rejecting w),
      qw_settling := t # qw_settling w\<rparr>) n"
    "owned_at (w\<lparr>qw_q := halt e (qw_q w), qw_rejecting := without t (qw_rejecting w), qw_stuck := t # qw_stuck w\<rparr>) n"
  using assms(1) cnt_mem [OF assms(2)] by (auto simp: owned_defs settle_begin_def call_def split: if_splits)

lemma callback_ends_owned:
  assumes "owned_at w n" "t \<in> set (qw_settling w)"
  shows "owned_at (w\<lparr>qw_q := releaseQueuedTurnAdmission t (qw_q w), qw_settling := without t (qw_settling w)\<rparr>) n"
  using assms(1) cnt_mem [OF assms(2)] by (auto simp: owned_defs releaseQueuedTurnAdmission_def split: if_splits)

lemma cnt_distinct: "\<forall>n. cnt ts n \<le> 1 \<Longrightarrow> distinct (map qt_ref ts)"
proof (induction ts)
  case (Cons t ts)
  have "cnt ts n \<le> cnt (t # ts) n" for n by simp
  with Cons.prems have "\<forall>n. cnt ts n \<le> 1" using order_trans by blast
  moreover have "cnt ts (qt_ref t) = 0" using spec [OF Cons.prems, of "qt_ref t"] by simp
  ultimately show ?case using Cons.IH cnt_pos [of ts "qt_ref t"] by auto
qed simp

lemma detach_all_ok:
  assumes "distinct (map qt_ref ts)" "\<forall>t \<in> set ts. tq_admissions q (qt_ref t) = Some Queued \<and> qt_ref t \<in> tq_activeTurns q"
  shows "detach_all ts q = (q\<lparr>tq_admissions := (\<lambda>n. if n \<in> qt_ref ` set ts then Some Detached
    else tq_admissions q n)\<rparr>, Inr ())"
  using assms
proof (induction ts arbitrary: q)
  case (Cons t ts)
  let ?q = "q\<lparr>tq_admissions := (tq_admissions q)(qt_ref t \<mapsto> Detached)\<rparr>"
  have "detach_all ts ?q = (?q\<lparr>tq_admissions := (\<lambda>n. if n \<in> qt_ref ` set ts then Some Detached
    else tq_admissions ?q n)\<rparr>, Inr ())"
    by (rule Cons.IH) (use Cons.prems in \<open>auto simp: image_iff\<close>)
  with Cons.prems show ?case by (simp add: detachQueuedTurnAdmission_def fun_eq_iff)
qed simp

definition closed_queue :: "turn_queue \<Rightarrow> turn_queue" where
  "closed_queue q = q\<lparr>tq_accepting := False, tq_closeEpoch := tq_closeEpoch q + 1, tq_queue := [],
     tq_admissions := (\<lambda>n. if n \<in> qt_ref ` set (tq_queue q) then Some Detached else tq_admissions q n)\<rparr>"

lemma queue_admissions:
  assumes "owned w"
  shows "distinct (map qt_ref (tq_queue (qw_q w) @ receipt_turns (tq_receipt (qw_q w))))"
    "t \<in> set (tq_queue (qw_q w) @ receipt_turns (tq_receipt (qw_q w))) \<Longrightarrow>
      tq_admissions (qw_q w) (qt_ref t) = Some Queued \<and> qt_ref t \<in> tq_activeTurns (qw_q w)"
proof -
  have at: "owned_at w n" for n using assms by (simp add: owned_def)
  have "cnt (tq_queue (qw_q w) @ receipt_turns (tq_receipt (qw_q w))) n \<le> 1" for n
    using at [of n] by (auto simp: owned_defs split: if_splits)
  then show "distinct (map qt_ref (tq_queue (qw_q w) @ receipt_turns (tq_receipt (qw_q w))))"
    by (intro cnt_distinct) blast
  assume "t \<in> set (tq_queue (qw_q w) @ receipt_turns (tq_receipt (qw_q w)))"
  from cnt_mem [OF this] at [of "qt_ref t"]
  show "tq_admissions (qw_q w) (qt_ref t) = Some Queued \<and> qt_ref t \<in> tq_activeTurns (qw_q w)"
    unfolding owned_at_def by blast
qed

lemma close_result:
  assumes "owned w" "tq_receipt (qw_q w) = None"
  shows "closeAndTakePendingTurns (qw_q w) = (closed_queue (qw_q w), Inr (tq_queue (qw_q w)))"
  using assms(2) queue_admissions [OF assms(1)]
  by (simp add: closeAndTakePendingTurns_def detach_all_ok closed_queue_def cong: if_cong)

lemma close_owned:
  assumes "owned_at w n" "tq_receipt (qw_q w) = None"
  shows "owned_at (w\<lparr>qw_q := closed_queue (qw_q w), qw_detached := tq_queue (qw_q w) @ qw_detached w\<rparr>) n"
  using assms cnt_pos [of "tq_queue (qw_q w)" n] by (auto simp: owned_defs closed_queue_def split: if_splits)

lemma closes_owned:
  assumes "owned w" "closeAndTakePendingTurns (qw_q w) = (q, res)"
  shows "owned_at (w\<lparr>qw_q := q, qw_detached := (case res of Inr ts \<Rightarrow> ts | Inl _ \<Rightarrow> []) @ qw_detached w\<rparr>) n"
proof (cases "tq_receipt (qw_q w)")
  case None
  from close_result [OF assms(1) None] assms(2) close_owned [OF _ None, of n] assms(1)
  show ?thesis by (auto simp: owned_def)
next
  case (Some r)
  with assms show ?thesis by (auto simp: closeAndTakePendingTurns_def owned_def)
qed

lemma halt_step_owned: "owned w \<Longrightarrow> owned (w\<lparr>qw_q := halt e (qw_q w)\<rparr>)"
proof (unfold owned_def, rule allI)
  fix n assume "\<forall>n. owned_at w n"
  then have "owned_at w n" by blast
  then show "owned_at (w\<lparr>qw_q := halt e (qw_q w)\<rparr>) n" by (auto simp: owned_defs split: if_splits)
qed

lemma halts_close_owned:
  assumes "owned w" "haltAndTakePendingTurns e onHalt (qw_q w) = (q, res)"
  shows "owned_at (w\<lparr>qw_q := q, qw_detached := (case res of Inr ts \<Rightarrow> ts | Inl _ \<Rightarrow> []) @ qw_detached w\<rparr>) n"
proof -
  have "owned_at (w\<lparr>qw_q := q, qw_detached := (case res of Inr ts \<Rightarrow> ts | Inl _ \<Rightarrow> []) @ qw_detached w\<rparr>) n"
    if "closeAndTakePendingTurns (halt e (qw_q w)) = (q, res)"
    using closes_owned [OF halt_step_owned [OF assms(1)], of e q res n] that by simp
  moreover have "halt e (qw_q w) = qw_q w" if "isHalted (qw_q w)" using that by (simp add: halt_def)
  moreover have "owned_at (w\<lparr>qw_q := halt e (qw_q w)\<rparr>) n" using halt_step_owned [OF assms(1)] by (simp add: owned_def)
  ultimately show ?thesis using assms(2)
    by (auto simp: haltAndTakePendingTurns_def split: option.splits if_splits)
qed

lemma settles_detached_owned:
  assumes "owned_at w n" "settleDetachedTurn t (qw_q w) = (q, True)"
  shows "owned_at (w\<lparr>qw_q := q, qw_detached := without t (qw_detached w), qw_settling := t # qw_settling w\<rparr>) n"
  using assms by (cases "n = qt_ref t")
    (auto simp: owned_defs settleDetachedTurn_def settle_begin_def call_def split: if_splits)

lemma teardown_begins_owned:
  assumes "owned_at w n" "beginTeardown (qw_q w) = (q, Inr r)"
  shows "owned_at (w\<lparr>qw_q := q\<rparr>) n"
  using assms by (auto simp: owned_defs beginTeardown_def Let_def split: if_splits)

lemma release_all:
  "fold releaseQueuedTurnAdmission ts q = q\<lparr>tq_admissions := (\<lambda>n. if n \<in> qt_ref ` set ts then None
     else tq_admissions q n), tq_activeTurns := tq_activeTurns q - qt_ref ` set ts\<rparr>"
proof (induction ts arbitrary: q)
  case (Cons t ts)
  have a: "(\<lambda>n. if n \<in> qt_ref ` set ts then None else tq_admissions (releaseQueuedTurnAdmission t q) n)
      = (\<lambda>n. if n \<in> qt_ref ` set (t # ts) then None else tq_admissions q n)"
    by (auto simp: releaseQueuedTurnAdmission_def fun_eq_iff)
  have b: "tq_activeTurns (releaseQueuedTurnAdmission t q) - qt_ref ` set ts = tq_activeTurns q - qt_ref ` set (t # ts)"
    by (auto simp: releaseQueuedTurnAdmission_def)
  show ?case unfolding fold_Cons o_apply Cons a b by (simp add: releaseQueuedTurnAdmission_def)
qed simp

lemma commits_owned:
  assumes "owned_at w n" "commitTeardown r (qw_q w) = (q, Inr u)"
  shows "owned_at (hand_over (tr_pending r) q w) n"
  using assms cnt_pos [of "tr_pending r" n]
  by (auto simp: owned_defs commitTeardown_def hand_over_def current_receipt_def release_all split: if_splits)

lemma take_unresolved_parts:
  assumes "take_unresolved ts c = (rs, c')"
  shows "subseq rs ts" "set rs \<subseteq> set ts"
proof -
  show "subseq rs ts" using assms
    by (induction ts arbitrary: c rs) (auto split: if_splits prod.splits)
  then show "set rs \<subseteq> set ts" by (simp add: subseq_conv_nths) (metis set_nths_subset)
qed

lemma drain_fields [simp]:
  "tq_admissions (drain q) = tq_admissions q" "tq_receipt (drain q) = tq_receipt q" "tq_maxDepth (drain q) = tq_maxDepth q"
  "tq_accepting (drain q) = tq_accepting q" "tq_haltError (drain q) = tq_haltError q"
  "tq_hasProcessor (drain q) = tq_hasProcessor q"
  by (auto simp: drain_def drain_next_def call_def split: list.split)

lemma cnt_subseq: "subseq xs ys \<Longrightarrow> cnt xs n \<le> cnt ys n"
  by (induction rule: list_emb.induct) auto

text \<open>What a rollback that is not refused does, before it lets the queue run again.\<close>

definition restored_queue :: "teardown_receipt \<Rightarrow> queued_turn list \<Rightarrow> bool \<Rightarrow> turn_queue \<Rightarrow> turn_queue" where
  "restored_queue r rs open_again q = (fold releaseQueuedTurnAdmission
     (filter (\<lambda>t. qt_ref t \<notin> qt_ref ` set rs) (tr_pending r)) (q\<lparr>tq_receipt := None\<rparr>))
     \<lparr>tq_queue := rs @ tq_queue q, tq_accepting := open_again \<or> tq_accepting q\<rparr>"

lemma rollback_result:
  assumes "rollbackFailedTeardown r unresolved exactQueueOwned q = (q', Inr b)"
  obtains rs where "tq_receipt q = Some r" "subseq rs (tr_pending r)"
    "b = tr_wasAccepting r" "q' = (if b \<and> \<not> isHalted q then drain (restored_queue r rs b q) else restored_queue r rs b q)"
proof -
  obtain rs c where t: "take_unresolved (tr_pending r) (turn_counts unresolved) = (rs, c)" by fastforce
  from assms t have cur: "current_receipt r q" by (auto simp: rollbackFailedTeardown_def split: if_splits)
  show ?thesis
    by (rule that [of rs]) (use assms t cur take_unresolved_parts(1) [OF t] in
      \<open>auto simp: rollbackFailedTeardown_def Let_def current_receipt_def restored_queue_def release_all
        isHalted_def split: if_splits\<close>)
qed

lemma rolls_back_owned:
  assumes "owned_at w n" "tq_receipt (qw_q w) = Some r" "subseq rs (tr_pending r)"
  shows "owned_at (hand_over (tr_pending r) (restored_queue r rs b (qw_q w)) w) n"
proof -
  let ?rest = "filter (\<lambda>t. qt_ref t \<notin> qt_ref ` set rs) (tr_pending r)"
  have one: "cnt (tr_pending r) n \<le> 1" using assms(1,2) by (auto simp: owned_defs split: if_splits)
  have le: "cnt rs n \<le> cnt (tr_pending r) n" by (rule cnt_subseq [OF assms(3)])
  have mem: "n \<in> qt_ref ` set ?rest \<longleftrightarrow> 0 < cnt (tr_pending r) n \<and> cnt rs n = 0"
    using cnt_pos [of "tr_pending r" n] cnt_pos [of rs n] by auto
  show ?thesis
  proof (cases "cnt rs n = 0")
    case True
    with assms(1,2) mem show ?thesis
      using cnt_pos [of "tr_pending r" n]
      by (auto simp: owned_defs hand_over_def restored_queue_def release_all split: if_splits)
  next
    case False
    with one le have "cnt rs n = 1" "cnt (tr_pending r) n = 1" by simp_all
    with assms(1,2) mem show ?thesis
      by (auto simp: owned_defs hand_over_def restored_queue_def release_all split: if_splits)
  qed
qed

lemma rollback_step_owned:
  assumes "owned_at w n" "rollbackFailedTeardown r unresolved exactQueueOwned (qw_q w) = (q, Inr b)"
  shows "owned_at (hand_over (tr_pending r) q w) n"
proof -
  obtain rs where r: "tq_receipt (qw_q w) = Some r" "subseq rs (tr_pending r)"
    "q = (if b \<and> \<not> isHalted (qw_q w) then drain (restored_queue r rs b (qw_q w)) else restored_queue r rs b (qw_q w))"
    by (rule rollback_result [OF assms(2)]) blast
  note base = rolls_back_owned [OF assms(1) r(1,2), of b]
  have "hand_over ts (drain q') w = (hand_over ts q' w)\<lparr>qw_q := drain q'\<rparr>" for ts q'
    by (simp add: hand_over_def)
  moreover have "owned_at ((hand_over (tr_pending r) q' w)\<lparr>qw_q := drain q'\<rparr>) n"
    if "owned_at (hand_over (tr_pending r) q' w) n" for q'
    by (rule drain_owned) (use that in \<open>simp add: hand_over_def\<close>)
  ultimately show ?thesis using base r(3) by (cases b) auto
qed

lemma elsewhere_owned:
  assumes "owned_at w n"
  shows "owned_at (w\<lparr>qw_q := (qw_q w)\<lparr>tq_activeTurns := insert m (tq_activeTurns (qw_q w))\<rparr>\<rparr>) n"
    "tq_admissions (qw_q w) m = None \<Longrightarrow>
      owned_at (w\<lparr>qw_q := (qw_q w)\<lparr>tq_activeTurns := tq_activeTurns (qw_q w) - {m}\<rparr>\<rparr>) n"
  using assms by (auto simp: owned_defs split: if_splits)

lemma owned_processor:
  assumes "owned_at w n"
  shows "owned_at (w\<lparr>qw_q := setProcessor (qw_q w)\<rparr>) n"
proof -
  have "owned_at (w\<lparr>qw_q := (qw_q w)\<lparr>tq_hasProcessor := True\<rparr>\<rparr>) n"
    using assms by (simp add: owned_defs)
  with drain_owned [OF this] show ?thesis by (simp add: setProcessor_def Let_def)
qed

lemma processor_settles_owned:
  assumes "owned_at w n" "tq_loop (qw_q w) = Running t"
  shows "owned_at (after_loop t (processor_settles t res (qw_q w)) w) n"
proof (cases res)
  case (Inl e)
  have "owned_at (after_loop t (call (Call_onProcessorError t) ((qw_q w)\<lparr>tq_loop := Finalizing t\<rparr>)) w) n"
    using assms by (simp add: owned_defs after_loop_def call_def)
  with Inl halts_owned [OF assms(1)] assms(2) show ?thesis by (simp add: processor_settles_def)
next
  case (Inr u)
  with finalized_owned [OF assms(1)] assms(2) show ?thesis by (simp add: processor_settles_def)
qed

lemma finalizer_settles_owned:
  assumes "owned_at w n" "tq_loop (qw_q w) = Finalizing t"
  shows "owned_at (after_loop t (finalizer_settles t res (qw_q w)) w) n"
  using halts_owned [OF assms(1)] finalized_owned [OF assms(1)] assms(2)
  by (cases res) (simp_all add: finalizer_settles_def)

lemma queue_step_owned:
  assumes "queue_step w w'" "owned w"
  shows "owned w'"
  unfolding owned_def
proof (rule allI)
  fix n
  have at: "owned_at w n" using assms(2) by (simp add: owned_def)
  from assms(1) show "owned_at w' n"
  proof cases
    case (Closes q ts)
    with closes_owned [OF assms(2), of q "Inr ts" n] show ?thesis by simp
  next
    case (Rejection_fails t e)
    with rejection_ends_owned(2) [OF at] show ?thesis by (simp add: haltRejectedFinalization_def)
  next
    case (Accepts t q)
    with accepts_owned [OF assms(2)] show ?thesis by blast
  next
    case (Rejects t q r)
    with rejects_owned [OF assms(2)] show ?thesis by blast
  next
    case Processor_set
    with owned_processor [OF at] show ?thesis by blast
  next
    case (Processor_settles t res)
    with processor_settles_owned [OF at] show ?thesis by blast
  next
    case (Finalizer_settles t res)
    with finalizer_settles_owned [OF at] show ?thesis by blast
  next
    case (Settlement_ends t)
    with settlement_ends_owned [OF at] show ?thesis by blast
  next
    case Loop_continues
    with loop_continues_owned [OF at] show ?thesis by blast
  next
    case (Rejection_finalized t)
    with rejection_ends_owned(1) [OF at] show ?thesis by blast
  next
    case (Callback_ends t)
    with callback_ends_owned [OF at] show ?thesis by blast
  next
    case (Halts e onHalt q res)
    with halts_close_owned [OF assms(2)] show ?thesis by blast
  next
    case (Settles_detached t q)
    with settles_detached_owned [OF at] show ?thesis by blast
  next
    case (Teardown_begins q r)
    with teardown_begins_owned [OF at] show ?thesis by blast
  next
    case (Teardown_commits r q u)
    with commits_owned [OF at] show ?thesis by blast
  next
    case (Teardown_rolls_back r unresolved exactQueueOwned q b)
    with rollback_step_owned [OF at] show ?thesis by blast
  next
    case (Elsewhere_admits m)
    with elsewhere_owned(1) [OF at] show ?thesis by blast
  next
    case (Elsewhere_releases m)
    with elsewhere_owned(2) [OF at] show ?thesis by blast
  qed
qed

section \<open>The loop never sleeps\<close>

lemma drain_next_awake: "awake (drain_next q)"
  by (cases "tq_queue q") (simp_all add: awake_def drain_next_def call_def isProcessing_def)

lemma drain_awake: "awake (drain q)"
  using drain_next_awake by (auto simp: drain_def awake_def)

lemma drain_next_shaped:
  assumes "shaped q" "tq_loop q = Stopped" "tq_hasProcessor q"
  shows "shaped (drain_next q)"
  using assms by (cases "tq_queue q") (auto simp: shaped_def drain_next_def call_def split: option.splits)

lemma drain_shaped: "shaped q \<Longrightarrow> shaped (drain q)"
  using drain_next_shaped by (auto simp: drain_def isProcessing_def)

lemmas shaped_defs = shaped_def awake_def isProcessing_def call_def

lemma settle_ends_shaped:
  assumes "shaped q" "tq_loop q = Leaving t"
  shows "shaped (settle_ends t q) \<and> awake (settle_ends t q)"
  using assms by (auto simp: settle_ends_def shaped_defs releaseQueuedTurnAdmission_def)

lemma loop_continues_shaped:
  assumes "shaped q" "tq_loop q = Between"
  shows "shaped (drain_next q)"
proof -
  have "shaped (q\<lparr>tq_loop := Stopped\<rparr>)" "tq_hasProcessor (q\<lparr>tq_loop := Stopped\<rparr>)"
    using assms by (simp_all add: shaped_def)
  from drain_next_shaped [OF this(1) _ this(2)] show ?thesis by (simp add: drain_next_stopped)
qed

lemma loop_settles_shaped:
  assumes "shaped q" "tq_loop q = Running t \<or> tq_loop q = Finalizing t"
  shows "shaped (turn_finalized t q)" "shaped (turn_halts t e q)"
    "awake (turn_finalized t q)" "awake (turn_halts t e q)"
  using assms
  by (auto simp: shaped_defs turn_finalized_def turn_halts_def settle_begin_def inactive_def split: option.splits)

lemma enqueue_shaped:
  assumes "enqueue t q = (q', out)" "shaped q" "awake q"
  shows "shaped q'" "awake q'"
proof -
  have cap: "shaped (captureQueuedAsyncContext t q)" "awake (captureQueuedAsyncContext t q)"
    using assms(2,3) by (simp_all add: shaped_defs captureQueuedAsyncContext_def isHalted_def)
  show "shaped q'"
  proof (cases out)
    case Enq_accepted
    note a = accepted_queue [OF assms(1) [unfolded Enq_accepted]]
    have "shaped ((captureQueuedAsyncContext t q)\<lparr>tq_queue := tq_queue q @ [t]\<rparr>)"
      using assms(2) a(2,4) by (auto simp: shaped_def captureQueuedAsyncContext_def split: option.splits)
    with drain_shaped show ?thesis unfolding a(5) by blast
  next
    case (Enq_rejected r)
    from rejected_queue(2) [OF assms(1) [unfolded this]] cap show ?thesis by (simp add: shaped_def call_def)
  next
    case Enq_already_live
    with assms show ?thesis by (auto simp: enqueue_def reject_def Let_def split: if_splits)
  qed
  show "awake q'"
  proof (cases out)
    case Enq_accepted
    from accepted_queue(5) [OF assms(1) [unfolded this]] show ?thesis by (simp add: drain_awake)
  next
    case (Enq_rejected r)
    from rejected_queue(2) [OF assms(1) [unfolded this]] cap show ?thesis
      by (simp add: shaped_defs isHalted_def)
  next
    case Enq_already_live
    with assms show ?thesis by (auto simp: enqueue_def reject_def Let_def split: if_splits)
  qed
qed

lemma setProcessor_shaped:
  assumes "shaped q"
  shows "shaped (setProcessor q)" "awake (setProcessor q)"
proof -
  have "shaped (q\<lparr>tq_hasProcessor := True\<rparr>)" using assms by (simp add: shaped_def)
  with drain_shaped show "shaped (setProcessor q)" by (simp add: setProcessor_def Let_def)
  show "awake (setProcessor q)"
    by (simp add: setProcessor_def Let_def drain_awake) (simp add: awake_def isHalted_def)
qed

lemma halt_shaped: "shaped q \<Longrightarrow> shaped (halt e q)" "awake (halt e q)"
  by (simp_all add: shaped_def awake_def)

lemma release_shaped:
  "shaped q \<Longrightarrow> shaped (releaseQueuedTurnAdmission t q)" "awake q \<Longrightarrow> awake (releaseQueuedTurnAdmission t q)"
  by (simp_all add: shaped_defs releaseQueuedTurnAdmission_def isHalted_def)

lemma closed_shaped: "shaped q \<Longrightarrow> tq_receipt q = None \<Longrightarrow> shaped (closed_queue q) \<and> awake (closed_queue q)"
  by (auto simp: shaped_defs closed_queue_def split: option.splits)

lemma close_shaped:
  assumes "owned w" "shaped (qw_q w)" "awake (qw_q w)" "closeAndTakePendingTurns (qw_q w) = (q, res)"
  shows "shaped q \<and> awake q"
proof (cases "tq_receipt (qw_q w)")
  case None
  with close_result [OF assms(1) None] closed_shaped [OF assms(2) None] assms(4) show ?thesis by simp
next
  case (Some r)
  with assms show ?thesis by (simp add: closeAndTakePendingTurns_def)
qed

lemma rollback_shaped:
  assumes "rollbackFailedTeardown r unresolved exactQueueOwned q = (q', Inr b)" "shaped q"
  shows "shaped q' \<and> awake q'"
proof -
  obtain rs where r: "tq_receipt q = Some r" "subseq rs (tr_pending r)" "b = tr_wasAccepting r"
    "q' = (if b \<and> \<not> isHalted q then drain (restored_queue r rs b q) else restored_queue r rs b q)"
    by (rule rollback_result [OF assms(1)]) blast
  have empty: "tq_queue q = []" "\<not> tq_accepting q" using assms(2) r(1) by (auto simp: shaped_def)
  have len: "length rs \<le> length (tr_pending r)" by (rule list_emb_length [OF r(2)])
  have base: "shaped (restored_queue r rs b q)"
    using assms(2) r(1) empty len
    by (auto simp: shaped_def restored_queue_def release_all split: option.splits)
  have rest: "awake (restored_queue r rs b q)" if "\<not> (b \<and> \<not> isHalted q)"
    using that empty by (auto simp: awake_def restored_queue_def release_all isHalted_def)
  show ?thesis using r(4) base rest drain_shaped drain_awake by (cases b) auto
qed

lemma queue_step_shaped:
  assumes "queue_step w w'" "owned w" "shaped (qw_q w)" "awake (qw_q w)"
  shows "shaped (qw_q w') \<and> awake (qw_q w')"
  using assms(1)
proof cases
  case (Accepts t q)
  with enqueue_shaped [OF Accepts(2) assms(3,4)] show ?thesis by (simp add: admit_world_def)
next
  case (Rejects t q r)
  with enqueue_shaped [OF Rejects(2) assms(3,4)] show ?thesis by (simp add: admit_world_def)
next
  case Processor_set
  with setProcessor_shaped [OF assms(3)] show ?thesis by simp
next
  case (Processor_settles t res)
  note s = loop_settles_shaped [OF assms(3) disjI1 [OF Processor_settles(2)]]
  have "shaped (call c ((qw_q w)\<lparr>tq_loop := Finalizing t\<rparr>)) \<and> awake (call c ((qw_q w)\<lparr>tq_loop := Finalizing t\<rparr>))" for c
    using assms(3) Processor_settles(2) by (auto simp: shaped_defs split: option.splits)
  with s Processor_settles(1) show ?thesis
    by (cases res) (simp_all add: processor_settles_def after_loop_def)
next
  case (Finalizer_settles t res)
  with loop_settles_shaped [OF assms(3) disjI2 [OF Finalizer_settles(2)]] show ?thesis
    by (cases res) (simp_all add: finalizer_settles_def after_loop_def)
next
  case (Settlement_ends t)
  with settle_ends_shaped [OF assms(3)] show ?thesis by simp
next
  case Loop_continues
  with loop_continues_shaped [OF assms(3)] drain_next_awake show ?thesis by simp
next
  case (Rejection_finalized t)
  with assms(3,4) show ?thesis by (simp add: settle_begin_def shaped_defs isHalted_def)
next
  case (Rejection_fails t e)
  with halt_shaped assms(3) show ?thesis by (simp add: haltRejectedFinalization_def)
next
  case (Callback_ends t)
  with release_shaped assms(3,4) show ?thesis by simp
next
  case (Closes q ts)
  with close_shaped [OF assms(2-4) Closes(2)] show ?thesis by simp
next
  case (Halts e onHalt q res)
  let ?w = "w\<lparr>qw_q := halt e (qw_q w)\<rparr>"
  note h = halt_shaped(1) [OF assms(3), of e] halt_shaped(2) [of e "qw_q w"]
  have closed: "shaped q \<and> awake q" if "closeAndTakePendingTurns (halt e (qw_q w)) = (q, res)"
    using close_shaped [OF halt_step_owned [OF assms(2)], of e q res] h that by simp
  have same: "halt e (qw_q w) = qw_q w" if "isHalted (qw_q w)" using that by (simp add: halt_def)
  have "closeAndTakePendingTurns (halt e (qw_q w)) = (q, res) \<or> q = halt e (qw_q w)"
    using Halts(2) same by (auto simp: haltAndTakePendingTurns_def split: option.splits if_splits)
  with closed h have "shaped q \<and> awake q" by blast
  with Halts(1) show ?thesis by simp
next
  case (Settles_detached t q)
  with assms(3,4) show ?thesis
    by (auto simp: settleDetachedTurn_def settle_begin_def shaped_defs isHalted_def split: if_splits)
next
  case (Teardown_begins q r)
  with assms(3) show ?thesis
    by (auto simp: beginTeardown_def Let_def shaped_defs split: if_splits option.splits)
next
  case (Teardown_commits r q u)
  with assms(3) show ?thesis
    by (auto simp: commitTeardown_def current_receipt_def release_all hand_over_def shaped_defs
        split: if_splits option.splits)
next
  case (Teardown_rolls_back r unresolved exactQueueOwned q b)
  with rollback_shaped [OF Teardown_rolls_back(2) assms(3)] show ?thesis by (simp add: hand_over_def)
next
  case (Elsewhere_admits m)
  with assms(3,4) show ?thesis by (simp add: shaped_defs isHalted_def)
next
  case (Elsewhere_releases m)
  with assms(3,4) show ?thesis by (simp add: shaped_defs isHalted_def)
qed

section \<open>An abstract queue\<close>

text \<open>What a caller may rely on: turns are taken in the order they were put; waiting ones may be withdrawn.\<close>

record fifo =
  ff_put :: "queued_turn list"
  ff_taken :: "queued_turn list"
  ff_waiting :: "queued_turn list"

inductive fifo_step :: "fifo \<Rightarrow> fifo \<Rightarrow> bool" where
  Put: "fifo_step f (f\<lparr>ff_put := ff_put f @ [t], ff_waiting := ff_waiting f @ [t]\<rparr>)"
| Take: "ff_waiting f = t # ts \<Longrightarrow> fifo_step f (f\<lparr>ff_taken := ff_taken f @ [t], ff_waiting := ts\<rparr>)"
| Withdraw: "subseq ts (ff_waiting f) \<Longrightarrow> fifo_step f (f\<lparr>ff_waiting := ts\<rparr>)"

fun started_calls :: "callback list \<Rightarrow> queued_turn list" where
  "started_calls [] = []"
| "started_calls (c # cs) = (case c of Call_processor t \<Rightarrow> [t] | _ \<Rightarrow> []) @ started_calls cs"

lemma started_calls_append [simp]: "started_calls (xs @ ys) = started_calls xs @ started_calls ys"
  by (induction xs) simp_all

definition started :: "turn_queue \<Rightarrow> queued_turn list" where
  "started q = started_calls (tq_calls q)"

definition fifo_of :: "queued_turn list \<Rightarrow> turn_queue \<Rightarrow> fifo" where
  "fifo_of put q = \<lparr>ff_put = put, ff_taken = started q, ff_waiting = tq_queue q @ receipt_turns (tq_receipt q)\<rparr>"

lemma fifo_order: "fifo_step\<^sup>*\<^sup>* \<lparr>ff_put = [], ff_taken = [], ff_waiting = []\<rparr> f
    \<Longrightarrow> subseq (ff_taken f @ ff_waiting f) (ff_put f)"
proof (induction rule: rtranclp_induct)
  case (step f g)
  from step(2,3) show ?case
  proof cases
    case (Withdraw ts)
    then have "subseq (ff_taken f @ ts) (ff_taken f @ ff_waiting f)" by (simp add: subseq_append')
    with step(3) Withdraw show ?thesis using subseq_order.order_trans by auto
  next
    case (Put t)
    from list_emb_append_mono [OF step(3), of "[t]" "[t]"] Put show ?thesis by simp
  qed (use step(3) in simp)
qed simp

lemma fifo_drain_next: "fifo_step\<^sup>*\<^sup>* (fifo_of put q) (fifo_of put (drain_next q))"
proof (cases "tq_queue q")
  case Nil
  then show ?thesis by (simp add: fifo_of_def drain_next_def started_def)
next
  case (Cons t ts)
  have "fifo_step (fifo_of put q) ((fifo_of put q)\<lparr>ff_taken := ff_taken (fifo_of put q) @ [t],
      ff_waiting := ts @ receipt_turns (tq_receipt q)\<rparr>)"
    by (rule Take) (simp add: fifo_of_def Cons)
  with Cons show ?thesis by (simp add: fifo_of_def drain_next_def call_def started_def r_into_rtranclp)
qed

lemma fifo_drain: "fifo_step\<^sup>*\<^sup>* (fifo_of put q) (fifo_of put (drain q))"
  using fifo_drain_next by (simp add: drain_def)

lemma fifo_same: "started q' = started q \<Longrightarrow> tq_queue q' = tq_queue q \<Longrightarrow> tq_receipt q' = tq_receipt q
    \<Longrightarrow> fifo_of put q' = fifo_of put q"
  by (simp add: fifo_of_def)

lemma started_simps [simp]:
  "started (halt e q) = started q" "started (inactive t q) = started q"
  "started (q\<lparr>tq_queue := x\<rparr>) = started q" "started (q\<lparr>tq_loop := l\<rparr>) = started q"
  "started (q\<lparr>tq_activeTurns := a\<rparr>) = started q" "started (q\<lparr>tq_receipt := c\<rparr>) = started q"
  "started (captureQueuedAsyncContext t q) = started q" "started (releaseQueuedTurnAdmission t q) = started q"
  "started (settle_begin t q) = started q" "started (turn_halts t e q) = started q" "started (turn_finalized t q) = started q"
  "started (closed_queue q) = started q" "started (call (Call_onReject t r) q) = started q"
  "started (call (Call_onProcessorError t) q) = started q"
  by (simp_all add: started_def halt_def call_def captureQueuedAsyncContext_def releaseQueuedTurnAdmission_def
      settle_begin_def turn_halts_def turn_finalized_def closed_queue_def)

lemma fifo_loop [simp]:
  "fifo_of put (turn_finalized t q) = fifo_of put q" "fifo_of put (turn_halts t e q) = fifo_of put q"
  "fifo_of put (call (Call_onProcessorError t) (q\<lparr>tq_loop := l\<rparr>)) = fifo_of put q"
  by (simp_all add: fifo_of_def) (simp_all add: turn_finalized_def turn_halts_def settle_begin_def call_def)

lemma fifo_withdraw:
  "started q' = started q \<Longrightarrow> subseq (tq_queue q' @ receipt_turns (tq_receipt q')) (tq_queue q @ receipt_turns (tq_receipt q))
    \<Longrightarrow> fifo_step\<^sup>*\<^sup>* (fifo_of put q) (fifo_of put q')"
  using Withdraw [of "tq_queue q' @ receipt_turns (tq_receipt q')" "fifo_of put q"]
  by (simp add: fifo_of_def r_into_rtranclp)

lemma fifo_close:
  assumes "owned w" "closeAndTakePendingTurns (qw_q w) = (q, res)"
  shows "fifo_step\<^sup>*\<^sup>* (fifo_of put (qw_q w)) (fifo_of put q)"
proof (cases "tq_receipt (qw_q w)")
  case None
  with close_result [OF assms(1) None] assms(2) have "q = closed_queue (qw_q w)" by simp
  then show ?thesis by (intro fifo_withdraw) (simp, simp add: closed_queue_def None)
next
  case (Some r)
  with assms show ?thesis by (simp add: closeAndTakePendingTurns_def)
qed

lemma fifo_rollback:
  assumes "rollbackFailedTeardown r unresolved exactQueueOwned q = (q', Inr b)" "shaped q"
  shows "fifo_step\<^sup>*\<^sup>* (fifo_of put q) (fifo_of put q')"
proof -
  obtain rs where r: "tq_receipt q = Some r" "subseq rs (tr_pending r)"
    "q' = (if b \<and> \<not> isHalted q then drain (restored_queue r rs b q) else restored_queue r rs b q)"
    by (rule rollback_result [OF assms(1)]) blast
  have "tq_queue q = []" using assms(2) r(1) by (auto simp: shaped_def)
  then have "fifo_step\<^sup>*\<^sup>* (fifo_of put q) (fifo_of put (restored_queue r rs b q))"
    using r(1,2) by (intro fifo_withdraw) (simp_all add: restored_queue_def release_all started_def)
  with fifo_drain r(3) show ?thesis by (metis rtranclp_trans)
qed

lemma queue_step_fifo:
  assumes "queue_step w w'" "owned w" "shaped (qw_q w)"
  shows "fifo_step\<^sup>*\<^sup>* (fifo_of (qw_accepted w) (qw_q w)) (fifo_of (qw_accepted w') (qw_q w'))"
  using assms(1)
proof cases
  case (Accepts t q)
  let ?q = "(captureQueuedAsyncContext t (qw_q w))\<lparr>tq_queue := tq_queue (qw_q w) @ [t]\<rparr>"
  note a = accepted_queue [OF Accepts(2)]
  have none: "tq_receipt (qw_q w) = None" using assms(3) a(2) by (auto simp: shaped_def)
  have "fifo_step (fifo_of (qw_accepted w) (qw_q w)) (fifo_of (qw_accepted w @ [t]) ?q)"
    using Put [of "fifo_of (qw_accepted w) (qw_q w)" t] none
    by (simp add: fifo_of_def) (simp add: captureQueuedAsyncContext_def)
  from converse_rtranclp_into_rtranclp [OF this fifo_drain] Accepts(1) a(5) show ?thesis
    by (simp add: admit_world_def)
next
  case (Rejects t q r)
  from rejected_queue(2) [OF Rejects(2)] Rejects(1) show ?thesis
    by (simp add: admit_world_def fifo_of_def) (simp add: captureQueuedAsyncContext_def call_def)
next
  case Processor_set
  have same: "fifo_of (qw_accepted w) ((qw_q w)\<lparr>tq_hasProcessor := True\<rparr>) = fifo_of (qw_accepted w) (qw_q w)"
    by (simp add: fifo_of_def started_def)
  show ?thesis unfolding Processor_set
    using fifo_drain [of "qw_accepted w" "(qw_q w)\<lparr>tq_hasProcessor := True\<rparr>"]
    by (simp add: setProcessor_def Let_def same)
next
  case (Processor_settles t res)
  then show ?thesis by (cases res) (simp_all add: processor_settles_def after_loop_def)
next
  case (Finalizer_settles t res)
  then show ?thesis by (cases res) (simp_all add: finalizer_settles_def after_loop_def)
next
  case (Settlement_ends t)
  then show ?thesis by (simp add: settle_ends_def fifo_of_def) (simp add: releaseQueuedTurnAdmission_def)
next
  case Loop_continues
  with fifo_drain_next show ?thesis by simp
next
  case (Halts e onHalt q res)
  have h: "fifo_of put (halt e (qw_q w)) = fifo_of put (qw_q w)" for put by (rule fifo_same) simp_all
  have "closeAndTakePendingTurns (halt e (qw_q w)) = (q, res) \<or> q = halt e (qw_q w)"
    using Halts(2) by (auto simp: haltAndTakePendingTurns_def halt_def split: option.splits if_splits)
  with fifo_close [OF halt_step_owned [OF assms(2)], of e q res "qw_accepted w"] h Halts(1) show ?thesis by auto
next
  case (Closes q ts)
  with fifo_close [OF assms(2) Closes(2)] show ?thesis by simp
next
  case (Settles_detached t q)
  then show ?thesis
    by (auto simp: settleDetachedTurn_def settle_begin_def call_def fifo_of_def started_def split: if_splits)
next
  case (Teardown_begins q r)
  then show ?thesis by (auto simp: beginTeardown_def Let_def fifo_of_def started_def split: if_splits)
next
  case (Teardown_commits r q u)
  then show ?thesis
    by (auto intro!: fifo_withdraw simp: commitTeardown_def hand_over_def release_all started_def split: if_splits)
next
  case (Teardown_rolls_back r unresolved exactQueueOwned q b)
  with fifo_rollback [OF Teardown_rolls_back(2) assms(3)] show ?thesis by (simp add: hand_over_def)
qed (simp_all add: fifo_of_def haltRejectedFinalization_def settle_begin_def call_def releaseQueuedTurnAdmission_def started_def
    halt_def)

section \<open>Properties\<close>

definition queue_inv :: "queue_world \<Rightarrow> bool" where
  "queue_inv w \<longleftrightarrow> owned w \<and> shaped (qw_q w) \<and> awake (qw_q w)"

lemma first_queue_inv: "queue_inv (first_queue_world m f others)"
  by (simp add: queue_inv_def first_queue_world_def new_queue_def owned_def owned_defs shaped_def awake_def)

lemma detach_all_depth [simp]:
  "tq_maxDepth (fst (detach_all ts q)) = tq_maxDepth q" "tq_haltError (fst (detach_all ts q)) = tq_haltError q"
  "tq_loop (fst (detach_all ts q)) = tq_loop q" "tq_calls (fst (detach_all ts q)) = tq_calls q"
  by (induction ts arbitrary: q) (simp_all add: detachQueuedTurnAdmission_def)

lemma close_fields:
  assumes "closeAndTakePendingTurns q = (q', res)"
  shows "tq_maxDepth q' = tq_maxDepth q" "tq_haltError q' = tq_haltError q" "tq_loop q' = tq_loop q" "started q' = started q"
proof -
  have "tq_receipt q \<noteq> None \<and> q' = q \<or> q' = fst (detach_all (tq_queue q)
      (q\<lparr>tq_accepting := False, tq_closeEpoch := tq_closeEpoch q + 1, tq_queue := []\<rparr>))"
    using assms by (auto simp: closeAndTakePendingTurns_def split: if_splits prod.splits sum.splits)
  then show "tq_maxDepth q' = tq_maxDepth q" "tq_haltError q' = tq_haltError q" "tq_loop q' = tq_loop q"
    "started q' = started q" by (elim disjE; simp add: started_def)+
qed

lemma halt_close_fields:
  assumes "haltAndTakePendingTurns e onHalt q = (q', res)"
  shows "tq_maxDepth q' = tq_maxDepth q" "tq_loop q' = tq_loop q" "started q' = started q"
    "isHalted q'"
proof -
  have "closeAndTakePendingTurns (halt e q) = (q', res) \<or> q' = halt e q"
    using assms by (auto simp: haltAndTakePendingTurns_def halt_def split: option.splits if_splits)
  then show "tq_maxDepth q' = tq_maxDepth q" "tq_loop q' = tq_loop q" "started q' = started q" "isHalted q'"
    using close_fields [of "halt e q" q' res] halt_fields(7) [of e q] by (auto simp: isHalted_def)
qed

lemma queue_step_depth:
  assumes "queue_step w w'"
  shows "tq_maxDepth (qw_q w') = tq_maxDepth (qw_q w)"
  using assms
proof cases
  case (Halts e onHalt q res)
  with halt_close_fields [OF Halts(2)] show ?thesis by simp
next
  case (Closes q ts)
  with close_fields [OF Closes(2)] show ?thesis by simp
qed (auto simp: enqueue_def reject_def Let_def captureQueuedAsyncContext_def call_def admit_world_def setProcessor_def
    processor_settles_def finalizer_settles_def turn_finalized_def turn_halts_def settle_begin_def after_loop_def
    settle_ends_def drain_next_def releaseQueuedTurnAdmission_def haltRejectedFinalization_def settleDetachedTurn_def
    beginTeardown_def commitTeardown_def release_all hand_over_def rollbackFailedTeardown_def
    split: if_splits sum.splits list.splits prod.splits)

text \<open>A halted queue whose loop has ended starts nothing any more.\<close>

definition dead :: "turn_queue \<Rightarrow> bool" where
  "dead q \<longleftrightarrow> isHalted q \<and> \<not> isProcessing q"

lemma dead_queue_step:
  assumes "queue_step w w'" "dead (qw_q w)"
  shows "dead (qw_q w') \<and> started (qw_q w') = started (qw_q w)"
  using assms(1)
proof cases
  case (Accepts t q)
  with accepted_queue(3) [OF Accepts(2)] assms(2) show ?thesis by (simp add: dead_def)
next
  case (Rejects t q r)
  from rejected_queue(2) [OF Rejects(2)] Rejects(1) assms(2) show ?thesis
    by (simp add: admit_world_def dead_def isHalted_def isProcessing_def) (simp add: captureQueuedAsyncContext_def call_def)
next
  case Processor_set
  with assms(2) show ?thesis
    by (simp add: setProcessor_def Let_def dead_def isHalted_def isProcessing_def started_def)
next
  case (Halts e onHalt q res)
  with halt_close_fields [OF Halts(2)] assms(2) show ?thesis by (simp add: dead_def isProcessing_def)
next
  case (Closes q ts)
  with close_fields [OF Closes(2)] assms(2) show ?thesis by (simp add: dead_def isProcessing_def isHalted_def)
next
  case (Settles_detached t q)
  with assms(2) show ?thesis
    by (auto simp: settleDetachedTurn_def settle_begin_def call_def dead_def isHalted_def isProcessing_def started_def
        split: if_splits)
next
  case (Teardown_begins q r)
  with assms(2) show ?thesis
    by (auto simp: beginTeardown_def Let_def dead_def isHalted_def isProcessing_def started_def split: if_splits)
next
  case (Teardown_commits r q u)
  with assms(2) show ?thesis
    by (auto simp: commitTeardown_def hand_over_def release_all dead_def isHalted_def isProcessing_def started_def
        split: if_splits)
next
  case (Teardown_rolls_back r unresolved exactQueueOwned q b)
  obtain rs where "q = (if b \<and> \<not> isHalted (qw_q w) then drain (restored_queue r rs b (qw_q w))
      else restored_queue r rs b (qw_q w))"
    by (rule rollback_result [OF Teardown_rolls_back(2)]) blast
  with assms(2) Teardown_rolls_back(1) show ?thesis
    by (simp add: hand_over_def restored_queue_def release_all dead_def isHalted_def isProcessing_def started_def)
qed (use assms(2) in \<open>simp_all add: dead_def isProcessing_def haltRejectedFinalization_def settle_begin_def call_def
      releaseQueuedTurnAdmission_def isHalted_def started_def halt_def\<close>)

lemma reachable_queue:
  assumes "queue_step\<^sup>*\<^sup>* (first_queue_world m f others) w"
  shows "queue_inv w" "fifo_step\<^sup>*\<^sup>* \<lparr>ff_put = [], ff_taken = [], ff_waiting = []\<rparr> (fifo_of (qw_accepted w) (qw_q w))"
    "tq_maxDepth (qw_q w) = m"
proof -
  have "queue_inv w \<and> fifo_step\<^sup>*\<^sup>* \<lparr>ff_put = [], ff_taken = [], ff_waiting = []\<rparr> (fifo_of (qw_accepted w) (qw_q w))"
    using assms
  proof (induction rule: rtranclp_induct)
    case base
    show ?case using first_queue_inv by (simp add: first_queue_world_def new_queue_def fifo_of_def started_def)
  next
    case (step w w')
    then have inv: "owned w" "shaped (qw_q w)" "awake (qw_q w)" by (simp_all add: queue_inv_def)
    show ?case
      using queue_step_owned [OF step(2) inv(1)] queue_step_shaped [OF step(2) inv] queue_step_fifo [OF step(2) inv(1,2)]
        step.IH by (auto simp: queue_inv_def)
  qed
  then show "queue_inv w"
    "fifo_step\<^sup>*\<^sup>* \<lparr>ff_put = [], ff_taken = [], ff_waiting = []\<rparr> (fifo_of (qw_accepted w) (qw_q w))" by simp_all
  show "tq_maxDepth (qw_q w) = m"
    using assms by (induction rule: rtranclp_induct)
      (simp_all add: first_queue_world_def new_queue_def queue_step_depth)
qed

definition sample_turn :: "nat \<Rightarrow> queued_turn" where
  "sample_turn n = \<lparr>qt_ref = n, qt_sourceMessageId = ''m'', qt_conversationKey = ''c'', qt_chatJid = ''c'',
     qt_inboundSeq = None\<rparr>"

definition accept_turn :: "nat \<Rightarrow> queue_world \<Rightarrow> queue_world" where
  "accept_turn n w = admit_world (sample_turn n) (w\<lparr>qw_q := fst (enqueue (sample_turn n) (qw_q w)),
     qw_accepted := qw_accepted w @ [sample_turn n]\<rparr>)"

lemma accept_turn_step: "snd (enqueue (sample_turn n) (qw_q w)) = Enq_accepted \<Longrightarrow> queue_step w (accept_turn n w)"
  unfolding accept_turn_def by (rule Accepts) (metis prod.collapse)

definition busy_queue :: queue_world where
  "busy_queue = accept_turn 2 (accept_turn 1
     ((first_queue_world (Some 5) False {})\<lparr>qw_q := setProcessor (new_queue (Some 5) False {})\<rparr>))"

lemmas run_defs = enqueue_def Let_def reject_def sample_turn_def setProcessor_def new_queue_def drain_def drain_next_def
  captureQueuedAsyncContext_def isHalted_def isProcessing_def admit_world_def call_def accept_turn_def

lemma busy_queue_reachable: "queue_step\<^sup>*\<^sup>* (first_queue_world (Some 5) False {}) busy_queue"
proof -
  let ?w0 = "first_queue_world (Some 5) False {}"
  let ?w1 = "?w0\<lparr>qw_q := setProcessor (new_queue (Some 5) False {})\<rparr>"
  have "queue_step ?w0 ?w1" using Processor_set [of ?w0] by (simp add: first_queue_world_def)
  moreover have "queue_step ?w1 (accept_turn 1 ?w1)" by (rule accept_turn_step) (simp add: run_defs)
  moreover have "queue_step (accept_turn 1 ?w1) busy_queue"
    unfolding busy_queue_def by (rule accept_turn_step) (simp add: run_defs)
  ultimately show ?thesis by (meson converse_rtranclp_into_rtranclp r_into_rtranclp)
qed

lemma busy_queue_state: "started (qw_q busy_queue) = [sample_turn 1]" "tq_queue (qw_q busy_queue) = [sample_turn 2]"
  "tq_accepting (qw_q busy_queue)" "tq_hasProcessor (qw_q busy_queue)" "\<not> isHalted (qw_q busy_queue)"
  by (simp_all add: busy_queue_def run_defs started_def)

text \<open>
  C27: No admission of a turn is lost or settled twice. Whatever callers, callbacks, halts, closes and
  teardowns do, and in whatever order, every turn the queue has admitted and not let go of is in exactly
  one place (with the provider, waiting, in a teardown receipt, being rejected, in its settlement
  callback, detached by a close, or left unsettled by a halt) and cannot be admitted anywhere else; and
  for every turn the admissions equal the settlement callbacks made, the hand-overs by teardowns, and
  the one admission still held, if its callback was not made yet.
\<close>

theorem every_admission_is_accounted_for:
  assumes "queue_step\<^sup>*\<^sup>* (first_queue_world maxDepth hasFinalizer others) w"
  shows "distinct (map qt_ref (held w))
    \<and> qt_ref ` set (held w) = dom (tq_admissions (qw_q w)) \<and> dom (tq_admissions (qw_q w)) \<subseteq> tq_activeTurns (qw_q w)
    \<and> qw_admitted w n + cnt (phase_leaving (tq_loop (qw_q w)) @ qw_settling w) n
        = settled_calls (tq_calls (qw_q w)) n + qw_handed w n + cnt (held w) n"
proof -
  have at: "owned_at w n" for n using reachable_queue(1) [OF assms] by (simp add: queue_inv_def owned_def)
  have "cnt (held w) n \<le> 1" for n using at [of n] by (simp add: owned_at_def)
  then have "distinct (map qt_ref (held w))" by (intro cnt_distinct) blast
  moreover have "n \<in> qt_ref ` set (held w) \<longleftrightarrow> tq_admissions (qw_q w) n \<noteq> None" for n
    using at [of n] cnt_pos [of "held w" n] by (auto simp: owned_at_def split: if_splits)
  then have "qt_ref ` set (held w) = dom (tq_admissions (qw_q w))" by blast
  moreover have "dom (tq_admissions (qw_q w)) \<subseteq> tq_activeTurns (qw_q w)"
    using at by (auto simp: owned_at_def)
  ultimately show ?thesis using at [of n] by (simp add: owned_at_def)
qed

theorem every_admission_is_accounted_for_witness:
  "dom (tq_admissions (qw_q busy_queue)) \<subseteq> tq_activeTurns (qw_q busy_queue)
    \<and> distinct (map qt_ref (held busy_queue))"
  using every_admission_is_accounted_for [OF busy_queue_reachable] by blast

text \<open>
  C28: The queue refines a first-in first-out queue. Every history of the queue is a history of the
  abstract queue in which callers put turns, the provider takes the oldest one, and waiting turns may be
  withdrawn, also across teardowns that are rolled back; so turns start in the order in which they
  were accepted, and no more than the depth cap are waiting.
\<close>

theorem turns_start_in_order:
  assumes "queue_step\<^sup>*\<^sup>* (first_queue_world maxDepth hasFinalizer others) w"
  shows "fifo_step\<^sup>*\<^sup>* \<lparr>ff_put = [], ff_taken = [], ff_waiting = []\<rparr> (fifo_of (qw_accepted w) (qw_q w))
    \<and> subseq (started (qw_q w) @ tq_queue (qw_q w)) (qw_accepted w)
    \<and> (\<forall>n. maxDepth = Some n \<longrightarrow> length (tq_queue (qw_q w)) \<le> n)"
proof -
  note r = reachable_queue [OF assms]
  have "subseq (started (qw_q w) @ tq_queue (qw_q w) @ receipt_turns (tq_receipt (qw_q w))) (qw_accepted w)"
    using fifo_order [OF r(2)] by (simp add: fifo_of_def)
  moreover have "subseq (started (qw_q w) @ tq_queue (qw_q w))
      (started (qw_q w) @ tq_queue (qw_q w) @ receipt_turns (tq_receipt (qw_q w)))"
    using subseq_rev_drop_many [of "started (qw_q w) @ tq_queue (qw_q w)" "started (qw_q w) @ tq_queue (qw_q w)"
        "receipt_turns (tq_receipt (qw_q w))"] by simp
  ultimately have "subseq (started (qw_q w) @ tq_queue (qw_q w)) (qw_accepted w)"
    using subseq_order.order_trans by blast
  with r show ?thesis by (auto simp: queue_inv_def shaped_def)
qed

theorem turns_start_in_order_witness:
  "subseq (started (qw_q busy_queue) @ tq_queue (qw_q busy_queue)) (qw_accepted busy_queue)
    \<and> started (qw_q busy_queue) = [sample_turn 1] \<and> length (tq_queue (qw_q busy_queue)) \<le> 5"
  using turns_start_in_order [OF busy_queue_reachable] busy_queue_state by blast

text \<open>
  C29: The queue runs exactly when it should. An open queue with a processor that was not halted is
  processing whenever turns are waiting, so no turn waits for a wake-up that never comes; and once the
  queue is halted and its loop has ended, no later call of any kind starts another turn.
\<close>

theorem queue_never_sleeps_and_halts_stick:
  assumes "queue_step\<^sup>*\<^sup>* (first_queue_world maxDepth hasFinalizer others) w"
  shows "(tq_accepting (qw_q w) \<and> tq_hasProcessor (qw_q w) \<and> \<not> isHalted (qw_q w) \<and> tq_queue (qw_q w) \<noteq> []
      \<longrightarrow> isProcessing (qw_q w))
    \<and> (isHalted (qw_q w) \<and> \<not> isProcessing (qw_q w) \<longrightarrow> (\<forall>w'. queue_step\<^sup>*\<^sup>* w w' \<longrightarrow>
        isHalted (qw_q w') \<and> started (qw_q w') = started (qw_q w)))"
proof -
  have dead: "dead (qw_q w') \<and> started (qw_q w') = started (qw_q w)"
    if "queue_step\<^sup>*\<^sup>* w w'" "dead (qw_q w)" for w'
    using that(1)
  proof (induction rule: rtranclp_induct)
    case (step x y)
    with dead_queue_step [OF step(2)] show ?case by simp
  qed (use that(2) in simp)
  have "awake (qw_q w)" using reachable_queue(1) [OF assms] by (simp add: queue_inv_def)
  then show ?thesis using dead unfolding awake_def dead_def by blast
qed

theorem queue_never_sleeps_and_halts_stick_witness:
  "tq_queue (qw_q busy_queue) = [sample_turn 2] \<and> isProcessing (qw_q busy_queue)"
  using conjunct1 [OF queue_never_sleeps_and_halts_stick [OF busy_queue_reachable]] busy_queue_state by simp

end
