(* ===== verification/RateLimiter.thy ===== *)
theory RateLimiter
  imports Prelude
begin

text \<open>
  The sliding-window rate limiter of outbound sends (\<^verbatim>\<open>src/transport/outbound-rate-limiter.ts\<close>). A
  window is an array that the map of windows, a sleeping acquire and a cleanup timer can all refer to,
  so arrays live in a store and are known by reference. An acquire is split at its sleeps. A chain
  holds the acquires of a destination in their order; its entry is gone when no acquire is left.
\<close>

section \<open>State\<close>

text \<open>An acquire and the longest wait it allows: not started, or asleep with the array it got.\<close>

datatype acquire = Fresh "int option" | Asleep "int option" int nat

record rate_limiter =
  rl_maxPerWindow :: nat
  rl_windowMs :: int
  rl_windows :: "string \<rightharpoonup> nat"
  rl_arrays :: "nat \<Rightarrow> int list"
  rl_next :: nat
  rl_chains :: "string \<Rightarrow> acquire list"
  rl_timers :: "(string \<times> nat) list"

definition new_limiter :: "int \<Rightarrow> int \<Rightarrow> rate_limiter" where
  "new_limiter maxPerWindow windowMs = \<lparr>rl_maxPerWindow = nat (max 1 maxPerWindow), rl_windowMs = windowMs,
     rl_windows = Map.empty, rl_arrays = (\<lambda>_. []), rl_next = 0, rl_chains = (\<lambda>_. []), rl_timers = []\<rparr>"

section \<open>One window\<close>

text \<open>Future timestamps are clamped to now, then what has aged out at the front is dropped.\<close>

definition pruneWindow :: "int \<Rightarrow> int \<Rightarrow> int list \<Rightarrow> int list" where
  "pruneWindow windowMs now window = dropWhile (\<lambda>t. t \<le> now - windowMs) (map (min now) window)"

definition getWindow :: "string \<Rightarrow> rate_limiter \<Rightarrow> rate_limiter \<times> nat" where
  "getWindow dest l = (case rl_windows l dest of Some a \<Rightarrow> (l, a)
     | None \<Rightarrow> (l\<lparr>rl_windows := (rl_windows l)(dest \<mapsto> rl_next l),
          rl_arrays := (rl_arrays l)(rl_next l := []), rl_next := rl_next l + 1\<rparr>, rl_next l))"

definition scheduleWindowCleanup :: "string \<Rightarrow> rate_limiter \<Rightarrow> rate_limiter" where
  "scheduleWindowCleanup dest l = (case rl_windows l dest of None \<Rightarrow> l
     | Some a \<Rightarrow> l\<lparr>rl_timers := (dest, a) # rl_timers l\<rparr>)"

text \<open>A reservation in array \<open>a\<close>, if the window has room.\<close>

definition try_reserve :: "nat \<Rightarrow> int \<Rightarrow> rate_limiter \<Rightarrow> rate_limiter \<times> bool" where
  "try_reserve a now l = (let w = pruneWindow (rl_windowMs l) now (rl_arrays l a) in
     if length w < rl_maxPerWindow l then (l\<lparr>rl_arrays := (rl_arrays l)(a := w @ [now])\<rparr>, True)
     else (l\<lparr>rl_arrays := (rl_arrays l)(a := w)\<rparr>, False))"

definition tryAcquireSync :: "string \<Rightarrow> int \<Rightarrow> rate_limiter \<Rightarrow> rate_limiter \<times> bool" where
  "tryAcquireSync dest now l = (case getWindow dest l of (l1, a) \<Rightarrow> case try_reserve a now l1 of
     (l2, True) \<Rightarrow> (scheduleWindowCleanup dest l2, True) | (l2, False) \<Rightarrow> (l2, False))"

section \<open>Acquires that may wait\<close>

text \<open>\<^verbatim>\<open>acquire\<close> has no bound on its wait, \<^verbatim>\<open>acquireBounded\<close> has one.\<close>

definition enqueue_acquire :: "string \<Rightarrow> int option \<Rightarrow> rate_limiter \<Rightarrow> rate_limiter" where
  "enqueue_acquire dest maxWaitMs l = l\<lparr>rl_chains := (rl_chains l)(dest := rl_chains l dest @ [Fresh maxWaitMs])\<rparr>"

definition leave_chain :: "string \<Rightarrow> rate_limiter \<Rightarrow> rate_limiter" where
  "leave_chain dest l = (let l' = l\<lparr>rl_chains := (rl_chains l)(dest := tl (rl_chains l dest))\<rparr> in
     if rl_chains l' dest = [] then scheduleWindowCleanup dest l' else l')"

datatype acquire_result = Reserved int | Capped int | Sleeps int

text \<open>One round of the loop of \<^verbatim>\<open>reserveSlot\<close> and \<^verbatim>\<open>reserveSlotBounded\<close>.\<close>

definition acquire_round ::
  "string \<Rightarrow> int option \<Rightarrow> int \<Rightarrow> nat \<Rightarrow> int \<Rightarrow> rate_limiter \<Rightarrow> rate_limiter \<times> acquire_result" where
  "acquire_round dest maxWaitMs t0 a now l = (case try_reserve a now l of
     (l', True) \<Rightarrow> (leave_chain dest l', Reserved (now - t0))
   | (l', False) \<Rightarrow> (let waitMs = max 1 (hd (rl_arrays l' a) + rl_windowMs l' - now) in
        if (case maxWaitMs of None \<Rightarrow> False | Some m \<Rightarrow> now - t0 + waitMs > m)
        then (leave_chain dest l', Capped (now - t0))
        else (l'\<lparr>rl_chains := (rl_chains l')(dest := Asleep maxWaitMs t0 a # tl (rl_chains l' dest))\<rparr>, Sleeps waitMs)))"

definition run_acquire :: "string \<Rightarrow> int \<Rightarrow> rate_limiter \<Rightarrow> (rate_limiter \<times> acquire_result) option" where
  "run_acquire dest now l = (case rl_chains l dest of [] \<Rightarrow> None
     | Fresh maxWaitMs # _ \<Rightarrow> (case getWindow dest l of (l1, a) \<Rightarrow> Some (acquire_round dest maxWaitMs now a now l1))
     | Asleep maxWaitMs t0 a # _ \<Rightarrow> Some (acquire_round dest maxWaitMs t0 a now l))"

definition run_cleanup :: "string \<Rightarrow> nat \<Rightarrow> int \<Rightarrow> rate_limiter \<Rightarrow> rate_limiter" where
  "run_cleanup dest a now l =
     (let l' = l\<lparr>rl_timers := remove1 (dest, a) (rl_timers l),
           rl_arrays := (rl_arrays l)(a := pruneWindow (rl_windowMs l) now (rl_arrays l a))\<rparr> in
      if rl_arrays l' a = [] \<and> rl_windows l' dest = Some a \<and> rl_chains l' dest = []
      then l'\<lparr>rl_windows := (rl_windows l')(dest := None)\<rparr> else l')"

section \<open>Any history\<close>

text \<open>
  The limiter, the latest reading of the clock, which is taken not to go back, and the reservations
  granted to each destination in their order.
\<close>

record limiter_world =
  lw_l :: rate_limiter
  lw_now :: int
  lw_granted :: "string \<Rightarrow> int list"

definition grant :: "string \<Rightarrow> int \<Rightarrow> bool \<Rightarrow> limiter_world \<Rightarrow> limiter_world" where
  "grant dest now b w = (if b then w\<lparr>lw_granted := (lw_granted w)(dest := lw_granted w dest @ [now])\<rparr> else w)"

definition was_reserved :: "acquire_result \<Rightarrow> bool" where
  "was_reserved r = (case r of Reserved _ \<Rightarrow> True | _ \<Rightarrow> False)"

inductive limiter_step :: "limiter_world \<Rightarrow> limiter_world \<Rightarrow> bool" where
  Asked: "limiter_step w (w\<lparr>lw_l := enqueue_acquire dest maxWaitMs (lw_l w)\<rparr>)"
| Runs: "lw_now w \<le> now \<Longrightarrow> run_acquire dest now (lw_l w) = Some (l, r) \<Longrightarrow>
    limiter_step w (grant dest now (was_reserved r) (w\<lparr>lw_l := l, lw_now := now\<rparr>))"
| Tried: "lw_now w \<le> now \<Longrightarrow> tryAcquireSync dest now (lw_l w) = (l, b) \<Longrightarrow>
    limiter_step w (grant dest now b (w\<lparr>lw_l := l, lw_now := now\<rparr>))"
| Cleaned: "lw_now w \<le> now \<Longrightarrow> (dest, a) \<in> set (rl_timers (lw_l w)) \<Longrightarrow>
    limiter_step w (w\<lparr>lw_l := run_cleanup dest a now (lw_l w), lw_now := now\<rparr>)"

definition first_limiter :: "int \<Rightarrow> int \<Rightarrow> int \<Rightarrow> limiter_world" where
  "first_limiter maxPerWindow windowMs now = \<lparr>lw_l = new_limiter maxPerWindow windowMs, lw_now = now,
     lw_granted = (\<lambda>_. [])\<rparr>"

section \<open>The window is the recent end of the history\<close>

definition spaced :: "int \<Rightarrow> nat \<Rightarrow> int list \<Rightarrow> bool" where
  "spaced windowMs n g \<longleftrightarrow> (\<forall>i. i + n < length g \<longrightarrow> g ! i + windowMs \<le> g ! (i + n))"

definition sound :: "int \<Rightarrow> nat \<Rightarrow> int \<Rightarrow> int list \<Rightarrow> int list \<Rightarrow> bool" where
  "sound windowMs n now g window \<longleftrightarrow> sorted g \<and> (\<forall>t \<in> set g. t \<le> now) \<and> spaced windowMs n g
     \<and> (\<exists>k \<le> length g. window = drop k g \<and> (\<forall>t \<in> set (take k g). t \<le> now - windowMs))"

lemma sound_later: "sound W n now g ws \<Longrightarrow> now \<le> now' \<Longrightarrow> sound W n now' g ws"
proof -
  assume a: "sound W n now g ws" "now \<le> now'"
  then obtain k where k: "k \<le> length g" "ws = drop k g" "\<forall>t \<in> set (take k g). t \<le> now - W"
    unfolding sound_def by blast
  have "\<forall>t \<in> set (take k g). t \<le> now' - W" using k(3) a(2) by force
  moreover have "\<forall>t \<in> set g. t \<le> now'" using a unfolding sound_def by force
  ultimately show "sound W n now' g ws" using a(1) k(1,2) unfolding sound_def by blast
qed

lemma sound_prune:
  assumes "sound W n now g ws" "now \<le> now'"
  shows "sound W n now' g (pruneWindow W now' ws)"
proof -
  have later: "sound W n now' g ws" by (rule sound_later [OF assms])
  then obtain k where k: "k \<le> length g" "ws = drop k g" "\<forall>t \<in> set (take k g). t \<le> now' - W"
    and g: "\<forall>t \<in> set g. t \<le> now'" unfolding sound_def by blast
  have "map (min now') ws = ws"
    using g by (auto simp: k(2) min_absorb2 intro!: map_idI dest!: in_set_dropD)
  then obtain j where j: "pruneWindow W now' ws = drop j ws" "\<forall>t \<in> set (take j ws). t \<le> now' - W" "j \<le> length ws"
    unfolding pruneWindow_def
    by (metis dropWhile_eq_drop length_takeWhile_le set_takeWhileD takeWhile_eq_take)
  have "set (take (k + j) g) = set (take k g) \<union> set (take j ws)" by (simp add: k(2) take_add)
  with j k have "k + j \<le> length g \<and> pruneWindow W now' ws = drop (k + j) g
      \<and> (\<forall>t \<in> set (take (k + j) g). t \<le> now' - W)" by (auto simp: add.commute)
  with later show ?thesis unfolding sound_def by blast
qed

lemma sound_push:
  assumes "sound W n now g ws" "length ws < n"
  shows "sound W n now (g @ [now]) (ws @ [now])"
proof -
  obtain k where k: "k \<le> length g" "ws = drop k g" "\<forall>t \<in> set (take k g). t \<le> now - W"
    using assms(1) by (auto simp: sound_def)
  have "spaced W n (g @ [now])"
    unfolding spaced_def
  proof (intro allI impI)
    fix i assume i: "i + n < length (g @ [now])"
    show "(g @ [now]) ! i + W \<le> (g @ [now]) ! (i + n)"
    proof (cases "i + n < length g")
      case True
      with assms(1) show ?thesis by (auto simp: sound_def spaced_def nth_append)
    next
      case False
      with i have eq: "i + n = length g" by simp
      then have "i < k" using assms(2) k(1,2) by simp
      with k have "g ! i \<in> set (take k g)" by (auto simp: in_set_conv_nth intro: exI [of _ i])
      with k(3) have "g ! i \<le> now - W" by blast
      with eq assms(2) show ?thesis by (simp add: nth_append)
    qed
  qed
  moreover have "\<exists>k' \<le> length (g @ [now]). ws @ [now] = drop k' (g @ [now])
      \<and> (\<forall>t \<in> set (take k' (g @ [now])). t \<le> now - W)"
    by (rule exI [of _ k]) (use k in auto)
  ultimately show ?thesis using assms(1) by (auto simp: sound_def sorted_append)
qed

section \<open>The invariant\<close>

definition window_of :: "rate_limiter \<Rightarrow> string \<Rightarrow> int list" where
  "window_of l dest = (case rl_windows l dest of None \<Rightarrow> [] | Some a \<Rightarrow> rl_arrays l a)"

definition refs_ok :: "rate_limiter \<Rightarrow> bool" where
  "refs_ok l \<longleftrightarrow> inj_on (rl_windows l) (dom (rl_windows l)) \<and> (\<forall>d a. rl_windows l d = Some a \<longrightarrow> a < rl_next l)
     \<and> (\<forall>d m t0 a. Asleep m t0 a \<in> set (rl_chains l d) \<longrightarrow> rl_windows l d = Some a)"

definition limiter_inv :: "int \<Rightarrow> nat \<Rightarrow> limiter_world \<Rightarrow> bool" where
  "limiter_inv W n w \<longleftrightarrow> rl_windowMs (lw_l w) = W \<and> rl_maxPerWindow (lw_l w) = n \<and> refs_ok (lw_l w)
     \<and> (\<forall>d. sound W n (lw_now w) (lw_granted w d) (window_of (lw_l w) d))"

lemma window_of_cong: "rl_windows l' = rl_windows l \<Longrightarrow> rl_arrays l' = rl_arrays l \<Longrightarrow> window_of l' = window_of l"
  by (rule ext) (auto simp: window_of_def split: option.split)

lemma in_set_tlD: "x \<in> set (tl xs) \<Longrightarrow> x \<in> set xs"
  by (cases xs) simp_all

lemma asleep_in: "refs_ok l \<Longrightarrow> Asleep m t0 a \<in> set (rl_chains l d) \<Longrightarrow> rl_windows l d = Some a"
  unfolding refs_ok_def by blast

lemma refs_ok_chains:
  assumes "refs_ok l" "rl_windows l' = rl_windows l" "rl_next l' = rl_next l"
    "\<And>d m t0 a. Asleep m t0 a \<in> set (rl_chains l' d) \<Longrightarrow> Asleep m t0 a \<in> set (rl_chains l d) \<or> rl_windows l d = Some a"
  shows "refs_ok l'"
proof -
  have "rl_windows l d = Some a" if "Asleep m t0 a \<in> set (rl_chains l' d)" for d m t0 a
    using assms(4) [OF that] asleep_in [OF assms(1)] by blast
  with assms(1-3) show ?thesis by (simp add: refs_ok_def)
qed

lemma windows_inj: "refs_ok l \<Longrightarrow> rl_windows l d = Some a \<Longrightarrow> rl_windows l d' = Some a \<Longrightarrow> d = d'"
  unfolding refs_ok_def inj_on_def by (metis domI)

lemma getWindow_props:
  assumes "getWindow dest l = (l', a)" "refs_ok l"
  shows "refs_ok l'" "window_of l' = window_of l" "rl_windows l' dest = Some a" "rl_chains l' = rl_chains l"
    "rl_windowMs l' = rl_windowMs l" "rl_maxPerWindow l' = rl_maxPerWindow l"
proof -
  show "rl_windows l' dest = Some a" "rl_chains l' = rl_chains l" "rl_windowMs l' = rl_windowMs l"
    "rl_maxPerWindow l' = rl_maxPerWindow l"
    using assms(1) by (auto simp: getWindow_def split: option.splits)
  show "refs_ok l'"
  proof (cases "rl_windows l dest")
    case (Some b)
    with assms show ?thesis by (simp add: getWindow_def)
  next
    case None
    with assms(1) have l': "l' = l\<lparr>rl_windows := (rl_windows l)(dest \<mapsto> rl_next l),
        rl_arrays := (rl_arrays l)(rl_next l := []), rl_next := rl_next l + 1\<rparr>"
      by (auto simp: getWindow_def)
    have lt: "a < rl_next l" if "rl_windows l d = Some a" for d a using assms(2) that by (simp add: refs_ok_def)
    have "inj_on ((rl_windows l)(dest \<mapsto> rl_next l)) (dom ((rl_windows l)(dest \<mapsto> rl_next l)))"
      using assms(2) lt by (fastforce simp: refs_ok_def inj_on_def dom_def)
    moreover have "a < rl_next l + 1" if "((rl_windows l)(dest \<mapsto> rl_next l)) d = Some a" for d a
      using that lt by (fastforce split: if_splits)
    moreover have "((rl_windows l)(dest \<mapsto> rl_next l)) d = Some a" if "Asleep m t0 a \<in> set (rl_chains l d)" for d m t0 a
    proof -
      have "rl_windows l d = Some a" using assms(2) that by (auto simp: refs_ok_def)
      with None show ?thesis by auto
    qed
    ultimately show ?thesis unfolding refs_ok_def l' by auto
  qed
  have "rl_next l \<noteq> a" if "rl_windows l d = Some a" for d a using assms(2) that by (auto simp: refs_ok_def)
  then show "window_of l' = window_of l"
    using assms(1) by (fastforce simp: getWindow_def window_of_def fun_eq_iff split: option.splits if_splits)
qed

lemma try_reserve_props:
  assumes "try_reserve a now l = (l', b)" "refs_ok l" "rl_windows l dest = Some a"
  shows "refs_ok l'" "rl_windows l' = rl_windows l" "rl_chains l' = rl_chains l"
    "rl_windowMs l' = rl_windowMs l" "rl_maxPerWindow l' = rl_maxPerWindow l"
    "window_of l' d = (if d = dest then let ws = pruneWindow (rl_windowMs l) now (window_of l dest) in
       if b then ws @ [now] else ws else window_of l d)"
    "b \<longleftrightarrow> length (pruneWindow (rl_windowMs l) now (window_of l dest)) < rl_maxPerWindow l"
proof -
  show "refs_ok l'" "rl_windows l' = rl_windows l" "rl_chains l' = rl_chains l"
    "rl_windowMs l' = rl_windowMs l" "rl_maxPerWindow l' = rl_maxPerWindow l"
    using assms by (auto simp: try_reserve_def Let_def refs_ok_def split: if_splits)
  show "b \<longleftrightarrow> length (pruneWindow (rl_windowMs l) now (window_of l dest)) < rl_maxPerWindow l"
    using assms by (auto simp: try_reserve_def Let_def window_of_def split: if_splits)
  have "rl_windows l d \<noteq> Some a" if "d \<noteq> dest" using windows_inj [OF assms(2,3), of d] that by auto
  then show "window_of l' d = (if d = dest then let ws = pruneWindow (rl_windowMs l) now (window_of l dest) in
       if b then ws @ [now] else ws else window_of l d)"
    using assms(1,3) by (auto simp: try_reserve_def Let_def window_of_def split: if_splits option.splits)
qed

lemma cleanup_scheduled [simp]:
  "rl_windows (scheduleWindowCleanup dest l) = rl_windows l" "rl_arrays (scheduleWindowCleanup dest l) = rl_arrays l"
  "rl_chains (scheduleWindowCleanup dest l) = rl_chains l" "rl_next (scheduleWindowCleanup dest l) = rl_next l"
  "rl_windowMs (scheduleWindowCleanup dest l) = rl_windowMs l"
  "rl_maxPerWindow (scheduleWindowCleanup dest l) = rl_maxPerWindow l"
  by (auto simp: scheduleWindowCleanup_def split: option.split)

lemma leave_chain_props:
  "refs_ok l \<Longrightarrow> refs_ok (leave_chain dest l)" "window_of (leave_chain dest l) = window_of l"
  "rl_windowMs (leave_chain dest l) = rl_windowMs l" "rl_maxPerWindow (leave_chain dest l) = rl_maxPerWindow l"
proof -
  show "refs_ok l \<Longrightarrow> refs_ok (leave_chain dest l)"
    by (erule refs_ok_chains) (auto simp: leave_chain_def Let_def split: if_splits dest: in_set_tlD)
  show "window_of (leave_chain dest l) = window_of l"
    by (rule window_of_cong) (simp_all add: leave_chain_def Let_def)
qed (auto simp: leave_chain_def Let_def)

text \<open>A round in the current array of a destination, whatever becomes of it.\<close>

lemma round_props:
  assumes "acquire_round dest m t0 a now l = (l', r)" "refs_ok l" "rl_windows l dest = Some a"
    and "\<And>d. sound (rl_windowMs l) (rl_maxPerWindow l) t (g d) (window_of l d)" "t \<le> now"
  shows "refs_ok l'" "rl_windowMs l' = rl_windowMs l" "rl_maxPerWindow l' = rl_maxPerWindow l"
    "sound (rl_windowMs l) (rl_maxPerWindow l) now
       (if d = dest \<and> was_reserved r then g d @ [now] else g d) (window_of l' d)"
proof -
  obtain l1 b where t: "try_reserve a now l = (l1, b)" by fastforce
  note p = try_reserve_props [OF t assms(2,3)]
  have l': "(\<exists>l2. l' = leave_chain dest l2 \<and> l2 = l1) \<or>
      (\<exists>c. l' = l1\<lparr>rl_chains := (rl_chains l1)(dest := Asleep m t0 a # tl (rl_chains l1 dest))\<rparr>)"
    and r: "was_reserved r = b"
    using assms(1) t by (auto simp: acquire_round_def Let_def was_reserved_def split: bool.splits if_splits)
  have asleep: "refs_ok (l1\<lparr>rl_chains := (rl_chains l1)(dest := Asleep m t0 a # tl (rl_chains l1 dest))\<rparr>)"
    by (rule refs_ok_chains [OF p(1)]) (use p(2) assms(3) in \<open>auto split: if_splits dest: in_set_tlD\<close>)
  show "refs_ok l'" using l' asleep leave_chain_props(1) [OF p(1)] by auto
  show "rl_windowMs l' = rl_windowMs l" "rl_maxPerWindow l' = rl_maxPerWindow l"
    using l' p(4,5) leave_chain_props(3,4) by auto
  have w: "window_of l' = window_of l1"
    using l' leave_chain_props(2) window_of_cong [of "l1\<lparr>rl_chains := c\<rparr>" l1 for c] by auto
  have "sound (rl_windowMs l) (rl_maxPerWindow l) now (g d) (window_of l1 d)" if "\<not> (d = dest \<and> b)"
    using sound_prune [OF assms(4,5), of d] sound_later [OF assms(4,5), of d] that p(6) [of d]
    by (auto simp: Let_def split: if_splits)
  moreover have "sound (rl_windowMs l) (rl_maxPerWindow l) now (g d @ [now]) (window_of l1 d)" if "d = dest" "b"
    using sound_push [OF sound_prune [OF assms(4,5), of dest]] that p(6) [of d] p(7) by (simp add: Let_def)
  ultimately show "sound (rl_windowMs l) (rl_maxPerWindow l) now
       (if d = dest \<and> was_reserved r then g d @ [now] else g d) (window_of l' d)" using w r by simp
qed

lemma run_props:
  assumes "run_acquire dest now l = Some (l', r)" "refs_ok l"
    and "\<And>d. sound (rl_windowMs l) (rl_maxPerWindow l) t (g d) (window_of l d)" "t \<le> now"
  shows "refs_ok l' \<and> rl_windowMs l' = rl_windowMs l \<and> rl_maxPerWindow l' = rl_maxPerWindow l
    \<and> (\<forall>d. sound (rl_windowMs l) (rl_maxPerWindow l) now
       (if d = dest \<and> was_reserved r then g d @ [now] else g d) (window_of l' d))"
proof (cases "rl_chains l dest")
  case Nil
  with assms(1) show ?thesis by (simp add: run_acquire_def)
next
  case (Cons x xs)
  show ?thesis
  proof (cases x)
    case (Fresh m)
    obtain l1 a where w: "getWindow dest l = (l1, a)" by fastforce
    note p = getWindow_props [OF w assms(2)]
    have "acquire_round dest m now a now l1 = (l', r)"
      using assms(1) Cons Fresh w by (simp add: run_acquire_def)
    note q = round_props [OF this p(1,3) _ assms(4), of g]
    show ?thesis using q assms(3) p by simp
  next
    case (Asleep m t0 a)
    then have "acquire_round dest m t0 a now l = (l', r)" "rl_windows l dest = Some a"
      using assms(1) Cons asleep_in [OF assms(2), of m t0 a dest] by (simp_all add: run_acquire_def)
    note q = round_props [OF this(1) assms(2) this(2) _ assms(4), of g]
    show ?thesis using q assms(3) by simp
  qed
qed

lemma try_props:
  assumes "tryAcquireSync dest now l = (l', b)" "refs_ok l"
    and "\<And>d. sound (rl_windowMs l) (rl_maxPerWindow l) t (g d) (window_of l d)" "t \<le> now"
  shows "refs_ok l' \<and> rl_windowMs l' = rl_windowMs l \<and> rl_maxPerWindow l' = rl_maxPerWindow l
    \<and> (\<forall>d. sound (rl_windowMs l) (rl_maxPerWindow l) now (if d = dest \<and> b then g d @ [now] else g d) (window_of l' d))"
proof -
  obtain l1 a where w: "getWindow dest l = (l1, a)" by fastforce
  note p = getWindow_props [OF w assms(2)]
  obtain l2 c where t: "try_reserve a now l1 = (l2, c)" by fastforce
  note q = try_reserve_props [OF t p(1,3)]
  have l': "c = b" "l' = (if b then scheduleWindowCleanup dest l2 else l2)"
    using assms(1) w t by (auto simp: tryAcquireSync_def split: bool.splits)
  have same: "window_of l' = window_of l2" "refs_ok l' = refs_ok l2" "rl_windowMs l' = rl_windowMs l"
    "rl_maxPerWindow l' = rl_maxPerWindow l"
    using l'(2) q(4,5) p(5,6) window_of_cong [of "scheduleWindowCleanup dest l2" l2]
    by (auto simp: refs_ok_def)
  have "sound (rl_windowMs l) (rl_maxPerWindow l) now (if d = dest \<and> b then g d @ [now] else g d) (window_of l2 d)" for d
  proof (cases "d = dest")
    case True
    show ?thesis
    proof (cases b)
      case b: True
      with sound_push [OF sound_prune [OF assms(3,4), of dest]] True q(6) [of d] q(7) l'(1) p show ?thesis
        by (simp add: Let_def)
    next
      case False
      with sound_prune [OF assms(3,4), of dest] True q(6) [of d] l'(1) p show ?thesis by (simp add: Let_def)
    qed
  next
    case False
    with sound_later [OF assms(3,4), of d] q(6) [of d] p show ?thesis by simp
  qed
  with same q(1) show ?thesis by simp
qed

lemma cleanup_props:
  assumes "refs_ok l" "\<And>d. sound (rl_windowMs l) (rl_maxPerWindow l) t (g d) (window_of l d)" "t \<le> now"
  shows "refs_ok (run_cleanup dest a now l)" "rl_windowMs (run_cleanup dest a now l) = rl_windowMs l"
    "rl_maxPerWindow (run_cleanup dest a now l) = rl_maxPerWindow l"
    "sound (rl_windowMs l) (rl_maxPerWindow l) now (g d) (window_of (run_cleanup dest a now l) d)"
proof -
  let ?l = "l\<lparr>rl_timers := remove1 (dest, a) (rl_timers l),
           rl_arrays := (rl_arrays l)(a := pruneWindow (rl_windowMs l) now (rl_arrays l a))\<rparr>"
  have r: "run_cleanup dest a now l = ?l \<or> (rl_arrays ?l a = [] \<and> rl_windows l dest = Some a \<and> rl_chains l dest = []
      \<and> run_cleanup dest a now l = ?l\<lparr>rl_windows := (rl_windows l)(dest := None)\<rparr>)"
    by (simp add: run_cleanup_def Let_def)
  then show "rl_windowMs (run_cleanup dest a now l) = rl_windowMs l"
    "rl_maxPerWindow (run_cleanup dest a now l) = rl_maxPerWindow l" by (elim disjE conjE; simp)+
  have "inj_on ((rl_windows l)(dest := None)) (dom ((rl_windows l)(dest := None)))"
    using assms(1) by (auto simp: refs_ok_def inj_on_def dom_def split: if_splits)
  with r assms(1) show "refs_ok (run_cleanup dest a now l)" unfolding refs_ok_def by (elim disjE conjE) auto
  have "window_of (run_cleanup dest a now l) d \<in> {window_of l d, pruneWindow (rl_windowMs l) now (window_of l d)}"
    using r by (elim disjE conjE) (auto simp: window_of_def split: option.splits)
  with sound_prune [OF assms(2,3), of d] sound_later [OF assms(2,3), of d]
  show "sound (rl_windowMs l) (rl_maxPerWindow l) now (g d) (window_of (run_cleanup dest a now l) d)" by auto
qed

lemma granted [simp]:
  "lw_granted (grant dest now b w) d = (if d = dest \<and> b then lw_granted w d @ [now] else lw_granted w d)"
  "lw_l (grant dest now b w) = lw_l w" "lw_now (grant dest now b w) = lw_now w"
  by (simp_all add: grant_def)

lemma limiter_invI:
  "rl_windowMs (lw_l w) = W \<Longrightarrow> rl_maxPerWindow (lw_l w) = n \<Longrightarrow> refs_ok (lw_l w) \<Longrightarrow>
    (\<And>d. sound W n (lw_now w) (lw_granted w d) (window_of (lw_l w) d)) \<Longrightarrow> limiter_inv W n w"
  unfolding limiter_inv_def by blast

lemma limiter_step_inv:
  assumes "limiter_step w w'" "limiter_inv W n w"
  shows "limiter_inv W n w'"
proof -
  let ?l = "lw_l w"
  have inv: "rl_windowMs ?l = W" "rl_maxPerWindow ?l = n" "refs_ok ?l"
    "\<And>d. sound (rl_windowMs ?l) (rl_maxPerWindow ?l) (lw_now w) (lw_granted w d) (window_of ?l d)"
    using assms(2) by (auto simp: limiter_inv_def)
  from assms(1) show ?thesis
  proof cases
    case (Asked dest m)
    have "refs_ok (enqueue_acquire dest m ?l)"
      by (rule refs_ok_chains [OF inv(3)]) (auto simp: enqueue_acquire_def split: if_splits)
    moreover have "window_of (enqueue_acquire dest m ?l) = window_of ?l"
      by (rule window_of_cong) (simp_all add: enqueue_acquire_def)
    ultimately show ?thesis using Asked assms(2) by (simp add: limiter_inv_def enqueue_acquire_def)
  next
    case (Runs now dest l r)
    have now_is: "lw_l w' = l" "lw_now w' = now" unfolding Runs(1) by simp_all
    note p = run_props [OF Runs(3) inv(3,4) Runs(2)]
    have "sound W n now (lw_granted w' d) (window_of l d)" for d
      unfolding Runs(1) using conjunct2 [OF conjunct2 [OF conjunct2 [OF p]], rule_format, of d] inv(1,2) by (auto split: if_splits)
    with conjunct1 [OF p] conjunct1 [OF conjunct2 [OF p]] conjunct1 [OF conjunct2 [OF conjunct2 [OF p]]] inv(1,2) show ?thesis
      by (intro limiter_invI) (simp_all only: now_is)
  next
    case (Tried now dest l b)
    have now_is: "lw_l w' = l" "lw_now w' = now" unfolding Tried(1) by simp_all
    note p = try_props [OF Tried(3) inv(3,4) Tried(2)]
    have "sound W n now (lw_granted w' d) (window_of l d)" for d
      unfolding Tried(1) using conjunct2 [OF conjunct2 [OF conjunct2 [OF p]], rule_format, of d] inv(1,2) by (auto split: if_splits)
    with conjunct1 [OF p] conjunct1 [OF conjunct2 [OF p]] conjunct1 [OF conjunct2 [OF conjunct2 [OF p]]] inv(1,2) show ?thesis
      by (intro limiter_invI) (simp_all only: now_is)
  next
    case (Cleaned now dest a)
    from cleanup_props [OF inv(3,4) Cleaned(2), where dest = dest and a = a] Cleaned(1) inv(1,2) show ?thesis
      by (simp add: limiter_inv_def)
  qed
qed

text \<open>
  C30: No window of the configured length ever holds more reservations of a destination than the cap.
  Whatever mixture of waiting acquires, bounded acquires, synchronous reservations and cleanup timers
  runs, on any destinations, as long as the clock does not go back: two reservations of one destination
  that are as many places apart as the cap are at least a window apart in time. A cleanup never
  disconnects an array that a sleeping acquire still uses.
\<close>

theorem window_cap_holds:
  assumes "limiter_step\<^sup>*\<^sup>* (first_limiter maxPerWindow windowMs now) w"
    "i + nat (max 1 maxPerWindow) < length (lw_granted w dest)"
  shows "lw_granted w dest ! i + windowMs \<le> lw_granted w dest ! (i + nat (max 1 maxPerWindow))
    \<and> (\<forall>m t0 a. Asleep m t0 a \<in> set (rl_chains (lw_l w) dest) \<longrightarrow> rl_windows (lw_l w) dest = Some a)"
proof -
  have "limiter_inv windowMs (nat (max 1 maxPerWindow)) w"
    using assms(1)
  proof (induction rule: rtranclp_induct)
    case base
    show ?case
      by (auto simp: limiter_inv_def first_limiter_def new_limiter_def refs_ok_def window_of_def sound_def spaced_def)
  qed (blast intro: limiter_step_inv)
  then have "sound windowMs (nat (max 1 maxPerWindow)) (lw_now w) (lw_granted w dest) (window_of (lw_l w) dest)"
    "refs_ok (lw_l w)" by (auto simp: limiter_inv_def)
  with assms(2) asleep_in [of "lw_l w"] show ?thesis unfolding sound_def spaced_def by blast
qed

theorem window_cap_holds_witness:
  "\<exists>w. limiter_step\<^sup>*\<^sup>* (first_limiter 1 60 100) w \<and> lw_granted w ''a'' = [100, 200]
     \<and> lw_granted w ''a'' ! 0 + 60 \<le> lw_granted w ''a'' ! 1"
proof -
  let ?w0 = "first_limiter 1 60 100"
  define l1 where "l1 = fst (tryAcquireSync ''a'' 100 (lw_l ?w0))"
  define l2 where "l2 = fst (tryAcquireSync ''a'' 200 l1)"
  define w1 where "w1 = grant ''a'' 100 True (?w0\<lparr>lw_l := l1, lw_now := 100\<rparr>)"
  define w2 where "w2 = grant ''a'' 200 True (w1\<lparr>lw_l := l2, lw_now := 200\<rparr>)"
  have "tryAcquireSync ''a'' 100 (lw_l ?w0) = (l1, True)" "tryAcquireSync ''a'' 200 l1 = (l2, True)"
    by (simp_all add: l1_def l2_def tryAcquireSync_def getWindow_def try_reserve_def pruneWindow_def Let_def
        first_limiter_def new_limiter_def scheduleWindowCleanup_def)
  then have eqs: "tryAcquireSync ''a'' 100 (lw_l ?w0) = (l1, True)" "tryAcquireSync ''a'' 200 (lw_l w1) = (l2, True)"
    by (simp_all add: w1_def grant_def)
  have times: "lw_now ?w0 \<le> 100" "lw_now w1 \<le> 200" by (simp_all add: w1_def grant_def first_limiter_def)
  have "limiter_step ?w0 w1" unfolding w1_def by (rule Tried [OF times(1) eqs(1)])
  moreover have "limiter_step w1 w2" unfolding w2_def by (rule Tried [OF times(2) eqs(2)])
  ultimately have run: "limiter_step\<^sup>*\<^sup>* ?w0 w2" by (meson converse_rtranclp_into_rtranclp r_into_rtranclp)
  have g: "lw_granted w2 ''a'' = [100, 200]" by (simp add: w2_def w1_def grant_def first_limiter_def)
  from window_cap_holds [OF run, of 0 "''a''"] g show ?thesis using run by (intro exI [of _ w2]) simp
qed

end
