(* ===== verification/Attestation.thy ===== *)
theory Attestation
  imports Store "HOL-Library.List_Lexorder" "HOL-Library.Char_ord"
begin

text \<open>
  Capability attestations (\<^verbatim>\<open>src/core/capability-attestation.ts\<close>): immutable readiness records that
  admit the execution of a capability only under an exact match of every binding field. The digest
  function of \<^verbatim>\<open>node:crypto\<close> is a parameter, applied to the values whose JSON text is hashed.
\<close>

section \<open>Bindings\<close>

record attestation_binding =
  ab_hostId :: string
  ab_runtimeUser :: string
  ab_releaseSha :: string
  ab_schemaVersion :: int
  ab_providerId :: string
  ab_harnessType :: string
  ab_contractVersion :: string
  ab_capability :: string
  ab_skillName :: string
  ab_skillVersion :: "string option"
  ab_skillDigest :: string
  ab_resolverDigest :: "string option"
  ab_dependencyVersions :: "(string \<times> string) list"
  ab_probeVersion :: string
  ab_canaryId :: string
  ab_mediaRoot :: string

record live_facts =
  lf_hostId :: string
  lf_runtimeUser :: string
  lf_releaseSha :: string
  lf_schemaVersion :: int
  lf_providerId :: string
  lf_harnessType :: string

record skill_identity =
  si_skillName :: string
  si_skillVersion :: "string option"
  si_skillDigest :: string
  si_resolverDigest :: "string option"
  si_dependencyVersions :: "(string \<times> string) list"
  si_probeVersion :: string
  si_canaryId :: string

text \<open>
  The properties of an object in the order of their keys. Two texts of this form are equal exactly when
  the sorted lists are, whatever total order of the keys is taken.
\<close>

definition canonicalDependencyVersions :: "(string \<times> string) list \<Rightarrow> (string \<times> string) list" where
  "canonicalDependencyVersions deps = sort_key fst deps"

definition buildCapabilityAttestationBinding ::
  "live_facts \<Rightarrow> string \<Rightarrow> string \<Rightarrow> skill_identity \<Rightarrow> string \<Rightarrow> attestation_binding" where
  "buildCapabilityAttestationBinding facts contractVersion capability skill mediaRoot =
     \<lparr>ab_hostId = lf_hostId facts, ab_runtimeUser = lf_runtimeUser facts,
      ab_releaseSha = lf_releaseSha facts, ab_schemaVersion = lf_schemaVersion facts,
      ab_providerId = lf_providerId facts, ab_harnessType = lf_harnessType facts,
      ab_contractVersion = contractVersion, ab_capability = capability,
      ab_skillName = si_skillName skill, ab_skillVersion = si_skillVersion skill,
      ab_skillDigest = si_skillDigest skill, ab_resolverDigest = si_resolverDigest skill,
      ab_dependencyVersions = si_dependencyVersions skill, ab_probeVersion = si_probeVersion skill,
      ab_canaryId = si_canaryId skill, ab_mediaRoot = mediaRoot\<rparr>"

text \<open>The columns a binding is stored as and the values that are hashed.\<close>

definition binding_columns :: "attestation_binding \<Rightarrow> attestation_binding" where
  "binding_columns b = b\<lparr>ab_dependencyVersions := canonicalDependencyVersions (ab_dependencyVersions b)\<rparr>"

definition attestationBindingDigest :: "(attestation_binding \<Rightarrow> string) \<Rightarrow> attestation_binding \<Rightarrow> string" where
  "attestationBindingDigest hash b = hash (binding_columns b)"

section \<open>Recorded attestations\<close>

record attestation_evidence =
  ae_probeStdoutRef :: "string option"
  ae_probeStderrRef :: "string option"
  ae_probeExit :: "int option"
  ae_canaryInputRef :: "string option"
  ae_mediaRootReadable :: "bool option"

record attestation_params =
  tp_binding :: attestation_binding
  tp_canaryPass :: bool
  tp_nonce :: string
  tp_attestedAt :: stamp
  tp_expiresAt :: stamp
  tp_evidence :: attestation_evidence

record attestation_row =
  at_id :: int
  at_params :: attestation_params
  at_revoked_at :: "int option"

text \<open>The nonce is unique, so a second record with the same one aborts.\<close>

definition recordCapabilityAttestation ::
  "attestation_params \<Rightarrow> attestation_row list \<times> int \<Rightarrow> ((attestation_row list \<times> int) \<times> int) result" where
  "recordCapabilityAttestation p t = (case t of (rows, lastId) \<Rightarrow>
     throw_if (exists_row (\<lambda>r. tp_nonce (at_params r) = tp_nonce p) rows)
       (Error ''UNIQUE constraint failed: capability_attestations.nonce'')
       (Inr ((rows @ [\<lparr>at_id = lastId + 1,
           at_params = p\<lparr>tp_binding := binding_columns (tp_binding p)\<rparr>, at_revoked_at = None\<rparr>], lastId + 1),
         lastId + 1)))"

text \<open>\<^verbatim>\<open>datetime(x) > datetime('now')\<close>: a text that is not a time is never later.\<close>

definition later_than :: "int \<Rightarrow> stamp \<Rightarrow> bool" where
  "later_than now s \<longleftrightarrow> (case s of At t \<Rightarrow> t > now | Malformed \<Rightarrow> False)"

definition attestation_live :: "int \<Rightarrow> attestation_row \<Rightarrow> bool" where
  "attestation_live now r \<longleftrightarrow> tp_canaryPass (at_params r) \<and> at_revoked_at r = None
     \<and> later_than now (tp_expiresAt (at_params r))"

definition newest_first :: "attestation_row list \<Rightarrow> attestation_row list" where
  "newest_first rows = (let by_id = sort_key (\<lambda>r. - at_id r) rows in
     sort_key (\<lambda>r. case tp_attestedAt (at_params r) of At t \<Rightarrow> - t | Malformed \<Rightarrow> 0)
       (filter (\<lambda>r. tp_attestedAt (at_params r) \<noteq> Malformed) by_id)
     @ filter (\<lambda>r. tp_attestedAt (at_params r) = Malformed) by_id)"

datatype skip_reason = None_recorded | Binding_mismatch | Stale | Revoked | Canary_failed

datatype attestation_admission = Admissible int | Skip skip_reason

definition findAdmissibleAttestation ::
  "attestation_row list \<Rightarrow> attestation_binding \<Rightarrow> int \<Rightarrow> attestation_admission" where
  "findAdmissibleAttestation table b now =
     (if table = [] then Skip None_recorded
      else (case newest_first (filter (\<lambda>r. tp_binding (at_params r) = binding_columns b) table) of
          [] \<Rightarrow> Skip Binding_mismatch
        | newest # older \<Rightarrow> (case find (attestation_live now) (newest # older) of
              Some r \<Rightarrow> Admissible (at_id r)
            | None \<Rightarrow> if \<not> tp_canaryPass (at_params newest) then Skip Canary_failed
                else if at_revoked_at newest \<noteq> None then Skip Revoked else Skip Stale)))"

lemma set_newest_first [simp]: "set (newest_first rows) = set rows"
  by (auto simp: newest_first_def Let_def)

lemma admissible_exact:
  assumes "findAdmissibleAttestation table b now = Admissible k"
  obtains r where "r \<in> set table" "at_id r = k" "tp_binding (at_params r) = binding_columns b"
    "attestation_live now r"
proof -
  let ?rows = "newest_first (filter (\<lambda>r. tp_binding (at_params r) = binding_columns b) table)"
  from assms obtain r where "find (attestation_live now) ?rows = Some r" "at_id r = k"
    by (auto simp: findAdmissibleAttestation_def split: if_splits list.splits option.splits)
  with find_SomeD [of "attestation_live now" ?rows r] that show ?thesis by auto
qed

lemma live_match_admits:
  assumes "r \<in> set table" "tp_binding (at_params r) = binding_columns b" "attestation_live now r"
  shows "\<exists>k. findAdmissibleAttestation table b now = Admissible k"
proof -
  let ?rows = "newest_first (filter (\<lambda>r. tp_binding (at_params r) = binding_columns b) table)"
  have r: "r \<in> set ?rows" using assms by simp
  then obtain x xs where rows: "?rows = x # xs" by (cases ?rows) auto
  obtain y where "find (attestation_live now) ?rows = Some y"
    using r assms(3) find_None_iff [of "attestation_live now" ?rows] by (cases "find (attestation_live now) ?rows") auto
  with rows assms(1) show ?thesis by (auto simp: findAdmissibleAttestation_def)
qed

lemma same_digest_same_columns:
  "inj hash \<Longrightarrow> attestationBindingDigest hash b = attestationBindingDigest hash b' \<longleftrightarrow>
     binding_columns b = binding_columns b'"
  by (simp add: attestationBindingDigest_def inj_eq)

end
