(* ===== verification/Obligations.thy ===== *)
theory Obligations
  imports Attestation Jid Jobs
begin

text \<open>
  The capability obligation store (\<^verbatim>\<open>src/core/capability-obligation-store.ts\<close>) over the tables and
  triggers of \<^verbatim>\<open>src/core/database-migration-58.ts\<close> and \<^verbatim>\<open>src/core/database-migration-60.ts\<close>. An
  obligation is a capability a chat is still owed: it is created with the terminal record of its turn,
  waits for an approval (groups) and an attestation, is claimed under a lease, executed at most once per
  claim, and completed only with a receipt and a proved delivery. The parameters an obligation is
  created with are the columns the identity trigger keeps immutable, so a row holds them as one value.
  A trigger that fires is an error of the statement. Instants are SQL seconds; durations are not
  negative (the modifier texts of SQLite take no other). The evidence text of a receipt is left out.
\<close>

definition CAPABILITY_OBLIGATION_MAX_ATTEMPTS :: int where
  "CAPABILITY_OBLIGATION_MAX_ATTEMPTS = 5"

section \<open>Rows\<close>

datatype event_action = Ea_create | Ea_not_created | Ea_claim | Ea_requeue | Ea_dispatch | Ea_settle
  | Ea_block | Ea_cancel | Ea_re_arm | Ea_migrate | Ea_approval_record | Ea_attestation_record

datatype actor_type = Runtime | Supervisor | Operator

datatype event_detail = No_detail | Existing_obligation int | Approval_detail int string
  | Adjudication_detail "string option" "string option" | Json_detail stored_text
  | Lost_decision event_action "string option" error

record event_params =
  ev_action :: event_action
  ev_actorType :: actor_type
  ev_actorId :: "string option"
  ev_reasonCode :: "string option"
  ev_sourceHash :: "string option"
  ev_claimEpoch :: "int option"
  ev_detail :: event_detail

record event_row =
  vr_id :: int
  vr_obligation_id :: "int option"
  vr_params :: event_params

record retained_media =
  rm_path :: string
  rm_sha256 :: string
  rm_bytes :: int
  rm_policyVersion :: string

record obligation_params =
  bp_sourceInboundSeq :: int
  bp_sourceMessageId :: string
  bp_conversationKey :: string
  bp_deliveryJid :: string
  bp_senderJid :: string
  bp_senderName :: "string option"
  bp_isGroup :: bool
  bp_groupName :: "string option"
  bp_scope :: string
  bp_originRecoveryJobId :: "int option"
  bp_replayText :: string
  bp_contentTypeHint :: "string option"
  bp_contractVersion :: string
  bp_requiredCapability :: string
  bp_capabilityParams :: stored_text
  bp_inputDigest :: string
  bp_sourceDigest :: string
  bp_sourceToken :: "string option"
  bp_retainedMedia :: "retained_media option"
  bp_creationReason :: string

record decision_params =
  dp_auditEvent :: event_params
  dp_obligation :: "obligation_params option"

datatype obligation_state = Bs_waiting_capability | Bs_waiting_approval | Bs_claimed | Bs_completed
  | Bs_exhausted | Bs_blocked_media | Bs_blocked_ambiguous | Bs_cancelled

text \<open>What a drain of a group was approved for; the four columns are always written together.\<close>

record drain_facts =
  df_releaseSha :: string
  df_manifestDigest :: string
  df_drainRunId :: string
  df_attestationDigest :: string

record obligation =
  ob_id :: int
  ob_params :: obligation_params
  ob_creation_evidence_event_id :: int
  ob_created_at :: int
  ob_state :: obligation_state
  ob_claim_token :: "string option"
  ob_claim_epoch :: int
  ob_claim_expires_at :: "int option"
  ob_attempt_count :: int
  ob_next_attempt_at :: "int option"
  ob_completion_proof_id :: "string option"
  ob_receipt_id :: "int option"
  ob_drain_approval_id :: "int option"
  ob_drain_facts :: "drain_facts option"

datatype approval_scope = Dm_scope | Group_scope

record approval_row =
  ap_id :: int
  ap_obligation_id :: int
  ap_destination_jid :: string
  ap_scope :: approval_scope
  ap_facts :: drain_facts
  ap_approver :: string
  ap_approved_at :: int
  ap_expires_at :: int
  ap_revoked_at :: "int option"

record receipt_params =
  xp_obligationId :: int
  xp_logicalTurnId :: string
  xp_toolUseId :: string
  xp_skillName :: string
  xp_contractVersion :: string
  xp_inputDigest :: string
  xp_mediaDigest :: "string option"
  xp_resultOk :: bool
  xp_claimEpoch :: int
  xp_attemptNumber :: int
  xp_sourceDigest :: "string option"

record receipt_row =
  rc_id :: int
  rc_params :: receipt_params

record reservation_row =
  rv_obligation_id :: int
  rv_claim_epoch :: int
  rv_attempt_number :: int
  rv_tool_use_id :: string

record capability_db =
  cb_obligations :: "obligation list"
  cb_last_obligation :: int
  cb_events :: "event_row list"
  cb_last_event :: int
  cb_attestations :: "attestation_row list"
  cb_last_attestation :: int
  cb_approvals :: "approval_row list"
  cb_last_approval :: int
  cb_receipts :: "receipt_row list"
  cb_last_receipt :: int
  cb_reservations :: "reservation_row list"

definition empty_capability_db :: capability_db where
  "empty_capability_db = \<lparr>cb_obligations = [], cb_last_obligation = 0, cb_events = [], cb_last_event = 0,
     cb_attestations = [], cb_last_attestation = 0, cb_approvals = [], cb_last_approval = 0,
     cb_receipts = [], cb_last_receipt = 0, cb_reservations = []\<rparr>"

section \<open>Keyed updates\<close>

definition get_obligation :: "capability_db \<Rightarrow> int \<Rightarrow> obligation option" where
  "get_obligation c k = find (\<lambda>r. ob_id r = k) (cb_obligations c)"

definition cas_obligation ::
  "(obligation \<Rightarrow> bool) \<Rightarrow> (obligation \<Rightarrow> obligation) \<Rightarrow> int \<Rightarrow> capability_db \<Rightarrow> capability_db \<times> bool" where
  "cas_obligation g f k c = (let p = (\<lambda>r. ob_id r = k \<and> g r) in
     (c\<lparr>cb_obligations := update_rows p f (cb_obligations c)\<rparr>, changes p (cb_obligations c) = 1))"

definition wf_capability :: "capability_db \<Rightarrow> bool" where
  "wf_capability c \<longleftrightarrow> keys_ok (map ob_id (cb_obligations c)) (cb_last_obligation c)"

interpretation obligations: row_store get_obligation cas_obligation wf_capability "keeps_id ob_id"
proof unfold_locales
  fix c k k' and f :: "obligation \<Rightarrow> obligation" and g
  assume wf: "wf_capability c" and ok: "keeps_id ob_id f"
  from wf have dist: "distinct (map ob_id (cb_obligations c))"
    by (simp add: wf_capability_def keys_ok_def)
  show "snd (cas_obligation g f k c) = (case get_obligation c k of None \<Rightarrow> False | Some r \<Rightarrow> g r)"
    by (simp add: cas_obligation_def Let_def get_obligation_def changes_by_key [OF dist] split: option.split)
  show "get_obligation (fst (cas_obligation g f k c)) k' =
      (if k' = k then map_option (\<lambda>r. if g r then f r else r) (get_obligation c k) else get_obligation c k')"
    using ok by (simp add: cas_obligation_def Let_def get_obligation_def find_keyed_update keeps_id_def)
  show "wf_capability (fst (cas_obligation g f k c))"
    using wf ok by (simp add: wf_capability_def cas_obligation_def Let_def map_key_update_rows keeps_id_def)
qed

section \<open>Triggers\<close>

definition state_whitelist :: "obligation_state \<Rightarrow> obligation_state set" where
  "state_whitelist st = (case st of
     Bs_waiting_approval \<Rightarrow> {Bs_waiting_capability, Bs_cancelled}
   | Bs_waiting_capability \<Rightarrow> {Bs_claimed, Bs_blocked_media, Bs_cancelled}
   | Bs_claimed \<Rightarrow> {Bs_completed, Bs_waiting_capability, Bs_exhausted, Bs_blocked_media, Bs_blocked_ambiguous}
   | Bs_blocked_media \<Rightarrow> {Bs_waiting_capability, Bs_cancelled}
   | Bs_blocked_ambiguous \<Rightarrow> {Bs_waiting_capability, Bs_cancelled}
   | _ \<Rightarrow> {})"

text \<open>The consumed approval: of this obligation, for its destination, current, and for the facts given.\<close>

definition approval_covers :: "int \<Rightarrow> obligation \<Rightarrow> drain_facts \<Rightarrow> approval_row \<Rightarrow> bool" where
  "approval_covers now r facts a \<longleftrightarrow> ap_obligation_id a = ob_id r \<and> ap_scope a = Group_scope
     \<and> ap_destination_jid a = bp_deliveryJid (ob_params r) \<and> ap_facts a = facts
     \<and> ap_revoked_at a = None \<and> ap_expires_at a > now"

definition group_gate_open :: "int \<Rightarrow> capability_db \<Rightarrow> obligation \<Rightarrow> obligation \<Rightarrow> bool" where
  "group_gate_open now c old new \<longleftrightarrow> (case (ob_drain_approval_id new, ob_drain_facts new) of
     (Some k, Some facts) \<Rightarrow> exists_row (\<lambda>a. ap_id a = k \<and> approval_covers now old facts a) (cb_approvals c)
   | _ \<Rightarrow> False)"

definition minted_message_id :: "int \<Rightarrow> int \<Rightarrow> string" where
  "minted_message_id k attempt = ''obl:'' @ int_str k @ '':'' @ int_str attempt"

text \<open>The receipt that proves the current attempt: its turn ended with a proved echo.\<close>

definition receipt_proves :: "db \<Rightarrow> obligation \<Rightarrow> string \<Rightarrow> receipt_row \<Rightarrow> bool" where
  "receipt_proves d r proof row \<longleftrightarrow> (let p = rc_params row in xp_obligationId p = ob_id r
     \<and> xp_claimEpoch p = ob_claim_epoch r \<and> xp_attemptNumber p = ob_attempt_count r \<and> xp_resultOk p
     \<and> xp_contractVersion p = bp_contractVersion (ob_params r)
     \<and> xp_inputDigest p = bp_inputDigest (ob_params r)
     \<and> xp_sourceDigest p = Some (bp_sourceDigest (ob_params r))
     \<and> (case bp_retainedMedia (ob_params r) of None \<Rightarrow> True | Some m \<Rightarrow> xp_mediaDigest p = Some (rm_sha256 m))
     \<and> exists_row (\<lambda>t. tt_logical_turn_id t = xp_logicalTurnId p \<and> tt_delivery_kind t = ''echoed''
         \<and> tt_delivery_op_id t \<noteq> None \<and> proof = ''ttr:'' @ int_str (tt_id t)
         \<and> exists_row (\<lambda>i. tt_inbound_seq t = Some (ie_seq i)
             \<and> ie_message_id i = minted_message_id (ob_id r) (ob_attempt_count r)) (inbound_events d))
         (terminal_records d))"

definition completion_gate_open :: "db \<Rightarrow> capability_db \<Rightarrow> obligation \<Rightarrow> obligation \<Rightarrow> bool" where
  "completion_gate_open d c old new \<longleftrightarrow> (case (ob_completion_proof_id new, ob_receipt_id new) of
     (Some proof, Some k) \<Rightarrow> exists_row (\<lambda>row. rc_id row = k
        \<and> receipt_proves d (new\<lparr>ob_claim_epoch := ob_claim_epoch old\<rparr>) proof row) (cb_receipts c)
   | _ \<Rightarrow> False)"

definition state_triggers :: "db \<Rightarrow> int \<Rightarrow> capability_db \<Rightarrow> obligation \<Rightarrow> obligation \<Rightarrow> error option" where
  "state_triggers d now c old new =
     (if ob_state new \<noteq> ob_state old \<and> ob_state new \<notin> state_whitelist (ob_state old)
      then Some (Error ''capability_obligations: illegal state transition'')
      else if bp_isGroup (ob_params old) \<and> ob_state old = Bs_waiting_approval
        \<and> ob_state new = Bs_waiting_capability \<and> \<not> group_gate_open now c old new
      then Some (Error ''capability_obligations: group drain requires consuming a current destination-specific approval'')
      else if ob_state new = Bs_completed \<and> ob_state old = Bs_claimed \<and> \<not> completion_gate_open d c old new
      then Some (Error ''capability_obligations: completed requires a bound execution receipt and a completion proof'')
      else None)"

text \<open>
  \<^verbatim>\<open>UPDATE capability_obligations SET state .. WHERE id = ? AND guard RETURNING ..\<close>: the row as it is
  after the update, if there was one.
\<close>

definition update_obligation ::
  "db \<Rightarrow> int \<Rightarrow> (obligation \<Rightarrow> bool) \<Rightarrow> (obligation \<Rightarrow> obligation) \<Rightarrow> int \<Rightarrow> capability_db
    \<Rightarrow> (capability_db \<times> obligation option) result" where
  "update_obligation d now g f k c = (case get_obligation c k of
     None \<Rightarrow> Inr (c, None)
   | Some r \<Rightarrow> if \<not> g r then Inr (c, None)
       else (case state_triggers d now c r (f r) of Some e \<Rightarrow> Inl e
         | None \<Rightarrow> Inr (fst (cas_obligation g f k c), Some (f r))))"

section \<open>Creation\<close>

definition hex64_digest :: "string \<Rightarrow> bool" where
  "hex64_digest s \<longleftrightarrow> length s = 64 \<and> list_all lower_hex s"

definition validateCapabilityDecisionParams :: "decision_params \<Rightarrow> unit result" where
  "validateCapabilityDecisionParams p = (let action = ev_action (dp_auditEvent p) in
     throw_if (action \<noteq> Ea_create \<and> action \<noteq> Ea_not_created)
       (Error ''Capability decision audit action must be create or not_created'')
    (throw_if ((action = Ea_create) \<noteq> (dp_obligation p \<noteq> None))
       (Error ''Capability decision obligation payload must accompany exactly the create action'')
    (case dp_obligation p of None \<Rightarrow> Inr () | Some ob \<Rightarrow>
       throw_if (bp_replayText ob = []) (Error ''Capability obligation requires non-empty replay text'')
      (throw_if (\<not> safe_integer (bp_sourceInboundSeq ob) \<or> bp_sourceInboundSeq ob \<le> 0)
         (Error ''Capability obligation requires a journaled source inbound sequence'')
      (throw_if (bp_isGroup ob \<and> bp_groupName ob = None)
         (Error ''Capability obligation for a group requires a group name'')
      (throw_if (\<not> hex64_digest (bp_inputDigest ob))
         (Error ''Capability obligation requires a 64-hex input digest'')
      (throw_if (\<not> hex64_digest (bp_sourceDigest ob))
         (Error ''Capability obligation requires a 64-hex source digest'')
      (throw_if (case bp_retainedMedia ob of None \<Rightarrow> False | Some m \<Rightarrow> bp_sourceDigest ob \<noteq> rm_sha256 m)
         (Error ''Capability obligation source digest must equal the retained media digest'')
      (throw_if (bp_retainedMedia ob \<noteq> None \<and> bp_sourceToken ob \<noteq> None)
         (Error ''Capability obligation must not carry both retained media and a source token'')
      (throw_if (bp_retainedMedia ob = None \<and> bp_sourceToken ob = None)
         (Error ''Capability obligation without media requires a source token'')
      (throw_if (text_parse (bp_capabilityParams ob) = None)
         (Error ''Capability obligation params must be canonical JSON'')
         (Inr ()))))))))))))"

definition appendEventWithinCallerTransaction ::
  "event_params \<Rightarrow> int option \<Rightarrow> capability_db \<Rightarrow> capability_db \<times> int" where
  "appendEventWithinCallerTransaction e k c = (let i = cb_last_event c + 1 in
     (c\<lparr>cb_events := cb_events c @ [\<lparr>vr_id = i, vr_obligation_id = k, vr_params = e\<rparr>], cb_last_event := i\<rparr>, i))"

definition source_key :: "obligation_params \<Rightarrow> int \<times> string \<times> string \<times> string" where
  "source_key p = (bp_sourceInboundSeq p, bp_sourceMessageId p, bp_contractVersion p, bp_requiredCapability p)"

text \<open>The CHECK and UNIQUE constraints of the table that the validated parameters leave open.\<close>

definition ascii_lower :: "char \<Rightarrow> nat" where
  "ascii_lower c = (let n = of_char c in if 65 \<le> n \<and> n \<le> 90 then n + 32 else n)"

definition continuation_byte :: "char \<Rightarrow> bool" where
  "continuation_byte c \<longleftrightarrow> 128 \<le> (of_char c :: nat) \<and> (of_char c :: nat) < 192"

text \<open>\<^verbatim>\<open>LIKE 'reviewed_backfill:%'\<close>: letters in either case, and the underscore is any one character.\<close>

definition reviewed_backfill :: "string \<Rightarrow> bool" where
  "reviewed_backfill s \<longleftrightarrow> map ascii_lower (take 8 s) = map of_char ''reviewed''
     \<and> list_ex (\<lambda>n. list_all continuation_byte (take (n - 1) (drop 9 s))
         \<and> map ascii_lower (take 9 (drop (8 + n) s)) = map of_char ''backfill:'') [1..<5]"

definition insert_allowed :: "obligation_params \<Rightarrow> capability_db \<Rightarrow> bool" where
  "insert_allowed p c \<longleftrightarrow> bp_scope p = ''per_chat''
     \<and> (bp_creationReason p = ''harness_capability_gap'' \<or> reviewed_backfill (bp_creationReason p))
     \<and> (case bp_retainedMedia p of None \<Rightarrow> True | Some m \<Rightarrow> length (rm_sha256 m) = 64 \<and> 0 \<le> rm_bytes m)
     \<and> \<not> exists_row (\<lambda>r. source_key (ob_params r) = source_key p) (cb_obligations c)"

definition insertWithinCallerTransaction ::
  "obligation_params \<Rightarrow> int \<Rightarrow> int \<Rightarrow> capability_db \<Rightarrow> (capability_db \<times> int) result" where
  "insertWithinCallerTransaction p eventId now c =
     throw_if (\<not> insert_allowed p c) (Error ''constraint failed: capability_obligations'')
       (let i = cb_last_obligation c + 1 in Inr
         (c\<lparr>cb_obligations := cb_obligations c @
              [\<lparr>ob_id = i, ob_params = p, ob_creation_evidence_event_id = eventId, ob_created_at = now,
                ob_state = (if bp_isGroup p then Bs_waiting_approval else Bs_waiting_capability),
                ob_claim_token = None, ob_claim_epoch = 0, ob_claim_expires_at = None, ob_attempt_count = 0,
                ob_next_attempt_at = None, ob_completion_proof_id = None, ob_receipt_id = None,
                ob_drain_approval_id = None, ob_drain_facts = None\<rparr>],
            cb_last_obligation := i\<rparr>, i))"

definition applyDecisionWithinCallerTransaction ::
  "decision_params \<Rightarrow> int \<Rightarrow> capability_db \<Rightarrow> (capability_db \<times> int \<times> int option) result" where
  "applyDecisionWithinCallerTransaction p now c =
     and_then (validateCapabilityDecisionParams p) (\<lambda>_.
     case (case dp_obligation p of None \<Rightarrow> None
       | Some ob \<Rightarrow> find (\<lambda>r. source_key (ob_params r) = source_key ob) (cb_obligations c)) of
       Some existing \<Rightarrow> (let (c', eventId) = appendEventWithinCallerTransaction
           ((dp_auditEvent p)\<lparr>ev_reasonCode := Some ''duplicate_suppressed'',
             ev_detail := Existing_obligation (ob_id existing)\<rparr>) (Some (ob_id existing)) c in
         Inr (c', eventId, Some (ob_id existing)))
     | None \<Rightarrow> (let (c', eventId) = appendEventWithinCallerTransaction (dp_auditEvent p) None c in
         case dp_obligation p of None \<Rightarrow> Inr (c', eventId, None)
         | Some ob \<Rightarrow> and_then (insertWithinCallerTransaction ob eventId now c') (\<lambda>(c'', k).
             Inr (c'', eventId, Some k))))"

section \<open>Due obligations\<close>

definition attempts_exhausted :: "obligation \<Rightarrow> bool" where
  "attempts_exhausted r \<longleftrightarrow> ob_attempt_count r \<ge> CAPABILITY_OBLIGATION_MAX_ATTEMPTS"

definition backoff_pending :: "int \<Rightarrow> obligation \<Rightarrow> bool" where
  "backoff_pending now r \<longleftrightarrow> (case ob_next_attempt_at r of None \<Rightarrow> False | Some t \<Rightarrow> t > now)"

definition media_expired :: "int option \<Rightarrow> int \<Rightarrow> obligation \<Rightarrow> bool" where
  "media_expired maxAge now r \<longleftrightarrow> bp_retainedMedia (ob_params r) \<noteq> None
     \<and> (case maxAge of None \<Rightarrow> False | Some age \<Rightarrow> ob_created_at r + age \<le> now)"

definition listDueObligations :: "nat \<Rightarrow> int option \<Rightarrow> int \<Rightarrow> capability_db \<Rightarrow> (obligation \<times> bool) list" where
  "listDueObligations limit maxAge now c = map (\<lambda>r. (r, media_expired maxAge now r))
     (take limit (sort_key ob_id (filter (\<lambda>r. ob_state r = Bs_waiting_capability
        \<and> ob_attempt_count r < CAPABILITY_OBLIGATION_MAX_ATTEMPTS \<and> \<not> backoff_pending now r) (cb_obligations c))))"

datatype not_due_reason = Nd_not_found | Nd_not_waiting | Nd_attempts_exhausted | Nd_backoff_pending

definition dueObligationById ::
  "int \<Rightarrow> int option \<Rightarrow> int \<Rightarrow> capability_db \<Rightarrow> (obligation_state option \<times> not_due_reason) + (obligation \<times> bool)" where
  "dueObligationById k maxAge now c = (case get_obligation c k of
     None \<Rightarrow> Inl (None, Nd_not_found)
   | Some r \<Rightarrow> if ob_state r \<noteq> Bs_waiting_capability then Inl (Some (ob_state r), Nd_not_waiting)
       else if attempts_exhausted r then Inl (Some (ob_state r), Nd_attempts_exhausted)
       else if backoff_pending now r then Inl (Some (ob_state r), Nd_backoff_pending)
       else Inr (r, media_expired maxAge now r))"

definition listRetainedMediaReferences :: "int \<Rightarrow> int \<Rightarrow> capability_db \<Rightarrow> string list" where
  "listRetainedMediaReferences maxAge now c = remdups (List.map_filter (\<lambda>r.
     if ob_state r \<in> {Bs_waiting_capability, Bs_waiting_approval, Bs_claimed, Bs_blocked_media, Bs_blocked_ambiguous}
       \<and> ob_created_at r + maxAge > now
     then map_option rm_path (bp_retainedMedia (ob_params r)) else None) (cb_obligations c))"

text \<open>Admission without the two fields that are not known before a session runs.\<close>

definition hasAttestationCandidateIgnoringProvider ::
  "int \<Rightarrow> attestation_binding \<Rightarrow> int \<Rightarrow> capability_db \<Rightarrow> bool" where
  "hasAttestationCandidateIgnoringProvider k b now c = (case get_obligation c k of None \<Rightarrow> False
     | Some r \<Rightarrow> exists_row (\<lambda>a. attestation_live now a
         \<and> tp_binding (at_params a) = (binding_columns b)\<lparr>
             ab_providerId := ab_providerId (tp_binding (at_params a)),
             ab_harnessType := ab_harnessType (tp_binding (at_params a)),
             ab_contractVersion := bp_contractVersion (ob_params r),
             ab_capability := bp_requiredCapability (ob_params r)\<rparr>) (cb_attestations c))"

section \<open>Claims\<close>

record obligation_fence =
  of_claimToken :: string
  of_claimEpoch :: int

record claim_params =
  lp_claimToken :: string
  lp_leaseSeconds :: int
  lp_admissionAttestationId :: "int option"
  lp_admissionAttestationDigest :: "string option"

definition admission_holds :: "claim_params \<Rightarrow> int \<Rightarrow> capability_db \<Rightarrow> bool" where
  "admission_holds p now c \<longleftrightarrow> exists_row (\<lambda>a. lp_admissionAttestationId p = Some (at_id a)
     \<and> attestation_live now a) (cb_attestations c)"

definition approval_holds :: "claim_params \<Rightarrow> int \<Rightarrow> capability_db \<Rightarrow> obligation \<Rightarrow> bool" where
  "approval_holds p now c r \<longleftrightarrow> (case ob_drain_facts r of None \<Rightarrow> False
     | Some facts \<Rightarrow> lp_admissionAttestationDigest p = Some (df_attestationDigest facts)
         \<and> exists_row (\<lambda>a. ob_drain_approval_id r = Some (ap_id a) \<and> approval_covers now r facts a)
             (cb_approvals c))"

definition obligation_claimable :: "claim_params \<Rightarrow> int \<Rightarrow> capability_db \<Rightarrow> obligation \<Rightarrow> bool" where
  "obligation_claimable p now c r \<longleftrightarrow> ob_state r = Bs_waiting_capability
     \<and> ob_attempt_count r < CAPABILITY_OBLIGATION_MAX_ATTEMPTS \<and> \<not> backoff_pending now r
     \<and> admission_holds p now c \<and> (\<not> bp_isGroup (ob_params r) \<or> approval_holds p now c r)"

definition obligation_claim_row :: "claim_params \<Rightarrow> int \<Rightarrow> obligation \<Rightarrow> obligation" where
  "obligation_claim_row p now r = r\<lparr>ob_state := Bs_claimed, ob_attempt_count := ob_attempt_count r + 1,
     ob_claim_epoch := ob_claim_epoch r + 1, ob_claim_token := Some (lp_claimToken p),
     ob_claim_expires_at := Some (now + lp_leaseSeconds p), ob_next_attempt_at := None\<rparr>"

definition claimObligation ::
  "int \<Rightarrow> claim_params \<Rightarrow> db \<Rightarrow> int \<Rightarrow> capability_db \<Rightarrow> (capability_db \<times> (int \<times> int) option) result" where
  "claimObligation k p d now c = and_then
     (update_obligation d now (obligation_claimable p now c) (obligation_claim_row p now) k c)
     (\<lambda>(c', row). Inr (c', map_option (\<lambda>r. (ob_claim_epoch r, ob_attempt_count r)) row))"

definition holds_claim :: "obligation_fence \<Rightarrow> obligation \<Rightarrow> bool" where
  "holds_claim f r \<longleftrightarrow> ob_state r = Bs_claimed \<and> ob_claim_token r = Some (of_claimToken f)
     \<and> ob_claim_epoch r = of_claimEpoch f"

definition retry_state :: "obligation \<Rightarrow> obligation_state" where
  "retry_state r = (if ob_attempt_count r \<ge> CAPABILITY_OBLIGATION_MAX_ATTEMPTS then Bs_exhausted
     else Bs_waiting_capability)"

definition requeue_obligation_row :: "int \<Rightarrow> obligation \<Rightarrow> obligation" where
  "requeue_obligation_row next r = r\<lparr>ob_state := retry_state r, ob_claim_token := None,
     ob_claim_expires_at := None, ob_next_attempt_at := Some next\<rparr>"

definition requeueObligation ::
  "int \<Rightarrow> obligation_fence \<Rightarrow> int \<Rightarrow> db \<Rightarrow> int \<Rightarrow> capability_db \<Rightarrow> (capability_db \<times> bool \<times> bool) result" where
  "requeueObligation k f backoffSeconds d now c = and_then
     (update_obligation d now (holds_claim f) (requeue_obligation_row (now + backoffSeconds)) k c)
     (\<lambda>(c', row). Inr (c', row \<noteq> None, (case row of None \<Rightarrow> False | Some r \<Rightarrow> ob_state r = Bs_exhausted)))"

definition supervisor_event :: "event_action \<Rightarrow> string \<Rightarrow> int option \<Rightarrow> event_params" where
  "supervisor_event action reason epoch = \<lparr>ev_action = action, ev_actorType = Supervisor, ev_actorId = None,
     ev_reasonCode = Some reason, ev_sourceHash = None, ev_claimEpoch = epoch, ev_detail = No_detail\<rparr>"

text \<open>An update and, if it changed the row, the event that records it.\<close>

definition update_and_record ::
  "db \<Rightarrow> int \<Rightarrow> (obligation \<Rightarrow> bool) \<Rightarrow> (obligation \<Rightarrow> obligation) \<Rightarrow> event_params \<Rightarrow> int \<Rightarrow> capability_db
    \<Rightarrow> (capability_db \<times> bool) result" where
  "update_and_record d now g f e k c = and_then (update_obligation d now g f k c) (\<lambda>(c', row). case row of
     None \<Rightarrow> Inr (c', False)
   | Some _ \<Rightarrow> Inr (fst (appendEventWithinCallerTransaction e (Some k) c'), True))"

definition release_row :: "obligation_state \<Rightarrow> obligation \<Rightarrow> obligation" where
  "release_row st r = r\<lparr>ob_state := st, ob_claim_token := None, ob_claim_expires_at := None\<rparr>"

definition blockObligation ::
  "int \<Rightarrow> obligation_fence \<Rightarrow> bool \<Rightarrow> string \<Rightarrow> db \<Rightarrow> int \<Rightarrow> capability_db \<Rightarrow> (capability_db \<times> bool) result" where
  "blockObligation k f media reason d now = update_and_record d now (holds_claim f)
     (release_row (if media then Bs_blocked_media else Bs_blocked_ambiguous))
     (supervisor_event Ea_block reason (Some (of_claimEpoch f))) k"

definition blockWaitingObligation :: "int \<Rightarrow> string \<Rightarrow> db \<Rightarrow> int \<Rightarrow> capability_db \<Rightarrow> (capability_db \<times> bool) result" where
  "blockWaitingObligation k reason d now = update_and_record d now (\<lambda>r. ob_state r = Bs_waiting_capability)
     (\<lambda>r. r\<lparr>ob_state := Bs_blocked_media\<rparr>) (supervisor_event Ea_block reason None) k"

definition completed_row :: "int \<Rightarrow> string \<Rightarrow> obligation \<Rightarrow> obligation" where
  "completed_row receiptId proof r = r\<lparr>ob_state := Bs_completed, ob_receipt_id := Some receiptId,
     ob_completion_proof_id := Some proof, ob_claim_token := None, ob_claim_expires_at := None\<rparr>"

definition settleCompleted ::
  "int \<Rightarrow> obligation_fence \<Rightarrow> int \<Rightarrow> string \<Rightarrow> db \<Rightarrow> int \<Rightarrow> capability_db \<Rightarrow> (capability_db \<times> bool) result" where
  "settleCompleted k f receiptId proof d now c = (case get_obligation c k of None \<Rightarrow> Inr (c, False)
     | Some r \<Rightarrow>
       if \<not> (holds_claim f r \<and> exists_row (\<lambda>x. rc_id x = receiptId \<and> receipt_proves d r proof x) (cb_receipts c))
       then Inr (c, False)
       else update_and_record d now (holds_claim f) (completed_row receiptId proof)
         (supervisor_event Ea_settle ''completed'' (Some (of_claimEpoch f))) k c)"

definition listClaimedObligations :: "capability_db \<Rightarrow> obligation list" where
  "listClaimedObligations c = sort_key ob_id (filter (\<lambda>r. ob_state r = Bs_claimed) (cb_obligations c))"

text \<open>A lease that ran out: requeued if the provider never began, quarantined otherwise.\<close>

definition reclaim_one :: "int set \<Rightarrow> db \<Rightarrow> int \<Rightarrow> obligation \<Rightarrow> capability_db \<Rightarrow> (capability_db \<times> bool) result" where
  "reclaim_one accepted d now row = (if ob_id row \<in> accepted
     then update_and_record d now (\<lambda>r. ob_state r = Bs_claimed) (release_row Bs_blocked_ambiguous)
       (supervisor_event Ea_block ''lease_expired_after_acceptance'' (Some (ob_claim_epoch row))) (ob_id row)
     else update_and_record d now (\<lambda>r. ob_state r = Bs_claimed) (requeue_obligation_row now)
       (supervisor_event Ea_requeue ''lease_expired_before_acceptance'' (Some (ob_claim_epoch row))) (ob_id row))"

fun reclaim_all :: "int set \<Rightarrow> db \<Rightarrow> int \<Rightarrow> obligation list \<Rightarrow> capability_db \<Rightarrow> capability_db result" where
  "reclaim_all accepted d now [] c = Inr c"
| "reclaim_all accepted d now (row # rows) c =
     and_then (reclaim_one accepted d now row c) (\<lambda>(c', _). reclaim_all accepted d now rows c')"

definition expired_claims :: "int \<Rightarrow> capability_db \<Rightarrow> obligation list" where
  "expired_claims now c = sort_key ob_id (filter (\<lambda>r. ob_state r = Bs_claimed
     \<and> (case ob_claim_expires_at r of None \<Rightarrow> False | Some t \<Rightarrow> t \<le> now)) (cb_obligations c))"

definition reclaimExpiredClaims ::
  "int set \<Rightarrow> db \<Rightarrow> int \<Rightarrow> capability_db \<Rightarrow> (capability_db \<times> int list \<times> int list) result" where
  "reclaimExpiredClaims accepted d now c = (let rows = expired_claims now c in
     and_then (reclaim_all accepted d now rows c) (\<lambda>c'. Inr (c',
       map ob_id (filter (\<lambda>r. ob_id r \<notin> accepted) rows), map ob_id (filter (\<lambda>r. ob_id r \<in> accepted) rows))))"

section \<open>Operators\<close>

datatype adjudication_action = Adj_cancel | Adj_requeue

record adjudication_params =
  aj_action :: adjudication_action
  aj_expectedState :: "obligation_state option"
  aj_reasonCode :: string
  aj_actorId :: string
  aj_idempotencyKey :: "string option"
  aj_dryRun :: bool

datatype adjudication_refusal = Ref_not_found | Ref_precondition_mismatch | Ref_illegal_from_state

record adjudication_result =
  ar_applied :: bool
  ar_wouldApply :: bool
  ar_currentState :: "obligation_state option"
  ar_alreadyInTarget :: bool
  ar_refusedReason :: "adjudication_refusal option"

fun obligation_state_str :: "obligation_state \<Rightarrow> string" where
  "obligation_state_str Bs_waiting_capability = ''waiting_capability''"
| "obligation_state_str Bs_waiting_approval = ''waiting_approval''"
| "obligation_state_str Bs_claimed = ''claimed''"
| "obligation_state_str Bs_completed = ''completed''"
| "obligation_state_str Bs_exhausted = ''exhausted''"
| "obligation_state_str Bs_blocked_media = ''blocked_media''"
| "obligation_state_str Bs_blocked_ambiguous = ''blocked_ambiguous''"
| "obligation_state_str Bs_cancelled = ''cancelled''"

definition adjudication_target :: "adjudication_action \<Rightarrow> obligation_state" where
  "adjudication_target a = (case a of Adj_cancel \<Rightarrow> Bs_cancelled | Adj_requeue \<Rightarrow> Bs_waiting_capability)"

definition legalFrom :: "adjudication_action \<Rightarrow> obligation_state set" where
  "legalFrom a = (case a of
     Adj_cancel \<Rightarrow> {Bs_waiting_approval, Bs_waiting_capability, Bs_blocked_media, Bs_blocked_ambiguous}
   | Adj_requeue \<Rightarrow> {Bs_blocked_ambiguous, Bs_blocked_media})"

definition adjudicated_row :: "adjudication_action \<Rightarrow> int \<Rightarrow> obligation \<Rightarrow> obligation" where
  "adjudicated_row a now r = (case a of Adj_cancel \<Rightarrow> release_row Bs_cancelled r
     | Adj_requeue \<Rightarrow> requeue_obligation_row now r\<lparr>ob_state := Bs_waiting_capability\<rparr>)"

definition operatorAdjudicateObligation ::
  "int \<Rightarrow> adjudication_params \<Rightarrow> db \<Rightarrow> int \<Rightarrow> capability_db \<Rightarrow> (capability_db \<times> adjudication_result) result" where
  "operatorAdjudicateObligation k p d now c = (let target = adjudication_target (aj_action p);
     refused = (\<lambda>st why. Inr (c, \<lparr>ar_applied = False, ar_wouldApply = False, ar_currentState = st,
       ar_alreadyInTarget = False, ar_refusedReason = Some why\<rparr>)) in
     case get_obligation c k of None \<Rightarrow> refused None Ref_not_found
     | Some r \<Rightarrow>
       if ob_state r = target
       then Inr (c, \<lparr>ar_applied = False, ar_wouldApply = False, ar_currentState = Some target,
         ar_alreadyInTarget = True, ar_refusedReason = None\<rparr>)
       else if (case aj_expectedState p of None \<Rightarrow> False | Some st \<Rightarrow> ob_state r \<noteq> st)
       then refused (Some (ob_state r)) Ref_precondition_mismatch
       else if ob_state r \<notin> legalFrom (aj_action p)
       then refused (Some (ob_state r)) Ref_illegal_from_state
       else if aj_dryRun p
       then Inr (c, \<lparr>ar_applied = False, ar_wouldApply = True, ar_currentState = Some (ob_state r),
         ar_alreadyInTarget = False, ar_refusedReason = None\<rparr>)
       else and_then (update_and_record d now (\<lambda>x. ob_state x = ob_state r) (adjudicated_row (aj_action p) now)
           \<lparr>ev_action = (case aj_action p of Adj_cancel \<Rightarrow> Ea_cancel | Adj_requeue \<Rightarrow> Ea_re_arm),
            ev_actorType = Operator, ev_actorId = Some (aj_actorId p), ev_reasonCode = Some (aj_reasonCode p),
            ev_sourceHash = None, ev_claimEpoch = None,
            ev_detail = Adjudication_detail (aj_idempotencyKey p)
              (map_option obligation_state_str (aj_expectedState p))\<rparr> k c)
         (\<lambda>(c', applied). if applied
            then Inr (c', \<lparr>ar_applied = True, ar_wouldApply = True, ar_currentState = Some target,
              ar_alreadyInTarget = False, ar_refusedReason = None\<rparr>)
            else refused (Some (ob_state r)) Ref_illegal_from_state))"

definition operatorListObligations :: "obligation_state option \<Rightarrow> nat \<Rightarrow> capability_db \<Rightarrow> obligation list" where
  "operatorListObligations st limit c = take limit (sort_key (\<lambda>r. - ob_id r)
     (filter (\<lambda>r. case st of None \<Rightarrow> True | Some x \<Rightarrow> ob_state r = x) (cb_obligations c)))"

definition operatorInspectObligation ::
  "int \<Rightarrow> capability_db \<Rightarrow> (obligation \<times> event_row list \<times> receipt_row list) option" where
  "operatorInspectObligation k c = (case get_obligation c k of None \<Rightarrow> None | Some r \<Rightarrow> Some (r,
     sort_key vr_id (filter (\<lambda>e. vr_obligation_id e = Some k \<or> vr_id e = ob_creation_evidence_event_id r) (cb_events c)),
     sort_key rc_id (filter (\<lambda>x. xp_obligationId (rc_params x) = k) (cb_receipts c))))"

section \<open>Approvals of group drains\<close>

datatype approval_refusal = Not_a_waiting_group | Destination_mismatch | No_matching_approval

definition approval_event :: "event_action \<Rightarrow> string option \<Rightarrow> int \<Rightarrow> drain_facts \<Rightarrow> event_params" where
  "approval_event action actor approvalId facts = \<lparr>ev_action = action, ev_actorType = Operator, ev_actorId = actor,
     ev_reasonCode = Some ''group_drain_approved'', ev_sourceHash = None, ev_claimEpoch = None,
     ev_detail = Approval_detail approvalId (df_drainRunId facts)\<rparr>"

definition approval_refused :: "int \<Rightarrow> string \<Rightarrow> capability_db \<Rightarrow> approval_refusal option" where
  "approval_refused k destination c = (case get_obligation c k of None \<Rightarrow> Some Not_a_waiting_group
     | Some r \<Rightarrow> if \<not> bp_isGroup (ob_params r) \<or> ob_state r \<noteq> Bs_waiting_approval then Some Not_a_waiting_group
         else if bp_deliveryJid (ob_params r) \<noteq> destination then Some Destination_mismatch else None)"

definition insert_approval ::
  "int \<Rightarrow> string \<Rightarrow> drain_facts \<Rightarrow> string \<Rightarrow> int \<Rightarrow> int \<Rightarrow> capability_db \<Rightarrow> capability_db \<times> int" where
  "insert_approval k destination facts approver validForSeconds now c = (let i = cb_last_approval c + 1;
     c1 = c\<lparr>cb_approvals := cb_approvals c @ [\<lparr>ap_id = i, ap_obligation_id = k, ap_destination_jid = destination,
         ap_scope = Group_scope, ap_facts = facts, ap_approver = approver, ap_approved_at = now,
         ap_expires_at = now + validForSeconds, ap_revoked_at = None\<rparr>], cb_last_approval := i\<rparr> in
     (fst (appendEventWithinCallerTransaction (approval_event Ea_approval_record (Some approver) i facts) (Some k) c1), i))"

definition recordGroupDrainApproval ::
  "int \<Rightarrow> string \<Rightarrow> drain_facts \<Rightarrow> string \<Rightarrow> int \<Rightarrow> int \<Rightarrow> capability_db \<Rightarrow> capability_db \<times> (approval_refusal + int)" where
  "recordGroupDrainApproval k destination facts approver validForSeconds now c =
     (case approval_refused k destination c of Some why \<Rightarrow> (c, Inl why)
      | None \<Rightarrow> (case insert_approval k destination facts approver validForSeconds now c of (c', i) \<Rightarrow> (c', Inr i)))"

definition approve_row :: "int \<Rightarrow> drain_facts \<Rightarrow> obligation \<Rightarrow> obligation" where
  "approve_row approvalId facts r = r\<lparr>ob_state := Bs_waiting_capability, ob_drain_approval_id := Some approvalId,
     ob_drain_facts := Some facts\<rparr>"

definition consume_update ::
  "int \<Rightarrow> int \<Rightarrow> drain_facts \<Rightarrow> db \<Rightarrow> int \<Rightarrow> capability_db \<Rightarrow> (capability_db \<times> bool) result" where
  "consume_update k approvalId facts d now = update_and_record d now (\<lambda>r. ob_state r = Bs_waiting_approval)
     (approve_row approvalId facts) (approval_event Ea_re_arm None approvalId facts) k"

definition recordAndConsumeGroupDrainApproval ::
  "int \<Rightarrow> string \<Rightarrow> drain_facts \<Rightarrow> string \<Rightarrow> int \<Rightarrow> db \<Rightarrow> int \<Rightarrow> capability_db
    \<Rightarrow> (capability_db \<times> (approval_refusal + int)) result" where
  "recordAndConsumeGroupDrainApproval k destination facts approver validForSeconds d now c =
     (case approval_refused k destination c of Some why \<Rightarrow> Inr (c, Inl why)
      | None \<Rightarrow> (case insert_approval k destination facts approver validForSeconds now c of (c1, i) \<Rightarrow>
          and_then (consume_update k i facts d now c1) (\<lambda>(c2, applied).
            throw_if (\<not> applied) (Error ''recordAndConsumeGroupDrainApproval: consume did not apply within the atomic transaction'')
              (Inr (c2, Inr i)))))"

definition consumeGroupDrainApproval ::
  "int \<Rightarrow> string \<Rightarrow> drain_facts \<Rightarrow> db \<Rightarrow> int \<Rightarrow> capability_db \<Rightarrow> (capability_db \<times> (approval_refusal + int)) result" where
  "consumeGroupDrainApproval k destination facts d now c = (case get_obligation c k of
     None \<Rightarrow> Inr (c, Inl No_matching_approval)
   | Some r \<Rightarrow> if ob_state r \<noteq> Bs_waiting_approval \<or> \<not> bp_isGroup (ob_params r) then Inr (c, Inl No_matching_approval)
       else (case sort_key (\<lambda>a. - ap_id a) (filter (\<lambda>a. approval_covers now r facts a
             \<and> ap_destination_jid a = destination) (cb_approvals c)) of
           [] \<Rightarrow> Inr (c, Inl No_matching_approval)
         | a # _ \<Rightarrow> and_then (consume_update k (ap_id a) facts d now c) (\<lambda>(c', applied).
             Inr (c', if applied then Inr (ap_id a) else Inl No_matching_approval))))"

text \<open>Revocations, which the triggers keep one-way. The code has no statement that revokes; the step relation allows one at any time.\<close>

definition revoke_approval :: "int \<Rightarrow> int \<Rightarrow> capability_db \<Rightarrow> capability_db" where
  "revoke_approval k now c = c\<lparr>cb_approvals := update_rows (\<lambda>a. ap_id a = k \<and> ap_revoked_at a = None)
     (\<lambda>a. a\<lparr>ap_revoked_at := Some now\<rparr>) (cb_approvals c)\<rparr>"

definition revoke_attestation :: "int \<Rightarrow> int \<Rightarrow> capability_db \<Rightarrow> capability_db" where
  "revoke_attestation k now c = c\<lparr>cb_attestations := update_rows (\<lambda>a. at_id a = k \<and> at_revoked_at a = None)
     (\<lambda>a. a\<lparr>at_revoked_at := Some now\<rparr>) (cb_attestations c)\<rparr>"

section \<open>Executions\<close>

definition reserveExecutionAttempt ::
  "int \<Rightarrow> int \<Rightarrow> int \<Rightarrow> string \<Rightarrow> capability_db \<Rightarrow> (capability_db \<times> bool) result" where
  "reserveExecutionAttempt k claimEpoch attemptNumber toolUseId c =
     throw_if (claimEpoch < 1 \<or> attemptNumber < 1)
       (Error ''CHECK constraint failed: capability_execution_reservations'')
       (if exists_row (\<lambda>r. rv_obligation_id r = k \<and> rv_claim_epoch r = claimEpoch
             \<and> rv_attempt_number r = attemptNumber) (cb_reservations c)
        then Inr (c, False)
        else Inr (c\<lparr>cb_reservations := cb_reservations c @ [\<lparr>rv_obligation_id = k, rv_claim_epoch = claimEpoch,
            rv_attempt_number = attemptNumber, rv_tool_use_id = toolUseId\<rparr>]\<rparr>, True))"

definition recordExecutionReceipt :: "receipt_params \<Rightarrow> capability_db \<Rightarrow> (capability_db \<times> int) result" where
  "recordExecutionReceipt p c =
     throw_if (xp_claimEpoch p < 1 \<or> xp_attemptNumber p < 1
         \<or> (case xp_sourceDigest p of None \<Rightarrow> False | Some s \<Rightarrow> length s \<noteq> 64)
         \<or> exists_row (\<lambda>x. xp_obligationId (rc_params x) = xp_obligationId p
             \<and> xp_toolUseId (rc_params x) = xp_toolUseId p) (cb_receipts c))
       (Error ''constraint failed: capability_execution_receipts'')
       (let i = cb_last_receipt c + 1 in Inr (c\<lparr>cb_receipts := cb_receipts c @ [\<lparr>rc_id = i, rc_params = p\<rparr>],
          cb_last_receipt := i\<rparr>, i))"

end
