(* ===== verification/ObligationLaws.thy ===== *)
theory ObligationLaws
  imports Obligations
begin

text \<open>
  Any history of the obligation store: every operation with any arguments, in any order, with revocations
  and arbitrary changes of the turn tables in between. Ghost lists keep the claims that were granted and
  the claims that were given up. An execution is reserved under a claim that was granted, as the
  execution tool does, which carries the fence of its dispatch.
\<close>

section \<open>Histories\<close>

record obligation_world =
  ow_d :: db
  ow_now :: int
  ow_c :: capability_db
  ow_claims :: "(int \<times> int \<times> int) list"
  ow_ended :: "(int \<times> int) list"

definition ended_if :: "bool \<Rightarrow> int \<Rightarrow> int \<Rightarrow> obligation_world \<Rightarrow> obligation_world" where
  "ended_if b k epoch w = w\<lparr>ow_ended := ow_ended w @ (if b then [(k, epoch)] else [])\<rparr>"

inductive obligation_step :: "obligation_world \<Rightarrow> obligation_world \<Rightarrow> bool" where
  Elsewhere: "ow_now w \<le> now \<Longrightarrow> obligation_step w (w\<lparr>ow_d := d, ow_now := now\<rparr>)"
| Decides: "applyDecisionWithinCallerTransaction p (ow_now w) (ow_c w) = Inr (c, ids) \<Longrightarrow>
    obligation_step w (w\<lparr>ow_c := c\<rparr>)"
| Attests: "recordCapabilityAttestation q (cb_attestations (ow_c w), cb_last_attestation (ow_c w)) = Inr ((rows, i), j) \<Longrightarrow>
    obligation_step w (w\<lparr>ow_c := (ow_c w)\<lparr>cb_attestations := rows, cb_last_attestation := i\<rparr>\<rparr>)"
| Revokes: "c = revoke_approval k (ow_now w) (ow_c w) \<or> c = revoke_attestation k (ow_now w) (ow_c w) \<Longrightarrow>
    obligation_step w (w\<lparr>ow_c := c\<rparr>)"
| Claims: "claimObligation k l (ow_d w) (ow_now w) (ow_c w) = Inr (c, granted) \<Longrightarrow>
    obligation_step w (w\<lparr>ow_c := c, ow_claims := ow_claims w @
      (case granted of None \<Rightarrow> [] | Some (epoch, attempt) \<Rightarrow> [(k, epoch, attempt)])\<rparr>)"
| Requeues: "requeueObligation k f backoff (ow_d w) (ow_now w) (ow_c w) = Inr (c, b, ex) \<Longrightarrow>
    obligation_step w (ended_if b k (of_claimEpoch f) (w\<lparr>ow_c := c\<rparr>))"
| Blocks: "blockObligation k f media reason (ow_d w) (ow_now w) (ow_c w) = Inr (c, b) \<Longrightarrow>
    obligation_step w (ended_if b k (of_claimEpoch f) (w\<lparr>ow_c := c\<rparr>))"
| Blocks_waiting: "blockWaitingObligation k reason (ow_d w) (ow_now w) (ow_c w) = Inr (c, b) \<Longrightarrow>
    obligation_step w (w\<lparr>ow_c := c\<rparr>)"
| Settles: "settleCompleted k f receiptId proof (ow_d w) (ow_now w) (ow_c w) = Inr (c, b) \<Longrightarrow>
    obligation_step w (ended_if b k (of_claimEpoch f) (w\<lparr>ow_c := c\<rparr>))"
| Reclaims: "reclaimExpiredClaims accepted (ow_d w) (ow_now w) (ow_c w) = Inr (c, ids) \<Longrightarrow>
    obligation_step w (w\<lparr>ow_c := c, ow_ended := ow_ended w @
      map (\<lambda>r. (ob_id r, ob_claim_epoch r)) (expired_claims (ow_now w) (ow_c w))\<rparr>)"
| Adjudicates: "operatorAdjudicateObligation k a (ow_d w) (ow_now w) (ow_c w) = Inr (c, res) \<Longrightarrow>
    obligation_step w (w\<lparr>ow_c := c\<rparr>)"
| Approves: "recordGroupDrainApproval k dest facts who valid (ow_now w) (ow_c w) = (c, out) \<Longrightarrow>
    obligation_step w (w\<lparr>ow_c := c\<rparr>)"
| Approves_and_consumes: "recordAndConsumeGroupDrainApproval k dest facts who valid (ow_d w) (ow_now w) (ow_c w)
      = Inr (c, out) \<Longrightarrow> obligation_step w (w\<lparr>ow_c := c\<rparr>)"
| Consumes: "consumeGroupDrainApproval k dest facts (ow_d w) (ow_now w) (ow_c w) = Inr (c, out) \<Longrightarrow>
    obligation_step w (w\<lparr>ow_c := c\<rparr>)"
| Reserves: "(k, epoch, attempt) \<in> set (ow_claims w) \<Longrightarrow>
    reserveExecutionAttempt k epoch attempt tool (ow_c w) = Inr (c, b) \<Longrightarrow> obligation_step w (w\<lparr>ow_c := c\<rparr>)"
| Receives: "recordExecutionReceipt x (ow_c w) = Inr (c, i) \<Longrightarrow> obligation_step w (w\<lparr>ow_c := c\<rparr>)"

definition first_obligation_world :: "db \<Rightarrow> int \<Rightarrow> obligation_world" where
  "first_obligation_world d now = \<lparr>ow_d = d, ow_now = now, ow_c = empty_capability_db, ow_claims = [], ow_ended = []\<rparr>"

section \<open>What holds of every obligation\<close>

definition approved :: "approval_row list \<Rightarrow> obligation \<Rightarrow> bool" where
  "approved approvals r \<longleftrightarrow> (\<exists>a \<in> set approvals. ob_drain_approval_id r = Some (ap_id a)
     \<and> ob_drain_facts r = Some (ap_facts a) \<and> ap_obligation_id a = ob_id r \<and> ap_scope a = Group_scope
     \<and> ap_destination_jid a = bp_deliveryJid (ob_params r))"

definition proved :: "receipt_row list \<Rightarrow> obligation \<Rightarrow> bool" where
  "proved receipts r \<longleftrightarrow> (\<exists>x \<in> set receipts. ob_receipt_id r = Some (rc_id x)
     \<and> xp_obligationId (rc_params x) = ob_id r \<and> xp_claimEpoch (rc_params x) = ob_claim_epoch r
     \<and> xp_attemptNumber (rc_params x) = ob_attempt_count r \<and> xp_resultOk (rc_params x)
     \<and> xp_sourceDigest (rc_params x) = Some (bp_sourceDigest (ob_params r)))"

definition claims_of :: "int \<Rightarrow> (int \<times> 'a) list \<Rightarrow> 'a list" where
  "claims_of k xs = map snd (filter (\<lambda>x. fst x = k) xs)"

definition first_epochs :: "int \<Rightarrow> int list" where
  "first_epochs n = map int [1..<nat n + 1]"

definition held_epochs :: "obligation \<Rightarrow> int" where
  "held_epochs r = (if ob_state r = Bs_claimed then ob_claim_epoch r - 1 else ob_claim_epoch r)"

definition obligation_ok :: "obligation_world \<Rightarrow> obligation \<Rightarrow> bool" where
  "obligation_ok w r \<longleftrightarrow> ob_attempt_count r = ob_claim_epoch r \<and> 0 \<le> ob_attempt_count r
     \<and> ob_attempt_count r \<le> CAPABILITY_OBLIGATION_MAX_ATTEMPTS
     \<and> (ob_state r = Bs_claimed \<longrightarrow> 1 \<le> ob_attempt_count r)
     \<and> (ob_state r = Bs_waiting_approval \<longrightarrow> bp_isGroup (ob_params r) \<and> ob_attempt_count r = 0)
     \<and> claims_of (ob_id r) (ow_claims w) = map (\<lambda>i. (i, i)) (first_epochs (ob_attempt_count r))
     \<and> claims_of (ob_id r) (ow_ended w) = first_epochs (held_epochs r)
     \<and> (bp_isGroup (ob_params r) \<and> (ob_state r \<notin> {Bs_waiting_approval, Bs_cancelled} \<or> 0 < ob_attempt_count r)
          \<longrightarrow> approved (cb_approvals (ow_c w)) r)
     \<and> (ob_state r = Bs_completed \<longrightarrow> proved (cb_receipts (ow_c w)) r)"

definition reservation_key :: "reservation_row \<Rightarrow> int \<times> int \<times> int" where
  "reservation_key r = (rv_obligation_id r, rv_claim_epoch r, rv_attempt_number r)"

definition obligations_inv :: "obligation_world \<Rightarrow> bool" where
  "obligations_inv w \<longleftrightarrow> wf_capability (ow_c w) \<and> (\<forall>r \<in> set (cb_obligations (ow_c w)). obligation_ok w r)
     \<and> fst ` set (ow_claims w) \<union> fst ` set (ow_ended w) \<subseteq> ob_id ` set (cb_obligations (ow_c w))
     \<and> distinct (map reservation_key (cb_reservations (ow_c w)))
     \<and> reservation_key ` set (cb_reservations (ow_c w)) \<subseteq> set (ow_claims w)"

section \<open>One row moves\<close>

text \<open>The tables the invariant reads, apart from the obligations, only grow or stay.\<close>

definition side_tables :: "capability_db \<Rightarrow> approval_row list \<times> receipt_row list \<times> reservation_row list" where
  "side_tables c = (cb_approvals c, cb_receipts c, cb_reservations c)"

lemma get_obligation_in: "get_obligation c k = Some r \<Longrightarrow> r \<in> set (cb_obligations c) \<and> ob_id r = k"
  by (auto simp: get_obligation_def dest: find_SomeD)

lemma update_obligationD:
  assumes "update_obligation d now g f k c = Inr (c', row)"
  obtains (same) "c' = c" "row = None"
  | (moved) r where "get_obligation c k = Some r" "g r" "row = Some (f r)" "c' = fst (cas_obligation g f k c)"
      "state_triggers d now c r (f r) = None"
  using assms by (auto simp: update_obligation_def split: option.splits if_splits)

definition moves :: "int \<Rightarrow> obligation \<Rightarrow> obligation \<Rightarrow> capability_db \<Rightarrow> capability_db \<Rightarrow> bool" where
  "moves k r r' c c' \<longleftrightarrow> get_obligation c k = Some r \<and> ob_id r' = k \<and> wf_capability c'
     \<and> (\<forall>x \<in> set (cb_obligations c'). x = r' \<or> x \<in> set (cb_obligations c) \<and> ob_id x \<noteq> k)
     \<and> ob_id ` set (cb_obligations c') = ob_id ` set (cb_obligations c)
     \<and> side_tables c' = side_tables c"

lemma cas_moves:
  assumes "wf_capability c" "get_obligation c k = Some r" "g r" "ob_id (f r) = ob_id r"
    "c' = fst (cas_obligation g f k c) \<or>
     (\<exists>es n. c' = (fst (cas_obligation g f k c))\<lparr>cb_events := es, cb_last_event := n\<rparr>)"
  shows "moves k r (f r) c c'"
proof -
  have r: "r \<in> set (cb_obligations c)" "ob_id r = k" using get_obligation_in [OF assms(2)] by auto
  have only: "x = r" if "x \<in> set (cb_obligations c)" "ob_id x = k" for x
    using find_key_unique [of ob_id "cb_obligations c" x] that assms(1,2)
    by (simp add: wf_capability_def keys_ok_def get_obligation_def)
  have tables: "cb_obligations c' = update_rows (\<lambda>x. ob_id x = k \<and> g x) f (cb_obligations c)"
    "cb_last_obligation c' = cb_last_obligation c" "side_tables c' = side_tables c"
    using assms(5) by (auto simp: cas_obligation_def Let_def side_tables_def)
  have ids: "map ob_id (cb_obligations c') = map ob_id (cb_obligations c)"
    using only assms(4) unfolding tables(1) update_rows_def by (auto simp: r(2))
  then have "wf_capability c'" using assms(1) by (simp add: wf_capability_def tables(2))
  moreover have "ob_id ` set (cb_obligations c') = ob_id ` set (cb_obligations c)"
    using ids by (metis list.set_map)
  moreover have "x = f r \<or> x \<in> set (cb_obligations c) \<and> ob_id x \<noteq> k" if "x \<in> set (cb_obligations c')" for x
    using that only assms(3) unfolding tables(1) set_update_rows by (auto split: if_splits)
  ultimately show ?thesis using assms(2,4) r(2) tables(3) unfolding moves_def by auto
qed

lemma update_and_recordD:
  assumes "update_and_record d now g f e k c = Inr (c', b)" "wf_capability c" "\<And>r. ob_id (f r) = ob_id r"
  obtains (same) "c' = c" "\<not> b"
  | (moved) r where "moves k r (f r) c c'" "g r" "b" "state_triggers d now c r (f r) = None"
proof -
  from assms(1) obtain c1 row where u: "update_obligation d now g f k c = Inr (c1, row)"
    and c': "(row = None \<and> c' = c1 \<and> \<not> b) \<or> (row \<noteq> None \<and> b
       \<and> c' = fst (appendEventWithinCallerTransaction e (Some k) c1))"
    by (auto simp: update_and_record_def and_then_Inr split: option.splits)
  from u show ?thesis
  proof (cases rule: update_obligationD)
    case same
    with c' that(1) show ?thesis by auto
  next
    case (moved r)
    then have "moves k r (f r) c c'"
      using c' assms(3) [of r] by (intro cas_moves [where f = f and g = g, OF assms(2) moved(1,2)])
        (auto simp: appendEventWithinCallerTransaction_def Let_def)
    with moved c' that(2) [of r] show ?thesis by auto
  qed
qed

definition updated ::
  "(obligation \<Rightarrow> bool) \<Rightarrow> (obligation \<Rightarrow> obligation) \<Rightarrow> int \<Rightarrow> capability_db \<Rightarrow> capability_db \<Rightarrow> bool \<Rightarrow> bool" where
  "updated g f k c c' b \<longleftrightarrow> c' = c \<and> \<not> b \<or> b \<and> (\<exists>r. moves k r (f r) c c' \<and> g r)"

lemma recorded_updated:
  assumes "update_and_record d now g f e k c = Inr (c', b)" "wf_capability c" "\<And>r. ob_id (f r) = ob_id r"
  shows "updated g f k c c' b"
  using assms by (cases rule: update_and_recordD) (auto simp: updated_def)

lemma obligation_updated:
  assumes "update_obligation d now g f k c = Inr (c', row)" "wf_capability c" "\<And>r. ob_id (f r) = ob_id r"
  shows "updated g f k c c' (row \<noteq> None)"
  using assms(1)
proof (cases rule: update_obligationD)
  case (moved r)
  with cas_moves [where f = f and g = g, OF assms(2) moved(1,2) assms(3)] show ?thesis by (auto simp: updated_def)
qed (simp add: updated_def)

section \<open>The invariant through a move\<close>

lemma claims_of_append [simp]: "claims_of k (xs @ ys) = claims_of k xs @ claims_of k ys"
  by (simp add: claims_of_def)

lemma claims_of_other: "fst ` set xs \<subseteq> {k'} \<Longrightarrow> k \<noteq> k' \<Longrightarrow> claims_of k xs = []"
  by (auto simp: claims_of_def filter_empty_conv)

lemma claims_of_simps [simp]: "claims_of k [] = []" "claims_of k ((k, x) # xs) = x # claims_of k xs"
  by (simp_all add: claims_of_def)

lemma first_epochs_Suc:
  assumes "1 \<le> n"
  shows "first_epochs n = first_epochs (n - 1) @ [n]"
proof -
  obtain m where m: "n = int (Suc m)" using assms by (intro that [of "nat (n - 1)"]) simp
  have e: "int (Suc m) - 1 = int m" by simp
  show ?thesis unfolding m e first_epochs_def nat_int by simp
qed

lemma obligations_invD:
  assumes "obligations_inv w"
  shows "wf_capability (ow_c w)" "r \<in> set (cb_obligations (ow_c w)) \<Longrightarrow> obligation_ok w r"
    "fst ` set (ow_claims w) \<union> fst ` set (ow_ended w) \<subseteq> ob_id ` set (cb_obligations (ow_c w))"
  using assms by (auto simp: obligations_inv_def)

lemma inv_move:
  assumes "obligations_inv w" "moves k r r' (ow_c w) (ow_c w')"
    "ow_claims w' = ow_claims w @ cs" "ow_ended w' = ow_ended w @ es"
    "fst ` set cs \<subseteq> {k}" "fst ` set es \<subseteq> {k}" "obligation_ok w' r'"
  shows "obligations_inv w'"
proof -
  have side: "cb_approvals (ow_c w') = cb_approvals (ow_c w)" "cb_receipts (ow_c w') = cb_receipts (ow_c w)"
    "cb_reservations (ow_c w') = cb_reservations (ow_c w)"
    using assms(2) by (auto simp: moves_def side_tables_def)
  have "obligation_ok w' x" if "x \<in> set (cb_obligations (ow_c w'))" for x
  proof (cases "x = r'")
    case False
    then have x: "x \<in> set (cb_obligations (ow_c w))" "ob_id x \<noteq> k"
      using that assms(2) by (auto simp: moves_def)
    then have same: "claims_of (ob_id x) (ow_claims w') = claims_of (ob_id x) (ow_claims w)"
      "claims_of (ob_id x) (ow_ended w') = claims_of (ob_id x) (ow_ended w)"
      unfolding assms(3,4) claims_of_append claims_of_other [OF assms(5) x(2)] claims_of_other [OF assms(6) x(2)]
      by simp_all
    from obligations_invD(2) [OF assms(1) x(1)] show ?thesis unfolding obligation_ok_def same side .
  qed (use assms(7) in simp)
  moreover have "k \<in> ob_id ` set (cb_obligations (ow_c w))"
    using assms(2) get_obligation_in [of "ow_c w" k r] by (auto simp: moves_def)
  ultimately show ?thesis
    using assms(1-6) side unfolding obligations_inv_def moves_def by auto
qed

lemma inv_quiet:
  assumes "obligations_inv w" "cb_obligations (ow_c w') = cb_obligations (ow_c w)"
    "cb_last_obligation (ow_c w') = cb_last_obligation (ow_c w)"
    "ow_claims w' = ow_claims w" "ow_ended w' = ow_ended w"
    "\<And>r. approved (cb_approvals (ow_c w)) r \<Longrightarrow> approved (cb_approvals (ow_c w')) r"
    "set (cb_receipts (ow_c w)) \<subseteq> set (cb_receipts (ow_c w'))"
    "cb_reservations (ow_c w') = cb_reservations (ow_c w)"
  shows "obligations_inv w'"
proof -
  have "proved (cb_receipts (ow_c w)) r \<Longrightarrow> proved (cb_receipts (ow_c w')) r" for r
    using assms(7) by (auto simp: proved_def)
  with assms(6) have "obligation_ok w r \<Longrightarrow> obligation_ok w' r" for r
    unfolding obligation_ok_def assms(4,5) by blast
  with assms show ?thesis by (auto simp: obligations_inv_def wf_capability_def)
qed

text \<open>The three ways a row moves: a claim, the end of a claim, a change while it is not claimed.\<close>

lemma ok_claim:
  assumes "obligation_ok w r" "obligation_claimable p now c r" "cb_approvals (ow_c w') = cb_approvals (ow_c w)"
    "ow_claims w' = ow_claims w @ [(ob_id r, ob_claim_epoch r + 1, ob_attempt_count r + 1)]" "ow_ended w' = ow_ended w"
  shows "obligation_ok w' (obligation_claim_row p now r)"
  using assms first_epochs_Suc [of "ob_claim_epoch r + 1"]
  by (auto simp: obligation_ok_def obligation_claimable_def obligation_claim_row_def held_epochs_def approved_def)

definition released :: "obligation \<Rightarrow> obligation \<Rightarrow> bool" where
  "released r r' \<longleftrightarrow> ob_id r' = ob_id r \<and> ob_params r' = ob_params r \<and> ob_attempt_count r' = ob_attempt_count r
     \<and> ob_claim_epoch r' = ob_claim_epoch r \<and> ob_drain_approval_id r' = ob_drain_approval_id r
     \<and> ob_drain_facts r' = ob_drain_facts r \<and> ob_state r' \<notin> {Bs_claimed, Bs_waiting_approval}"

lemma ok_release:
  assumes "obligation_ok w r" "ob_state r = Bs_claimed" "released r r'"
    "ob_state r' = Bs_completed \<Longrightarrow> proved (cb_receipts (ow_c w')) r'"
    "cb_approvals (ow_c w') = cb_approvals (ow_c w)" "ow_claims w' = ow_claims w"
    "ow_ended w' = ow_ended w @ [(ob_id r, ob_claim_epoch r)]"
  shows "obligation_ok w' r'"
  using assms first_epochs_Suc [of "ob_claim_epoch r"]
  by (auto simp: obligation_ok_def released_def held_epochs_def approved_def)

lemma ok_quiet:
  assumes "obligation_ok w r" "ob_state r \<notin> {Bs_claimed, Bs_waiting_approval}" "released r r'"
    "ob_state r' \<noteq> Bs_completed" "ob_state r \<noteq> Bs_cancelled"
    "cb_approvals (ow_c w') = cb_approvals (ow_c w)" "ow_claims w' = ow_claims w" "ow_ended w' = ow_ended w"
  shows "obligation_ok w' r'"
  using assms by (auto simp: obligation_ok_def released_def held_epochs_def approved_def)

lemma ok_approve:
  assumes "obligation_ok w r" "ob_state r = Bs_waiting_approval"
    "approved (cb_approvals (ow_c w')) (approve_row i facts r)"
    "ow_claims w' = ow_claims w" "ow_ended w' = ow_ended w"
  shows "obligation_ok w' (approve_row i facts r)"
  using assms by (auto simp: obligation_ok_def held_epochs_def approve_row_def)

section \<open>Every step keeps the invariant\<close>

lemma inv_release:
  assumes "obligations_inv w" "updated g f k (ow_c w) c b" "\<And>r. released r (f r)"
    "\<And>r. get_obligation (ow_c w) k = Some r \<Longrightarrow> g r \<Longrightarrow> ob_state r = Bs_claimed \<and> ob_claim_epoch r = epoch"
    "\<And>r. get_obligation (ow_c w) k = Some r \<Longrightarrow> g r \<Longrightarrow> ob_state (f r) = Bs_completed \<Longrightarrow>
      proved (cb_receipts (ow_c w)) (f r)"
  shows "obligations_inv (ended_if b k epoch (w\<lparr>ow_c := c\<rparr>))"
proof (cases b)
  case False
  with assms(1,2) show ?thesis by (simp add: ended_if_def updated_def)
next
  case True
  with assms(2) obtain r where m: "moves k r (f r) (ow_c w) c" "g r" by (auto simp: updated_def)
  then have r: "get_obligation (ow_c w) k = Some r" "side_tables c = side_tables (ow_c w)"
    by (auto simp: moves_def)
  then have in_c: "r \<in> set (cb_obligations (ow_c w))" "ob_id r = k" using get_obligation_in by auto
  let ?w' = "ended_if b k epoch (w\<lparr>ow_c := c\<rparr>)"
  have "obligation_ok ?w' (f r)"
    by (rule ok_release [OF obligations_invD(2) [OF assms(1) in_c(1)] _ assms(3)])
      (use assms(4) [OF r(1) m(2)] assms(5) [OF r(1) m(2)] r(2) True in_c(2) in
        \<open>auto simp: ended_if_def side_tables_def\<close>)
  then show ?thesis
    using m True by (intro inv_move [OF assms(1), where k = k and r = r and r' = "f r" and cs = "[]" and es = "[(k, epoch)]"])
      (auto simp: ended_if_def)
qed

lemma inv_quiet_update:
  assumes "obligations_inv w" "updated g f k (ow_c w) c b"
    "\<And>r w'. g r \<Longrightarrow> get_obligation (ow_c w) k = Some r \<Longrightarrow> obligation_ok w r \<Longrightarrow> cb_approvals (ow_c w') = cb_approvals (ow_c w) \<Longrightarrow>
      ow_claims w' = ow_claims w \<Longrightarrow> ow_ended w' = ow_ended w \<Longrightarrow> obligation_ok w' (f r)"
  shows "obligations_inv (w\<lparr>ow_c := c\<rparr>)"
proof (cases b)
  case False
  with assms(1,2) show ?thesis by (simp add: updated_def)
next
  case True
  with assms(2) obtain r where m: "moves k r (f r) (ow_c w) c" "g r" by (auto simp: updated_def)
  then have r: "get_obligation (ow_c w) k = Some r" "cb_approvals c = cb_approvals (ow_c w)"
    by (auto simp: moves_def side_tables_def)
  have "obligation_ok (w\<lparr>ow_c := c\<rparr>) (f r)"
    by (rule assms(3) [OF m(2) r(1) obligations_invD(2) [OF assms(1)]])
      (use get_obligation_in [OF r(1)] r(2) in auto)
  then show ?thesis
    using m by (intro inv_move [OF assms(1), where k = k and r = r and r' = "f r" and cs = "[]" and es = "[]"]) auto
qed

lemma inv_claim:
  assumes "obligations_inv w" "claimObligation k l (ow_d w) (ow_now w) (ow_c w) = Inr (c, granted)"
  shows "obligations_inv (w\<lparr>ow_c := c, ow_claims := ow_claims w @
      (case granted of None \<Rightarrow> [] | Some (epoch, attempt) \<Rightarrow> [(k, epoch, attempt)])\<rparr>)"
proof -
  from assms(2) obtain row where u: "update_obligation (ow_d w) (ow_now w) (obligation_claimable l (ow_now w) (ow_c w))
      (obligation_claim_row l (ow_now w)) k (ow_c w) = Inr (c, row)"
    and g: "granted = map_option (\<lambda>r. (ob_claim_epoch r, ob_attempt_count r)) row"
    by (auto simp: claimObligation_def and_then_Inr)
  from u show ?thesis
  proof (cases rule: update_obligationD)
    case same
    with g assms(1) show ?thesis by simp
  next
    case (moved r)
    let ?r' = "obligation_claim_row l (ow_now w) r"
    have m: "moves k r ?r' (ow_c w) c"
      by (rule cas_moves [where f = "obligation_claim_row l (ow_now w)"
            and g = "obligation_claimable l (ow_now w) (ow_c w)", OF obligations_invD(1) [OF assms(1)] moved(1,2)])
        (use moved(4) in \<open>auto simp: obligation_claim_row_def\<close>)
    have in_c: "r \<in> set (cb_obligations (ow_c w))" "ob_id r = k" using get_obligation_in [OF moved(1)] by auto
    have gr: "granted = Some (ob_claim_epoch r + 1, ob_attempt_count r + 1)"
      using g moved(3) by (simp add: obligation_claim_row_def)
    let ?w' = "w\<lparr>ow_c := c, ow_claims := ow_claims w @ [(k, ob_claim_epoch r + 1, ob_attempt_count r + 1)]\<rparr>"
    have "obligation_ok ?w' ?r'"
      by (rule ok_claim [OF obligations_invD(2) [OF assms(1) in_c(1)] moved(2)])
        (use m in_c(2) in \<open>auto simp: moves_def side_tables_def\<close>)
    then have "obligations_inv ?w'"
      using m by (intro inv_move [OF assms(1), where k = k and r = r and r' = ?r'
          and cs = "[(k, ob_claim_epoch r + 1, ob_attempt_count r + 1)]" and es = "[]"]) auto
    with gr show ?thesis by simp
  qed
qed

lemma inv_decision:
  assumes "obligations_inv w" "applyDecisionWithinCallerTransaction p now (ow_c w) = Inr (c, ids)"
  shows "obligations_inv (w\<lparr>ow_c := c\<rparr>)"
proof (cases "cb_obligations c = cb_obligations (ow_c w)")
  case True
  then show ?thesis
    using assms(2) by (intro inv_quiet [OF assms(1)])
      (auto simp: applyDecisionWithinCallerTransaction_def insertWithinCallerTransaction_def
        appendEventWithinCallerTransaction_def Let_def result_simps split: option.splits if_splits)
next
  case False
  let ?k = "cb_last_obligation (ow_c w) + 1"
  from False assms(2) obtain q i where new: "cb_obligations c = cb_obligations (ow_c w) @
      [\<lparr>ob_id = ?k, ob_params = q, ob_creation_evidence_event_id = i, ob_created_at = now,
        ob_state = (if bp_isGroup q then Bs_waiting_approval else Bs_waiting_capability),
        ob_claim_token = None, ob_claim_epoch = 0, ob_claim_expires_at = None, ob_attempt_count = 0,
        ob_next_attempt_at = None, ob_completion_proof_id = None, ob_receipt_id = None,
        ob_drain_approval_id = None, ob_drain_facts = None\<rparr>]" "cb_last_obligation c = ?k"
      "side_tables c = side_tables (ow_c w)"
    by (auto simp: applyDecisionWithinCallerTransaction_def insertWithinCallerTransaction_def side_tables_def
        appendEventWithinCallerTransaction_def Let_def result_simps split: option.splits if_splits)
  have wf: "wf_capability (ow_c w)" by (rule obligations_invD(1) [OF assms(1)])
  then have fresh: "?k \<notin> ob_id ` set (cb_obligations (ow_c w))"
    by (force simp: wf_capability_def keys_ok_def list_all_iff)
  have none: "claims_of ?k (ow_claims w) = []" "claims_of ?k (ow_ended w) = []"
    using fresh obligations_invD(3) [OF assms(1)] by (auto simp: claims_of_def filter_empty_conv)
  have "wf_capability c"
    using keys_ok_append [of "map ob_id (cb_obligations (ow_c w))"] wf by (simp add: wf_capability_def new)
  moreover have "obligation_ok (w\<lparr>ow_c := c\<rparr>) r" if "r \<in> set (cb_obligations c)" for r
  proof (cases "r \<in> set (cb_obligations (ow_c w))")
    case True
    with obligations_invD(2) [OF assms(1) True] new(3) show ?thesis by (auto simp: obligation_ok_def side_tables_def)
  next
    case False
    with that none show ?thesis
      by (auto simp: new(1) obligation_ok_def held_epochs_def first_epochs_def CAPABILITY_OBLIGATION_MAX_ATTEMPTS_def)
  qed
  moreover have "cb_reservations c = cb_reservations (ow_c w)" using new(3) by (simp add: side_tables_def)
  moreover have "ob_id ` set (cb_obligations (ow_c w)) \<subseteq> ob_id ` set (cb_obligations c)" using new(1) by auto
  ultimately show ?thesis using assms(1) unfolding obligations_inv_def by simp (metis order_trans)
qed

lemma applied_if_current:
  assumes "update_and_record d now g f e k c = Inr (c', b)" "get_obligation c k = Some r" "g r"
  shows "b"
  using assms by (auto simp: update_and_record_def update_obligation_def result_simps split: option.splits)

lemma released_rows [simp]:
  "released r (release_row Bs_blocked_ambiguous r)" "released r (release_row Bs_blocked_media r)"
  "released r (release_row Bs_cancelled r)" "released r (requeue_obligation_row n r)" "released r (completed_row i p r)"
  "released r ((requeue_obligation_row n r)\<lparr>ob_state := Bs_waiting_capability\<rparr>)"
  "released r (r\<lparr>ob_state := Bs_blocked_media\<rparr>)"
  by (auto simp: released_def release_row_def requeue_obligation_row_def completed_row_def retry_state_def)

lemma inv_reclaim_one:
  assumes "obligations_inv w" "get_obligation (ow_c w) (ob_id r) = Some r" "ob_state r = Bs_claimed"
    "reclaim_one accepted (ow_d w) (ow_now w) r (ow_c w) = Inr (c, b)"
  shows "obligations_inv (w\<lparr>ow_c := c, ow_ended := ow_ended w @ [(ob_id r, ob_claim_epoch r)]\<rparr>)"
    "k \<noteq> ob_id r \<Longrightarrow> get_obligation c k = get_obligation (ow_c w) k"
proof -
  define f e where "f = (if ob_id r \<in> accepted then release_row Bs_blocked_ambiguous else requeue_obligation_row (ow_now w))"
    and "e = (if ob_id r \<in> accepted then supervisor_event Ea_block ''lease_expired_after_acceptance'' (Some (ob_claim_epoch r))
      else supervisor_event Ea_requeue ''lease_expired_before_acceptance'' (Some (ob_claim_epoch r)))"
  have u: "update_and_record (ow_d w) (ow_now w) (\<lambda>x. ob_state x = Bs_claimed) f e (ob_id r) (ow_c w) = Inr (c, b)"
    using assms(4) by (simp add: reclaim_one_def f_def e_def split: if_splits)
  have rel: "released x (f x)" for x by (simp add: f_def)
  have b: "b" by (rule applied_if_current [OF u assms(2)]) (rule assms(3))
  have st: "ob_state (f x) \<noteq> Bs_completed" for x
    by (simp add: f_def release_row_def requeue_obligation_row_def retry_state_def)
  have ids: "ob_id (f x) = ob_id x" for x using rel [of x] by (simp add: released_def)
  have "obligations_inv (ended_if b (ob_id r) (ob_claim_epoch r) (w\<lparr>ow_c := c\<rparr>))"
    by (rule inv_release [OF assms(1) recorded_updated [OF u obligations_invD(1) [OF assms(1)] ids] rel]) (use assms(2,3) st in auto)
  with b show "obligations_inv (w\<lparr>ow_c := c, ow_ended := ow_ended w @ [(ob_id r, ob_claim_epoch r)]\<rparr>)"
    by (simp add: ended_if_def)
  assume "k \<noteq> ob_id r"
  from u obligations_invD(1) [OF assms(1)] ids show "get_obligation c k = get_obligation (ow_c w) k"
  proof (cases rule: update_and_recordD)
    case (moved x)
    have "c = (fst (cas_obligation (\<lambda>x. ob_state x = Bs_claimed) f (ob_id r) (ow_c w)))\<lparr>
        cb_events := cb_events c, cb_last_event := cb_last_event c\<rparr>"
      using u assms(2,3) b by (auto simp: update_and_record_def update_obligation_def result_simps
          appendEventWithinCallerTransaction_def Let_def cas_obligation_def split: option.splits)
    then have "get_obligation c k = get_obligation (fst (cas_obligation (\<lambda>x. ob_state x = Bs_claimed) f (ob_id r) (ow_c w))) k"
      by (metis (no_types, lifting) capability_db.select_convs(1) capability_db.surjective capability_db.update_convs(3,4) get_obligation_def)
    also have "\<dots> = get_obligation (ow_c w) k"
      using obligations.get_cas [OF obligations_invD(1) [OF assms(1)], of f "\<lambda>x. ob_state x = Bs_claimed" "ob_id r" k] ids \<open>k \<noteq> ob_id r\<close>
      by (simp add: keeps_id_def)
    finally show ?thesis .
  qed simp
qed

lemma inv_reclaim_all:
  assumes "reclaim_all accepted d now rows (ow_c w) = Inr c" "ow_d w = d" "ow_now w = now" "obligations_inv w"
    "distinct (map ob_id rows)"
    "\<And>r. r \<in> set rows \<Longrightarrow> get_obligation (ow_c w) (ob_id r) = Some r \<and> ob_state r = Bs_claimed"
  shows "obligations_inv (w\<lparr>ow_c := c, ow_ended := ow_ended w @ map (\<lambda>r. (ob_id r, ob_claim_epoch r)) rows\<rparr>)"
  using assms
proof (induction rows arbitrary: w)
  case (Cons r rows)
  from Cons.prems(1) obtain c1 b where one: "reclaim_one accepted d now r (ow_c w) = Inr (c1, b)"
    and rest: "reclaim_all accepted d now rows c1 = Inr c" by (auto simp: result_simps)
  let ?w1 = "w\<lparr>ow_c := c1, ow_ended := ow_ended w @ [(ob_id r, ob_claim_epoch r)]\<rparr>"
  have cur: "get_obligation (ow_c w) (ob_id r) = Some r" "ob_state r = Bs_claimed" using Cons.prems(6) [of r] by auto
  note step = inv_reclaim_one [OF Cons.prems(4) cur one [folded Cons.prems(2,3)]]
  have "obligations_inv (?w1\<lparr>ow_c := c, ow_ended := ow_ended ?w1 @ map (\<lambda>r. (ob_id r, ob_claim_epoch r)) rows\<rparr>)"
  proof (rule Cons.IH)
    fix x assume x: "x \<in> set rows"
    with Cons.prems(5) have "ob_id x \<noteq> ob_id r" by (auto simp: image_iff)
    with step(2) Cons.prems(6) [of x] x show "get_obligation (ow_c ?w1) (ob_id x) = Some x \<and> ob_state x = Bs_claimed"
      by simp
  qed (use rest step(1) Cons.prems in auto)
  then show ?case by simp
next
  case Nil
  then have "c = ow_c w" by simp
  with Nil(4) show ?case by simp
qed

lemma expired_current:
  assumes "wf_capability c"
  shows "distinct (map ob_id (expired_claims now c))"
    "r \<in> set (expired_claims now c) \<Longrightarrow> get_obligation c (ob_id r) = Some r \<and> ob_state r = Bs_claimed"
proof -
  have d: "distinct (map ob_id (cb_obligations c))" using assms by (simp add: wf_capability_def keys_ok_def)
  show "distinct (map ob_id (expired_claims now c))"
    using d by (auto simp: expired_claims_def distinct_map inj_on_def)
  show "r \<in> set (expired_claims now c) \<Longrightarrow> get_obligation c (ob_id r) = Some r \<and> ob_state r = Bs_claimed"
    using find_key_unique [OF d, of r] by (auto simp: expired_claims_def get_obligation_def)
qed

lemma approved_insert:
  "insert_approval k dest facts who valid now c = (c', i) \<Longrightarrow> cb_obligations c' = cb_obligations c
    \<and> cb_last_obligation c' = cb_last_obligation c \<and> cb_receipts c' = cb_receipts c
    \<and> cb_reservations c' = cb_reservations c
    \<and> cb_approvals c' = cb_approvals c @ [\<lparr>ap_id = i, ap_obligation_id = k, ap_destination_jid = dest,
         ap_scope = Group_scope, ap_facts = facts, ap_approver = who, ap_approved_at = now,
         ap_expires_at = now + valid, ap_revoked_at = None\<rparr>]"
  by (auto simp: insert_approval_def appendEventWithinCallerTransaction_def Let_def)

lemma inv_insert_approval:
  assumes "obligations_inv w" "insert_approval k dest facts who valid now (ow_c w) = (c, i)"
  shows "obligations_inv (w\<lparr>ow_c := c\<rparr>)"
  using approved_insert [OF assms(2)] by (intro inv_quiet [OF assms(1)]) (auto simp: approved_def)

lemma inv_consume:
  assumes "obligations_inv w" "consume_update k i facts (ow_d w) (ow_now w) (ow_c w) = Inr (c, b)"
    "a \<in> set (cb_approvals (ow_c w))" "ap_id a = i" "ap_facts a = facts" "ap_scope a = Group_scope" "ap_obligation_id a = k"
    "\<And>r. get_obligation (ow_c w) k = Some r \<Longrightarrow> ap_destination_jid a = bp_deliveryJid (ob_params r)"
  shows "obligations_inv (w\<lparr>ow_c := c\<rparr>)"
proof (rule inv_quiet_update [OF assms(1)])
  show "updated (\<lambda>r. ob_state r = Bs_waiting_approval) (approve_row i facts) k (ow_c w) c b"
    by (rule recorded_updated [OF assms(2) [unfolded consume_update_def] obligations_invD(1) [OF assms(1)]])
      (simp add: approve_row_def)
next
  fix r and w' :: obligation_world
  assume r: "ob_state r = Bs_waiting_approval" "get_obligation (ow_c w) k = Some r" "obligation_ok w r"
    "cb_approvals (ow_c w') = cb_approvals (ow_c w)" "ow_claims w' = ow_claims w" "ow_ended w' = ow_ended w"
  have "approved (cb_approvals (ow_c w')) (approve_row i facts r)"
    using assms(3-8) r(2,4) get_obligation_in [OF r(2)] by (auto simp: approved_def approve_row_def)
  from ok_approve [OF r(3,1) this r(5,6)] show "obligation_ok w' (approve_row i facts r)" .
qed

lemma adjudication_updates:
  assumes "operatorAdjudicateObligation k a d now c = Inr (c', res)" "wf_capability c"
  shows "c' = c \<or> (\<exists>st b. st \<in> legalFrom (aj_action a)
    \<and> updated (\<lambda>x. ob_state x = st) (adjudicated_row (aj_action a) now) k c c' b)"
proof (cases "c' = c")
  case False
  with assms(1) obtain r where get: "get_obligation c k = Some r"
    by (cases "get_obligation c k") (auto simp: operatorAdjudicateObligation_def Let_def)
  have r: "ob_state r \<in> legalFrom (aj_action a)"
    by (rule ccontr) (use assms(1) False get in
      \<open>auto simp: operatorAdjudicateObligation_def Let_def split: option.splits if_splits\<close>)
  from assms(1) False get r obtain e b where
    u: "update_and_record d now (\<lambda>x. ob_state x = ob_state r) (adjudicated_row (aj_action a) now) e k c = Inr (c', b)"
    by (auto simp: operatorAdjudicateObligation_def Let_def result_simps split: option.splits if_splits)
  have "updated (\<lambda>x. ob_state x = ob_state r) (adjudicated_row (aj_action a) now) k c c' b"
    by (rule recorded_updated [OF u assms(2)])
      (simp add: adjudicated_row_def release_row_def requeue_obligation_row_def split: adjudication_action.split)
  with r show ?thesis by blast
qed simp

lemma ok_adjudicated:
  assumes "ob_state r = st" "st \<in> legalFrom a" "obligation_ok w r" "cb_approvals (ow_c w') = cb_approvals (ow_c w)"
    "ow_claims w' = ow_claims w" "ow_ended w' = ow_ended w"
  shows "obligation_ok w' (adjudicated_row a now r)"
  using assms by (cases a) (auto simp: obligation_ok_def adjudicated_row_def release_row_def requeue_obligation_row_def
      held_epochs_def legalFrom_def approved_def)

lemma approved_revoked:
  assumes "approved approvals r"
  shows "approved (update_rows p (\<lambda>a. a\<lparr>ap_revoked_at := x\<rparr>) approvals) r"
proof -
  let ?f = "\<lambda>a. if p a then a\<lparr>ap_revoked_at := x\<rparr> else a"
  from assms obtain a where a: "a \<in> set approvals" "ob_drain_approval_id r = Some (ap_id a)"
    "ob_drain_facts r = Some (ap_facts a)" "ap_obligation_id a = ob_id r" "ap_scope a = Group_scope"
    "ap_destination_jid a = bp_deliveryJid (ob_params r)" by (auto simp: approved_def)
  have "?f a \<in> set (update_rows p (\<lambda>a. a\<lparr>ap_revoked_at := x\<rparr>) approvals)" using a(1) by (simp add: update_rows_def)
  then show ?thesis unfolding approved_def by (rule rev_bexI) (use a in simp)
qed

lemma obligation_step_inv:
  assumes "obligation_step w w'" "obligations_inv w"
  shows "obligations_inv w'"
  using assms(1)
proof cases
  case (Elsewhere now d)
  then show ?thesis by (intro inv_quiet [OF assms(2)]) auto
next
  case (Decides p c ids)
  with inv_decision [OF assms(2)] show ?thesis by simp
next
  case (Attests q rows i j)
  then show ?thesis by (intro inv_quiet [OF assms(2)]) auto
next
  case (Revokes c k)
  have "approved (cb_approvals (ow_c w)) r \<Longrightarrow> approved (cb_approvals c) r" for r
    using Revokes(2) approved_revoked by (auto simp: revoke_approval_def revoke_attestation_def)
  then show ?thesis using Revokes
    by (intro inv_quiet [OF assms(2)]) (auto simp: revoke_approval_def revoke_attestation_def)
next
  case (Claims k l c granted)
  with inv_claim [OF assms(2)] show ?thesis by simp
next
  case (Requeues k f backoff c b ex)
  then obtain row where u: "update_obligation (ow_d w) (ow_now w) (holds_claim f)
      (requeue_obligation_row (ow_now w + backoff)) k (ow_c w) = Inr (c, row)" "b = (row \<noteq> None)"
    by (auto simp: requeueObligation_def result_simps)
  have "updated (holds_claim f) (requeue_obligation_row (ow_now w + backoff)) k (ow_c w) c b"
    unfolding u(2) by (rule obligation_updated [OF u(1) obligations_invD(1) [OF assms(2)]])
      (simp add: requeue_obligation_row_def)
  then show ?thesis unfolding Requeues(1) by (rule inv_release [OF assms(2)])
      (auto simp: holds_claim_def, simp add: requeue_obligation_row_def retry_state_def split: if_splits)
next
  case (Blocks k f media reason c b)
  have "updated (holds_claim f) (release_row (if media then Bs_blocked_media else Bs_blocked_ambiguous)) k (ow_c w) c b"
    by (rule recorded_updated [OF Blocks(2) [unfolded blockObligation_def] obligations_invD(1) [OF assms(2)]])
      (simp add: release_row_def)
  then show ?thesis unfolding Blocks(1) by (rule inv_release [OF assms(2)])
      (auto simp: holds_claim_def release_row_def released_def split: if_splits)
next
  case (Blocks_waiting k reason c b)
  have "updated (\<lambda>r. ob_state r = Bs_waiting_capability) (\<lambda>r. r\<lparr>ob_state := Bs_blocked_media\<rparr>) k (ow_c w) c b"
    by (rule recorded_updated [OF Blocks_waiting(2) [unfolded blockWaitingObligation_def] obligations_invD(1) [OF assms(2)]])
      simp
  note quiet = inv_quiet_update [OF assms(2) this]
  show ?thesis unfolding Blocks_waiting(1)
  proof (rule quiet)
    fix r and w' :: obligation_world
    assume r: "ob_state r = Bs_waiting_capability" "obligation_ok w r" "cb_approvals (ow_c w') = cb_approvals (ow_c w)"
      "ow_claims w' = ow_claims w" "ow_ended w' = ow_ended w"
    show "obligation_ok w' (r\<lparr>ob_state := Bs_blocked_media\<rparr>)"
      by (rule ok_quiet [OF r(2) _ _ _ _ r(3-5)]) (simp_all add: r(1))
  qed
next
  case (Settles k f receiptId pf c b)
  show ?thesis
  proof (cases "\<exists>r. get_obligation (ow_c w) k = Some r \<and> holds_claim f r
      \<and> exists_row (\<lambda>x. rc_id x = receiptId \<and> receipt_proves (ow_d w) r pf x) (cb_receipts (ow_c w))")
    case False
    with Settles(2) have "c = ow_c w" "\<not> b" by (auto simp: settleCompleted_def split: option.splits if_splits)
    with Settles(1) assms(2) show ?thesis by (simp add: ended_if_def)
  next
    case True
    then obtain r where r: "get_obligation (ow_c w) k = Some r" "holds_claim f r"
      "exists_row (\<lambda>x. rc_id x = receiptId \<and> receipt_proves (ow_d w) r pf x) (cb_receipts (ow_c w))" by blast
    with Settles(2) have u: "update_and_record (ow_d w) (ow_now w) (holds_claim f) (completed_row receiptId pf)
        (supervisor_event Ea_settle ''completed'' (Some (of_claimEpoch f))) k (ow_c w) = Inr (c, b)"
      by (simp add: settleCompleted_def)
    have "proved (cb_receipts (ow_c w)) (completed_row receiptId pf r)"
      using r(3) by (auto simp: exists_row_iff proved_def completed_row_def receipt_proves_def Let_def)
    moreover have "updated (holds_claim f) (completed_row receiptId pf) k (ow_c w) c b"
      by (rule recorded_updated [OF u obligations_invD(1) [OF assms(2)]]) (simp add: completed_row_def)
    note settled = inv_release [OF assms(2) this]
    ultimately show ?thesis unfolding Settles(1) using r(1)
      by (intro settled) (auto simp: holds_claim_def)
  qed
next
  case (Reclaims accepted c ids)
  then have "reclaim_all accepted (ow_d w) (ow_now w) (expired_claims (ow_now w) (ow_c w)) (ow_c w) = Inr c"
    by (auto simp: reclaimExpiredClaims_def Let_def result_simps)
  from inv_reclaim_all [OF this refl refl assms(2)] expired_current [OF obligations_invD(1) [OF assms(2)]] Reclaims(1)
  show ?thesis by simp
next
  case (Adjudicates k a c res)
  from adjudication_updates [OF Adjudicates(2) obligations_invD(1) [OF assms(2)]] show ?thesis
  proof
    assume "c = ow_c w"
    with Adjudicates(1) assms(2) show ?thesis by simp
  next
    assume "\<exists>st b. st \<in> legalFrom (aj_action a)
      \<and> updated (\<lambda>x. ob_state x = st) (adjudicated_row (aj_action a) (ow_now w)) k (ow_c w) c b"
    then obtain st b where st: "st \<in> legalFrom (aj_action a)"
      "updated (\<lambda>x. ob_state x = st) (adjudicated_row (aj_action a) (ow_now w)) k (ow_c w) c b" by blast
    show ?thesis unfolding Adjudicates(1)
      by (rule inv_quiet_update [OF assms(2) st(2)]) (rule ok_adjudicated [OF _ st(1)])
  qed
next
  case (Approves k dest facts who valid c out)
  show ?thesis
  proof (cases "approval_refused k dest (ow_c w)")
    case None
    with Approves(2) obtain i where "insert_approval k dest facts who valid (ow_now w) (ow_c w) = (c, i)"
      by (auto simp: recordGroupDrainApproval_def split: prod.splits)
    from inv_insert_approval [OF assms(2) this] Approves(1) show ?thesis by simp
  qed (use Approves assms(2) in \<open>auto simp: recordGroupDrainApproval_def\<close>)
next
  case (Approves_and_consumes k dest facts who valid c out)
  show ?thesis
  proof (cases "approval_refused k dest (ow_c w)")
    case None
    then obtain r where r: "get_obligation (ow_c w) k = Some r" "bp_deliveryJid (ob_params r) = dest"
      by (auto simp: approval_refused_def split: option.splits if_splits)
    obtain c1 i where ins: "insert_approval k dest facts who valid (ow_now w) (ow_c w) = (c1, i)" by fastforce
    with Approves_and_consumes(2) None obtain b where u: "consume_update k i facts (ow_d w) (ow_now w) c1 = Inr (c, b)"
      by (auto simp: recordAndConsumeGroupDrainApproval_def result_simps)
    note a = approved_insert [OF ins]
    have inv1: "obligations_inv (w\<lparr>ow_c := c1\<rparr>)" by (rule inv_insert_approval [OF assms(2) ins])
    have "obligations_inv ((w\<lparr>ow_c := c1\<rparr>)\<lparr>ow_c := c\<rparr>)"
      by (rule inv_consume [OF inv1, of k i facts c b "last (cb_approvals c1)"])
        (use u a r in \<open>auto simp: get_obligation_def\<close>)
    with Approves_and_consumes(1) show ?thesis by simp
  qed (use Approves_and_consumes assms(2) in \<open>auto simp: recordAndConsumeGroupDrainApproval_def\<close>)
next
  case (Consumes k dest facts c out)
  show ?thesis
  proof (cases "\<exists>r a as. get_obligation (ow_c w) k = Some r \<and> ob_state r = Bs_waiting_approval \<and> bp_isGroup (ob_params r)
      \<and> sort_key (\<lambda>a. - ap_id a) (filter (\<lambda>a. approval_covers (ow_now w) r facts a
             \<and> ap_destination_jid a = dest) (cb_approvals (ow_c w))) = a # as")
    case False
    with Consumes(2) have "c = ow_c w"
      by (auto simp: consumeGroupDrainApproval_def split: option.splits if_splits list.splits)
    with Consumes(1) assms(2) show ?thesis by simp
  next
    case True
    then obtain r a as where r: "get_obligation (ow_c w) k = Some r" "ob_state r = Bs_waiting_approval" "bp_isGroup (ob_params r)"
      and sorted: "sort_key (\<lambda>a. - ap_id a) (filter (\<lambda>a. approval_covers (ow_now w) r facts a
             \<and> ap_destination_jid a = dest) (cb_approvals (ow_c w))) = a # as" by blast
    have "a \<in> set (sort_key (\<lambda>a. - ap_id a) (filter (\<lambda>a. approval_covers (ow_now w) r facts a
             \<and> ap_destination_jid a = dest) (cb_approvals (ow_c w))))" unfolding sorted by simp
    then have a: "a \<in> set (cb_approvals (ow_c w))" "approval_covers (ow_now w) r facts a" by auto
    from Consumes(2) r sorted obtain b where
      "consume_update k (ap_id a) facts (ow_d w) (ow_now w) (ow_c w) = Inr (c, b)"
      by (auto simp: consumeGroupDrainApproval_def result_simps)
    from inv_consume [OF assms(2) this a(1) refl] a(2) r(1) get_obligation_in [OF r(1)] Consumes(1) show ?thesis
      by (simp add: approval_covers_def)
  qed
next
  case (Reserves k epoch attempt tool c b)
  then have c: "c = ow_c w \<or> (k, epoch, attempt) \<notin> reservation_key ` set (cb_reservations (ow_c w))
      \<and> c = (ow_c w)\<lparr>cb_reservations := cb_reservations (ow_c w) @ [\<lparr>rv_obligation_id = k, rv_claim_epoch = epoch,
            rv_attempt_number = attempt, rv_tool_use_id = tool\<rparr>]\<rparr>"
    by (auto simp: reserveExecutionAttempt_def result_simps exists_row_iff reservation_key_def split: if_splits)
  have "obligation_ok (w\<lparr>ow_c := c\<rparr>) r = obligation_ok w r" for r using c by (auto simp: obligation_ok_def)
  moreover have "reservation_key \<lparr>rv_obligation_id = k, rv_claim_epoch = epoch, rv_attempt_number = attempt,
      rv_tool_use_id = tool\<rparr> = (k, epoch, attempt)" by (simp add: reservation_key_def)
  ultimately show ?thesis using c Reserves(1,2) assms(2)
    by (auto simp: obligations_inv_def wf_capability_def image_subset_iff)
next
  case (Receives x c i)
  then show ?thesis
    by (intro inv_quiet [OF assms(2)]) (auto simp: recordExecutionReceipt_def Let_def result_simps)
qed

section \<open>Reachable stores\<close>

lemma reachable_obligations:
  assumes "obligation_step\<^sup>*\<^sup>* (first_obligation_world d now) w"
  shows "obligations_inv w"
  using assms
proof (induction rule: rtranclp_induct)
  case base
  show ?case
    by (simp add: obligations_inv_def first_obligation_world_def empty_capability_db_def wf_capability_def keys_ok_def)
qed (blast intro: obligation_step_inv)

lemma reservations_bounded:
  assumes "obligations_inv w" "obligation_ok w r"
  shows "length (filter (\<lambda>v. rv_obligation_id v = ob_id r) (cb_reservations (ow_c w))) \<le> nat (ob_attempt_count r)"
proof -
  let ?rs = "filter (\<lambda>v. rv_obligation_id v = ob_id r) (cb_reservations (ow_c w))"
  let ?cl = "claims_of (ob_id r) (ow_claims w)"
  have "distinct (map reservation_key ?rs)"
    using assms(1) by (simp add: obligations_inv_def distinct_map_filter)
  then have "length ?rs = card (reservation_key ` set ?rs)" by (metis distinct_card length_map list.set_map)
  also have "reservation_key ` set ?rs \<subseteq> Pair (ob_id r) ` set ?cl"
  proof
    fix x assume "x \<in> reservation_key ` set ?rs"
    then obtain v where v: "v \<in> set (cb_reservations (ow_c w))" "rv_obligation_id v = ob_id r" "x = reservation_key v" by auto
    then have "x \<in> set (ow_claims w)" using assms(1) by (auto simp: obligations_inv_def image_subset_iff)
    moreover have "fst x = ob_id r" using v by (simp add: reservation_key_def)
    ultimately have "x \<in> {y \<in> set (ow_claims w). fst y = ob_id r}" by simp
    then have "snd x \<in> set ?cl" unfolding claims_of_def set_map set_filter by (rule imageI)
    moreover have "x = Pair (ob_id r) (snd x)" using v by (simp add: reservation_key_def)
    ultimately show "x \<in> Pair (ob_id r) ` set ?cl" by (intro image_eqI [where x = "snd x"]) simp_all
  qed
  then have "card (reservation_key ` set ?rs) \<le> card (Pair (ob_id r) ` set ?cl)" by (rule card_mono [rotated]) simp
  also have "\<dots> \<le> length ?cl" by (meson List.finite_set card_image_le card_length order_trans)
  also have "length ?cl = nat (ob_attempt_count r)" using assms(2) by (simp add: obligation_ok_def first_epochs_def)
  finally show ?thesis .
qed

section \<open>No statement trips a trigger\<close>

















section \<open>A concrete run\<close>

text \<open>A run: a group's obligation is created, approved, admitted by an attestation, claimed and executed.\<close>

definition shown_obligation :: obligation_params where
  "shown_obligation = \<lparr>bp_sourceInboundSeq = 7, bp_sourceMessageId = ''m'', bp_conversationKey = ''g_at_g.us'',
     bp_deliveryJid = ''g@g.us'', bp_senderJid = ''p@s.whatsapp.net'', bp_senderName = None, bp_isGroup = True,
     bp_groupName = Some ''G'', bp_scope = ''per_chat'', bp_originRecoveryJobId = None, bp_replayText = ''do it'',
     bp_contentTypeHint = None, bp_contractVersion = ''v1'', bp_requiredCapability = ''cap'',
     bp_capabilityParams = Text 2 (Some (JObj [])),
     bp_inputDigest = replicate 64 CHR ''a'', bp_sourceDigest = replicate 64 CHR ''b'', bp_sourceToken = Some ''t'',
     bp_retainedMedia = None, bp_creationReason = ''harness_capability_gap''\<rparr>"

definition shown_decision :: decision_params where
  "shown_decision = \<lparr>dp_auditEvent = \<lparr>ev_action = Ea_create, ev_actorType = Runtime, ev_actorId = None,
     ev_reasonCode = None, ev_sourceHash = None, ev_claimEpoch = None, ev_detail = No_detail\<rparr>,
     dp_obligation = Some shown_obligation\<rparr>"

definition shown_facts :: drain_facts where
  "shown_facts = \<lparr>df_releaseSha = ''r'', df_manifestDigest = ''m'', df_drainRunId = ''d'', df_attestationDigest = ''a''\<rparr>"

definition shown_attestation :: attestation_params where
  "shown_attestation = \<lparr>tp_binding = \<lparr>ab_hostId = ''h'', ab_runtimeUser = ''u'', ab_releaseSha = ''r'',
       ab_schemaVersion = 60, ab_providerId = ''p'', ab_harnessType = ''x'', ab_contractVersion = ''v1'',
       ab_capability = ''cap'', ab_skillName = ''s'', ab_skillVersion = None, ab_skillDigest = ''d'',
       ab_resolverDigest = None, ab_dependencyVersions = [(''b'', ''2''), (''a'', ''1'')], ab_probeVersion = ''1'',
       ab_canaryId = ''c'', ab_mediaRoot = ''/m''\<rparr>,
     tp_canaryPass = True, tp_nonce = ''n'', tp_attestedAt = At 90, tp_expiresAt = At 1000,
     tp_evidence = \<lparr>ae_probeStdoutRef = None, ae_probeStderrRef = None, ae_probeExit = Some 0,
       ae_canaryInputRef = None, ae_mediaRootReadable = Some True\<rparr>\<rparr>"

definition shown_claim :: claim_params where
  "shown_claim = \<lparr>lp_claimToken = ''tok'', lp_leaseSeconds = 60, lp_admissionAttestationId = Some 1,
     lp_admissionAttestationDigest = Some ''a''\<rparr>"

definition shown_c1 :: capability_db where
  "shown_c1 = fst (projr (applyDecisionWithinCallerTransaction shown_decision 100 empty_capability_db))"

definition shown_c2 :: capability_db where
  "shown_c2 = fst (projr (recordAndConsumeGroupDrainApproval 1 ''g@g.us'' shown_facts ''op'' 600 empty_db 100 shown_c1))"

definition shown_c3 :: capability_db where
  "shown_c3 = (case recordCapabilityAttestation shown_attestation ([], 0) of
     Inr ((rows, i), _) \<Rightarrow> shown_c2\<lparr>cb_attestations := rows, cb_last_attestation := i\<rparr> | Inl _ \<Rightarrow> shown_c2)"

definition shown_c4 :: capability_db where
  "shown_c4 = fst (projr (claimObligation 1 shown_claim empty_db 100 shown_c3))"

definition shown_c5 :: capability_db where
  "shown_c5 = fst (projr (reserveExecutionAttempt 1 1 1 ''tool'' shown_c4))"

definition shown_world :: "capability_db \<Rightarrow> bool \<Rightarrow> obligation_world" where
  "shown_world c claimed = \<lparr>ow_d = empty_db, ow_now = 100, ow_c = c,
     ow_claims = (if claimed then [(1, 1, 1)] else []), ow_ended = []\<rparr>"

lemma shown_steps:
  "applyDecisionWithinCallerTransaction shown_decision 100 empty_capability_db = Inr (shown_c1, 1, Some 1)"
  "recordAndConsumeGroupDrainApproval 1 ''g@g.us'' shown_facts ''op'' 600 empty_db 100 shown_c1 = Inr (shown_c2, Inr 1)"
  "recordCapabilityAttestation shown_attestation (cb_attestations shown_c2, cb_last_attestation shown_c2)
     = Inr ((cb_attestations shown_c3, 1), 1)"
  "shown_c3 = shown_c2\<lparr>cb_attestations := cb_attestations shown_c3, cb_last_attestation := 1\<rparr>"
  "claimObligation 1 shown_claim empty_db 100 shown_c3 = Inr (shown_c4, Some (1, 1))"
  "reserveExecutionAttempt 1 1 1 ''tool'' shown_c4 = Inr (shown_c5, True)"
  "map (\<lambda>r. (ob_id r, ob_attempt_count r, ob_state r = Bs_claimed, bp_isGroup (ob_params r))) (cb_obligations shown_c5) = [(1, 1, True, True)]"
  by code_simp+

lemma shown_reachable: "obligation_step\<^sup>*\<^sup>* (first_obligation_world empty_db 100) (shown_world shown_c5 True)"
proof -
  have "obligation_step (first_obligation_world empty_db 100) (shown_world shown_c1 False)"
    using Decides [of shown_decision "first_obligation_world empty_db 100"] shown_steps(1)
    by (simp add: first_obligation_world_def shown_world_def)
  moreover have "obligation_step (shown_world shown_c1 False) (shown_world shown_c2 False)"
    using Approves_and_consumes [of 1 "''g@g.us''" shown_facts "''op''" 600 "shown_world shown_c1 False"] shown_steps(2)
    by (simp add: shown_world_def)
  moreover have "obligation_step (shown_world shown_c2 False) (shown_world shown_c3 False)"
    using Attests [of shown_attestation "shown_world shown_c2 False"] shown_steps(3) shown_steps(4) [symmetric]
    by (simp add: shown_world_def)
  moreover have "obligation_step (shown_world shown_c3 False) (shown_world shown_c4 True)"
    using Claims [of 1 shown_claim "shown_world shown_c3 False"] shown_steps(5) by (simp add: shown_world_def)
  moreover have "obligation_step (shown_world shown_c4 True) (shown_world shown_c5 True)"
    using Reserves [of 1 1 1 "shown_world shown_c4 True" "''tool''"] shown_steps(6) by (simp add: shown_world_def)
  ultimately show ?thesis by (meson converse_rtranclp_into_rtranclp rtranclp.rtrancl_refl)
qed

section \<open>Properties\<close>

text \<open>
  C31: whatever happens to the obligation store, the obligation of every row is claimed at most five times,
  under the epochs one, two, three .. in this order; each claim it was granted, apart from one it may still
  hold, ended exactly once (no fence can end a claim twice or end another's claim); an execution is
  reserved at most once per granted claim, hence at most five times; an obligation of a group that is
  claimed or was ever claimed consumed an approval for its own destination; and a completed one holds a
  successful receipt of its last claim, bound to its own source.
\<close>

theorem obligation_claims_are_bounded:
  assumes "obligation_step\<^sup>*\<^sup>* (first_obligation_world d now) w" "r \<in> set (cb_obligations (ow_c w))"
  shows "ob_attempt_count r \<le> 5
    \<and> claims_of (ob_id r) (ow_claims w) = map (\<lambda>i. (i, i)) (first_epochs (ob_attempt_count r))
    \<and> claims_of (ob_id r) (ow_ended w) = first_epochs (held_epochs r)
    \<and> length (filter (\<lambda>v. rv_obligation_id v = ob_id r) (cb_reservations (ow_c w))) \<le> nat (ob_attempt_count r)
    \<and> (bp_isGroup (ob_params r) \<and> 0 < ob_attempt_count r \<longrightarrow> approved (cb_approvals (ow_c w)) r)
    \<and> (ob_state r = Bs_completed \<longrightarrow> proved (cb_receipts (ow_c w)) r)"
proof -
  have inv: "obligations_inv w" using assms(1) by (rule reachable_obligations)
  then have ok: "obligation_ok w r" using assms(2) by (rule obligations_invD(2))
  then show ?thesis using reservations_bounded [OF inv ok]
    by (auto simp: obligation_ok_def CAPABILITY_OBLIGATION_MAX_ATTEMPTS_def)
qed

theorem obligation_claims_are_bounded_witness:
  "ob_attempt_count (hd (cb_obligations shown_c5)) = 1
    \<and> claims_of 1 (ow_claims (shown_world shown_c5 True)) = [(1, 1)]
    \<and> length (filter (\<lambda>v. rv_obligation_id v = 1) (cb_reservations shown_c5)) \<le> 1
    \<and> approved (cb_approvals shown_c5) (hd (cb_obligations shown_c5))"
proof -
  let ?r = "hd (cb_obligations shown_c5)"
  have r: "?r \<in> set (cb_obligations shown_c5)" "ob_id ?r = 1" "ob_attempt_count ?r = 1" "bp_isGroup (ob_params ?r)"
    using shown_steps(7) by (auto simp: map_eq_Cons_conv)
  have "?r \<in> set (cb_obligations (ow_c (shown_world shown_c5 True)))" using r(1) by (simp add: shown_world_def)
  from obligation_claims_are_bounded [OF shown_reachable this] show ?thesis
    using r by (simp add: shown_world_def)
qed



end
