(* ===== verification/Chunking.thy ===== *)
theory Chunking
  imports Prelude "HOL-Library.Word"
begin

text \<open>
  Splitting of long outbound texts (\<^verbatim>\<open>src/lib/text-chunking.ts\<close>). A text is its list of UTF-16 code units,
  as JavaScript indexes it. The breakpoints -1 of the code are \<open>None\<close>. The search for a line inside a
  fence is a loop that need not end, so the fence-aware splitter returns an option: \<open>None\<close> when the code
  does not return.
\<close>

section \<open>Code units\<close>

type_synonym text16 = "16 word list"

abbreviation LF :: "16 word" where "LF \<equiv> 0x0A"
abbreviation CR :: "16 word" where "CR \<equiv> 0x0D"

text \<open>\<^verbatim>\<open>\s\<close>, and the characters \<^verbatim>\<open>trim\<close> removes.\<close>

definition js_space :: "16 word \<Rightarrow> bool" where
  "js_space c \<longleftrightarrow> 0x09 \<le> c \<and> c \<le> 0x0D \<or> 0x2000 \<le> c \<and> c \<le> 0x200A
     \<or> c \<in> {0x20, 0xA0, 0x1680, 0x2028, 0x2029, 0x202F, 0x205F, 0x3000, 0xFEFF}"

definition high_surrogate :: "16 word \<Rightarrow> bool" where
  "high_surrogate c \<longleftrightarrow> 0xD800 \<le> c \<and> c \<le> 0xDBFF"

definition low_surrogate :: "16 word \<Rightarrow> bool" where
  "low_surrogate c \<longleftrightarrow> 0xDC00 \<le> c \<and> c \<le> 0xDFFF"

definition blank :: "16 word \<Rightarrow> bool" where
  "blank c \<longleftrightarrow> c = 0x20 \<or> c = 0x09"

definition slice :: "text16 \<Rightarrow> nat \<Rightarrow> nat \<Rightarrow> text16" where
  "slice t a b = take (b - a) (drop a t)"

definition avoidTrailingHighSurrogateBreak :: "text16 \<Rightarrow> nat \<Rightarrow> nat \<Rightarrow> nat" where
  "avoidTrailingHighSurrogateBreak t start endd =
     (if endd \<le> start \<or> endd > length t then endd
      else if high_surrogate (t ! (endd - 1)) then endd - 1 else endd)"

section \<open>Breakpoints\<close>

record breakpoints =
  lastNewline :: "nat option"
  lastWhitespace :: "nat option"

definition scan_char :: "text16 \<Rightarrow> (nat \<Rightarrow> bool) \<Rightarrow> nat \<Rightarrow> breakpoints \<times> nat \<Rightarrow> breakpoints \<times> nat" where
  "scan_char t isAllowed i s = (case s of (b, depth) \<Rightarrow>
     if \<not> isAllowed i then (b, depth)
     else let c = t ! i in
       if c = 0x28 then (b, depth + 1)
       else if c = 0x29 \<and> depth > 0 then (b, depth - 1)
       else if depth \<noteq> 0 then (b, depth)
       else if c = LF then (b\<lparr>lastNewline := Some i\<rparr>, depth)
       else if js_space c then (b\<lparr>lastWhitespace := Some i\<rparr>, depth)
       else (b, depth))"

definition scanParenAwareBreakpoints :: "text16 \<Rightarrow> nat \<Rightarrow> nat \<Rightarrow> (nat \<Rightarrow> bool) \<Rightarrow> breakpoints" where
  "scanParenAwareBreakpoints t start endd isAllowed =
     fst (fold (scan_char t isAllowed) [start..<endd] (\<lparr>lastNewline = None, lastWhitespace = None\<rparr>, 0))"

definition after :: "nat \<Rightarrow> nat option \<Rightarrow> bool" where
  "after start i \<longleftrightarrow> (case i of None \<Rightarrow> False | Some n \<Rightarrow> n > start)"

section \<open>Plain text\<close>

definition resolveEarlyReturn :: "text16 \<Rightarrow> int \<Rightarrow> text16 list option" where
  "resolveEarlyReturn t limit = (if t = [] then Some []
     else if limit \<le> 0 then Some [t]
     else if int (length t) \<le> limit then Some [t] else None)"

definition break_index :: "text16 \<Rightarrow> nat \<Rightarrow> nat \<Rightarrow> nat" where
  "break_index t limit start = (let windowEnd = start + limit;
     b = scanParenAwareBreakpoints t start windowEnd (\<lambda>_. True);
     i = (if after start (lastNewline b) then the (lastNewline b)
          else if after start (lastWhitespace b) then the (lastWhitespace b) else windowEnd);
     j = avoidTrailingHighSurrogateBreak t start i in
     if j \<le> start then start + 1 else j)"

definition skip_separator :: "text16 \<Rightarrow> nat \<Rightarrow> nat" where
  "skip_separator t i = (if i < length t \<and> js_space (t ! i) then i + 1 else i)"

lemma break_index_progress [simp]: "start < break_index t limit start"
  by (simp add: break_index_def Let_def)

lemma skip_separator_ge [simp]: "i \<le> skip_separator t i"
  by (simp add: skip_separator_def)

function chunks_from :: "text16 \<Rightarrow> nat \<Rightarrow> nat \<Rightarrow> text16 list" where
  "chunks_from t limit start = (if start \<ge> length t then []
     else if length t - start \<le> limit then [drop start t]
     else let i = break_index t limit start in
       slice t start i # chunks_from t limit (skip_separator t i))"
  by pat_completeness auto
termination
proof (relation "measure (\<lambda>(t, limit, start). length t - start)")
  fix t :: text16 and limit start i
  assume "\<not> length t \<le> start" "i = break_index t limit start"
  then have "start < skip_separator t i"
    using break_index_progress [of start t limit] skip_separator_ge [of i t] by linarith
  then show "((t, limit, skip_separator t i), t, limit, start) \<in> measure (\<lambda>(t, limit, start). length t - start)"
    using \<open>\<not> length t \<le> start\<close> by simp
qed simp

declare chunks_from.simps [simp del]

definition chunkText :: "text16 \<Rightarrow> int \<Rightarrow> text16 list" where
  "chunkText t limit = (case resolveEarlyReturn t limit of Some chunks \<Rightarrow> chunks
     | None \<Rightarrow> chunks_from t (nat limit) 0)"

section \<open>Paragraphs\<close>

text \<open>\<^verbatim>\<open>replace(/\r\n?/g, '\n')\<close>\<close>

fun normalize_newlines :: "text16 \<Rightarrow> text16" where
  "normalize_newlines [] = []"
| "normalize_newlines [c] = [if c = CR then LF else c]"
| "normalize_newlines (c # d # t) = (if c = CR then LF # (if d = LF then normalize_newlines t else normalize_newlines (d # t))
     else c # normalize_newlines (d # t))"

text \<open>The length of a match of \<^verbatim>\<open>\n[\t ]*\n+\<close> at the front.\<close>

definition paragraph_break :: "text16 \<Rightarrow> nat option" where
  "paragraph_break t = (case t of [] \<Rightarrow> None
     | c # rest \<Rightarrow> let blanks = takeWhile blank rest;
         newlines = takeWhile (\<lambda>c. c = LF) (drop (length blanks) rest) in
         if c = LF \<and> newlines \<noteq> [] then Some (1 + length blanks + length newlines) else None)"

function paragraphs :: "text16 \<Rightarrow> text16 \<Rightarrow> text16 list \<times> text16 list" where
  "paragraphs part [] = ([part], [])"
| "paragraphs part (c # t) = (case paragraph_break (c # t) of
     None \<Rightarrow> paragraphs (part @ [c]) t
   | Some n \<Rightarrow> (case paragraphs [] (drop (n - 1) t) of
       (parts, separators) \<Rightarrow> (part # parts, take n (c # t) # separators)))"
  by pat_completeness auto
termination by (relation "measure (\<lambda>(part, t). length t)") auto

definition trim_end :: "text16 \<Rightarrow> text16" where
  "trim_end t = rev (dropWhile js_space (rev t))"

definition push_into_empty :: "int \<Rightarrow> bool \<Rightarrow> text16 \<Rightarrow> text16 list \<Rightarrow> text16 list \<times> text16" where
  "push_into_empty limit split paragraph chunks = (let p = trim_end paragraph in
     if list_all js_space p then (chunks, [])
     else if int (length p) \<le> limit then (chunks, p)
     else (chunks @ (if split then chunkText p limit else [p]), []))"

definition pushParagraph ::
  "int \<Rightarrow> bool \<Rightarrow> text16 \<times> text16 option \<Rightarrow> text16 list \<times> text16 \<Rightarrow> text16 list \<times> text16" where
  "pushParagraph limit split piece s = (case (piece, s) of ((paragraph, separatorBefore), (chunks, currentChunk)) \<Rightarrow>
     let p = trim_end paragraph in
     if list_all js_space p then s
     else if currentChunk = [] then push_into_empty limit split p chunks
     else let candidate = currentChunk @ (case separatorBefore of None \<Rightarrow> [LF, LF] | Some sep \<Rightarrow> sep) @ p in
       if int (length candidate) \<le> limit then (chunks, candidate)
       else push_into_empty limit split p (chunks @ [currentChunk]))"

definition has_paragraph_break :: "text16 \<Rightarrow> bool" where
  "has_paragraph_break t = list_ex (\<lambda>i. paragraph_break (drop i t) \<noteq> None) [0..<length t]"

definition chunkByParagraph :: "text16 \<Rightarrow> int \<Rightarrow> bool \<Rightarrow> text16 list" where
  "chunkByParagraph t limit splitLongParagraphs =
     (if t = [] then [] else if limit \<le> 0 then [t]
      else let normalized = normalize_newlines t in
        if \<not> has_paragraph_break normalized
        then (if int (length normalized) \<le> limit then [normalized]
          else if splitLongParagraphs then chunkText normalized limit else [normalized])
        else (case paragraphs [] normalized of (parts, separators) \<Rightarrow>
          case fold (pushParagraph limit splitLongParagraphs) (zip parts (None # map Some separators)) ([], []) of
            (chunks, currentChunk) \<Rightarrow> chunks @ (if currentChunk = [] then [] else [currentChunk])))"

section \<open>Fences\<close>

record fence_span =
  fs_start :: nat
  fs_end :: nat
  fs_openLine :: text16
  fs_marker :: text16
  fs_indent :: text16

text \<open>
  A match of \<^verbatim>\<open>FENCE_LINE_RE\<close> at a position: its indentation, its fence characters and what follows
  them on the line. A position is a line start after any of the four line terminators of the language.
\<close>

definition line_start :: "text16 \<Rightarrow> nat \<Rightarrow> bool" where
  "line_start t p \<longleftrightarrow> p = 0 \<or> t ! (p - 1) \<in> {LF, CR, 0x2028, 0x2029}"

definition fence_at :: "text16 \<Rightarrow> nat \<Rightarrow> (text16 \<times> text16 \<times> text16) option" where
  "fence_at t p = (if \<not> line_start t p then None
     else let indent = takeWhile blank (drop p t); rest = drop (p + length indent) t in
       (case rest of [] \<Rightarrow> None
        | c # _ \<Rightarrow> let fence = takeWhile (\<lambda>x. x = c) rest in
            if (c = 0x60 \<or> c = 0x7E) \<and> 3 \<le> length fence
            then Some (indent, fence, takeWhile (\<lambda>x. x \<noteq> LF) (drop (length fence) rest)) else None))"

definition next_fence :: "text16 \<Rightarrow> nat \<Rightarrow> nat option" where
  "next_fence t lastIndex = find (\<lambda>p. fence_at t p \<noteq> None) [lastIndex..<length t]"

definition fence_line :: "text16 \<Rightarrow> nat \<Rightarrow> text16" where
  "fence_line t p = (case fence_at t p of None \<Rightarrow> []
     | Some (indent, fence, rest) \<Rightarrow> indent @ fence @ rest)"

definition close_fence ::
  "text16 \<Rightarrow> nat \<Rightarrow> fence_span list \<times> fence_span list \<Rightarrow> fence_span list \<times> fence_span list" where
  "close_fence t p s = (case (fence_at t p, s) of
     (None, _) \<Rightarrow> s
   | (Some (indent, fence, rest), (stack, spans)) \<Rightarrow>
       let opened = \<lparr>fs_start = p, fs_end = 0, fs_openLine = fence_line t p, fs_marker = fence, fs_indent = indent\<rparr> in
       (case stack of
         upper # below \<Rightarrow>
           if hd fence = hd (fs_marker upper) \<and> length fence \<ge> length (fs_marker upper) \<and> list_all js_space rest
           then (below, spans @ [upper\<lparr>fs_end := p + length (fence_line t p) + 1\<rparr>])
           else (opened # stack, spans)
       | [] \<Rightarrow> ([opened], spans)))"

lemma fence_line_nonempty: "next_fence t i = Some p \<Longrightarrow> i \<le> p \<and> p < length t \<and> 0 < length (fence_line t p)"
  by (auto simp: next_fence_def fence_line_def fence_at_def Let_def find_Some_iff split: list.splits if_splits option.splits)

function parse_fences :: "text16 \<Rightarrow> nat \<Rightarrow> fence_span list \<times> fence_span list \<Rightarrow> fence_span list" where
  "parse_fences t lastIndex s = (case next_fence t lastIndex of
     None \<Rightarrow> snd s
   | Some p \<Rightarrow> parse_fences t (p + length (fence_line t p)) (close_fence t p s))"
  by pat_completeness auto
termination
proof (relation "measure (\<lambda>(t, i, s). length t - i)")
  fix t lastIndex p and s :: "fence_span list \<times> fence_span list"
  assume "next_fence t lastIndex = Some p"
  from fence_line_nonempty [OF this]
  show "((t, p + length (fence_line t p), close_fence t p s), t, lastIndex, s) \<in> measure (\<lambda>(t, i, s). length t - i)"
    by (simp only: in_measure split) linarith
qed simp

declare parse_fences.simps [simp del]

definition parseFenceSpans :: "text16 \<Rightarrow> fence_span list" where
  "parseFenceSpans t = parse_fences t 0 ([], [])"

definition inside :: "nat \<Rightarrow> fence_span \<Rightarrow> bool" where
  "inside i f \<longleftrightarrow> fs_start f < i \<and> i < fs_end f"

definition isSafeFenceBreak :: "fence_span list \<Rightarrow> nat \<Rightarrow> bool" where
  "isSafeFenceBreak spans i \<longleftrightarrow> \<not> list_ex (inside i) spans"

definition findFenceSpanAt :: "fence_span list \<Rightarrow> nat \<Rightarrow> fence_span option" where
  "findFenceSpanAt spans i = find (inside i) spans"

section \<open>Markdown\<close>

definition pickSafeBreakIndex :: "text16 \<Rightarrow> nat \<Rightarrow> nat \<Rightarrow> fence_span list \<Rightarrow> nat option" where
  "pickSafeBreakIndex t start endd spans = (let b = scanParenAwareBreakpoints t start endd (isSafeFenceBreak spans) in
     if after start (lastNewline b) then lastNewline b
     else if after start (lastWhitespace b) then lastWhitespace b else None)"

text \<open>\<^verbatim>\<open>lastIndexOf('\n', from)\<close>: a negative position counts as 0.\<close>

definition lastIndexOf_newline :: "text16 \<Rightarrow> int \<Rightarrow> nat option" where
  "lastIndexOf_newline t from =
     find (\<lambda>i. i < length t \<and> t ! i = LF) (rev [0..<Suc (nat (max 0 from))])"

definition fence_still_at :: "fence_span list \<Rightarrow> fence_span \<Rightarrow> nat \<Rightarrow> fence_span option" where
  "fence_still_at spans f i = (case findFenceSpanAt spans i of None \<Rightarrow> None
     | Some g \<Rightarrow> if fs_start g = fs_start f then Some g else None)"

partial_function (option) pick_newline ::
  "text16 \<Rightarrow> fence_span list \<Rightarrow> fence_span \<Rightarrow> nat \<Rightarrow> nat option \<Rightarrow> nat option option" where
  "pick_newline t spans f start found = (case found of None \<Rightarrow> Some None
     | Some n \<Rightarrow> if n < start then Some None
         else if n + 1 < start + 1 then Some None
         else if fence_still_at spans f (n + 1) \<noteq> None then Some (Some (n + 1))
         else pick_newline t spans f start (lastIndexOf_newline t (int n - 1)))"

definition closeLine :: "fence_span \<Rightarrow> text16" where
  "closeLine f = fs_indent f @ fs_marker f"

text \<open>The break index inside a fence, and the fence that is then split.\<close>

definition fence_break ::
  "text16 \<Rightarrow> fence_span list \<Rightarrow> fence_span \<Rightarrow> nat \<Rightarrow> nat \<Rightarrow> nat \<Rightarrow> nat option" where
  "fence_break t spans f start contentLimit windowEnd = (let
     room = int contentLimit - int (length (closeLine f)); maxIdx = int start + (room - 1) in
     if maxIdx \<le> int start then Some windowEnd
     else Option.bind (pick_newline t spans f start
         (lastIndexOf_newline t (max (int start) (int start + room - 1))))
       (\<lambda>picked. Some (case picked of Some i \<Rightarrow> i | None \<Rightarrow> max (start + 1) (nat maxIdx))))"

definition markdown_break ::
  "text16 \<Rightarrow> fence_span list \<Rightarrow> nat \<Rightarrow> nat \<Rightarrow> (nat \<times> fence_span option) option" where
  "markdown_break t spans start contentLimit = (let
     windowEnd = min (length t) (start + contentLimit);
     soft = (case pickSafeBreakIndex t start windowEnd spans of Some i \<Rightarrow> if i > start then i else windowEnd
       | None \<Rightarrow> windowEnd) in
     Option.bind
       (case (if isSafeFenceBreak spans soft then None else findFenceSpanAt spans soft) of
          None \<Rightarrow> Some (soft, None)
        | Some f \<Rightarrow> Option.bind (fence_break t spans f start contentLimit windowEnd)
            (\<lambda>i. Some (i, fence_still_at spans f i)))
       (\<lambda>(i, split). let j = avoidTrailingHighSurrogateBreak t start i;
          split' = (if j \<noteq> i then Option.bind split (\<lambda>f. fence_still_at spans f j) else split) in
          Some (if j \<le> start then start + 1 else j, split')))"

fun skip_newlines :: "text16 \<Rightarrow> nat \<Rightarrow> nat" where
  "skip_newlines t i = i + length (takeWhile (\<lambda>c. c = LF) (drop i t))"

definition ends_with_newline :: "text16 \<Rightarrow> bool" where
  "ends_with_newline t \<longleftrightarrow> t \<noteq> [] \<and> last t = LF"

definition closed_chunk :: "text16 \<Rightarrow> fence_span option \<Rightarrow> text16" where
  "closed_chunk rawChunk split = (case split of None \<Rightarrow> rawChunk
     | Some f \<Rightarrow> if ends_with_newline rawChunk then rawChunk @ closeLine f else rawChunk @ [LF] @ closeLine f)"

definition reopenPrefix :: "fence_span option \<Rightarrow> text16" where
  "reopenPrefix reopen = (case reopen of None \<Rightarrow> [] | Some f \<Rightarrow> fs_openLine f @ [LF])"

partial_function (option) markdown_from ::
  "text16 \<Rightarrow> nat \<Rightarrow> fence_span list \<Rightarrow> nat \<Rightarrow> fence_span option \<Rightarrow> text16 list option" where
  "markdown_from t limit spans start reopen = (if start \<ge> length t then Some []
     else let prefix = reopenPrefix reopen; contentLimit = max 1 (limit - length prefix) in
       if length t - start \<le> contentLimit then Some [prefix @ drop start t]
       else Option.bind (markdown_break t spans start contentLimit) (\<lambda>(i, split).
         let rawContent = slice t start i in
         if rawContent = [] then Some []
         else Option.bind (markdown_from t limit spans
             (case split of Some _ \<Rightarrow> min (length t) (skip_separator t i)
              | None \<Rightarrow> skip_newlines t (min (length t) (skip_separator t i))) split)
           (\<lambda>chunks. Some (closed_chunk (prefix @ rawContent) split # chunks))))"

definition chunkMarkdownText :: "text16 \<Rightarrow> int \<Rightarrow> text16 list option" where
  "chunkMarkdownText t limit = (case resolveEarlyReturn t limit of Some chunks \<Rightarrow> Some chunks
     | None \<Rightarrow> markdown_from t (nat limit) (parseFenceSpans t) 0 None)"

end
