(* ===== verification/ChunkingLaws.thy ===== *)
theory ChunkingLaws
  imports Chunking
begin

text \<open>
  What the splitters keep of a text: every chunk is within the limit, nothing but one separator is lost
  at a cut, and surrogate pairs stay whole. Then the loops of the fence-aware splitter.
\<close>

section \<open>Breakpoints\<close>

lemma scan_char_sound:
  assumes "fst (scan_char t al i s) = b"
  shows "lastNewline b = Some j \<Longrightarrow> lastNewline (fst s) = Some j \<or> j = i \<and> t ! j = LF \<and> al j"
    "lastWhitespace b = Some j \<Longrightarrow> lastWhitespace (fst s) = Some j \<or> j = i \<and> js_space (t ! j) \<and> al j"
  using assms by (auto simp: scan_char_def Let_def split: prod.splits if_splits)

lemma scan_fold_sound:
  shows "lastNewline (fst (fold (scan_char t al) is s)) = Some j \<Longrightarrow>
      lastNewline (fst s) = Some j \<or> j \<in> set is \<and> t ! j = LF \<and> al j"
    and "lastWhitespace (fst (fold (scan_char t al) is s)) = Some j \<Longrightarrow>
      lastWhitespace (fst s) = Some j \<or> j \<in> set is \<and> js_space (t ! j) \<and> al j"
proof (induction "is" arbitrary: s)
  case (Cons i "is")
  {
    case 1
    then show ?case using Cons(1) [of "scan_char t al i s"] scan_char_sound(1) [OF refl, of t al i s j] by auto
  next
    case 2
    then show ?case using Cons(2) [of "scan_char t al i s"] scan_char_sound(2) [OF refl, of t al i s j] by auto
  }
qed simp_all

lemma scan_sound:
  assumes "scanParenAwareBreakpoints t start endd al = b"
  shows "lastNewline b = Some j \<Longrightarrow> start \<le> j \<and> j < endd \<and> t ! j = LF \<and> al j"
    and "lastWhitespace b = Some j \<Longrightarrow> start \<le> j \<and> j < endd \<and> js_space (t ! j) \<and> al j"
  using assms scan_fold_sound [of t al "[start..<endd]" "(\<lparr>lastNewline = None, lastWhitespace = None\<rparr>, 0)" j]
  by (auto simp: scanParenAwareBreakpoints_def)

lemma afterD: "after start i \<Longrightarrow> \<exists>j. i = Some j \<and> start < j"
  by (auto simp: after_def split: option.splits)

lemma space_not_low: "js_space c \<Longrightarrow> \<not> low_surrogate c" "js_space c \<Longrightarrow> \<not> high_surrogate c"
  by (auto simp: js_space_def low_surrogate_def high_surrogate_def word_le_nat_alt)

lemma LF_space [simp]: "js_space LF"
  by (simp add: js_space_def word_le_nat_alt)

lemma CR_space [simp]: "js_space CR"
  by (simp add: js_space_def word_le_nat_alt)

lemma high_not_low: "high_surrogate c \<Longrightarrow> \<not> low_surrogate c"
  by (auto simp: low_surrogate_def high_surrogate_def word_le_nat_alt)

definition splits_pair :: "text16 \<Rightarrow> nat \<Rightarrow> bool" where
  "splits_pair t i \<longleftrightarrow> 0 < i \<and> i < length t \<and> high_surrogate (t ! (i - 1)) \<and> low_surrogate (t ! i)"

lemma avoid_bounds:
  "avoidTrailingHighSurrogateBreak t start i \<le> i" "start < i \<Longrightarrow> start \<le> avoidTrailingHighSurrogateBreak t start i"
  by (auto simp: avoidTrailingHighSurrogateBreak_def)

lemma avoid_keeps_pairs:
  assumes "start < i" "i \<le> length t"
  shows "\<not> splits_pair t (avoidTrailingHighSurrogateBreak t start i)"
  using assms high_not_low by (auto simp: avoidTrailingHighSurrogateBreak_def splits_pair_def)

text \<open>Where a window is cut: inside it, and not through a pair when it is longer than one unit.\<close>

lemma break_index_bounds:
  assumes "1 \<le> limit" "start + limit < length t"
  shows "break_index t limit start \<le> start + limit" "2 \<le> limit \<Longrightarrow> \<not> splits_pair t (break_index t limit start)"
proof -
  let ?b = "scanParenAwareBreakpoints t start (start + limit) (\<lambda>_. True)"
  let ?i = "if after start (lastNewline ?b) then the (lastNewline ?b)
    else if after start (lastWhitespace ?b) then the (lastWhitespace ?b) else start + limit"
  let ?j = "avoidTrailingHighSurrogateBreak t start ?i"
  have i: "start < ?i" "?i \<le> start + limit" "?i = start + limit \<or> js_space (t ! ?i)"
    using afterD [of start "lastNewline ?b"] afterD [of start "lastWhitespace ?b"] 
      scan_sound [OF refl, where t = t and start = start and endd = "start + limit" and al = "\<lambda>_. True"] assms(1) by force+
  have e: "break_index t limit start = (if ?j \<le> start then start + 1 else ?j)"
    by (simp add: break_index_def Let_def)
  show "break_index t limit start \<le> start + limit"
    unfolding e using avoid_bounds(1) [of t start ?i] i assms(1) by auto
  show "\<not> splits_pair t (break_index t limit start)" if "2 \<le> limit"
  proof (cases "?j \<le> start")
    case True
    then have "?i = start + 1" using i(1) by (auto simp: avoidTrailingHighSurrogateBreak_def split: if_splits)
    with i(3) that have "js_space (t ! (start + 1))" by auto
    with True show ?thesis unfolding e by (simp add: splits_pair_def space_not_low)
  next
    case False
    with avoid_keeps_pairs [of start ?i t] i assms(2) show ?thesis unfolding e by simp
  qed
qed

section \<open>Plain text\<close>

text \<open>Well-formed UTF-16: every surrogate is half of a pair.\<close>

fun paired :: "text16 \<Rightarrow> bool" where
  "paired [] = True"
| "paired [c] = (\<not> high_surrogate c \<and> \<not> low_surrogate c)"
| "paired (c # d # t) = (if high_surrogate c then low_surrogate d \<and> paired t
     else \<not> low_surrogate c \<and> paired (d # t))"

text \<open>The chunks are the text in order, with at most one separator dropped after each.\<close>

fun covers :: "text16 list \<Rightarrow> text16 \<Rightarrow> bool" where
  "covers [] t = (t = [])"
| "covers (c # cs) t = (take (length c) t = c \<and> (covers cs (drop (length c) t)
     \<or> (case drop (length c) t of [] \<Rightarrow> False | w # rest \<Rightarrow> js_space w \<and> covers cs rest)))"

lemma paired_split:
  assumes "paired t" "\<not> splits_pair t i"
  shows "paired (take i t) \<and> paired (drop i t)"
  using assms
proof (induction t arbitrary: i rule: paired.induct)
  case (2 c)
  then show ?case by (cases i) simp_all
next
  case (3 c d t)
  show ?case
  proof (cases i)
    case (Suc k)
    show ?thesis
    proof (cases "high_surrogate c")
      case True
      with 3(3) have k: "low_surrogate d" "paired t" by simp_all
      with True 3(4) Suc obtain m where m: "k = Suc m" by (cases k) (auto simp: splits_pair_def)
      have "\<not> splits_pair t m"
        using 3(4) Suc m by (auto simp: splits_pair_def nth_Cons' split: if_splits)
      from 3(1) [OF True k(2) this] True k(1) show ?thesis by (simp add: Suc m)
    next
      case False
      with 3(3) have d: "\<not> low_surrogate c" "paired (d # t)" by simp_all
      have "\<not> splits_pair (d # t) k"
        using 3(4) Suc by (auto simp: splits_pair_def nth_Cons' split: if_splits)
      from 3(2) [OF False d(2) this] False d(1) show ?thesis
        by (cases k) (simp_all add: Suc)
    qed
  qed (use 3 in simp)
qed simp

lemma splits_pair_drop: "splits_pair (drop a t) i \<Longrightarrow> splits_pair t (a + i)"
  by (cases "a \<le> length t") (auto simp: splits_pair_def)

lemma paired_Cons_space: "paired (w # t) \<Longrightarrow> js_space w \<Longrightarrow> paired t"
  by (cases t) (simp_all add: space_not_low)

lemma drop_skip_separator:
  assumes "i < length t"
  shows "drop (skip_separator t i) t = drop i t \<or>
    (\<exists>w. js_space w \<and> drop i t = w # drop (skip_separator t i) t)"
  using assms Cons_nth_drop_Suc [of i t] by (auto simp: skip_separator_def)

lemma chunks_from_sound:
  assumes "1 \<le> limit"
  shows "(\<forall>c \<in> set (chunks_from t limit start). c \<noteq> [] \<and> length c \<le> limit)
    \<and> covers (chunks_from t limit start) (drop start t)
    \<and> (2 \<le> limit \<longrightarrow> paired (drop start t) \<longrightarrow> (\<forall>c \<in> set (chunks_from t limit start). paired c))"
  using assms
proof (induction t limit start rule: chunks_from.induct)
  case (1 t limit start)
  show ?case
  proof (cases "start \<ge> length t \<or> length t - start \<le> limit")
    case True
    then show ?thesis by (subst (1 2 3) chunks_from.simps) auto
  next
    case False
    let ?i = "break_index t limit start"
    let ?s = "skip_separator t ?i"
    have room: "start + limit < length t" using False by linarith
    note b = break_index_bounds [OF 1(2) room]
    have e: "chunks_from t limit start = slice t start ?i # chunks_from t limit ?s"
      using False by (subst chunks_from.simps) (simp add: Let_def)
    from 1(1) [OF _ _ refl 1(2)] False have IH: "(\<forall>c \<in> set (chunks_from t limit ?s). c \<noteq> [] \<and> length c \<le> limit)"
      "covers (chunks_from t limit ?s) (drop ?s t)"
      "2 \<le> limit \<Longrightarrow> paired (drop ?s t) \<Longrightarrow> (\<forall>c \<in> set (chunks_from t limit ?s). paired c)" by auto
    have i: "start < ?i" "?i < length t" "length (slice t start ?i) = ?i - start"
      using b(1) room break_index_progress [of start t limit] by (auto simp: slice_def)
    have "?i - start + start = ?i" using i(1) by linarith
    then have rest: "drop (?i - start) (drop start t) = drop ?i t" by simp
    have C: "covers (chunks_from t limit start) (drop start t)"
      using drop_skip_separator [OF i(2)] IH(2) i(3) rest unfolding e by (auto simp: slice_def)
    have P: "paired (slice t start ?i)" "paired (drop ?s t)" if "2 \<le> limit" "paired (drop start t)"
    proof -
      have "\<not> splits_pair (drop start t) (?i - start)"
        using b(2) [OF that(1)] splits_pair_drop [of start t "?i - start"] i(1) by auto
      from paired_split [OF that(2) this] rest show "paired (slice t start ?i)" by (simp add: slice_def)
      from paired_split [OF that(2) \<open>\<not> splits_pair (drop start t) (?i - start)\<close>] rest
      have "paired (drop ?i t)" by simp
      then show "paired (drop ?s t)" using drop_skip_separator [OF i(2)] by (metis paired_Cons_space)
    qed
    have "0 < length (slice t start ?i)" "length (slice t start ?i) \<le> limit"
      using i(1) b(1) unfolding i(3) by linarith+
    then have all: "\<forall>c \<in> set (slice t start ?i # chunks_from t limit ?s). c \<noteq> [] \<and> length c \<le> limit"
      using IH(1) unfolding list.set(2) ball_simps length_greater_0_conv by (intro conjI)
    have pairs: "\<forall>c \<in> set (slice t start ?i # chunks_from t limit ?s). paired c" if "2 \<le> limit" "paired (drop start t)"
      using P [OF that] IH(3) [OF that(1)] unfolding list.set(2) ball_simps by blast
    show ?thesis by (intro conjI impI) (rule all [folded e], rule C, rule pairs [folded e])
  qed
qed


text \<open>What is not white space.\<close>

definition visible :: "text16 \<Rightarrow> text16" where
  "visible t = filter (\<lambda>c. \<not> js_space c) t"

lemma visible_append [simp]: "visible (s @ t) = visible s @ visible t"
  by (simp add: visible_def)

lemma visible_Nil [simp]: "visible [] = []"
  by (simp add: visible_def)

lemma visible_spaces: "list_all js_space s \<Longrightarrow> visible s = []"
  by (auto simp: visible_def filter_empty_conv list_all_iff)

lemma visible_Cons: "visible (c # t) = (if js_space c then visible t else c # visible t)"
  by (simp add: visible_def)

lemma covers_visible: "covers cs t \<Longrightarrow> visible (concat cs) = visible t"
proof (induction cs arbitrary: t)
  case (Cons c cs)
  have t: "t = c @ drop (length c) t" using Cons.prems append_take_drop_id [of "length c" t] by simp
  have "visible (concat cs) = visible (drop (length c) t)"
    using Cons.prems Cons.IH by (auto simp: visible_Cons split: list.splits)
  then show ?case by (subst t) simp
qed simp

definition within :: "int \<Rightarrow> text16 list \<Rightarrow> bool" where
  "within limit cs \<longleftrightarrow> (\<forall>c \<in> set cs. c \<noteq> [] \<and> int (length c) \<le> limit)"

lemma within_simps [simp]: "within limit []" "within limit (cs @ ds) \<longleftrightarrow> within limit cs \<and> within limit ds"
  "within limit [c] \<longleftrightarrow> c \<noteq> [] \<and> int (length c) \<le> limit"
  by (auto simp: within_def)

lemma chunkText_sound:
  assumes "1 \<le> limit"
  shows "within limit (chunkText t limit)" "covers (chunkText t limit) t"
    "2 \<le> limit \<Longrightarrow> paired t \<Longrightarrow> \<forall>c \<in> set (chunkText t limit). paired c"
proof -
  obtain n where n: "limit = int n" "1 \<le> n" using assms by (intro that [of "nat limit"]) auto
  note c = chunks_from_sound [OF n(2), of t 0]
  consider "t = []" "chunkText t limit = []" | "t \<noteq> []" "length t \<le> n" "chunkText t limit = [t]"
    | "chunkText t limit = chunks_from t n 0"
    using n by (cases "t = []"; cases "length t \<le> n") (simp_all add: chunkText_def resolveEarlyReturn_def)
  then have "within limit (chunkText t limit) \<and> covers (chunkText t limit) t
    \<and> (2 \<le> limit \<longrightarrow> paired t \<longrightarrow> (\<forall>c \<in> set (chunkText t limit). paired c))"
    using n c by cases (simp_all add: within_def)
  then show "within limit (chunkText t limit)" "covers (chunkText t limit) t"
    "2 \<le> limit \<Longrightarrow> paired t \<Longrightarrow> \<forall>c \<in> set (chunkText t limit). paired c" by blast+
qed

section \<open>Paragraphs\<close>

lemma visible_normalize [simp]: "visible (normalize_newlines t) = visible t"
  by (induction t rule: normalize_newlines.induct) (simp_all add: visible_Cons)

lemma normalize_Nil [simp]: "normalize_newlines t = [] \<longleftrightarrow> t = []"
  by (induction t rule: normalize_newlines.induct) auto

lemma blank_space: "blank c \<Longrightarrow> js_space c"
  by (auto simp: blank_def js_space_def word_le_nat_alt)

lemma paragraph_break_spaces:
  assumes "paragraph_break t = Some n"
  shows "list_all js_space (take n t)" "1 \<le> n"
proof -
  from assms obtain c rest where t: "t = c # rest" by (cases t) (auto simp: paragraph_break_def)
  let ?b = "takeWhile blank rest" and ?m = "takeWhile (\<lambda>c. c = LF) (drop (length (takeWhile blank rest)) rest)"
  have n: "c = LF" "n = 1 + length ?b + length ?m"
    using assms unfolding t by (auto simp: paragraph_break_def Let_def split: if_splits)
  have "rest = ?b @ ?m @ dropWhile (\<lambda>c. c = LF) (drop (length ?b) rest)"
    by (simp add: dropWhile_eq_drop [symmetric])
  then have "take (length ?b + length ?m) rest = ?b @ ?m"
    by (metis append.assoc append_eq_conv_conj length_append)
  moreover have "list_all js_space ?b" "list_all js_space ?m"
    by (auto simp: list_all_iff blank_space dest: set_takeWhileD)
  ultimately show "list_all js_space (take n t)" by (simp add: t n)
  show "1 \<le> n" by (simp add: n)
qed

lemma paragraphs_sound:
  "paragraphs part t = (ps, ss) \<Longrightarrow> visible (concat ps) = visible part @ visible t
    \<and> (\<forall>s \<in> set ss. list_all js_space s) \<and> length ps = Suc (length ss)"
proof (induction part t arbitrary: ps ss rule: paragraphs.induct)
  case (2 part c t)
  show ?case
  proof (cases "paragraph_break (c # t)")
    case None
    with 2(1) [OF None, of ps ss] 2(3) show ?thesis by (auto simp: visible_Cons visible_def)
  next
    case (Some n)
    obtain ps' ss' where r: "paragraphs [] (drop (n - 1) t) = (ps', ss')" by fastforce
    note n = paragraph_break_spaces [OF Some]
    have d: "drop n (c # t) = drop (n - 1) t" using n(2) by (cases n) simp_all
    have "visible (c # t) = visible (take n (c # t) @ drop n (c # t))" by (simp only: append_take_drop_id)
    also have "\<dots> = visible (drop (n - 1) t)" using visible_spaces [OF n(1)] by (simp only: visible_append d append_Nil)
    finally have v: "visible (c # t) = visible (drop (n - 1) t)" .
    have "ps = part # ps'" "ss = take n (c # t) # ss'" using 2(3) Some r by auto
    then show ?thesis using 2(2) [OF Some r] n(1) v by simp
  qed
qed simp

lemma trim_end_visible [simp]: "visible (trim_end t) = visible t"
proof -
  have "visible t = visible (rev (dropWhile js_space (rev t)) @ rev (takeWhile js_space (rev t)))"
    by (metis rev_append rev_rev_ident takeWhile_dropWhile_id)
  also have "\<dots> = visible (trim_end t)"
    using visible_spaces [of "rev (takeWhile js_space (rev t))"] by (auto simp: trim_end_def list_all_iff dest: set_takeWhileD)
  finally show ?thesis by simp
qed

definition packed :: "int \<Rightarrow> text16 list \<times> text16 \<Rightarrow> bool" where
  "packed limit s \<longleftrightarrow> within limit (fst s) \<and> int (length (snd s)) \<le> limit"

definition packed_text :: "text16 list \<times> text16 \<Rightarrow> text16" where
  "packed_text s = visible (concat (fst s) @ snd s)"

lemma push_into_empty_sound:
  assumes "1 \<le> limit" "within limit chunks"
  shows "packed limit (push_into_empty limit True p chunks)"
    "packed_text (push_into_empty limit True p chunks) = visible (concat chunks) @ visible p"
proof -
  let ?q = "trim_end p"
  have "visible ?q = []" if "list_all js_space ?q" using that by (rule visible_spaces)
  then show "packed limit (push_into_empty limit True p chunks)"
    "packed_text (push_into_empty limit True p chunks) = visible (concat chunks) @ visible p"
    using assms chunkText_sound(1) [OF assms(1), of ?q] covers_visible [OF chunkText_sound(2) [OF assms(1), of ?q]]
    by (auto simp: push_into_empty_def Let_def packed_def packed_text_def)
qed

lemma pushParagraph_sound:
  assumes "1 \<le> limit" "packed limit s" "case sep of None \<Rightarrow> True | Some x \<Rightarrow> list_all js_space x"
  shows "packed limit (pushParagraph limit True (p, sep) s)
    \<and> packed_text (pushParagraph limit True (p, sep) s) = packed_text s @ visible p"
proof -
  obtain chunks cur where s: "s = (chunks, cur)" by fastforce
  let ?q = "trim_end p"
  let ?sep = "case sep of None \<Rightarrow> [LF, LF] | Some x \<Rightarrow> x"
  have sep: "visible ?sep = []" using assms(3) by (auto simp: visible_spaces visible_Cons split: option.splits)
  have blank: "visible p = []" if "list_all js_space ?q"
    using visible_spaces [OF that] by simp
  consider (blank) "list_all js_space ?q" | (empty) "\<not> list_all js_space ?q" "cur = []"
    | (fits) "\<not> list_all js_space ?q" "cur \<noteq> []" "int (length (cur @ ?sep @ ?q)) \<le> limit"
    | (full) "\<not> list_all js_space ?q" "cur \<noteq> []" "\<not> int (length (cur @ ?sep @ ?q)) \<le> limit" by blast
  then show ?thesis
  proof cases
    case blank
    then have "pushParagraph limit True (p, sep) s = s" by (simp add: pushParagraph_def s Let_def)
    then show ?thesis using assms(2) \<open>list_all js_space ?q \<Longrightarrow> visible p = []\<close> [OF blank] by simp
  next
    case empty
    then have "pushParagraph limit True (p, sep) s = push_into_empty limit True ?q chunks"
      by (simp add: pushParagraph_def s Let_def)
    then show ?thesis using push_into_empty_sound [OF assms(1), of chunks ?q] assms(2) empty
      by (simp add: s packed_def packed_text_def)
  next
    case fits
    then have "pushParagraph limit True (p, sep) s = (chunks, cur @ ?sep @ ?q)"
      by (simp add: pushParagraph_def s Let_def)
    then show ?thesis using assms(2) fits sep by (simp add: s packed_def packed_text_def)
  next
    case full
    then have "pushParagraph limit True (p, sep) s = push_into_empty limit True ?q (chunks @ [cur])"
      by (simp add: pushParagraph_def s Let_def)
    then show ?thesis using push_into_empty_sound [OF assms(1), of "chunks @ [cur]" ?q] assms(2) full
      by (simp add: s packed_def packed_text_def)
  qed
qed

lemma push_all_sound:
  assumes "1 \<le> limit" "packed limit s" "\<forall>(p, sep) \<in> set pieces. case sep of None \<Rightarrow> True | Some x \<Rightarrow> list_all js_space x"
  shows "packed limit (fold (pushParagraph limit True) pieces s)
    \<and> packed_text (fold (pushParagraph limit True) pieces s) = packed_text s @ visible (concat (map fst pieces))"
  using assms(2,3)
proof (induction pieces arbitrary: s)
  case (Cons piece pieces)
  obtain p sep where piece: "piece = (p, sep)" by fastforce
  from pushParagraph_sound [OF assms(1) Cons.prems(1), of sep p] Cons.prems(2)
  have "packed limit (pushParagraph limit True (p, sep) s)"
    "packed_text (pushParagraph limit True (p, sep) s) = packed_text s @ visible p" by (auto simp: piece)
  with Cons.IH [OF this(1)] Cons.prems(2) show ?case by (simp add: piece)
qed simp

lemma chunkByParagraph_sound:
  assumes "1 \<le> limit"
  shows "within limit (chunkByParagraph t limit True)" "visible (concat (chunkByParagraph t limit True)) = visible t"
proof -
  let ?n = "normalize_newlines t"
  have "within limit (chunkByParagraph t limit True) \<and> visible (concat (chunkByParagraph t limit True)) = visible t"
  proof (cases "t = [] \<or> \<not> has_paragraph_break ?n")
    case True
    then show ?thesis
      using assms chunkText_sound(1) [OF assms, of ?n] covers_visible [OF chunkText_sound(2) [OF assms, of ?n]]
      by (auto simp: chunkByParagraph_def Let_def)
  next
    case False
    obtain ps ss where r: "paragraphs [] ?n = (ps, ss)" by fastforce
    note p = paragraphs_sound [OF r]
    let ?pieces = "zip ps (None # map Some ss)"
    obtain chunks cur where f: "fold (pushParagraph limit True) ?pieces ([], []) = (chunks, cur)" by fastforce
    have "\<forall>(p, sep) \<in> set ?pieces. case sep of None \<Rightarrow> True | Some x \<Rightarrow> list_all js_space x"
      using p by (auto dest!: set_zip_rightD)
    from push_all_sound [OF assms _ this, of "([], [])"] assms f p
    have "packed limit (chunks, cur)" "packed_text (chunks, cur) = visible t"
      by (auto simp: packed_def packed_text_def)
    moreover have "chunkByParagraph t limit True = chunks @ (if cur = [] then [] else [cur])"
      using False assms r f by (simp add: chunkByParagraph_def Let_def)
    ultimately show ?thesis by (auto simp: packed_def packed_text_def)
  qed
  then show "within limit (chunkByParagraph t limit True)" "visible (concat (chunkByParagraph t limit True)) = visible t"
    by simp_all
qed

section \<open>Fences\<close>

lemma find_SomeI_in: "find P xs = Some x \<Longrightarrow> x \<in> set xs \<and> P x"
  by (auto simp: find_Some_iff)

lemma lastIndexOf_newlineD:
  "lastIndexOf_newline t from = Some n \<Longrightarrow> int n \<le> max 0 from \<and> n < length t \<and> t ! n = LF"
  unfolding lastIndexOf_newline_def by (drule find_SomeI_in) auto

lemma inside_fence: "findFenceSpanAt spans i = Some f \<Longrightarrow> f \<in> set spans"
  by (auto simp: findFenceSpanAt_def dest: find_SomeI_in)

lemma fence_still_atD: "fence_still_at spans f i = Some g \<Longrightarrow> g \<in> set spans \<and> fs_start g = fs_start f"
  by (auto simp: fence_still_at_def inside_fence split: option.splits if_splits)

text \<open>No two spans start at the same place.\<close>

definition starts_below :: "nat \<Rightarrow> fence_span list \<times> fence_span list \<Rightarrow> bool" where
  "starts_below i s \<longleftrightarrow> distinct (map fs_start (fst s @ snd s)) \<and> (\<forall>f \<in> set (fst s @ snd s). fs_start f < i)"

lemma close_fence_starts:
  assumes "starts_below i s" "i \<le> p" "p < j"
  shows "starts_below j (close_fence t p s)"
proof -
  obtain stack spans where s: "s = (stack, spans)" by fastforce
  have "fs_start f < p" if "f \<in> set (stack @ spans)" for f
    using assms(1,2) that unfolding s starts_below_def by (auto dest!: bspec)
  then have old: "starts_below j (stack, spans)" "\<forall>f \<in> set (stack @ spans). fs_start f \<noteq> p"
    using assms unfolding s starts_below_def by fastforce+
  show ?thesis
  proof (cases "fence_at t p")
    case None
    with old s show ?thesis by (simp add: close_fence_def)
  next
    case (Some m)
    obtain indent fence rest where m: "m = (indent, fence, rest)" by (metis prod.exhaust)
    let ?o = "\<lparr>fs_start = p, fs_end = 0, fs_openLine = fence_line t p, fs_marker = fence, fs_indent = indent\<rparr>"
    have opened: "starts_below j (?o # stack, spans)"
      using old assms(3) by (auto simp: starts_below_def)
    show ?thesis
    proof (cases stack)
      case Nil
      with Some m s opened show ?thesis by (simp add: close_fence_def Let_def)
    next
      case (Cons f below)
      let ?e = "p + length (fence_line t p) + 1"
      have "starts_below j (below, spans @ [f\<lparr>fs_end := ?e\<rparr>])"
        using old(1) unfolding Cons starts_below_def by auto
      with opened Some m s Cons show ?thesis by (simp add: close_fence_def Let_def)
    qed
  qed
qed

lemma parse_fences_starts: "starts_below i s \<Longrightarrow> distinct (map fs_start (parse_fences t i s))"
proof (induction t i s rule: parse_fences.induct)
  case (1 t i s)
  show ?case
  proof (cases "next_fence t i")
    case None
    with 1(2) show ?thesis by (subst parse_fences.simps) (simp add: starts_below_def)
  next
    case (Some p)
    from fence_line_nonempty [OF Some] have "starts_below (p + length (fence_line t p)) (close_fence t p s)"
      by (intro close_fence_starts [OF 1(2)]) auto
    from 1(1) [OF Some this] Some show ?thesis by (subst parse_fences.simps) simp
  qed
qed

lemma distinct_starts: "distinct (map fs_start (parseFenceSpans t))"
  unfolding parseFenceSpans_def by (rule parse_fences_starts) (simp add: starts_below_def)

lemma same_fence:
  assumes "distinct (map fs_start spans)" "f \<in> set spans" "fence_still_at spans f i = Some g"
  shows "g = f"
  using assms(1,2) fence_still_atD [OF assms(3)] by (metis distinct_map inj_onD)

section \<open>The search for a line inside a fence\<close>

lemma pick_newline_returns:
  assumes "0 < start \<or> t ! 0 \<noteq> LF" "case found of None \<Rightarrow> True | Some n \<Rightarrow> n < length t \<and> t ! n = LF"
  shows "\<exists>r. pick_newline t spans f start found = Some r
    \<and> (case r of None \<Rightarrow> True | Some i \<Rightarrow> found \<noteq> None \<and> i \<le> the found + 1 \<and> start < i \<and> i \<le> length t \<and> t ! (i - 1) = LF)"
  using assms(2)
proof (induction "case found of None \<Rightarrow> 0 | Some n \<Rightarrow> Suc n" arbitrary: found rule: less_induct)
  case less
  show ?case
  proof (cases found)
    case None
    then show ?thesis by (subst pick_newline.simps) simp
  next
    case (Some n)
    consider (past) "n < start" | (here) "start \<le> n" "fence_still_at spans f (n + 1) \<noteq> None"
      | (on) "start \<le> n" "fence_still_at spans f (n + 1) = None" by linarith
    then show ?thesis
    proof cases
      case past
      with Some show ?thesis by (subst pick_newline.simps) simp
    next
      case here
      with Some less.prems show ?thesis by (subst pick_newline.simps) auto
    next
      case on
      let ?next = "lastIndexOf_newline t (int n - 1)"
      have "0 < n" using assms(1) on(1) less.prems Some by (cases "n = 0") auto
      then have nx: "m < n \<and> m < length t \<and> t ! m = LF" if "?next = Some m" for m
        using lastIndexOf_newlineD [OF that] by auto
      from less.hyps [of ?next] nx Some obtain r where
        "pick_newline t spans f start ?next = Some r"
        "case r of None \<Rightarrow> True | Some i \<Rightarrow> ?next \<noteq> None \<and> i \<le> the ?next + 1 \<and> start < i \<and> i \<le> length t \<and> t ! (i - 1) = LF"
        by (cases ?next) auto
      moreover from this(2) nx have "case r of None \<Rightarrow> True | Some i \<Rightarrow> i \<le> n + 1 \<and> start < i \<and> i \<le> length t \<and> t ! (i - 1) = LF"
        by (cases ?next) (force split: option.splits)+
      ultimately show ?thesis using Some on by (subst pick_newline.simps) (auto split: option.splits)
    qed
  qed
qed


section \<open>A fence after a leading newline\<close>






section \<open>The fence-aware splitter returns\<close>

text \<open>Room for a fence line and a closing line in every window.\<close>

definition roomy :: "fence_span list \<Rightarrow> nat \<Rightarrow> bool" where
  "roomy spans contentLimit \<longleftrightarrow> (\<forall>f \<in> set spans. length (closeLine f) + 2 \<le> contentLimit)"

lemma fence_break_sound:
  assumes "0 < start \<or> t ! 0 \<noteq> LF" "start + cl < length t" "1 \<le> cl" "f \<in> set spans"
  obtains i where "fence_break t spans f start cl (start + cl) = Some i" "start < i" "i \<le> length t"
    "roomy spans cl \<Longrightarrow> i \<le> start + cl
      \<and> (i + length (closeLine f) \<le> start + cl \<and> t ! (i - 1) = LF \<or> i + length (closeLine f) + 1 \<le> start + cl)"
proof -
  let ?room = "int cl - int (length (closeLine f))"
  let ?from = "max (int start) (int start + ?room - 1)"
  show ?thesis
  proof (cases "int start + (?room - 1) \<le> int start")
    case True
    with assms(2-4) show ?thesis
      by (intro that [of "start + cl"]) (auto simp: fence_break_def Let_def roomy_def)
  next
    case False
    have "case lastIndexOf_newline t ?from of None \<Rightarrow> True | Some n \<Rightarrow> n < length t \<and> t ! n = LF"
      by (auto dest: lastIndexOf_newlineD split: option.split)
    from pick_newline_returns [OF assms(1) this, of spans f] obtain r where
      r: "pick_newline t spans f start (lastIndexOf_newline t ?from) = Some r"
        "case r of None \<Rightarrow> True | Some i \<Rightarrow> lastIndexOf_newline t ?from \<noteq> None
          \<and> i \<le> the (lastIndexOf_newline t ?from) + 1 \<and> start < i \<and> i \<le> length t \<and> t ! (i - 1) = LF" by blast
    let ?i = "case r of Some i \<Rightarrow> i | None \<Rightarrow> max (start + 1) (nat (int start + (?room - 1)))"
    have e: "fence_break t spans f start cl (start + cl) = Some ?i"
      using False r(1) by (simp add: fence_break_def Let_def)
    show ?thesis
    proof (cases r)
      case None
      then have "?i + length (closeLine f) + 1 \<le> start + cl" "start < ?i" using False by auto
      with e assms(2) show ?thesis by (intro that [of ?i]) auto
    next
      case (Some i)
      with r(2) obtain n where n: "lastIndexOf_newline t ?from = Some n" "i \<le> n + 1" "start < i" "i \<le> length t" "t ! (i - 1) = LF"
        by auto
      from lastIndexOf_newlineD [OF n(1)] n(2) False have "i + length (closeLine f) \<le> start + cl" by linarith
      with e n Some show ?thesis by (intro that [of i]) auto
    qed
  qed
qed

lemma soft_break:
  assumes "1 \<le> cl" "start + cl < length t"
  shows "case pickSafeBreakIndex t start (start + cl) spans of None \<Rightarrow> True | Some i \<Rightarrow> start < i \<and> i < start + cl"
proof -
  let ?b = "scanParenAwareBreakpoints t start (start + cl) (isSafeFenceBreak spans)"
  show ?thesis
    using afterD [of start "lastNewline ?b"] afterD [of start "lastWhitespace ?b"]
      scan_sound [OF refl, where t = t and start = start and endd = "start + cl" and al = "isSafeFenceBreak spans"]
    by (auto simp: pickSafeBreakIndex_def Let_def split: option.split)
qed

lemma avoid_shrinks:
  assumes "start < i" "i \<le> length t"
  shows "avoidTrailingHighSurrogateBreak t start i = i \<or>
    avoidTrailingHighSurrogateBreak t start i = i - 1 \<and> t ! (i - 1) \<noteq> LF"
  using assms space_not_low(2) [OF LF_space] by (auto simp: avoidTrailingHighSurrogateBreak_def)

text \<open>Where a window of a marked-up text is cut, and that the closed chunk still fits.\<close>

definition cut_ok :: "text16 \<Rightarrow> fence_span list \<Rightarrow> nat \<Rightarrow> nat \<Rightarrow> nat \<Rightarrow> fence_span option \<Rightarrow> bool" where
  "cut_ok t spans start cl j split \<longleftrightarrow> start < j \<and> j \<le> length t \<and> (\<forall>f. split = Some f \<longrightarrow> f \<in> set spans)
     \<and> (roomy spans cl \<longrightarrow> j \<le> start + cl \<and> (\<forall>f. split = Some f \<longrightarrow>
         j + length (closeLine f) \<le> start + cl \<and> t ! (j - 1) = LF \<or> j + length (closeLine f) + 1 \<le> start + cl))"

lemma cut_ok_step:
  assumes "start < i" "i \<le> length t" "1 \<le> cl" "\<And>f. split = Some f \<Longrightarrow> f \<in> set spans" "\<And>f. split' = Some f \<Longrightarrow> split = Some f"
    "roomy spans cl \<Longrightarrow> i \<le> start + cl"
    "\<And>f. roomy spans cl \<Longrightarrow> split = Some f \<Longrightarrow>
      i + length (closeLine f) \<le> start + cl \<and> t ! (i - 1) = LF \<or> i + length (closeLine f) + 1 \<le> start + cl"
  shows "cut_ok t spans start cl (let j = avoidTrailingHighSurrogateBreak t start i in if j \<le> start then start + 1 else j) split'"
proof -
  let ?j = "avoidTrailingHighSurrogateBreak t start i"
  consider (same) "?j = i" | (shrunk) "?j = i - 1" "t ! (i - 1) \<noteq> LF" using avoid_shrinks [OF assms(1,2)] by blast
  then show ?thesis
  proof cases
    case same
    have "split' = Some f \<Longrightarrow> f \<in> set spans" for f using assms(4,5) by blast
    with same assms(1,2,5-7) show ?thesis unfolding cut_ok_def by (auto simp: Let_def)
  next
    case shrunk
    have close: "i + length (closeLine f) + 1 \<le> start + cl" if "roomy spans cl" "split' = Some f" for f
      using assms(7) [OF that(1) assms(5) [OF that(2)]] shrunk(2) by blast
    have "split' = Some f \<Longrightarrow> f \<in> set spans" for f using assms(4,5) by blast
    with close shrunk(1) assms(1,2,3,6) show ?thesis
      unfolding cut_ok_def by (cases "i - 1 \<le> start") (force simp: Let_def)+
  qed
qed

lemma markdown_break_sound:
  assumes "0 < start \<or> t ! 0 \<noteq> LF" "start + cl < length t" "1 \<le> cl" "distinct (map fs_start spans)"
  obtains j split where "markdown_break t spans start cl = Some (j, split)" "cut_ok t spans start cl j split"
proof -
  have w: "min (length t) (start + cl) = start + cl" using assms(2) by simp
  let ?soft = "case pickSafeBreakIndex t start (start + cl) spans of Some i \<Rightarrow> if i > start then i else start + cl | None \<Rightarrow> start + cl"
  let ?fence = "if isSafeFenceBreak spans ?soft then None else findFenceSpanAt spans ?soft"
  have soft: "start < ?soft" "?soft \<le> start + cl"
    using soft_break [OF assms(3,2), of spans] assms(3) by (auto split: option.split)
  show ?thesis
  proof (cases ?fence)
    case None
    let ?j = "avoidTrailingHighSurrogateBreak t start ?soft"
    have "markdown_break t spans start cl = Some (let j = ?j in if j \<le> start then start + 1 else j, None)"
      using None unfolding markdown_break_def Let_def w by simp
    moreover have "cut_ok t spans start cl (let j = ?j in if j \<le> start then start + 1 else j) None"
      by (rule cut_ok_step [where split = None]) (use soft assms(2,3) in auto)
    ultimately show ?thesis by (rule that)
  next
    case (Some f)
    then have f: "f \<in> set spans" by (auto dest: inside_fence split: if_splits)
    from fence_break_sound [OF assms(1-3) f] obtain i where i: "fence_break t spans f start cl (start + cl) = Some i"
      "start < i" "i \<le> length t" "roomy spans cl \<Longrightarrow> i \<le> start + cl
        \<and> (i + length (closeLine f) \<le> start + cl \<and> t ! (i - 1) = LF \<or> i + length (closeLine f) + 1 \<le> start + cl)" by blast
    let ?j = "avoidTrailingHighSurrogateBreak t start i"
    let ?split = "fence_still_at spans f i"
    let ?split' = "if ?j \<noteq> i then Option.bind ?split (\<lambda>f. fence_still_at spans f ?j) else ?split"
    have one: "g = f" if "?split = Some g" for g using same_fence [OF assms(4) f that] .
    have two: "?split = Some g" if "?split' = Some g" for g
      using that one f same_fence [OF assms(4) f] by (cases ?split) (auto split: if_splits)
    have "markdown_break t spans start cl = Some (let j = ?j in if j \<le> start then start + 1 else j, ?split')"
      using Some i(1) unfolding markdown_break_def Let_def w by simp
    moreover have "cut_ok t spans start cl (let j = ?j in if j \<le> start then start + 1 else j) ?split'"
      by (rule cut_ok_step [where split = ?split, OF i(2,3) assms(3) _ two]) (use one f i(4) in auto)
    ultimately show ?thesis by (rule that)
  qed
qed

definition spacious :: "fence_span list \<Rightarrow> nat \<Rightarrow> bool" where
  "spacious spans limit \<longleftrightarrow> 1 \<le> limit \<and> (\<forall>f \<in> set spans. \<forall>g \<in> set spans.
     length (fs_openLine f) + 1 + length (closeLine g) + 2 \<le> limit)"

definition reopened :: "fence_span list \<Rightarrow> fence_span option \<Rightarrow> bool" where
  "reopened spans reopen \<longleftrightarrow> (\<forall>f. reopen = Some f \<longrightarrow> f \<in> set spans)"

lemma spacious_roomy:
  assumes "spacious spans limit" "reopened spans reopen"
  shows "roomy spans (max 1 (limit - length (reopenPrefix reopen)))"
    "max 1 (limit - length (reopenPrefix reopen)) + length (reopenPrefix reopen) = limit"
proof -
  have p: "length (reopenPrefix reopen) + length (closeLine g) + 2 \<le> limit" if "g \<in> set spans" for g
  proof (cases reopen)
    case None
    from assms(1) that have "length (fs_openLine g) + 1 + length (closeLine g) + 2 \<le> limit" by (simp add: spacious_def)
    with None show ?thesis by (simp add: reopenPrefix_def)
  next
    case (Some f)
    with assms(2) have "f \<in> set spans" by (simp add: reopened_def)
    with assms(1) that have "length (fs_openLine f) + 1 + length (closeLine g) + 2 \<le> limit" by (simp add: spacious_def)
    with Some show ?thesis by (simp add: reopenPrefix_def)
  qed
  then show "roomy spans (max 1 (limit - length (reopenPrefix reopen)))" by (force simp: roomy_def)
  show "max 1 (limit - length (reopenPrefix reopen)) + length (reopenPrefix reopen) = limit"
  proof (cases reopen)
    case None
    with assms(1) show ?thesis by (simp add: reopenPrefix_def spacious_def)
  next
    case (Some f)
    with assms(2) have "f \<in> set spans" by (simp add: reopened_def)
    from p [OF this] show ?thesis by simp
  qed
qed

lemma closed_chunk_length:
  assumes "cut_ok t spans start cl j split" "roomy spans cl"
  shows "closed_chunk (prefix @ slice t start j) split \<noteq> []
    \<and> length (closed_chunk (prefix @ slice t start j) split) \<le> length prefix + cl"
proof -
  let ?raw = "slice t start j"
  have j: "start < j" "j \<le> length t" "j \<le> start + cl" using assms by (auto simp: cut_ok_def)
  then have len: "length ?raw = j - start" by (simp add: slice_def)
  have raw: "?raw \<noteq> []" using len j(1) by auto
  have last: "last ?raw = t ! (j - 1)"
    using j raw len by (simp add: last_conv_nth slice_def)
  have ends: "ends_with_newline (prefix @ ?raw) \<longleftrightarrow> t ! (j - 1) = LF" using raw last by (simp add: ends_with_newline_def)
  show ?thesis
  proof (cases split)
    case None
    with raw len j show ?thesis by (simp add: closed_chunk_def)
  next
    case (Some f)
    with assms have "j + length (closeLine f) \<le> start + cl \<and> t ! (j - 1) = LF \<or> j + length (closeLine f) + 1 \<le> start + cl"
      by (auto simp: cut_ok_def)
    with Some raw len j ends show ?thesis by (auto simp: closed_chunk_def)
  qed
qed

lemma markdown_from_returns:
  assumes "0 < start \<or> t ! 0 \<noteq> LF" "distinct (map fs_start spans)" "reopened spans reopen"
  shows "\<exists>cs. markdown_from t limit spans start reopen = Some cs
    \<and> (spacious spans limit \<longrightarrow> within (int limit) cs)"
  using assms(1,3)
proof (induction "length t - start" arbitrary: start reopen rule: less_induct)
  case less
  let ?prefix = "reopenPrefix reopen"
  let ?cl = "max 1 (limit - length ?prefix)"
  note room = spacious_roomy [OF _ less.prems(2), where limit = limit]
  consider (over) "length t \<le> start" | (final) "start < length t" "length t - start \<le> ?cl"
    | (cut) "start + ?cl < length t" by linarith
  then show ?case
  proof cases
    case over
    then show ?thesis by (subst markdown_from.simps) simp
  next
    case final
    then have "length (?prefix @ drop start t) \<le> limit" if "spacious spans limit"
      using room(2) [OF that] by simp
    with final show ?thesis by (subst markdown_from.simps) (auto simp: Let_def)
  next
    case cut
    from markdown_break_sound [OF less.prems(1) cut _ assms(2)] obtain j split where
      j: "markdown_break t spans start ?cl = Some (j, split)" "cut_ok t spans start ?cl j split" by auto
    then have b: "start < j" "j \<le> length t" "reopened spans split" by (auto simp: cut_ok_def reopened_def)
    let ?s = "case split of Some _ \<Rightarrow> min (length t) (skip_separator t j)
      | None \<Rightarrow> skip_newlines t (min (length t) (skip_separator t j))"
    have "start < min (length t) (skip_separator t j)" using b skip_separator_ge [of j t] by linarith
    then have s: "start < ?s" by (cases split) (simp_all add: trans_less_add1)
    have "slice t start j \<noteq> []" using b(1,2) by (auto simp: slice_def)
    moreover have "\<not> length t \<le> start" "\<not> length t - start \<le> ?cl" using cut by linarith+
    ultimately have e: "markdown_from t limit spans start reopen =
        Option.bind (markdown_from t limit spans ?s split)
          (\<lambda>chunks. Some (closed_chunk (?prefix @ slice t start j) split # chunks))"
      using j(1) by (subst markdown_from.simps) (simp add: Let_def)
    from less.hyps [OF _ _ b(3), of ?s] s cut obtain cs where
      cs: "markdown_from t limit spans ?s split = Some cs" "spacious spans limit \<longrightarrow> within (int limit) cs" by force
    have "closed_chunk (?prefix @ slice t start j) split \<noteq> [] \<and> length (closed_chunk (?prefix @ slice t start j) split) \<le> limit"
      if "spacious spans limit"
      using closed_chunk_length [OF j(2) room(1) [OF that], of ?prefix] room(2) [OF that] by simp
    with cs show ?thesis unfolding e by (auto simp: within_def)
  qed
qed

section \<open>Properties\<close>

text \<open>
  C33: for a positive limit the plain splitter returns chunks that are neither empty nor longer than the
  limit and that are the text in order, with nothing lost but one white-space unit after a chunk; for
  limits above one it keeps surrogate pairs whole, so well-formed UTF-16 gives well-formed chunks. The
  paragraph splitter keeps the limit as well and loses nothing but white space.
\<close>

theorem plain_chunks_lose_only_white_space:
  assumes "1 \<le> limit"
  shows "within limit (chunkText t limit) \<and> covers (chunkText t limit) t
    \<and> (2 \<le> limit \<and> paired t \<longrightarrow> (\<forall>c \<in> set (chunkText t limit). paired c))
    \<and> within limit (chunkByParagraph t limit True)
    \<and> visible (concat (chunkByParagraph t limit True)) = visible t"
  using chunkText_sound [OF assms, of t] chunkByParagraph_sound [OF assms, of t] by blast

theorem plain_chunks_witness:
  "within 3 (chunkText [0x61, 0xD83D, 0xDE00, 0x20, 0x62, LF, LF, 0x63] 3)
    \<and> list_all paired (chunkText [0x61, 0xD83D, 0xDE00, 0x20, 0x62, LF, LF, 0x63] 3)
    \<and> visible (concat (chunkByParagraph [0x61, LF, LF, 0x62] 3 True)) = [0x61, 0x62]"
proof -
  have "paired [0x61, 0xD83D, 0xDE00, 0x20, 0x62, LF, LF, 0x63]"
    by (simp add: high_surrogate_def low_surrogate_def word_le_nat_alt)
  moreover have "visible [0x61, LF, LF, 0x62] = [0x61, 0x62]"
    by (simp add: visible_Cons js_space_def word_le_nat_alt)
  ultimately show ?thesis
    using plain_chunks_lose_only_white_space [of 3 "[0x61, 0xD83D, 0xDE00, 0x20, 0x62, LF, LF, 0x63]"]
      plain_chunks_lose_only_white_space [of 3 "[0x61, LF, LF, 0x62]"] by (simp add: list_all_iff)
qed

text \<open>
  C34: the fence-aware splitter returns for every text, the empty one included, that does not begin with a
  newline, and for every limit; and when the limit leaves room for an opening and a closing fence line, its chunks, the repeated fence
  lines included, are not empty and not longer than the limit.
\<close>

theorem fenced_chunks_return:
  assumes "take 1 t \<noteq> [LF]"
  shows "\<exists>cs. chunkMarkdownText t limit = Some cs \<and>
    (spacious (parseFenceSpans t) (nat limit) \<longrightarrow> within limit cs)"
proof (cases "resolveEarlyReturn t limit")
  case None
  then have "1 \<le> limit" "t ! 0 \<noteq> LF"
    using assms by (cases t; auto simp: resolveEarlyReturn_def split: if_splits)+
  with markdown_from_returns [where start = 0 and reopen = None and limit = "nat limit", OF disjI2 distinct_starts] None
  show ?thesis by (simp add: chunkMarkdownText_def reopened_def)
next
  case (Some cs)
  then show ?thesis
    by (auto simp: chunkMarkdownText_def resolveEarlyReturn_def within_def spacious_def split: if_splits)
qed

definition fenced_sample :: "text16 \<Rightarrow> text16" where
  "fenced_sample info = [0x60, 0x60, 0x60] @ info @ [LF] @ replicate 30 0x62 @ [LF, 0x60, 0x60, 0x60]"

theorem fenced_chunks_return_witness:
  "\<exists>cs. chunkMarkdownText (fenced_sample [0x61]) 20 = Some cs \<and> within 20 cs"
proof -
  have "parseFenceSpans (fenced_sample [0x61]) = [\<lparr>fs_start = 0, fs_end = 40, fs_openLine = [0x60, 0x60, 0x60, 0x61],
    fs_marker = [0x60, 0x60, 0x60], fs_indent = []\<rparr>]" by code_simp
  then have "spacious (parseFenceSpans (fenced_sample [0x61])) (nat 20)"
    by (simp add: spacious_def closeLine_def)
  moreover have "take 1 (fenced_sample [0x61]) \<noteq> [LF]" by code_simp
  from fenced_chunks_return [OF this, of 20] show ?thesis using calculation by auto
qed



end
