(* ===== verification/Finalize.thy ===== *)
theory Finalize
  imports Obligations Inbound
begin

text \<open>
  The contract of turn finalization (\<^verbatim>\<open>src/core/turn-finalization-contract.ts\<close>): what a caller asks to be
  persisted when a turn ends, and the normalization every request passes before a row is written. An
  optional property that may also be null is an option. A delivery kind that names a property every
  JavaScript object inherits is read as unknown.
\<close>

definition CLIENT_OUTPUT_WITHHELD_TERMINAL_REASON :: string where
  "CLIENT_OUTPUT_WITHHELD_TERMINAL_REASON = ''client_output_withheld''"

section \<open>Requests\<close>

record checkpoint_fields =
  sf_sessionId :: "string option"
  sf_transcriptPath :: "string option"
  sf_activeTurnId :: "string option"
  sf_lastInboundSeq :: "int option"
  sf_lastFlushedOutboundId :: "int option"
  sf_watchdogState :: "string option"
  sf_workspacePath :: "string option"
  sf_claudePid :: "int option"
  sf_sessionStatus :: "string option"
  sf_completedInboundSeq :: "int option"
  sf_completedDeliveryJid :: "string option"
  sf_completedDeliveryNamespace :: "string option"
  sf_completedScope :: "string option"
  sf_completedLogicalTurnId :: "string option"
  sf_completedManagerId :: "string option"
  sf_completedGeneration :: "int option"

record session_tokens =
  sk_dbRowId :: int
  sk_inputTokens :: int
  sk_outputTokens :: int
  sk_cacheReadTokens :: int

record bookkeeping_params =
  bk_sessionTokens :: "session_tokens option"
  bk_checkpoint :: "(string \<times> checkpoint_fields) option"
  bk_lastOpId :: "int option"

datatype inbound_mutation = Im_complete int string | Im_failed int failure_class

fun mutation_seq :: "inbound_mutation \<Rightarrow> int" where
  "mutation_seq (Im_complete k _) = k"
| "mutation_seq (Im_failed k _) = k"

record terminal_params =
  fp_scope :: string
  fp_conversationKey :: string
  fp_deliveryJid :: string
  fp_inboundSeq :: "int option"
  fp_logicalTurnId :: string
  fp_managerId :: string
  fp_generation :: int
  fp_attemptKind :: string
  fp_attemptFailureClass :: "string option"
  fp_inboundDisposition :: string
  fp_deliveryKind :: string
  fp_deliveryOpId :: "int option"
  fp_ownerLogicalTurnId :: "string option"
  fp_ownerManagerId :: "string option"
  fp_ownerGeneration :: "int option"
  fp_replyGuaranteeDisarmed :: bool

record finalize_params =
  fz_terminal :: terminal_params
  fz_inbound :: "inbound_mutation option"
  fz_bookkeeping :: "bookkeeping_params option"
  fz_recoveryJob :: "job_params option"
  fz_capabilityDecision :: "decision_params option"
  fz_bestEffort :: bool

section \<open>Completed checkpoint identities\<close>

definition requireDeliveryNamespace :: "string \<Rightarrow> string result" where
  "requireDeliveryNamespace jid = (case parseWhatsAppDeliveryNamespace jid of
     None \<Rightarrow> Inl (Error ''Turn identity requires a canonical WhatsApp delivery JID namespace'')
   | Some ns \<Rightarrow> Inr ns)"

text \<open>Which of the seven columns of the identity are given.\<close>

definition identity_bundle :: "checkpoint_fields \<Rightarrow> bool list" where
  "identity_bundle f = [sf_completedInboundSeq f \<noteq> None, sf_completedDeliveryJid f \<noteq> None,
     sf_completedDeliveryNamespace f \<noteq> None, sf_completedScope f \<noteq> None, sf_completedLogicalTurnId f \<noteq> None,
     sf_completedManagerId f \<noteq> None, sf_completedGeneration f \<noteq> None]"

definition validateCompletedCheckpointIdentity :: "checkpoint_fields \<Rightarrow> unit result" where
  "validateCompletedCheckpointIdentity f = (if list_all Not (identity_bundle f) then Inr ()
     else throw_if (list_ex Not (identity_bundle f))
       (Error ''Turn checkpoint completed identity must be persisted as one complete bundle'')
    (and_then (validate_id (the (sf_completedDeliveryJid f)) ''Turn checkpoint completed delivery JID'') (\<lambda>_.
     and_then (validatePositiveSafeInteger (the (sf_completedInboundSeq f)) ''Turn checkpoint completed inbound sequence'') (\<lambda>_.
     and_then (validate_id (the (sf_completedDeliveryNamespace f)) ''Turn checkpoint completed delivery namespace'') (\<lambda>_.
     and_then (validate_id (the (sf_completedLogicalTurnId f)) ''Turn checkpoint completed logical turn ID'') (\<lambda>_.
     and_then (validate_id (the (sf_completedManagerId f)) ''Turn checkpoint completed manager ID'') (\<lambda>_.
     and_then (validatePositiveSafeInteger (the (sf_completedGeneration f)) ''Turn checkpoint completed generation'') (\<lambda>_.
     throw_if (the (sf_completedScope f) \<notin> set SCOPES) (Error ''Turn checkpoint completed identity has an invalid scope'')
    (and_then (requireDeliveryNamespace (the (sf_completedDeliveryJid f))) (\<lambda>ns.
     throw_if (ns \<noteq> the (sf_completedDeliveryNamespace f))
       (Error ''Turn checkpoint completed identity has a contradictory delivery namespace'') (Inr ())))))))))))"

section \<open>The inbound mutation of a disposition\<close>

definition TERMINAL_PROVIDER_FAILURE_CLASSES :: "string list" where
  "TERMINAL_PROVIDER_FAILURE_CLASSES = [''usage-limit'', ''rate-limit'', ''auth-required'', ''model-unavailable'',
     ''policy-block'', ''context-overflow'', ''server-error'', ''transient-network'']"

definition expectedTerminalInboundFailureClass :: "terminal_params \<Rightarrow> failure_class result" where
  "expectedTerminalInboundFailureClass t =
     (if fp_attemptKind t = ''admission_rejected'' then admissionRejectInboundFailureClass (fp_attemptFailureClass t)
      else case fp_attemptFailureClass t of
        None \<Rightarrow> Inl (Error ''failed_terminal terminal disposition requires an exact attempt failure class'')
      | Some detailed \<Rightarrow> throw_if (fp_attemptKind t \<noteq> ''failed'')
          (Error ''failed_terminal terminal disposition requires an exact attempt failure class'')
          (if detailed = ''crash'' then Inr Fc_session_crash
           else if detailed = ''operator_cancelled'' then Inr Fc_operator_cancelled
           else if detailed = ''processor_throw'' then Inr Fc_processor_throw
           else if detailed = ''unknown_terminal'' then Inr Fc_unknown
           else if detailed = ''scheduled_answer_missing'' then Inr Fc_unknown
           else if detailed = ''provider_stream_corrupt'' then Inr Fc_provider_failure
           else if detailed \<in> set TERMINAL_PROVIDER_FAILURE_CLASSES then Inr Fc_provider_failure
           else Inl (Error ''failed_terminal terminal disposition has an invalid attempt failure class'')))"

definition no_reply_reason :: "terminal_params \<Rightarrow> string" where
  "no_reply_reason t = (if fp_attemptKind t = ''withheld_by_policy'' then CLIENT_OUTPUT_WITHHELD_TERMINAL_REASON
     else ''no_reply_policy'')"

definition deriveTerminalInboundMutation :: "terminal_params \<Rightarrow> inbound_mutation option result" where
  "deriveTerminalInboundMutation t = (case fp_inboundSeq t of None \<Rightarrow> Inr None
     | Some k \<Rightarrow>
       if fp_inboundDisposition t = ''finalized_replied'' then Inr (Some (Im_complete k ''response_echoed''))
       else if fp_inboundDisposition t = ''finalized_no_reply_policy'' then Inr (Some (Im_complete k (no_reply_reason t)))
       else if fp_inboundDisposition t = ''failed_terminal''
       then and_then (expectedTerminalInboundFailureClass t) (\<lambda>c. Inr (Some (Im_failed k c)))
       else Inr None)"

definition DELIVERY_STATUS_PROOF :: "string \<Rightarrow> outbound_status option" where
  "DELIVERY_STATUS_PROOF kind = (if kind = ''enqueued'' then Some Os_pending
     else if kind = ''flushed'' then Some Os_submitted
     else if kind = ''echoed'' then Some Os_echoed
     else if kind = ''delivery_unknown'' then Some Os_maybe_sent else None)"

section \<open>Normalization\<close>

text \<open>The checks in the order of the code, in six groups.\<close>

definition check_identity :: "finalize_params \<Rightarrow> string result" where
  "check_identity p = (let t = fz_terminal p in
     throw_if (fp_scope t \<notin> set SCOPES) (Error ''Terminal identity has an invalid scope'')
    (and_then (case fz_capabilityDecision p of None \<Rightarrow> Inr ()
       | Some decision \<Rightarrow> if fz_bestEffort p then Inr () else validateCapabilityDecisionParams decision) (\<lambda>_.
     and_then (validate_id (fp_conversationKey t) ''Terminal identity conversation key'') (\<lambda>_.
     and_then (validate_id (fp_deliveryJid t) ''Terminal identity delivery JID'') (\<lambda>_.
     and_then (requireDeliveryNamespace (fp_deliveryJid t)) (\<lambda>ns.
     and_then (validate_id (fp_logicalTurnId t) ''Terminal identity logical turn ID'') (\<lambda>_.
     and_then (validate_id (fp_managerId t) ''Terminal identity manager ID'') (\<lambda>_.
     and_then (case fp_inboundSeq t of None \<Rightarrow> Inr ()
       | Some k \<Rightarrow> validatePositiveSafeInteger k ''Terminal identity inbound sequence'') (\<lambda>_.
     and_then (validatePositiveSafeInteger (fp_generation t) ''Terminal identity generation'') (\<lambda>_.
     Inr ns))))))))))"

definition exact_failure_class :: "string \<Rightarrow> bool" where
  "exact_failure_class c \<longleftrightarrow> c \<in> {''crash'', ''operator_cancelled'', ''processor_throw'', ''unknown_terminal'',
     ''scheduled_answer_missing'', ''provider_stream_corrupt''} \<or> c \<in> set TERMINAL_PROVIDER_FAILURE_CLASSES"

definition check_attempt :: "terminal_params \<Rightarrow> unit result" where
  "check_attempt t =
     (if fp_attemptKind t = ''failed''
      then throw_if (case fp_attemptFailureClass t of None \<Rightarrow> True | Some c \<Rightarrow> \<not> exact_failure_class c)
        (Error ''Terminal attempt axis requires a bounded exact failure class'') (Inr ())
      else if fp_attemptKind t = ''admission_rejected''
      then throw_if (case fp_attemptFailureClass t of None \<Rightarrow> False
          | Some c \<Rightarrow> c \<notin> failure_class_str ` set ADMISSION_REJECT_CLASSES)
        (Error ''Terminal attempt axis has an incoherent failure class'') (Inr ())
      else throw_if (fp_attemptKind t \<notin> {''completed'', ''suppressed_by_policy'', ''withheld_by_policy''}
          \<or> fp_attemptFailureClass t \<noteq> None)
        (Error ''Terminal attempt axis has an incoherent failure class'') (Inr ()))"

definition check_delivery :: "finalize_params \<Rightarrow> unit result" where
  "check_delivery p = (let t = fz_terminal p in
     throw_if (if fp_deliveryKind t = ''none'' then fp_deliveryOpId t \<noteq> None
         else (case fp_deliveryOpId t of None \<Rightarrow> True | Some k \<Rightarrow> \<not> safe_integer k \<or> k < 1)
           \<or> DELIVERY_STATUS_PROOF (fp_deliveryKind t) = None)
       (Error ''Terminal delivery evidence has an incoherent durable op identity'')
    (throw_if (fp_deliveryKind t = ''delivery_unknown''
         \<and> fp_inboundDisposition t \<notin> {''unfinalized_retry_owned'', ''transferred_to_recovery_owner''})
       (Error ''delivery_unknown requires a bounded retry owner'')
    (throw_if (case fz_inbound p of None \<Rightarrow> False | Some m \<Rightarrow> fp_inboundSeq t \<noteq> Some (mutation_seq m))
       (Error ''Companion inbound mutation must match the terminal identity'') (Inr ()))))"

text \<open>\<^verbatim>\<open>inbound?.kind === 'complete' && inbound.terminalReason === reason\<close>, where an inbound is required.\<close>

definition completes_with :: "string \<Rightarrow> finalize_params \<Rightarrow> bool" where
  "completes_with reason p \<longleftrightarrow> (if fp_inboundSeq (fz_terminal p) = None then fz_inbound p = None
     else (case fz_inbound p of Some (Im_complete _ r) \<Rightarrow> r = reason | _ \<Rightarrow> False))"

definition check_disposition :: "finalize_params \<Rightarrow> unit result" where
  "check_disposition p = (let t = fz_terminal p; disposition = fp_inboundDisposition t in
     and_then
      (if disposition = ''finalized_replied''
       then throw_if (fp_deliveryKind t \<noteq> ''echoed'' \<or> \<not> completes_with ''response_echoed'' p)
         (Error ''finalized_replied terminal disposition requires echoed delivery and response_echoed completion'') (Inr ())
       else if disposition = ''finalized_no_reply_policy''
       then throw_if (fp_attemptKind t \<notin> {''suppressed_by_policy'', ''withheld_by_policy''}
           \<or> fp_deliveryKind t \<noteq> ''none'' \<or> \<not> completes_with (no_reply_reason t) p)
         (Error ''finalized_no_reply_policy terminal disposition requires no_reply_policy completion'') (Inr ())
       else if disposition = ''failed_terminal''
       then and_then (expectedTerminalInboundFailureClass t) (\<lambda>expected.
         throw_if (fp_deliveryKind t \<noteq> ''none''
             \<or> (if fp_inboundSeq t = None then fz_inbound p \<noteq> None
                else (case fz_inbound p of Some (Im_failed _ c) \<Rightarrow> c \<noteq> expected | _ \<Rightarrow> True)))
           (Error ''failed_terminal terminal disposition requires a failed inbound mutation'') (Inr ()))
       else if disposition = ''transferred_to_recovery_owner''
       then throw_if (fp_deliveryKind t = ''echoed'')
           (Error ''Echoed delivery is exclusive to a finalized_replied disposition'')
         (throw_if (fp_deliveryKind t \<notin> {''enqueued'', ''flushed'', ''delivery_unknown''})
           (Error ''transferred_to_recovery_owner requires unresolved delivery evidence'')
         (throw_if (fz_inbound p \<noteq> None)
           (Error (disposition @ '' terminal disposition forbids an inbound mutation'')) (Inr ())))
       else if disposition = ''unfinalized_retry_owned''
       then throw_if (fz_inbound p \<noteq> None)
         (Error (disposition @ '' terminal disposition forbids an inbound mutation'')) (Inr ())
       else Inl (Error ''Unknown terminal disposition''))
      (\<lambda>_. throw_if (fp_deliveryKind t = ''echoed'' \<and> disposition \<noteq> ''finalized_replied'')
         (Error ''Echoed delivery is exclusive to a finalized_replied disposition'') (Inr ())))"

definition is_transfer :: "terminal_params \<Rightarrow> bool" where
  "is_transfer t \<longleftrightarrow> fp_inboundDisposition t = ''transferred_to_recovery_owner''"

definition check_owner :: "finalize_params \<Rightarrow> unit result" where
  "check_owner p = (let t = fz_terminal p;
       some_owner = fp_ownerLogicalTurnId t \<noteq> None \<or> fp_ownerManagerId t \<noteq> None \<or> fp_ownerGeneration t \<noteq> None;
       no_owner = fp_ownerLogicalTurnId t = None \<or> fp_ownerManagerId t = None \<or> fp_ownerGeneration t = None in
     and_then
      (if is_transfer t
       then throw_if no_owner (Error ''Transferred terminal disposition requires a complete recovery owner'')
        (and_then (validate_id (the (fp_ownerLogicalTurnId t)) ''Terminal recovery owner logical turn ID'') (\<lambda>_.
         and_then (validate_id (the (fp_ownerManagerId t)) ''Terminal recovery owner manager ID'') (\<lambda>_.
         validatePositiveSafeInteger (the (fp_ownerGeneration t)) ''Terminal recovery owner generation'')))
       else throw_if some_owner (Error ''Recovery owner tuple is only valid for a transferred disposition'') (Inr ()))
      (\<lambda>_. throw_if (case Option.bind (fz_bookkeeping p) bk_checkpoint of None \<Rightarrow> False
           | Some (key, _) \<Rightarrow> key \<noteq> fp_conversationKey t)
         (Error ''Turn checkpoint conversation must match the terminal conversation'')
       (throw_if (Option.bind (fz_bookkeeping p) bk_lastOpId \<noteq> None)
         (Error ''Finalization derives its terminal op from delivery evidence'') (Inr ()))))"

definition check_job :: "finalize_params \<Rightarrow> unit result" where
  "check_job p = (let t = fz_terminal p in
     throw_if (is_transfer t \<and> fz_recoveryJob p = None)
       (Error ''A transferred terminal disposition requires a recovery job'')
    (throw_if (\<not> is_transfer t \<and> fz_recoveryJob p \<noteq> None)
       (Error ''A recovery job is only valid for a transferred disposition'')
    (case fz_recoveryJob p of None \<Rightarrow> Inr () | Some job \<Rightarrow>
       and_then (validateTurnRecoveryJob job) (\<lambda>_.
       throw_if (fp_inboundSeq t = None \<or> jp_scope job \<noteq> fp_scope t
           \<or> jp_conversationKey job \<noteq> fp_conversationKey t \<or> jp_deliveryJid job \<noteq> fp_deliveryJid t
           \<or> Some (jp_sourceInboundSeq job) \<noteq> fp_inboundSeq t \<or> jp_sourceLogicalTurnId job \<noteq> fp_logicalTurnId t
           \<or> jp_sourceManagerId job \<noteq> fp_managerId t \<or> jp_sourceGeneration job \<noteq> fp_generation t)
         (Error ''Recovery source identity does not match terminal identity'')
      (throw_if (Some (jp_ownerLogicalTurnId job) \<noteq> fp_ownerLogicalTurnId t
           \<or> Some (jp_ownerManagerId job) \<noteq> fp_ownerManagerId t \<or> Some (jp_ownerGeneration job) \<noteq> fp_ownerGeneration t)
         (Error ''Recovery owner identity does not match the terminal owner tuple'')
      (throw_if (jp_sourceLogicalTurnId job = jp_ownerLogicalTurnId job
           \<and> jp_sourceManagerId job = jp_ownerManagerId job \<and> jp_sourceGeneration job = jp_ownerGeneration job)
         (Error ''Recovery source and owner identities must differ'') (Inr ())))))))"

text \<open>The checkpoint of a finalized turn: what the caller left out is filled in, what it contradicts throws.\<close>

definition expected_flushed :: "terminal_params \<Rightarrow> int option" where
  "expected_flushed t = (if fp_deliveryKind t \<in> {''flushed'', ''echoed'', ''delivery_unknown''} then fp_deliveryOpId t else None)"

definition contradicts :: "'a option \<Rightarrow> 'a option \<Rightarrow> bool" where
  "contradicts given expected \<longleftrightarrow> given \<noteq> None \<and> given \<noteq> expected"

definition or_else :: "'a option \<Rightarrow> 'a option \<Rightarrow> 'a option" where
  "or_else x y = (case x of None \<Rightarrow> y | Some _ \<Rightarrow> x)"

definition with_identity :: "terminal_params \<Rightarrow> string \<Rightarrow> int \<Rightarrow> checkpoint_fields \<Rightarrow> checkpoint_fields" where
  "with_identity t ns k f = f\<lparr>sf_completedInboundSeq := Some k, sf_completedDeliveryJid := Some (fp_deliveryJid t),
     sf_completedDeliveryNamespace := Some ns, sf_completedScope := Some (fp_scope t),
     sf_completedLogicalTurnId := Some (fp_logicalTurnId t), sf_completedManagerId := Some (fp_managerId t),
     sf_completedGeneration := Some (fp_generation t)\<rparr>"

definition identity_contradicts :: "terminal_params \<Rightarrow> string \<Rightarrow> int \<Rightarrow> checkpoint_fields \<Rightarrow> bool" where
  "identity_contradicts t ns k f \<longleftrightarrow> contradicts (sf_completedInboundSeq f) (Some k)
     \<or> contradicts (sf_completedDeliveryJid f) (Some (fp_deliveryJid t))
     \<or> contradicts (sf_completedDeliveryNamespace f) (Some ns) \<or> contradicts (sf_completedScope f) (Some (fp_scope t))
     \<or> contradicts (sf_completedLogicalTurnId f) (Some (fp_logicalTurnId t))
     \<or> contradicts (sf_completedManagerId f) (Some (fp_managerId t))
     \<or> contradicts (sf_completedGeneration f) (Some (fp_generation t))"

definition filled_fields :: "terminal_params \<Rightarrow> checkpoint_fields \<Rightarrow> checkpoint_fields" where
  "filled_fields t f = f\<lparr>sf_activeTurnId := None, sf_lastInboundSeq := or_else (fp_inboundSeq t) (sf_lastInboundSeq f),
     sf_lastFlushedOutboundId := or_else (expected_flushed t) (sf_lastFlushedOutboundId f)\<rparr>"

definition no_identity :: checkpoint_fields where
  "no_identity = \<lparr>sf_sessionId = None, sf_transcriptPath = None, sf_activeTurnId = None, sf_lastInboundSeq = None,
     sf_lastFlushedOutboundId = None, sf_watchdogState = None, sf_workspacePath = None, sf_claudePid = None,
     sf_sessionStatus = None, sf_completedInboundSeq = None, sf_completedDeliveryJid = None,
     sf_completedDeliveryNamespace = None, sf_completedScope = None, sf_completedLogicalTurnId = None,
     sf_completedManagerId = None, sf_completedGeneration = None\<rparr>"

definition normalize_checkpoint :: "finalize_params \<Rightarrow> string \<Rightarrow> checkpoint_fields \<Rightarrow> checkpoint_fields result" where
  "normalize_checkpoint p ns f = (let t = fz_terminal p;
       admissionRejected = fp_attemptKind t = ''admission_rejected'';
       provided = list_ex id (identity_bundle f) in
     throw_if (sf_activeTurnId f \<noteq> None) (Error ''Turn checkpoint activeTurnId must clear the completing turn'')
    (throw_if (contradicts (sf_lastInboundSeq f) (fp_inboundSeq t))
       (Error ''Turn checkpoint lastInboundSeq contradicts terminal identity'')
    (throw_if (contradicts (sf_lastFlushedOutboundId f) (expected_flushed t))
       (Error ''Turn checkpoint lastFlushedOutboundId contradicts delivery evidence'')
    (throw_if (fz_inbound p = None \<and> provided)
       (Error ''Turn checkpoint completed identity requires a terminal inbound mutation'')
    (throw_if (admissionRejected \<and> provided)
       (Error ''An admission-rejected terminal cannot carry a completed checkpoint identity'')
    (case fp_inboundSeq t of
       None \<Rightarrow> Inr (filled_fields t f)
     | Some k \<Rightarrow> if fz_inbound p = None \<or> admissionRejected then Inr (filled_fields t f)
       else throw_if (identity_contradicts t ns k f)
           (Error ''Turn checkpoint completed identity contradicts terminal identity'')
        (and_then (validateCompletedCheckpointIdentity (with_identity t ns k no_identity)) (\<lambda>_.
         Inr (with_identity t ns k (filled_fields t f))))))))))"

definition normalized_terminal :: "terminal_params \<Rightarrow> terminal_params" where
  "normalized_terminal t = t\<lparr>fp_replyGuaranteeDisarmed :=
     (fp_deliveryKind t = ''echoed'' \<or> fp_inboundDisposition t = ''finalized_no_reply_policy'')\<rparr>"

definition normalizeFinalizeTurnTerminalParams :: "finalize_params \<Rightarrow> finalize_params result" where
  "normalizeFinalizeTurnTerminalParams p = (let t = fz_terminal p; p' = p\<lparr>fz_terminal := normalized_terminal t\<rparr> in
     and_then (check_identity p) (\<lambda>ns.
     and_then (check_attempt t) (\<lambda>_.
     and_then (check_delivery p) (\<lambda>_.
     and_then (check_disposition p) (\<lambda>_.
     and_then (check_owner p) (\<lambda>_.
     and_then (check_job p) (\<lambda>_.
     (case fz_bookkeeping p of
        None \<Rightarrow> Inr p'
      | Some b \<Rightarrow> (case bk_checkpoint b of
          None \<Rightarrow> Inr p'
        | Some (key, f) \<Rightarrow> and_then (normalize_checkpoint p ns f) (\<lambda>f'.
            Inr (p'\<lparr>fz_bookkeeping := Some (b\<lparr>bk_checkpoint := Some (key, f')\<rparr>)\<rparr>)))))))))))"

section \<open>Records\<close>

definition terminalRecordMatches :: "terminal_record \<Rightarrow> terminal_params \<Rightarrow> bool" where
  "terminalRecordMatches r t \<longleftrightarrow> tt_scope r = fp_scope t \<and> tt_conversation_key r = fp_conversationKey t
     \<and> tt_delivery_jid r = fp_deliveryJid t \<and> tt_inbound_seq r = fp_inboundSeq t
     \<and> tt_logical_turn_id r = fp_logicalTurnId t \<and> tt_manager_id r = fp_managerId t
     \<and> tt_generation r = fp_generation t \<and> tt_attempt_kind r = fp_attemptKind t
     \<and> tt_attempt_failure_class r = fp_attemptFailureClass t
     \<and> tt_inbound_disposition r = fp_inboundDisposition t \<and> tt_delivery_kind r = fp_deliveryKind t
     \<and> tt_delivery_op_id r = fp_deliveryOpId t \<and> tt_owner_logical_turn_id r = fp_ownerLogicalTurnId t
     \<and> tt_owner_manager_id r = fp_ownerManagerId t \<and> tt_owner_generation r = fp_ownerGeneration t
     \<and> tt_reply_guarantee_disarmed r = fp_replyGuaranteeDisarmed t"

end
