(* ===== verification/FinalizeTurn.thy ===== *)
theory FinalizeTurn
  imports Finalize JobLaws
begin

text \<open>
  Turn finalization in the durability engine (\<^verbatim>\<open>src/core/durability.ts\<close>): the compare-and-swap insert of
  the terminal record and, for its winner only, the proofs of the inbound and outbound rows, the linked
  recovery job, the capability decision, the bookkeeping and the closing of the inbound event, in one
  transaction over the engine's tables and those of the capability store. Errors that end a transaction
  by themselves (a full disk) are left out.
\<close>

section \<open>Session checkpoints\<close>

definition fields_identity :: "checkpoint_fields \<Rightarrow> completed_identity option" where
  "fields_identity f = (if list_all id (identity_bundle f) then Some
     \<lparr>ci_inbound_seq = the (sf_completedInboundSeq f), ci_delivery_jid = the (sf_completedDeliveryJid f),
      ci_delivery_namespace = the (sf_completedDeliveryNamespace f), ci_scope = the (sf_completedScope f),
      ci_logical_turn_id = the (sf_completedLogicalTurnId f), ci_manager_id = the (sf_completedManagerId f),
      ci_generation = the (sf_completedGeneration f)\<rparr> else None)"

definition new_checkpoint :: "string \<Rightarrow> checkpoint_fields \<Rightarrow> checkpoint" where
  "new_checkpoint key f = \<lparr>cp_conversation_key = key, cp_session_id = sf_sessionId f,
     cp_transcript_path = sf_transcriptPath f, cp_active_turn_id = sf_activeTurnId f,
     cp_last_inbound_seq = sf_lastInboundSeq f, cp_last_flushed_outbound_id = sf_lastFlushedOutboundId f,
     cp_watchdog_state = sf_watchdogState f, cp_workspace_path = sf_workspacePath f, cp_claude_pid = sf_claudePid f,
     cp_session_status = (case sf_sessionStatus f of None \<Rightarrow> ''active'' | Some st \<Rightarrow> st),
     cp_completed = fields_identity f, cp_version = 1\<rparr>"

text \<open>The conflict clause. A write of another provider session replaces the progress of the old one.\<close>

definition other_session :: "checkpoint_fields \<Rightarrow> checkpoint \<Rightarrow> bool" where
  "other_session f c \<longleftrightarrow> sf_sessionId f \<noteq> None \<and> sf_sessionId f \<noteq> cp_session_id c"

definition merged_status :: "checkpoint_fields \<Rightarrow> checkpoint \<Rightarrow> string" where
  "merged_status f c = (if cp_session_status c = ''ended'' \<and> \<not> other_session f c
       \<and> sf_sessionStatus f \<in> {Some ''suspended'', Some ''orphaned''} then cp_session_status c
     else case sf_sessionStatus f of None \<Rightarrow> cp_session_status c | Some st \<Rightarrow> st)"

definition merge_checkpoint :: "checkpoint_fields \<Rightarrow> checkpoint \<Rightarrow> checkpoint" where
  "merge_checkpoint f c = c\<lparr>cp_session_id := or_else (sf_sessionId f) (cp_session_id c),
     cp_transcript_path := or_else (sf_transcriptPath f) (cp_transcript_path c),
     cp_active_turn_id := sf_activeTurnId f,
     cp_last_inbound_seq := (if other_session f c then sf_lastInboundSeq f
       else or_else (sf_lastInboundSeq f) (cp_last_inbound_seq c)),
     cp_last_flushed_outbound_id := or_else (sf_lastFlushedOutboundId f) (cp_last_flushed_outbound_id c),
     cp_watchdog_state := or_else (sf_watchdogState f) (cp_watchdog_state c),
     cp_workspace_path := or_else (sf_workspacePath f) (cp_workspace_path c),
     cp_claude_pid := or_else (sf_claudePid f) (cp_claude_pid c),
     cp_session_status := merged_status f c,
     cp_completed := (if other_session f c then fields_identity f else or_else (fields_identity f) (cp_completed c)),
     cp_version := cp_version c + 1\<rparr>"

definition runUpsertSessionCheckpoint :: "string \<Rightarrow> checkpoint_fields \<Rightarrow> db \<Rightarrow> db result" where
  "runUpsertSessionCheckpoint key f d = and_then (validateCompletedCheckpointIdentity f) (\<lambda>_. Inr
     (if exists_row (\<lambda>c. cp_conversation_key c = key) (checkpoints d)
      then d\<lparr>checkpoints := update_rows (\<lambda>c. cp_conversation_key c = key) (merge_checkpoint f) (checkpoints d)\<rparr>
      else d\<lparr>checkpoints := checkpoints d @ [new_checkpoint key f]\<rparr>))"

section \<open>Bookkeeping\<close>

text \<open>A token event refers to its session, so a session that is gone aborts the insert.\<close>

definition accumulate_tokens :: "session_tokens \<Rightarrow> int \<Rightarrow> db \<Rightarrow> db result" where
  "accumulate_tokens k now d = throw_if (\<not> exists_row (\<lambda>s. as_id s = sk_dbRowId k) (agent_sessions d))
     (Error ''FOREIGN KEY constraint failed'') (Inr
     (d\<lparr>agent_sessions := update_rows (\<lambda>s. as_id s = sk_dbRowId k)
          (\<lambda>s. s\<lparr>as_input_tokens := as_input_tokens s + sk_inputTokens k,
             as_output_tokens := as_output_tokens s + sk_outputTokens k,
             as_cache_read_tokens := as_cache_read_tokens s + sk_cacheReadTokens k\<rparr>) (agent_sessions d),
        token_events := token_events d @ [\<lparr>te_agent_session_id = sk_dbRowId k, te_timestamp = now,
          te_input_tokens = sk_inputTokens k, te_output_tokens = sk_outputTokens k\<rparr>]\<rparr>))"

definition runTurnBookkeeping :: "bookkeeping_params \<Rightarrow> int \<Rightarrow> db \<Rightarrow> db result" where
  "runTurnBookkeeping b now d =
     and_then (case bk_sessionTokens b of None \<Rightarrow> Inr d | Some k \<Rightarrow> accumulate_tokens k now d) (\<lambda>d'.
     case bk_checkpoint b of None \<Rightarrow> Inr d' | Some (key, f) \<Rightarrow> runUpsertSessionCheckpoint key f d')"

definition completeTurn :: "bookkeeping_params \<Rightarrow> (int \<times> string) option \<Rightarrow> int \<Rightarrow> db \<Rightarrow> db \<times> unit result" where
  "completeTurn b inbound now d =
     (if bk_sessionTokens b = None \<and> bk_checkpoint b = None \<and> inbound = None \<and> bk_lastOpId b = None
      then (d, Inr ())
      else case and_then (runTurnBookkeeping b now d) (\<lambda>d1.
          and_then (case inbound of None \<Rightarrow> Inr d1 | Some (k, reason) \<Rightarrow> (case completeInbound k reason now d1 of
              (d2, Inr _) \<Rightarrow> Inr d2 | (d2, Inl e) \<Rightarrow> Inl e)) (\<lambda>d2.
          case bk_lastOpId b of None \<Rightarrow> Inr d2
          | Some k \<Rightarrow> and_then (runMarkTerminal k d2) (\<lambda>(d3, changed). Inr d3))) of
        Inl e \<Rightarrow> (d, Inl e) | Inr d' \<Rightarrow> (d', Inr ()))"

section \<open>Terminal records\<close>

definition seq_key :: "int option \<Rightarrow> int" where
  "seq_key k = (case k of None \<Rightarrow> -1 | Some n \<Rightarrow> n)"

definition terminal_keyed :: "int option \<Rightarrow> string \<Rightarrow> int \<Rightarrow> terminal_record \<Rightarrow> bool" where
  "terminal_keyed k turn generation r \<longleftrightarrow> tt_inbound_seq_key r = seq_key k \<and> tt_logical_turn_id r = turn
     \<and> tt_generation r = generation"

definition getTurnTerminal :: "int option \<Rightarrow> string \<Rightarrow> int \<Rightarrow> db \<Rightarrow> terminal_record option" where
  "getTurnTerminal k turn generation d = find (terminal_keyed k turn generation) (terminal_records d)"

definition terminal_row :: "int \<Rightarrow> terminal_params \<Rightarrow> terminal_record" where
  "terminal_row i t = \<lparr>tt_id = i, tt_scope = fp_scope t, tt_conversation_key = fp_conversationKey t,
     tt_delivery_jid = fp_deliveryJid t, tt_inbound_seq = fp_inboundSeq t,
     tt_inbound_seq_key = seq_key (fp_inboundSeq t), tt_logical_turn_id = fp_logicalTurnId t,
     tt_manager_id = fp_managerId t, tt_generation = fp_generation t, tt_attempt_kind = fp_attemptKind t,
     tt_attempt_failure_class = fp_attemptFailureClass t, tt_inbound_disposition = fp_inboundDisposition t,
     tt_delivery_kind = fp_deliveryKind t, tt_delivery_op_id = fp_deliveryOpId t,
     tt_owner_logical_turn_id = fp_ownerLogicalTurnId t, tt_owner_manager_id = fp_ownerManagerId t,
     tt_owner_generation = fp_ownerGeneration t, tt_reply_guarantee_disarmed = fp_replyGuaranteeDisarmed t,
     tt_duplicate_finalize_count = 0, tt_last_duplicate_at = None\<rparr>"

text \<open>The CHECK constraints of the table.\<close>

definition owner_coherent :: "terminal_record \<Rightarrow> bool" where
  "owner_coherent r \<longleftrightarrow> (if tt_inbound_disposition r = ''transferred_to_recovery_owner''
     then (case (tt_owner_logical_turn_id r, tt_owner_manager_id r, tt_owner_generation r) of
         (Some turn, Some manager, Some generation) \<Rightarrow> required_identity turn \<and> required_identity manager
           \<and> 1 \<le> generation \<and> generation \<le> 9007199254740991
       | _ \<Rightarrow> False)
     else tt_owner_logical_turn_id r = None \<and> tt_owner_manager_id r = None \<and> tt_owner_generation r = None)"

definition terminal_checks :: "terminal_record \<Rightarrow> bool" where
  "terminal_checks r \<longleftrightarrow> (case tt_inbound_seq r of None \<Rightarrow> True | Some k \<Rightarrow> 0 < k)
     \<and> tt_inbound_seq_key r = seq_key (tt_inbound_seq r) \<and> owner_coherent r
     \<and> (tt_reply_guarantee_disarmed r \<longrightarrow> tt_delivery_kind r = ''echoed''
          \<or> tt_inbound_disposition r = ''finalized_no_reply_policy'')
     \<and> (tt_delivery_kind r = ''delivery_unknown'' \<longrightarrow> \<not> tt_reply_guarantee_disarmed r)"

text \<open>
  The insert trigger of the table: a hand-over names an operation of the same event and address whose status
  is the unresolved one the delivery kind claims. The partial unique index: an operation is handed over once.
\<close>

definition transferred :: "terminal_record \<Rightarrow> bool" where
  "transferred r \<longleftrightarrow> tt_inbound_disposition r = ''transferred_to_recovery_owner''"

definition turn_terminal_transfer_requires_delivery :: "terminal_record \<Rightarrow> db \<Rightarrow> bool" where
  "turn_terminal_transfer_requires_delivery r d \<longleftrightarrow> transferred r
     \<and> (tt_delivery_kind r \<notin> {''enqueued'', ''flushed'', ''delivery_unknown''} \<or> tt_inbound_seq r = None
        \<or> (case tt_delivery_op_id r of None \<Rightarrow> True | Some k \<Rightarrow> \<not> exists_row (\<lambda>x. op_id x = k
             \<and> op_conversation_key x = tt_conversation_key r \<and> op_chat_jid x = tt_delivery_jid r
             \<and> op_source_inbound_seq x = tt_inbound_seq r
             \<and> (tt_delivery_kind r = ''enqueued'' \<and> op_status x = Os_pending
                \<or> tt_delivery_kind r = ''flushed'' \<and> op_status x = Os_submitted
                \<or> tt_delivery_kind r = ''delivery_unknown'' \<and> op_status x = Os_maybe_sent)) (outbound_ops d)))"

definition delivery_op_taken :: "terminal_record \<Rightarrow> db \<Rightarrow> bool" where
  "delivery_op_taken r d \<longleftrightarrow> transferred r \<and> tt_delivery_op_id r \<noteq> None
     \<and> exists_row (\<lambda>x. transferred x \<and> tt_delivery_op_id x = tt_delivery_op_id r) (terminal_records d)"

record record_result =
  rt_applied :: bool
  rt_recordId :: int
  rt_duplicateFinalizeCount :: nat
  rt_replyGuaranteeDisarmed :: bool

definition count_duplicate :: "int \<Rightarrow> terminal_record \<Rightarrow> terminal_record" where
  "count_duplicate now r = r\<lparr>tt_duplicate_finalize_count := tt_duplicate_finalize_count r + 1,
     tt_last_duplicate_at := Some now\<rparr>"

definition runRecordTurnTerminal :: "terminal_params \<Rightarrow> int \<Rightarrow> db \<Rightarrow> (db \<times> record_result) result" where
  "runRecordTurnTerminal t now d = (let i = last_terminal_id d + 1; r = terminal_row i t;
       key = terminal_keyed (fp_inboundSeq t) (fp_logicalTurnId t) (fp_generation t) in
     throw_if (turn_terminal_transfer_requires_delivery r d \<and> \<not> exists_row key (terminal_records d))
       (Error ''turn recovery transfer requires matching unresolved delivery evidence'')
     (throw_if (\<not> terminal_checks r) (Error ''CHECK constraint failed: turn_terminal_records'')
     (case find key (terminal_records d) of
        None \<Rightarrow> throw_if (delivery_op_taken r d)
          (Error ''UNIQUE constraint failed: turn_terminal_records.delivery_op_id'') (Inr (d\<lparr>terminal_records := terminal_records d @ [r], last_terminal_id := i\<rparr>,
          \<lparr>rt_applied = True, rt_recordId = i, rt_duplicateFinalizeCount = 0,
           rt_replyGuaranteeDisarmed = tt_reply_guarantee_disarmed r\<rparr>))
      | Some w \<Rightarrow> Inr (d\<lparr>terminal_records := update_rows key (count_duplicate now) (terminal_records d)\<rparr>,
          \<lparr>rt_applied = False, rt_recordId = tt_id w,
           rt_duplicateFinalizeCount = tt_duplicate_finalize_count w + 1,
           rt_replyGuaranteeDisarmed = tt_reply_guarantee_disarmed w\<rparr>))))"

section \<open>Proofs of the rows a terminal closes\<close>

definition open_inbound :: "inbound_event \<Rightarrow> bool" where
  "open_inbound r \<longleftrightarrow> ie_processing_status r = Is_processing \<or> ie_processing_status r = Is_turn_done"

definition check_inbound_row :: "terminal_params \<Rightarrow> inbound_event option \<Rightarrow> inbound_event result" where
  "check_inbound_row t row = (case row of None \<Rightarrow> Inl (Error ''Selected inbound row does not exist'')
     | Some r \<Rightarrow> throw_if (ie_conversation_key r \<noteq> fp_conversationKey t \<or> ie_chat_jid r \<noteq> fp_deliveryJid t)
           (Error ''Selected inbound identity does not match terminal identity'')
         (throw_if (\<not> open_inbound r) (Error ''Selected inbound row is not eligible for terminal finalization'')
           (Inr r)))"

definition validateTerminalInboundProof :: "finalize_params \<Rightarrow> db \<Rightarrow> unit result" where
  "validateTerminalInboundProof p d = (let t = fz_terminal p in case fp_inboundSeq t of
     None \<Rightarrow> throw_if (is_transfer t) (Error ''A recovery transfer requires an existing inbound row'') (Inr ())
   | Some k \<Rightarrow> and_then (check_inbound_row t (get_inbound d k)) (\<lambda>r.
       throw_if (case fz_recoveryJob p of None \<Rightarrow> False | Some job \<Rightarrow> ie_message_id r \<noteq> jp_sourceMessageId job)
         (Error ''Recovery source message does not match the selected inbound row'') (Inr ())))"

definition validateTerminalDeliveryProof :: "terminal_params \<Rightarrow> db \<Rightarrow> int option result" where
  "validateTerminalDeliveryProof t d = (if fp_deliveryKind t = ''none'' then Inr None
     else case fp_deliveryOpId t of None \<Rightarrow> Inl (Error ''Terminal delivery evidence requires a durable op'')
     | Some k \<Rightarrow> (case get_op d k of None \<Rightarrow> Inl (Error ''Selected delivery outbound op does not exist'')
       | Some r \<Rightarrow> throw_if (op_conversation_key r \<noteq> fp_conversationKey t \<or> op_chat_jid r \<noteq> fp_deliveryJid t
             \<or> op_source_inbound_seq r \<noteq> fp_inboundSeq t)
           (Error ''Selected outbound identity does not match terminal identity'')
         (throw_if (DELIVERY_STATUS_PROOF (fp_deliveryKind t) \<noteq> Some (op_status r))
           (Error ''The status does not prove the delivery evidence'') (Inr (Some k)))))"

definition runTerminalInboundMutation :: "inbound_mutation \<Rightarrow> terminal_params \<Rightarrow> int \<Rightarrow> db \<Rightarrow> db result" where
  "runTerminalInboundMutation m t now d =
     and_then (check_inbound_row t (get_inbound d (mutation_seq m))) (\<lambda>r. case m of
       Im_complete k reason \<Rightarrow>
         and_then (if ie_processing_status r = Is_processing then markTurnDone k d else Inr d) (\<lambda>d1.
         and_then (markInboundComplete k reason now d1) (\<lambda>(d2, changed).
            throw_if (\<not> changed) (Error ''Selected inbound completion did not update exactly one row'') (Inr d2)))
     | Im_failed k c \<Rightarrow>
         and_then (markInboundFailed k c now d) (\<lambda>(d2, changed).
            throw_if (\<not> changed) (Error ''Selected inbound failure did not update exactly one row'') (Inr d2)))"

section \<open>Finalization\<close>

definition capabilityDecisionLostEvent :: "decision_params \<Rightarrow> error \<Rightarrow> decision_params" where
  "capabilityDecisionLostEvent decision err = \<lparr>dp_auditEvent = \<lparr>ev_action = Ea_not_created, ev_actorType = Runtime,
     ev_actorId = None, ev_reasonCode = Some ''not_created_decision_lost_on_retry'',
     ev_sourceHash = ev_sourceHash (dp_auditEvent decision), ev_claimEpoch = None,
     ev_detail = Lost_decision (ev_action (dp_auditEvent decision)) (ev_reasonCode (dp_auditEvent decision)) err\<rparr>,
     dp_obligation = None\<rparr>"

definition applyCapabilityDecisionBestEffort ::
  "decision_params \<Rightarrow> int \<Rightarrow> capability_db \<Rightarrow> capability_db \<times> (int \<times> int option) option" where
  "applyCapabilityDecisionBestEffort decision now c = (case applyDecisionWithinCallerTransaction decision now c of
     Inr (c', out) \<Rightarrow> (c', Some out)
   | Inl e \<Rightarrow> (case applyDecisionWithinCallerTransaction (capabilityDecisionLostEvent decision e) now c of
       Inr (c', out) \<Rightarrow> (c', Some out) | Inl _ \<Rightarrow> (c, None)))"

definition apply_decision ::
  "finalize_params \<Rightarrow> int \<Rightarrow> capability_db \<Rightarrow> (capability_db \<times> (int \<times> int option) option) result" where
  "apply_decision p now c = (case fz_capabilityDecision p of None \<Rightarrow> Inr (c, None)
     | Some decision \<Rightarrow> if fz_bestEffort p then Inr (applyCapabilityDecisionBestEffort decision now c)
         else and_then (applyDecisionWithinCallerTransaction decision now c) (\<lambda>(c', out). Inr (c', Some out)))"

text \<open>What the winner writes besides its record.\<close>

definition finalize_winner :: "finalize_params \<Rightarrow> int \<Rightarrow> int \<Rightarrow> db \<Rightarrow> capability_db
    \<Rightarrow> (db \<times> capability_db \<times> enqueue_result option \<times> (int \<times> int option) option) result" where
  "finalize_winner q recordId now d c =
     and_then (validateTerminalInboundProof q d) (\<lambda>_.
     and_then (validateTerminalDeliveryProof (fz_terminal q) d) (\<lambda>deliveryOp.
     and_then (case fz_recoveryJob q of None \<Rightarrow> Inr (d, None)
       | Some job \<Rightarrow> and_then (insertLinkedWithinCallerTransaction recordId job now d) (\<lambda>(d1, r). Inr (d1, Some r))) (\<lambda>(d1, recoveryJob).
     and_then (apply_decision q now c) (\<lambda>(c', decision).
     and_then (case fz_bookkeeping q of None \<Rightarrow> Inr d1 | Some b \<Rightarrow> runTurnBookkeeping b now d1) (\<lambda>d2.
     and_then (case fz_inbound q of None \<Rightarrow> Inr d2
       | Some m \<Rightarrow> runTerminalInboundMutation m (fz_terminal q) now d2) (\<lambda>d3.
     case deliveryOp of None \<Rightarrow> Inr (d3, c', recoveryJob, decision)
     | Some k \<Rightarrow> and_then (runMarkTerminal k d3) (\<lambda>(d4, changed).
         throw_if (\<not> changed) (Error ''Selected terminal outbound op does not exist'')
           (Inr (d4, c', recoveryJob, decision)))))))))"

text \<open>A later request for the same turn only learns whether it is the winner's.\<close>

definition finalize_duplicate :: "finalize_params \<Rightarrow> db \<Rightarrow> (db \<times> bool \<times> enqueue_result option) result" where
  "finalize_duplicate q d = (let t = fz_terminal q in
     case getTurnTerminal (fp_inboundSeq t) (fp_logicalTurnId t) (fp_generation t) d of
       None \<Rightarrow> Inr (d, False, None)
     | Some winner \<Rightarrow> if \<not> terminalRecordMatches winner t then Inr (d, False, None)
         else (case fz_recoveryJob q of None \<Rightarrow> Inr (d, True, None)
           | Some job \<Rightarrow> and_then (findExactLinkedReceipt (tt_id winner) job d)
               (\<lambda>(d', receipt). Inr (d', receipt \<noteq> None, receipt))))"

record finalize_result =
  fr_record :: record_result
  fr_winnerMatchesRequest :: bool
  fr_effectiveDisarmed :: bool
  fr_recoveryJob :: "enqueue_result option"
  fr_capabilityDecision :: "(int \<times> int option) option"

definition finalize_outcome ::
  "terminal_params \<Rightarrow> record_result \<Rightarrow> bool \<Rightarrow> enqueue_result option \<Rightarrow> (int \<times> int option) option \<Rightarrow> finalize_result" where
  "finalize_outcome t result matches recoveryJob decision = (let disarmed = matches \<and> rt_replyGuaranteeDisarmed result in
     \<lparr>fr_record = result\<lparr>rt_replyGuaranteeDisarmed := disarmed\<rparr>, fr_winnerMatchesRequest = matches,
      fr_effectiveDisarmed = (disarmed \<or> (matches \<and> is_transfer t \<and> fp_deliveryKind t \<noteq> ''delivery_unknown''
        \<and> recoveryJob \<noteq> None)),
      fr_recoveryJob = recoveryJob, fr_capabilityDecision = decision\<rparr>)"

definition finalize_body ::
  "finalize_params \<Rightarrow> int \<Rightarrow> db \<Rightarrow> capability_db \<Rightarrow> ((db \<times> capability_db) \<times> finalize_result) result" where
  "finalize_body q now d c = and_then (runRecordTurnTerminal (fz_terminal q) now d) (\<lambda>(d1, result).
     if rt_applied result
     then and_then (finalize_winner q (rt_recordId result) now d1 c) (\<lambda>(d2, c2, recoveryJob, decision).
       Inr ((d2, c2), finalize_outcome (fz_terminal q) result True recoveryJob decision))
     else and_then (finalize_duplicate q d1) (\<lambda>(d2, matches, recoveryJob).
       Inr ((d2, c), finalize_outcome (fz_terminal q) result matches recoveryJob None)))"

definition finalizeTurnTerminal ::
  "finalize_params \<Rightarrow> int \<Rightarrow> db \<times> capability_db \<Rightarrow> (db \<times> capability_db) \<times> finalize_result result" where
  "finalizeTurnTerminal p now s = (case s of (d, c) \<Rightarrow>
     (case and_then (normalizeFinalizeTurnTerminalParams p) (\<lambda>q. finalize_body q now d c) of
        Inl e \<Rightarrow> (s, Inl e) | Inr (s', out) \<Rightarrow> (s', Inr out)))"

end
