(* ===== verification/FinalizeLaws.thy ===== *)
theory FinalizeLaws
  imports FinalizeTurn
begin

text \<open>
  What finalization guarantees: a normalized request satisfies the constraints of the table and implies
  exactly the inbound mutation it carries; the winner closes its inbound event, proves and settles its
  delivery and leaves a visible recovery job; a later request changes nothing but duplicate counters.
\<close>

section \<open>Normalized requests\<close>

lemma normalizeE:
  assumes "normalizeFinalizeTurnTerminalParams p = Inr q"
  obtains ns b where "check_identity p = Inr ns" "check_attempt (fz_terminal p) = Inr ()" "check_delivery p = Inr ()"
    "check_disposition p = Inr ()" "check_owner p = Inr ()" "check_job p = Inr ()"
    "q = p\<lparr>fz_terminal := normalized_terminal (fz_terminal p), fz_bookkeeping := b\<rparr>"
    "b = fz_bookkeeping p \<and> Option.bind b bk_checkpoint = None \<or>
     (\<exists>b0 key f f'. fz_bookkeeping p = Some b0 \<and> bk_checkpoint b0 = Some (key, f)
        \<and> normalize_checkpoint p ns f = Inr f' \<and> b = Some (b0\<lparr>bk_checkpoint := Some (key, f')\<rparr>))"
proof -
  from assms obtain ns where c: "check_identity p = Inr ns" "check_attempt (fz_terminal p) = Inr ()" "check_delivery p = Inr ()"
    "check_disposition p = Inr ()" "check_owner p = Inr ()" "check_job p = Inr ()"
    by (auto simp: normalizeFinalizeTurnTerminalParams_def Let_def and_then_Inr)
  have same: "p\<lparr>fz_terminal := x, fz_bookkeeping := fz_bookkeeping p\<rparr> = p\<lparr>fz_terminal := x\<rparr>" for x by simp
  show ?thesis
  proof (cases "Option.bind (fz_bookkeeping p) bk_checkpoint")
    case None
    with assms c have "q = p\<lparr>fz_terminal := normalized_terminal (fz_terminal p)\<rparr>"
      by (auto simp: normalizeFinalizeTurnTerminalParams_def Let_def split: option.splits)
    with None show ?thesis by (intro that [OF c, of "fz_bookkeeping p"]) (simp_all only: same simp_thms)
  next
    case (Some kf)
    then obtain b0 key f where b: "fz_bookkeeping p = Some b0" "bk_checkpoint b0 = Some (key, f)" "kf = (key, f)"
      by (cases kf) (auto simp: bind_eq_Some_conv)
    with assms c obtain f' where "normalize_checkpoint p ns f = Inr f'"
      "q = p\<lparr>fz_terminal := normalized_terminal (fz_terminal p), fz_bookkeeping := Some (b0\<lparr>bk_checkpoint := Some (key, f')\<rparr>)\<rparr>"
      by (auto simp: normalizeFinalizeTurnTerminalParams_def Let_def and_then_Inr)
    with b show ?thesis by (intro that [OF c]) auto
  qed
qed

lemma normalized_terminal_sel [simp]:
  "fp_scope (normalized_terminal t) = fp_scope t" "fp_conversationKey (normalized_terminal t) = fp_conversationKey t"
  "fp_deliveryJid (normalized_terminal t) = fp_deliveryJid t" "fp_inboundSeq (normalized_terminal t) = fp_inboundSeq t"
  "fp_logicalTurnId (normalized_terminal t) = fp_logicalTurnId t" "fp_managerId (normalized_terminal t) = fp_managerId t"
  "fp_generation (normalized_terminal t) = fp_generation t" "fp_attemptKind (normalized_terminal t) = fp_attemptKind t"
  "fp_attemptFailureClass (normalized_terminal t) = fp_attemptFailureClass t"
  "fp_inboundDisposition (normalized_terminal t) = fp_inboundDisposition t"
  "fp_deliveryKind (normalized_terminal t) = fp_deliveryKind t" "fp_deliveryOpId (normalized_terminal t) = fp_deliveryOpId t"
  "fp_ownerLogicalTurnId (normalized_terminal t) = fp_ownerLogicalTurnId t"
  "fp_ownerManagerId (normalized_terminal t) = fp_ownerManagerId t"
  "fp_ownerGeneration (normalized_terminal t) = fp_ownerGeneration t"
  "normalized_terminal (normalized_terminal t) = normalized_terminal t"
  "is_transfer (normalized_terminal t) = is_transfer t" "no_reply_reason (normalized_terminal t) = no_reply_reason t"
  "expectedTerminalInboundFailureClass (normalized_terminal t) = expectedTerminalInboundFailureClass t"
  "expected_flushed (normalized_terminal t) = expected_flushed t"
  by (simp_all add: normalized_terminal_def is_transfer_def no_reply_reason_def expectedTerminalInboundFailureClass_def
      expected_flushed_def cong: option.case_cong)

text \<open>The axes of a request are read from fields the normalization keeps.\<close>

lemma derived_mutation:
  assumes "check_delivery p = Inr ()" "check_disposition p = Inr ()"
  shows "deriveTerminalInboundMutation (fz_terminal p) = Inr (fz_inbound p)"
proof -
  let ?t = "fz_terminal p"
  have seq: "fp_inboundSeq ?t = Some (mutation_seq m)" if "fz_inbound p = Some m" for m
    using assms(1) that by (auto simp: check_delivery_def Let_def throw_if_Inr)
  show ?thesis
  proof (cases "fp_inboundSeq ?t")
    case None
    with seq have "fz_inbound p = None" by (cases "fz_inbound p") auto
    with None show ?thesis by (simp add: deriveTerminalInboundMutation_def)
  next
    case (Some k)
    have m: "mutation_seq m = k" if "fz_inbound p = Some m" for m using seq [OF that] Some by simp
    have completes: "fz_inbound p = Some (Im_complete k r)" if "completes_with r p" for r
      using that Some m by (auto simp: completes_with_def split: option.splits inbound_mutation.splits)
    show ?thesis
    proof (cases "fp_inboundDisposition ?t = ''failed_terminal''")
      case True
      with assms(2) Some obtain k' expected where e: "expectedTerminalInboundFailureClass ?t = Inr expected"
        "fz_inbound p = Some (Im_failed k' expected)"
        by (cases "fz_inbound p"; cases "the (fz_inbound p)") (auto simp: check_disposition_def Let_def throw_if_Inr and_then_Inr)
      with m [OF e(2)] True Some show ?thesis by (simp add: deriveTerminalInboundMutation_def)
    next
      case False
      with assms(2) Some completes show ?thesis
        by (auto simp: check_disposition_def deriveTerminalInboundMutation_def Let_def throw_if_Inr and_then_Inr
            split: if_splits)
    qed
  qed
qed

lemma normalized_row_checks:
  assumes "check_identity p = Inr ns" "check_delivery p = Inr ()" "check_disposition p = Inr ()" "check_owner p = Inr ()"
  shows "terminal_checks (terminal_row i (normalized_terminal (fz_terminal p)))"
proof -
  let ?t = "fz_terminal p"
  have "positive_safe k" if "fp_inboundSeq ?t = Some k" for k
    using assms(1) that by (auto simp: check_identity_def Let_def throw_if_Inr and_then_Inr validatePositiveSafeInteger_iff split: option.splits)
  then have "case fp_inboundSeq ?t of None \<Rightarrow> True | Some k \<Rightarrow> 0 < k"
    by (force simp: positive_safe_def split: option.split)
  moreover have "owner_coherent (terminal_row i (normalized_terminal ?t))"
  proof (cases "is_transfer ?t")
    case True
    with assms(4) obtain a b c where o: "fp_ownerLogicalTurnId ?t = Some a" "fp_ownerManagerId ?t = Some b" "fp_ownerGeneration ?t = Some c"
      "bounded_id a" "bounded_id b" "positive_safe c"
      by (auto simp: check_owner_def Let_def throw_if_Inr and_then_Inr validate_id_def validateBoundedRequired_iff validatePositiveSafeInteger_iff)
    then show ?thesis using True
      by (simp add: owner_coherent_def terminal_row_def is_transfer_def bounded_id_def nonempty_required positive_safe_def)
  next
    case False
    with assms(4) have "fp_ownerLogicalTurnId ?t = None \<and> fp_ownerManagerId ?t = None \<and> fp_ownerGeneration ?t = None"
      by (simp add: check_owner_def Let_def throw_if_Inr and_then_Inr)
    with False show ?thesis by (simp add: owner_coherent_def terminal_row_def is_transfer_def)
  qed
  moreover have "fp_deliveryKind ?t = ''delivery_unknown'' \<Longrightarrow> fp_inboundDisposition ?t \<noteq> ''finalized_no_reply_policy''"
    using assms(2) by (auto simp: check_delivery_def Let_def throw_if_Inr)
  ultimately show ?thesis by (auto simp: terminal_checks_def terminal_row_def normalized_terminal_def)
qed

lemma checks_keep:
  fixes p b
  defines "q \<equiv> p\<lparr>fz_terminal := normalized_terminal (fz_terminal p), fz_bookkeeping := b\<rparr>"
  shows "check_identity q = check_identity p" "check_attempt (fz_terminal q) = check_attempt (fz_terminal p)"
    "check_delivery q = check_delivery p" "check_disposition q = check_disposition p" "check_job q = check_job p"
    "map_option fst (Option.bind b bk_checkpoint) = map_option fst (Option.bind (fz_bookkeeping p) bk_checkpoint) \<Longrightarrow>
     Option.bind b bk_lastOpId = Option.bind (fz_bookkeeping p) bk_lastOpId \<Longrightarrow> check_owner q = check_owner p"
proof -
  show "check_identity q = check_identity p" by (simp add: q_def check_identity_def Let_def cong: option.case_cong)
  show "check_attempt (fz_terminal q) = check_attempt (fz_terminal p)" by (simp add: q_def check_attempt_def cong: option.case_cong)
  show "check_delivery q = check_delivery p" by (simp add: q_def check_delivery_def Let_def cong: option.case_cong)
  have e1: "completes_with r q = completes_with r p" for r by (simp add: q_def completes_with_def cong: option.case_cong)
  have e2: "fz_terminal q = normalized_terminal (fz_terminal p)" "fz_inbound q = fz_inbound p" by (simp_all add: q_def)
  show "check_disposition q = check_disposition p" unfolding check_disposition_def Let_def e1 e2 by simp
  show "check_job q = check_job p" by (simp add: q_def check_job_def Let_def cong: option.case_cong)
  assume keys: "map_option fst (Option.bind b bk_checkpoint) = map_option fst (Option.bind (fz_bookkeeping p) bk_checkpoint)"
    and ops: "Option.bind b bk_lastOpId = Option.bind (fz_bookkeeping p) bk_lastOpId"
  have e3: "fz_bookkeeping q = b" by (simp add: q_def)
  have key: "(case x of None \<Rightarrow> False | Some (key, _) \<Rightarrow> key \<noteq> c) = (case map_option fst x of None \<Rightarrow> False | Some key \<Rightarrow> key \<noteq> c)" for x :: "(string \<times> checkpoint_fields) option" and c
    by (cases x) auto
  show "check_owner q = check_owner p" unfolding check_owner_def Let_def key e2 e3 keys ops normalized_terminal_sel by (rule refl)
qed

lemma or_else_or_else [simp]: "or_else x (or_else x y) = or_else x y"
  by (simp add: or_else_def split: option.split)

lemma contradicts_or_else: "\<not> contradicts g x \<Longrightarrow> \<not> contradicts (or_else x g) x"
  by (cases x) (auto simp: contradicts_def or_else_def)

lemma normalize_checkpoint_again:
  assumes "normalize_checkpoint p ns f = Inr f'"
  shows "normalize_checkpoint (p\<lparr>fz_terminal := normalized_terminal (fz_terminal p), fz_bookkeeping := b\<rparr>) ns f' = Inr f'"
proof -
  let ?t = "fz_terminal p"
  let ?q = "p\<lparr>fz_terminal := normalized_terminal ?t, fz_bookkeeping := b\<rparr>"
  have filled: "filled_fields (normalized_terminal ?t) f = filled_fields ?t f" for f by (simp add: filled_fields_def)
  have ident: "with_identity (normalized_terminal ?t) ns k f = with_identity ?t ns k f"
    "identity_contradicts (normalized_terminal ?t) ns k f = identity_contradicts ?t ns k f" for k f
    by (simp_all add: with_identity_def identity_contradicts_def)
  from assms have base: "sf_activeTurnId f = None" "\<not> contradicts (sf_lastInboundSeq f) (fp_inboundSeq ?t)"
    "\<not> contradicts (sf_lastFlushedOutboundId f) (expected_flushed ?t)"
    "\<not> (fz_inbound p = None \<and> list_ex id (identity_bundle f))"
    "\<not> (fp_attemptKind ?t = ''admission_rejected'' \<and> list_ex id (identity_bundle f))"
    by (simp_all add: normalize_checkpoint_def Let_def throw_if_Inr)
  have same_bundle: "identity_bundle (filled_fields ?t f) = identity_bundle f"
    by (simp add: identity_bundle_def filled_fields_def)
  have again: "filled_fields ?t (filled_fields ?t f) = filled_fields ?t f" by (simp add: filled_fields_def)
  have kept: "sf_activeTurnId (filled_fields ?t f) = None"
    "\<not> contradicts (sf_lastInboundSeq (filled_fields ?t f)) (fp_inboundSeq ?t)"
    "\<not> contradicts (sf_lastFlushedOutboundId (filled_fields ?t f)) (expected_flushed ?t)"
    using base(2,3) by (simp_all add: filled_fields_def contradicts_or_else)
  show ?thesis
  proof (cases "fp_inboundSeq ?t = None \<or> fz_inbound p = None \<or> fp_attemptKind ?t = ''admission_rejected''")
    case True
    with assms have f': "f' = filled_fields ?t f"
      by (auto simp: normalize_checkpoint_def Let_def throw_if_Inr split: option.splits)
    show ?thesis using True kept base(4,5) unfolding f'
      by (auto simp: normalize_checkpoint_def Let_def throw_if_Inr filled again same_bundle split: option.splits)
  next
    case False
    then obtain k where k: "fp_inboundSeq ?t = Some k" by auto
    from assms False k have f': "f' = with_identity ?t ns k (filled_fields ?t f)"
      and valid: "validateCompletedCheckpointIdentity (with_identity ?t ns k no_identity) = Inr ()"
      by (auto simp: normalize_checkpoint_def Let_def throw_if_Inr and_then_Inr)
    have w: "sf_activeTurnId f' = None" "\<not> contradicts (sf_lastInboundSeq f') (fp_inboundSeq ?t)"
      "\<not> contradicts (sf_lastFlushedOutboundId f') (expected_flushed ?t)" "\<not> identity_contradicts ?t ns k f'"
      "with_identity ?t ns k (filled_fields ?t f') = f'"
      using kept again by (simp_all add: f' with_identity_def identity_contradicts_def contradicts_def filled_fields_def)
    from False obtain m where "fz_inbound p = Some m" by auto
    then show ?thesis using False k w valid
      by (simp add: normalize_checkpoint_def Let_def throw_if_Inr filled ident)
  qed
qed

lemma normalize_again:
  assumes "normalizeFinalizeTurnTerminalParams p = Inr q"
  shows "normalizeFinalizeTurnTerminalParams q = Inr q"
  using assms
proof (cases rule: normalizeE)
  case (1 ns b)
  have keys: "map_option fst (Option.bind b bk_checkpoint) = map_option fst (Option.bind (fz_bookkeeping p) bk_checkpoint)"
    "Option.bind b bk_lastOpId = Option.bind (fz_bookkeeping p) bk_lastOpId" using 1(8) by auto
  note kept = checks_keep [where p = p and b = b, folded 1(7)]
  have c: "check_identity q = Inr ns" "check_attempt (fz_terminal q) = Inr ()" "check_delivery q = Inr ()"
    "check_disposition q = Inr ()" "check_owner q = Inr ()" "check_job q = Inr ()"
    using 1(1-6) kept(1-5) kept(6) [OF keys] by simp_all
  have t: "fz_terminal q = normalized_terminal (fz_terminal p)" "fz_bookkeeping q = b" "normalized_terminal (fz_terminal q) = fz_terminal q"
    using 1(7) by simp_all
  have same: "q\<lparr>fz_terminal := fz_terminal q\<rparr> = q" "q\<lparr>fz_bookkeeping := fz_bookkeeping q\<rparr> = q" by simp_all
  from 1(8) show ?thesis
  proof
    assume "b = fz_bookkeeping p \<and> Option.bind b bk_checkpoint = None"
    then consider "fz_bookkeeping q = None" | a where "fz_bookkeeping q = Some a" "bk_checkpoint a = None"
      unfolding t(2) by (cases "fz_bookkeeping p") auto
    then show ?thesis using c
      by cases (simp_all add: normalizeFinalizeTurnTerminalParams_def Let_def t(3) same)
  next
    assume "\<exists>b0 key f f'. fz_bookkeeping p = Some b0 \<and> bk_checkpoint b0 = Some (key, f)
        \<and> normalize_checkpoint p ns f = Inr f' \<and> b = Some (b0\<lparr>bk_checkpoint := Some (key, f')\<rparr>)"
    then obtain b0 key f f' where b: "normalize_checkpoint p ns f = Inr f'" "b = Some (b0\<lparr>bk_checkpoint := Some (key, f')\<rparr>)" by blast
    from normalize_checkpoint_again [OF b(1), of b] have "normalize_checkpoint q ns f' = Inr f'" unfolding 1(7) .
    moreover have "q\<lparr>fz_bookkeeping := Some (b0\<lparr>bk_checkpoint := Some (key, f')\<rparr>)\<rparr> = q" using t(2) b(2) same(2) by simp
    ultimately show ?thesis using c t(2) b(2)
      by (simp add: normalizeFinalizeTurnTerminalParams_def Let_def t(3) same)
  qed
qed

section \<open>What each stage leaves alone\<close>

lemma upsert_frame: "runUpsertSessionCheckpoint key f d = Inr d' \<Longrightarrow> \<exists>cs. d' = d\<lparr>checkpoints := cs\<rparr>"
  by (auto simp: runUpsertSessionCheckpoint_def and_then_Inr split: if_splits)

lemma tokens_frame: "accumulate_tokens k now d = Inr d' \<Longrightarrow> \<exists>as es. d' = d\<lparr>agent_sessions := as, token_events := es\<rparr>"
  by (auto simp: accumulate_tokens_def throw_if_Inr)

lemma bookkeeping_frame:
  assumes "runTurnBookkeeping b now d = Inr d'"
  shows "inbound_events d' = inbound_events d \<and> outbound_ops d' = outbound_ops d
    \<and> terminal_records d' = terminal_records d \<and> recovery_jobs d' = recovery_jobs d
    \<and> last_op_id d' = last_op_id d \<and> last_seq d' = last_seq d \<and> last_terminal_id d' = last_terminal_id d
    \<and> last_job_id d' = last_job_id d"
proof -
  from assms obtain d1 where d1: "(case bk_sessionTokens b of None \<Rightarrow> Inr d | Some k \<Rightarrow> accumulate_tokens k now d) = Inr d1"
    "(case bk_checkpoint b of None \<Rightarrow> Inr d1 | Some (key, f) \<Rightarrow> runUpsertSessionCheckpoint key f d1) = Inr d'"
    by (auto simp: runTurnBookkeeping_def and_then_Inr)
  then show ?thesis by (auto split: option.splits dest!: tokens_frame upsert_frame)
qed

definition closed_row :: "inbound_mutation \<Rightarrow> int \<Rightarrow> inbound_event \<Rightarrow> inbound_event" where
  "closed_row m now r = (case m of
     Im_complete _ reason \<Rightarrow> r\<lparr>ie_processing_status := Is_complete, ie_completed_at := Some now, ie_terminal_reason := Some reason\<rparr>
   | Im_failed _ c \<Rightarrow> r\<lparr>ie_processing_status := Is_failed, ie_completed_at := Some now,
       ie_terminal_reason := Some ''error'', ie_failure_class := Some c\<rparr>)"

lemma open_not_lost: "open_inbound r \<Longrightarrow> \<not> scheduled_turn_loss_row r"
  by (auto simp: open_inbound_def scheduled_turn_loss_row_def)

lemma check_inbound_rowD:
  assumes "check_inbound_row t row = Inr r"
  shows "row = Some r \<and> ie_conversation_key r = fp_conversationKey t \<and> ie_chat_jid r = fp_deliveryJid t \<and> open_inbound r"
  using assms by (auto simp: check_inbound_row_def throw_if_Inr split: option.splits)

lemma inbound_mutation_closes:
  assumes "wf_db d" "runTerminalInboundMutation m t now d = Inr d'"
  obtains r es where "get_inbound d (mutation_seq m) = Some r" "open_inbound r" "ie_conversation_key r = fp_conversationKey t"
    "ie_chat_jid r = fp_deliveryJid t" "get_inbound d' (mutation_seq m) = Some (closed_row m now r)"
    "d' = d\<lparr>inbound_events := es\<rparr>" "wf_db d'"
proof -
  from assms(2) obtain r where c: "check_inbound_row t (get_inbound d (mutation_seq m)) = Inr r"
    by (auto simp: runTerminalInboundMutation_def and_then_Inr)
  note r = check_inbound_rowD [OF c]
  have keep: "keeps_id ie_seq (\<lambda>r. r\<lparr>ie_processing_status := s\<rparr>)"
    "keeps_id ie_seq (\<lambda>r. r\<lparr>ie_processing_status := s, ie_completed_at := a, ie_terminal_reason := b\<rparr>)"
    "keeps_id ie_seq (\<lambda>r. r\<lparr>ie_processing_status := s, ie_completed_at := a, ie_terminal_reason := b, ie_failure_class := e\<rparr>)"
    for s a b e by (simp_all add: keeps_id_def)
  show ?thesis
  proof (cases m)
    case (Im_complete k reason)
    from assms(2) c Im_complete obtain d1 where
      d1: "(if ie_processing_status r = Is_processing then markTurnDone k d else Inr d) = Inr d1"
      and run: "markInboundComplete k reason now d1 = Inr (d', True)"
      by (auto simp: runTerminalInboundMutation_def and_then_Inr throw_if_Inr)
    have t1: "d1 = d \<or> d1 = fst (cas_inbound (\<lambda>r. \<not> scheduled_turn_loss_row r) (\<lambda>r. r\<lparr>ie_processing_status := Is_turn_done\<rparr>) k d)"
      using d1 markTurnDoneD by (auto split: if_splits)
    have wf1: "wf_db d1" using t1 assms(1) inbounds.wf_cas [OF assms(1) keep(1)] by blast
    have get1: "\<exists>r1. get_inbound d1 k = Some r1 \<and> open_inbound r1 \<and> closed_row m now r1 = closed_row m now r"
      using t1 r Im_complete inbounds.get_cas [OF assms(1) keep(1)] open_not_lost [of r]
      by (auto simp: closed_row_def open_inbound_def)
    then obtain r1 where r1: "get_inbound d1 k = Some r1" "open_inbound r1" "closed_row m now r1 = closed_row m now r" by blast
    note d' = pair_fst [OF inbound_writerD(1) [OF run]]
    have "get_inbound d' k = Some (closed_row m now r1)"
      unfolding d' using r1(1) open_not_lost [OF r1(2)] inbounds.get_cas [OF wf1 keep(2)] Im_complete
      by (simp add: closed_row_def)
    moreover have "wf_db d'" unfolding d' by (rule inbounds.wf_cas [OF wf1 keep(2)])
    moreover have "\<exists>es. d' = d\<lparr>inbound_events := es\<rparr>"
    proof -
      from t1 inbound_self [of d] cas_inbound_table obtain es1 where "d1 = d\<lparr>inbound_events := es1\<rparr>" by metis
      moreover from d' cas_inbound_table obtain es2 where "d' = d1\<lparr>inbound_events := es2\<rparr>" by metis
      ultimately show ?thesis by auto
    qed
    ultimately show ?thesis using r r1(3) Im_complete by (auto intro: that)
  next
    case (Im_failed k c)
    from assms(2) \<open>check_inbound_row t (get_inbound d (mutation_seq m)) = Inr r\<close> Im_failed
    have run: "markInboundFailed k c now d = Inr (d', True)"
      by (auto simp: runTerminalInboundMutation_def and_then_Inr throw_if_Inr)
    note d' = pair_fst [OF inbound_writerD(3) [OF run]]
    have "get_inbound d' k = Some (closed_row m now r)"
      unfolding d' using r open_not_lost [of r] inbounds.get_cas [OF assms(1) keep(3)] Im_failed
      by (simp add: closed_row_def)
    moreover have "wf_db d'" unfolding d' by (rule inbounds.wf_cas [OF assms(1) keep(3)])
    moreover have "\<exists>es. d' = d\<lparr>inbound_events := es\<rparr>" unfolding d' by (rule cas_inbound_table)
    ultimately show ?thesis using r Im_failed by (auto intro: that)
  qed
qed

section \<open>The winner\<close>

lemma record_applied:
  assumes "runRecordTurnTerminal t now d = Inr (d1, r)" "rt_applied r" "wf_db d"
  shows "d1 = d\<lparr>terminal_records := terminal_records d @ [terminal_row (rt_recordId r) t], last_terminal_id := rt_recordId r\<rparr>"
    "rt_recordId r = last_terminal_id d + 1" "wf_db d1" "get_terminal d1 (rt_recordId r) = Some (terminal_row (rt_recordId r) t)"
    "find (terminal_keyed (fp_inboundSeq t) (fp_logicalTurnId t) (fp_generation t)) (terminal_records d) = None"
    "rt_replyGuaranteeDisarmed r = fp_replyGuaranteeDisarmed t"
proof -
  have e: "d1 = d\<lparr>terminal_records := terminal_records d @ [terminal_row (rt_recordId r) t], last_terminal_id := rt_recordId r\<rparr>
    \<and> rt_recordId r = last_terminal_id d + 1
    \<and> find (terminal_keyed (fp_inboundSeq t) (fp_logicalTurnId t) (fp_generation t)) (terminal_records d) = None
    \<and> rt_replyGuaranteeDisarmed r = fp_replyGuaranteeDisarmed t"
    using assms(1,2) by (auto simp: runRecordTurnTerminal_def Let_def throw_if_Inr terminal_row_def split: option.splits)
  then show "d1 = d\<lparr>terminal_records := terminal_records d @ [terminal_row (rt_recordId r) t], last_terminal_id := rt_recordId r\<rparr>"
    "rt_recordId r = last_terminal_id d + 1"
    "find (terminal_keyed (fp_inboundSeq t) (fp_logicalTurnId t) (fp_generation t)) (terminal_records d) = None"
    "rt_replyGuaranteeDisarmed r = fp_replyGuaranteeDisarmed t" by simp_all
  have k: "keys_ok (map tt_id (terminal_records d)) (last_terminal_id d)" using assms(3) by (simp add: wf_db_def)
  then have "keys_ok (map tt_id (terminal_records d1)) (last_terminal_id d1)"
    using e keys_ok_append [OF k] by (simp add: terminal_row_def)
  then show "wf_db d1" using assms(3) e by (simp add: wf_db_def)
  have "find (\<lambda>r'. tt_id r' = rt_recordId r) (terminal_records d) = None"
    using k e by (auto simp: find_None_iff keys_ok_def list_all_iff)
  then show "get_terminal d1 (rt_recordId r) = Some (terminal_row (rt_recordId r) t)"
    using e by (simp add: get_terminal_def find_append terminal_row_def)
qed

lemma insert_linked:
  assumes "insertLinkedWithinCallerTransaction i job now d = Inr (d', r)"
  shows "d' = d\<lparr>recovery_jobs := recovery_jobs d @ [new_job (last_job_id d + 1) i job now], last_job_id := last_job_id d + 1\<rparr>"
    "\<not> job_key_taken d i job" "validateTurnRecoveryJob job = Inr ()"
  using assms by (auto simp: insertLinkedWithinCallerTransaction_def Let_def throw_if_Inr and_then_Inr)

lemma wf_insert_linked:
  assumes "wf_db d"
  shows "wf_db (d\<lparr>recovery_jobs := recovery_jobs d @ [new_job (last_job_id d + 1) i job now], last_job_id := last_job_id d + 1\<rparr>)"
proof -
  have "keys_ok (map rj_id (recovery_jobs d)) (last_job_id d)" using assms by (simp add: wf_db_def)
  from keys_ok_append [OF this] assms show ?thesis by (simp add: wf_db_def new_job_def)
qed

lemma new_job_matches: "recoveryJobMatches (new_job k i job now) job"
  by (simp add: recoveryJobMatches_def new_job_def)

text \<open>What the database shows of a finalized turn.\<close>

definition inbound_closed :: "finalize_params \<Rightarrow> int \<Rightarrow> db \<Rightarrow> db \<Rightarrow> bool" where
  "inbound_closed q now d d' \<longleftrightarrow> (\<forall>m. fz_inbound q = Some m \<longrightarrow> (\<exists>r. get_inbound d (mutation_seq m) = Some r
     \<and> open_inbound r \<and> ie_conversation_key r = fp_conversationKey (fz_terminal q)
     \<and> ie_chat_jid r = fp_deliveryJid (fz_terminal q)
     \<and> get_inbound d' (mutation_seq m) = Some (closed_row m now r)))"

definition delivery_settled :: "finalize_params \<Rightarrow> db \<Rightarrow> bool" where
  "delivery_settled q d \<longleftrightarrow> fp_deliveryKind (fz_terminal q) = ''none'' \<or>
     (\<exists>k r. fp_deliveryOpId (fz_terminal q) = Some k \<and> get_op d k = Some r \<and> op_is_terminal r
       \<and> DELIVERY_STATUS_PROOF (fp_deliveryKind (fz_terminal q)) = Some (op_status r)
       \<and> op_conversation_key r = fp_conversationKey (fz_terminal q) \<and> op_chat_jid r = fp_deliveryJid (fz_terminal q)
       \<and> op_source_inbound_seq r = fp_inboundSeq (fz_terminal q))"

definition transfer_visible :: "finalize_params \<Rightarrow> int \<Rightarrow> db \<Rightarrow> bool" where
  "transfer_visible q i d \<longleftrightarrow> (is_transfer (fz_terminal q) \<longrightarrow> (\<exists>job j. fz_recoveryJob q = Some job
     \<and> j \<in> set (recovery_jobs d) \<and> rj_terminal_record_id j = i \<and> recoveryJobMatches j job \<and> valid_links d j \<noteq> None))"

lemma transfer_links:
  assumes "check_delivery q = Inr ()" "check_disposition q = Inr ()" "check_job q = Inr ()" "is_transfer (fz_terminal q)"
    "get_terminal d i = Some (terminal_row i (fz_terminal q))" "fz_recoveryJob q = Some job" "j = new_job n i job now"
    "fp_inboundSeq (fz_terminal q) = Some k" "get_inbound d k = Some e" "ie_message_id e = jp_sourceMessageId job"
    "ie_conversation_key e = fp_conversationKey (fz_terminal q)" "ie_chat_jid e = fp_deliveryJid (fz_terminal q)"
    "fp_deliveryOpId (fz_terminal q) = Some m" "get_op d m = Some r" "op_source_inbound_seq r = Some k"
    "op_conversation_key r = fp_conversationKey (fz_terminal q)" "op_chat_jid r = fp_deliveryJid (fz_terminal q)"
  shows "valid_links d j \<noteq> None"
proof -
  let ?t = "fz_terminal q"
  have job: "jp_scope job = fp_scope ?t" "jp_conversationKey job = fp_conversationKey ?t" "jp_deliveryJid job = fp_deliveryJid ?t"
    "jp_sourceInboundSeq job = k" "jp_sourceLogicalTurnId job = fp_logicalTurnId ?t"
    "jp_sourceManagerId job = fp_managerId ?t" "jp_sourceGeneration job = fp_generation ?t"
    "fp_ownerLogicalTurnId ?t = Some (jp_ownerLogicalTurnId job)" "fp_ownerManagerId ?t = Some (jp_ownerManagerId job)"
    "fp_ownerGeneration ?t = Some (jp_ownerGeneration job)"
    using assms(3,6,8) by (auto simp: check_job_def Let_def throw_if_Inr and_then_Inr)
  have kind: "fp_deliveryKind ?t \<in> {''enqueued'', ''flushed'', ''delivery_unknown''}"
    using assms(2,4) by (auto simp: check_disposition_def is_transfer_def Let_def throw_if_Inr and_then_Inr)
  have "terminal_link_ok j (terminal_row i ?t)"
    using job kind assms(4,7,8) by (simp add: terminal_link_ok_def terminal_row_def new_job_def is_transfer_def)
  moreover have "inbound_link_ok j e" "outbound_link_ok j r"
    using job assms(7,10-12,15-17) by (simp_all add: inbound_link_ok_def outbound_link_ok_def new_job_def)
  moreover have "rj_terminal_record_id j = i" "rj_source_inbound_seq j = k" "tt_delivery_op_id (terminal_row i ?t) = Some m"
    using job(4) assms(7,13) by (simp_all add: new_job_def terminal_row_def)
  ultimately show ?thesis using assms(5,9,14) by (simp add: valid_links_def)
qed

text \<open>The last statement of the winner.\<close>

lemma answer_marked:
  assumes "and_then (runMarkTerminal k d) (\<lambda>(d', changed). throw_if (\<not> changed) e (Inr (f d'))) = Inr y"
  shows "snd (terminal_statement k d) \<and> y = f (fst (terminal_statement k d))"
  using assms by (auto simp: and_then_Inr throw_if_Inr dest!: runMarkTerminal_ran [symmetric])

lemma winner_stages:
  assumes "finalize_winner q i now d c = Inr (d', c', job, dec)"
  obtains op d1 d2 d3 where "validateTerminalInboundProof q d = Inr ()" "validateTerminalDeliveryProof (fz_terminal q) d = Inr op"
    "(case fz_recoveryJob q of None \<Rightarrow> d1 = d \<and> job = None
      | Some jp \<Rightarrow> \<exists>r. insertLinkedWithinCallerTransaction i jp now d = Inr (d1, r) \<and> job = Some r)"
    "apply_decision q now c = Inr (c', dec)"
    "(case fz_bookkeeping q of None \<Rightarrow> d2 = d1 | Some b \<Rightarrow> runTurnBookkeeping b now d1 = Inr d2)"
    "(case fz_inbound q of None \<Rightarrow> d3 = d2 | Some m \<Rightarrow> runTerminalInboundMutation m (fz_terminal q) now d2 = Inr d3)"
    "(case op of None \<Rightarrow> d' = d3 | Some k \<Rightarrow> d' = fst (terminal_statement k d3) \<and> snd (terminal_statement k d3))"
proof -
  from assms obtain u op d1 d2 d3 where 1: "validateTerminalInboundProof q d = Inr u" "validateTerminalDeliveryProof (fz_terminal q) d = Inr op"
    "(case fz_recoveryJob q of None \<Rightarrow> Inr (d, None)
       | Some jp \<Rightarrow> and_then (insertLinkedWithinCallerTransaction i jp now d) (\<lambda>(d1, r). Inr (d1, Some r))) = Inr (d1, job)"
    "apply_decision q now c = Inr (c', dec)"
    "(case fz_bookkeeping q of None \<Rightarrow> Inr d1 | Some b \<Rightarrow> runTurnBookkeeping b now d1) = Inr d2"
    "(case fz_inbound q of None \<Rightarrow> Inr d2 | Some m \<Rightarrow> runTerminalInboundMutation m (fz_terminal q) now d2) = Inr d3"
    "d' = (case op of None \<Rightarrow> d3 | Some k \<Rightarrow> fst (terminal_statement k d3))"
    "case op of None \<Rightarrow> True | Some k \<Rightarrow> snd (terminal_statement k d3)"
    unfolding finalize_winner_def
    by (simp only: and_then_Inr split_paired_Ex prod.case)
      (elim exE conjE, auto simp: throw_if_Inr dest!: answer_marked split: option.splits)
  show ?thesis
    by (rule that [of op d1 d2 d3])
      (use 1 in \<open>auto simp: and_then_Inr split: option.splits prod.splits\<close>)
qed

lemma wf_same_tables:
  assumes "wf_db d" "inbound_events d' = inbound_events d" "outbound_ops d' = outbound_ops d"
    "terminal_records d' = terminal_records d" "recovery_jobs d' = recovery_jobs d" "last_op_id d' = last_op_id d"
    "last_seq d' = last_seq d" "last_terminal_id d' = last_terminal_id d" "last_job_id d' = last_job_id d"
  shows "wf_db d'"
  using assms by (simp add: wf_db_def)

lemma delivery_proofD:
  assumes "validateTerminalDeliveryProof t d = Inr op"
  shows "fp_deliveryKind t = ''none'' \<and> op = None \<or> (\<exists>k r. op = Some k \<and> fp_deliveryOpId t = Some k \<and> get_op d k = Some r
    \<and> op_conversation_key r = fp_conversationKey t \<and> op_chat_jid r = fp_deliveryJid t
    \<and> op_source_inbound_seq r = fp_inboundSeq t \<and> DELIVERY_STATUS_PROOF (fp_deliveryKind t) = Some (op_status r))"
  using assms by (auto simp: validateTerminalDeliveryProof_def throw_if_Inr split: if_splits option.splits)

lemma inbound_proofD:
  assumes "validateTerminalInboundProof q d = Inr ()" "is_transfer (fz_terminal q)" "fz_recoveryJob q = Some job"
  obtains k e where "fp_inboundSeq (fz_terminal q) = Some k" "get_inbound d k = Some e" "ie_message_id e = jp_sourceMessageId job"
    "ie_conversation_key e = fp_conversationKey (fz_terminal q)" "ie_chat_jid e = fp_deliveryJid (fz_terminal q)"
proof -
  from assms(1,2) obtain k where k: "fp_inboundSeq (fz_terminal q) = Some k"
    by (cases "fp_inboundSeq (fz_terminal q)") (simp_all add: validateTerminalInboundProof_def Let_def throw_if_Inr)
  with assms obtain e where "check_inbound_row (fz_terminal q) (get_inbound d k) = Inr e" "ie_message_id e = jp_sourceMessageId job"
    by (auto simp: validateTerminalInboundProof_def Let_def throw_if_Inr and_then_Inr)
  with check_inbound_rowD [of "fz_terminal q" "get_inbound d k" e] k show ?thesis by (intro that) auto
qed

definition enqueued_jobs :: "finalize_params \<Rightarrow> int \<Rightarrow> int \<Rightarrow> db \<Rightarrow> recovery_job list" where
  "enqueued_jobs q i now d = (case fz_recoveryJob q of None \<Rightarrow> recovery_jobs d
     | Some jp \<Rightarrow> recovery_jobs d @ [new_job (last_job_id d + 1) i jp now])"

lemma winner_finalizes:
  assumes checks: "check_delivery q = Inr ()" "check_disposition q = Inr ()" "check_job q = Inr ()"
    and wf: "wf_db d" and rec: "runRecordTurnTerminal (fz_terminal q) now d = Inr (e, r)" "rt_applied r"
    and win: "finalize_winner q (rt_recordId r) now e c = Inr (d', c', job, dec)"
  shows "inbound_closed q now d d'" "delivery_settled q d'" "transfer_visible q (rt_recordId r) d'"
    "terminal_records d' = terminal_records e" "recovery_jobs d' = enqueued_jobs q (rt_recordId r) now d"
    "job = None \<longleftrightarrow> fz_recoveryJob q = None" "get_terminal d' (rt_recordId r) = Some (terminal_row (rt_recordId r) (fz_terminal q))"
    "\<forall>jp. fz_recoveryJob q = Some jp \<longrightarrow> \<not> job_key_taken d (rt_recordId r) jp"
proof -
  let ?t = "fz_terminal q" and ?i = "rt_recordId r"
  note e = record_applied [OF rec wf]
  obtain op d1 d2 d3 where st:
    "validateTerminalInboundProof q e = Inr ()" "validateTerminalDeliveryProof ?t e = Inr op"
    "case fz_recoveryJob q of None \<Rightarrow> d1 = e \<and> job = None
      | Some jp \<Rightarrow> \<exists>x. insertLinkedWithinCallerTransaction ?i jp now e = Inr (d1, x) \<and> job = Some x"
    "case fz_bookkeeping q of None \<Rightarrow> d2 = d1 | Some b \<Rightarrow> runTurnBookkeeping b now d1 = Inr d2"
    "case fz_inbound q of None \<Rightarrow> d3 = d2 | Some m \<Rightarrow> runTerminalInboundMutation m ?t now d2 = Inr d3"
    "case op of None \<Rightarrow> d' = d3 | Some k \<Rightarrow> d' = fst (terminal_statement k d3) \<and> snd (terminal_statement k d3)"
    by (rule winner_stages [OF win], rule that, assumption+)
  have e_tables: "inbound_events e = inbound_events d" "outbound_ops e = outbound_ops d" "recovery_jobs e = recovery_jobs d"
    "last_job_id e = last_job_id d" unfolding e(1) by simp_all
  have d1: "inbound_events d1 = inbound_events d" "outbound_ops d1 = outbound_ops d" "terminal_records d1 = terminal_records e"
    "recovery_jobs d1 = enqueued_jobs q ?i now d" "wf_db d1"
  proof -
    have "inbound_events d1 = inbound_events d \<and> outbound_ops d1 = outbound_ops d \<and> terminal_records d1 = terminal_records e
      \<and> recovery_jobs d1 = enqueued_jobs q ?i now d \<and> wf_db d1"
    proof (cases "fz_recoveryJob q")
      case None
      with st(3) e_tables e(3) show ?thesis by (simp add: enqueued_jobs_def)
    next
      case (Some jp)
      with st(3) obtain x where "insertLinkedWithinCallerTransaction ?i jp now e = Inr (d1, x)" by auto
      from insert_linked(1) [OF this] wf_insert_linked [OF e(3), of ?i jp now]
      show ?thesis using Some e_tables by (simp add: enqueued_jobs_def)
    qed
    then show "inbound_events d1 = inbound_events d" "outbound_ops d1 = outbound_ops d" "terminal_records d1 = terminal_records e"
      "recovery_jobs d1 = enqueued_jobs q ?i now d" "wf_db d1" by blast+
  qed
  show "job = None \<longleftrightarrow> fz_recoveryJob q = None" using st(3) by (auto split: option.splits)
  show "\<forall>jp. fz_recoveryJob q = Some jp \<longrightarrow> \<not> job_key_taken d ?i jp"
    using st(3) insert_linked(2) [of ?i _ now e d1] by (auto simp: job_key_taken_def e_tables(3))
  have d2: "inbound_events d2 = inbound_events d" "outbound_ops d2 = outbound_ops d" "terminal_records d2 = terminal_records e"
    "recovery_jobs d2 = enqueued_jobs q ?i now d" "wf_db d2"
  proof -
    have "inbound_events d2 = inbound_events d1 \<and> outbound_ops d2 = outbound_ops d1 \<and> terminal_records d2 = terminal_records d1
      \<and> recovery_jobs d2 = recovery_jobs d1 \<and> last_op_id d2 = last_op_id d1 \<and> last_seq d2 = last_seq d1
      \<and> last_terminal_id d2 = last_terminal_id d1 \<and> last_job_id d2 = last_job_id d1"
      using st(4) bookkeeping_frame [of _ now d1 d2] by (cases "fz_bookkeeping q") auto
    then show "inbound_events d2 = inbound_events d" "outbound_ops d2 = outbound_ops d" "terminal_records d2 = terminal_records e"
      "recovery_jobs d2 = enqueued_jobs q ?i now d" "wf_db d2" using d1 wf_same_tables [OF d1(5), of d2] by simp_all
  qed
  have d3: "outbound_ops d3 = outbound_ops d" "terminal_records d3 = terminal_records e"
    "recovery_jobs d3 = enqueued_jobs q ?i now d" "wf_db d3" "fz_inbound q = None \<Longrightarrow> inbound_events d3 = inbound_events d"
    "inbound_closed q now d d3"
  proof -
    have "outbound_ops d3 = outbound_ops d \<and> terminal_records d3 = terminal_records e
      \<and> recovery_jobs d3 = enqueued_jobs q ?i now d \<and> wf_db d3
      \<and> (fz_inbound q = None \<longrightarrow> inbound_events d3 = inbound_events d) \<and> inbound_closed q now d d3"
    proof (cases "fz_inbound q")
      case None
      with st(5) d2 show ?thesis by (simp add: inbound_closed_def)
    next
      case (Some m)
      with st(5) have m: "runTerminalInboundMutation m ?t now d2 = Inr d3" by simp
      from inbound_mutation_closes [OF d2(5) m] obtain x es where x: "get_inbound d2 (mutation_seq m) = Some x" "open_inbound x"
        "ie_conversation_key x = fp_conversationKey ?t" "ie_chat_jid x = fp_deliveryJid ?t"
        "get_inbound d3 (mutation_seq m) = Some (closed_row m now x)"
        "d3 = d2\<lparr>inbound_events := es\<rparr>" "wf_db d3" by blast
      have "get_inbound d (mutation_seq m) = Some x" using x(1) d2(1) by (simp add: get_inbound_def)
      with x Some d2 show ?thesis by (simp add: inbound_closed_def)
    qed
    then show "outbound_ops d3 = outbound_ops d" "terminal_records d3 = terminal_records e"
      "recovery_jobs d3 = enqueued_jobs q ?i now d" "wf_db d3" "fz_inbound q = None \<Longrightarrow> inbound_events d3 = inbound_events d"
      "inbound_closed q now d d3" by blast+
  qed
  have d': "terminal_records d' = terminal_records d3" "recovery_jobs d' = recovery_jobs d3" "inbound_events d' = inbound_events d3"
    using st(6) by (auto simp: terminal_statement_def cas_op_def Let_def split: option.splits)
  then show "terminal_records d' = terminal_records e" "recovery_jobs d' = enqueued_jobs q ?i now d" using d3 by simp_all
  show "inbound_closed q now d d'" using d3(6) d'(3) by (simp add: inbound_closed_def get_inbound_def)
  show term_row: "get_terminal d' ?i = Some (terminal_row ?i ?t)"
    using e(4) \<open>terminal_records d' = terminal_records e\<close> by (simp add: get_terminal_def)
  have proof_op: "fp_deliveryKind ?t = ''none'' \<or> (\<exists>k x. fp_deliveryOpId ?t = Some k \<and> get_op d' k = Some (x\<lparr>op_is_terminal := True\<rparr>)
    \<and> op_conversation_key x = fp_conversationKey ?t \<and> op_chat_jid x = fp_deliveryJid ?t
    \<and> op_source_inbound_seq x = fp_inboundSeq ?t \<and> DELIVERY_STATUS_PROOF (fp_deliveryKind ?t) = Some (op_status x))"
  proof (cases op)
    case None
    with delivery_proofD [OF st(2)] show ?thesis by simp
  next
    case (Some k)
    with delivery_proofD [OF st(2)] obtain x where x: "fp_deliveryOpId ?t = Some k" "get_op e k = Some x"
      "op_conversation_key x = fp_conversationKey ?t" "op_chat_jid x = fp_deliveryJid ?t"
      "op_source_inbound_seq x = fp_inboundSeq ?t" "DELIVERY_STATUS_PROOF (fp_deliveryKind ?t) = Some (op_status x)" by auto
    have "get_op d3 k = Some x" using x(2) d3(1) e_tables(2) by (simp add: get_op_def)
    have keep: "keeps_id op_id (op_is_terminal_update (\<lambda>_. True))" by (simp add: keeps_id_def)
    have "get_op d' k = map_option (\<lambda>r. if True then op_is_terminal_update (\<lambda>_. True) r else r) (get_op d3 k)"
      using st(6) Some ops.get_cas [OF d3(4) keep, of "\<lambda>r. True" k k] by (simp add: terminal_statement_def)
    with \<open>get_op d3 k = Some x\<close> have "get_op d' k = Some (x\<lparr>op_is_terminal := True\<rparr>)" by simp
    with x show ?thesis by blast
  qed
  then show "delivery_settled q d'" by (force simp: delivery_settled_def)
  show "transfer_visible q ?i d'"
    unfolding transfer_visible_def
  proof
    assume tr: "is_transfer ?t"
    with checks(3) obtain jp where jp: "fz_recoveryJob q = Some jp"
      by (cases "fz_recoveryJob q") (simp_all add: check_job_def Let_def throw_if_Inr)
    from tr checks(2) have none: "fz_inbound q = None" and kind: "fp_deliveryKind ?t \<noteq> ''none''"
      by (auto simp: check_disposition_def is_transfer_def Let_def throw_if_Inr and_then_Inr)
    let ?j = "new_job (last_job_id d + 1) ?i jp now"
    from inbound_proofD [OF st(1) tr jp] obtain k x where k: "fp_inboundSeq ?t = Some k" "get_inbound e k = Some x"
      "ie_message_id x = jp_sourceMessageId jp" "ie_conversation_key x = fp_conversationKey ?t" "ie_chat_jid x = fp_deliveryJid ?t" by blast
    have in_d': "get_inbound d' k = Some x" using k(2) d'(3) d3(5) [OF none] e_tables(1) by (simp add: get_inbound_def)
    from proof_op kind obtain m y where y: "fp_deliveryOpId ?t = Some m" "get_op d' m = Some (y\<lparr>op_is_terminal := True\<rparr>)"
      "op_conversation_key y = fp_conversationKey ?t" "op_chat_jid y = fp_deliveryJid ?t" "op_source_inbound_seq y = fp_inboundSeq ?t" by blast
    have "valid_links d' ?j \<noteq> None"
      by (rule transfer_links [OF checks tr term_row jp refl k(1) in_d' k(3-5) y(1,2)]) (use y k(1) in simp_all)
    moreover have "?j \<in> set (recovery_jobs d')" using d'(2) d3(3) jp by (simp add: enqueued_jobs_def)
    moreover have "rj_terminal_record_id ?j = ?i" by (simp add: new_job_def)
    ultimately show "\<exists>job j. fz_recoveryJob q = Some job \<and> j \<in> set (recovery_jobs d') \<and> rj_terminal_record_id j = ?i
        \<and> recoveryJobMatches j job \<and> valid_links d' j \<noteq> None"
      using jp new_job_matches by blast
  qed
qed

section \<open>Later requests\<close>

text \<open>A database without the counters of duplicate requests.\<close>

definition forget_duplicates :: "db \<Rightarrow> db" where
  "forget_duplicates d = d\<lparr>
     terminal_records := map (\<lambda>r. r\<lparr>tt_duplicate_finalize_count := 0, tt_last_duplicate_at := None\<rparr>) (terminal_records d),
     recovery_jobs := map (\<lambda>j. j\<lparr>rj_duplicate_enqueue_count := 0\<rparr>) (recovery_jobs d)\<rparr>"

lemma forget_counted_terminals:
  "forget_duplicates (d\<lparr>terminal_records := update_rows p (count_duplicate now) (terminal_records d)\<rparr>) = forget_duplicates d"
  by (simp add: forget_duplicates_def update_rows_def count_duplicate_def)

lemma forget_counted_jobs:
  "forget_duplicates (fst (cas_job g (\<lambda>r. r\<lparr>rj_duplicate_enqueue_count := rj_duplicate_enqueue_count r + 1\<rparr>) k d)) = forget_duplicates d"
  by (simp add: forget_duplicates_def cas_job_def update_rows_def Let_def)

lemma record_duplicate:
  assumes "runRecordTurnTerminal t now d = Inr (d1, r)" "\<not> rt_applied r"
  shows "forget_duplicates d1 = forget_duplicates d"
  using assms by (auto simp: runRecordTurnTerminal_def Let_def throw_if_Inr forget_counted_terminals split: option.splits)

lemma receipt_counts:
  assumes "findExactLinkedReceipt i job d = Inr (d', r)"
  shows "forget_duplicates d' = forget_duplicates d"
proof -
  let ?bump = "\<lambda>r. r\<lparr>rj_duplicate_enqueue_count := rj_duplicate_enqueue_count r + 1\<rparr>"
  have "d' = d \<or> (\<exists>k. d' = fst (cas_job (\<lambda>_. True) ?bump k d))"
  proof (cases "getTurnRecoveryJobBySource (jp_sourceInboundSeq job) (jp_sourceLogicalTurnId job) (jp_sourceGeneration job) d")
    case (Inl e)
    with assms show ?thesis by (simp add: findExactLinkedReceipt_def)
  next
    case (Inr linked)
    show ?thesis
    proof (cases linked)
      case None
      with Inr assms show ?thesis by (simp add: findExactLinkedReceipt_def)
    next
      case (Some j)
      show ?thesis
      proof (cases "rj_terminal_record_id j \<noteq> i \<or> \<not> recoveryJobMatches j job")
        case True
        with Inr Some assms show ?thesis by (auto simp: findExactLinkedReceipt_def)
      next
        case False
        with Inr Some assms have "d' = fst (cas_job (\<lambda>_. True) ?bump (rj_id j) d)"
          by (auto simp: findExactLinkedReceipt_def Let_def)
        then show ?thesis by blast
      qed
    qed
  qed
  then show ?thesis using forget_counted_jobs by blast
qed

lemma duplicate_counts:
  "finalize_duplicate q d = Inr (d', m, r) \<Longrightarrow> forget_duplicates d' = forget_duplicates d"
  by (auto simp: finalize_duplicate_def Let_def and_then_Inr receipt_counts split: option.splits if_splits)

lemma finalizeD:
  assumes "finalizeTurnTerminal p now (d, c) = (s, Inr out)"
  obtains q e r where "normalizeFinalizeTurnTerminalParams p = Inr q" "runRecordTurnTerminal (fz_terminal q) now d = Inr (e, r)"
    "rt_applied (fr_record out) = rt_applied r" "rt_recordId (fr_record out) = rt_recordId r"
    "if rt_applied r then \<exists>d2 c2 job dec. finalize_winner q (rt_recordId r) now e c = Inr (d2, c2, job, dec)
        \<and> s = (d2, c2) \<and> out = finalize_outcome (fz_terminal q) r True job dec
     else \<exists>d2 m job. finalize_duplicate q e = Inr (d2, m, job) \<and> s = (d2, c)
        \<and> out = finalize_outcome (fz_terminal q) r m job None"
proof -
  from assms obtain q where q: "normalizeFinalizeTurnTerminalParams p = Inr q" "finalize_body q now d c = Inr (s, out)"
    by (auto simp: finalizeTurnTerminal_def and_then_Inr split: sum.splits prod.splits)
  from q(2) obtain e r where r: "runRecordTurnTerminal (fz_terminal q) now d = Inr (e, r)"
    "(if rt_applied r
     then and_then (finalize_winner q (rt_recordId r) now e c) (\<lambda>(d2, c2, recoveryJob, decision).
       Inr ((d2, c2), finalize_outcome (fz_terminal q) r True recoveryJob decision))
     else and_then (finalize_duplicate q e) (\<lambda>(d2, matches, recoveryJob).
       Inr ((d2, c), finalize_outcome (fz_terminal q) r matches recoveryJob None))) = Inr (s, out)"
    by (auto simp: finalize_body_def and_then_Inr)
  have sel: "rt_applied (fr_record (finalize_outcome t r m j x)) = rt_applied r"
    "rt_recordId (fr_record (finalize_outcome t r m j x)) = rt_recordId r" for t m j x
    by (simp_all add: finalize_outcome_def Let_def)
  show ?thesis
  proof (cases "rt_applied r")
    case True
    with r(2) obtain d2 c2 job dec where w: "finalize_winner q (rt_recordId r) now e c = Inr (d2, c2, job, dec)" "s = (d2, c2)"
      "out = finalize_outcome (fz_terminal q) r True job dec" by (auto simp: and_then_Inr)
    show ?thesis by (rule that [OF q(1) r(1)]) (use w True sel in auto)
  next
    case False
    with r(2) obtain d2 m job where w: "finalize_duplicate q e = Inr (d2, m, job)" "s = (d2, c)"
      "out = finalize_outcome (fz_terminal q) r m job None" by (auto simp: and_then_Inr)
    show ?thesis by (rule that [OF q(1) r(1)]) (use w False sel in auto)
  qed
qed

lemma loser_only_counts:
  assumes "finalizeTurnTerminal p now (d, c) = (s, out)" "case out of Inl _ \<Rightarrow> True | Inr res \<Rightarrow> \<not> rt_applied (fr_record res)"
  shows "snd s = c \<and> forget_duplicates (fst s) = forget_duplicates d"
proof (cases out)
  case (Inl e)
  with assms(1) have "s = (d, c)" by (auto simp: finalizeTurnTerminal_def split: sum.splits prod.splits)
  then show ?thesis by simp
next
  case (Inr res)
  with assms(1) have "finalizeTurnTerminal p now (d, c) = (s, Inr res)" by simp
  then show ?thesis
  proof (cases rule: finalizeD)
    case (1 q e r)
    have "\<not> rt_applied r" using 1(3) assms(2) Inr by simp
    with 1(5) obtain d2 m job where "finalize_duplicate q e = Inr (d2, m, job)" "s = (d2, c)" by auto
    with duplicate_counts record_duplicate [OF 1(2) \<open>\<not> rt_applied r\<close>] show ?thesis by auto
  qed
qed

lemma normalized_checks:
  assumes "normalizeFinalizeTurnTerminalParams p = Inr q"
  shows "check_delivery q = Inr ()" "check_disposition q = Inr ()" "check_job q = Inr ()" "check_owner q = Inr ()"
    "terminal_checks (terminal_row i (fz_terminal q))" "deriveTerminalInboundMutation (fz_terminal q) = Inr (fz_inbound q)"
    "fp_replyGuaranteeDisarmed (fz_terminal q) \<longleftrightarrow> fp_deliveryKind (fz_terminal q) = ''echoed''
       \<or> fp_inboundDisposition (fz_terminal q) = ''finalized_no_reply_policy''"
proof -
  have c: "\<exists>ns. check_identity q = Inr ns \<and> check_delivery q = Inr () \<and> check_disposition q = Inr ()
    \<and> check_job q = Inr () \<and> check_owner q = Inr () \<and> normalized_terminal (fz_terminal q) = fz_terminal q"
    using normalize_again [OF assms]
  proof (cases rule: normalizeE)
    case (1 ns b)
    have "normalized_terminal (fz_terminal q) = fz_terminal q"
      using arg_cong [OF 1(7), of fz_terminal] by simp
    with 1 show ?thesis by blast
  qed
  then show "check_delivery q = Inr ()" "check_disposition q = Inr ()" "check_job q = Inr ()" "check_owner q = Inr ()" by blast+
  from c normalized_row_checks [of q] show "terminal_checks (terminal_row i (fz_terminal q))" by metis
  show "deriveTerminalInboundMutation (fz_terminal q) = Inr (fz_inbound q)" using c by (blast intro: derived_mutation)
  from c have "fp_replyGuaranteeDisarmed (fz_terminal q) = fp_replyGuaranteeDisarmed (normalized_terminal (fz_terminal q))" by metis
  then show "fp_replyGuaranteeDisarmed (fz_terminal q) \<longleftrightarrow> fp_deliveryKind (fz_terminal q) = ''echoed''
       \<or> fp_inboundDisposition (fz_terminal q) = ''finalized_no_reply_policy''"
    by (simp add: normalized_terminal_def)
qed

text \<open>The receipt a retry of the winner finds.\<close>

lemma links_counted:
  "valid_links (d\<lparr>terminal_records := update_rows p (count_duplicate now) (terminal_records d)\<rparr>) j \<noteq> None
     \<longleftrightarrow> valid_links d j \<noteq> None"
proof -
  let ?d = "d\<lparr>terminal_records := update_rows p (count_duplicate now) (terminal_records d)\<rparr>"
  have "get_terminal ?d i = map_option (\<lambda>r. if p r then count_duplicate now r else r) (get_terminal d i)" for i
    by (simp add: get_terminal_def find_update_rows count_duplicate_def)
  moreover have "get_inbound ?d = get_inbound d" "get_op ?d = get_op d" by (auto simp: get_inbound_def get_op_def)
  moreover have "terminal_link_ok j (count_duplicate now t) = terminal_link_ok j t"
    "tt_delivery_op_id (count_duplicate now t) = tt_delivery_op_id t" for t
    by (simp_all add: terminal_link_ok_def count_duplicate_def)
  ultimately show ?thesis by (auto simp: valid_links_def split: option.splits)
qed

lemma retry_finds_receipt:
  assumes "recovery_jobs d = js @ [j]" "rj_terminal_record_id j = i" "recoveryJobMatches j job" "valid_links d j \<noteq> None"
    "rj_source_inbound_seq_key j = jp_sourceInboundSeq job" "validateTurnRecoveryJob job = Inr ()"
    "list_all (\<lambda>x. \<not> (rj_source_inbound_seq_key x = jp_sourceInboundSeq job
       \<and> rj_source_logical_turn_id x = jp_sourceLogicalTurnId job \<and> rj_source_generation x = jp_sourceGeneration job)) js"
  shows "\<exists>d' r. findExactLinkedReceipt i job d = Inr (d', Some r)"
proof -
  have v: "validatePositiveSafeInteger (jp_sourceInboundSeq job) l = Inr ()" "validate_id (jp_sourceLogicalTurnId job) l = Inr ()"
    "validatePositiveSafeInteger (jp_sourceGeneration job) l = Inr ()" for l
    using assms(6) by (auto simp: validateTurnRecoveryJob_def validate_id_def throw_if_Inr and_then_Inr
        validatePositiveSafeInteger_iff validateBoundedRequired_iff)
  let ?P = "\<lambda>x. rj_source_inbound_seq_key x = jp_sourceInboundSeq job \<and> rj_source_logical_turn_id x = jp_sourceLogicalTurnId job
    \<and> rj_source_generation x = jp_sourceGeneration job \<and> valid_links d x \<noteq> None"
  have "find ?P js = None" using assms(7) by (auto simp: find_None_iff list_all_iff)
  moreover have "?P j" using assms(3-5) by (simp add: recoveryJobMatches_def)
  ultimately have "find ?P (recovery_jobs d) = Some j" by (simp add: assms(1) find_append)
  then have "getTurnRecoveryJobBySource (jp_sourceInboundSeq job) (jp_sourceLogicalTurnId job) (jp_sourceGeneration job) d = Inr (Some j)"
    using v by (simp add: getTurnRecoveryJobBySource_def)
  then show ?thesis using assms(2,3) by (simp add: findExactLinkedReceipt_def Let_def)
qed

lemma retried_row:
  assumes "find (terminal_keyed (fp_inboundSeq t) (fp_logicalTurnId t) (fp_generation t)) (terminal_records d) = None"
    "terminal_records d' = terminal_records d @ [terminal_row i t]" "terminal_checks (terminal_row (last_terminal_id d' + 1) t)"
  obtains d1 res where "runRecordTurnTerminal t later d' = Inr (d1, res)" "\<not> rt_applied res" "rt_recordId res = i"
    "rt_replyGuaranteeDisarmed res = fp_replyGuaranteeDisarmed t"
    "d1 = d'\<lparr>terminal_records := update_rows (terminal_keyed (fp_inboundSeq t) (fp_logicalTurnId t) (fp_generation t))
       (count_duplicate later) (terminal_records d')\<rparr>"
    "getTurnTerminal (fp_inboundSeq t) (fp_logicalTurnId t) (fp_generation t) d1 = Some (count_duplicate later (terminal_row i t))"
proof -
  let ?key = "terminal_keyed (fp_inboundSeq t) (fp_logicalTurnId t) (fp_generation t)"
  have key: "?key (terminal_row i t)" by (simp add: terminal_keyed_def terminal_row_def)
  have found: "find ?key (terminal_records d') = Some (terminal_row i t)"
    by (simp add: assms(1,2) find_append key)
  then have row: "exists_row ?key (terminal_records d')" using find_SomeD [OF found] by (auto simp: exists_row_iff)
  have "?key (count_duplicate later r) \<longleftrightarrow> ?key r" for r by (simp add: terminal_keyed_def count_duplicate_def)
  from find_update_rows [where key = ?key and f = "count_duplicate later" and k = True, OF this, of ?key "terminal_records d'"]
  have after: "find ?key (update_rows ?key (count_duplicate later) (terminal_records d')) = Some (count_duplicate later (terminal_row i t))"
    by (simp add: found key)
  show ?thesis
    by (rule that [of "d'\<lparr>terminal_records := update_rows ?key (count_duplicate later) (terminal_records d')\<rparr>"
          "\<lparr>rt_applied = False, rt_recordId = i, rt_duplicateFinalizeCount = 1, rt_replyGuaranteeDisarmed = fp_replyGuaranteeDisarmed t\<rparr>"])
      (use assms(3) found after row in \<open>simp_all add: runRecordTurnTerminal_def throw_if_def getTurnTerminal_def terminal_row_def\<close>)
qed

lemma counted_row_matches: "terminalRecordMatches (count_duplicate later (terminal_row i t)) t"
  by (simp add: terminalRecordMatches_def count_duplicate_def terminal_row_def)

lemma receipt_after_winner:
  assumes "check_job q = Inr ()" "fz_recoveryJob q = Some job" "recovery_jobs d = enqueued_jobs q i now d0"
    "\<not> job_key_taken d0 i job" "transfer_visible q i d" "validateTurnRecoveryJob job = Inr ()"
  shows "\<exists>d' r. findExactLinkedReceipt i job (d\<lparr>terminal_records := update_rows p (count_duplicate later) (terminal_records d)\<rparr>)
    = Inr (d', Some r)"
proof -
  let ?d = "d\<lparr>terminal_records := update_rows p (count_duplicate later) (terminal_records d)\<rparr>"
  have jobs: "recovery_jobs d = recovery_jobs d0 @ [new_job (last_job_id d0 + 1) i job now]"
    using assms(2,3) by (simp add: enqueued_jobs_def)
  let ?j = "new_job (last_job_id d0 + 1) i job now"
  have "is_transfer (fz_terminal q)" using assms(1,2) by (auto simp: check_job_def Let_def throw_if_Inr)
  with assms(5) obtain j where j: "j \<in> set (recovery_jobs d)" "rj_terminal_record_id j = i" "valid_links d j \<noteq> None"
    by (auto simp: transfer_visible_def)
  have fresh: "rj_terminal_record_id x \<noteq> i \<and> \<not> (rj_source_inbound_seq_key x = jp_sourceInboundSeq job
       \<and> rj_source_logical_turn_id x = jp_sourceLogicalTurnId job \<and> rj_source_generation x = jp_sourceGeneration job)"
    if "x \<in> set (recovery_jobs d0)" for x
    using assms(4) that by (auto simp: job_key_taken_def list_ex_iff)
  have "j = ?j" using j(1,2) fresh jobs by auto
  then have links: "valid_links ?d ?j \<noteq> None" using j(3) links_counted by simp
  show ?thesis
  proof (rule retry_finds_receipt [OF _ _ new_job_matches links _ assms(6)])
    show "recovery_jobs ?d = recovery_jobs d0 @ [?j]" using jobs by simp
    show "rj_terminal_record_id ?j = i" "rj_source_inbound_seq_key ?j = jp_sourceInboundSeq job" by (simp_all add: new_job_def)
    show "list_all (\<lambda>x. \<not> (rj_source_inbound_seq_key x = jp_sourceInboundSeq job
       \<and> rj_source_logical_turn_id x = jp_sourceLogicalTurnId job \<and> rj_source_generation x = jp_sourceGeneration job)) (recovery_jobs d0)"
      unfolding list_all_iff using fresh by blast
  qed
qed

text \<open>The stages of a request that won, with everything the winner establishes.\<close>

lemma finalizedE:
  assumes "wf_db d" "finalizeTurnTerminal p now (d, c) = ((d', c'), Inr out)" "rt_applied (fr_record out)"
  obtains q e r job dec where "normalizeFinalizeTurnTerminalParams p = Inr q" "runRecordTurnTerminal (fz_terminal q) now d = Inr (e, r)"
    "rt_applied r" "finalize_winner q (rt_recordId r) now e c = Inr (d', c', job, dec)"
    "out = finalize_outcome (fz_terminal q) r True job dec" "rt_recordId (fr_record out) = rt_recordId r"
proof (cases rule: finalizeD [OF assms(2)])
  case (1 q e r)
  have a: "rt_applied r" using 1(3) assms(3) by simp
  with 1(5) obtain job dec where "finalize_winner q (rt_recordId r) now e c = Inr (d', c', job, dec)"
    "out = finalize_outcome (fz_terminal q) r True job dec" by auto
  with 1(1,2,4) a show ?thesis by (intro that)
qed

lemma valid_job_of_check: "check_job q = Inr () \<Longrightarrow> fz_recoveryJob q = Some job \<Longrightarrow> validateTurnRecoveryJob job = Inr ()"
  by (simp add: check_job_def Let_def throw_if_Inr and_then_Inr)

section \<open>Properties\<close>

text \<open>C36: a request that normalization lets through has a terminal row that satisfies every CHECK constraint
  of the table, carries exactly the inbound mutation its disposition implies, and is left unchanged by a
  second normalization.\<close>

theorem normalized_request_is_typed:
  assumes "normalizeFinalizeTurnTerminalParams p = Inr q"
  shows "terminal_checks (terminal_row i (fz_terminal q)) \<and> deriveTerminalInboundMutation (fz_terminal q) = Inr (fz_inbound q)
    \<and> normalizeFinalizeTurnTerminalParams q = Inr q"
  using normalized_checks(5,6) [OF assms] normalize_again [OF assms] by blast

text \<open>C2: when finalization reports that it recorded a turn, the request was normalized, its terminal row is
  stored as given, the open inbound event it names is closed for that reason, the outbound operation that
  proves its delivery is marked terminal in the proving status, and a turn handed to a recovery owner has a
  recovery job that matches the request and passes the link check. The reply guarantee is disarmed only for
  an echo, a no-reply policy or a handed-over turn whose delivery is not unknown.\<close>

theorem finalized_turn_is_closed:
  assumes "wf_db d" "finalizeTurnTerminal p now (d, c) = ((d', c'), Inr out)" "rt_applied (fr_record out)"
  shows "\<exists>q. normalizeFinalizeTurnTerminalParams p = Inr q
    \<and> get_terminal d' (rt_recordId (fr_record out)) = Some (terminal_row (rt_recordId (fr_record out)) (fz_terminal q))
    \<and> inbound_closed q now d d' \<and> delivery_settled q d' \<and> transfer_visible q (rt_recordId (fr_record out)) d'
    \<and> (fr_effectiveDisarmed out \<longrightarrow> fp_deliveryKind (fz_terminal q) = ''echoed''
        \<or> fp_inboundDisposition (fz_terminal q) = ''finalized_no_reply_policy''
        \<or> (is_transfer (fz_terminal q) \<and> fp_deliveryKind (fz_terminal q) \<noteq> ''delivery_unknown''))"
proof (rule finalizedE [OF assms])
  fix q e r job dec
  assume q: "normalizeFinalizeTurnTerminalParams p = Inr q" and r: "runRecordTurnTerminal (fz_terminal q) now d = Inr (e, r)" "rt_applied r"
    and w: "finalize_winner q (rt_recordId r) now e c = Inr (d', c', job, dec)"
    and out: "out = finalize_outcome (fz_terminal q) r True job dec" "rt_recordId (fr_record out) = rt_recordId r"
  note closed = winner_finalizes [OF normalized_checks(1-3) [OF q] assms(1) r w]
  have "fr_effectiveDisarmed out \<longrightarrow> fp_deliveryKind (fz_terminal q) = ''echoed''
        \<or> fp_inboundDisposition (fz_terminal q) = ''finalized_no_reply_policy''
        \<or> (is_transfer (fz_terminal q) \<and> fp_deliveryKind (fz_terminal q) \<noteq> ''delivery_unknown'')"
    using normalized_checks(7) [OF q] record_applied(6) [OF r assms(1)] by (auto simp: out(1) finalize_outcome_def Let_def)
  with q closed(1-3,7) show ?thesis unfolding out(2) by blast
qed

text \<open>C4: finalizing a turn again with the request that won changes nothing but the counters of duplicates:
  the answer names the same record, says that the winner matches the request and that the reply guarantee is
  disarmed exactly when the first answer said so. The capability rows are untouched.\<close>

theorem retried_finalization_repeats_the_answer:
  assumes "wf_db d" "finalizeTurnTerminal p now (d, c) = ((d', c'), Inr out)" "rt_applied (fr_record out)"
  shows "\<exists>d'' res. finalizeTurnTerminal p later (d', c') = ((d'', c'), Inr res) \<and> \<not> rt_applied (fr_record res)
    \<and> rt_recordId (fr_record res) = rt_recordId (fr_record out) \<and> fr_winnerMatchesRequest res
    \<and> fr_effectiveDisarmed res = fr_effectiveDisarmed out \<and> forget_duplicates d'' = forget_duplicates d'"
proof (rule finalizedE [OF assms])
  fix q e r job dec
  assume q: "normalizeFinalizeTurnTerminalParams p = Inr q" and r: "runRecordTurnTerminal (fz_terminal q) now d = Inr (e, r)" "rt_applied r"
    and w: "finalize_winner q (rt_recordId r) now e c = Inr (d', c', job, dec)"
    and out: "out = finalize_outcome (fz_terminal q) r True job dec" "rt_recordId (fr_record out) = rt_recordId r"
  let ?t = "fz_terminal q" and ?i = "rt_recordId r"
  note rec = record_applied [OF r assms(1)] and closed = winner_finalizes [OF normalized_checks(1-3) [OF q] assms(1) r w]
  have rows: "terminal_records d' = terminal_records d @ [terminal_row ?i ?t]" unfolding closed(4) rec(1) by simp
  obtain d1 res where d1: "runRecordTurnTerminal ?t later d' = Inr (d1, res)" "\<not> rt_applied res" "rt_recordId res = ?i"
    "rt_replyGuaranteeDisarmed res = fp_replyGuaranteeDisarmed ?t"
    "d1 = d'\<lparr>terminal_records := update_rows (terminal_keyed (fp_inboundSeq ?t) (fp_logicalTurnId ?t) (fp_generation ?t))
       (count_duplicate later) (terminal_records d')\<rparr>"
    "getTurnTerminal (fp_inboundSeq ?t) (fp_logicalTurnId ?t) (fp_generation ?t) d1 = Some (count_duplicate later (terminal_row ?i ?t))"
    by (rule retried_row [OF rec(5) rows normalized_checks(5) [OF q], where later = later], rule that, assumption+)
  have "\<exists>d2 receipt. finalize_duplicate q d1 = Inr (d2, True, receipt) \<and> (receipt = None \<longleftrightarrow> job = None)"
  proof (cases "fz_recoveryJob q")
    case None
    then show ?thesis using closed(6) d1(6) counted_row_matches by (simp add: finalize_duplicate_def Let_def)
  next
    case (Some jp)
    have "\<not> job_key_taken d ?i jp" using closed(8) Some by blast
    from receipt_after_winner [OF normalized_checks(3) [OF q] Some closed(5) this closed(3) valid_job_of_check [OF normalized_checks(3) [OF q] Some]]
    obtain d2 x where "findExactLinkedReceipt ?i jp d1 = Inr (d2, Some x)" unfolding d1(5) by blast
    moreover have "tt_id (count_duplicate later (terminal_row ?i ?t)) = ?i" by (simp add: count_duplicate_def terminal_row_def)
    ultimately show ?thesis using closed(6) Some d1(6) counted_row_matches by (simp add: finalize_duplicate_def Let_def)
  qed
  then obtain d2 receipt where dup: "finalize_duplicate q d1 = Inr (d2, True, receipt)" "receipt = None \<longleftrightarrow> job = None" by blast
  let ?res = "finalize_outcome ?t res True receipt None"
  have run: "finalizeTurnTerminal p later (d', c') = ((d2, c'), Inr ?res)"
    using q d1(1,2) dup(1) by (simp add: finalizeTurnTerminal_def finalize_body_def)
  have "forget_duplicates d2 = forget_duplicates d'"
    using duplicate_counts [OF dup(1)] record_duplicate [OF d1(1,2)] by simp
  moreover have "fr_effectiveDisarmed ?res = fr_effectiveDisarmed out"
    using d1(4) rec(6) dup(2) by (simp add: out(1) finalize_outcome_def Let_def)
  moreover have "rt_applied (fr_record ?res) = rt_applied res" "rt_recordId (fr_record ?res) = ?i" "fr_winnerMatchesRequest ?res"
    using d1(3) by (simp_all add: finalize_outcome_def Let_def)
  ultimately show ?thesis unfolding out(2) using run d1(2) by blast
qed

section \<open>A turn that replied and a turn handed over\<close>

definition turn_op :: "int \<Rightarrow> outbound_status \<Rightarrow> outbound_op" where
  "turn_op k st = \<lparr>op_id = k, op_status = st, op_conversation_key = ''1'', op_chat_jid = ''1@g.us'',
     op_type = ''text'', op_payload = Text 2 None, op_payload_hash = [], op_wa_message_id = Some ''W1'', op_replay_policy = Rp_unsafe,
     op_created_at = At 0, op_submitted_at = None, op_ambiguity_at = None, op_echoed_at = None, op_source_inbound_seq = Some 4,
     op_retry_count = 0, op_error = None, op_is_terminal = False, op_quarantine_disposition = None,
     op_quarantine_coverage = None, op_quarantine_sha256 = None, op_quarantined_at = None\<rparr>"

definition turn_db :: "outbound_status \<Rightarrow> db" where
  "turn_db st = empty_db\<lparr>outbound_ops := [turn_op 9 st], last_op_id := 9,
     inbound_events := [\<lparr>ie_seq = 4, ie_message_id = ''M4'', ie_conversation_key = ''1'',
       ie_chat_jid = ''1@g.us'', ie_routed_to = ''agent'', ie_processing_status = Is_processing,
       ie_received_at = 1, ie_completed_at = None, ie_terminal_reason = None, ie_failure_class = None,
       ie_candidate_reason = None, ie_candidate_source = None, ie_candidate_marked_at = None, ie_candidate_consumed_at = None\<rparr>],
     last_seq := 4\<rparr>"

definition reply_terminal :: terminal_params where
  "reply_terminal = \<lparr>fp_scope = ''per_chat'', fp_conversationKey = ''1'', fp_deliveryJid = ''1@g.us'',
     fp_inboundSeq = Some 4, fp_logicalTurnId = ''T1'', fp_managerId = ''M1'', fp_generation = 1, fp_attemptKind = ''completed'',
     fp_attemptFailureClass = None, fp_inboundDisposition = ''finalized_replied'', fp_deliveryKind = ''echoed'',
     fp_deliveryOpId = Some 9, fp_ownerLogicalTurnId = None, fp_ownerManagerId = None, fp_ownerGeneration = None,
     fp_replyGuaranteeDisarmed = False\<rparr>"

definition reply_request :: finalize_params where
  "reply_request = \<lparr>fz_terminal = reply_terminal, fz_inbound = Some (Im_complete 4 ''response_echoed''), fz_bookkeeping = None,
     fz_recoveryJob = None, fz_capabilityDecision = None, fz_bestEffort = False\<rparr>"

definition transfer_request :: finalize_params where
  "transfer_request = \<lparr>fz_terminal = reply_terminal\<lparr>fp_inboundDisposition := ''transferred_to_recovery_owner'', fp_deliveryKind := ''enqueued'',
       fp_ownerLogicalTurnId := Some ''T2'', fp_ownerManagerId := Some ''M2'', fp_ownerGeneration := Some 2\<rparr>,
     fz_inbound = None, fz_bookkeeping = None, fz_recoveryJob = Some
       \<lparr>jp_scope = ''per_chat'', jp_conversationKey = ''1'', jp_deliveryJid = ''1@g.us'',
        jp_sourceInboundSeq = 4, jp_sourceLogicalTurnId = ''T1'', jp_sourceManagerId = ''M1'', jp_sourceGeneration = 1,
        jp_sourceMessageId = ''M4'', jp_ownerLogicalTurnId = ''T2'', jp_ownerManagerId = ''M2'', jp_ownerGeneration = 2,
        jp_replaySafe = True, jp_senderJid = ''1@g.us'', jp_senderName = None, jp_replayText = ''hi'',
        jp_isGroup = False, jp_groupName = None\<rparr>, fz_capabilityDecision = None, fz_bestEffort = False\<rparr>"

lemma turn_wf: "wf_db (turn_db st)"
  by (simp add: wf_db_def turn_db_def empty_db_def keys_ok_def turn_op_def)

lemma applied_run:
  assumes "case finalizeTurnTerminal p now s of (_, Inl _) \<Rightarrow> False | (_, Inr out) \<Rightarrow> rt_applied (fr_record out) \<and> fr_effectiveDisarmed out"
  obtains d' c' out where "finalizeTurnTerminal p now s = ((d', c'), Inr out)" "rt_applied (fr_record out)" "fr_effectiveDisarmed out"
  using assms by (cases "finalizeTurnTerminal p now s") (auto split: sum.splits)

lemma reply_run:
  "case finalizeTurnTerminal reply_request 5 (turn_db Os_echoed, empty_capability_db) of
     (_, Inl _) \<Rightarrow> False | (_, Inr out) \<Rightarrow> rt_applied (fr_record out) \<and> fr_effectiveDisarmed out"
  by code_simp

lemma transfer_job_ok: "validateTurnRecoveryJob (the (fz_recoveryJob transfer_request)) = Inr ()"
proof -
  have limits: "n \<le> TURN_RECOVERY_MAX_ID_BYTES \<longleftrightarrow> n \<le> 2048" "TURN_RECOVERY_MAX_TEXT_BYTES < n \<longleftrightarrow> 262144 < n" for n
    by (simp_all add: TURN_RECOVERY_MAX_ID_BYTES_def TURN_RECOVERY_MAX_TEXT_BYTES_def)
  show ?thesis
    by (simp add: transfer_request_def validateTurnRecoveryJob_def validate_id_def result_simps bounded_id_def SCOPES_def
        throw_if_Inr and_then_Inr isNonEmptyString_printable positive_safe_def limits)
qed

lemma transfer_normalized: "normalizeFinalizeTurnTerminalParams transfer_request = Inr transfer_request"
proof -
  have "check_identity transfer_request = Inr ''g.us''" "check_attempt (fz_terminal transfer_request) = Inr ()"
    "check_delivery transfer_request = Inr ()" "check_disposition transfer_request = Inr ()"
    "check_owner transfer_request = Inr ()" by code_simp+
  moreover have "check_job transfer_request = Inr ()"
    using transfer_job_ok by (simp add: check_job_def transfer_request_def reply_terminal_def is_transfer_def throw_if_def)
  ultimately show ?thesis
    by (simp add: normalizeFinalizeTurnTerminalParams_def normalized_terminal_def transfer_request_def reply_terminal_def)
qed

lemma transfer_recorded:
  "runRecordTurnTerminal (fz_terminal transfer_request) 5 (turn_db Os_pending) = Inr ((turn_db Os_pending)
     \<lparr>terminal_records := [terminal_row 1 (fz_terminal transfer_request)], last_terminal_id := 1\<rparr>,
     \<lparr>rt_applied = True, rt_recordId = 1, rt_duplicateFinalizeCount = 0, rt_replyGuaranteeDisarmed = False\<rparr>)"
  by code_simp

lemma transfer_proofs:
  "validateTerminalInboundProof transfer_request (turn_db Os_pending\<lparr>terminal_records := ts, last_terminal_id := 1\<rparr>) = Inr ()"
  "validateTerminalDeliveryProof (fz_terminal transfer_request) (turn_db Os_pending\<lparr>terminal_records := ts, last_terminal_id := 1\<rparr>)
     = Inr (Some 9)"
  by (simp_all add: validateTerminalInboundProof_def validateTerminalDeliveryProof_def transfer_request_def reply_terminal_def
      turn_db_def turn_op_def check_inbound_row_def open_inbound_def get_inbound_def get_op_def is_transfer_def throw_if_def
      DELIVERY_STATUS_PROOF_def)

lemma transfer_body:
  "case finalize_body transfer_request 5 (turn_db Os_pending) empty_capability_db of
     Inl _ \<Rightarrow> False | Inr (_, out) \<Rightarrow> rt_applied (fr_record out) \<and> fr_effectiveDisarmed out"
proof -
  obtain job where job: "fz_recoveryJob transfer_request = Some job" by (simp add: transfer_request_def)
  then have valid: "validateTurnRecoveryJob job = Inr ()" using transfer_job_ok by simp
  let ?d = "turn_db Os_pending\<lparr>terminal_records := [terminal_row 1 (fz_terminal transfer_request)], last_terminal_id := 1\<rparr>"
  have "\<not> job_key_taken ?d 1 job" by (simp add: job_key_taken_def turn_db_def empty_db_def)
  then obtain d1 r where ins: "insertLinkedWithinCallerTransaction 1 job 5 ?d = Inr (d1, r)"
    by (simp add: insertLinkedWithinCallerTransaction_def valid throw_if_def Let_def)
  from insert_linked(1) [OF this] have ops: "outbound_ops d1 = [turn_op 9 Os_pending]" by (simp add: turn_db_def)
  have "snd (terminal_statement 9 d1)"
    by (simp add: terminal_statement_def cas_op_def ops turn_op_def changes_def)
  then obtain d2 where mark: "terminal_statement 9 d1 = (d2, True)" by (cases "terminal_statement 9 d1") simp
  have "\<not> proof_op 9 d1"
    using insert_linked(1) [OF ins] by (simp add: proof_op_def corroborated_selected_def corroborating_def closure_selected_def
        turn_db_def empty_db_def exists_row_def)
  with mark have "runMarkTerminal 9 d1 = Inr (d2, True)" by (simp add: runMarkTerminal_free)
  then have "finalize_winner transfer_request 1 5 ?d empty_capability_db = Inr (d2, empty_capability_db, Some r, None)"
    using ins job by (simp add: finalize_winner_def transfer_proofs apply_decision_def throw_if_def)
      (simp add: transfer_request_def throw_if_def)
  then show ?thesis
    by (simp add: finalize_body_def transfer_recorded finalize_outcome_def)
      (simp add: transfer_request_def is_transfer_def)
qed

lemma transfer_run:
  "case finalizeTurnTerminal transfer_request 5 (turn_db Os_pending, empty_capability_db) of
     (_, Inl _) \<Rightarrow> False | (_, Inr out) \<Rightarrow> rt_applied (fr_record out) \<and> fr_effectiveDisarmed out"
  using transfer_body by (auto simp: finalizeTurnTerminal_def transfer_normalized split: sum.splits prod.splits)

lemma reply_normalized:
  "normalizeFinalizeTurnTerminalParams reply_request
     = Inr (reply_request\<lparr>fz_terminal := reply_terminal\<lparr>fp_replyGuaranteeDisarmed := True\<rparr>\<rparr>)"
proof -
  have "check_identity reply_request = Inr ''g.us''" "check_attempt (fz_terminal reply_request) = Inr ()"
    "check_delivery reply_request = Inr ()" "check_disposition reply_request = Inr ()" "check_owner reply_request = Inr ()"
    "check_job reply_request = Inr ()" by code_simp+
  then show ?thesis
    by (simp add: normalizeFinalizeTurnTerminalParams_def normalized_terminal_def reply_request_def reply_terminal_def)
qed

theorem normalized_request_is_typed_witness:
  "terminal_checks (terminal_row 1 (reply_terminal\<lparr>fp_replyGuaranteeDisarmed := True\<rparr>))
    \<and> deriveTerminalInboundMutation (reply_terminal\<lparr>fp_replyGuaranteeDisarmed := True\<rparr>)
      = Inr (Some (Im_complete 4 ''response_echoed''))"
  using normalized_request_is_typed [OF reply_normalized, of 1] by (simp add: reply_request_def)

theorem finalized_turn_is_closed_witness:
  "\<exists>d' q. inbound_closed q 5 (turn_db Os_echoed) d' \<and> delivery_settled q d'
    \<and> normalizeFinalizeTurnTerminalParams reply_request = Inr q \<and> fz_inbound q \<noteq> None"
proof (rule applied_run [OF reply_run])
  fix d' c' out
  assume run: "finalizeTurnTerminal reply_request 5 (turn_db Os_echoed, empty_capability_db) = ((d', c'), Inr out)"
    "rt_applied (fr_record out)"
  from finalized_turn_is_closed [OF turn_wf run] obtain q where "normalizeFinalizeTurnTerminalParams reply_request = Inr q"
    "inbound_closed q 5 (turn_db Os_echoed) d'" "delivery_settled q d'" by blast
  moreover then have "fz_inbound q \<noteq> None" using reply_normalized by (auto simp: reply_request_def)
  ultimately show ?thesis by blast
qed

theorem retried_finalization_repeats_the_answer_witness:
  "\<exists>s d'' res. finalizeTurnTerminal transfer_request 6 s = (d'', Inr res) \<and> fr_winnerMatchesRequest res
    \<and> fr_effectiveDisarmed res \<and> \<not> rt_applied (fr_record res)"
proof (rule applied_run [OF transfer_run])
  fix d' c' out
  assume run: "finalizeTurnTerminal transfer_request 5 (turn_db Os_pending, empty_capability_db) = ((d', c'), Inr out)"
    "rt_applied (fr_record out)" and "fr_effectiveDisarmed out"
  with retried_finalization_repeats_the_answer [OF turn_wf run, where later = 6] show ?thesis by blast
qed

end
