(* ===== verification/TurnTerminal.thy ===== *)
theory TurnTerminal
  imports FinalizeTurn
begin

text \<open>
  The adapter between the agent runtime and turn finalization (\<^verbatim>\<open>src/runtimes/agent/turn-terminal.ts\<close>): the
  typed axes of a turn that ended (attempt, disposition, delivery evidence), what of them is persisted and
  the recovery job of a turn that is handed over. The closed string unions of the source are datatypes.
\<close>

section \<open>Terminal results\<close>

datatype provider_failure_kind = Pk_usage_limit | Pk_rate_limit | Pk_auth_required | Pk_model_unavailable
  | Pk_policy_block | Pk_context_overflow | Pk_server_error | Pk_transient_network

fun provider_failure_kind_str :: "provider_failure_kind \<Rightarrow> string" where
  "provider_failure_kind_str Pk_usage_limit = ''usage-limit''"
| "provider_failure_kind_str Pk_rate_limit = ''rate-limit''"
| "provider_failure_kind_str Pk_auth_required = ''auth-required''"
| "provider_failure_kind_str Pk_model_unavailable = ''model-unavailable''"
| "provider_failure_kind_str Pk_policy_block = ''policy-block''"
| "provider_failure_kind_str Pk_context_overflow = ''context-overflow''"
| "provider_failure_kind_str Pk_server_error = ''server-error''"
| "provider_failure_kind_str Pk_transient_network = ''transient-network''"

datatype attempt_failure = Af_provider provider_failure_kind | Af_crash | Af_operator_cancelled | Af_processor_throw
  | Af_unknown_terminal | Af_provider_stream_corrupt | Af_scheduled_answer_missing

fun attempt_failure_str :: "attempt_failure \<Rightarrow> string" where
  "attempt_failure_str (Af_provider k) = provider_failure_kind_str k"
| "attempt_failure_str Af_crash = ''crash''"
| "attempt_failure_str Af_operator_cancelled = ''operator_cancelled''"
| "attempt_failure_str Af_processor_throw = ''processor_throw''"
| "attempt_failure_str Af_unknown_terminal = ''unknown_terminal''"
| "attempt_failure_str Af_provider_stream_corrupt = ''provider_stream_corrupt''"
| "attempt_failure_str Af_scheduled_answer_missing = ''scheduled_answer_missing''"

datatype attempt_outcome = Ao_completed | Ao_failed attempt_failure | Ao_suppressed_by_policy | Ao_withheld_by_policy
  | Ao_admission_rejected "failure_class option"

fun attempt_kind_str :: "attempt_outcome \<Rightarrow> string" where
  "attempt_kind_str Ao_completed = ''completed''"
| "attempt_kind_str (Ao_failed _) = ''failed''"
| "attempt_kind_str Ao_suppressed_by_policy = ''suppressed_by_policy''"
| "attempt_kind_str Ao_withheld_by_policy = ''withheld_by_policy''"
| "attempt_kind_str (Ao_admission_rejected _) = ''admission_rejected''"

text \<open>An admission is rejected with one of the admission classes only.\<close>

fun typed_outcome :: "attempt_outcome \<Rightarrow> bool" where
  "typed_outcome (Ao_admission_rejected (Some c)) \<longleftrightarrow> c \<in> set ADMISSION_REJECT_CLASSES"
| "typed_outcome _ \<longleftrightarrow> True"

datatype turn_disposition = Td_finalized_replied | Td_finalized_no_reply_policy | Td_transferred_to_recovery_owner
  | Td_failed_terminal | Td_unfinalized_retry_owned

fun turn_disposition_str :: "turn_disposition \<Rightarrow> string" where
  "turn_disposition_str Td_finalized_replied = ''finalized_replied''"
| "turn_disposition_str Td_finalized_no_reply_policy = ''finalized_no_reply_policy''"
| "turn_disposition_str Td_transferred_to_recovery_owner = ''transferred_to_recovery_owner''"
| "turn_disposition_str Td_failed_terminal = ''failed_terminal''"
| "turn_disposition_str Td_unfinalized_retry_owned = ''unfinalized_retry_owned''"

datatype delivery_evidence = De_none | De_enqueued int | De_flushed int | De_echoed int | De_delivery_unknown int
  | De_not_sent int

fun delivery_kind_str :: "delivery_evidence \<Rightarrow> string" where
  "delivery_kind_str De_none = ''none''"
| "delivery_kind_str (De_enqueued _) = ''enqueued''"
| "delivery_kind_str (De_flushed _) = ''flushed''"
| "delivery_kind_str (De_echoed _) = ''echoed''"
| "delivery_kind_str (De_delivery_unknown _) = ''delivery_unknown''"
| "delivery_kind_str (De_not_sent _) = ''not_sent''"

record turn_identity =
  ti_scope :: string
  ti_conversationKey :: string
  ti_deliveryJid :: string
  ti_inboundSeq :: "int option"
  ti_logicalTurnId :: string
  ti_managerId :: string
  ti_generation :: int

record turn_result =
  tx_identity :: turn_identity
  tx_attempt :: attempt_outcome
  tx_disposition :: turn_disposition
  tx_delivery :: delivery_evidence

record recovery_owner =
  rw_logicalTurnId :: string
  rw_managerId :: string
  rw_generation :: int

record replay_envelope =
  re_sourceMessageId :: string
  re_replaySafe :: bool
  re_senderJid :: string
  re_senderName :: "string option"
  re_text :: string
  re_isGroup :: bool
  re_groupName :: "string option"

section \<open>What is persisted\<close>

definition shouldDisarmReplyGuarantee :: "turn_disposition \<Rightarrow> delivery_evidence \<Rightarrow> bool \<Rightarrow> bool" where
  "shouldDisarmReplyGuarantee disposition delivery recoveryTransferDurable =
     (if delivery_kind_str delivery = ''delivery_unknown'' then False
      else delivery_kind_str delivery = ''echoed''
        \<or> (disposition = Td_transferred_to_recovery_owner \<and> recoveryTransferDurable)
        \<or> disposition = Td_finalized_no_reply_policy)"

fun persistedAttemptFailureClass :: "attempt_outcome \<Rightarrow> string option" where
  "persistedAttemptFailureClass (Ao_failed c) = Some (attempt_failure_str c)"
| "persistedAttemptFailureClass (Ao_admission_rejected c) = map_option failure_class_str c"
| "persistedAttemptFailureClass _ = None"

definition persisted_delivery_kind :: "delivery_evidence \<Rightarrow> string" where
  "persisted_delivery_kind e = (if delivery_kind_str e = ''not_sent'' then ''none'' else delivery_kind_str e)"

fun persisted_delivery_op :: "delivery_evidence \<Rightarrow> int option" where
  "persisted_delivery_op De_none = None"
| "persisted_delivery_op (De_not_sent _) = None"
| "persisted_delivery_op (De_enqueued k) = Some k"
| "persisted_delivery_op (De_flushed k) = Some k"
| "persisted_delivery_op (De_echoed k) = Some k"
| "persisted_delivery_op (De_delivery_unknown k) = Some k"

definition unresolved_delivery :: "delivery_evidence \<Rightarrow> bool" where
  "unresolved_delivery e \<longleftrightarrow> delivery_kind_str e \<in> {''enqueued'', ''flushed'', ''delivery_unknown''}"

definition check_recovery_owner :: "recovery_owner option \<Rightarrow> unit result" where
  "check_recovery_owner owner = (case owner of None \<Rightarrow> Inr ()
     | Some ro \<Rightarrow> throw_if (\<not> isNonEmptyString (rw_logicalTurnId ro))
         (Error ''A recovery owner requires a nonempty logical turn ID'')
      (throw_if (\<not> isNonEmptyString (rw_managerId ro)) (Error ''A recovery owner requires a nonempty manager ID'')
      (throw_if (\<not> safe_integer (rw_generation ro) \<or> rw_generation ro < 1)
         (Error ''A recovery owner generation must be a positive safe integer'') (Inr ()))))"

definition toTurnTerminalPersistence :: "turn_result \<Rightarrow> recovery_owner option \<Rightarrow> terminal_params result" where
  "toTurnTerminalPersistence r owner = (let transferred = tx_disposition r = Td_transferred_to_recovery_owner; i = tx_identity r in
     throw_if (transferred \<and> owner = None)
       (Error ''A transferred terminal disposition requires a recovery owner identity'')
    (throw_if (transferred \<and> \<not> unresolved_delivery (tx_delivery r))
       (Error ''A transferred terminal disposition requires unresolved delivery evidence'')
    (throw_if (\<not> transferred \<and> owner \<noteq> None)
       (Error ''A recovery owner identity is only valid for a transferred disposition'')
    (and_then (check_recovery_owner owner) (\<lambda>_.
     throw_if (delivery_kind_str (tx_delivery r) = ''delivery_unknown''
         \<and> tx_disposition r \<noteq> Td_unfinalized_retry_owned \<and> \<not> transferred)
       (Error ''delivery_unknown requires a bounded retry owner until late-echo reconciliation'')
       (Inr \<lparr>fp_scope = ti_scope i, fp_conversationKey = ti_conversationKey i, fp_deliveryJid = ti_deliveryJid i,
          fp_inboundSeq = ti_inboundSeq i, fp_logicalTurnId = ti_logicalTurnId i, fp_managerId = ti_managerId i,
          fp_generation = ti_generation i, fp_attemptKind = attempt_kind_str (tx_attempt r),
          fp_attemptFailureClass = persistedAttemptFailureClass (tx_attempt r),
          fp_inboundDisposition = turn_disposition_str (tx_disposition r),
          fp_deliveryKind = persisted_delivery_kind (tx_delivery r), fp_deliveryOpId = persisted_delivery_op (tx_delivery r),
          fp_ownerLogicalTurnId = map_option rw_logicalTurnId owner, fp_ownerManagerId = map_option rw_managerId owner,
          fp_ownerGeneration = map_option rw_generation owner,
          fp_replyGuaranteeDisarmed = shouldDisarmReplyGuarantee (tx_disposition r) (tx_delivery r) False\<rparr>))))))"

text \<open>The mutation is derived from the identity, the disposition and the attempt alone.\<close>

definition derived_axes :: "turn_result \<Rightarrow> terminal_params \<Rightarrow> terminal_params" where
  "derived_axes r t = t\<lparr>fp_inboundSeq := ti_inboundSeq (tx_identity r),
     fp_inboundDisposition := turn_disposition_str (tx_disposition r), fp_attemptKind := attempt_kind_str (tx_attempt r),
     fp_attemptFailureClass := persistedAttemptFailureClass (tx_attempt r)\<rparr>"

fun failed_or_rejected :: "attempt_outcome \<Rightarrow> bool" where
  "failed_or_rejected (Ao_failed _) \<longleftrightarrow> True"
| "failed_or_rejected (Ao_admission_rejected _) \<longleftrightarrow> True"
| "failed_or_rejected _ \<longleftrightarrow> False"

definition toInboundMutation :: "turn_result \<Rightarrow> terminal_params \<Rightarrow> inbound_mutation option result" where
  "toInboundMutation r t = (case tx_disposition r of
     Td_finalized_replied \<Rightarrow> throw_if (delivery_kind_str (tx_delivery r) \<noteq> ''echoed'')
       (Error ''finalized_replied requires echoed delivery evidence'') (deriveTerminalInboundMutation (derived_axes r t))
   | Td_finalized_no_reply_policy \<Rightarrow> throw_if (tx_attempt r \<noteq> Ao_suppressed_by_policy \<and> tx_attempt r \<noteq> Ao_withheld_by_policy)
       (Error ''finalized_no_reply_policy requires an explicit policy suppression'')
       (deriveTerminalInboundMutation (derived_axes r t))
   | Td_failed_terminal \<Rightarrow> throw_if (\<not> failed_or_rejected (tx_attempt r))
       (Error ''failed_terminal requires a failed or admission-rejected attempt'')
       (deriveTerminalInboundMutation (derived_axes r t))
   | Td_transferred_to_recovery_owner \<Rightarrow> Inr None
   | Td_unfinalized_retry_owned \<Rightarrow> Inr None)"

definition toTurnFinalizationPersistence ::
  "turn_result \<Rightarrow> recovery_owner option \<Rightarrow> (terminal_params \<times> inbound_mutation option) result" where
  "toTurnFinalizationPersistence r owner = and_then (toTurnTerminalPersistence r owner) (\<lambda>t.
     and_then (toInboundMutation r t) (\<lambda>m. Inr (t, m)))"

definition toTurnRecoveryJobPersistence ::
  "turn_result \<Rightarrow> recovery_owner \<Rightarrow> replay_envelope \<Rightarrow> job_params result" where
  "toTurnRecoveryJobPersistence r owner replay = (let i = tx_identity r in
     throw_if (tx_disposition r \<noteq> Td_transferred_to_recovery_owner)
       (Error ''A recovery job requires a transferred disposition'')
    (case ti_inboundSeq i of None \<Rightarrow> Inl (Error ''A recovery job requires an existing journaled inbound source'')
     | Some k \<Rightarrow> and_then (toTurnTerminalPersistence r (Some owner)) (\<lambda>_.
       throw_if (\<not> isNonEmptyString (re_sourceMessageId replay))
         (Error ''A recovery job requires a nonempty source message ID'')
      (throw_if (\<not> isNonEmptyString (re_senderJid replay)) (Error ''A recovery job requires a nonempty sender JID'')
      (throw_if (length (re_text replay) > TURN_RECOVERY_MAX_TEXT_BYTES) (Error ''Recovery replay text exceeds its byte limit'')
      (throw_if (\<not> isNonEmptyString (re_text replay)) (Error ''A recovery job requires nonempty replay text'')
      (throw_if (\<not> re_isGroup replay \<and> re_groupName replay \<noteq> None)
         (Error ''A direct-message recovery job cannot carry a group name'')
       (Inr \<lparr>jp_scope = ti_scope i, jp_conversationKey = ti_conversationKey i, jp_deliveryJid = ti_deliveryJid i,
          jp_sourceInboundSeq = k, jp_sourceLogicalTurnId = ti_logicalTurnId i, jp_sourceManagerId = ti_managerId i,
          jp_sourceGeneration = ti_generation i, jp_sourceMessageId = re_sourceMessageId replay,
          jp_ownerLogicalTurnId = rw_logicalTurnId owner, jp_ownerManagerId = rw_managerId owner,
          jp_ownerGeneration = rw_generation owner, jp_replaySafe = re_replaySafe replay, jp_senderJid = re_senderJid replay,
          jp_senderName = re_senderName replay, jp_replayText = re_text replay, jp_isGroup = re_isGroup replay,
          jp_groupName = re_groupName replay\<rparr>))))))))"

end
