(* ===== verification/TurnTerminalLaws.thy ===== *)
theory TurnTerminalLaws
  imports TurnTerminal FinalizeLaws
begin

text \<open>
  The adapter against the contract of finalization: exactly the turns whose delivery evidence fits their
  disposition are accepted, with the request the adapter built.
\<close>

section \<open>Requests\<close>

definition sound_identity :: "turn_identity \<Rightarrow> bool" where
  "sound_identity i \<longleftrightarrow> ti_scope i \<in> set SCOPES \<and> bounded_id (ti_conversationKey i) \<and> bounded_id (ti_deliveryJid i)
     \<and> parseWhatsAppDeliveryNamespace (ti_deliveryJid i) \<noteq> None \<and> bounded_id (ti_logicalTurnId i)
     \<and> bounded_id (ti_managerId i) \<and> positive_safe (ti_generation i) \<and> (\<forall>k. ti_inboundSeq i = Some k \<longrightarrow> positive_safe k)"

definition sound_turn :: "turn_result \<Rightarrow> bool" where
  "sound_turn r \<longleftrightarrow> typed_outcome (tx_attempt r) \<and> sound_identity (tx_identity r)
     \<and> (\<forall>k. persisted_delivery_op (tx_delivery r) = Some k \<longrightarrow> positive_safe k)"

text \<open>The delivery evidence a disposition admits, beyond what the adapter itself refuses.\<close>

definition evidence_fits :: "turn_result \<Rightarrow> bool" where
  "evidence_fits r \<longleftrightarrow>
     (tx_disposition r \<in> {Td_finalized_no_reply_policy, Td_failed_terminal} \<longrightarrow> persisted_delivery_kind (tx_delivery r) = ''none'')
     \<and> (tx_disposition r = Td_unfinalized_retry_owned \<longrightarrow> delivery_kind_str (tx_delivery r) \<noteq> ''echoed'')"

definition within_store_limits :: "turn_result \<Rightarrow> recovery_owner \<Rightarrow> replay_envelope \<Rightarrow> bool" where
  "within_store_limits r ro replay \<longleftrightarrow> length (rw_logicalTurnId ro) \<le> TURN_RECOVERY_MAX_ID_BYTES
     \<and> length (rw_managerId ro) \<le> TURN_RECOVERY_MAX_ID_BYTES \<and> length (re_sourceMessageId replay) \<le> TURN_RECOVERY_MAX_ID_BYTES
     \<and> length (re_senderJid replay) \<le> TURN_RECOVERY_MAX_ID_BYTES
     \<and> (\<forall>s. re_senderName replay = Some s \<longrightarrow> length s \<le> TURN_RECOVERY_MAX_NAME_BYTES)
     \<and> (\<forall>s. re_groupName replay = Some s \<longrightarrow> length s \<le> TURN_RECOVERY_MAX_NAME_BYTES)
     \<and> (rw_logicalTurnId ro, rw_managerId ro, rw_generation ro)
         \<noteq> (ti_logicalTurnId (tx_identity r), ti_managerId (tx_identity r), ti_generation (tx_identity r))"

text \<open>The request made of what the adapter built, with the recovery job of a turn that is handed over.\<close>

definition adapted_request :: "terminal_params \<Rightarrow> inbound_mutation option \<Rightarrow> job_params option \<Rightarrow> finalize_params" where
  "adapted_request t m job = \<lparr>fz_terminal = t, fz_inbound = m, fz_bookkeeping = None, fz_recoveryJob = job,
     fz_capabilityDecision = None, fz_bestEffort = False\<rparr>"

lemma adapted_request_sel [simp]:
  "fz_terminal (adapted_request t m job) = t" "fz_inbound (adapted_request t m job) = m"
  "fz_bookkeeping (adapted_request t m job) = None" "fz_recoveryJob (adapted_request t m job) = job"
  "fz_capabilityDecision (adapted_request t m job) = None" "fz_bestEffort (adapted_request t m job) = False"
  "(adapted_request t m job)\<lparr>fz_terminal := t'\<rparr> = adapted_request t' m job"
  by (simp_all add: adapted_request_def)

section \<open>What the adapter persists\<close>

lemma persistedD:
  assumes "toTurnTerminalPersistence r owner = Inr t"
  shows "fp_scope t = ti_scope (tx_identity r)" "fp_conversationKey t = ti_conversationKey (tx_identity r)"
    "fp_deliveryJid t = ti_deliveryJid (tx_identity r)" "fp_inboundSeq t = ti_inboundSeq (tx_identity r)"
    "fp_logicalTurnId t = ti_logicalTurnId (tx_identity r)" "fp_managerId t = ti_managerId (tx_identity r)"
    "fp_generation t = ti_generation (tx_identity r)" "fp_attemptKind t = attempt_kind_str (tx_attempt r)"
    "fp_attemptFailureClass t = persistedAttemptFailureClass (tx_attempt r)"
    "fp_inboundDisposition t = turn_disposition_str (tx_disposition r)"
    "fp_deliveryKind t = persisted_delivery_kind (tx_delivery r)" "fp_deliveryOpId t = persisted_delivery_op (tx_delivery r)"
    "fp_ownerLogicalTurnId t = map_option rw_logicalTurnId owner" "fp_ownerManagerId t = map_option rw_managerId owner"
    "fp_ownerGeneration t = map_option rw_generation owner"
    "fp_replyGuaranteeDisarmed t = shouldDisarmReplyGuarantee (tx_disposition r) (tx_delivery r) False"
    "tx_disposition r = Td_transferred_to_recovery_owner \<longleftrightarrow> owner \<noteq> None"
    "tx_disposition r = Td_transferred_to_recovery_owner \<Longrightarrow> unresolved_delivery (tx_delivery r)"
    "check_recovery_owner owner = Inr ()"
    "delivery_kind_str (tx_delivery r) = ''delivery_unknown'' \<Longrightarrow>
       tx_disposition r \<in> {Td_unfinalized_retry_owned, Td_transferred_to_recovery_owner}"
  using assms by (auto simp: toTurnTerminalPersistence_def Let_def throw_if_Inr and_then_Inr)

lemma derived_axes_same: "toTurnTerminalPersistence r owner = Inr t \<Longrightarrow> derived_axes r t = t"
  using persistedD(4,8-10) [of r owner t] by (simp add: derived_axes_def)

lemma disposition_str_iff [simp]:
  "turn_disposition_str x = ''finalized_replied'' \<longleftrightarrow> x = Td_finalized_replied"
  "turn_disposition_str x = ''finalized_no_reply_policy'' \<longleftrightarrow> x = Td_finalized_no_reply_policy"
  "turn_disposition_str x = ''transferred_to_recovery_owner'' \<longleftrightarrow> x = Td_transferred_to_recovery_owner"
  "turn_disposition_str x = ''failed_terminal'' \<longleftrightarrow> x = Td_failed_terminal"
  "turn_disposition_str x = ''unfinalized_retry_owned'' \<longleftrightarrow> x = Td_unfinalized_retry_owned"
  by (cases x; simp)+

lemma delivery_kind_cases:
  "persisted_delivery_kind e = ''none'' \<longleftrightarrow> persisted_delivery_op e = None"
  "persisted_delivery_kind e \<noteq> ''none'' \<Longrightarrow> persisted_delivery_kind e = delivery_kind_str e
     \<and> DELIVERY_STATUS_PROOF (delivery_kind_str e) \<noteq> None"
  "persisted_delivery_kind e = ''echoed'' \<longleftrightarrow> delivery_kind_str e = ''echoed''"
  "persisted_delivery_kind e = ''delivery_unknown'' \<longleftrightarrow> delivery_kind_str e = ''delivery_unknown''"
  by (cases e; simp add: persisted_delivery_kind_def DELIVERY_STATUS_PROOF_def)+

lemma provider_kind_listed: "provider_failure_kind_str k \<in> set TERMINAL_PROVIDER_FAILURE_CLASSES"
  by (cases k) (simp_all add: TERMINAL_PROVIDER_FAILURE_CLASSES_def)

lemma typed_failure_class:
  assumes "typed_outcome a" "failed_or_rejected a"
  shows "\<exists>c. expectedTerminalInboundFailureClass
    (t\<lparr>fp_attemptKind := attempt_kind_str a, fp_attemptFailureClass := persistedAttemptFailureClass a\<rparr>) = Inr c"
proof (cases a)
  case (Ao_failed f)
  then show ?thesis
  proof (cases f)
    case (Af_provider k)
    with Ao_failed show ?thesis
      by (cases k) (simp_all add: expectedTerminalInboundFailureClass_def TERMINAL_PROVIDER_FAILURE_CLASSES_def throw_if_def)
  qed (simp_all add: expectedTerminalInboundFailureClass_def throw_if_def)
next
  case (Ao_admission_rejected c)
  with assms(1) show ?thesis
    by (cases c) (auto simp: expectedTerminalInboundFailureClass_def admissionRejectInboundFailureClass_def
        ADMISSION_REJECT_CLASSES_def)
qed (use assms(2) in simp_all)

lemma typed_attempt:
  assumes "typed_outcome a" "fp_attemptKind t = attempt_kind_str a" "fp_attemptFailureClass t = persistedAttemptFailureClass a"
  shows "check_attempt t = Inr ()"
proof (cases a)
  case (Ao_failed f)
  then show ?thesis
    using assms
    by (cases f) (simp_all add: check_attempt_def exact_failure_class_def provider_kind_listed throw_if_def)
next
  case (Ao_admission_rejected c)
  with assms show ?thesis by (cases c) (auto simp: check_attempt_def throw_if_def)
qed (use assms in \<open>simp_all add: check_attempt_def throw_if_def\<close>)

section \<open>Each check of the contract\<close>

lemma adapted_inbound:
  assumes "toInboundMutation r t = Inr m" "toTurnTerminalPersistence r owner = Inr t"
  shows "deriveTerminalInboundMutation t = Inr m" "\<forall>x. m = Some x \<longrightarrow> fp_inboundSeq t = Some (mutation_seq x)"
    "tx_disposition r = Td_finalized_replied \<Longrightarrow> delivery_kind_str (tx_delivery r) = ''echoed''"
    "tx_disposition r = Td_finalized_no_reply_policy \<Longrightarrow> tx_attempt r \<in> {Ao_suppressed_by_policy, Ao_withheld_by_policy}"
    "tx_disposition r = Td_failed_terminal \<Longrightarrow> failed_or_rejected (tx_attempt r)"
proof -
  show d: "deriveTerminalInboundMutation t = Inr m"
    using assms(1) derived_axes_same [OF assms(2)] persistedD(10) [OF assms(2)]
    by (cases "tx_disposition r") (auto simp: toInboundMutation_def throw_if_Inr deriveTerminalInboundMutation_def split: option.splits)
  show "\<forall>x. m = Some x \<longrightarrow> fp_inboundSeq t = Some (mutation_seq x)"
    using d by (auto simp: deriveTerminalInboundMutation_def and_then_Inr split: option.splits if_splits)
  show "tx_disposition r = Td_finalized_replied \<Longrightarrow> delivery_kind_str (tx_delivery r) = ''echoed''"
    "tx_disposition r = Td_finalized_no_reply_policy \<Longrightarrow> tx_attempt r \<in> {Ao_suppressed_by_policy, Ao_withheld_by_policy}"
    "tx_disposition r = Td_failed_terminal \<Longrightarrow> failed_or_rejected (tx_attempt r)"
    using assms(1) by (auto simp: toInboundMutation_def throw_if_Inr)
qed

lemma identity_passes:
  assumes sound: "sound_turn r" and terminal: "toTurnTerminalPersistence r owner = Inr t" and inbound: "toInboundMutation r t = Inr m"
  shows "\<exists>ns. check_identity (adapted_request t m job) = Inr ns"
proof -
  note sel = persistedD [OF terminal] and mutation = adapted_inbound [OF inbound terminal]
  obtain ns where "parseWhatsAppDeliveryNamespace (ti_deliveryJid (tx_identity r)) = Some ns"
    using sound by (auto simp: sound_turn_def sound_identity_def)
  then have "requireDeliveryNamespace (fp_deliveryJid t) = Inr ns" by (simp add: requireDeliveryNamespace_def sel(1-16))
  with sound sel(1-16) show ?thesis
    by (auto simp: check_identity_def Let_def throw_if_Inr and_then_Inr validate_id_def result_simps sound_turn_def
        sound_identity_def split: option.splits)
qed

lemma delivery_passes:
  assumes sound: "sound_turn r" and terminal: "toTurnTerminalPersistence r owner = Inr t" and inbound: "toInboundMutation r t = Inr m"
  shows "check_delivery (adapted_request t m job) = Inr ()"
proof -
  note sel = persistedD [OF terminal] and mutation = adapted_inbound [OF inbound terminal]
  have "\<not> (if fp_deliveryKind t = ''none'' then fp_deliveryOpId t \<noteq> None
         else (case fp_deliveryOpId t of None \<Rightarrow> True | Some k \<Rightarrow> \<not> safe_integer k \<or> k < 1)
           \<or> DELIVERY_STATUS_PROOF (fp_deliveryKind t) = None)"
    using delivery_kind_cases(1,2) [of "tx_delivery r"] sound
    by (auto simp: sel(1-16) sound_turn_def positive_safe_def safe_integer_def split: option.splits)
  moreover have "fp_deliveryKind t = ''delivery_unknown'' \<Longrightarrow>
      fp_inboundDisposition t \<in> {''unfinalized_retry_owned'', ''transferred_to_recovery_owner''}"
    using sel(20) delivery_kind_cases(4) by (auto simp: sel(1-16))
  ultimately show ?thesis
    using mutation(2) by (auto simp: check_delivery_def Let_def throw_if_Inr split: option.splits)
qed

lemma disposition_passes:
  assumes sound: "sound_turn r" and terminal: "toTurnTerminalPersistence r owner = Inr t" and inbound: "toInboundMutation r t = Inr m"
  shows "check_disposition (adapted_request t m job) = Inr () \<longleftrightarrow> evidence_fits r"
proof -
  note sel = persistedD [OF terminal] and mutation = adapted_inbound [OF inbound terminal]
  show ?thesis
  proof (cases "tx_disposition r")
    case Td_finalized_replied
    then show ?thesis
      using mutation(1,3) delivery_kind_cases(3)
      by (auto simp: check_disposition_def Let_def throw_if_Inr and_then_Inr sel(1-16) completes_with_def evidence_fits_def
          deriveTerminalInboundMutation_def split: option.splits)
  next
    case Td_finalized_no_reply_policy
    then have "fp_attemptKind t \<in> {''suppressed_by_policy'', ''withheld_by_policy''}" using mutation(4) by (auto simp: sel(1-16))
    with Td_finalized_no_reply_policy show ?thesis
      using mutation(1)
      by (auto simp: check_disposition_def Let_def throw_if_Inr and_then_Inr sel(4,10,11) completes_with_def evidence_fits_def
          deriveTerminalInboundMutation_def split: option.splits)
  next
    case Td_failed_terminal
    have "t\<lparr>fp_attemptKind := attempt_kind_str (tx_attempt r), fp_attemptFailureClass := persistedAttemptFailureClass (tx_attempt r)\<rparr> = t"
      using sel(8,9) by simp
    then obtain c where "expectedTerminalInboundFailureClass t = Inr c"
      using typed_failure_class [of "tx_attempt r" t] mutation(5) [OF Td_failed_terminal] sound by (auto simp: sound_turn_def)
    with Td_failed_terminal show ?thesis
      using mutation(1)
      by (auto simp: check_disposition_def Let_def throw_if_Inr and_then_Inr sel(4,10,11) evidence_fits_def
          deriveTerminalInboundMutation_def split: option.splits)
  next
    case Td_transferred_to_recovery_owner
    then have "m = None" "persisted_delivery_kind (tx_delivery r) \<in> {''enqueued'', ''flushed'', ''delivery_unknown''}"
      using inbound sel(18) by (auto simp: toInboundMutation_def unresolved_delivery_def persisted_delivery_kind_def)
    with Td_transferred_to_recovery_owner show ?thesis
      by (auto simp: check_disposition_def Let_def throw_if_def sel(1-16) evidence_fits_def)
  next
    case Td_unfinalized_retry_owned
    then have "m = None" using inbound by (simp add: toInboundMutation_def)
    with Td_unfinalized_retry_owned show ?thesis
      using delivery_kind_cases(3) by (auto simp: check_disposition_def Let_def throw_if_Inr and_then_Inr sel(1-16) evidence_fits_def)
  qed
qed

lemma disarm_unchanged:
  assumes sound: "sound_turn r" and terminal: "toTurnTerminalPersistence r owner = Inr t" and inbound: "toInboundMutation r t = Inr m"
  shows "normalized_terminal t = t"
proof -
  note sel = persistedD [OF terminal] and mutation = adapted_inbound [OF inbound terminal]
  have "fp_replyGuaranteeDisarmed t \<longleftrightarrow> fp_deliveryKind t = ''echoed'' \<or> fp_inboundDisposition t = ''finalized_no_reply_policy''"
    using sel(20) delivery_kind_cases(3) by (auto simp: sel(1-16) shouldDisarmReplyGuarantee_def)
  then show ?thesis by (simp add: normalized_terminal_def)
qed

section \<open>Owners and recovery jobs\<close>

lemma owner_passes:
  assumes "toTurnTerminalPersistence r owner = Inr t"
    "\<forall>ro. owner = Some ro \<longrightarrow> length (rw_logicalTurnId ro) \<le> TURN_RECOVERY_MAX_ID_BYTES \<and> length (rw_managerId ro) \<le> TURN_RECOVERY_MAX_ID_BYTES"
  shows "check_owner (adapted_request t m job) = Inr ()"
proof (cases owner)
  case None
  with persistedD(10,13-17) [OF assms(1)] show ?thesis
    by (simp add: check_owner_def Let_def throw_if_def is_transfer_def)
next
  case (Some ro)
  with persistedD(19) [OF assms(1)] assms(2) have "bounded_id (rw_logicalTurnId ro)" "bounded_id (rw_managerId ro)"
    "positive_safe (rw_generation ro)"
    by (auto simp: check_recovery_owner_def throw_if_Inr bounded_id_def positive_safe_def safe_integer_def)
  with Some persistedD(10,13-17) [OF assms(1)] show ?thesis
    by (auto simp: check_owner_def Let_def throw_if_def is_transfer_def and_then_Inr validate_id_def result_simps)
qed

lemma no_job_passes:
  "toTurnTerminalPersistence r None = Inr t \<Longrightarrow> check_job (adapted_request t m None) = Inr ()"
  using persistedD(10,17) [of r None t] by (simp add: check_job_def Let_def throw_if_def is_transfer_def)

lemma handed_over_job_passes:
  assumes "sound_turn r" "toTurnTerminalPersistence r (Some ro) = Inr t"
    "toTurnRecoveryJobPersistence r ro replay = Inr job" "within_store_limits r ro replay"
  shows "check_job (adapted_request t m (Some job)) = Inr ()"
proof -
  obtain k where k: "ti_inboundSeq (tx_identity r) = Some k"
    using assms(3) by (cases "ti_inboundSeq (tx_identity r)") (simp_all add: toTurnRecoveryJobPersistence_def Let_def throw_if_Inr)
  have built: "job = \<lparr>jp_scope = ti_scope (tx_identity r), jp_conversationKey = ti_conversationKey (tx_identity r),
      jp_deliveryJid = ti_deliveryJid (tx_identity r), jp_sourceInboundSeq = k,
      jp_sourceLogicalTurnId = ti_logicalTurnId (tx_identity r), jp_sourceManagerId = ti_managerId (tx_identity r),
      jp_sourceGeneration = ti_generation (tx_identity r), jp_sourceMessageId = re_sourceMessageId replay,
      jp_ownerLogicalTurnId = rw_logicalTurnId ro, jp_ownerManagerId = rw_managerId ro,
      jp_ownerGeneration = rw_generation ro, jp_replaySafe = re_replaySafe replay, jp_senderJid = re_senderJid replay,
      jp_senderName = re_senderName replay, jp_replayText = re_text replay, jp_isGroup = re_isGroup replay,
      jp_groupName = re_groupName replay\<rparr>"
    and env: "isNonEmptyString (re_sourceMessageId replay)" "isNonEmptyString (re_senderJid replay)"
      "\<not> length (re_text replay) > TURN_RECOVERY_MAX_TEXT_BYTES" "isNonEmptyString (re_text replay)"
      "re_isGroup replay \<or> re_groupName replay = None"
    using assms(3) by (auto simp: toTurnRecoveryJobPersistence_def Let_def throw_if_Inr and_then_Inr k)
  have owner: "isNonEmptyString (rw_logicalTurnId ro)" "isNonEmptyString (rw_managerId ro)" "positive_safe (rw_generation ro)"
    using persistedD(19) [OF assms(2)]
    by (auto simp: check_recovery_owner_def throw_if_Inr positive_safe_def safe_integer_def)
  have "validateTurnRecoveryJob job = Inr ()"
    using assms(1,4) k env owner
    by (auto simp: validateTurnRecoveryJob_def built throw_if_def and_then_Inr validate_id_def result_simps bounded_id_def
        sound_turn_def sound_identity_def within_store_limits_def)
  then show ?thesis
    using assms(4) k persistedD(1-10,13-17) [OF assms(2)]
    by (auto simp: check_job_def Let_def throw_if_def is_transfer_def built within_store_limits_def)
qed

lemma adapted_normalizes:
  assumes "sound_turn r" "toTurnFinalizationPersistence r owner = Inr (t, m)"
    "case owner of None \<Rightarrow> job = None
     | Some ro \<Rightarrow> within_store_limits r ro replay \<and> (\<exists>j. job = Some j \<and> toTurnRecoveryJobPersistence r ro replay = Inr j)"
  shows "case normalizeFinalizeTurnTerminalParams (adapted_request t m job) of
      Inl _ \<Rightarrow> \<not> evidence_fits r | Inr q \<Rightarrow> evidence_fits r \<and> q = adapted_request t m job"
proof -
  have t: "toTurnTerminalPersistence r owner = Inr t" and m: "toInboundMutation r t = Inr m"
    using assms(2) by (auto simp: toTurnFinalizationPersistence_def and_then_Inr)
  obtain ns where "check_identity (adapted_request t m job) = Inr ns" using identity_passes [OF assms(1) t m] by blast
  moreover have "check_attempt t = Inr ()" using typed_attempt [OF _ persistedD(8,9) [OF t]] assms(1) by (simp add: sound_turn_def)
  moreover have "check_owner (adapted_request t m job) = Inr ()"
    using owner_passes [OF t] assms(3) by (cases owner) (auto simp: within_store_limits_def)
  moreover have "check_job (adapted_request t m job) = Inr ()"
    using no_job_passes handed_over_job_passes [OF assms(1)] t assms(3) by (cases owner) auto
  ultimately have n: "normalizeFinalizeTurnTerminalParams (adapted_request t m job)
      = and_then (check_disposition (adapted_request t m job)) (\<lambda>_. Inr (adapted_request t m job))"
    using delivery_passes [OF assms(1) t m] disarm_unchanged [OF assms(1) t m]
    by (simp add: normalizeFinalizeTurnTerminalParams_def Let_def)
  show ?thesis
  proof (cases "check_disposition (adapted_request t m job)")
    case (Inl e)
    with disposition_passes [OF assms(1) t m, of job] n show ?thesis by simp
  next
    case (Inr u)
    with disposition_passes [OF assms(1) t m, of job] n show ?thesis by simp
  qed
qed

section \<open>Properties\<close>

text \<open>C37: finalization accepts what the adapter builds of a sound turn exactly when the delivery evidence fits
  the disposition: no evidence for a turn that failed or owed no reply, no echo for a turn its owner retries.
  It then keeps the request as built, the disarmed reply guarantee included. A turn handed over needs the
  recovery job the adapter builds for it, within the limits of the store and for another owner.\<close>

theorem adapted_turn_is_accepted:
  assumes "sound_turn r" "toTurnFinalizationPersistence r owner = Inr (t, m)"
    "case owner of None \<Rightarrow> job = None
     | Some ro \<Rightarrow> within_store_limits r ro replay \<and> (\<exists>j. job = Some j \<and> toTurnRecoveryJobPersistence r ro replay = Inr j)"
  shows "case normalizeFinalizeTurnTerminalParams (adapted_request t m job) of
      Inl _ \<Rightarrow> \<not> evidence_fits r | Inr q \<Rightarrow> evidence_fits r \<and> q = adapted_request t m job"
  using assms by (rule adapted_normalizes)

definition handed_over_turn :: turn_result where
  "handed_over_turn = \<lparr>tx_identity = \<lparr>ti_scope = ''per_chat'', ti_conversationKey = ''1'', ti_deliveryJid = ''1@g.us'',
       ti_inboundSeq = Some 4, ti_logicalTurnId = ''T1'', ti_managerId = ''M1'', ti_generation = 1\<rparr>,
     tx_attempt = Ao_completed, tx_disposition = Td_transferred_to_recovery_owner, tx_delivery = De_enqueued 9\<rparr>"

definition next_owner :: recovery_owner where
  "next_owner = \<lparr>rw_logicalTurnId = ''T2'', rw_managerId = ''M2'', rw_generation = 2\<rparr>"

definition hello_replay :: replay_envelope where
  "hello_replay = \<lparr>re_sourceMessageId = ''M4'', re_replaySafe = True, re_senderJid = ''1@g.us'', re_senderName = None,
     re_text = ''hi'', re_isGroup = True, re_groupName = None\<rparr>"

theorem adapted_turn_is_accepted_witness:
  "\<exists>t j. toTurnTerminalPersistence handed_over_turn (Some next_owner) = Inr t
    \<and> toTurnRecoveryJobPersistence handed_over_turn next_owner hello_replay = Inr j
    \<and> normalizeFinalizeTurnTerminalParams (adapted_request t None (Some j)) = Inr (adapted_request t None (Some j))"
proof -
  have namespace: "parseWhatsAppDeliveryNamespace ''1@g.us'' \<noteq> None" by code_simp
  have sound: "sound_turn handed_over_turn"
    using namespace by (simp add: sound_turn_def sound_identity_def handed_over_turn_def SCOPES_def bounded_id_def
        isNonEmptyString_printable TURN_RECOVERY_MAX_ID_BYTES_def positive_safe_def)
  obtain t where t: "toTurnTerminalPersistence handed_over_turn (Some next_owner) = Inr t"
    by (simp add: toTurnTerminalPersistence_def handed_over_turn_def next_owner_def unresolved_delivery_def
        check_recovery_owner_def isNonEmptyString_printable throw_if_def safe_integer_def)
  have short: "\<not> TURN_RECOVERY_MAX_TEXT_BYTES < length (re_text hello_replay)"
    by (simp add: TURN_RECOVERY_MAX_TEXT_BYTES_def hello_replay_def)
  obtain j where j: "toTurnRecoveryJobPersistence handed_over_turn next_owner hello_replay = Inr j"
    using t short by (simp add: toTurnRecoveryJobPersistence_def)
      (simp add: handed_over_turn_def hello_replay_def isNonEmptyString_printable throw_if_def)
  have limits: "within_store_limits handed_over_turn next_owner hello_replay"
    by (simp add: within_store_limits_def handed_over_turn_def next_owner_def hello_replay_def TURN_RECOVERY_MAX_ID_BYTES_def)
  have pair: "toTurnFinalizationPersistence handed_over_turn (Some next_owner) = Inr (t, None)"
    using t by (simp add: toTurnFinalizationPersistence_def toInboundMutation_def) (simp add: handed_over_turn_def)
  have fits: "evidence_fits handed_over_turn" by (simp add: evidence_fits_def handed_over_turn_def)
  have "case normalizeFinalizeTurnTerminalParams (adapted_request t None (Some j)) of
      Inl _ \<Rightarrow> \<not> evidence_fits handed_over_turn
    | Inr q \<Rightarrow> evidence_fits handed_over_turn \<and> q = adapted_request t None (Some j)"
    by (rule adapted_turn_is_accepted [OF sound pair, where replay = hello_replay]) (use limits j in simp)
  with fits t j show ?thesis by (auto split: sum.splits)
qed

end
