(* ===== verification/InboundClose.thy ===== *)
theory InboundClose
  imports FinalizeLaws
begin

text \<open>
  Inbound events left open behind a final terminal record (\<^verbatim>\<open>src/core/terminal-record-inbound-close.ts\<close>): the
  evaluation of one event, the close it allows and the bounded scan that reports candidates. The resume
  point of the scan is process-local state. A text that compares as a time is a number of seconds.
\<close>

section \<open>Verdicts\<close>

definition FINAL_TERMINAL_DISPOSITIONS :: "string list" where
  "FINAL_TERMINAL_DISPOSITIONS = [''finalized_replied'', ''finalized_no_reply_policy'', ''failed_terminal'']"

definition OPEN_STATUSES :: "inbound_status list" where
  "OPEN_STATUSES = [Is_pending, Is_processing, Is_turn_done]"

datatype close_refusal = Cr_inbound_not_found | Cr_no_terminal_record | Cr_multiple_terminal_records
  | Cr_non_final_disposition | Cr_identity_mismatch | Cr_disposition_link | Cr_recovery_job
  | Cr_delivery_proof_invalid | Cr_record_contract_invalid | Cr_closed_differently

record eligible_close =
  el_seq :: int
  el_recordId :: int
  el_disposition :: string
  el_fromStatus :: inbound_status
  el_mutation :: inbound_mutation
  el_deliveryOpId :: "int option"

datatype close_evaluation = Eligible eligible_close
  | Already_closed int int string inbound_status
  | Refused int close_refusal "(int \<times> string) option" "inbound_status option"

section \<open>Evaluation\<close>

definition recordAsPersistenceParams :: "terminal_record \<Rightarrow> terminal_params" where
  "recordAsPersistenceParams r = \<lparr>fp_scope = tt_scope r, fp_conversationKey = tt_conversation_key r,
     fp_deliveryJid = tt_delivery_jid r, fp_inboundSeq = tt_inbound_seq r, fp_logicalTurnId = tt_logical_turn_id r,
     fp_managerId = tt_manager_id r, fp_generation = tt_generation r, fp_attemptKind = tt_attempt_kind r,
     fp_attemptFailureClass = tt_attempt_failure_class r, fp_inboundDisposition = tt_inbound_disposition r,
     fp_deliveryKind = tt_delivery_kind r, fp_deliveryOpId = tt_delivery_op_id r,
     fp_ownerLogicalTurnId = tt_owner_logical_turn_id r, fp_ownerManagerId = tt_owner_manager_id r,
     fp_ownerGeneration = tt_owner_generation r, fp_replyGuaranteeDisarmed = tt_reply_guarantee_disarmed r\<rparr>"

definition matchesMutation :: "inbound_event \<Rightarrow> inbound_mutation \<Rightarrow> bool" where
  "matchesMutation r m = (case m of
     Im_complete _ reason \<Rightarrow> ie_processing_status r = Is_complete \<and> ie_terminal_reason r = Some reason
   | Im_failed _ c \<Rightarrow> ie_processing_status r = Is_failed \<and> ie_failure_class r = Some c)"

text \<open>The request a stored record stands for: its terminal and the mutation it implies, nothing else.\<close>

definition record_request :: "terminal_params \<Rightarrow> inbound_mutation option \<Rightarrow> finalize_params" where
  "record_request t m = \<lparr>fz_terminal = t, fz_inbound = m, fz_bookkeeping = None, fz_recoveryJob = None,
     fz_capabilityDecision = None, fz_bestEffort = False\<rparr>"

definition implied_mutation :: "terminal_record \<Rightarrow> inbound_mutation option" where
  "implied_mutation r = (let t = recordAsPersistenceParams r in
     case and_then (deriveTerminalInboundMutation t) (\<lambda>m.
       and_then (normalizeFinalizeTurnTerminalParams (record_request t m)) (\<lambda>_. Inr m)) of
       Inl _ \<Rightarrow> None | Inr m \<Rightarrow> m)"

definition deliveryProofHolds :: "terminal_record \<Rightarrow> db \<Rightarrow> bool" where
  "deliveryProofHolds r d \<longleftrightarrow> (if tt_delivery_kind r = ''none'' then tt_delivery_op_id r = None
     else case tt_delivery_op_id r of None \<Rightarrow> False
     | Some k \<Rightarrow> (case get_op d k of None \<Rightarrow> False
       | Some x \<Rightarrow> op_conversation_key x = tt_conversation_key r \<and> op_chat_jid x = tt_delivery_jid r
           \<and> op_source_inbound_seq x = tt_inbound_seq r
           \<and> DELIVERY_STATUS_PROOF (tt_delivery_kind r) = Some (op_status x)))"

definition recovering_inbound :: "int \<Rightarrow> db \<Rightarrow> bool" where
  "recovering_inbound k d \<longleftrightarrow> exists_row (\<lambda>j. rj_source_inbound_seq j = k) (recovery_jobs d)"

definition records_of :: "int \<Rightarrow> db \<Rightarrow> terminal_record list" where
  "records_of k d = sort_key tt_id (filter (\<lambda>r. tt_inbound_seq_key r = k) (terminal_records d))"

definition evaluate_record :: "int \<Rightarrow> inbound_event \<Rightarrow> terminal_record \<Rightarrow> db \<Rightarrow> close_evaluation" where
  "evaluate_record k e r d = (let status = ie_processing_status e;
       refused = (\<lambda>reason. Refused k reason (Some (tt_id r, tt_inbound_disposition r)) (Some status)) in
     if tt_inbound_disposition r \<notin> set FINAL_TERMINAL_DISPOSITIONS then refused Cr_non_final_disposition
     else if tt_conversation_key r \<noteq> ie_conversation_key e \<or> tt_delivery_jid r \<noteq> ie_chat_jid e then refused Cr_identity_mismatch
     else if linked_inbound k d then refused Cr_disposition_link
     else if recovering_inbound k d then refused Cr_recovery_job
     else case implied_mutation r of
         None \<Rightarrow> refused Cr_record_contract_invalid
       | Some m \<Rightarrow>
           if \<not> deliveryProofHolds r d then refused Cr_delivery_proof_invalid
           else if status \<notin> set OPEN_STATUSES
           then (if matchesMutation e m then Already_closed k (tt_id r) (tt_inbound_disposition r) status
                 else refused Cr_closed_differently)
           else Eligible \<lparr>el_seq = k, el_recordId = tt_id r, el_disposition = tt_inbound_disposition r,
             el_fromStatus = status, el_mutation = m, el_deliveryOpId = tt_delivery_op_id r\<rparr>)"

definition evaluate :: "int \<Rightarrow> db \<Rightarrow> close_evaluation" where
  "evaluate k d = (case get_inbound d k of
     None \<Rightarrow> Refused k Cr_inbound_not_found None None
   | Some e \<Rightarrow> (case records_of k d of
       [] \<Rightarrow> Refused k Cr_no_terminal_record None (Some (ie_processing_status e))
     | [r] \<Rightarrow> evaluate_record k e r d
     | _ \<Rightarrow> Refused k Cr_multiple_terminal_records None (Some (ie_processing_status e))))"

section \<open>The close\<close>

definition closeComplete :: "string \<Rightarrow> int \<Rightarrow> int \<Rightarrow> db \<Rightarrow> db \<times> bool" where
  "closeComplete reason k now = cas_inbound (\<lambda>r. ie_processing_status r \<in> set OPEN_STATUSES)
     (\<lambda>r. r\<lparr>ie_processing_status := Is_complete, ie_completed_at := Some now, ie_terminal_reason := Some reason\<rparr>) k"

definition closeFailed :: "failure_class \<Rightarrow> int \<Rightarrow> int \<Rightarrow> db \<Rightarrow> db \<times> bool" where
  "closeFailed c k now = cas_inbound (\<lambda>r. ie_processing_status r \<in> set OPEN_STATUSES)
     (\<lambda>r. r\<lparr>ie_processing_status := Is_failed, ie_completed_at := Some now, ie_terminal_reason := Some ''error'',
        ie_failure_class := Some c\<rparr>) k"

definition markDeliveryTerminal :: "int \<Rightarrow> db \<Rightarrow> db \<times> bool" where
  "markDeliveryTerminal = cas_op (\<lambda>_. True) (\<lambda>r. r\<lparr>op_is_terminal := True\<rparr>)"

definition applyWithinCallerTransaction :: "inbound_mutation \<Rightarrow> int option \<Rightarrow> int \<Rightarrow> db \<Rightarrow> db result" where
  "applyWithinCallerTransaction m deliveryOp now d =
     (case (case m of Im_complete k reason \<Rightarrow> closeComplete reason k now d | Im_failed k c \<Rightarrow> closeFailed c k now d) of
        (d1, changed) \<Rightarrow>
          throw_if (\<not> changed) (Error ''Terminal-record inbound close did not update exactly one open row'')
          (case deliveryOp of None \<Rightarrow> Inr d1
           | Some n \<Rightarrow> (case markDeliveryTerminal n d1 of (d2, marked) \<Rightarrow>
               throw_if (\<not> marked) (Error ''Terminal-record inbound close could not mark its delivery op terminal'') (Inr d2))))"

section \<open>The scan\<close>

definition DEFAULT_PAGE_SIZE :: int where "DEFAULT_PAGE_SIZE = 200"
definition DEFAULT_SCAN_CAP :: int where "DEFAULT_SCAN_CAP = 1000"

record inbound_closer =
  ic_pageSize :: nat
  ic_scanCap :: nat
  ic_resumeAfterSeq :: int
  ic_cycleUpperSeq :: "int option"

definition positiveInteger :: "string \<Rightarrow> int \<Rightarrow> int result" where
  "positiveInteger name v = throw_if (\<not> safe_integer v \<or> v < 1)
     (RangeError (''TerminalRecordInboundCloser: '' @ name @ '' must be a positive integer'')) (Inr v)"

definition newInboundCloser :: "int option \<Rightarrow> int option \<Rightarrow> inbound_closer result" where
  "newInboundCloser pageSize scanCap =
     and_then (positiveInteger ''pageSize'' (case pageSize of None \<Rightarrow> DEFAULT_PAGE_SIZE | Some n \<Rightarrow> n)) (\<lambda>p.
     and_then (positiveInteger ''scanCap'' (case scanCap of None \<Rightarrow> DEFAULT_SCAN_CAP | Some n \<Rightarrow> n)) (\<lambda>c.
     throw_if (c < p) (RangeError ''TerminalRecordInboundCloser: scanCap must be >= pageSize'')
       (Inr \<lparr>ic_pageSize = nat p, ic_scanCap = nat c, ic_resumeAfterSeq = 0, ic_cycleUpperSeq = None\<rparr>)))"

text \<open>The joined rows of the candidate query: the event and the one record of its key.\<close>

definition candidate_record :: "int \<Rightarrow> db \<Rightarrow> inbound_event \<Rightarrow> terminal_record \<Rightarrow> bool" where
  "candidate_record now d i t \<longleftrightarrow> tt_inbound_seq_key t = ie_seq i
     \<and> tt_inbound_disposition t \<in> set FINAL_TERMINAL_DISPOSITIONS
     \<and> tt_conversation_key t = ie_conversation_key i \<and> tt_delivery_jid t = ie_chat_jid i
     \<and> ie_processing_status i \<in> set OPEN_STATUSES \<and> ie_received_at i < now - 300
     \<and> \<not> exists_row (\<lambda>x. tt_inbound_seq_key x = ie_seq i \<and> tt_id x \<noteq> tt_id t) (terminal_records d)
     \<and> \<not> linked_inbound (ie_seq i) d \<and> \<not> recovering_inbound (ie_seq i) d"

definition candidate_rows :: "int \<Rightarrow> db \<Rightarrow> int list" where
  "candidate_rows now d = sort (concat (map (\<lambda>i. map (\<lambda>t. ie_seq i) (filter (candidate_record now d i) (terminal_records d)))
     (inbound_events d)))"

definition candidatePage :: "int \<Rightarrow> int \<Rightarrow> nat \<Rightarrow> int \<Rightarrow> db \<Rightarrow> int list" where
  "candidatePage afterSeq upperSeq limit now d = take limit (filter (\<lambda>k. afterSeq < k \<and> k \<le> upperSeq) (candidate_rows now d))"

definition maxInboundSeq :: "db \<Rightarrow> int" where
  "maxInboundSeq d = (if inbound_events d = [] then 0 else Max (set (map ie_seq (inbound_events d))))"

definition closeCandidates :: "inbound_closer \<Rightarrow> int \<Rightarrow> db \<Rightarrow> int list" where
  "closeCandidates c now d = candidatePage 0 9007199254740991 (ic_pageSize c) now d"

type_synonym refusal_counts = "close_refusal \<Rightarrow> nat option"

definition count_refusal :: "close_refusal \<Rightarrow> refusal_counts \<Rightarrow> refusal_counts" where
  "count_refusal reason m = m(reason \<mapsto> (case m reason of None \<Rightarrow> 0 | Some n \<Rightarrow> n) + 1)"

record scan_progress =
  sp_eligible :: "int list"
  sp_refused :: refusal_counts
  sp_scanned :: nat
  sp_afterSeq :: int

definition scan_row :: "db \<Rightarrow> int \<Rightarrow> scan_progress \<Rightarrow> scan_progress" where
  "scan_row d k p = (case evaluate k d of
       Eligible _ \<Rightarrow> p\<lparr>sp_eligible := sp_eligible p @ [k]\<rparr>
     | Refused _ reason _ _ \<Rightarrow> p\<lparr>sp_refused := count_refusal reason (sp_refused p)\<rparr>
     | Already_closed _ _ _ _ \<Rightarrow> p)\<lparr>sp_scanned := sp_scanned p + 1, sp_afterSeq := k\<rparr>"

text \<open>The pages of one call. The loop need not end for a page size of zero, which the constructor refuses.\<close>

partial_function (option) scan_pages ::
  "nat \<Rightarrow> nat \<Rightarrow> int \<Rightarrow> int \<Rightarrow> db \<Rightarrow> scan_progress \<Rightarrow> (scan_progress \<times> bool) option" where
  "scan_pages pageSize scanCap upperSeq now d p = (if \<not> sp_scanned p < scanCap then Some (p, False)
     else let budget = min pageSize (scanCap - sp_scanned p); page = candidatePage (sp_afterSeq p) upperSeq (budget + 1) now d;
              p' = fold (scan_row d) (take budget page) p in
       if length page \<le> budget then Some (p', True) else scan_pages pageSize scanCap upperSeq now d p')"

declare scan_pages.simps [code]

record close_scan =
  cs_eligible :: "int list"
  cs_refusedByReason :: refusal_counts
  cs_scanned :: nat
  cs_complete :: bool
  cs_cycleUpperSeq :: int
  cs_nextAfterSeq :: int

definition inbound_scan :: "int \<Rightarrow> db \<Rightarrow> inbound_closer \<Rightarrow> (inbound_closer \<times> close_scan) option" where
  "inbound_scan now d c = (let (afterSeq, upper) = (case ic_cycleUpperSeq c of
         None \<Rightarrow> (0, maxInboundSeq d)
       | Some u \<Rightarrow> if ic_resumeAfterSeq c = 0 then (0, maxInboundSeq d) else (ic_resumeAfterSeq c, u)) in
     case scan_pages (ic_pageSize c) (ic_scanCap c) upper now d
         \<lparr>sp_eligible = [], sp_refused = Map.empty, sp_scanned = 0, sp_afterSeq = afterSeq\<rparr> of
       None \<Rightarrow> None
     | Some (p, reachedEnd) \<Rightarrow> (let nextAfterSeq = (if reachedEnd then 0 else sp_afterSeq p) in Some
         (c\<lparr>ic_resumeAfterSeq := nextAfterSeq, ic_cycleUpperSeq := (if reachedEnd then None else Some upper)\<rparr>,
          \<lparr>cs_eligible = sp_eligible p, cs_refusedByReason = sp_refused p, cs_scanned = sp_scanned p,
           cs_complete = reachedEnd, cs_cycleUpperSeq = upper, cs_nextAfterSeq = nextAfterSeq\<rparr>)))"

definition eligibleCandidates :: "int \<Rightarrow> db \<Rightarrow> inbound_closer \<Rightarrow> (inbound_closer \<times> int list) option" where
  "eligibleCandidates now d c = map_option (\<lambda>(c', s). (c', cs_eligible s)) (inbound_scan now d c)"

end
