(* ===== verification/InboundCloseLaws.thy ===== *)
theory InboundCloseLaws
  imports InboundClose
begin

text \<open>
  What the closer of inbound events guarantees: a cycle of scans reports every candidate the evaluator
  accepts, whatever the page size; an eligible close is applied and then evaluates as closed; a live
  finalization leaves nothing to close.
\<close>

section \<open>Candidates\<close>

definition rows_between :: "int \<Rightarrow> int \<Rightarrow> int \<Rightarrow> db \<Rightarrow> int list" where
  "rows_between afterSeq upperSeq now d = filter (\<lambda>k. afterSeq < k \<and> k \<le> upperSeq) (candidate_rows now d)"

lemma candidatePage_take: "candidatePage a u n now d = take n (rows_between a u now d)"
  by (simp add: candidatePage_def rows_between_def)

lemma same_key_at_most_one:
  assumes "distinct (map f xs)" "\<And>x y. x \<in> set xs \<Longrightarrow> y \<in> set xs \<Longrightarrow> f x = f y"
  shows "length xs \<le> 1"
proof (cases xs)
  case (Cons x ys)
  show ?thesis
  proof (cases ys)
    case (Cons y zs)
    with \<open>xs = x # ys\<close> assms(1) assms(2) [of x y] show ?thesis by simp
  qed (simp add: Cons)
qed simp

lemma last_take_nth: "1 \<le> n \<Longrightarrow> n \<le> length xs \<Longrightarrow> last (take n xs) = xs ! (n - 1)"
  by (subst last_conv_nth) (auto simp: min_def)

lemma candidate_unique:
  assumes "candidate_record now d i x" "candidate_record now d i y" "y \<in> set (terminal_records d)"
  shows "tt_id x = tt_id y"
proof (rule ccontr)
  assume "tt_id x \<noteq> tt_id y"
  moreover have "tt_inbound_seq_key y = ie_seq i" using assms(2) by (simp add: candidate_record_def)
  ultimately have "exists_row (\<lambda>z. tt_inbound_seq_key z = ie_seq i \<and> tt_id z \<noteq> tt_id x) (terminal_records d)"
    using assms(3) by (metis (mono_tags, lifting) exists_row_def list_ex_iff)
  with assms(1) show False by (simp add: candidate_record_def)
qed

lemma candidates_distinct:
  assumes "wf_db d"
  shows "distinct (candidate_rows now d)"
proof -
  have seqs: "distinct (map ie_seq (inbound_events d))" and ids: "distinct (map tt_id (terminal_records d))"
    using assms by (simp_all add: wf_db_def keys_ok_def)
  have one: "length (filter (candidate_record now d i) (terminal_records d)) \<le> 1" for i
  proof (rule same_key_at_most_one)
    show "distinct (map tt_id (filter (candidate_record now d i) (terminal_records d)))" using ids by (rule distinct_map_filter)
    show "tt_id x = tt_id y" if "x \<in> set (filter (candidate_record now d i) (terminal_records d))"
      "y \<in> set (filter (candidate_record now d i) (terminal_records d))" for x y
      using that candidate_unique [of now d i x y] by simp
  qed
  have "distinct (concat (map (\<lambda>i. map (\<lambda>t. ie_seq i) (filter (candidate_record now d i) (terminal_records d))) es))"
    if "distinct (map ie_seq es)" for es
    using that
  proof (induction es)
    case (Cons e es)
    have "filter (candidate_record now d e) (terminal_records d) = []
      \<or> (\<exists>t. filter (candidate_record now d e) (terminal_records d) = [t])"
      using one [of e] by (cases "filter (candidate_record now d e) (terminal_records d)") auto
    with Cons show ?case by auto
  qed simp
  from this [OF seqs] show ?thesis by (simp add: candidate_rows_def)
qed

lemma candidates_sorted: "sorted (candidate_rows now d)"
  by (simp add: candidate_rows_def)

text \<open>Past the first rows of a range lies the rest of the range.\<close>

lemma filter_above_nth:
  fixes ks :: "int list"
  assumes "sorted ks" "distinct ks" "n < length ks"
  shows "filter (\<lambda>k. ks ! n < k) ks = drop (Suc n) ks"
proof -
  have "\<forall>k \<in> set (take (Suc n) ks). \<not> ks ! n < k"
  proof
    fix k
    assume "k \<in> set (take (Suc n) ks)"
    then obtain i where i: "i < Suc n" "i < length ks" "k = ks ! i" by (auto simp: in_set_conv_nth)
    then have "ks ! i \<le> ks ! n" using assms(1,3) by (intro sorted_nth_mono) simp_all
    with i(3) show "\<not> ks ! n < k" by simp
  qed
  moreover have "\<forall>k \<in> set (drop (Suc n) ks). ks ! n < k"
  proof
    fix k
    assume "k \<in> set (drop (Suc n) ks)"
    then obtain i where i: "i < length ks - Suc n" "k = ks ! (Suc n + i)" by (auto simp: in_set_conv_nth)
    have "ks ! n \<le> ks ! (Suc n + i)" using assms(1) i(1) by (intro sorted_nth_mono) auto
    moreover have "ks ! n \<noteq> ks ! (Suc n + i)" using assms(2,3) i(1) by (subst nth_eq_iff_index_eq) auto
    ultimately show "ks ! n < k" using i(2) by simp
  qed
  ultimately have "filter (\<lambda>k. ks ! n < k) (take (Suc n) ks @ drop (Suc n) ks) = drop (Suc n) ks"
    by (subst filter_append) (simp add: filter_False filter_True)
  then show ?thesis by simp
qed

lemma rows_after_nth:
  assumes "wf_db d" "n < length (rows_between a u now d)"
  shows "rows_between (rows_between a u now d ! n) u now d = drop (Suc n) (rows_between a u now d)"
proof -
  let ?ks = "rows_between a u now d"
  have s: "sorted ?ks" "distinct ?ks"
    using candidates_sorted candidates_distinct [OF assms(1)] by (simp_all add: rows_between_def sorted_wrt_filter)
  have "a < ?ks ! n" using nth_mem [OF assms(2)] by (simp add: rows_between_def)
  then have "rows_between (?ks ! n) u now d = filter (\<lambda>k. ?ks ! n < k) ?ks"
    by (auto simp: rows_between_def intro: filter_cong)
  then show ?thesis using filter_above_nth [OF s assms(2)] by simp
qed

section \<open>One call of the scan\<close>

lemma scan_row_sel [simp]: "sp_scanned (scan_row d k p) = sp_scanned p + 1" "sp_afterSeq (scan_row d k p) = k"
  by (simp_all add: scan_row_def)

lemma fold_scan_sel [simp]:
  "sp_scanned (fold (scan_row d) ks p) = sp_scanned p + length ks"
  "ks \<noteq> [] \<Longrightarrow> sp_afterSeq (fold (scan_row d) ks p) = last ks"
  by (induction ks arbitrary: p rule: rev_induct) (simp_all add: fold_append)

definition accepted :: "db \<Rightarrow> int \<Rightarrow> bool" where
  "accepted d k \<longleftrightarrow> (case evaluate k d of Eligible _ \<Rightarrow> True | _ \<Rightarrow> False)"

lemma fold_scan_eligible: "sp_eligible (fold (scan_row d) ks p) = sp_eligible p @ filter (accepted d) ks"
  by (induction ks arbitrary: p) (simp_all add: scan_row_def accepted_def split: close_evaluation.splits)

text \<open>The loop is one pass over the rows of the range, whatever the page size.\<close>

lemma scan_pages_returns:
  assumes "wf_db d" "1 \<le> pageSize" "sp_scanned p < scanCap \<or> rows_between (sp_afterSeq p) u now d \<noteq> []"
    "sp_scanned p \<le> scanCap"
  shows "scan_pages pageSize scanCap u now d p
    = Some (fold (scan_row d) (take (scanCap - sp_scanned p) (rows_between (sp_afterSeq p) u now d)) p,
        length (rows_between (sp_afterSeq p) u now d) \<le> scanCap - sp_scanned p)"
  using assms(3,4)
proof (induction "scanCap - sp_scanned p" arbitrary: p rule: less_induct)
  case less
  let ?rows = "rows_between (sp_afterSeq p) u now d" and ?room = "scanCap - sp_scanned p"
  show ?case
  proof (cases "sp_scanned p < scanCap")
    case False
    with less.prems show ?thesis by (subst scan_pages.simps) auto
  next
    case True
    define n where "n = min pageSize ?room"
    have b: "1 \<le> n" "n \<le> ?room" using True assms(2) by (auto simp: n_def)
    let ?p = "fold (scan_row d) (take n ?rows) p"
    have step: "scan_pages pageSize scanCap u now d p = (if length ?rows \<le> n then Some (?p, True)
        else scan_pages pageSize scanCap u now d ?p)"
      using True by (subst scan_pages.simps) (auto simp: Let_def candidatePage_take n_def)
    show ?thesis
    proof (cases "length ?rows \<le> n")
      case True
      with b show ?thesis by (simp add: step)
    next
      case False
      have last: "sp_afterSeq ?p = ?rows ! (n - 1)"
        using False b last_take_nth [of n ?rows] by (subst fold_scan_sel(2)) auto
      have "Suc (n - 1) = n" using b(1) by simp
      with rows_after_nth [OF assms(1), of "n - 1" "sp_afterSeq p" u now] False last
      have rest: "rows_between (sp_afterSeq ?p) u now d = drop n ?rows" by simp
      have count: "sp_scanned ?p = sp_scanned p + n" using False by simp
      have "scan_pages pageSize scanCap u now d ?p
        = Some (fold (scan_row d) (take (scanCap - sp_scanned ?p) (rows_between (sp_afterSeq ?p) u now d)) ?p,
            length (rows_between (sp_afterSeq ?p) u now d) \<le> scanCap - sp_scanned ?p)"
      proof (rule less.hyps)
        show "scanCap - sp_scanned ?p < scanCap - sp_scanned p" unfolding count using b True by linarith
        show "sp_scanned ?p < scanCap \<or> rows_between (sp_afterSeq ?p) u now d \<noteq> []" unfolding rest using False by simp
        show "sp_scanned ?p \<le> scanCap" unfolding count using b True by linarith
      qed
      moreover have "take n ?rows @ take (?room - n) (drop n ?rows) = take ?room ?rows"
        using b by (simp add: take_add [symmetric])
      then have "fold (scan_row d) (take (?room - n) (drop n ?rows)) ?p = fold (scan_row d) (take ?room ?rows) p"
        by (metis fold_append comp_apply)
      moreover have "(length ?rows - n \<le> scanCap - (sp_scanned p + n)) = (length ?rows \<le> ?room)"
        using False b by linarith
      ultimately show ?thesis unfolding step rest count using False b by (simp add: diff_diff_left)
    qed
  qed
qed

definition scan_start :: "db \<Rightarrow> inbound_closer \<Rightarrow> int \<times> int" where
  "scan_start d c = (case ic_cycleUpperSeq c of None \<Rightarrow> (0, maxInboundSeq d)
     | Some u \<Rightarrow> if ic_resumeAfterSeq c = 0 then (0, maxInboundSeq d) else (ic_resumeAfterSeq c, u))"

lemma inbound_scan_returns:
  assumes "wf_db d" "1 \<le> ic_pageSize c" "1 \<le> ic_scanCap c" "scan_start d c = (a, u)"
  obtains s where "inbound_scan now d c = Some (c\<lparr>ic_resumeAfterSeq := cs_nextAfterSeq s,
      ic_cycleUpperSeq := (if cs_complete s then None else Some u)\<rparr>, s)"
    "cs_eligible s = filter (accepted d) (take (ic_scanCap c) (rows_between a u now d))"
    "cs_scanned s = min (length (rows_between a u now d)) (ic_scanCap c)"
    "cs_complete s \<longleftrightarrow> length (rows_between a u now d) \<le> ic_scanCap c" "cs_cycleUpperSeq s = u"
    "cs_nextAfterSeq s = (if cs_complete s then 0 else rows_between a u now d ! (ic_scanCap c - 1))"
proof -
  let ?rows = "rows_between a u now d"
  let ?p = "\<lparr>sp_eligible = [], sp_refused = Map.empty, sp_scanned = 0, sp_afterSeq = a\<rparr>"
  let ?q = "fold (scan_row d) (take (ic_scanCap c) ?rows) ?p"
  have pages: "scan_pages (ic_pageSize c) (ic_scanCap c) u now d ?p = Some (?q, length ?rows \<le> ic_scanCap c)"
    using scan_pages_returns [OF assms(1,2), of ?p "ic_scanCap c" u now] assms(3) by simp
  have nth: "sp_afterSeq ?q = ?rows ! (ic_scanCap c - 1)" if "\<not> length ?rows \<le> ic_scanCap c"
    using that assms(3) last_take_nth [of "ic_scanCap c" ?rows] by (subst fold_scan_sel(2)) auto
  let ?s = "\<lparr>cs_eligible = sp_eligible ?q, cs_refusedByReason = sp_refused ?q, cs_scanned = sp_scanned ?q,
     cs_complete = (length ?rows \<le> ic_scanCap c), cs_cycleUpperSeq = u,
     cs_nextAfterSeq = (if length ?rows \<le> ic_scanCap c then 0 else sp_afterSeq ?q)\<rparr>"
  show ?thesis
  proof (rule that [of ?s])
    show "inbound_scan now d c = Some (c\<lparr>ic_resumeAfterSeq := cs_nextAfterSeq ?s,
      ic_cycleUpperSeq := (if cs_complete ?s then None else Some u)\<rparr>, ?s)"
      unfolding inbound_scan_def scan_start_def [symmetric] assms(4) by (simp add: pages Let_def)
  qed (use nth in \<open>simp_all add: fold_scan_eligible min.commute\<close>)
qed

text \<open>Calls on the same database until the end of the range is reached, with what they report.\<close>

fun scan_cycle :: "nat \<Rightarrow> int \<Rightarrow> db \<Rightarrow> inbound_closer \<Rightarrow> (int list \<times> inbound_closer) option" where
  "scan_cycle 0 now d c = None"
| "scan_cycle (Suc n) now d c = (case inbound_scan now d c of
     None \<Rightarrow> None
   | Some (c', s) \<Rightarrow> if cs_complete s then Some (cs_eligible s, c')
       else map_option (\<lambda>(ks, c''). (cs_eligible s @ ks, c'')) (scan_cycle n now d c'))"

lemma scan_cycle_reports:
  assumes "wf_db d" "1 \<le> ic_pageSize c" "1 \<le> ic_scanCap c" "scan_start d c = (a, u)" "0 \<le> a"
    "length (rows_between a u now d) < n"
  shows "scan_cycle n now d c = Some (filter (accepted d) (rows_between a u now d), c\<lparr>ic_resumeAfterSeq := 0, ic_cycleUpperSeq := None\<rparr>)"
  using assms(2-)
proof (induction n arbitrary: c a)
  case (Suc n)
  let ?rows = "rows_between a u now d" and ?cap = "ic_scanCap c"
  obtain s where s: "inbound_scan now d c = Some (c\<lparr>ic_resumeAfterSeq := cs_nextAfterSeq s,
      ic_cycleUpperSeq := (if cs_complete s then None else Some u)\<rparr>, s)"
    "cs_eligible s = filter (accepted d) (take ?cap ?rows)" "cs_complete s \<longleftrightarrow> length ?rows \<le> ?cap"
    "cs_nextAfterSeq s = (if cs_complete s then 0 else ?rows ! (?cap - 1))"
    by (rule inbound_scan_returns [OF assms(1) Suc.prems(1-3)], rule that, assumption+)
  show ?case
  proof (cases "length ?rows \<le> ?cap")
    case True
    with s show ?thesis by simp
  next
    case False
    let ?c = "c\<lparr>ic_resumeAfterSeq := ?rows ! (?cap - 1), ic_cycleUpperSeq := Some u\<rparr>"
    have "?cap - 1 < length ?rows" "Suc (?cap - 1) = ?cap" using False Suc.prems(2) by auto
    with rows_after_nth [OF assms(1), of "?cap - 1" a u now]
    have rest: "rows_between (?rows ! (?cap - 1)) u now d = drop ?cap ?rows" by simp
    have pos: "a < ?rows ! (?cap - 1)" using nth_mem [OF \<open>?cap - 1 < length ?rows\<close>] by (simp add: rows_between_def)
    have "scan_cycle n now d ?c = Some (filter (accepted d) (rows_between (?rows ! (?cap - 1)) u now d),
        ?c\<lparr>ic_resumeAfterSeq := 0, ic_cycleUpperSeq := None\<rparr>)"
      by (rule Suc.IH) (use Suc.prems pos rest False in \<open>simp_all add: scan_start_def\<close>)
    moreover have "filter (accepted d) (take ?cap ?rows) @ filter (accepted d) (drop ?cap ?rows) = filter (accepted d) ?rows"
      by (metis append_take_drop_id filter_append)
    ultimately show ?thesis using s False rest by simp
  qed
qed simp

section \<open>The candidates are the eligible events\<close>

lemma records_of_single:
  assumes "wf_db d" "records_of k d = [r]"
  shows "r \<in> set (terminal_records d)" "tt_inbound_seq_key r = k"
    "\<not> exists_row (\<lambda>x. tt_inbound_seq_key x = k \<and> tt_id x \<noteq> tt_id r) (terminal_records d)"
proof -
  have "set (records_of k d) = {x \<in> set (terminal_records d). tt_inbound_seq_key x = k}" by (auto simp: records_of_def)
  with assms(2) have all: "{x \<in> set (terminal_records d). tt_inbound_seq_key x = k} = {r}" by simp
  then show "r \<in> set (terminal_records d)" "tt_inbound_seq_key r = k" by blast+
  show "\<not> exists_row (\<lambda>x. tt_inbound_seq_key x = k \<and> tt_id x \<noteq> tt_id r) (terminal_records d)"
  proof
    assume "exists_row (\<lambda>x. tt_inbound_seq_key x = k \<and> tt_id x \<noteq> tt_id r) (terminal_records d)"
    then obtain x where x: "x \<in> set (terminal_records d)" "tt_inbound_seq_key x = k" "tt_id x \<noteq> tt_id r"
      by (auto simp: exists_row_iff)
    then have "x \<in> {x \<in> set (terminal_records d). tt_inbound_seq_key x = k}" by simp
    with all x(3) show False by simp
  qed
qed

lemma eligibleD:
  assumes "evaluate k d = Eligible x"
  obtains e r m where "get_inbound d k = Some e" "records_of k d = [r]" "tt_inbound_disposition r \<in> set FINAL_TERMINAL_DISPOSITIONS"
    "tt_conversation_key r = ie_conversation_key e" "tt_delivery_jid r = ie_chat_jid e" "\<not> linked_inbound k d"
    "\<not> recovering_inbound k d" "implied_mutation r = Some m" "deliveryProofHolds r d" "ie_processing_status e \<in> set OPEN_STATUSES"
    "x = \<lparr>el_seq = k, el_recordId = tt_id r, el_disposition = tt_inbound_disposition r,
       el_fromStatus = ie_processing_status e, el_mutation = m, el_deliveryOpId = tt_delivery_op_id r\<rparr>"
proof -
  from assms obtain e where e: "get_inbound d k = Some e" by (auto simp: evaluate_def split: option.splits)
  with assms obtain r where r: "records_of k d = [r]" "evaluate_record k e r d = Eligible x"
    by (auto simp: evaluate_def split: list.splits)
  with that [OF e r(1)] show ?thesis
    by (auto simp: evaluate_record_def Let_def split: if_splits option.splits)
qed

lemma eligible_is_candidate:
  assumes "wf_db d" "evaluate k d = Eligible x" "get_inbound d k = Some e" "ie_received_at e < now - 300"
  shows "k \<in> set (candidate_rows now d)"
proof (rule eligibleD [OF assms(2)])
  fix e' r m
  assume r: "get_inbound d k = Some e'" "records_of k d = [r]" "tt_inbound_disposition r \<in> set FINAL_TERMINAL_DISPOSITIONS"
    "tt_conversation_key r = ie_conversation_key e'" "tt_delivery_jid r = ie_chat_jid e'" "\<not> linked_inbound k d"
    "\<not> recovering_inbound k d" "ie_processing_status e' \<in> set OPEN_STATUSES"
  have e: "e' = e" "e \<in> set (inbound_events d)" "ie_seq e = k"
    using r(1) assms(3) find_SomeD [of "\<lambda>r. ie_seq r = k" "inbound_events d" e] by (simp_all add: get_inbound_def)
  note single = records_of_single [OF assms(1) r(2)]
  have "candidate_record now d e r"
    using r single(2,3) e assms(4) by (simp add: candidate_record_def)
  with e single(1) show ?thesis by (auto simp: candidate_rows_def)
qed

lemma candidateD:
  assumes "wf_db d" "k \<in> set (candidate_rows now d)"
  obtains e where "get_inbound d k = Some e" "ie_received_at e < now - 300" "0 < k" "k \<le> maxInboundSeq d"
proof -
  from assms(2) obtain e t where e: "e \<in> set (inbound_events d)" "candidate_record now d e t" "k = ie_seq e"
    by (auto simp: candidate_rows_def)
  have seqs: "distinct (map ie_seq (inbound_events d))" "list_all (\<lambda>k. 0 < k \<and> k \<le> last_seq d) (map ie_seq (inbound_events d))"
    using assms(1) by (simp_all add: wf_db_def keys_ok_def)
  have "get_inbound d k = Some e" using e(1,3) seqs(1) by (simp add: get_inbound_def find_key_unique)
  moreover have "0 < k" using seqs(2) e(1,3) by (auto simp: list_all_iff)
  moreover have "k \<le> maxInboundSeq d" using e(1,3) by (auto simp: maxInboundSeq_def intro: Max_ge)
  ultimately show ?thesis using e(2) that by (simp add: candidate_record_def)
qed

lemma whole_range: "wf_db d \<Longrightarrow> rows_between 0 (maxInboundSeq d) now d = candidate_rows now d"
  unfolding rows_between_def by (rule filter_True) (auto elim: candidateD)

lemma candidates_bounded:
  assumes "wf_db d"
  shows "length (candidate_rows now d) \<le> length (inbound_events d)"
proof -
  have "set (candidate_rows now d) \<subseteq> ie_seq ` set (inbound_events d)" by (auto simp: candidate_rows_def)
  then have "card (set (candidate_rows now d)) \<le> card (set (map ie_seq (inbound_events d)))"
    by (intro card_mono) simp_all
  also have "\<dots> \<le> length (inbound_events d)" using card_length [of "map ie_seq (inbound_events d)"] by simp
  finally show ?thesis using distinct_card [OF candidates_distinct [OF assms]] by simp
qed

section \<open>The close\<close>

lemma implied_mutationD:
  assumes "implied_mutation r = Some m"
  shows "tt_inbound_seq r = Some (mutation_seq m)"
  using assms
  by (auto simp: implied_mutation_def Let_def and_then_Inr deriveTerminalInboundMutation_def recordAsPersistenceParams_def
      split: sum.splits option.splits if_splits)

lemma close_statement:
  assumes "wf_db d" "get_inbound d (mutation_seq m) = Some e" "ie_processing_status e \<in> set OPEN_STATUSES"
  obtains es where "(case m of Im_complete k reason \<Rightarrow> closeComplete reason k now d | Im_failed k c \<Rightarrow> closeFailed c k now d)
      = (d\<lparr>inbound_events := es\<rparr>, True)"
    "get_inbound (d\<lparr>inbound_events := es\<rparr>) (mutation_seq m) = Some (closed_row m now e)" "wf_db (d\<lparr>inbound_events := es\<rparr>)"
proof -
  let ?g = "\<lambda>r. ie_processing_status r \<in> set OPEN_STATUSES"
  have statement: "(case m of Im_complete k reason \<Rightarrow> closeComplete reason k now d | Im_failed k c \<Rightarrow> closeFailed c k now d)
      = cas_inbound ?g (closed_row m now) (mutation_seq m) d"
    by (cases m) (simp_all add: closeComplete_def closeFailed_def closed_row_def [abs_def])
  have keep: "keeps_id ie_seq (closed_row m now)" by (cases m) (simp_all add: keeps_id_def closed_row_def)
  obtain es where es: "fst (cas_inbound ?g (closed_row m now) (mutation_seq m) d) = d\<lparr>inbound_events := es\<rparr>"
    by (simp add: cas_inbound_def Let_def)
  have "snd (cas_inbound ?g (closed_row m now) (mutation_seq m) d)" using inbounds.cas_wins [OF assms(1) keep] assms(2,3) by simp
  with es have "cas_inbound ?g (closed_row m now) (mutation_seq m) d = (d\<lparr>inbound_events := es\<rparr>, True)" by (simp add: prod_eq_iff)
  moreover have "get_inbound (d\<lparr>inbound_events := es\<rparr>) (mutation_seq m) = Some (closed_row m now e)"
    using inbounds.get_cas [OF assms(1) keep, of ?g "mutation_seq m" "mutation_seq m"] assms(2,3) es by simp
  moreover have "wf_db (d\<lparr>inbound_events := es\<rparr>)" using inbounds.wf_cas [OF assms(1) keep, of ?g "mutation_seq m"] es by simp
  ultimately show ?thesis using that statement by simp
qed

lemma mark_delivery:
  assumes "wf_db d" "get_op d n = Some y"
  obtains os where "markDeliveryTerminal n d = (d\<lparr>outbound_ops := os\<rparr>, True)"
    "get_op (d\<lparr>outbound_ops := os\<rparr>) n = Some (y\<lparr>op_is_terminal := True\<rparr>)"
proof -
  have keep: "keeps_id op_id (op_is_terminal_update (\<lambda>_. True))" by (simp add: keeps_id_def)
  obtain os where os: "fst (markDeliveryTerminal n d) = d\<lparr>outbound_ops := os\<rparr>" by (simp add: markDeliveryTerminal_def cas_op_def Let_def)
  have "snd (markDeliveryTerminal n d)" using ops.cas_wins [OF assms(1) keep] assms(2) by (simp add: markDeliveryTerminal_def)
  moreover have "get_op (d\<lparr>outbound_ops := os\<rparr>) n = Some (y\<lparr>op_is_terminal := True\<rparr>)"
    using ops.get_cas [OF assms(1) keep, of "\<lambda>_. True" n n] assms(2) os by (simp add: markDeliveryTerminal_def)
  ultimately show ?thesis using that os by (metis prod.collapse)
qed

text \<open>An event whose record passes every rule and whose row is closed as the record says is already closed.\<close>

lemma closed_event_evaluates:
  assumes "get_inbound d k = Some (closed_row m now e)" "records_of k d = [r]" "tt_inbound_disposition r \<in> set FINAL_TERMINAL_DISPOSITIONS"
    "tt_conversation_key r = ie_conversation_key e" "tt_delivery_jid r = ie_chat_jid e" "\<not> linked_inbound k d"
    "\<not> recovering_inbound k d" "implied_mutation r = Some m" "deliveryProofHolds r d"
  shows "evaluate k d = Already_closed k (tt_id r) (tt_inbound_disposition r)
    (case m of Im_complete _ _ \<Rightarrow> Is_complete | Im_failed _ _ \<Rightarrow> Is_failed)"
proof -
  have same: "ie_conversation_key (closed_row m now e) = ie_conversation_key e" "ie_chat_jid (closed_row m now e) = ie_chat_jid e"
    "ie_processing_status (closed_row m now e) = (case m of Im_complete _ _ \<Rightarrow> Is_complete | Im_failed _ _ \<Rightarrow> Is_failed)"
    "matchesMutation (closed_row m now e) m"
    by (cases m; simp add: closed_row_def matchesMutation_def)+
  have "(case m of Im_complete _ _ \<Rightarrow> Is_complete | Im_failed _ _ \<Rightarrow> Is_failed) \<notin> set OPEN_STATUSES"
    by (cases m) (simp_all add: OPEN_STATUSES_def)
  then show ?thesis using assms same by (simp add: evaluate_def evaluate_record_def Let_def)
qed

section \<open>Records written by live finalization\<close>

lemma normalized_record_request:
  assumes "normalizeFinalizeTurnTerminalParams q = Inr q" "fz_inbound q = Some m"
  shows "normalizeFinalizeTurnTerminalParams (record_request (fz_terminal q) (Some m)) = Inr (record_request (fz_terminal q) (Some m))"
proof -
  let ?q = "record_request (fz_terminal q) (Some m)"
  have sel: "fz_terminal ?q = fz_terminal q" "fz_inbound ?q = fz_inbound q" "fz_bookkeeping ?q = None" "fz_recoveryJob ?q = None"
    "fz_capabilityDecision ?q = None" by (simp_all add: record_request_def assms(2))
  have reasons: "completes_with reason ?q = completes_with reason q" for reason by (simp add: completes_with_def sel)
  from assms(1) show ?thesis
  proof (cases rule: normalizeE)
    case (1 ns b)
    have "normalized_terminal (fz_terminal q) = fz_terminal q" using arg_cong [OF 1(7), of fz_terminal] by simp
    moreover have "check_identity ?q = Inr ns"
      using 1(1) by (auto simp: check_identity_def sel Let_def throw_if_Inr and_then_Inr split: option.splits if_splits)
    moreover have "check_delivery ?q = Inr ()" using 1(3) by (simp add: check_delivery_def sel Let_def)
    moreover have "check_disposition ?q = Inr ()" using 1(4) by (simp only: check_disposition_def sel reasons)
    moreover have "\<not> is_transfer (fz_terminal q)"
      using 1(4) assms(2) by (auto simp: check_disposition_def is_transfer_def Let_def throw_if_Inr and_then_Inr)
    moreover have "check_owner ?q = Inr ()"
      using 1(5) by (simp add: check_owner_def sel Let_def throw_if_Inr and_then_Inr)
    ultimately show ?thesis
      using 1(2) sel by (simp add: normalizeFinalizeTurnTerminalParams_def check_job_def Let_def throw_if_def)
  qed
qed

lemma record_of_row: "recordAsPersistenceParams (terminal_row i t) = t"
  by (simp add: recordAsPersistenceParams_def terminal_row_def)

section \<open>Properties\<close>

text \<open>C5: on an unchanged database a new closer finishes a cycle of scans, whatever its page size and cap, and
  ends in its initial state. The cycle reports, in order and once each, exactly the events the evaluator finds
  eligible among those received more than five minutes ago: neither the candidate query, nor the paging, nor
  a refused row before it hides an event.\<close>

theorem scan_cycle_reports_every_eligible_event:
  assumes "wf_db d" "newInboundCloser pageSize scanCap = Inr c"
  shows "\<exists>ks. scan_cycle (length (inbound_events d) + 1) now d c = Some (ks, c) \<and> sorted ks \<and> distinct ks
    \<and> set ks = {k. \<exists>x e. evaluate k d = Eligible x \<and> get_inbound d k = Some e \<and> ie_received_at e < now - 300}"
proof -
  from assms(2) have c: "1 \<le> ic_pageSize c" "1 \<le> ic_scanCap c" "ic_resumeAfterSeq c = 0" "ic_cycleUpperSeq c = None"
    by (auto simp: newInboundCloser_def positiveInteger_def throw_if_Inr and_then_Inr)
  let ?ks = "filter (accepted d) (candidate_rows now d)"
  have "scan_cycle (length (inbound_events d) + 1) now d c = Some (?ks, c\<lparr>ic_resumeAfterSeq := 0, ic_cycleUpperSeq := None\<rparr>)"
    unfolding whole_range [OF assms(1), symmetric]
    by (rule scan_cycle_reports [OF assms(1) c(1,2)])
      (use c whole_range [OF assms(1)] candidates_bounded [OF assms(1), of now] in \<open>simp_all add: scan_start_def\<close>)
  moreover have "c\<lparr>ic_resumeAfterSeq := 0, ic_cycleUpperSeq := None\<rparr> = c" using c(3,4) by simp
  moreover have "set ?ks = {k. \<exists>x e. evaluate k d = Eligible x \<and> get_inbound d k = Some e \<and> ie_received_at e < now - 300}"
  proof (intro equalityI subsetI)
    fix k
    assume "k \<in> set ?ks"
    then have k: "k \<in> set (candidate_rows now d)" "accepted d k" by simp_all
    from k(2) obtain x where "evaluate k d = Eligible x" by (auto simp: accepted_def split: close_evaluation.splits)
    moreover from assms(1) k(1) obtain e where "get_inbound d k = Some e" "ie_received_at e < now - 300" by (rule candidateD)
    ultimately show "k \<in> {k. \<exists>x e. evaluate k d = Eligible x \<and> get_inbound d k = Some e \<and> ie_received_at e < now - 300}" by blast
  next
    fix k
    assume "k \<in> {k. \<exists>x e. evaluate k d = Eligible x \<and> get_inbound d k = Some e \<and> ie_received_at e < now - 300}"
    then obtain x e where x: "evaluate k d = Eligible x" "get_inbound d k = Some e" "ie_received_at e < now - 300" by blast
    from eligible_is_candidate [OF assms(1) x] x(1) show "k \<in> set ?ks" by (simp add: accepted_def)
  qed
  ultimately show ?thesis
    using candidates_sorted candidates_distinct [OF assms(1)] by (intro exI [of _ ?ks]) (simp add: sorted_wrt_filter)
qed

text \<open>C38: closing an event the evaluator found eligible succeeds: the event gets the status, the reason and the
  failure class its record implies, its delivery operation is marked terminal, no other table changes, and
  from then on the evaluator finds the event closed as its record says.\<close>

theorem eligible_close_settles_the_event:
  assumes "wf_db d" "list_all terminal_checks (terminal_records d)" "evaluate k d = Eligible x"
  shows "\<exists>d' e. applyWithinCallerTransaction (el_mutation x) (el_deliveryOpId x) now d = Inr d'
    \<and> get_inbound d k = Some e \<and> get_inbound d' k = Some (closed_row (el_mutation x) now e)
    \<and> (\<forall>n. el_deliveryOpId x = Some n \<longrightarrow> (\<exists>y. get_op d' n = Some y \<and> op_is_terminal y))
    \<and> d' = d\<lparr>inbound_events := inbound_events d', outbound_ops := outbound_ops d'\<rparr>
    \<and> evaluate k d' = Already_closed k (el_recordId x) (el_disposition x)
        (case el_mutation x of Im_complete _ _ \<Rightarrow> Is_complete | Im_failed _ _ \<Rightarrow> Is_failed)"
proof (rule eligibleD [OF assms(3)])
  fix e r m
  assume e: "get_inbound d k = Some e" "records_of k d = [r]" "tt_inbound_disposition r \<in> set FINAL_TERMINAL_DISPOSITIONS"
    "tt_conversation_key r = ie_conversation_key e" "tt_delivery_jid r = ie_chat_jid e" "\<not> linked_inbound k d"
    "\<not> recovering_inbound k d" "implied_mutation r = Some m" "deliveryProofHolds r d" "ie_processing_status e \<in> set OPEN_STATUSES"
    and x: "x = \<lparr>el_seq = k, el_recordId = tt_id r, el_disposition = tt_inbound_disposition r,
       el_fromStatus = ie_processing_status e, el_mutation = m, el_deliveryOpId = tt_delivery_op_id r\<rparr>"
  have "tt_inbound_seq_key r = seq_key (tt_inbound_seq r)"
    using assms(2) records_of_single(1) [OF assms(1) e(2)] by (auto simp: list_all_iff terminal_checks_def)
  then have seq: "mutation_seq m = k"
    using implied_mutationD [OF e(8)] records_of_single(2) [OF assms(1) e(2)] by (simp add: seq_key_def)
  obtain es where es: "(case m of Im_complete k reason \<Rightarrow> closeComplete reason k now d | Im_failed k c \<Rightarrow> closeFailed c k now d)
      = (d\<lparr>inbound_events := es\<rparr>, True)" "get_inbound (d\<lparr>inbound_events := es\<rparr>) k = Some (closed_row m now e)"
    "wf_db (d\<lparr>inbound_events := es\<rparr>)"
    using close_statement [OF assms(1), of m e now] e(1,10) unfolding seq by blast
  have "\<exists>os. applyWithinCallerTransaction m (tt_delivery_op_id r) now d = Inr (d\<lparr>inbound_events := es, outbound_ops := os\<rparr>)
    \<and> (\<forall>n. tt_delivery_op_id r = Some n \<longrightarrow> (\<exists>y. get_op (d\<lparr>inbound_events := es, outbound_ops := os\<rparr>) n = Some y \<and> op_is_terminal y))
    \<and> deliveryProofHolds r (d\<lparr>inbound_events := es, outbound_ops := os\<rparr>)"
  proof (cases "tt_delivery_op_id r")
    case None
    with e(9) es(1) show ?thesis
      by (intro exI [of _ "outbound_ops d"]) (simp add: applyWithinCallerTransaction_def deliveryProofHolds_def split: if_splits)
  next
    case (Some n)
    with e(9) obtain y where y: "get_op d n = Some y" by (auto simp: deliveryProofHolds_def split: if_splits option.splits)
    then have "get_op (d\<lparr>inbound_events := es\<rparr>) n = Some y" by (simp add: get_op_def)
    from mark_delivery [OF es(3) this] obtain os where
      "markDeliveryTerminal n (d\<lparr>inbound_events := es\<rparr>) = (d\<lparr>inbound_events := es, outbound_ops := os\<rparr>, True)"
      "get_op (d\<lparr>inbound_events := es, outbound_ops := os\<rparr>) n = Some (y\<lparr>op_is_terminal := True\<rparr>)" by auto
    with Some e(9) y es(1) show ?thesis
      by (intro exI [of _ os]) (simp add: applyWithinCallerTransaction_def deliveryProofHolds_def split: if_splits)
  qed
  then obtain os where os: "applyWithinCallerTransaction m (tt_delivery_op_id r) now d = Inr (d\<lparr>inbound_events := es, outbound_ops := os\<rparr>)"
    "\<forall>n. tt_delivery_op_id r = Some n \<longrightarrow> (\<exists>y. get_op (d\<lparr>inbound_events := es, outbound_ops := os\<rparr>) n = Some y \<and> op_is_terminal y)"
    "deliveryProofHolds r (d\<lparr>inbound_events := es, outbound_ops := os\<rparr>)" by blast
  let ?d = "d\<lparr>inbound_events := es, outbound_ops := os\<rparr>"
  have row: "get_inbound ?d k = Some (closed_row m now e)" using es(2) by (simp add: get_inbound_def)
  have "evaluate k ?d = Already_closed k (tt_id r) (tt_inbound_disposition r)
      (case m of Im_complete _ _ \<Rightarrow> Is_complete | Im_failed _ _ \<Rightarrow> Is_failed)"
    by (rule closed_event_evaluates [OF row _ e(3-5) _ _ e(8) os(3)])
      (use e(2,6,7) in \<open>simp_all add: records_of_def linked_inbound_def recovering_inbound_def\<close>)
  with os(1,2) row e(1) show ?thesis unfolding x by (intro exI [of _ ?d] exI [of _ e]) simp
qed

text \<open>C6: live finalization leaves nothing to close. When it records a turn with an inbound mutation, the event
  it closed evaluates as already closed by that very record; the only refusals possible are for a second
  record of the event, a disposition link or a recovery job. It is never eligible, and its contract, its
  identity, its delivery proof and its status are never called into question.\<close>

theorem live_finalization_leaves_nothing_to_close:
  assumes "wf_db d" "finalizeTurnTerminal p now (d, c) = ((d', c'), Inr out)" "rt_applied (fr_record out)" "fz_inbound p = Some m"
  shows "case evaluate (mutation_seq m) d' of
      Eligible _ \<Rightarrow> False
    | Already_closed _ i _ _ \<Rightarrow> i = rt_recordId (fr_record out)
    | Refused _ reason _ _ \<Rightarrow> reason \<in> {Cr_multiple_terminal_records, Cr_disposition_link, Cr_recovery_job}"
proof (rule finalizedE [OF assms(1-3)])
  fix q e r job dec
  assume q: "normalizeFinalizeTurnTerminalParams p = Inr q" and r: "runRecordTurnTerminal (fz_terminal q) now d = Inr (e, r)" "rt_applied r"
    and w: "finalize_winner q (rt_recordId r) now e c = Inr (d', c', job, dec)"
    and out: "rt_recordId (fr_record out) = rt_recordId r"
  let ?t = "fz_terminal q" and ?k = "mutation_seq m" and ?row = "terminal_row (rt_recordId r) (fz_terminal q)"
  note closed = winner_finalizes [OF normalized_checks(1-3) [OF q] assms(1) r w]
  have m: "fz_inbound q = Some m" using q by (cases rule: normalizeE) (simp add: assms(4))
  then have derive: "deriveTerminalInboundMutation ?t = Inr (Some m)" using normalized_checks(6) [OF q] by simp
  then have axes: "fp_inboundSeq ?t = Some ?k" "fp_inboundDisposition ?t \<in> set FINAL_TERMINAL_DISPOSITIONS"
    by (auto simp: deriveTerminalInboundMutation_def FINAL_TERMINAL_DISPOSITIONS_def and_then_Inr split: option.splits if_splits)
  obtain x where x: "get_inbound d' ?k = Some (closed_row m now x)" "ie_conversation_key x = fp_conversationKey ?t"
    "ie_chat_jid x = fp_deliveryJid ?t" using closed(1) m by (auto simp: inbound_closed_def)
  have row: "?row \<in> set (records_of ?k d')"
    using closed(7) find_SomeD [of _ "terminal_records d'" ?row] axes(1)
    by (simp add: records_of_def get_terminal_def) (simp add: terminal_row_def seq_key_def)
  have implied: "implied_mutation ?row = Some m"
    using derive normalized_record_request [OF normalize_again [OF q] m] by (simp add: implied_mutation_def record_of_row)
  have proof_holds: "deliveryProofHolds ?row d'"
    using closed(2) normalized_checks(1) [OF q]
    by (auto simp: delivery_settled_def deliveryProofHolds_def terminal_row_def check_delivery_def Let_def throw_if_Inr)
  show ?thesis
  proof (cases "records_of ?k d'")
    case Nil
    with row show ?thesis by simp
  next
    case (Cons y ys)
    show ?thesis
    proof (cases ys)
      case (Cons z zs)
      with \<open>records_of ?k d' = y # ys\<close> x(1) show ?thesis by (simp add: evaluate_def)
    next
      case Nil
      with \<open>records_of ?k d' = y # ys\<close> row have one: "records_of ?k d' = [?row]" by simp
      show ?thesis
      proof (cases "linked_inbound ?k d' \<or> recovering_inbound ?k d'")
        case True
        have sel: "tt_inbound_disposition ?row = fp_inboundDisposition ?t" "tt_conversation_key ?row = fp_conversationKey ?t"
          "tt_delivery_jid ?row = fp_deliveryJid ?t" "ie_conversation_key (closed_row m now x) = ie_conversation_key x"
          "ie_chat_jid (closed_row m now x) = ie_chat_jid x"
          by (simp_all add: terminal_row_def closed_row_def split: inbound_mutation.splits)
        from True axes(2) x one sel show ?thesis by (auto simp: evaluate_def evaluate_record_def Let_def)
      next
        case False
        have "evaluate ?k d' = Already_closed ?k (tt_id ?row) (tt_inbound_disposition ?row)
            (case m of Im_complete _ _ \<Rightarrow> Is_complete | Im_failed _ _ \<Rightarrow> Is_failed)"
          by (rule closed_event_evaluates [OF x(1) one _ _ _ _ _ implied proof_holds])
            (use axes(2) x(2,3) False in \<open>simp_all add: terminal_row_def\<close>)
        then show ?thesis using out by (simp add: terminal_row_def)
      qed
    qed
  qed
qed

section \<open>An event left open behind its record\<close>

definition stale_turn :: db where
  "stale_turn = (turn_db Os_echoed)\<lparr>terminal_records := [terminal_row 1 (reply_terminal\<lparr>fp_replyGuaranteeDisarmed := True\<rparr>)],
     last_terminal_id := 1\<rparr>"

lemma stale_wf: "wf_db stale_turn"
  by (simp add: wf_db_def stale_turn_def turn_db_def empty_db_def keys_ok_def turn_op_def terminal_row_def)

lemma stale_row: "\<exists>e. get_inbound stale_turn 4 = Some e \<and> ie_received_at e < 1000 - 300"
  by (simp add: get_inbound_def stale_turn_def turn_db_def)

lemma stale_eligible: "\<exists>x. evaluate 4 stale_turn = Eligible x"
proof -
  let ?t = "reply_terminal\<lparr>fp_replyGuaranteeDisarmed := True\<rparr>" and ?m = "Im_complete 4 ''response_echoed''"
  have "normalizeFinalizeTurnTerminalParams (record_request ?t (Some ?m)) = Inr (record_request ?t (Some ?m))"
    using normalized_record_request [OF normalize_again [OF reply_normalized], of ?m] by (simp add: reply_request_def)
  then have "implied_mutation (terminal_row 1 ?t) = Some ?m"
    by (simp add: implied_mutation_def record_of_row) (simp add: deriveTerminalInboundMutation_def reply_terminal_def)
  then show ?thesis
    by (simp add: evaluate_def evaluate_record_def get_inbound_def records_of_def stale_turn_def turn_db_def turn_op_def
        terminal_row_def reply_terminal_def seq_key_def FINAL_TERMINAL_DISPOSITIONS_def linked_inbound_def
        recovering_inbound_def exists_row_def empty_db_def deliveryProofHolds_def get_op_def DELIVERY_STATUS_PROOF_def OPEN_STATUSES_def)
qed

theorem scan_cycle_reports_every_eligible_event_witness:
  "\<exists>c ks. newInboundCloser (Some 1) (Some 1) = Inr c \<and> scan_cycle 2 1000 stale_turn c = Some (ks, c) \<and> 4 \<in> set ks"
proof -
  obtain c where c: "newInboundCloser (Some 1) (Some 1) = Inr c"
    by (simp add: newInboundCloser_def positiveInteger_def throw_if_def safe_integer_def)
  have two: "length (inbound_events stale_turn) + 1 = 2" by (simp add: stale_turn_def turn_db_def)
  obtain ks where ks: "scan_cycle 2 1000 stale_turn c = Some (ks, c)"
    "set ks = {k. \<exists>x e. evaluate k stale_turn = Eligible x \<and> get_inbound stale_turn k = Some e \<and> ie_received_at e < 1000 - 300}"
    using scan_cycle_reports_every_eligible_event [OF stale_wf c, of 1000] unfolding two by blast
  have "4 \<in> set ks" unfolding ks(2) using stale_eligible stale_row by blast
  with ks(1) c show ?thesis by blast
qed

theorem eligible_close_settles_the_event_witness:
  "\<exists>x d' st. applyWithinCallerTransaction (el_mutation x) (el_deliveryOpId x) 9 stale_turn = Inr d'
    \<and> evaluate 4 stale_turn = Eligible x \<and> evaluate 4 d' = Already_closed 4 (el_recordId x) (el_disposition x) st"
proof -
  obtain x where x: "evaluate 4 stale_turn = Eligible x" using stale_eligible by blast
  have "terminal_checks (terminal_row 1 (reply_terminal\<lparr>fp_replyGuaranteeDisarmed := True\<rparr>))"
    using normalized_checks(5) [OF reply_normalized, of 1] by simp
  then have "list_all terminal_checks (terminal_records stale_turn)" by (simp add: stale_turn_def)
  from eligible_close_settles_the_event [OF stale_wf this x, of 9] x show ?thesis by blast
qed

theorem live_finalization_leaves_nothing_to_close_witness:
  "\<exists>d' c' out. finalizeTurnTerminal reply_request 5 (turn_db Os_echoed, empty_capability_db) = ((d', c'), Inr out)
    \<and> (case evaluate 4 d' of Eligible _ \<Rightarrow> False | Already_closed _ i _ _ \<Rightarrow> i = rt_recordId (fr_record out)
       | Refused _ reason _ _ \<Rightarrow> reason \<in> {Cr_multiple_terminal_records, Cr_disposition_link, Cr_recovery_job})"
proof (rule applied_run [OF reply_run])
  fix d' c' out
  assume run: "finalizeTurnTerminal reply_request 5 (turn_db Os_echoed, empty_capability_db) = ((d', c'), Inr out)"
    "rt_applied (fr_record out)"
  have "fz_inbound reply_request = Some (Im_complete 4 ''response_echoed'')" by (simp add: reply_request_def)
  from live_finalization_leaves_nothing_to_close [OF turn_wf run this] run(1) show ?thesis
    by (intro exI [of _ d'] exI [of _ c'] exI [of _ out]) simp
qed

end
