(* ===== verification/Cron.thy ===== *)
theory Cron
  imports Jid
begin

text \<open>
  Cron expressions (\<^verbatim>\<open>src/core/cron.ts\<close>): parsing of the five fields, the next instant an expression fires
  and its description. Texts are UTF-8 bytes, instants are whole seconds. UTC dates follow the ECMAScript
  definition of the calendar; another zone is given by the parts its formatter writes of an instant.
  Numbers are integers: a step field with digits beyond the exact range of a JavaScript number is not modelled.
\<close>

section \<open>Texts\<close>

text \<open>\<^verbatim>\<open>expression.trim().split(/\s+/)\<close>, with no word for a blank text (where the code has one empty word).\<close>

function split_words :: "string \<Rightarrow> string \<Rightarrow> string list" where
  "split_words word [] = (if word = [] then [] else [rev word])"
| "split_words word (c # cs) = (case leading_space (map of_char (c # cs)) of
     None \<Rightarrow> split_words (c # word) cs
   | Some w \<Rightarrow> (if word = [] then [] else [rev word]) @ split_words [] (drop (length w) (c # cs)))"
  by pat_completeness auto

termination split_words
proof (relation "measure (length \<circ> snd)")
  show "wf (measure (length \<circ> snd))" by simp
next
  fix word c cs
  show "((c # word, cs), word, c # cs) \<in> measure (length \<circ> snd)" by simp
next
  fix word :: string and c cs w
  assume "leading_space (map of_char (c # cs)) = Some w"
  from leading_space_nonempty [OF this] have "w \<noteq> []" by simp
  then show "(([], drop (length w) (c # cs)), word, c # cs) \<in> measure (length \<circ> snd)"
    by (cases w) auto
qed

function skip_space :: "string \<Rightarrow> string" where
  "skip_space s = (case leading_space (map of_char s) of None \<Rightarrow> s
     | Some w \<Rightarrow> if s = [] then [] else skip_space (drop (length w) s))"
  by pat_completeness auto

termination skip_space
proof (relation "measure length")
  show "wf (measure length)" by simp
next
  fix s :: string and w
  assume "leading_space (map of_char s) = Some w" "s \<noteq> []"
  from leading_space_nonempty [OF this(1)] have "w \<noteq> []" by simp
  with \<open>s \<noteq> []\<close> show "(drop (length w) s, s) \<in> measure length" by (cases w) auto
qed

declare skip_space.simps [simp del]

definition digit_value :: "char \<Rightarrow> int" where
  "digit_value c = int (of_char c) - 48"

definition digits_value :: "string \<Rightarrow> int option" where
  "digits_value s = (let ds = takeWhile digit_char s in
     if ds = [] then None else Some (foldl (\<lambda>n c. 10 * n + digit_value c) 0 ds))"

text \<open>\<^verbatim>\<open>parseInt(s, 10)\<close>, with none for \<^verbatim>\<open>NaN\<close>.\<close>

definition parseInt :: "string \<Rightarrow> int option" where
  "parseInt s = (case skip_space s of [] \<Rightarrow> None
     | c # cs \<Rightarrow> if c = CHR ''-'' then map_option uminus (digits_value cs)
         else if c = CHR ''+'' then digits_value cs else digits_value (c # cs))"

fun split_on :: "char \<Rightarrow> string \<Rightarrow> string list" where
  "split_on x [] = [[]]"
| "split_on x (c # cs) = (if c = x then [] # split_on x cs
     else case split_on x cs of [] \<Rightarrow> [[c]] | w # ws \<Rightarrow> (c # w) # ws)"

section \<open>Fields\<close>

record cron_fields =
  cf_minute :: "int list option"
  cf_hour :: "int list option"
  cf_dayOfMonth :: "int list option"
  cf_month :: "int list option"
  cf_dayOfWeek :: "int list option"

definition FIELD_RANGES :: "(int \<times> int) list" where
  "FIELD_RANGES = [(0, 59), (0, 23), (1, 31), (1, 12), (0, 6)]"

function step_values :: "int \<Rightarrow> int \<Rightarrow> int \<Rightarrow> int list" where
  "step_values i step mx = (if 0 < step \<and> i \<le> mx then i # step_values (i + step) step mx else [])"
  by pat_completeness auto

termination step_values
  by (relation "measure (\<lambda>(i, step, mx). nat (mx + 1 - i))") auto

declare step_values.simps [simp del]

text \<open>The first two parts of a text split at a separator it contains.\<close>

definition two_parts :: "char \<Rightarrow> string \<Rightarrow> string \<times> string" where
  "two_parts x s = (case split_on x s of a # b # _ \<Rightarrow> (a, b) | [a] \<Rightarrow> (a, []) | [] \<Rightarrow> ([], []))"

definition out_of_range :: "int \<Rightarrow> int \<Rightarrow> string \<Rightarrow> error" where
  "out_of_range mn mx v = Error (''Value '' @ v @ '' out of range ['' @ int_str mn @ '','' @ int_str mx @ '']'')"

definition parse_value :: "int \<Rightarrow> int \<Rightarrow> string \<Rightarrow> int result" where
  "parse_value mn mx v = (case parseInt v of None \<Rightarrow> Inl (out_of_range mn mx v)
     | Some n \<Rightarrow> throw_if (n < mn \<or> n > mx) (out_of_range mn mx v) (Inr n))"

fun parse_values :: "int \<Rightarrow> int \<Rightarrow> string list \<Rightarrow> int list result" where
  "parse_values mn mx [] = Inr []"
| "parse_values mn mx (v # vs) = and_then (parse_value mn mx v) (\<lambda>n.
     and_then (parse_values mn mx vs) (\<lambda>ns. Inr (n # ns)))"

definition parseField :: "string \<Rightarrow> int \<times> int \<Rightarrow> int list option result" where
  "parseField fld limits = (case limits of (mn, mx) \<Rightarrow>
     if fld = ''*'' then Inr None
     else if CHR ''/'' \<in> set fld then
       (case two_parts (CHR ''/'') fld of (rangePart, stepStr) \<Rightarrow>
         (case parseInt stepStr of None \<Rightarrow> Inl (Error (''Invalid step: '' @ fld))
          | Some step \<Rightarrow> throw_if (step \<le> 0) (Error (''Invalid step: '' @ fld))
             (Inr (Some (if rangePart = ''*'' then step_values mn step mx
                else case parseInt rangePart of None \<Rightarrow> [] | Some start \<Rightarrow> step_values start step mx)))))
     else if CHR '','' \<in> set fld then and_then (parse_values mn mx (split_on (CHR '','') fld)) (\<lambda>ns. Inr (Some ns))
     else if CHR ''-'' \<in> set fld then
       (case two_parts (CHR ''-'') fld of (startStr, endStr) \<Rightarrow>
         (case (parseInt startStr, parseInt endStr) of
            (Some a, Some b) \<Rightarrow> throw_if (a < mn \<or> b > mx \<or> a > b) (Error (''Invalid range: '' @ fld)) (Inr (Some (step_values a 1 b)))
          | _ \<Rightarrow> Inl (Error (''Invalid range: '' @ fld))))
     else and_then (parse_value mn mx fld) (\<lambda>n. Inr (Some [n])))"

definition parseCron :: "string \<Rightarrow> cron_fields result" where
  "parseCron expression = (let ws = (if split_words [] expression = [] then [[]] else split_words [] expression) in case ws of
     [a, b, c, d, e] \<Rightarrow>
       and_then (parseField a (FIELD_RANGES ! 0)) (\<lambda>minute.
       and_then (parseField b (FIELD_RANGES ! 1)) (\<lambda>hour.
       and_then (parseField c (FIELD_RANGES ! 2)) (\<lambda>dayOfMonth.
       and_then (parseField d (FIELD_RANGES ! 3)) (\<lambda>month.
       and_then (parseField e (FIELD_RANGES ! 4)) (\<lambda>dayOfWeek.
       Inr \<lparr>cf_minute = minute, cf_hour = hour, cf_dayOfMonth = dayOfMonth, cf_month = month, cf_dayOfWeek = dayOfWeek\<rparr>)))))
   | _ \<Rightarrow> Inl (Error (''Cron expression must have 5 fields, got '' @ int_str (int (length ws)) @ '': '' @ quoted expression)))"

section \<open>Clocks\<close>

record wall_clock =
  wc_minute :: int
  wc_hour :: int
  wc_dayOfMonth :: int
  wc_month :: int
  wc_dayOfWeek :: int

text \<open>The day number of the first day of a year and the year of a day number.\<close>

definition day_from_year :: "int \<Rightarrow> int" where
  "day_from_year y = 365 * (y - 1970) + (y - 1969) div 4 - (y - 1901) div 100 + (y - 1601) div 400"

definition year_of_day :: "int \<Rightarrow> int" where
  "year_of_day d = (let y = 1970 + (400 * d) div 146097 in
     if d < day_from_year y then y - 1 else if day_from_year (y + 1) \<le> d then y + 1 else y)"

definition month_starts :: "int \<Rightarrow> int list" where
  "month_starts y = (let leap = day_from_year (y + 1) - day_from_year y - 365 in
     [0, 31, 59 + leap, 90 + leap, 120 + leap, 151 + leap, 181 + leap, 212 + leap, 243 + leap, 273 + leap, 304 + leap, 334 + leap])"

definition month_and_date :: "int \<Rightarrow> int \<times> int" where
  "month_and_date d = (let y = year_of_day d; n = d - day_from_year y; passed = filter (\<lambda>s. s \<le> n) (month_starts y) in
     (int (length passed), n - last passed + 1))"

definition utc_day :: "int \<Rightarrow> int" where "utc_day t = (t div 86400 + 4) mod 7"

definition utc_clock :: "int \<Rightarrow> wall_clock" where
  "utc_clock t = (case month_and_date (t div 86400) of (month, date) \<Rightarrow>
     \<lparr>wc_minute = t div 60 mod 60, wc_hour = t div 3600 mod 24, wc_dayOfMonth = date, wc_month = month, wc_dayOfWeek = utc_day t\<rparr>)"

text \<open>What the formatter of a zone writes of an instant.\<close>

record zoned_parts =
  zp_minute :: int
  zp_hour :: int
  zp_day :: int
  zp_month :: int
  zp_weekday :: string

definition WEEKDAY_INDEX :: "(string \<times> int) list" where
  "WEEKDAY_INDEX = [(''Sun'', 0), (''Mon'', 1), (''Tue'', 2), (''Wed'', 3), (''Thu'', 4), (''Fri'', 5), (''Sat'', 6)]"

definition zone_clock :: "(int \<Rightarrow> zoned_parts) option \<Rightarrow> int \<Rightarrow> wall_clock" where
  "zone_clock zone t = (case zone of None \<Rightarrow> utc_clock t
     | Some fmt \<Rightarrow> \<lparr>wc_minute = zp_minute (fmt t), wc_hour = zp_hour (fmt t) mod 24, wc_dayOfMonth = zp_day (fmt t),
         wc_month = zp_month (fmt t),
         wc_dayOfWeek = (case map_of WEEKDAY_INDEX (zp_weekday (fmt t)) of None \<Rightarrow> utc_day t | Some n \<Rightarrow> n)\<rparr>)"

section \<open>The next run\<close>

definition field_matches :: "int list option \<Rightarrow> int \<Rightarrow> bool" where
  "field_matches f v \<longleftrightarrow> (case f of None \<Rightarrow> True | Some vs \<Rightarrow> v \<in> set vs)"

definition day_matches :: "cron_fields \<Rightarrow> wall_clock \<Rightarrow> bool" where
  "day_matches f w \<longleftrightarrow> (if cf_dayOfMonth f \<noteq> None \<and> cf_dayOfWeek f \<noteq> None
     then field_matches (cf_dayOfMonth f) (wc_dayOfMonth w) \<or> field_matches (cf_dayOfWeek f) (wc_dayOfWeek w)
     else field_matches (cf_dayOfMonth f) (wc_dayOfMonth w) \<and> field_matches (cf_dayOfWeek f) (wc_dayOfWeek w))"

definition fires :: "cron_fields \<Rightarrow> wall_clock \<Rightarrow> bool" where
  "fires f w \<longleftrightarrow> field_matches (cf_minute f) (wc_minute w) \<and> field_matches (cf_hour f) (wc_hour w)
     \<and> day_matches f w \<and> field_matches (cf_month f) (wc_month w)"

definition MAX_CRON_ITERATIONS :: nat where
  "MAX_CRON_ITERATIONS = 366 * 24 * 60"

function cron_search :: "nat \<Rightarrow> cron_fields \<Rightarrow> (int \<Rightarrow> wall_clock) \<Rightarrow> int \<Rightarrow> int option" where
  "cron_search left f clock cursor = (if left = 0 then None
     else if fires f (clock cursor) then Some cursor else cron_search (left - 1) f clock (cursor + 60))"
  by pat_completeness auto

termination cron_search
  by (relation "measure (\<lambda>(left, f, clock, cursor). left)") auto

declare cron_search.simps [simp del]

definition first_minute_after :: "int \<Rightarrow> int" where
  "first_minute_after afterUnix = (afterUnix + 60) div 60 * 60"

definition nextCronRun :: "(int \<Rightarrow> zoned_parts) option \<Rightarrow> string \<Rightarrow> int \<Rightarrow> int result" where
  "nextCronRun zone expression afterUnix = and_then (parseCron expression) (\<lambda>f.
     case cron_search MAX_CRON_ITERATIONS f (zone_clock zone) (first_minute_after afterUnix) of
       None \<Rightarrow> Inl (Error (''No matching cron time found within 366 days for: '' @ expression))
     | Some t \<Rightarrow> Inr t)"

section \<open>Descriptions\<close>

definition DAY_NAMES :: "string list" where
  "DAY_NAMES = [''Sunday'', ''Monday'', ''Tuesday'', ''Wednesday'', ''Thursday'', ''Friday'', ''Saturday'']"

definition day_name :: "int \<Rightarrow> string" where
  "day_name n = (if 0 \<le> n \<and> n < 7 then DAY_NAMES ! nat n else ''undefined'')"

definition pad2 :: "int \<Rightarrow> string" where
  "pad2 n = (let s = int_str n in replicate (2 - length s) (CHR ''0'') @ s)"

definition every_minutes :: "int list \<Rightarrow> int option" where
  "every_minutes ms = (case ms of a # b # _ \<Rightarrow>
     if a = 0 \<and> list_all (\<lambda>i. ms ! i = int i * (b - a)) [0..<length ms] then Some (b - a) else None
   | _ \<Rightarrow> None)"

definition cronToHuman :: "string \<Rightarrow> string result" where
  "cronToHuman expression = and_then (parseCron expression) (\<lambda>f.
     let step = (case cf_minute f of None \<Rightarrow> None | Some ms \<Rightarrow>
           if cf_hour f = None \<and> cf_dayOfMonth f = None \<and> cf_month f = None \<and> cf_dayOfWeek f = None then every_minutes ms else None) in
     Inr (case step of
         Some n \<Rightarrow> if n = 1 then ''Every minute'' else ''Every '' @ int_str n @ '' minutes''
       | None \<Rightarrow> (case (cf_hour f, cf_minute f) of
           (Some [h], Some [m]) \<Rightarrow>
             (let time = pad2 h @ '':'' @ pad2 m in
              case (cf_dayOfMonth f, cf_month f, cf_dayOfWeek f) of
                (None, None, None) \<Rightarrow> ''Daily at '' @ time
              | (None, None, Some [w]) \<Rightarrow> ''Weekly on '' @ day_name w @ '' at '' @ time
              | (Some [n], None, None) \<Rightarrow> ''Monthly on day '' @ int_str n @ '' at '' @ time
              | _ \<Rightarrow> ''Cron: '' @ expression)
         | _ \<Rightarrow> ''Cron: '' @ expression)))"

end
