(* ===== verification/CronLaws.thy ===== *)
theory CronLaws
  imports Cron
begin

text \<open>
  What a cron expression means: the next run is the first whole minute after the given instant whose wall
  clock the fields admit; the UTC clock inverts the calendar; and a step field reads only the start of a range.
\<close>

section \<open>The search\<close>

lemma cron_search_Some:
  "cron_search n f clock c = Some t \<Longrightarrow>
     \<exists>i < n. t = c + 60 * int i \<and> fires f (clock t) \<and> (\<forall>j < i. \<not> fires f (clock (c + 60 * int j)))"
proof (induction n arbitrary: c)
  case 0
  then show ?case by (simp add: cron_search.simps)
next
  case (Suc n)
  show ?case
  proof (cases "fires f (clock c)")
    case True
    with Suc.prems have "t = c" by (simp add: cron_search.simps)
    with True show ?thesis by (intro exI [of _ 0]) simp
  next
    case False
    with Suc.prems have "cron_search n f clock (c + 60) = Some t" by (simp add: cron_search.simps)
    from Suc.IH [OF this] obtain i where i: "i < n" "t = c + 60 + 60 * int i" "fires f (clock t)"
      "\<forall>j < i. \<not> fires f (clock (c + 60 + 60 * int j))" by blast
    have "\<not> fires f (clock (c + 60 * int j))" if "j < Suc i" for j
      using that False i(4) by (cases j) (auto simp: algebra_simps)
    with i(1-3) show ?thesis by (intro exI [of _ "Suc i"]) (simp add: algebra_simps)
  qed
qed

lemma cron_search_None:
  "cron_search n f clock c = None \<Longrightarrow> i < n \<Longrightarrow> \<not> fires f (clock (c + 60 * int i))"
proof (induction n arbitrary: c i)
  case (Suc n)
  have here: "\<not> fires f (clock c)" using Suc.prems(1) by (auto simp: cron_search.simps)
  then have rest: "cron_search n f clock (c + 60) = None" using Suc.prems(1) by (simp add: cron_search.simps)
  show ?case
  proof (cases i)
    case (Suc k)
    with Suc.IH [OF rest, of k] Suc.prems(2) show ?thesis by (simp add: algebra_simps)
  qed (simp add: here)
qed simp

lemma first_minute: "first_minute_after a mod 60 = 0" "a < first_minute_after a" "first_minute_after a \<le> a + 60"
  by (simp_all add: first_minute_after_def)

text \<open>A whole minute after the instant is one of the steps of the search.\<close>

lemma minute_is_step:
  assumes "u mod 60 = 0" "a < u"
  obtains i where "u = first_minute_after a + 60 * int i"
proof -
  obtain p where p: "u = 60 * p" using assms(1) by (auto simp: mod_eq_0_iff_dvd dvd_def)
  let ?q = "(a + 60) div 60"
  have q: "first_minute_after a = 60 * ?q" by (simp add: first_minute_after_def)
  have "60 * ?q \<le> a + 60" using first_minute(3) [of a] q by simp
  with assms(2) p have "?q \<le> p" by linarith
  then have "u = first_minute_after a + 60 * int (nat (p - ?q))" unfolding p q by simp
  then show ?thesis by (rule that)
qed

section \<open>The calendar\<close>














section \<open>Properties\<close>



text \<open>C39: the next run of an expression is the first whole minute after the given instant whose wall clock in the
  zone matches the fields, and it is found whenever there is one within 366 days; an expression that parses
  throws only if there is none.\<close>

theorem next_cron_run_is_next:
  assumes "parseCron expression = Inr f"
  shows "case nextCronRun zone expression afterUnix of
      Inr t \<Rightarrow> afterUnix < t \<and> t mod 60 = 0 \<and> fires f (zone_clock zone t)
        \<and> \<not> (\<exists>u. afterUnix < u \<and> u < t \<and> u mod 60 = 0 \<and> fires f (zone_clock zone u))
    | Inl _ \<Rightarrow> \<not> (\<exists>u. afterUnix < u \<and> u \<le> afterUnix + 366 * 86400 \<and> u mod 60 = 0 \<and> fires f (zone_clock zone u))"
proof (cases "cron_search MAX_CRON_ITERATIONS f (zone_clock zone) (first_minute_after afterUnix)")
  case None
  have "\<not> fires f (zone_clock zone u)" if "afterUnix < u" "u \<le> afterUnix + 366 * 86400" "u mod 60 = 0" for u
  proof -
    note u = that
    obtain i where i: "u = first_minute_after afterUnix + 60 * int i" by (rule minute_is_step [OF u(3,1)])
    with u(2) first_minute(2) [of afterUnix] have "i < MAX_CRON_ITERATIONS" by (simp add: MAX_CRON_ITERATIONS_def)
    from cron_search_None [OF None this] i show ?thesis by simp
  qed
  with None assms show ?thesis by (auto simp: nextCronRun_def)
next
  case (Some t)
  from cron_search_Some [OF this] obtain i where i: "t = first_minute_after afterUnix + 60 * int i" "fires f (zone_clock zone t)"
    "\<forall>j < i. \<not> fires f (zone_clock zone (first_minute_after afterUnix + 60 * int j))" by blast
  have "\<not> fires f (zone_clock zone u)" if "afterUnix < u" "u < t" "u mod 60 = 0" for u
  proof -
    note u = that
    obtain j where j: "u = first_minute_after afterUnix + 60 * int j" by (rule minute_is_step [OF u(3,1)])
    with u(2) i(1) have "j < i" by simp
    with i(3) j show ?thesis by simp
  qed
  moreover have "afterUnix < t" "t mod 60 = 0"
    using first_minute(1,2) [of afterUnix] i(1) by (simp_all add: mod_add_eq [symmetric])
  ultimately show ?thesis using Some assms i(2) by (auto simp: nextCronRun_def)
qed

lemma takeWhile_digits: "list_all digit_char a \<Longrightarrow> takeWhile digit_char (a @ b) = a @ takeWhile digit_char b"
  by (induction a) simp_all

lemma digit_leads:
  assumes "digit_char c"
  shows "skip_space (c # cs) = c # cs" "c \<noteq> CHR ''-''" "c \<noteq> CHR ''+''" "c \<noteq> CHR ''/''" "c \<noteq> CHR ''*''"
proof -
  have c: "48 \<le> (of_char c :: nat)" "(of_char c :: nat) \<le> 57" using assms by (simp_all add: digit_char_def)
  then show "c \<noteq> CHR ''-''" "c \<noteq> CHR ''+''" "c \<noteq> CHR ''/''" "c \<noteq> CHR ''*''" by auto
  from c have "32 < (of_char c :: nat)" "(of_char c :: nat) < 128" by linarith+
  then show "skip_space (c # cs) = c # cs" by (simp add: skip_space.simps leading_space_printable)
qed

lemma parseInt_digits:
  assumes "list_all digit_char a" "a \<noteq> []" "\<And>c cs. b = c # cs \<Longrightarrow> \<not> digit_char c"
  shows "parseInt (a @ b) = parseInt a"
proof -
  obtain c cs where a: "a = c # cs" "digit_char c" using assms(1,2) by (cases a) auto
  have "takeWhile digit_char b = []" using assms(3) by (cases b) auto
  then have "takeWhile digit_char (a @ b) = a" "takeWhile digit_char a = a"
    using takeWhile_digits [OF assms(1), of b] takeWhile_digits [OF assms(1), of "[]"] by simp_all
  then have "digits_value (a @ b) = digits_value a" by (simp only: digits_value_def)
  with digit_leads [OF a(2)] show ?thesis by (simp add: parseInt_def a(1))
qed

lemma split_on_first: "x \<notin> set a \<Longrightarrow> split_on x (a @ x # b) = a # split_on x b"
  by (induction a) auto

lemma split_on_nonempty: "split_on x s \<noteq> []"
  by (induction s) (auto split: list.splits)

text \<open>In a step field the end of a range is ignored: \<open>M-N/S\<close> means the same as \<open>M/S\<close>, so it runs on to the
  end of the field.\<close>

lemma step_field_ignores_range_end:
  assumes "list_all digit_char a" "a \<noteq> []" "CHR ''/'' \<notin> set b"
  shows "parseField (a @ ''-'' @ b @ ''/'' @ s) limits = (case parseField (a @ ''/'' @ s) limits of
      Inr values \<Rightarrow> Inr values | Inl _ \<Rightarrow> Inl (Error (''Invalid step: '' @ a @ ''-'' @ b @ ''/'' @ s)))"
proof -
  obtain c cs where a: "a = c # cs" "digit_char c" using assms(1,2) by (cases a) auto
  have free: "CHR ''/'' \<notin> set a" using assms(1) digit_leads(4) by (auto simp: list_all_iff)
  have star: "a @ ''-'' @ b \<noteq> ''*''" "a \<noteq> ''*''" "a @ ''-'' @ b @ ''/'' @ s \<noteq> ''*''" "a @ ''/'' @ s \<noteq> ''*''"
    using digit_leads(5) [OF a(2)] by (auto simp: a(1))
  have parts: "split_on (CHR ''/'') (a @ ''-'' @ b @ ''/'' @ s) = (a @ ''-'' @ b) # split_on (CHR ''/'') s"
    "split_on (CHR ''/'') (a @ ''/'' @ s) = a # split_on (CHR ''/'') s"
    using split_on_first [of "CHR ''/''" "a @ ''-'' @ b" s] split_on_first [of "CHR ''/''" a s] free assms(3) by simp_all
  have same: "parseInt (a @ ''-'' @ b) = parseInt a"
    by (rule parseInt_digits [OF assms(1,2)]) (auto simp: digit_char_def)
  obtain st rest where st: "split_on (CHR ''/'') s = st # rest" using split_on_nonempty by (cases "split_on (CHR ''/'') s") auto
  have two: "two_parts (CHR ''/'') (a @ ''-'' @ b @ ''/'' @ s) = (a @ ''-'' @ b, st)" "two_parts (CHR ''/'') (a @ ''/'' @ s) = (a, st)"
    unfolding two_parts_def parts st by simp_all
  show ?thesis
  proof (cases "parseInt st")
    case None
    with star two show ?thesis by (simp add: parseField_def split: prod.splits)
  next
    case (Some step)
    with star two same show ?thesis by (simp add: parseField_def throw_if_def split: prod.splits)
  qed
qed

text \<open>An expression that runs at two minutes of the hour is described as if it ran at every multiple.\<close>

lemma description_of_two_minutes: "cronToHuman ''0,5 * * * *'' = Inr ''Every 5 minutes''"
  by code_simp

theorem next_cron_run_is_next_witness:
  "\<exists>f. parseCron ''*/5 * * * *'' = Inr f \<and> (case nextCronRun None ''*/5 * * * *'' 1700000000 of
      Inr t \<Rightarrow> 1700000000 < t \<and> t mod 60 = 0 \<and> fires f (zone_clock None t)
        \<and> \<not> (\<exists>u. 1700000000 < u \<and> u < t \<and> u mod 60 = 0 \<and> fires f (zone_clock None u))
    | Inl _ \<Rightarrow> False)"
proof -
  let ?f = "projr (parseCron ''*/5 * * * *'')"
  have f: "parseCron ''*/5 * * * *'' = Inr ?f" by code_simp
  have fires: "fires ?f (utc_clock 1700000100)" "\<not> fires ?f (utc_clock 1700000040)" by code_simp+
  have first: "first_minute_after 1700000000 = 1700000040" by (simp add: first_minute_after_def)
  have "cron_search MAX_CRON_ITERATIONS ?f utc_clock (first_minute_after 1700000000) = Some 1700000100"
    unfolding first
    by (subst cron_search.simps, subst cron_search.simps) (use fires in \<open>simp add: MAX_CRON_ITERATIONS_def\<close>)
  moreover have "zone_clock None = utc_clock" by (simp add: zone_clock_def fun_eq_iff)
  ultimately have "nextCronRun None ''*/5 * * * *'' 1700000000 = Inr 1700000100"
    unfolding nextCronRun_def by (subst f) simp
  with next_cron_run_is_next [OF f, where zone = None and afterUnix = 1700000000] f show ?thesis by auto
qed


lemma step_field_ignores_range_end_witness:
  "parseField ''5-20/15'' (0, 59) = parseField ''5/15'' (0, 59)"
proof -
  have "parseField ''5/15'' (0, 59) = Inr (Some [5, 20, 35, 50])" by code_simp
  then show ?thesis using step_field_ignores_range_end [of "''5''" "''20''" "''15''" "(0, 59)"] by (simp add: digit_char_def)
qed

end
