(* ===== verification/TurnFinalizer.thy ===== *)
theory TurnFinalizer
  imports TurnTerminal Ledger
begin

text \<open>
  The finalization of a runtime turn (\<^verbatim>\<open>src/runtimes/agent/turn-finalizer.ts\<close>): the delivery evidence of its
  answers, the disposition that follows, the mark of a turn that is dropped, and the incident when no durable
  end is reached. The answer of the alert sink is an argument, none when it throws; of an alert the facts
  are kept that name the turn's end. A snapshot of the engine always matches the identity it was asked for.
\<close>

datatype answer_evidence = Answers_ready "int list" "nat option" | Answers_failed

datatype alert_status = Durably_queued | Captured | Accepted_unconfirmed | Alert_failed

datatype failure_stage = Delivery_proof | Terminal_finalize

datatype turn_alert = Finalization_failed failure_stage | Guarantee_breach string bool bool

record runtime_turn =
  xt_identity :: turn_identity
  xt_attempt :: attempt_outcome
  xt_answers :: answer_evidence
  xt_owner :: "recovery_owner option"
  xt_replay :: "replay_envelope option"
  xt_bookkeeping :: "bookkeeping_params option"
  xt_capabilityDecision :: "decision_params option"
  xt_bestEffort :: bool

datatype runtime_result = Turn_terminal turn_result finalize_result
  | Durable_incident failure_stage
  | Dual_sink_failure failure_stage "alert_status option"
  | Reclaimed_by_sweep

section \<open>Delivery evidence\<close>

definition delivery_identity_of :: "turn_identity \<Rightarrow> delivery_identity" where
  "delivery_identity_of i = \<lparr>di_conversationKey = ti_conversationKey i, di_deliveryJid = ti_deliveryJid i,
     di_sourceInboundSeq = ti_inboundSeq i\<rparr>"

definition answer_snapshot :: "turn_identity \<Rightarrow> db \<Rightarrow> int \<Rightarrow> (int \<times> outbound_status) result" where
  "answer_snapshot i d k = and_then (getOutboundDeliverySnapshot k (delivery_identity_of i) d) (\<lambda>snapshot. case snapshot of
       None \<Rightarrow> Inl (Error ''Answer delivery proof is missing'')
     | Some st \<Rightarrow> throw_if (st = Os_sending \<or> st = Os_quarantined)
         (Error ''Answer delivery proof is not terminally classifiable'') (Inr (k, st)))"

fun answer_snapshots :: "turn_identity \<Rightarrow> db \<Rightarrow> int list \<Rightarrow> (int \<times> outbound_status) list result" where
  "answer_snapshots i d [] = Inr []"
| "answer_snapshots i d (k # ks) = and_then (answer_snapshot i d k) (\<lambda>x.
     and_then (answer_snapshots i d ks) (\<lambda>xs. Inr (x # xs)))"

definition with_status :: "outbound_status \<Rightarrow> (int \<times> outbound_status) list \<Rightarrow> int option" where
  "with_status st xs = map_option fst (find (\<lambda>x. snd x = st) xs)"

definition deriveDeliveryEvidence :: "db \<Rightarrow> turn_identity \<Rightarrow> int list \<Rightarrow> delivery_evidence result" where
  "deriveDeliveryEvidence d i ks = (if ks = [] then Inr De_none
     else and_then (answer_snapshots i d ks) (\<lambda>xs.
       case with_status Os_maybe_sent xs of Some k \<Rightarrow> Inr (De_delivery_unknown k) | None \<Rightarrow>
      (case with_status Os_pending xs of Some k \<Rightarrow> Inr (De_enqueued k) | None \<Rightarrow>
      (case with_status Os_submitted xs of Some k \<Rightarrow> Inr (De_flushed k) | None \<Rightarrow>
      (case with_status Os_failed_permanent xs of Some k \<Rightarrow> Inr (De_not_sent k) | None \<Rightarrow>
        if xs \<noteq> [] \<and> list_all (\<lambda>x. snd x = Os_echoed) xs then Inr (De_echoed (fst (last xs)))
        else Inl (Error ''Answer delivery proof contains an unsupported status''))))))"

text \<open>An echoed fragment of a failed attempt is no answer.\<close>

definition effective_evidence :: "attempt_outcome \<Rightarrow> delivery_evidence \<Rightarrow> delivery_evidence" where
  "effective_evidence a e = (if attempt_kind_str a = ''failed'' \<and> delivery_kind_str e = ''echoed'' then De_none else e)"

definition effective_attempt :: "attempt_outcome \<Rightarrow> delivery_evidence \<Rightarrow> nat option \<Rightarrow> attempt_outcome" where
  "effective_attempt a e withheld = (if a = Ao_completed \<and> e = De_none \<and> 0 < (case withheld of None \<Rightarrow> 0 | Some n \<Rightarrow> n)
     then Ao_withheld_by_policy
     else if a = Ao_completed \<and> delivery_kind_str e \<in> {''none'', ''not_sent''} then Ao_failed Af_unknown_terminal else a)"

definition deriveInboundDisposition :: "attempt_outcome \<Rightarrow> delivery_evidence \<Rightarrow> turn_disposition result" where
  "deriveInboundDisposition a e = (if attempt_kind_str a = ''admission_rejected''
     then (if e = De_none then Inr Td_failed_terminal else Inl (Error ''Admission rejection contradicts answer delivery evidence''))
     else if delivery_kind_str e = ''echoed'' then Inr Td_finalized_replied
     else if delivery_kind_str e = ''delivery_unknown'' then Inr Td_transferred_to_recovery_owner
     else if delivery_kind_str e = ''not_sent'' then Inr Td_failed_terminal
     else if (a = Ao_suppressed_by_policy \<or> a = Ao_withheld_by_policy) \<and> e = De_none then Inr Td_finalized_no_reply_policy
     else if attempt_kind_str a = ''failed'' \<and> e = De_none then Inr Td_failed_terminal
     else Inr Td_transferred_to_recovery_owner)"

section \<open>The end of the turn\<close>

fun replyGuaranteeBreachClass :: "attempt_outcome \<Rightarrow> string option" where
  "replyGuaranteeBreachClass (Ao_failed c) = (if c = Af_operator_cancelled then None else Some (attempt_failure_str c))"
| "replyGuaranteeBreachClass (Ao_admission_rejected c) = (if c = Some Fc_pre_dispatch_error then Some ''pre_dispatch_error'' else None)"
| "replyGuaranteeBreachClass _ = None"

definition guarantee_breach :: "turn_result \<Rightarrow> string option" where
  "guarantee_breach r = (if tx_disposition r = Td_failed_terminal \<and> ti_inboundSeq (tx_identity r) \<noteq> None
     then replyGuaranteeBreachClass (tx_attempt r) else None)"

text \<open>A mark that throws does not stop the finalization.\<close>

definition mark_dropped :: "turn_result \<Rightarrow> int \<Rightarrow> db \<Rightarrow> db \<times> bool" where
  "mark_dropped r now d = (case (guarantee_breach r, ti_inboundSeq (tx_identity r)) of
     (Some _, Some k) \<Rightarrow> (case markContinuityCandidateIfNoTerminalOutbound k
         ''runtime_fault_no_terminal_outbound'' ''runtime_fault_disarm'' now d of Inr marked \<Rightarrow> marked | Inl _ \<Rightarrow> (d, False))
   | _ \<Rightarrow> (d, False))"

definition runtime_request :: "runtime_turn \<Rightarrow> turn_result \<Rightarrow> finalize_params result" where
  "runtime_request p r = (let transferred = tx_disposition r = Td_transferred_to_recovery_owner;
       owner = (if transferred then xt_owner p else None) in
     and_then (toTurnFinalizationPersistence r owner) (\<lambda>(t, m).
     and_then (case (owner, xt_replay p) of
         (Some ro, Some replay) \<Rightarrow> and_then (toTurnRecoveryJobPersistence r ro replay) (\<lambda>j. Inr (Some j))
       | _ \<Rightarrow> Inr None) (\<lambda>job.
     Inr \<lparr>fz_terminal = t, fz_inbound = m, fz_bookkeeping = xt_bookkeeping p, fz_recoveryJob = job,
       fz_capabilityDecision = xt_capabilityDecision p, fz_bestEffort = xt_bestEffort p\<rparr>)))"

definition runtime_terminal :: "runtime_turn \<Rightarrow> delivery_evidence \<Rightarrow> nat option \<Rightarrow> turn_result result" where
  "runtime_terminal p e withheld = (let a = effective_attempt (xt_attempt p) e withheld in
     and_then (deriveInboundDisposition a e) (\<lambda>disposition.
     throw_if (disposition = Td_transferred_to_recovery_owner \<and> (xt_owner p = None \<or> xt_replay p = None))
       (Error ''A transferred runtime turn requires a recovery owner and replay envelope'')
       (Inr \<lparr>tx_identity = xt_identity p, tx_attempt = a, tx_disposition = disposition, tx_delivery = e\<rparr>)))"

text \<open>The guarded part: it may throw after it marked the inbound event.\<close>

definition finalize_attempt ::
  "runtime_turn \<Rightarrow> delivery_evidence \<Rightarrow> nat option \<Rightarrow> int \<Rightarrow> db \<times> capability_db
     \<Rightarrow> (db \<times> capability_db) \<times> (turn_result \<times> finalize_result \<times> turn_alert list) result" where
  "finalize_attempt p e withheld now s = (case runtime_terminal p e withheld of
     Inl err \<Rightarrow> (s, Inl err)
   | Inr r \<Rightarrow> (case mark_dropped r now (fst s) of (d, marked) \<Rightarrow>
       (case runtime_request p r of
          Inl err \<Rightarrow> ((d, snd s), Inl err)
        | Inr q \<Rightarrow> (case finalizeTurnTerminal q now (d, snd s) of
            (s', Inl err) \<Rightarrow> (s', Inl err)
          | (s', Inr receipt) \<Rightarrow> (s', throw_if (\<not> fr_winnerMatchesRequest receipt)
              (Error ''Durable terminal winner conflicts with the requested terminal identity'')
              (Inr (r, receipt, case guarantee_breach r of None \<Rightarrow> []
                 | Some c \<Rightarrow> [Guarantee_breach c (fr_effectiveDisarmed receipt) marked])))))))"

definition emitFailureIncident :: "alert_status option \<Rightarrow> failure_stage \<Rightarrow> runtime_result" where
  "emitFailureIncident sink failed_at = (if sink = Some Durably_queued then Durable_incident failed_at else Dual_sink_failure failed_at sink)"

definition finalizeRuntimeTurn ::
  "alert_status option \<Rightarrow> runtime_turn \<Rightarrow> int \<Rightarrow> db \<times> capability_db \<Rightarrow> (db \<times> capability_db) \<times> runtime_result \<times> turn_alert list" where
  "finalizeRuntimeTurn sink p now s = (case xt_answers p of
     Answers_failed \<Rightarrow> (s, emitFailureIncident sink Delivery_proof, [Finalization_failed Delivery_proof])
   | Answers_ready ks withheld \<Rightarrow> (case deriveDeliveryEvidence (fst s) (xt_identity p) ks of
       Inl _ \<Rightarrow> (s, emitFailureIncident sink Delivery_proof, [Finalization_failed Delivery_proof])
     | Inr e \<Rightarrow> (case finalize_attempt p (effective_evidence (xt_attempt p) e) withheld now s of
         (s', Inr (r, receipt, alerts)) \<Rightarrow> (s', Turn_terminal r receipt, alerts)
       | (s', Inl _) \<Rightarrow>
           (if (case ti_inboundSeq (xt_identity p) of None \<Rightarrow> False | Some k \<Rightarrow> isInboundSweepReclaimed k (fst s'))
            then (s', Reclaimed_by_sweep, [])
            else (s', emitFailureIncident sink Terminal_finalize, [Finalization_failed Terminal_finalize])))))"

end
