(* ===== verification/TurnFinalizerLaws.thy ===== *)
theory TurnFinalizerLaws
  imports TurnFinalizer TurnTerminalLaws
begin

text \<open>
  What the finalizer makes of a runtime turn: a reply is claimed only for answers that all were echoed, a
  turn is handed over only while an answer is unresolved, and a turn whose rows are in order reaches a
  durable end, through the adapter, the contract and the transaction.
\<close>

section \<open>Delivery evidence\<close>

text \<open>An answer of the turn, with its status.\<close>

definition answer_of :: "turn_identity \<Rightarrow> db \<Rightarrow> int \<Rightarrow> outbound_op \<Rightarrow> bool" where
  "answer_of i d k x \<longleftrightarrow> get_op d k = Some x \<and> op_conversation_key x = ti_conversationKey i
     \<and> op_chat_jid x = ti_deliveryJid i \<and> op_source_inbound_seq x = ti_inboundSeq i"

lemma answer_of_unique: "answer_of i d k x \<Longrightarrow> answer_of i d k y \<Longrightarrow> y = x"
  by (simp add: answer_of_def)

lemma answer_snapshotD:
  assumes "answer_snapshot i d k = Inr y"
  shows "\<exists>x. answer_of i d k x \<and> y = (k, op_status x) \<and> op_status x \<noteq> Os_sending \<and> op_status x \<noteq> Os_quarantined \<and> positive_safe k"
  using assms
  by (auto simp: answer_snapshot_def getOutboundDeliverySnapshot_def delivery_identity_of_def answer_of_def and_then_Inr
      throw_if_Inr validatePositiveSafeInteger_iff split: option.splits)

lemma answer_snapshot_runs:
  assumes "sound_identity i" "positive_safe k" "answer_of i d k x" "op_status x \<noteq> Os_sending" "op_status x \<noteq> Os_quarantined"
  shows "answer_snapshot i d k = Inr (k, op_status x)"
proof -
  have seq: "(case ti_inboundSeq i of None \<Rightarrow> Inr () | Some n \<Rightarrow> validatePositiveSafeInteger n ''Outbound source inbound sequence'') = Inr ()"
    using assms(1) by (auto simp: sound_identity_def validatePositiveSafeInteger_iff split: option.splits)
  have "validatePositiveSafeInteger k l = Inr ()" "validateBoundedRequired (ti_conversationKey i) l TURN_RECOVERY_MAX_ID_BYTES = Inr ()"
    "validateBoundedRequired (ti_deliveryJid i) l TURN_RECOVERY_MAX_ID_BYTES = Inr ()" for l
    using assms(1,2) by (simp_all add: sound_identity_def result_simps)
  with seq assms(3-5) show ?thesis
    by (simp add: answer_snapshot_def getOutboundDeliverySnapshot_def delivery_identity_of_def answer_of_def throw_if_def)
qed

lemma answer_snapshotsD:
  "answer_snapshots i d ks = Inr xs \<Longrightarrow> map fst xs = ks \<and> (\<forall>y \<in> set xs. \<exists>x. answer_of i d (fst y) x \<and> snd y = op_status x
     \<and> op_status x \<noteq> Os_sending \<and> op_status x \<noteq> Os_quarantined \<and> positive_safe (fst y))"
proof (induction ks arbitrary: xs)
  case (Cons k ks)
  from Cons.prems obtain y ys where y: "answer_snapshot i d k = Inr y" "answer_snapshots i d ks = Inr ys" "xs = y # ys"
    by (auto simp: and_then_Inr)
  with answer_snapshotD [OF y(1)] Cons.IH [OF y(2)] show ?case by auto
qed simp

definition answer_status :: "turn_identity \<Rightarrow> db \<Rightarrow> int list \<Rightarrow> outbound_status set" where
  "answer_status i d ks = {op_status x | k x. k \<in> set ks \<and> answer_of i d k x}"

lemma with_status_SomeD: "with_status st xs = Some k \<Longrightarrow> (k, st) \<in> set xs"
  by (auto simp: with_status_def dest: find_SomeD)

lemma with_status_NoneD: "with_status st xs = None \<Longrightarrow> (k, st') \<in> set xs \<Longrightarrow> st' \<noteq> st"
  by (auto simp: with_status_def find_None_iff)

lemma snapshot_cases:
  assumes "deriveDeliveryEvidence d i ks = Inr e" "ks \<noteq> []"
  obtains xs where "answer_snapshots i d ks = Inr xs"
    "(\<exists>k. (k, Os_maybe_sent) \<in> set xs \<and> e = De_delivery_unknown k) \<or> (\<exists>k. (k, Os_pending) \<in> set xs \<and> e = De_enqueued k)
     \<or> (\<exists>k. (k, Os_submitted) \<in> set xs \<and> e = De_flushed k)
     \<or> snd ` set xs \<inter> {Os_pending, Os_submitted, Os_maybe_sent} = {} \<and>
        ((\<exists>k. (k, Os_failed_permanent) \<in> set xs \<and> e = De_not_sent k)
         \<or> (xs \<noteq> [] \<and> snd ` set xs \<subseteq> {Os_echoed} \<and> e = De_echoed (fst (last xs))))"
proof -
  from assms obtain xs where xs: "answer_snapshots i d ks = Inr xs"
    by (auto simp: deriveDeliveryEvidence_def and_then_Inr)
  show ?thesis
  proof (rule that [OF xs])
    show "(\<exists>k. (k, Os_maybe_sent) \<in> set xs \<and> e = De_delivery_unknown k) \<or> (\<exists>k. (k, Os_pending) \<in> set xs \<and> e = De_enqueued k)
     \<or> (\<exists>k. (k, Os_submitted) \<in> set xs \<and> e = De_flushed k)
     \<or> snd ` set xs \<inter> {Os_pending, Os_submitted, Os_maybe_sent} = {} \<and>
        ((\<exists>k. (k, Os_failed_permanent) \<in> set xs \<and> e = De_not_sent k)
         \<or> (xs \<noteq> [] \<and> snd ` set xs \<subseteq> {Os_echoed} \<and> e = De_echoed (fst (last xs))))"
      using assms xs with_status_SomeD [of _ xs]
      by (auto simp: deriveDeliveryEvidence_def list_all_iff dest: with_status_NoneD split: option.splits if_splits)
  qed
qed

lemma answer_evidenceD:
  assumes "deriveDeliveryEvidence d i ks = Inr e"
  shows "\<forall>k \<in> set ks. \<exists>x. answer_of i d k x \<and> op_status x \<noteq> Os_sending \<and> op_status x \<noteq> Os_quarantined \<and> positive_safe k"
    "e = De_none \<longleftrightarrow> ks = []"
    "delivery_kind_str e = ''echoed'' \<longleftrightarrow> ks \<noteq> [] \<and> answer_status i d ks \<subseteq> {Os_echoed}"
    "unresolved_delivery e \<longleftrightarrow> answer_status i d ks \<inter> {Os_pending, Os_submitted, Os_maybe_sent} \<noteq> {}"
    "persisted_delivery_op e = Some k \<Longrightarrow> k \<in> set ks \<and> (\<exists>x. answer_of i d k x \<and> positive_safe k
       \<and> DELIVERY_STATUS_PROOF (persisted_delivery_kind e) = Some (op_status x))"
    "delivery_kind_str e = ''not_sent'' \<Longrightarrow> Os_failed_permanent \<in> answer_status i d ks"
proof -
  have "(\<forall>k \<in> set ks. \<exists>x. answer_of i d k x \<and> op_status x \<noteq> Os_sending \<and> op_status x \<noteq> Os_quarantined \<and> positive_safe k)
    \<and> (e = De_none \<longleftrightarrow> ks = []) \<and> (delivery_kind_str e = ''echoed'' \<longleftrightarrow> ks \<noteq> [] \<and> answer_status i d ks \<subseteq> {Os_echoed})
    \<and> (unresolved_delivery e \<longleftrightarrow> answer_status i d ks \<inter> {Os_pending, Os_submitted, Os_maybe_sent} \<noteq> {})
    \<and> (\<forall>k. persisted_delivery_op e = Some k \<longrightarrow> k \<in> set ks \<and> (\<exists>x. answer_of i d k x \<and> positive_safe k
       \<and> DELIVERY_STATUS_PROOF (persisted_delivery_kind e) = Some (op_status x)))
    \<and> (delivery_kind_str e = ''not_sent'' \<longrightarrow> Os_failed_permanent \<in> answer_status i d ks)"
  proof (cases "ks = []")
    case True
    with assms show ?thesis by (simp add: deriveDeliveryEvidence_def answer_status_def unresolved_delivery_def)
  next
    case False
    from snapshot_cases [OF assms False] obtain xs where xs: "answer_snapshots i d ks = Inr xs"
      and e: "(\<exists>k. (k, Os_maybe_sent) \<in> set xs \<and> e = De_delivery_unknown k) \<or> (\<exists>k. (k, Os_pending) \<in> set xs \<and> e = De_enqueued k)
     \<or> (\<exists>k. (k, Os_submitted) \<in> set xs \<and> e = De_flushed k)
     \<or> snd ` set xs \<inter> {Os_pending, Os_submitted, Os_maybe_sent} = {} \<and>
        ((\<exists>k. (k, Os_failed_permanent) \<in> set xs \<and> e = De_not_sent k)
         \<or> (xs \<noteq> [] \<and> snd ` set xs \<subseteq> {Os_echoed} \<and> e = De_echoed (fst (last xs))))" by blast
    note rows = answer_snapshotsD [OF xs]
    have fst_xs: "fst ` set xs = set ks" using rows by (metis set_map)
    have status: "snd ` set xs = answer_status i d ks"
    proof (intro equalityI subsetI)
      fix st
      assume "st \<in> snd ` set xs"
      then obtain y where y: "y \<in> set xs" "st = snd y" by blast
      with rows obtain x where "answer_of i d (fst y) x" "snd y = op_status x" by blast
      with y fst_xs show "st \<in> answer_status i d ks" by (auto simp: answer_status_def)
    next
      fix st
      assume "st \<in> answer_status i d ks"
      then obtain k x where k: "k \<in> set ks" "answer_of i d k x" "st = op_status x" by (auto simp: answer_status_def)
      from k(1) have "k \<in> fst ` set xs" using fst_xs by simp
      then obtain y where y: "y \<in> set xs" "fst y = k" by auto
      with rows obtain x' where x': "answer_of i d k x'" "snd y = op_status x'" by auto
      with k(2,3) answer_of_unique [OF k(2) x'(1)] have "st = snd y" by simp
      with y(1) show "st \<in> snd ` set xs" by simp
    qed
    have owned: "\<forall>k \<in> set ks. \<exists>x. answer_of i d k x \<and> op_status x \<noteq> Os_sending \<and> op_status x \<noteq> Os_quarantined \<and> positive_safe k"
      using rows fst_xs by (metis (no_types, lifting) imageE)
    have row: "\<exists>x. answer_of i d k x \<and> positive_safe k \<and> st = op_status x" if "(k, st) \<in> set xs" for k st
      using rows that by fastforce
    have last: "(fst (last xs), Os_echoed) \<in> set xs" if "xs \<noteq> []" "snd ` set xs \<subseteq> {Os_echoed}"
      using that last_in_set [of xs] by (metis image_subset_iff prod.collapse singletonD)
    have inS: "st \<in> snd ` set xs" if "(k, st) \<in> set xs" for k st using that by force
    let ?S = "answer_status i d ks"
    have inK: "k \<in> set ks" if "(k, st) \<in> set xs" for k st using that fst_xs by force
    have proved: "\<forall>m. persisted_delivery_op e = Some m \<longrightarrow> m \<in> set ks \<and> (\<exists>x. answer_of i d m x \<and> positive_safe m
       \<and> DELIVERY_STATUS_PROOF (persisted_delivery_kind e) = Some (op_status x))"
      if "(k, st) \<in> set xs" "persisted_delivery_op e = Some k" "DELIVERY_STATUS_PROOF (persisted_delivery_kind e) = Some st" for k st
      using row [OF that(1)] inK [OF that(1)] that(2,3) by auto
    note kinds = unresolved_delivery_def persisted_delivery_kind_def DELIVERY_STATUS_PROOF_def
    have unresolved: ?thesis
      if "(k, st) \<in> set xs" "persisted_delivery_op e = Some k" "DELIVERY_STATUS_PROOF (persisted_delivery_kind e) = Some st"
        "st \<in> {Os_pending, Os_submitted, Os_maybe_sent}" "unresolved_delivery e" "delivery_kind_str e \<notin> {''none'', ''echoed'', ''not_sent''}" for k st
    proof -
      have st: "st \<in> ?S" using inS [OF that(1)] status by simp
      then have "\<not> ?S \<subseteq> {Os_echoed}" "?S \<inter> {Os_pending, Os_submitted, Os_maybe_sent} \<noteq> {}" using that(4) by auto
      moreover have "e \<noteq> De_none" using that(6) by auto
      ultimately show ?thesis using owned False proved [OF that(1-3)] that(5,6) by simp
    qed
    from e consider (maybe) k where "(k, Os_maybe_sent) \<in> set xs" "e = De_delivery_unknown k"
      | (pending) k where "(k, Os_pending) \<in> set xs" "e = De_enqueued k"
      | (submitted) k where "(k, Os_submitted) \<in> set xs" "e = De_flushed k"
      | (shed) k where "(k, Os_failed_permanent) \<in> set xs" "e = De_not_sent k" "?S \<inter> {Os_pending, Os_submitted, Os_maybe_sent} = {}"
      | (echoed) "xs \<noteq> []" "?S \<subseteq> {Os_echoed}" "e = De_echoed (fst (last xs))"
      unfolding status by blast
    then show ?thesis
    proof cases
      case maybe
      with unresolved [OF maybe(1)] False show ?thesis by (simp add: kinds)
    next
      case pending
      with unresolved [OF pending(1)] False show ?thesis by (simp add: kinds)
    next
      case submitted
      with unresolved [OF submitted(1)] False show ?thesis by (simp add: kinds)
    next
      case shed
      have "Os_failed_permanent \<in> ?S" using inS [OF shed(1)] status by simp
      moreover from this have "\<not> ?S \<subseteq> {Os_echoed}" by auto
      ultimately show ?thesis using owned False shed(2,3) by (simp add: kinds)
    next
      case echoed
      have "\<not> ?S \<inter> {Os_pending, Os_submitted, Os_maybe_sent} \<noteq> {}" using echoed(2) by auto
      with echoed proved [OF last] owned False status show ?thesis by (simp add: kinds)
    qed
  qed
  then show "\<forall>k \<in> set ks. \<exists>x. answer_of i d k x \<and> op_status x \<noteq> Os_sending \<and> op_status x \<noteq> Os_quarantined \<and> positive_safe k"
    "e = De_none \<longleftrightarrow> ks = []"
    "delivery_kind_str e = ''echoed'' \<longleftrightarrow> ks \<noteq> [] \<and> answer_status i d ks \<subseteq> {Os_echoed}"
    "unresolved_delivery e \<longleftrightarrow> answer_status i d ks \<inter> {Os_pending, Os_submitted, Os_maybe_sent} \<noteq> {}"
    "persisted_delivery_op e = Some k \<Longrightarrow> k \<in> set ks \<and> (\<exists>x. answer_of i d k x \<and> positive_safe k
       \<and> DELIVERY_STATUS_PROOF (persisted_delivery_kind e) = Some (op_status x))"
    "delivery_kind_str e = ''not_sent'' \<Longrightarrow> Os_failed_permanent \<in> answer_status i d ks" by blast+
qed

definition answerable :: "turn_identity \<Rightarrow> db \<Rightarrow> int \<Rightarrow> bool" where
  "answerable i d k \<longleftrightarrow> positive_safe k \<and> (\<exists>x. answer_of i d k x \<and> op_status x \<noteq> Os_sending \<and> op_status x \<noteq> Os_quarantined)"

lemma answer_snapshots_run:
  assumes "sound_identity i" "\<forall>k \<in> set ks. answerable i d k"
  shows "\<exists>xs. answer_snapshots i d ks = Inr xs"
  using assms(2)
proof (induction ks)
  case (Cons k ks)
  then obtain x where "positive_safe k" "answer_of i d k x" "op_status x \<noteq> Os_sending" "op_status x \<noteq> Os_quarantined"
    by (auto simp: answerable_def)
  from answer_snapshot_runs [OF assms(1) this] Cons show ?case by auto
qed simp

lemma evidence_exists:
  assumes "sound_identity i" "\<forall>k \<in> set ks. answerable i d k"
  shows "\<exists>e. deriveDeliveryEvidence d i ks = Inr e"
proof (cases "ks = []")
  case False
  obtain xs where xs: "answer_snapshots i d ks = Inr xs" using answer_snapshots_run [OF assms] by blast
  note rows = answer_snapshotsD [OF xs]
  have "list_all (\<lambda>x. snd x = Os_echoed) xs"
    if "with_status Os_maybe_sent xs = None" "with_status Os_pending xs = None" "with_status Os_submitted xs = None"
      "with_status Os_failed_permanent xs = None"
  proof -
    have "snd y = Os_echoed" if y: "y \<in> set xs" for y
    proof -
      have "snd y \<noteq> Os_sending" "snd y \<noteq> Os_quarantined" using rows y by auto
      moreover have "(fst y, snd y) \<in> set xs" using y by simp
      note with_status_NoneD [OF _ this]
      ultimately show ?thesis using \<open>with_status Os_maybe_sent xs = None\<close> \<open>with_status Os_pending xs = None\<close>
          \<open>with_status Os_submitted xs = None\<close> \<open>with_status Os_failed_permanent xs = None\<close> by (cases "snd y") auto
    qed
    then show ?thesis by (simp add: list_all_iff)
  qed
  moreover have "xs \<noteq> []" using rows False by auto
  ultimately show ?thesis using False xs by (auto simp: deriveDeliveryEvidence_def split: option.splits)
qed (simp add: deriveDeliveryEvidence_def)

section \<open>Dispositions\<close>

lemma disposition_of_evidence:
  assumes "deriveInboundDisposition (effective_attempt a (effective_evidence a e) w) (effective_evidence a e) = Inr x"
  shows "x = Td_finalized_replied \<Longrightarrow> delivery_kind_str e = ''echoed'' \<and> attempt_kind_str a \<notin> {''failed'', ''admission_rejected''}"
    "x = Td_finalized_no_reply_policy \<Longrightarrow> e = De_none \<and> effective_attempt a e w \<in> {Ao_suppressed_by_policy, Ao_withheld_by_policy}"
    "x = Td_failed_terminal \<Longrightarrow> \<not> unresolved_delivery e \<and> (delivery_kind_str e = ''echoed'' \<longrightarrow> attempt_kind_str a = ''failed'')"
    "x = Td_transferred_to_recovery_owner \<Longrightarrow> unresolved_delivery e"
    "x \<noteq> Td_unfinalized_retry_owned"
  using assms
  by (cases a; cases e; auto simp: deriveInboundDisposition_def effective_attempt_def effective_evidence_def
      unresolved_delivery_def split: if_splits)+

lemma runtime_terminalD:
  assumes "runtime_terminal p e w = Inr r"
  shows "tx_identity r = xt_identity p" "tx_delivery r = e" "tx_attempt r = effective_attempt (xt_attempt p) e w"
    "deriveInboundDisposition (effective_attempt (xt_attempt p) e w) e = Inr (tx_disposition r)"
    "tx_disposition r = Td_transferred_to_recovery_owner \<Longrightarrow> xt_owner p \<noteq> None \<and> xt_replay p \<noteq> None"
  using assms by (auto simp: runtime_terminal_def Let_def and_then_Inr throw_if_Inr)

text \<open>How a turn came to its end.\<close>

lemma finalized_terminalD:
  assumes "finalizeRuntimeTurn sink p now s = (s', Turn_terminal r receipt, alerts)"
  obtains ks w e where "xt_answers p = Answers_ready ks w" "deriveDeliveryEvidence (fst s) (xt_identity p) ks = Inr e"
    "runtime_terminal p (effective_evidence (xt_attempt p) e) w = Inr r"
    "finalize_attempt p (effective_evidence (xt_attempt p) e) w now s = (s', Inr (r, receipt, alerts))"
proof (cases "xt_answers p")
  case Answers_failed
  with assms show ?thesis by (simp add: finalizeRuntimeTurn_def emitFailureIncident_def split: if_splits)
next
  case (Answers_ready ks w)
  show ?thesis
  proof (cases "deriveDeliveryEvidence (fst s) (xt_identity p) ks")
    case (Inl err)
    with assms Answers_ready show ?thesis by (simp add: finalizeRuntimeTurn_def emitFailureIncident_def split: if_splits)
  next
    case (Inr e)
    let ?e = "effective_evidence (xt_attempt p) e"
    have run: "finalize_attempt p ?e w now s = (s', Inr (r, receipt, alerts))"
      using assms Answers_ready Inr
      by (auto simp: finalizeRuntimeTurn_def emitFailureIncident_def split: if_splits prod.splits sum.splits)
    then have "runtime_terminal p ?e w = Inr r"
      by (auto simp: finalize_attempt_def throw_if_Inr split: if_splits prod.splits sum.splits)
    with run show ?thesis using Answers_ready Inr by (intro that)
  qed
qed

section \<open>A transaction that cannot fail\<close>

lemma inbound_mutation_runs:
  assumes "wf_db d" "get_inbound d (mutation_seq m) = Some r" "open_inbound r" "ie_conversation_key r = fp_conversationKey t"
    "ie_chat_jid r = fp_deliveryJid t" "\<not> linked_inbound (mutation_seq m) d" "\<not> completed_source (mutation_seq m) d"
  shows "\<exists>es. runTerminalInboundMutation m t now d = Inr (d\<lparr>inbound_events := es\<rparr>)"
proof -
  note keep = inbound_row_ids(2-4)
  have row: "check_inbound_row t (get_inbound d (mutation_seq m)) = Inr r"
    using assms(2-5) by (simp add: check_inbound_row_def)
  show ?thesis
  proof (cases m)
    case (Im_complete k reason)
    let ?d1 = "if ie_processing_status r = Is_processing
      then fst (cas_inbound (\<lambda>r. \<not> scheduled_turn_loss_row r) (\<lambda>r. r\<lparr>ie_processing_status := Is_turn_done\<rparr>) k d) else d"
    have first: "(if ie_processing_status r = Is_processing then markTurnDone k d else Inr d) = Inr ?d1"
      using assms(6,7) Im_complete by (simp add: markTurnDone_def update_inbound_def no_inbound_abort case_prod_beta)
    have wf1: "wf_db ?d1" using assms(1) inbounds.wf_cas [OF _ keep(1)] by simp
    have "\<exists>es. ?d1 = d\<lparr>inbound_events := es\<rparr>"
    proof (cases "ie_processing_status r = Is_processing")
      case True
      show ?thesis unfolding if_P [OF True] by (rule cas_inbound_table)
    next
      case False
      then show ?thesis by (intro exI [of _ "inbound_events d"]) simp
    qed
    then obtain es1 where es1: "?d1 = d\<lparr>inbound_events := es1\<rparr>" by blast
    have "\<not> linked_inbound k ?d1" using assms(6) Im_complete unfolding es1 by (simp add: linked_inbound_def)
    then have run: "markInboundComplete k reason now ?d1 = Inr (cas_inbound (\<lambda>r. \<not> scheduled_turn_loss_row r)
       (\<lambda>r. r\<lparr>ie_processing_status := Is_complete, ie_completed_at := Some now, ie_terminal_reason := Some reason\<rparr>) k ?d1)"
      unfolding markInboundComplete_def update_inbound_def by (simp add: no_inbound_abort)
    obtain r1 where r1: "get_inbound ?d1 k = Some r1" "open_inbound r1"
      using assms(2,3) Im_complete inbounds.get_cas [OF assms(1) keep(1)] open_not_lost [OF assms(3)]
      by (cases "ie_processing_status r = Is_processing") (auto simp: open_inbound_def)
    let ?cas = "cas_inbound (\<lambda>r. \<not> scheduled_turn_loss_row r)
       (\<lambda>r. r\<lparr>ie_processing_status := Is_complete, ie_completed_at := Some now, ie_terminal_reason := Some reason\<rparr>) k ?d1"
    have "snd ?cas" using r1 open_not_lost [OF r1(2)] inbounds.cas_wins [OF wf1 keep(2)] by simp
    moreover obtain es where "fst ?cas = ?d1\<lparr>inbound_events := es\<rparr>" using cas_inbound_table by blast
    ultimately have "?cas = (d\<lparr>inbound_events := es\<rparr>, True)" unfolding es1 by (simp add: prod_eq_iff)
    with run first row show ?thesis
      unfolding runTerminalInboundMutation_def Im_complete by (auto simp: throw_if_def)
  next
    case (Im_failed k c)
    let ?cas = "cas_inbound (\<lambda>r. \<not> scheduled_turn_loss_row r) (\<lambda>r. r\<lparr>ie_processing_status := Is_failed,
      ie_completed_at := Some now, ie_terminal_reason := Some ''error'', ie_failure_class := Some c\<rparr>) k d"
    have run: "markInboundFailed k c now d = Inr ?cas"
      using assms(6) Im_failed unfolding markInboundFailed_def update_inbound_def by (simp add: no_inbound_abort)
    have "snd ?cas" using assms(2,3) Im_failed open_not_lost [OF assms(3)] inbounds.cas_wins [OF assms(1) keep(3)] by simp
    moreover obtain es where "fst ?cas = d\<lparr>inbound_events := es\<rparr>" using cas_inbound_table by blast
    ultimately have "?cas = (d\<lparr>inbound_events := es\<rparr>, True)" by (simp add: prod_eq_iff)
    with run row show ?thesis unfolding runTerminalInboundMutation_def Im_failed by (auto simp: throw_if_def)
  qed
qed

text \<open>An event that is linked to a recovery disposition cannot be closed: the trigger aborts the transaction.\<close>

lemma failed_mutation_unlinked:
  assumes "runTerminalInboundMutation (Im_failed k c) t now d = Inr d'"
  shows "\<not> linked_inbound k d"
proof -
  from assms obtain r where r: "check_inbound_row t (get_inbound d k) = Inr r" "markInboundFailed k c now d = Inr (d', True)"
    by (auto simp: runTerminalInboundMutation_def and_then_Inr throw_if_Inr)
  note row = check_inbound_rowD [OF r(1)]
  then have "\<not> scheduled_turn_loss_row r" using open_not_lost by blast
  moreover have "inbound_abort True (\<lambda>r. \<not> scheduled_turn_loss_row r) (\<lambda>r. r\<lparr>ie_processing_status := Is_failed,
      ie_completed_at := Some now, ie_terminal_reason := Some ''error'', ie_failure_class := Some c\<rparr>) k d = None"
    using r(2) by (simp add: markInboundFailed_def update_inbound_Inr)
  ultimately show ?thesis using row get_inbound_seq [of d k r]
    by (auto simp: inbound_abort_def inbound_triggers_def disposition_inbound_proof_immutable_def open_inbound_def split: if_splits)
qed

lemma failed_winner_unlinked:
  assumes "finalize_winner q i now d c = Inr (d', c', job, dec)" "fz_inbound q = Some (Im_failed k f)"
  shows "\<not> linked_inbound k d"
proof (rule winner_stages [OF assms(1)])
  fix op d1 d2 d3
  assume job: "case fz_recoveryJob q of None \<Rightarrow> d1 = d \<and> job = None
      | Some jp \<Rightarrow> \<exists>x. insertLinkedWithinCallerTransaction i jp now d = Inr (d1, x) \<and> job = Some x"
    and book: "case fz_bookkeeping q of None \<Rightarrow> d2 = d1 | Some b \<Rightarrow> runTurnBookkeeping b now d1 = Inr d2"
    and mut: "case fz_inbound q of None \<Rightarrow> d3 = d2 | Some m \<Rightarrow> runTerminalInboundMutation m (fz_terminal q) now d2 = Inr d3"
  have "disposition_links d1 = disposition_links d"
    using job by (auto split: option.splits dest!: insert_linked(1))
  moreover have "disposition_links d2 = disposition_links d1"
  proof (cases "fz_bookkeeping q")
    case None
    with book show ?thesis by simp
  next
    case (Some b)
    with book have "runTurnBookkeeping b now d1 = Inr d2" by simp
    then show ?thesis by (auto simp: runTurnBookkeeping_def and_then_Inr split: option.splits dest!: tokens_frame upsert_frame)
  qed
  moreover have "\<not> linked_inbound k d2" using mut assms(2) by (auto dest: failed_mutation_unlinked)
  ultimately show ?thesis by (simp add: linked_inbound_def)
qed

text \<open>The rows a first finalization of a turn needs.\<close>

definition fresh_turn :: "turn_identity \<Rightarrow> int \<Rightarrow> db \<Rightarrow> bool" where
  "fresh_turn i k d \<longleftrightarrow> ti_inboundSeq i = Some k
     \<and> (\<exists>e. get_inbound d k = Some e \<and> open_inbound e \<and> ie_conversation_key e = ti_conversationKey i \<and> ie_chat_jid e = ti_deliveryJid i)
     \<and> getTurnTerminal (Some k) (ti_logicalTurnId i) (ti_generation i) d = None"

text \<open>
  No trigger guards the rows of the turn: its event is not linked to a recovery disposition and has no
  completed recovery, its answers prove nothing yet and were not handed over before, and no corroboration
  refers to a record that does not exist.
\<close>

definition unguarded_turn :: "int list \<Rightarrow> int \<Rightarrow> db \<Rightarrow> bool" where
  "unguarded_turn ks k d \<longleftrightarrow> \<not> linked_inbound k d \<and> \<not> completed_source k d \<and> (\<forall>n \<in> set ks. \<not> proof_op n d
     \<and> \<not> exists_row (\<lambda>t. transferred t \<and> tt_delivery_op_id t = Some n) (terminal_records d))
     \<and> (\<forall>c \<in> set (corroborations d). co_terminal_record_id c \<le> last_terminal_id d)"

lemma delivery_statement_runs:
  assumes "wf_db d" "get_op d k = Some x"
  shows "snd (terminal_statement k d)"
proof -
  have "keeps_id op_id (op_is_terminal_update (\<lambda>_. True))" by (simp add: keeps_id_def)
  from ops.cas_wins [OF assms(1) this] assms(2) show ?thesis by (simp add: terminal_statement_def)
qed

text \<open>The insert of the record passes the trigger and the index of the table.\<close>

lemma transfer_admitted:
  assumes "check_disposition q = Inr ()" "unguarded_turn ks k d" "ti_inboundSeq i = Some k"
    and ids: "fp_inboundSeq (fz_terminal q) = Some k" "fp_conversationKey (fz_terminal q) = ti_conversationKey i"
      "fp_deliveryJid (fz_terminal q) = ti_deliveryJid i"
    and op: "fp_deliveryKind (fz_terminal q) = ''none'' \<or> (\<exists>m x. fp_deliveryOpId (fz_terminal q) = Some m \<and> m \<in> set ks \<and> answer_of i d m x
      \<and> DELIVERY_STATUS_PROOF (fp_deliveryKind (fz_terminal q)) = Some (op_status x))"
  shows "\<not> turn_terminal_transfer_requires_delivery (terminal_row n (fz_terminal q)) d"
    "\<not> delivery_op_taken (terminal_row n (fz_terminal q)) d"
proof -
  let ?r = "terminal_row n (fz_terminal q)"
  have kind: "transferred ?r \<Longrightarrow> fp_deliveryKind (fz_terminal q) \<in> {''enqueued'', ''flushed'', ''delivery_unknown''}"
    using assms(1) by (auto simp: check_disposition_def transferred_def terminal_row_def Let_def and_then_Inr throw_if_Inr)
  have answered: "\<exists>m x. fp_deliveryOpId (fz_terminal q) = Some m \<and> m \<in> set ks \<and> answer_of i d m x
      \<and> DELIVERY_STATUS_PROOF (fp_deliveryKind (fz_terminal q)) = Some (op_status x)" if "transferred ?r"
    using op kind [OF that] by auto
  show "\<not> turn_terminal_transfer_requires_delivery ?r d"
  proof (cases "transferred ?r")
    case True
    from answered [OF True] obtain m x where m: "fp_deliveryOpId (fz_terminal q) = Some m" "answer_of i d m x"
      "DELIVERY_STATUS_PROOF (fp_deliveryKind (fz_terminal q)) = Some (op_status x)" by blast
    from m(2) have "x \<in> set (outbound_ops d)" "op_id x = m" by (auto simp: answer_of_def get_op_def dest: find_SomeD)
    with m kind [OF True] ids assms(3) show ?thesis
      by (auto simp: turn_terminal_transfer_requires_delivery_def terminal_row_def exists_row_iff answer_of_def
          DELIVERY_STATUS_PROOF_def split: if_splits intro!: bexI [of _ x])
  qed (simp add: turn_terminal_transfer_requires_delivery_def)
  show "\<not> delivery_op_taken ?r d"
  proof (cases "transferred ?r")
    case True
    from answered [OF True] assms(2) show ?thesis
      by (auto simp: unguarded_turn_def delivery_op_taken_def terminal_row_def)
  qed (simp add: delivery_op_taken_def)
qed

lemma proof_op_recorded:
  assumes "unguarded_turn ks k d" "m \<in> set ks" "tt_id r = last_terminal_id d + 1" "terminal_records d' = terminal_records d @ [r]"
    "corroborations d' = corroborations d" "closure_witnesses d' = closure_witnesses d"
  shows "\<not> proof_op m d'"
  using assms
  by (auto simp: unguarded_turn_def proof_op_def corroborated_selected_def corroborating_def closure_selected_def exists_row_iff)

lemma fresh_finalization_wins:
  assumes wf: "wf_db d" and q: "normalizeFinalizeTurnTerminalParams q = Inr q"
    and plain: "fz_bookkeeping q = None" "fz_capabilityDecision q = None"
    and fresh: "fresh_turn i k d" and free: "unguarded_turn ks k d" and ids: "fp_inboundSeq (fz_terminal q) = Some k" "fp_conversationKey (fz_terminal q) = ti_conversationKey i"
      "fp_deliveryJid (fz_terminal q) = ti_deliveryJid i" "fp_logicalTurnId (fz_terminal q) = ti_logicalTurnId i"
      "fp_generation (fz_terminal q) = ti_generation i"
    and job: "\<forall>jp. fz_recoveryJob q = Some jp \<longrightarrow> map_option ie_message_id (get_inbound d k) = Some (jp_sourceMessageId jp)
      \<and> \<not> job_key_taken d (last_terminal_id d + 1) jp"
    and op: "fp_deliveryKind (fz_terminal q) = ''none'' \<or> (\<exists>m x. fp_deliveryOpId (fz_terminal q) = Some m \<and> m \<in> set ks \<and> answer_of i d m x
      \<and> DELIVERY_STATUS_PROOF (fp_deliveryKind (fz_terminal q)) = Some (op_status x))"
  shows "\<exists>d' out. finalizeTurnTerminal q now (d, c) = ((d', c), Inr out) \<and> rt_applied (fr_record out) \<and> fr_winnerMatchesRequest out"
proof -
  let ?t = "fz_terminal q"
  obtain e where e: "get_inbound d k = Some e" "open_inbound e" "ie_conversation_key e = ti_conversationKey i"
    "ie_chat_jid e = ti_deliveryJid i" using fresh by (auto simp: fresh_turn_def)
  have none: "find (terminal_keyed (fp_inboundSeq ?t) (fp_logicalTurnId ?t) (fp_generation ?t)) (terminal_records d) = None"
    using fresh ids by (simp add: fresh_turn_def getTurnTerminal_def)
  obtain d1 r where rec: "runRecordTurnTerminal ?t now d = Inr (d1, r)" "rt_applied r"
    using normalized_checks(5) [OF q] none transfer_admitted [OF normalized_checks(2) [OF q] free _ ids(1-3) op] fresh
    by (simp add: runRecordTurnTerminal_def Let_def fresh_turn_def)
  note d1 = record_applied [OF rec wf]
  have same: "get_inbound d1 j = get_inbound d j" "get_op d1 j = get_op d j" "recovery_jobs d1 = recovery_jobs d" for j
    unfolding d1(1) by (simp_all add: get_inbound_def get_op_def)
  have row: "check_inbound_row ?t (get_inbound d1 k) = Inr e" using e ids same by (simp add: check_inbound_row_def)
  have inbound: "validateTerminalInboundProof q d1 = Inr ()"
    using row job e(1) ids(1) by (auto simp: validateTerminalInboundProof_def Let_def throw_if_def split: option.splits)
  obtain dop where dop: "validateTerminalDeliveryProof ?t d1 = Inr dop" "\<forall>m. dop = Some m \<longrightarrow> get_op d m \<noteq> None \<and> m \<in> set ks"
  proof (cases "fp_deliveryKind ?t = ''none''")
    case True
    then show ?thesis by (intro that [of None]) (simp_all add: validateTerminalDeliveryProof_def)
  next
    case False
    with op obtain m x where m: "fp_deliveryOpId ?t = Some m" "answer_of i d m x"
      "DELIVERY_STATUS_PROOF (fp_deliveryKind ?t) = Some (op_status x)" "m \<in> set ks" by blast
    have "ti_inboundSeq i = Some k" using fresh by (simp add: fresh_turn_def)
    with m False ids show ?thesis
      by (intro that [of "Some m"]) (simp_all add: validateTerminalDeliveryProof_def answer_of_def same)
  qed
  obtain d2 jr where d2: "(case fz_recoveryJob q of None \<Rightarrow> Inr (d1, None)
       | Some jp \<Rightarrow> and_then (insertLinkedWithinCallerTransaction (rt_recordId r) jp now d1) (\<lambda>(d1, r). Inr (d1, Some r))) = Inr (d2, jr)"
    and wf2: "wf_db d2" and same2: "inbound_events d2 = inbound_events d" "outbound_ops d2 = outbound_ops d"
      "terminal_records d2 = terminal_records d1" "corroborations d2 = corroborations d" "closure_witnesses d2 = closure_witnesses d"
      "linked_inbound k d2 = linked_inbound k d" "completed_source k d2 = completed_source k d"
  proof (cases "fz_recoveryJob q")
    case None
    then show ?thesis using that [of d1 None] d1(3) unfolding d1(1) by (simp add: linked_inbound_def completed_source_def)
  next
    case (Some jp)
    then have "validateTurnRecoveryJob jp = Inr ()" "\<not> job_key_taken d1 (rt_recordId r) jp"
      using valid_job_of_check [OF normalized_checks(3) [OF q]] job d1(2) same(3) by (simp_all add: job_key_taken_def)
    then obtain d2 jr where ins: "insertLinkedWithinCallerTransaction (rt_recordId r) jp now d1 = Inr (d2, jr)"
      by (simp add: insertLinkedWithinCallerTransaction_def Let_def)
    have "inbound_events d2 = inbound_events d" "outbound_ops d2 = outbound_ops d" "terminal_records d2 = terminal_records d1"
      "corroborations d2 = corroborations d" "closure_witnesses d2 = closure_witnesses d"
      "linked_inbound k d2 = linked_inbound k d" "completed_source k d2 = completed_source k d"
      unfolding insert_linked(1) [OF ins] d1(1) by (simp_all add: linked_inbound_def completed_source_def exists_row_def new_job_def)
    moreover have "wf_db d2" unfolding insert_linked(1) [OF ins] by (rule wf_insert_linked [OF d1(3)])
    ultimately show ?thesis using that [of d2 "Some jr"] Some ins by simp
  qed
  obtain d3 where d3: "(case fz_inbound q of None \<Rightarrow> Inr d2 | Some m \<Rightarrow> runTerminalInboundMutation m ?t now d2) = Inr d3"
    "wf_db d3" "outbound_ops d3 = outbound_ops d" "terminal_records d3 = terminal_records d1" "corroborations d3 = corroborations d"
    "closure_witnesses d3 = closure_witnesses d"
  proof (cases "fz_inbound q")
    case None
    with that [of d2] wf2 same2 show ?thesis by simp
  next
    case (Some m)
    then have "deriveTerminalInboundMutation ?t = Inr (Some m)" using normalized_checks(6) [OF q] by simp
    then have "mutation_seq m = k" using ids(1)
      by (auto simp: deriveTerminalInboundMutation_def and_then_Inr split: option.splits if_splits)
    then have row2: "get_inbound d2 (mutation_seq m) = Some e" "open_inbound e"
      "ie_conversation_key e = fp_conversationKey ?t" "ie_chat_jid e = fp_deliveryJid ?t"
      "\<not> linked_inbound (mutation_seq m) d2" "\<not> completed_source (mutation_seq m) d2"
      using \<open>mutation_seq m = k\<close> e ids same2 free by (simp_all add: get_inbound_def unguarded_turn_def)
    from inbound_mutation_runs [OF wf2 this] obtain es where
      run: "runTerminalInboundMutation m ?t now d2 = Inr (d2\<lparr>inbound_events := es\<rparr>)" by blast
    moreover have "wf_db (d2\<lparr>inbound_events := es\<rparr>)" by (rule inbound_mutation_closes [OF wf2 run])
    ultimately show ?thesis using that [of "d2\<lparr>inbound_events := es\<rparr>"] Some same2 by simp
  qed
  obtain d4 where "finalize_winner q (rt_recordId r) now d1 c = Inr (d4, c, jr, None)"
  proof (cases dop)
    case None
    with inbound dop(1) d2 d3(1) plain show ?thesis
      by (intro that [of d3]) (simp add: finalize_winner_def apply_decision_def)
  next
    case (Some m)
    with dop(2) d3(3) obtain x where "get_op d3 m = Some x" by (auto simp: get_op_def)
    from delivery_statement_runs [OF d3(2) this] obtain d4 where mark: "terminal_statement m d3 = (d4, True)"
      by (cases "terminal_statement m d3") auto
    have "m \<in> set ks" using dop(2) Some by simp
    from proof_op_recorded [OF free this _ _ d3(5,6), of "terminal_row (rt_recordId r) ?t"] d3(4) d1(1,2)
    have "\<not> proof_op m d3" by (simp add: terminal_row_def)
    with mark have "runMarkTerminal m d3 = Inr (d4, True)" by (simp add: runMarkTerminal_free)
    with Some inbound dop(1) d2 d3(1) plain show ?thesis
      by (intro that [of d4]) (simp add: finalize_winner_def apply_decision_def)
  qed
  with q rec show ?thesis
    by (simp add: finalizeTurnTerminal_def finalize_body_def) (simp add: finalize_outcome_def Let_def)
qed

section \<open>From the turn to its rows\<close>

lemma mark_candidate_sel [simp]:
  "ie_seq (mark_candidate reason source now e) = ie_seq e" "ie_message_id (mark_candidate reason source now e) = ie_message_id e"
  "ie_conversation_key (mark_candidate reason source now e) = ie_conversation_key e"
  "ie_chat_jid (mark_candidate reason source now e) = ie_chat_jid e"
  "ie_processing_status (mark_candidate reason source now e) = ie_processing_status e"
  "ie_candidate_reason (mark_candidate reason source now e) = Some reason"
  by (simp_all add: mark_candidate_def)

lemma closed_row_candidate [simp]: "ie_candidate_reason (closed_row m now e) = ie_candidate_reason e"
  by (cases m) (simp_all add: closed_row_def)

lemma open_marked [simp]: "open_inbound (mark_candidate reason source now e) = open_inbound e"
  by (simp add: open_inbound_def)

lemma mark_dropped_frame:
  assumes "wf_db d" "mark_dropped r now d = (d1, marked)"
  shows "wf_db d1" "\<exists>es. d1 = d\<lparr>inbound_events := es\<rparr>"
    "\<forall>k. get_inbound d1 k = get_inbound d k \<or> (\<exists>e reason source. get_inbound d k = Some e
       \<and> get_inbound d1 k = Some (mark_candidate reason source now e))"
proof -
  let ?f = "mark_candidate ''runtime_fault_no_terminal_outbound'' ''runtime_fault_disarm'' now"
  have "d1 = d \<or> (\<exists>k b. markContinuityCandidateIfNoTerminalOutbound k ''runtime_fault_no_terminal_outbound''
      ''runtime_fault_disarm'' now d = Inr (d1, b))"
    using assms(2) by (auto simp: mark_dropped_def split: option.splits sum.splits)
  then have "d1 = d \<or> (\<exists>g k. d1 = fst (cas_inbound g ?f k d))"
    using pair_fst [OF inbound_writerD(5)] by blast
  then have "wf_db d1 \<and> (\<exists>es. d1 = d\<lparr>inbound_events := es\<rparr>) \<and> (\<forall>k. get_inbound d1 k = get_inbound d k
      \<or> (\<exists>e reason source. get_inbound d k = Some e \<and> get_inbound d1 k = Some (mark_candidate reason source now e)))"
  proof (elim disjE exE)
    assume "d1 = d"
    moreover have "d = d\<lparr>inbound_events := inbound_events d\<rparr>" by simp
    ultimately show ?thesis using assms(1) by blast
  next
    fix g k
    assume d1: "d1 = fst (cas_inbound g ?f k d)"
    have "get_inbound d1 j = get_inbound d j
      \<or> (\<exists>e reason source. get_inbound d j = Some e \<and> get_inbound d1 j = Some (mark_candidate reason source now e))" for j
      unfolding d1 inbounds.get_cas [OF assms(1) mark_candidate_id] by (cases "get_inbound d k") auto
    then show ?thesis using inbounds.wf_cas [OF assms(1) mark_candidate_id] cas_inbound_table unfolding d1 by blast
  qed
  then show "wf_db d1" "\<exists>es. d1 = d\<lparr>inbound_events := es\<rparr>" "\<forall>k. get_inbound d1 k = get_inbound d k \<or> (\<exists>e reason source. get_inbound d k = Some e
       \<and> get_inbound d1 k = Some (mark_candidate reason source now e))" by blast+
qed

lemma mark_sets_candidate:
  assumes "wf_db d" "mark_dropped r now d = (d1, marked)" "guarantee_breach r = Some b" "ti_inboundSeq (tx_identity r) = Some k"
    "get_inbound d k = Some e" "\<not> terminal_record_for k d" "terminal_outbound_for k d = []" "\<not> linked_inbound k d"
  shows "\<exists>e1. get_inbound d1 k = Some e1 \<and> ie_candidate_reason e1 \<noteq> None"
proof -
  let ?f = "mark_candidate ''runtime_fault_no_terminal_outbound'' ''runtime_fault_disarm'' now"
  let ?g = "\<lambda>r. ie_candidate_reason r = None \<and> \<not> terminal_record_for k d \<and> terminal_outbound_for k d = []"
  have "(d1, marked) = cas_inbound ?g ?f k d"
    using assms(2-4) no_candidate_abort [OF assms(8)]
    by (simp add: mark_dropped_def markContinuityCandidateIfNoTerminalOutbound_def update_inbound_def)
  then have "d1 = fst (cas_inbound ?g ?f k d)" by (metis fst_conv)
  then show ?thesis using assms(5-7) by (auto simp: inbounds.get_cas [OF assms(1) mark_candidate_id])
qed

text \<open>A request for an event without a terminal record is the first one.\<close>

lemma request_applies:
  assumes "finalizeTurnTerminal p now (d, c) = (s, Inr out)" "normalizeFinalizeTurnTerminalParams p = Inr q"
    "fp_inboundSeq (fz_terminal q) = Some k" "\<not> terminal_record_for k d"
  shows "rt_applied (fr_record out)"
proof (cases rule: finalizeD [OF assms(1)])
  case (1 q' e r)
  have "find (terminal_keyed (fp_inboundSeq (fz_terminal q)) (fp_logicalTurnId (fz_terminal q)) (fp_generation (fz_terminal q)))
      (terminal_records d) = None"
    using assms(3,4) by (auto simp: find_None_iff terminal_keyed_def terminal_record_for_def list_ex_iff seq_key_def)
  then have "rt_applied r"
    using 1(1,2) assms(2) by (auto simp: runRecordTurnTerminal_def Let_def throw_if_Inr)
  with 1(3) show ?thesis by simp
qed

lemma mark_keeps_fresh:
  assumes "wf_db d" "mark_dropped r now d = (d1, marked)"
  shows "fresh_turn i k d \<Longrightarrow> fresh_turn i k d1" "unguarded_turn ks k d1 = unguarded_turn ks k d" "answer_of i d1 m x = answer_of i d m x" "job_key_taken d1 n jp = job_key_taken d n jp"
    "map_option ie_message_id (get_inbound d1 k) = map_option ie_message_id (get_inbound d k)" "last_terminal_id d1 = last_terminal_id d"
proof -
  note frame = mark_dropped_frame [OF assms]
  from frame(2) obtain es where es: "d1 = d\<lparr>inbound_events := es\<rparr>" by blast
  have terminal: "getTurnTerminal a b c d1 = getTurnTerminal a b c d" for a b c by (simp add: getTurnTerminal_def es)
  show "fresh_turn i k d \<Longrightarrow> fresh_turn i k d1"
    using frame(3) [rule_format, of k] unfolding fresh_turn_def terminal by auto
  show "unguarded_turn ks k d1 = unguarded_turn ks k d"
    by (simp add: unguarded_turn_def es linked_inbound_def completed_source_def proof_op_def corroborated_selected_def
        corroborating_def closure_selected_def)
  show "answer_of i d1 m x = answer_of i d m x" by (simp add: answer_of_def get_op_def es)
  show "job_key_taken d1 n jp = job_key_taken d n jp" by (simp add: job_key_taken_def es)
  show "map_option ie_message_id (get_inbound d1 k) = map_option ie_message_id (get_inbound d k)"
    using frame(3) [rule_format, of k] by auto
  show "last_terminal_id d1 = last_terminal_id d" by (simp add: es)
qed

text \<open>The queue's input and its next owner, as a handed-over turn needs them.\<close>

definition sound_handover :: "turn_identity \<Rightarrow> recovery_owner \<Rightarrow> replay_envelope \<Rightarrow> bool" where
  "sound_handover i ro replay \<longleftrightarrow> bounded_id (rw_logicalTurnId ro) \<and> bounded_id (rw_managerId ro) \<and> positive_safe (rw_generation ro)
     \<and> (rw_logicalTurnId ro, rw_managerId ro, rw_generation ro) \<noteq> (ti_logicalTurnId i, ti_managerId i, ti_generation i)
     \<and> bounded_id (re_sourceMessageId replay) \<and> bounded_id (re_senderJid replay)
     \<and> (\<forall>s. re_senderName replay = Some s \<longrightarrow> length s \<le> TURN_RECOVERY_MAX_NAME_BYTES)
     \<and> (\<forall>s. re_groupName replay = Some s \<longrightarrow> length s \<le> TURN_RECOVERY_MAX_NAME_BYTES)
     \<and> isNonEmptyString (re_text replay) \<and> length (re_text replay) \<le> TURN_RECOVERY_MAX_TEXT_BYTES
     \<and> (re_isGroup replay \<or> re_groupName replay = None)"

text \<open>Attempts that cannot have the answers they are given: the finalizer reports them as incidents.\<close>

definition consistent_answers :: "attempt_outcome \<Rightarrow> int list \<Rightarrow> outbound_status set \<Rightarrow> bool" where
  "consistent_answers a ks sts \<longleftrightarrow> (attempt_kind_str a = ''admission_rejected'' \<longrightarrow> ks = [])
     \<and> (a \<in> {Ao_suppressed_by_policy, Ao_withheld_by_policy} \<longrightarrow> Os_failed_permanent \<notin> sts)"

lemma derived_mutation_exists:
  assumes "typed_outcome (tx_attempt r)" "ti_inboundSeq (tx_identity r) = Some k"
    "tx_disposition r = Td_failed_terminal \<Longrightarrow> failed_or_rejected (tx_attempt r)"
  shows "\<exists>m. deriveTerminalInboundMutation (derived_axes r t) = Inr m"
proof (cases "tx_disposition r = Td_failed_terminal")
  case True
  let ?t = "t\<lparr>fp_inboundSeq := Some k, fp_inboundDisposition := ''failed_terminal''\<rparr>"
  obtain c where "expectedTerminalInboundFailureClass
      (?t\<lparr>fp_attemptKind := attempt_kind_str (tx_attempt r), fp_attemptFailureClass := persistedAttemptFailureClass (tx_attempt r)\<rparr>) = Inr c"
    using typed_failure_class [OF assms(1) assms(3) [OF True], of ?t] by blast
  with True assms(2) show ?thesis by (simp add: deriveTerminalInboundMutation_def derived_axes_def)
next
  case False
  with assms(2) show ?thesis
    by (cases "tx_disposition r") (simp_all add: deriveTerminalInboundMutation_def derived_axes_def)
qed

lemma effective_persisted_op: "persisted_delivery_op (effective_evidence a e) = Some m \<Longrightarrow> effective_evidence a e = e"
  by (cases "attempt_kind_str a = ''failed'' \<and> delivery_kind_str e = ''echoed''") (auto simp: effective_evidence_def)

lemma disposition_exists:
  assumes "attempt_kind_str a = ''admission_rejected'' \<Longrightarrow> e = De_none" "a \<in> {Ao_suppressed_by_policy, Ao_withheld_by_policy} \<Longrightarrow> delivery_kind_str e \<noteq> ''not_sent''"
  shows "\<exists>x. deriveInboundDisposition (effective_attempt a (effective_evidence a e) w) (effective_evidence a e) = Inr x
    \<and> (x = Td_finalized_replied \<longrightarrow> delivery_kind_str (effective_evidence a e) = ''echoed'')
    \<and> (x = Td_finalized_no_reply_policy \<longrightarrow> persisted_delivery_kind (effective_evidence a e) = ''none'')
    \<and> (x = Td_finalized_no_reply_policy \<longrightarrow> effective_attempt a (effective_evidence a e) w \<in> {Ao_suppressed_by_policy, Ao_withheld_by_policy})
    \<and> (x = Td_failed_terminal \<longrightarrow> failed_or_rejected (effective_attempt a (effective_evidence a e) w)
         \<and> persisted_delivery_kind (effective_evidence a e) = ''none'')
    \<and> (x = Td_transferred_to_recovery_owner \<longleftrightarrow> unresolved_delivery (effective_evidence a e))
    \<and> x \<noteq> Td_unfinalized_retry_owned"
  using assms
  by (cases a; cases e; simp add: deriveInboundDisposition_def effective_attempt_def effective_evidence_def
      unresolved_delivery_def persisted_delivery_kind_def)

lemma sound_runtime_turn:
  assumes "sound_identity (xt_identity p)" "typed_outcome (xt_attempt p)" "deriveDeliveryEvidence d (xt_identity p) ks = Inr e"
    "consistent_answers (xt_attempt p) ks (answer_status (xt_identity p) d ks)" "xt_owner p = Some ro" "xt_replay p = Some replay"
  obtains r where "runtime_terminal p (effective_evidence (xt_attempt p) e) w = Inr r" "sound_turn r" "evidence_fits r"
    "tx_disposition r = Td_finalized_replied \<Longrightarrow> delivery_kind_str (tx_delivery r) = ''echoed''"
    "tx_disposition r = Td_finalized_no_reply_policy \<Longrightarrow> tx_attempt r \<in> {Ao_suppressed_by_policy, Ao_withheld_by_policy}"
    "tx_disposition r = Td_failed_terminal \<Longrightarrow> failed_or_rejected (tx_attempt r)"
    "tx_disposition r = Td_transferred_to_recovery_owner \<longleftrightarrow> unresolved_delivery (tx_delivery r)"
    "tx_delivery r = effective_evidence (xt_attempt p) e" "tx_identity r = xt_identity p"
proof -
  let ?a = "xt_attempt p" and ?e = "effective_evidence (xt_attempt p) e"
  note ev = answer_evidenceD [OF assms(3)]
  have admission: "attempt_kind_str ?a = ''admission_rejected'' \<Longrightarrow> e = De_none" using assms(4) ev(2) by (simp add: consistent_answers_def)
  have policy: "?a \<in> {Ao_suppressed_by_policy, Ao_withheld_by_policy} \<Longrightarrow> delivery_kind_str e \<noteq> ''not_sent''"
    using assms(4) ev(6) unfolding consistent_answers_def by blast
  obtain x where x: "deriveInboundDisposition (effective_attempt ?a ?e w) ?e = Inr x"
    "x = Td_finalized_replied \<longrightarrow> delivery_kind_str ?e = ''echoed''"
    "x = Td_finalized_no_reply_policy \<longrightarrow> persisted_delivery_kind ?e = ''none''"
    "x = Td_finalized_no_reply_policy \<longrightarrow> effective_attempt ?a ?e w \<in> {Ao_suppressed_by_policy, Ao_withheld_by_policy}"
    "x = Td_failed_terminal \<longrightarrow> failed_or_rejected (effective_attempt ?a ?e w) \<and> persisted_delivery_kind ?e = ''none''"
    "x = Td_transferred_to_recovery_owner \<longleftrightarrow> unresolved_delivery ?e" "x \<noteq> Td_unfinalized_retry_owned"
    using disposition_exists [OF admission policy, where w = w] by blast
  let ?r = "\<lparr>tx_identity = xt_identity p, tx_attempt = effective_attempt ?a ?e w, tx_disposition = x, tx_delivery = ?e\<rparr>"
  have "typed_outcome (effective_attempt ?a ?e w)" using assms(2) by (simp add: effective_attempt_def)
  moreover have "positive_safe m" if "persisted_delivery_op ?e = Some m" for m
    using that ev(5) [of m] effective_persisted_op [OF that] by auto
  ultimately have "sound_turn ?r" using assms(1) by (simp add: sound_turn_def)
  moreover have "evidence_fits ?r" using x(3,5,7) by (auto simp: evidence_fits_def)
  moreover have "runtime_terminal p ?e w = Inr ?r" using x(1) assms(5,6) by (simp add: runtime_terminal_def Let_def)
  ultimately show ?thesis by (intro that [of ?r]) (use x(2,4-6) in simp_all)
qed

lemma check_owner_sound: "sound_handover i ro replay \<Longrightarrow> check_recovery_owner (Some ro) = Inr ()"
  by (auto simp: sound_handover_def check_recovery_owner_def throw_if_def bounded_id_def positive_safe_def safe_integer_def)

text \<open>The request of a sound runtime turn passes the contract.\<close>

lemma runtime_request_passes:
  assumes r: "sound_turn r" "evidence_fits r" "tx_disposition r = Td_finalized_replied \<Longrightarrow> delivery_kind_str (tx_delivery r) = ''echoed''"
    "tx_disposition r = Td_finalized_no_reply_policy \<Longrightarrow> tx_attempt r \<in> {Ao_suppressed_by_policy, Ao_withheld_by_policy}"
    "tx_disposition r = Td_failed_terminal \<Longrightarrow> failed_or_rejected (tx_attempt r)"
    "tx_disposition r = Td_transferred_to_recovery_owner \<longleftrightarrow> unresolved_delivery (tx_delivery r)"
    and seq: "ti_inboundSeq (tx_identity r) = Some k"
    and p: "xt_owner p = Some ro" "xt_replay p = Some replay" "sound_handover (tx_identity r) ro replay"
      "xt_bookkeeping p = None" "xt_capabilityDecision p = None" "\<not> xt_bestEffort p"
  shows "\<exists>t m job. runtime_request p r = Inr (adapted_request t m job)
    \<and> normalizeFinalizeTurnTerminalParams (adapted_request t m job) = Inr (adapted_request t m job)
    \<and> toTurnTerminalPersistence r (if tx_disposition r = Td_transferred_to_recovery_owner then Some ro else None) = Inr t
    \<and> (\<forall>jp. job = Some jp \<longrightarrow> jp_sourceMessageId jp = re_sourceMessageId replay \<and> jp_sourceInboundSeq jp = k)"
proof -
  let ?tr = "tx_disposition r = Td_transferred_to_recovery_owner"
  let ?owner = "if ?tr then Some ro else None"
  have owner: "check_recovery_owner ?owner = Inr ()"
    using check_owner_sound [OF p(3)] by (simp add: check_recovery_owner_def [of None])
  have unknown: "delivery_kind_str (tx_delivery r) = ''delivery_unknown'' \<Longrightarrow> ?tr" using r(6) by (simp add: unresolved_delivery_def)
  obtain t where t: "toTurnTerminalPersistence r ?owner = Inr t"
  proof (cases ?tr)
    case True
    with owner r(6) that show ?thesis by (simp add: toTurnTerminalPersistence_def Let_def throw_if_def)
  next
    case False
    then have "delivery_kind_str (tx_delivery r) \<noteq> ''delivery_unknown''" using unknown by blast
    with False owner that show ?thesis by (simp add: toTurnTerminalPersistence_def Let_def throw_if_def)
  qed
  obtain m0 where "deriveTerminalInboundMutation (derived_axes r t) = Inr m0"
    using derived_mutation_exists [OF _ seq r(5), of t] r(1) by (auto simp: sound_turn_def)
  then obtain m where m: "toInboundMutation r t = Inr m"
    using r(3-5) by (cases "tx_disposition r") (auto simp: toInboundMutation_def throw_if_def)
  have built: "toTurnFinalizationPersistence r ?owner = Inr (t, m)" using t m by (simp add: toTurnFinalizationPersistence_def)
  obtain job where job: "(case (?owner, xt_replay p) of
         (Some ro, Some replay) \<Rightarrow> and_then (toTurnRecoveryJobPersistence r ro replay) (\<lambda>j. Inr (Some j)) | _ \<Rightarrow> Inr None) = Inr job"
    "case ?owner of None \<Rightarrow> job = None
     | Some ro \<Rightarrow> within_store_limits r ro replay \<and> (\<exists>j. job = Some j \<and> toTurnRecoveryJobPersistence r ro replay = Inr j)"
    "\<forall>jp. job = Some jp \<longrightarrow> jp_sourceMessageId jp = re_sourceMessageId replay \<and> jp_sourceInboundSeq jp = k"
  proof (cases ?tr)
    case True
    then obtain j where j: "toTurnRecoveryJobPersistence r ro replay = Inr j" "jp_sourceMessageId j = re_sourceMessageId replay"
      "jp_sourceInboundSeq j = k"
      using t seq p(3) by (auto simp: toTurnRecoveryJobPersistence_def Let_def throw_if_def sound_handover_def bounded_id_def)
    have "within_store_limits r ro replay" using p(3) by (simp add: within_store_limits_def sound_handover_def bounded_id_def)
    with j True p(2) show ?thesis by (intro that [of "Some j"]) simp_all
  next
    case False
    then show ?thesis by (intro that [of None]) simp_all
  qed
  have "runtime_request p r = Inr (adapted_request t m job)"
    using built job(1) p(1,4-6) by (simp add: runtime_request_def Let_def adapted_request_def cong: if_cong)
  moreover have "normalizeFinalizeTurnTerminalParams (adapted_request t m job) = Inr (adapted_request t m job)"
    using adapted_normalizes [OF r(1) built job(2)] r(2) by (auto split: sum.splits)
  ultimately show ?thesis using t job(3) by blast
qed

text \<open>What a recorded end leaves of the inbound event: closed, or owned by a recovery job.\<close>

definition event_settled :: "turn_result \<Rightarrow> int \<Rightarrow> db \<Rightarrow> bool" where
  "event_settled r k d \<longleftrightarrow> (if tx_disposition r = Td_transferred_to_recovery_owner
     then \<exists>j \<in> set (recovery_jobs d). rj_source_inbound_seq j = k \<and> valid_links d j \<noteq> None
     else \<exists>e. get_inbound d k = Some e \<and> ie_processing_status e \<in> {Is_complete, Is_failed})"

lemma finalized_event_settled:
  assumes "wf_db d" "finalizeTurnTerminal q now (d, c) = ((d', c'), Inr out)" "rt_applied (fr_record out)"
    "normalizeFinalizeTurnTerminalParams q = Inr q" "fp_inboundSeq (fz_terminal q) = Some k"
    "fp_inboundDisposition (fz_terminal q) = turn_disposition_str (tx_disposition r)" "tx_disposition r \<noteq> Td_unfinalized_retry_owned"
    "\<forall>jp. fz_recoveryJob q = Some jp \<longrightarrow> jp_sourceInboundSeq jp = k"
  shows "event_settled r k d'"
proof (rule finalizedE [OF assms(1-3)])
  fix q' e res job dec
  assume q': "normalizeFinalizeTurnTerminalParams q = Inr q'" and rec: "runRecordTurnTerminal (fz_terminal q') now d = Inr (e, res)" "rt_applied res"
    and w: "finalize_winner q' (rt_recordId res) now e c = Inr (d', c', job, dec)"
  have same: "q' = q" using q' assms(4) by simp
  note closed = winner_finalizes [OF normalized_checks(1-3) [OF q'] assms(1) rec w, unfolded same]
  show ?thesis
  proof (cases "tx_disposition r = Td_transferred_to_recovery_owner")
    case True
    then have "is_transfer (fz_terminal q)" using assms(6) by (simp add: is_transfer_def)
    then obtain jp j where "fz_recoveryJob q = Some jp" "j \<in> set (recovery_jobs d')" "recoveryJobMatches j jp" "valid_links d' j \<noteq> None"
      using closed(3) by (auto simp: transfer_visible_def)
    with assms(8) True show ?thesis by (auto simp: event_settled_def recoveryJobMatches_def)
  next
    case False
    have "deriveTerminalInboundMutation (fz_terminal q) = Inr (fz_inbound q)" using normalized_checks(6) [OF assms(4)] .
    then obtain m where "fz_inbound q = Some m" "mutation_seq m = k"
      using assms(5-7) False by (cases "tx_disposition r") (auto simp: deriveTerminalInboundMutation_def and_then_Inr dest!: sym [of _ "fz_inbound q"])
    with closed(1) obtain x where "get_inbound d' k = Some (closed_row m now x)" by (auto simp: inbound_closed_def)
    with False show ?thesis by (auto simp: event_settled_def closed_row_def split: inbound_mutation.splits)
  qed
qed

lemma runtime_turn_ends:
  assumes "wf_db d" "sound_identity (xt_identity p)" "typed_outcome (xt_attempt p)" "xt_answers p = Answers_ready ks w"
    "\<forall>k \<in> set ks. answerable (xt_identity p) d k" "consistent_answers (xt_attempt p) ks (answer_status (xt_identity p) d ks)"
    "fresh_turn (xt_identity p) k d" "unguarded_turn ks k d"
    "\<forall>j \<in> set (recovery_jobs d). rj_source_inbound_seq_key j \<noteq> k \<and> rj_terminal_record_id j \<le> last_terminal_id d"
    "xt_owner p = Some ro" "xt_replay p = Some replay" "sound_handover (xt_identity p) ro replay"
    "map_option ie_message_id (get_inbound d k) = Some (re_sourceMessageId replay)"
    "xt_bookkeeping p = None" "xt_capabilityDecision p = None" "\<not> xt_bestEffort p"
  shows "\<exists>d' r receipt alerts. finalizeRuntimeTurn sink p now (d, c) = ((d', c), Turn_terminal r receipt, alerts)
    \<and> rt_applied (fr_record receipt) \<and> fr_winnerMatchesRequest receipt \<and> event_settled r k d'
    \<and> (\<exists>e. deriveDeliveryEvidence d (xt_identity p) ks = Inr e \<and> runtime_terminal p (effective_evidence (xt_attempt p) e) w = Inr r)"
proof -
  let ?i = "xt_identity p"
  obtain e where e: "deriveDeliveryEvidence d ?i ks = Inr e" using evidence_exists [OF assms(2,5)] by blast
  let ?e = "effective_evidence (xt_attempt p) e"
  obtain r where r: "runtime_terminal p ?e w = Inr r" "sound_turn r" "evidence_fits r"
    "tx_disposition r = Td_finalized_replied \<Longrightarrow> delivery_kind_str (tx_delivery r) = ''echoed''"
    "tx_disposition r = Td_finalized_no_reply_policy \<Longrightarrow> tx_attempt r \<in> {Ao_suppressed_by_policy, Ao_withheld_by_policy}"
    "tx_disposition r = Td_failed_terminal \<Longrightarrow> failed_or_rejected (tx_attempt r)"
    "tx_disposition r = Td_transferred_to_recovery_owner \<longleftrightarrow> unresolved_delivery (tx_delivery r)"
    "tx_delivery r = ?e" "tx_identity r = ?i"
    using sound_runtime_turn [OF assms(2,3) e assms(6,10,11), of w] by blast
  have seq: "ti_inboundSeq (tx_identity r) = Some k" using assms(7) r(9) by (simp add: fresh_turn_def)
  have handover: "sound_handover (tx_identity r) ro replay" using assms(12) r(9) by simp
  obtain t m job where q: "runtime_request p r = Inr (adapted_request t m job)"
    "normalizeFinalizeTurnTerminalParams (adapted_request t m job) = Inr (adapted_request t m job)"
    "toTurnTerminalPersistence r (if tx_disposition r = Td_transferred_to_recovery_owner then Some ro else None) = Inr t"
    "\<forall>jp. job = Some jp \<longrightarrow> jp_sourceMessageId jp = re_sourceMessageId replay \<and> jp_sourceInboundSeq jp = k"
    using runtime_request_passes [OF r(2-7) seq assms(10,11) handover assms(14-16)] by blast
  note t = persistedD [OF q(3)]
  obtain d1 marked where mark: "mark_dropped r now d = (d1, marked)" by fastforce
  note wf1 = mark_dropped_frame(1) [OF assms(1) mark] and keeps = mark_keeps_fresh [OF assms(1) mark]
  have fresh: "fresh_turn ?i k d1" using keeps(1) [OF assms(7)] .
  have free: "unguarded_turn ks k d1" unfolding keeps(2) by (rule assms(8))
  have jobs: "\<forall>jp. fz_recoveryJob (adapted_request t m job) = Some jp \<longrightarrow>
      map_option ie_message_id (get_inbound d1 k) = Some (jp_sourceMessageId jp) \<and> \<not> job_key_taken d1 (last_terminal_id d1 + 1) jp"
    using q(4) assms(9,13) keeps(5) unfolding keeps(4,6) by (auto simp: job_key_taken_def list_ex_iff)
  have delivery: "fp_deliveryKind t = ''none'' \<or> (\<exists>m x. fp_deliveryOpId t = Some m \<and> m \<in> set ks \<and> answer_of ?i d1 m x
      \<and> DELIVERY_STATUS_PROOF (fp_deliveryKind t) = Some (op_status x))"
  proof (cases "persisted_delivery_op ?e")
    case None
    with delivery_kind_cases(1) [of ?e] t(11) r(8) show ?thesis by simp
  next
    case (Some n)
    from effective_persisted_op [OF Some] Some answer_evidenceD(5) [OF e, of n]
    show ?thesis unfolding t(11,12) r(8) keeps(3) by auto
  qed
  obtain d' out where fin: "finalizeTurnTerminal (adapted_request t m job) now (d1, c) = ((d', c), Inr out)"
    "rt_applied (fr_record out)" "fr_winnerMatchesRequest out"
    using fresh_finalization_wins [OF wf1 q(2) _ _ fresh free _ _ _ _ _ jobs, of now c] delivery t(2-5,7) r(9) seq by auto
  have "tx_disposition r \<noteq> Td_unfinalized_retry_owned"
    using disposition_of_evidence(5) [OF runtime_terminalD(4) [OF r(1)]] .
  then have "event_settled r k d'"
    using finalized_event_settled [OF wf1 fin(1,2) q(2)] t(4,10) seq q(4) by simp
  moreover have "finalizeRuntimeTurn sink p now (d, c) = ((d', c), Turn_terminal r out,
      case guarantee_breach r of None \<Rightarrow> [] | Some b \<Rightarrow> [Guarantee_breach b (fr_effectiveDisarmed out) marked])"
    using assms(4) e r(1) mark q(1) fin(1,3) by (simp add: finalizeRuntimeTurn_def finalize_attempt_def)
  ultimately show ?thesis using fin(2,3) e r(1) by blast
qed

section \<open>Properties\<close>

text \<open>C3: a runtime turn claims no more than its answers prove. Every answer operation belongs to the turn. A
  turn is finalized as replied only if it has answers, all of them echoed, and the attempt did not fail; as a
  no-reply only if it has no answer; as failed only if no answer is unresolved, with answers all echoed only
  for a failed attempt; and it is handed over only while an answer is pending, submitted or in doubt.\<close>

theorem runtime_turn_claims_what_was_delivered:
  assumes "finalizeRuntimeTurn sink p now s = (s', Turn_terminal r receipt, alerts)"
  shows "\<exists>ks w. xt_answers p = Answers_ready ks w \<and> (\<forall>k \<in> set ks. \<exists>x. answer_of (xt_identity p) (fst s) k x)
    \<and> (let sts = answer_status (xt_identity p) (fst s) ks; unresolved = sts \<inter> {Os_pending, Os_submitted, Os_maybe_sent} \<noteq> {} in
       case tx_disposition r of
         Td_finalized_replied \<Rightarrow> ks \<noteq> [] \<and> sts \<subseteq> {Os_echoed} \<and> attempt_kind_str (xt_attempt p) \<notin> {''failed'', ''admission_rejected''}
       | Td_finalized_no_reply_policy \<Rightarrow> ks = []
       | Td_failed_terminal \<Rightarrow> \<not> unresolved \<and> (ks \<noteq> [] \<and> sts \<subseteq> {Os_echoed} \<longrightarrow> attempt_kind_str (xt_attempt p) = ''failed'')
       | Td_transferred_to_recovery_owner \<Rightarrow> unresolved
       | Td_unfinalized_retry_owned \<Rightarrow> False)"
proof (rule finalized_terminalD [OF assms])
  fix ks w e
  assume ready: "xt_answers p = Answers_ready ks w" and e: "deriveDeliveryEvidence (fst s) (xt_identity p) ks = Inr e"
    and r: "runtime_terminal p (effective_evidence (xt_attempt p) e) w = Inr r"
  note ev = answer_evidenceD [OF e] and claim = disposition_of_evidence [OF runtime_terminalD(4) [OF r]]
  show ?thesis
    using ready ev(1-4) claim by (intro exI [of _ ks] exI [of _ w]) (cases "tx_disposition r"; auto simp: Let_def)
qed

text \<open>C1: a turn whose rows are in order reaches its durable end in one call. For a sound identity and attempt, a
  first finalization of an open inbound event, rows that no trigger guards, answers that can be classified and do not contradict the
  attempt, and a sound owner and replay to hand the turn to, the finalizer records a terminal result, and the
  event is closed, or a recovery job that passes its link check owns it.\<close>

theorem runtime_turn_reaches_its_end:
  assumes "wf_db d" "sound_identity (xt_identity p)" "typed_outcome (xt_attempt p)" "xt_answers p = Answers_ready ks w"
    "\<forall>k \<in> set ks. answerable (xt_identity p) d k" "consistent_answers (xt_attempt p) ks (answer_status (xt_identity p) d ks)"
    "fresh_turn (xt_identity p) k d" "unguarded_turn ks k d"
    "\<forall>j \<in> set (recovery_jobs d). rj_source_inbound_seq_key j \<noteq> k \<and> rj_terminal_record_id j \<le> last_terminal_id d"
    "xt_owner p = Some ro" "xt_replay p = Some replay" "sound_handover (xt_identity p) ro replay"
    "map_option ie_message_id (get_inbound d k) = Some (re_sourceMessageId replay)"
    "xt_bookkeeping p = None" "xt_capabilityDecision p = None" "\<not> xt_bestEffort p"
  shows "\<exists>d' r receipt alerts. finalizeRuntimeTurn sink p now (d, c) = ((d', c), Turn_terminal r receipt, alerts)
    \<and> rt_applied (fr_record receipt) \<and> fr_winnerMatchesRequest receipt \<and> event_settled r k d'"
  using runtime_turn_ends [OF assms, of sink now c] by blast

text \<open>C7: a turn that fails without an answer is not dropped in silence. When the finalizer records a failed end of
  a failed attempt that no operator cancelled, it raises the alert of the broken guarantee, and unless the
  event already had a terminal record or a terminal answer it is a continuity candidate from then on.\<close>

theorem dropped_turn_leaves_a_trace:
  assumes "wf_db d" "finalizeRuntimeTurn sink p now (d, c) = ((d', c'), Turn_terminal r receipt, alerts)"
    "tx_disposition r = Td_failed_terminal" "ti_inboundSeq (xt_identity p) = Some k" "tx_attempt r = Ao_failed f" "f \<noteq> Af_operator_cancelled"
    "get_inbound d k = Some e" "\<not> terminal_record_for k d" "terminal_outbound_for k d = []"
  shows "(\<exists>disarmed marked. alerts = [Guarantee_breach (attempt_failure_str f) disarmed marked])
    \<and> (\<exists>e'. get_inbound d' k = Some e' \<and> ie_candidate_reason e' \<noteq> None)"
proof (rule finalized_terminalD [OF assms(2)])
  fix ks w e0
  let ?e = "effective_evidence (xt_attempt p) e0"
  assume r: "runtime_terminal p ?e w = Inr r" and run: "finalize_attempt p ?e w now (d, c) = ((d', c'), Inr (r, receipt, alerts))"
  have breach: "guarantee_breach r = Some (attempt_failure_str f)"
    using assms(3-6) runtime_terminalD(1) [OF r] by (simp add: guarantee_breach_def)
  obtain d1 marked where mark: "mark_dropped r now d = (d1, marked)" by fastforce
  obtain q where q: "runtime_request p r = Inr q" "finalizeTurnTerminal q now (d1, c) = ((d', c'), Inr receipt)"
    "alerts = [Guarantee_breach (attempt_failure_str f) (fr_effectiveDisarmed receipt) marked]"
    using run r mark breach by (auto simp: finalize_attempt_def throw_if_Inr split: sum.splits prod.splits)
  have wf1: "wf_db d1" by (rule mark_dropped_frame(1) [OF assms(1) mark])
  obtain t where t: "toTurnTerminalPersistence r None = Inr t" "fz_terminal q = t"
    using q(1) assms(3) by (auto simp: runtime_request_def Let_def toTurnFinalizationPersistence_def and_then_Inr)
  obtain n where n: "normalizeFinalizeTurnTerminalParams q = Inr n"
    using q(2) by (auto simp: finalizeTurnTerminal_def split: sum.splits simp: and_then_Inr)
  have same: "fz_terminal n = normalized_terminal t" using n t(2) by (cases rule: normalizeE) simp
  then have ids: "fp_inboundSeq (fz_terminal n) = Some k" "fp_inboundDisposition (fz_terminal n) = ''failed_terminal''"
    using persistedD(4,10) [OF t(1)] assms(3,4) runtime_terminalD(1) [OF r] by simp_all
  have "terminal_records d1 = terminal_records d" using mark_dropped_frame(2) [OF assms(1) mark] by auto
  then have "\<not> terminal_record_for k d1" using assms(8) by (simp add: terminal_record_for_def)
  then have first: "rt_applied (fr_record receipt)" using request_applies [OF q(2) n ids(1)] by blast
  have "\<exists>e'. get_inbound d' k = Some e' \<and> ie_candidate_reason e' \<noteq> None"
  proof (rule finalizedE [OF wf1 q(2) first])
    fix q' x res job dec
    assume q': "normalizeFinalizeTurnTerminalParams q = Inr q'" and rec: "runRecordTurnTerminal (fz_terminal q') now d1 = Inr (x, res)" "rt_applied res"
      and w: "finalize_winner q' (rt_recordId res) now x c = Inr (d', c', job, dec)"
    have "q' = n" using n q' by simp
    with normalized_checks(6) [OF n] ids obtain cl where m: "fz_inbound q' = Some (Im_failed k cl)"
      by (auto simp: deriveTerminalInboundMutation_def and_then_Inr dest!: sym [of _ "fz_inbound n"])
    have "\<not> linked_inbound k x" by (rule failed_winner_unlinked [OF w m])
    then have free: "\<not> linked_inbound k d"
      using record_applied(1) [OF rec wf1] mark_dropped_frame(2) [OF assms(1) mark] by (auto simp: linked_inbound_def)
    have "\<exists>e1. get_inbound d1 k = Some e1 \<and> ie_candidate_reason e1 \<noteq> None"
      using mark_sets_candidate [OF assms(1) mark breach _ assms(7) assms(8,9) free] assms(4) runtime_terminalD(1) [OF r] by simp
    with winner_finalizes(1) [OF normalized_checks(1-3) [OF q'] wf1 rec w] m
    show ?thesis by (auto simp: inbound_closed_def)
  qed
  with q(3) show ?thesis by blast
qed

section \<open>An answered turn and a crashed one\<close>

definition sample_turn :: "attempt_outcome \<Rightarrow> int list \<Rightarrow> runtime_turn" where
  "sample_turn a ks = \<lparr>xt_identity = tx_identity handed_over_turn, xt_attempt = a, xt_answers = Answers_ready ks None,
     xt_owner = Some next_owner, xt_replay = Some hello_replay, xt_bookkeeping = None, xt_capabilityDecision = None, xt_bestEffort = False\<rparr>"

lemma sample_identity: "sound_identity (xt_identity (sample_turn a ks))"
proof -
  have "parseWhatsAppDeliveryNamespace ''1@g.us'' \<noteq> None" by code_simp
  then show ?thesis
    by (simp add: sample_turn_def handed_over_turn_def sound_identity_def SCOPES_def bounded_id_def isNonEmptyString_printable
        TURN_RECOVERY_MAX_ID_BYTES_def positive_safe_def)
qed

lemma sample_handover: "sound_handover (xt_identity (sample_turn a ks)) next_owner hello_replay"
proof -
  have limits: "n \<le> TURN_RECOVERY_MAX_ID_BYTES \<longleftrightarrow> n \<le> 2048" "n \<le> TURN_RECOVERY_MAX_TEXT_BYTES \<longleftrightarrow> n \<le> 262144" for n
    by (simp_all add: TURN_RECOVERY_MAX_ID_BYTES_def TURN_RECOVERY_MAX_TEXT_BYTES_def)
  show ?thesis
    by (simp add: sound_handover_def sample_turn_def handed_over_turn_def next_owner_def hello_replay_def bounded_id_def
        isNonEmptyString_printable limits positive_safe_def)
qed

lemma sample_fresh: "fresh_turn (xt_identity (sample_turn a ks)) 4 (turn_db st)"
  by (simp add: fresh_turn_def sample_turn_def handed_over_turn_def turn_db_def empty_db_def get_inbound_def open_inbound_def getTurnTerminal_def)

lemma sample_unguarded: "unguarded_turn ks 4 (turn_db st)"
  by (simp add: unguarded_turn_def linked_inbound_def completed_source_def proof_op_def corroborated_selected_def corroborating_def
      closure_selected_def exists_row_iff turn_db_def empty_db_def)

lemma sample_message: "map_option ie_message_id (get_inbound (turn_db st) 4) = Some (re_sourceMessageId hello_replay)"
  by (simp add: turn_db_def get_inbound_def hello_replay_def)

lemma sample_jobs: "\<forall>j \<in> set (recovery_jobs (turn_db st)). rj_source_inbound_seq_key j \<noteq> k \<and> rj_terminal_record_id j \<le> last_terminal_id (turn_db st)"
  by (simp add: turn_db_def empty_db_def)

lemma sample_answer:
  "answer_of (xt_identity (sample_turn a ks)) (turn_db st) 9 x \<longleftrightarrow> x = turn_op 9 st"
  by (auto simp: answer_of_def sample_turn_def handed_over_turn_def turn_db_def get_op_def turn_op_def)

lemma sample_answers:
  assumes "st \<noteq> Os_sending" "st \<noteq> Os_quarantined"
  shows "\<forall>k \<in> set [9]. answerable (xt_identity (sample_turn a ks)) (turn_db st) k"
    "answer_status (xt_identity (sample_turn a ks)) (turn_db st) [9] = {st}"
  using assms by (auto simp: answerable_def answer_status_def sample_answer positive_safe_def turn_op_def)

lemma sample_plain:
  "xt_owner (sample_turn a ks) = Some next_owner" "xt_replay (sample_turn a ks) = Some hello_replay"
  "xt_bookkeeping (sample_turn a ks) = None" "xt_capabilityDecision (sample_turn a ks) = None" "\<not> xt_bestEffort (sample_turn a ks)"
  "xt_answers (sample_turn a ks) = Answers_ready ks None" "xt_attempt (sample_turn a ks) = a"
  by (simp_all add: sample_turn_def)

lemma sample_run:
  assumes "typed_outcome a" "\<forall>k \<in> set ks. answerable (xt_identity (sample_turn a ks)) (turn_db st) k"
    "consistent_answers a ks (answer_status (xt_identity (sample_turn a ks)) (turn_db st) ks)"
  shows "\<exists>d' r receipt alerts. finalizeRuntimeTurn None (sample_turn a ks) 5 (turn_db st, empty_capability_db)
      = ((d', empty_capability_db), Turn_terminal r receipt, alerts)
    \<and> (\<exists>e. deriveDeliveryEvidence (turn_db st) (xt_identity (sample_turn a ks)) ks = Inr e
         \<and> runtime_terminal (sample_turn a ks) (effective_evidence a e) None = Inr r)"
  using runtime_turn_ends [OF turn_wf sample_identity _ sample_plain(6) assms(2) _ sample_fresh sample_unguarded sample_jobs sample_plain(1,2)
      sample_handover sample_message sample_plain(3-5), of None 5 empty_capability_db] assms(1,3)
  unfolding sample_plain(7) by blast

theorem runtime_turn_reaches_its_end_witness:
  "\<exists>d' r receipt alerts. finalizeRuntimeTurn None (sample_turn Ao_completed [9]) 5 (turn_db Os_pending, empty_capability_db)
      = ((d', empty_capability_db), Turn_terminal r receipt, alerts) \<and> event_settled r 4 d'"
proof -
  have "consistent_answers (xt_attempt (sample_turn Ao_completed [9])) [9]
      (answer_status (xt_identity (sample_turn Ao_completed [9])) (turn_db Os_pending) [9])"
    by (simp add: consistent_answers_def sample_plain)
  note consistent = this
  have typed: "typed_outcome (xt_attempt (sample_turn Ao_completed [9]))" by (simp add: sample_plain)
  have "\<forall>k \<in> set [9]. answerable (xt_identity (sample_turn Ao_completed [9])) (turn_db Os_pending) k"
    by (rule sample_answers) simp_all
  from runtime_turn_reaches_its_end [OF turn_wf sample_identity typed sample_plain(6) this consistent sample_fresh sample_unguarded sample_jobs
      sample_plain(1,2) sample_handover sample_message sample_plain(3-5), where sink = None and now = 5 and c = empty_capability_db]
  show ?thesis by blast
qed

theorem runtime_turn_claims_what_was_delivered_witness:
  "\<exists>s' r receipt alerts. finalizeRuntimeTurn None (sample_turn Ao_completed [9]) 5 (turn_db Os_echoed, empty_capability_db)
      = (s', Turn_terminal r receipt, alerts) \<and> tx_disposition r \<noteq> Td_failed_terminal \<and> tx_disposition r \<noteq> Td_transferred_to_recovery_owner"
proof -
  let ?p = "sample_turn Ao_completed [9]"
  have "consistent_answers Ao_completed [9] (answer_status (xt_identity ?p) (turn_db Os_echoed) [9])"
    by (simp add: consistent_answers_def)
  note consistent = this
  have "\<forall>k \<in> set [9]. answerable (xt_identity ?p) (turn_db Os_echoed) k" by (rule sample_answers) simp_all
  moreover have "typed_outcome Ao_completed" by simp
  ultimately obtain s' r receipt alerts where
    run: "finalizeRuntimeTurn None ?p 5 (turn_db Os_echoed, empty_capability_db) = (s', Turn_terminal r receipt, alerts)"
    using sample_run consistent by blast
  have sts: "answer_status (xt_identity ?p) (turn_db Os_echoed) [9] = {Os_echoed}" by (rule sample_answers) simp_all
  have "tx_disposition r \<noteq> Td_failed_terminal \<and> tx_disposition r \<noteq> Td_transferred_to_recovery_owner"
    using runtime_turn_claims_what_was_delivered [OF run] sts
    by (cases "tx_disposition r") (simp_all add: sample_plain Let_def)
  with run show ?thesis by blast
qed

theorem dropped_turn_leaves_a_trace_witness:
  "\<exists>d' c' r receipt alerts disarmed marked e'. finalizeRuntimeTurn None (sample_turn (Ao_failed Af_crash) []) 5 (turn_db Os_echoed, empty_capability_db)
      = ((d', c'), Turn_terminal r receipt, alerts) \<and> alerts = [Guarantee_breach ''crash'' disarmed marked]
    \<and> get_inbound d' 4 = Some e' \<and> ie_candidate_reason e' \<noteq> None"
proof -
  let ?p = "sample_turn (Ao_failed Af_crash) []"
  obtain d' r receipt alerts e where
    run: "finalizeRuntimeTurn None ?p 5 (turn_db Os_echoed, empty_capability_db) = ((d', empty_capability_db), Turn_terminal r receipt, alerts)"
    and e: "deriveDeliveryEvidence (turn_db Os_echoed) (xt_identity ?p) [] = Inr e"
      "runtime_terminal ?p (effective_evidence (Ao_failed Af_crash) e) None = Inr r"
    using sample_run [of "Ao_failed Af_crash" "[]" Os_echoed] by (auto simp: consistent_answers_def)
  have "e = De_none" using e(1) by (simp add: deriveDeliveryEvidence_def)
  with e(2) have r: "tx_disposition r = Td_failed_terminal" "tx_attempt r = Ao_failed Af_crash"
    by (auto simp: runtime_terminal_def Let_def and_then_Inr throw_if_Inr sample_plain effective_evidence_def effective_attempt_def
        deriveInboundDisposition_def)
  obtain ev where ev: "get_inbound (turn_db Os_echoed) 4 = Some ev" by (simp add: turn_db_def get_inbound_def)
  have "ti_inboundSeq (xt_identity ?p) = Some 4" by (simp add: sample_turn_def handed_over_turn_def)
  moreover have "\<not> terminal_record_for 4 (turn_db Os_echoed)" "terminal_outbound_for 4 (turn_db Os_echoed) = []"
    by (simp_all add: terminal_record_for_def terminal_outbound_for_def turn_db_def empty_db_def turn_op_def)
  ultimately show ?thesis
    using dropped_turn_leaves_a_trace [OF turn_wf run r(1) _ r(2) _ ev] run by auto
qed

end
