(* ===== verification/Spec2Isabelle.thy ===== *)
theory Spec2Isabelle
  imports Prelude Evidence Store Triggers Validators Ledger Inbound Jobs JobLaws Leases Settlement Jid Access
    Drain Runs Reconcile Delivery TurnQueue RateLimiter Attestation Obligations ObligationLaws
    Chunking ChunkingLaws Finalize FinalizeTurn FinalizeLaws
    TurnTerminal TurnTerminalLaws InboundClose InboundCloseLaws Cron CronLaws
    TurnFinalizer TurnFinalizerLaws
begin

text \<open>
  \<^bold>\<open>WhatSoup: durable turns and deliveries.\<close>

  WhatSoup runs agents behind chat transports. A message arrives as an inbound event, is queued for the
  agent session of its conversation, becomes a turn, and the turn's answers are sent as outbound operations.
  Everything a restart must not lose is a row of one SQLite database, written by the durability engine
  (\<^verbatim>\<open>src/core/durability.ts\<close>) and the stores beside it. This library models that core: what the rows are,
  how every operation changes them, and which promises hold over any history of operations.

  \<^bold>\<open>How the parts interact.\<close> The turn queue hands inbound turns to the agent one at a time. A finished turn is
  typed by the terminal adapter and recorded by turn finalization, which in one transaction writes the
  terminal record, closes the inbound event, settles the delivery and, when the turn is handed over, creates
  a recovery job and decides the owed capability. Recovery jobs are claimed under leases and settled by the
  echo of their delivery. Outbound operations are claimed, sent through the rate limiter and the transport,
  and end as echoed, ambiguous or failed with versioned evidence; after a restart recovery promotes the
  interrupted ones, reconciles the ambiguous ones and drains what may be sent. Access control decides before
  all this whether a message is answered, and a chat is known by its conversation key.

  \<^bold>\<open>Theories and sources\<close> (files under \<^verbatim>\<open>src/src/\<close>).
  \<^item> \<open>Prelude\<close>: exceptions as values of \<open>error + 'a\<close>, SQL tables as lists of rows with updates and row counts,
    and the locales \<open>row_store\<close> (a table with a compare-and-swap update), \<open>row_pass\<close> and \<open>throwing_pass\<close> (a loop over
    rows, the second ended by an exception). They are interpreted on the tables and loops of the model.
  \<^item> \<open>Evidence\<close> (\<^verbatim>\<open>core/outbound-failure-disposition.ts\<close>): the failure record of a send, its validator, codec and
    classifier, quarantine dispositions and the retry hand-over.
  \<^item> \<open>Store\<close>, \<open>Validators\<close>: the tables of the database as the record \<open>db\<close>, with their keys as the invariant \<open>wf_db\<close>;
    the validators of arguments with the white space of ECMAScript. \<open>Triggers\<close>
    (\<^verbatim>\<open>core/database-migration-41.ts\<close>, \<^verbatim>\<open>core/database-migration-43.ts\<close>, \<^verbatim>\<open>core/database-migrations-37-40.ts\<close>): the
    triggers that keep the proofs of a recovery as they are, and the statements they may abort.
  \<^item> \<open>Ledger\<close>, \<open>Drain\<close>, \<open>Reconcile\<close>, \<open>Delivery\<close> (\<^verbatim>\<open>core/durability.ts\<close>): the outbound operations, the tracked send
    and the drain, the recovery of interrupted, submitted and ambiguous sends, and their composition under
    any interleaving of the send paths.
  \<^item> \<open>Inbound\<close> (\<^verbatim>\<open>core/durability.ts\<close>, \<^verbatim>\<open>core/inbound-status.ts\<close>, \<^verbatim>\<open>core/inbound-failure-class.ts\<close>): the inbound events, the
    guard of lost scheduled turns and the continuity reconciler.
  \<^item> \<open>Jobs\<close>, \<open>JobLaws\<close>, \<open>Leases\<close> (\<^verbatim>\<open>core/turn-recovery-store.ts\<close>): recovery jobs, their leases, requeues and the
    constraints of their table. \<open>Settlement\<close>: the echo and the terminal mark with the transaction wrapper
    (\<^verbatim>\<open>core/db-tx.ts\<close>). \<open>Runs\<close> (\<^verbatim>\<open>core/durability-recovery-evidence.ts\<close>): the evidence of recovery runs.
  \<^item> \<open>Finalize\<close>, \<open>FinalizeTurn\<close>, \<open>FinalizeLaws\<close> (\<^verbatim>\<open>core/turn-finalization-contract.ts\<close>, \<^verbatim>\<open>core/durability.ts\<close>): the
    normalization of a request, checkpoints, and the finalization transaction. \<open>TurnTerminal\<close>, \<open>TurnTerminalLaws\<close>
    (\<^verbatim>\<open>runtimes/agent/turn-terminal.ts\<close>): the typed adapter in front of it. \<open>TurnFinalizer\<close>, \<open>TurnFinalizerLaws\<close>
    (\<^verbatim>\<open>runtimes/agent/turn-finalizer.ts\<close>): the delivery evidence of a runtime turn, its disposition and the whole
    way through the adapter, the contract and the transaction. \<open>InboundClose\<close>, \<open>InboundCloseLaws\<close>
    (\<^verbatim>\<open>core/terminal-record-inbound-close.ts\<close>): the repair of events left open behind a terminal record.
  \<^item> \<open>Attestation\<close>, \<open>Obligations\<close>, \<open>ObligationLaws\<close> (\<^verbatim>\<open>core/capability-attestation.ts\<close>,
    \<^verbatim>\<open>core/capability-obligation-store.ts\<close>, migrations 58 and 60): attested capabilities and the obligations owed, their
    claims, executions, approvals and the triggers that guard them.
  \<^item> \<open>TurnQueue\<close> (\<^verbatim>\<open>runtimes/agent/turn-queue.ts\<close>), \<open>RateLimiter\<close> (\<^verbatim>\<open>transport/outbound-rate-limiter.ts\<close>): asynchronous
    code, split at its awaits and callbacks into the steps of an inductive relation.
  \<^item> \<open>Jid\<close> (\<^verbatim>\<open>core/jid-constants.ts\<close>, \<^verbatim>\<open>core/conversation-key.ts\<close>), \<open>Access\<close> (\<^verbatim>\<open>core/access-list.ts\<close>,
    \<^verbatim>\<open>core/access-policy.ts\<close>, \<^verbatim>\<open>core/access-predicates.ts\<close>, \<^verbatim>\<open>lib/phone.ts\<close>): addresses, conversations and who is answered.
  \<^item> \<open>Chunking\<close>, \<open>ChunkingLaws\<close> (\<^verbatim>\<open>lib/text-chunking.ts\<close>): the splitters of long answers over UTF-16 code units.
  \<^item> \<open>Cron\<close>, \<open>CronLaws\<close> (\<^verbatim>\<open>core/cron.ts\<close>): cron expressions and the next instant they fire.

  \<^bold>\<open>How code is written down.\<close> A class is a record of its state and a method a function that returns the new
  state; a throw is an \<open>Inl\<close>; a closed string union is a datatype with its text. A text is its UTF-8 bytes
  (code units in \<open>Chunking\<close>), a number an integer with the source's checks of safe integers, a time the seconds or
  milliseconds of the clock that is passed as an argument. A prepared statement is a function on the list of
  rows, its \<^verbatim>\<open>changes\<close> a flag or a count. Hash functions, the messenger, alerts, random parts of names, the
  on-disk LID lookup and the formatter of a time zone are arguments.

  \<^bold>\<open>What is shown.\<close>
  \<^item> Evidence: decoding inverts encoding and the classifier only produces valid evidence, within the retry rules.
  \<^item> Ledger: over any history the rows stay well formed and move only along the status machine; a claim is
    exclusive and settled rows are not changed by late answers. At most fifty sends are made for an
    operation under any interleaving of drains, tracked sends and restarts; a drain settles every pending
    operation; a restart leaves no send in doubt unrecorded and replays only what is safe.
  \<^item> Recovery jobs: the coherence of the table is invariant, leases exclude each other, a fenced worker
    cannot write, and no job is claimed more than five times. An echo succeeds or changes nothing,
    and it throws only where a trigger guards its rows; where none does, the echo and the terminal mark of an
    operation without a recovery job commute. A lost scheduled turn stays lost under every inbound writer.
  \<^item> Finalization: a normalized request is typed, a recorded turn is closed and proved, a repeated request
    gets the same answer; the adapter's requests are accepted exactly when the evidence fits. A runtime turn
    claims only what its answers prove, reaches its end when its rows are in order and no trigger guards them, and
    is not dropped in silence;
    nothing is left to close behind a live finalization, and the repair reports and closes exactly what is eligible.
  \<^item> Obligations: claims are bounded and disjoint; which operations on an obligation never throw, and when the
    reservation of an execution and its receipt do.
  \<^item> Turn queue and rate limiter: every admission is accounted for, turns start in order, the queue never
    sleeps with work, and a window never holds more sends than its cap.
  \<^item> Access, chunking, cron: a closed gate is never answered; a split loses only white space, and the fence-aware
    loop returns for every text that does not begin with a newline and does not for a class of those that do; the
    next cron run is the next one, and the UTC clock inverts the calendar.

  \<^bold>\<open>Bounds and fuel.\<close> The limits are those of the code: fifty attempts of an operation, five claims of a job,
  pages and caps of the scans, \<^verbatim>\<open>366 * 24 * 60\<close> minutes of a cron search. A loop that need not end
  (\<open>scan_pages\<close>, the fence-aware splitter) is a partial function into \<open>option\<close>, and that it returns is a theorem.
  A cycle of scans is iterated by its laws with as many calls as there are events and one more, which is
  proved to suffice. All other recursion is on data or has a measure.

  \<^bold>\<open>Not modelled\<close>, and why.
  \<^item> The orchestration of the agent runtime (\<^verbatim>\<open>runtime.ts\<close>, \<^verbatim>\<open>session.ts\<close>, the turn coordinator, the fallback between
    providers): it drives provider processes, timers and sockets, and its durable effects are the operations
    modelled here. The connection of the transports, pairing and credentials: protocols of third-party clients.
  \<^item> The fleet service, health reports and metrics: projections over HTTP that decide nothing of the rows.
  \<^item> Migrations other than the tables above (data definition), the scheduler, deferred turns, background work
    and memory stores; the MCP tools, the console and deployment scripts, which are glue and presentation.
  \<^item> Of the triggers: those on inbound events and those on the echo and the terminal mark of an operation abort
    their statements in the model, as do the trigger and the unique index of a hand-over and all triggers of the
    obligations. Those that keep the proofs of a recovery from the other transitions of an operation, from the
    sweeps and the drain, and from writes to recovery jobs are left out (the paths that send again check for a
    corroboration themselves, which the model has). So are triggers that only a deletion, a data migration or a
    rewrite of an identity can trip. A text holds no NUL character: at
    one, the length of SQLite ends and that of the language does not.
  \<^item> Within modelled files: logging, alerts, health projections and counters for reports; the classification
    of free-form provider errors by regular expressions. SQLite itself is taken to commit and roll back.
\<close>

end
